(* ===== verification/Mw_Prelude.thy ===== *)
theory Mw_Prelude
  imports Complex_Main "HOL-Library.Char_ord" "HOL-Library.List_Lexorder" "HOL-Library.Product_Lexorder"
begin

text \<open>
  Shared vocabulary of the development: results with the question-mark operator, unsigned and
  signed 64-bit ranges with Rust's checked and saturating operations, decimal and trimming
  helpers of \<open>str\<close>, and the generic list lemmas the components use.  Rust strings are UTF-8
  byte strings; they are modelled by \<^typ>\<open>string\<close>, one \<^typ>\<open>char\<close> per byte.
\<close>

named_theorems mw_simps \<open>unfolding rules shared by the components\<close>

section \<open>Results\<close>

type_synonym ('a, 'e) result = "'e + 'a"

abbreviation Ok :: "'a \<Rightarrow> ('a, 'e) result" where
  "Ok \<equiv> Inr"

abbreviation Err :: "'e \<Rightarrow> ('a, 'e) result" where
  "Err \<equiv> Inl"

text \<open>\<open>res_bind m f\<close> is \<open>f(m?)\<close>: the first error ends the computation.\<close>

fun res_bind :: "('a, 'e) result \<Rightarrow> ('a \<Rightarrow> ('b, 'e) result) \<Rightarrow> ('b, 'e) result" where
  "res_bind (Inl e) f = Inl e"
| "res_bind (Inr x) f = f x"

fun map_err :: "('e \<Rightarrow> 'd) \<Rightarrow> ('a, 'e) result \<Rightarrow> ('a, 'd) result" where
  "map_err f (Inl e) = Inl (f e)"
| "map_err f (Inr x) = Inr x"

fun is_ok :: "('a, 'e) result \<Rightarrow> bool" where
  "is_ok (Inl e) = False"
| "is_ok (Inr x) = True"

definition ok_or :: "'a option \<Rightarrow> 'e \<Rightarrow> ('a, 'e) result" where
  "ok_or v e = (case v of None \<Rightarrow> Inl e | Some x \<Rightarrow> Inr x)"

text \<open>\<open>ensure b e\<close> is \<open>if !b { return Err(e) }\<close>.\<close>

definition ensure :: "bool \<Rightarrow> 'e \<Rightarrow> (unit, 'e) result" where
  "ensure b e = (if b then Inr () else Inl e)"

text \<open>\<open>collect_results f xs\<close> is \<open>xs.iter().map(f).collect::<Result<Vec<_>, _>>()\<close>.\<close>

fun collect_results :: "('a \<Rightarrow> ('b, 'e) result) \<Rightarrow> 'a list \<Rightarrow> ('b list, 'e) result" where
  "collect_results f [] = Inr []"
| "collect_results f (x # xs) =
     res_bind (f x) (\<lambda>y. res_bind (collect_results f xs) (\<lambda>ys. Inr (y # ys)))"

lemma res_bind_Ok_iff [simp]: "res_bind m f = Inr y \<longleftrightarrow> (\<exists>x. m = Inr x \<and> f x = Inr y)"
  by (cases m) auto

lemma res_bind_Err_iff: "res_bind m f = Inl e \<longleftrightarrow> m = Inl e \<or> (\<exists>x. m = Inr x \<and> f x = Inl e)"
  by (cases m) auto

lemma map_err_Ok_iff [simp]: "map_err f m = Inr y \<longleftrightarrow> m = Inr y"
  by (cases m) auto

lemma ok_or_Ok_iff [simp]: "ok_or v e = Inr x \<longleftrightarrow> v = Some x"
  by (auto simp: ok_or_def split: option.splits)

lemma ok_or_Some [simp]: "ok_or (Some x) e = Inr x"
  by (simp add: ok_or_def)

lemma ok_or_None [simp]: "ok_or None e = Inl e"
  by (simp add: ok_or_def)

lemma ensure_Ok_iff [simp]: "ensure b e = Inr u \<longleftrightarrow> b"
  by (auto simp: ensure_def)

lemma ensure_Err_iff [simp]: "ensure b e = Inl e' \<longleftrightarrow> \<not> b \<and> e' = e"
  by (auto simp: ensure_def)

lemma ensure_simps [simp]: "ensure True e = Inr ()" "ensure False e = Inl e"
  by (simp_all add: ensure_def)

lemma res_bind_ensure [simp]: "b \<Longrightarrow> res_bind (ensure b e) f = f ()"
  by (simp add: ensure_def)

lemma res_bind_ensure_fail [simp]: "\<not> b \<Longrightarrow> res_bind (ensure b e) f = Inl e"
  by (simp add: ensure_def)

lemma is_ok_iff: "is_ok m \<longleftrightarrow> (\<exists>x. m = Inr x)"
  by (cases m) auto

lemma collect_results_Ok_iff:
  "collect_results f xs = Inr ys \<longleftrightarrow> list_all2 (\<lambda>x y. f x = Inr y) xs ys"
proof (induction xs arbitrary: ys)
  case Nil
  then show ?case by auto
next
  case (Cons x xs)
  then show ?case by (cases ys) auto
qed

lemma collect_results_length: "collect_results f xs = Inr ys \<Longrightarrow> length ys = length xs"
  by (simp add: collect_results_Ok_iff list_all2_lengthD)

lemma collect_results_total:
  "(\<And>x. x \<in> set xs \<Longrightarrow> f x = Inr (g x)) \<Longrightarrow> collect_results f xs = Inr (map g xs)"
  by (induction xs) auto

lemma collect_results_nth:
  "collect_results f xs = Inr ys \<Longrightarrow> i < length xs \<Longrightarrow> f (xs ! i) = Inr (ys ! i)"
  by (auto simp: collect_results_Ok_iff list_all2_conv_all_nth)

lemma collect_results_cong [fundef_cong]:
  "xs = ys \<Longrightarrow> (\<And>x. x \<in> set ys \<Longrightarrow> f x = g x) \<Longrightarrow> collect_results f xs = collect_results g ys"
  by (induction ys arbitrary: xs) auto

lemma list_all2_sides:
  "list_all2 (\<lambda>x y. A x \<and> R x y \<and> B y) xs ys \<longleftrightarrow> list_all A xs \<and> list_all2 R xs ys \<and> list_all B ys"
  by (induction xs ys rule: list_induct2') auto

lemma list_all2_strengthen:
  "list_all2 P xs ys \<Longrightarrow> (\<And>x y. x \<in> set xs \<Longrightarrow> y \<in> set ys \<Longrightarrow> P x y \<Longrightarrow> Q x y) \<Longrightarrow> list_all2 Q xs ys"
  by (rule list.rel_mono_strong)

section \<open>Fixed-width integers\<close>

text \<open>
  A \<open>u64\<close> is a natural number below \<open>2\<^sup>6\<^sup>4\<close>; the operations that can leave the range are
  written out.  SQLite stores signed 64-bit integers, so timestamps are additionally bounded by
  \<open>i64::MAX\<close>.
\<close>

type_synonym u64 = nat

definition U64_MAX :: nat where
  "U64_MAX = 18446744073709551615"

definition I64_MAX :: nat where
  "I64_MAX = 9223372036854775807"

lemma U64_MAX_eq: "U64_MAX = 2 ^ 64 - 1"
  by (simp add: U64_MAX_def)

lemma I64_MAX_eq: "I64_MAX = 2 ^ 63 - 1"
  by (simp add: I64_MAX_def)

definition checked_add :: "u64 \<Rightarrow> u64 \<Rightarrow> u64 option" where
  "checked_add a b = (if a + b \<le> U64_MAX then Some (a + b) else None)"

definition checked_mul :: "u64 \<Rightarrow> u64 \<Rightarrow> u64 option" where
  "checked_mul a b = (if a * b \<le> U64_MAX then Some (a * b) else None)"

definition checked_div :: "u64 \<Rightarrow> u64 \<Rightarrow> u64 option" where
  "checked_div a b = (if b = 0 then None else Some (a div b))"

definition saturating_add :: "u64 \<Rightarrow> u64 \<Rightarrow> u64" where
  "saturating_add a b = min (a + b) U64_MAX"

definition saturating_sub :: "u64 \<Rightarrow> u64 \<Rightarrow> u64" where
  "saturating_sub a b = (if b \<le> a then a - b else 0)"

lemma saturating_sub_eq [simp]: "saturating_sub a b = a - b"
  by (simp add: saturating_sub_def)

lemma checked_add_Some_iff: "checked_add a b = Some c \<longleftrightarrow> a + b \<le> U64_MAX \<and> c = a + b"
  by (auto simp: checked_add_def)

lemma checked_mul_Some_iff: "checked_mul a b = Some c \<longleftrightarrow> a * b \<le> U64_MAX \<and> c = a * b"
  by (auto simp: checked_mul_def)

lemma checked_div_Some_iff: "checked_div a b = Some c \<longleftrightarrow> b \<noteq> 0 \<and> c = a div b"
  by (auto simp: checked_div_def)

text \<open>\<open>Option::filter\<close>.\<close>

definition opt_filter :: "('a \<Rightarrow> bool) \<Rightarrow> 'a option \<Rightarrow> 'a option" where
  "opt_filter p v = (case v of None \<Rightarrow> None | Some x \<Rightarrow> if p x then Some x else None)"

lemma opt_filter_Some_iff [simp]: "opt_filter p v = Some x \<longleftrightarrow> v = Some x \<and> p x"
  by (auto simp: opt_filter_def split: option.splits)

lemma opt_filter_None [simp]: "opt_filter p None = None"
  by (simp add: opt_filter_def)

lemma opt_filter_Some [simp]: "opt_filter p (Some x) = (if p x then Some x else None)"
  by (simp add: opt_filter_def)

section \<open>Ordered association lists\<close>

text \<open>
  \<open>BTreeMap\<close> and \<open>serde_json::Map\<close> (without the \<open>preserve_order\<close> feature) iterate in key order.
  They are association lists with strictly increasing keys; \<open>map_of\<close> is \<open>get\<close>.
\<close>

definition keys_sorted :: "('k::linorder \<times> 'v) list \<Rightarrow> bool" where
  "keys_sorted kvs \<longleftrightarrow> sorted_wrt (<) (map fst kvs)"

fun ord_insert :: "'k::linorder \<Rightarrow> 'v \<Rightarrow> ('k \<times> 'v) list \<Rightarrow> ('k \<times> 'v) list" where
  "ord_insert k v [] = [(k, v)]"
| "ord_insert k v ((k', v') # kvs) =
     (if k < k' then (k, v) # (k', v') # kvs
      else if k = k' then (k, v) # kvs else (k', v') # ord_insert k v kvs)"

definition ord_extend :: "('k::linorder \<times> 'v) list \<Rightarrow> ('k \<times> 'v) list \<Rightarrow> ('k \<times> 'v) list" where
  "ord_extend m kvs = fold (\<lambda>(k, v). ord_insert k v) kvs m"

lemma keys_sorted_Nil [simp]: "keys_sorted []"
  by (simp add: keys_sorted_def)

lemma keys_sorted_Cons [simp]:
  "keys_sorted ((k, v) # kvs) \<longleftrightarrow> (\<forall>k' \<in> fst ` set kvs. k < k') \<and> keys_sorted kvs"
  by (auto simp: keys_sorted_def)

lemma keys_sorted_distinct: "keys_sorted kvs \<Longrightarrow> distinct (map fst kvs)"
  by (simp add: keys_sorted_def strict_sorted_iff)

lemma ord_insert_keys [simp]: "fst ` set (ord_insert k v kvs) = insert k (fst ` set kvs)"
  by (induction k v kvs rule: ord_insert.induct) auto

lemma keys_sorted_ord_insert [simp]: "keys_sorted kvs \<Longrightarrow> keys_sorted (ord_insert k v kvs)"
  by (induction k v kvs rule: ord_insert.induct) auto

lemma map_of_ord_insert [simp]: "map_of (ord_insert k v kvs) = (map_of kvs)(k \<mapsto> v)"
  by (induction k v kvs rule: ord_insert.induct) auto

lemma keys_sorted_ord_extend: "keys_sorted m \<Longrightarrow> keys_sorted (ord_extend m kvs)"
  by (induction kvs arbitrary: m) (auto simp: ord_extend_def split: prod.splits)

lemma map_of_ord_extend:
  "distinct (map fst kvs) \<Longrightarrow> map_of (ord_extend m kvs) = map_of m ++ map_of kvs"
proof (induction kvs arbitrary: m)
  case Nil
  then show ?case by (simp add: ord_extend_def)
next
  case (Cons kv kvs)
  obtain k v where kv: "kv = (k, v)" by (cases kv)
  from Cons.prems kv have k: "k \<notin> fst ` set kvs" and d: "distinct (map fst kvs)"
    by auto
  have "map_of (ord_extend m (kv # kvs)) = map_of (ord_extend (ord_insert k v m) kvs)"
    by (simp add: ord_extend_def kv)
  also have "\<dots> = (map_of m)(k \<mapsto> v) ++ map_of kvs"
    using Cons.IH [OF d, of "ord_insert k v m"] by (simp only: map_of_ord_insert)
  also have "\<dots> = map_of m ++ map_of (kv # kvs)"
    using k map_of_eq_None_iff [of kvs k]
    by (auto simp: kv fun_eq_iff map_add_def split: option.splits)
  finally show ?case .
qed

lemma keys_sorted_map_of_inject:
  assumes xs: "keys_sorted xs" and ys: "keys_sorted ys" and eq: "map_of xs = map_of ys"
  shows "xs = ys"
proof -
  have same: "set xs = set ys"
    using eq map_of_inject_set keys_sorted_distinct [OF xs] keys_sorted_distinct [OF ys] by blast
  have "inj_on fst (set xs)"
    using keys_sorted_distinct [OF xs] by (simp add: distinct_map)
  moreover have "sorted (map fst xs)" "sorted (map fst ys)"
    using xs ys by (auto simp: keys_sorted_def strict_sorted_iff)
  ultimately show ?thesis
    using same map_sorted_distinct_set_unique [of fst xs ys]
      keys_sorted_distinct [OF xs] keys_sorted_distinct [OF ys] by simp
qed

section \<open>Byte strings\<close>

definition byte_of :: "char \<Rightarrow> nat" where
  "byte_of c = of_char c"

definition is_ascii_digit :: "char \<Rightarrow> bool" where
  "is_ascii_digit c \<longleftrightarrow> 48 \<le> byte_of c \<and> byte_of c \<le> 57"

definition is_nonzero_digit :: "char \<Rightarrow> bool" where
  "is_nonzero_digit c \<longleftrightarrow> 49 \<le> byte_of c \<and> byte_of c \<le> 57"

definition is_lower_hex :: "char \<Rightarrow> bool" where
  "is_lower_hex c \<longleftrightarrow> is_ascii_digit c \<or> (97 \<le> byte_of c \<and> byte_of c \<le> 102)"

text \<open>\<open>str::strip_prefix\<close> and \<open>str::strip_suffix\<close>.\<close>

definition str_strip_prefix :: "string \<Rightarrow> string \<Rightarrow> string option" where
  "str_strip_prefix p s = (if take (length p) s = p then Some (drop (length p) s) else None)"

definition str_strip_suffix :: "string \<Rightarrow> string \<Rightarrow> string option" where
  "str_strip_suffix p s = map_option rev (str_strip_prefix (rev p) (rev s))"

lemma str_strip_prefix_Some_iff: "str_strip_prefix p s = Some t \<longleftrightarrow> s = p @ t"
proof
  assume "str_strip_prefix p s = Some t"
  then have "take (length p) s = p" and "t = drop (length p) s"
    by (auto simp: str_strip_prefix_def split: if_splits)
  then show "s = p @ t"
    by (metis append_take_drop_id)
qed (simp add: str_strip_prefix_def)

lemma str_strip_suffix_Some_iff: "str_strip_suffix p s = Some t \<longleftrightarrow> s = t @ p"
proof -
  have "str_strip_suffix p s = Some t \<longleftrightarrow> (\<exists>u. rev s = rev p @ u \<and> t = rev u)"
    by (auto simp: str_strip_suffix_def str_strip_prefix_Some_iff)
  also have "\<dots> \<longleftrightarrow> rev s = rev p @ rev t"
    by (metis rev_rev_ident)
  also have "\<dots> \<longleftrightarrow> s = t @ p"
    by (metis rev_append rev_rev_ident)
  finally show ?thesis .
qed

text \<open>
  \<open>str::trim\<close> removes every leading and trailing character with the Unicode White\_Space
  property.  The list below has the UTF-8 encodings of those characters.  UTF-8 is
  self-synchronizing, so matching an encoding at either end of the bytes is matching a character.
\<close>

definition ws_encodings :: "nat list list" where
  "ws_encodings =
     [[9], [10], [11], [12], [13], [32], [194, 133], [194, 160], [225, 154, 128],
      [226, 128, 128], [226, 128, 129], [226, 128, 130], [226, 128, 131], [226, 128, 132],
      [226, 128, 133], [226, 128, 134], [226, 128, 135], [226, 128, 136], [226, 128, 137],
      [226, 128, 138], [226, 128, 168], [226, 128, 169], [226, 128, 175], [226, 129, 159],
      [227, 128, 128]]"

fun strip_encoding :: "nat list list \<Rightarrow> string \<Rightarrow> string option" where
  "strip_encoding [] s = None"
| "strip_encoding (w # ws) s =
     (if w \<noteq> [] \<and> map byte_of (take (length w) s) = w then Some (drop (length w) s)
      else strip_encoding ws s)"

lemma strip_encoding_shorter:
  "strip_encoding ws s = Some t \<Longrightarrow> length t < length s"
proof (induction ws s rule: strip_encoding.induct)
  case (2 w ws s)
  show ?case
  proof (cases "w \<noteq> [] \<and> map byte_of (take (length w) s) = w")
    case True
    then have "length (take (length w) s) = length w" by (metis length_map)
    with True "2.prems" show ?thesis by (cases w) auto
  next
    case False
    with 2 show ?thesis by (auto split: if_splits)
  qed
qed simp

function trim_with :: "nat list list \<Rightarrow> string \<Rightarrow> string" where
  "trim_with ws s = (case strip_encoding ws s of None \<Rightarrow> s | Some t \<Rightarrow> trim_with ws t)"
  by pat_completeness auto
termination
  by (relation "measure (\<lambda>(ws, s). length s)") (auto dest: strip_encoding_shorter)

declare trim_with.simps [simp del]

definition str_trim :: "string \<Rightarrow> string" where
  "str_trim s = rev (trim_with (map rev ws_encodings) (rev (trim_with ws_encodings s)))"

text \<open>Decimal spelling and parsing of unsigned integers.\<close>

fun digit_char :: "nat \<Rightarrow> char" where
  "digit_char d = char_of (48 + d)"

fun dec_string :: "nat \<Rightarrow> string" where
  "dec_string n =
     (if n < 10 then [digit_char n] else dec_string (n div 10) @ [digit_char (n mod 10)])"

declare dec_string.simps [simp del]

fun dec_value_acc :: "nat \<Rightarrow> string \<Rightarrow> nat" where
  "dec_value_acc acc [] = acc"
| "dec_value_acc acc (c # cs) = dec_value_acc (10 * acc + (byte_of c - 48)) cs"

definition dec_value :: "string \<Rightarrow> nat" where
  "dec_value s = dec_value_acc 0 s"

text \<open>\<open>str::parse::<u64>()\<close>: an optional plus sign, at least one digit, no overflow.\<close>

definition parse_u64 :: "string \<Rightarrow> u64 option" where
  "parse_u64 s =
     (let digits = (case s of c # cs \<Rightarrow> if c = CHR ''+'' then cs else s | [] \<Rightarrow> [])
      in if digits \<noteq> [] \<and> list_all is_ascii_digit digits \<and> dec_value digits \<le> U64_MAX
         then Some (dec_value digits) else None)"

lemma byte_of_digit_char: "d < 10 \<Longrightarrow> byte_of (digit_char d) = 48 + d"
  by (simp add: byte_of_def)

lemma dec_value_acc_append: "dec_value_acc acc (s @ t) = dec_value_acc (dec_value_acc acc s) t"
  by (induction s arbitrary: acc) auto

lemma dec_string_digits: "list_all is_ascii_digit (dec_string n)"
proof (induction n rule: dec_string.induct)
  case (1 n)
  have d: "is_ascii_digit (digit_char m)" if "m < 10" for m
    using that byte_of_digit_char [of m] by (simp only: is_ascii_digit_def) simp
  from 1 show ?case
    by (subst dec_string.simps) (simp add: d del: digit_char.simps)
qed

lemma dec_string_nonempty [simp]: "dec_string n \<noteq> []"
  by (subst dec_string.simps) simp

lemma dec_value_dec_string: "dec_value (dec_string n) = n"
proof (induction n rule: dec_string.induct)
  case (1 n)
  show ?case
  proof (cases "n < 10")
    case True
    then show ?thesis
      using byte_of_digit_char [of n]
      by (subst dec_string.simps) (simp add: dec_value_def del: digit_char.simps)
  next
    case False
    with 1 have "dec_value_acc 0 (dec_string (n div 10)) = n div 10"
      by (simp add: dec_value_def)
    with False show ?thesis
      using byte_of_digit_char [of "n mod 10"]
      by (subst dec_string.simps)
        (simp add: dec_value_def dec_value_acc_append del: digit_char.simps)
  qed
qed

lemma dec_string_inject [simp]: "dec_string m = dec_string n \<longleftrightarrow> m = n"
  by (metis dec_value_dec_string)

section \<open>Big-endian bytes\<close>

text \<open>\<open>u64::to_be_bytes\<close> and \<open>u64::from_be_bytes\<close> on eight-byte strings.\<close>

fun be_bytes :: "nat \<Rightarrow> nat \<Rightarrow> string" where
  "be_bytes 0 n = []"
| "be_bytes (Suc k) n = be_bytes k (n div 256) @ [char_of (n mod 256)]"

definition u64_to_be_bytes :: "u64 \<Rightarrow> string" where
  "u64_to_be_bytes n = be_bytes 8 n"

fun from_be_acc :: "nat \<Rightarrow> string \<Rightarrow> nat" where
  "from_be_acc acc [] = acc"
| "from_be_acc acc (c # cs) = from_be_acc (256 * acc + byte_of c) cs"

definition from_be_bytes :: "string \<Rightarrow> nat" where
  "from_be_bytes s = from_be_acc 0 s"

lemma byte_of_less: "byte_of c < 256"
  unfolding byte_of_def by (cases c) (simp add: of_char_def)

lemma from_be_acc_append: "from_be_acc acc (s @ t) = from_be_acc (from_be_acc acc s) t"
  by (induction s arbitrary: acc) auto

lemma from_be_be_bytes: "from_be_bytes (be_bytes k n) = n mod 256 ^ k"
proof (induction k arbitrary: n)
  case 0
  then show ?case by (simp add: from_be_bytes_def)
next
  case (Suc k)
  have "from_be_acc 0 (be_bytes k (n div 256)) = n div 256 mod 256 ^ k"
    using Suc.IH by (simp add: from_be_bytes_def)
  moreover have "byte_of (char_of (n mod 256)) = n mod 256"
    by (simp add: byte_of_def)
  ultimately show ?case
    by (simp add: from_be_bytes_def from_be_acc_append mod_mult2_eq [of n 256 "256 ^ k"])
qed

lemma length_be_bytes [simp]: "length (be_bytes k n) = k"
  by (induction k arbitrary: n) auto

lemma u64_be_roundtrip: "n \<le> U64_MAX \<Longrightarrow> from_be_bytes (u64_to_be_bytes n) = n"
  using from_be_be_bytes [of 8 n] by (simp add: u64_to_be_bytes_def U64_MAX_def)

lemma from_be_acc_bound: "from_be_acc acc s < (acc + 1) * 256 ^ length s"
proof (induction s arbitrary: acc)
  case Nil
  then show ?case by simp
next
  case (Cons c s)
  have step: "256 * acc + byte_of c + 1 \<le> (acc + 1) * 256"
    using byte_of_less [of c] by simp
  have "from_be_acc (256 * acc + byte_of c) s < (256 * acc + byte_of c + 1) * 256 ^ length s"
    by (rule Cons.IH)
  also have "\<dots> \<le> (acc + 1) * 256 * 256 ^ length s"
    using step by (rule mult_le_mono1)
  finally show ?case
    by (simp add: algebra_simps)
qed

lemma from_be_bytes_bound: "from_be_bytes s < 256 ^ length s"
  using from_be_acc_bound [of 0 s] by (simp add: from_be_bytes_def)

end
