(* ===== verification/Json_Value.thy ===== *)
theory Json_Value
  imports Mw_Prelude
begin

text \<open>
  The value types the sources pass around: \<open>f64\<close>, \<open>serde_json::Number\<close> and
  \<open>serde_json::Value\<close> (an object is an association list in key order, as \<open>serde_json::Map\<close>
  iterates), with the accessors the repository calls.  A finite \<open>f64\<close> is the rational number it
  denotes; negative zero is kept apart because \<open>normalize_f64\<close> removes it.
\<close>

section \<open>Binary64 values\<close>

datatype f64 = F64 rat | NegZero | PosInfinity | NegInfinity | NaN

fun f64_is_finite :: "f64 \<Rightarrow> bool" where
  "f64_is_finite (F64 q) = True"
| "f64_is_finite NegZero = True"
| "f64_is_finite _ = False"

fun f64_rat :: "f64 \<Rightarrow> rat" where
  "f64_rat (F64 q) = q"
| "f64_rat _ = 0"

text \<open>IEEE comparison: NaN is unordered, the two zeros are equal.\<close>

fun f64_le :: "f64 \<Rightarrow> f64 \<Rightarrow> bool" where
  "f64_le NaN _ = False"
| "f64_le _ NaN = False"
| "f64_le NegInfinity _ = True"
| "f64_le _ PosInfinity = True"
| "f64_le PosInfinity _ = False"
| "f64_le _ NegInfinity = False"
| "f64_le x y = (f64_rat x \<le> f64_rat y)"

definition f64_ge :: "f64 \<Rightarrow> f64 \<Rightarrow> bool" where
  "f64_ge x y = f64_le y x"

definition f64_eq :: "f64 \<Rightarrow> f64 \<Rightarrow> bool" where
  "f64_eq x y \<longleftrightarrow> f64_le x y \<and> f64_le y x"

lemma f64_le_finite:
  "f64_is_finite x \<Longrightarrow> f64_is_finite y \<Longrightarrow> f64_le x y \<longleftrightarrow> f64_rat x \<le> f64_rat y"
  by (cases x; cases y) auto

lemma f64_eq_finite:
  "f64_is_finite x \<Longrightarrow> f64_is_finite y \<Longrightarrow> f64_eq x y \<longleftrightarrow> f64_rat x = f64_rat y"
  by (auto simp: f64_eq_def f64_le_finite)

lemma f64_le_refl: "x \<noteq> NaN \<Longrightarrow> f64_le x x"
  by (cases x) auto

lemma f64_le_trans: "f64_le x y \<Longrightarrow> f64_le y z \<Longrightarrow> f64_le x z"
  by (cases x; cases y; cases z) auto

section \<open>JSON numbers and values\<close>

text \<open>\<open>serde_json::Number\<close>: a \<open>u64\<close>, a negative \<open>i64\<close>, or a finite \<open>f64\<close>.\<close>

datatype number = PosInt nat | NegInt int | Float f64

datatype json =
    JNull
  | JBool bool
  | JNumber number
  | JString string
  | JArray "json list"
  | JObject "(string \<times> json) list"

type_synonym json_map = "(string \<times> json) list"

definition number_as_i64 :: "number \<Rightarrow> int option" where
  "number_as_i64 n = (case n of
       PosInt k \<Rightarrow> if k \<le> I64_MAX then Some (int k) else None
     | NegInt i \<Rightarrow> Some i
     | Float _ \<Rightarrow> None)"

definition number_as_u64 :: "number \<Rightarrow> u64 option" where
  "number_as_u64 n = (case n of PosInt k \<Rightarrow> Some k | _ \<Rightarrow> None)"

text \<open>\<open>Number::from::<i64>\<close>.\<close>

definition number_from_i64 :: "int \<Rightarrow> number" where
  "number_from_i64 i = (if i < 0 then NegInt i else PosInt (nat i))"

definition number_from_u64 :: "u64 \<Rightarrow> number" where
  "number_from_u64 n = PosInt n"

text \<open>The numeric value a number denotes.\<close>

definition number_rat :: "number \<Rightarrow> rat" where
  "number_rat n = (case n of PosInt k \<Rightarrow> of_nat k | NegInt i \<Rightarrow> of_int i | Float x \<Rightarrow> f64_rat x)"

fun as_object :: "json \<Rightarrow> json_map option" where
  "as_object (JObject m) = Some m"
| "as_object _ = None"

fun as_str :: "json \<Rightarrow> string option" where
  "as_str (JString s) = Some s"
| "as_str _ = None"

text \<open>\<open>Value::get\<close> with a string key.\<close>

definition value_get :: "json \<Rightarrow> string \<Rightarrow> json option" where
  "value_get v k = Option.bind (as_object v) (\<lambda>m. map_of m k)"

definition is_object :: "json \<Rightarrow> bool" where
  "is_object v \<longleftrightarrow> as_object v \<noteq> None"

lemma is_object_iff [simp]: "is_object v \<longleftrightarrow> (\<exists>m. v = JObject m)"
  by (cases v) (auto simp: is_object_def)

lemma as_object_Some_iff [simp]: "as_object v = Some m \<longleftrightarrow> v = JObject m"
  by (cases v) auto

lemma as_str_Some_iff [simp]: "as_str v = Some s \<longleftrightarrow> v = JString s"
  by (cases v) auto

text \<open>
  What \<open>serde_json\<close> guarantees of a value by construction: a \<open>Map\<close> is in key order, and the negative
  variant of a \<open>Number\<close> holds a negative number.
\<close>

definition number_wf :: "number \<Rightarrow> bool" where
  "number_wf n \<longleftrightarrow> (case n of NegInt i \<Rightarrow> i < 0 | _ \<Rightarrow> True)"

lemma number_wf_simps [simp]: "number_wf (PosInt n)" "number_wf (NegInt i) \<longleftrightarrow> i < 0" "number_wf (Float x)"
  "number_wf (number_from_i64 i)" "number_wf (number_from_u64 n)"
  by (simp_all add: number_wf_def number_from_i64_def number_from_u64_def)

fun json_wf :: "json \<Rightarrow> bool" where
  "json_wf (JArray vs) = list_all json_wf vs"
| "json_wf (JObject m) = (keys_sorted m \<and> list_all (\<lambda>kv. json_wf (snd kv)) m)"
| "json_wf (JNumber n) = number_wf n"
| "json_wf _ = True"

lemma json_size_Array [simp]: "v \<in> set vs \<Longrightarrow> size v < size (JArray vs)"
  by (induction vs) auto

lemma json_size_Object [simp]: "(k, v) \<in> set m \<Longrightarrow> size v < size (JObject m)"
  by (induction m) auto

end
