(* ===== verification/Canonical_Json.thy ===== *)
theory Canonical_Json
  imports Json_Value
begin

text \<open>
  \<open>src/core/canonical.rs\<close>: the restricted value domain.  \<open>normalize_value\<close> accepts a
  programmatically built value; \<open>restricted_value\<close> is the visitor that accepts the events of the
  JSON parser (\<open>serde_json::Deserializer\<close>, not modelled).  Rejected numbers are kept as numbers:
  their rendering in the message is \<open>serde_json\<close>'s.
\<close>

definition MAX_SAFE_INTEGER :: u64 where
  "MAX_SAFE_INTEGER = 9007199254740991"

lemma MAX_SAFE_INTEGER_eq: "MAX_SAFE_INTEGER = 2 ^ 53 - 1"
  by (simp add: MAX_SAFE_INTEGER_def)

lemma MAX_SAFE_less_I64: "MAX_SAFE_INTEGER \<le> I64_MAX"
  by (simp add: MAX_SAFE_INTEGER_def I64_MAX_def)

lemma MAX_SAFE_less_U64: "MAX_SAFE_INTEGER \<le> U64_MAX"
  by (simp add: MAX_SAFE_INTEGER_def U64_MAX_def)

datatype canonical_violation =
    IntegerOutOfRange number
  | NotFiniteBinary64 number

text \<open>\<open>(-MAX_SAFE_INTEGER_I64..=MAX_SAFE_INTEGER_I64).contains(&i)\<close>\<close>

definition safe_int :: "int \<Rightarrow> bool" where
  "safe_int i \<longleftrightarrow> - int MAX_SAFE_INTEGER \<le> i \<and> i \<le> int MAX_SAFE_INTEGER"

text \<open>\<open>value as i64\<close> on an integral value in range.\<close>

definition f64_as_i64 :: "f64 \<Rightarrow> int" where
  "f64_as_i64 x = \<lfloor>f64_rat x\<rfloor>"

definition f64_is_integral :: "f64 \<Rightarrow> bool" where
  "f64_is_integral x \<longleftrightarrow> of_int \<lfloor>f64_rat x\<rfloor> = f64_rat x"

definition normalize_f64 :: "f64 \<Rightarrow> (number, canonical_violation) result" where
  "normalize_f64 x =
     (if \<not> f64_is_finite x then Inl (NotFiniteBinary64 (Float x))
      else if f64_is_integral x then
        (if \<bar>f64_rat x\<bar> > of_nat MAX_SAFE_INTEGER then Inl (IntegerOutOfRange (Float x))
         else Inr (number_from_i64 (f64_as_i64 x)))
      else Inr (Float x))"

definition normalize_number :: "number \<Rightarrow> (number, canonical_violation) result" where
  "normalize_number n =
     (case number_as_i64 n of
        Some i \<Rightarrow> if safe_int i then Inr n else Inl (IntegerOutOfRange n)
      | None \<Rightarrow>
        (case number_as_u64 n of
           Some k \<Rightarrow> if k > MAX_SAFE_INTEGER then Inl (IntegerOutOfRange n) else Inr n
         | None \<Rightarrow> (case n of Float x \<Rightarrow> normalize_f64 x | _ \<Rightarrow> Inl (NotFiniteBinary64 n))))"

fun normalize_value :: "json \<Rightarrow> (json, canonical_violation) result" where
  "normalize_value JNull = Inr JNull"
| "normalize_value (JBool b) = Inr (JBool b)"
| "normalize_value (JString s) = Inr (JString s)"
| "normalize_value (JNumber n) = res_bind (normalize_number n) (\<lambda>n. Inr (JNumber n))"
| "normalize_value (JArray vs) =
     res_bind (collect_results normalize_value vs) (\<lambda>vs. Inr (JArray vs))"
| "normalize_value (JObject m) =
     res_bind
       (collect_results (\<lambda>(k, v). res_bind (normalize_value v) (\<lambda>v. Inr (k, v))) m)
       (\<lambda>m. Inr (JObject m))"

section \<open>The restricted visitor\<close>

text \<open>
  The calls a \<open>Deserializer\<close> makes on a visitor (the serde data model): one constructor per
  visitor method.  A sequence or map holds the elements delivered so far, in input order and with
  repeated keys, and whether it was then closed; \<open>VisitFail\<close> is a value the parser could not
  deliver.  A tree therefore also describes where a malformed input stopped the parser.
\<close>

datatype visit =
    VisitUnit
  | VisitBool bool
  | VisitI64 int
  | VisitU64 u64
  | VisitF64 f64
  | VisitStr string
  | VisitSeq "visit list" bool
  | VisitMap "(string \<times> visit) list" bool
  | VisitFail

text \<open>
  The JSON parser, code outside the repository: the calls made for a text, and whether
  \<open>Deserializer::end\<close> then finds only whitespace.
\<close>

type_synonym json_parser = "string \<Rightarrow> visit \<times> bool"

datatype visitor_error =
    Violation canonical_violation
  | DuplicateObjectKey string
  | NonFiniteNumber
  | ParserError

fun restricted_value :: "visit \<Rightarrow> (json, visitor_error) result"
and restricted_seq :: "visit list \<Rightarrow> (json list, visitor_error) result"
and restricted_map ::
  "json_map \<Rightarrow> (string \<times> visit) list \<Rightarrow> (json_map, visitor_error) result" where
  "restricted_value VisitUnit = Inr JNull"
| "restricted_value (VisitBool b) = Inr (JBool b)"
| "restricted_value (VisitI64 i) =
     (if \<not> safe_int i then Inl (Violation (IntegerOutOfRange (number_from_i64 i)))
      else Inr (JNumber (number_from_i64 i)))"
| "restricted_value (VisitU64 n) =
     (if n > MAX_SAFE_INTEGER then Inl (Violation (IntegerOutOfRange (number_from_u64 n)))
      else Inr (JNumber (number_from_u64 n)))"
| "restricted_value (VisitF64 x) =
     map_err Violation (res_bind (normalize_f64 x) (\<lambda>n. Inr (JNumber n)))"
| "restricted_value (VisitStr s) = Inr (JString s)"
| "restricted_value (VisitSeq vs fin) =
     res_bind (restricted_seq vs) (\<lambda>vs.
       if fin then Inr (JArray vs) else Inl ParserError)"
| "restricted_value (VisitMap es fin) =
     res_bind (restricted_map [] es) (\<lambda>m.
       if fin then Inr (JObject m) else Inl ParserError)"
| "restricted_value VisitFail = Inl ParserError"
| "restricted_seq [] = Inr []"
| "restricted_seq (v # vs) =
     res_bind (restricted_value v) (\<lambda>w. res_bind (restricted_seq vs) (\<lambda>ws. Inr (w # ws)))"
| "restricted_map m [] = Inr m"
| "restricted_map m ((k, v) # es) =
     res_bind (restricted_value v) (\<lambda>w.
       if map_of m k \<noteq> None then Inl (DuplicateObjectKey k)
       else restricted_map (ord_insert k w m) es)"

text \<open>\<open>CanonicalValue::from_slice\<close>: one value and nothing after it.\<close>

definition canonical_from_slice :: "json_parser \<Rightarrow> string \<Rightarrow> (json, visitor_error) result" where
  "canonical_from_slice parser input =
     res_bind (restricted_value (fst (parser input))) (\<lambda>v.
       if snd (parser input) then Inr v else Inl ParserError)"

section \<open>The restricted domain\<close>

definition canonical_number :: "number \<Rightarrow> bool" where
  "canonical_number n = (case n of
       PosInt k \<Rightarrow> k \<le> MAX_SAFE_INTEGER
     | NegInt i \<Rightarrow> safe_int i
     | Float x \<Rightarrow> f64_is_finite x \<and> \<not> f64_is_integral x)"

fun canonical_domain :: "json \<Rightarrow> bool" where
  "canonical_domain (JNumber n) = canonical_number n"
| "canonical_domain (JArray vs) = list_all canonical_domain vs"
| "canonical_domain (JObject m) = list_all (\<lambda>kv. canonical_domain (snd kv)) m"
| "canonical_domain _ = True"

text \<open>
  What the module promises to accept: integers within the safe range, and finite numbers whose
  value, when integral, lies in that range.
\<close>

definition acceptable_number :: "number \<Rightarrow> bool" where
  "acceptable_number n \<longleftrightarrow>
     (case n of Float x \<Rightarrow> f64_is_finite x | _ \<Rightarrow> True) \<and>
     (number_rat n \<in> \<int> \<longrightarrow> \<bar>number_rat n\<bar> \<le> of_nat MAX_SAFE_INTEGER)"

fun acceptable :: "json \<Rightarrow> bool" where
  "acceptable (JNumber n) = acceptable_number n"
| "acceptable (JArray vs) = list_all acceptable vs"
| "acceptable (JObject m) = list_all (\<lambda>kv. acceptable (snd kv)) m"
| "acceptable _ = True"

text \<open>Equality of values up to the representation of numbers.\<close>

fun same_value :: "json \<Rightarrow> json \<Rightarrow> bool" where
  "same_value (JNumber m) (JNumber n) = (number_rat m = number_rat n)"
| "same_value (JArray vs) (JArray ws) = list_all2 same_value vs ws"
| "same_value (JObject m) (JObject n) =
     list_all2 (\<lambda>a b. fst a = fst b \<and> same_value (snd a) (snd b)) m n"
| "same_value v w = (v = w)"

lemma safe_int_abs: "safe_int i \<longleftrightarrow> \<bar>rat_of_int i\<bar> \<le> of_nat MAX_SAFE_INTEGER"
proof -
  have "\<bar>rat_of_int i\<bar> = of_int \<bar>i\<bar>" by simp
  moreover have "rat_of_nat MAX_SAFE_INTEGER = of_int (int MAX_SAFE_INTEGER)" by simp
  ultimately have "\<bar>rat_of_int i\<bar> \<le> of_nat MAX_SAFE_INTEGER \<longleftrightarrow> \<bar>i\<bar> \<le> int MAX_SAFE_INTEGER"
    by (simp only: of_int_le_iff)
  then show ?thesis by (auto simp: safe_int_def)
qed

lemma f64_is_integral_iff: "f64_is_integral x \<longleftrightarrow> f64_rat x \<in> \<int>"
  by (auto simp: f64_is_integral_def elim: Ints_cases)

lemma number_from_i64_rat [simp]: "number_rat (number_from_i64 i) = of_int i"
  by (simp add: number_from_i64_def number_rat_def)

lemma normalize_f64_Ok:
  assumes "normalize_f64 x = Inr n"
  shows "canonical_number n \<and> number_rat n = f64_rat x \<and> f64_is_finite x"
proof (cases "f64_is_integral x")
  case True
  then have val: "rat_of_int \<lfloor>f64_rat x\<rfloor> = f64_rat x" by (simp add: f64_is_integral_def)
  from assms True have n: "n = number_from_i64 \<lfloor>f64_rat x\<rfloor>" and fin: "f64_is_finite x"
    and le: "\<bar>f64_rat x\<bar> \<le> of_nat MAX_SAFE_INTEGER"
    by (auto simp: normalize_f64_def f64_as_i64_def split: if_splits)
  from le have "\<bar>rat_of_int \<lfloor>f64_rat x\<rfloor>\<bar> \<le> of_nat MAX_SAFE_INTEGER" by (simp only: val)
  then have "safe_int \<lfloor>f64_rat x\<rfloor>" by (simp only: safe_int_abs)
  then have "canonical_number n"
    by (auto simp: n number_from_i64_def canonical_number_def safe_int_def)
  moreover have "number_rat n = f64_rat x" by (simp only: n number_from_i64_rat val)
  ultimately show ?thesis using fin by simp
next
  case False
  with assms show ?thesis
    by (auto simp: normalize_f64_def canonical_number_def number_rat_def split: if_splits)
qed

lemma normalize_number_Ok:
  assumes "normalize_number n = Inr n'"
  shows "canonical_number n' \<and> number_rat n' = number_rat n \<and> acceptable_number n"
proof (cases n)
  case (PosInt k)
  with assms have "n' = n" "k \<le> MAX_SAFE_INTEGER"
    by (auto simp: normalize_number_def number_as_i64_def number_as_u64_def safe_int_def
        split: if_splits)
  with PosInt show ?thesis
    by (simp add: canonical_number_def acceptable_number_def number_rat_def)
next
  case (NegInt i)
  with assms have "n' = n" "safe_int i"
    by (auto simp: normalize_number_def number_as_i64_def split: if_splits)
  with NegInt show ?thesis
    using safe_int_abs [of i]
    by (simp add: canonical_number_def acceptable_number_def number_rat_def)
next
  case (Float x)
  with assms have norm: "normalize_f64 x = Inr n'"
    by (simp add: normalize_number_def number_as_i64_def number_as_u64_def)
  have "f64_rat x \<in> \<int> \<longrightarrow> \<bar>f64_rat x\<bar> \<le> of_nat MAX_SAFE_INTEGER"
    using norm by (auto simp: normalize_f64_def f64_is_integral_iff split: if_splits)
  with normalize_f64_Ok [OF norm] Float show ?thesis
    by (simp add: acceptable_number_def number_rat_def)
qed

lemma normalize_number_accepts:
  assumes "acceptable_number n"
  shows "\<exists>n'. normalize_number n = Inr n'"
proof (cases n)
  case (PosInt k)
  with assms have "k \<le> MAX_SAFE_INTEGER"
    by (simp add: acceptable_number_def number_rat_def)
  then show ?thesis
    using PosInt by (auto simp: normalize_number_def number_as_i64_def number_as_u64_def safe_int_def)
next
  case (NegInt i)
  with assms have "safe_int i"
    by (simp add: acceptable_number_def number_rat_def safe_int_abs)
  with NegInt show ?thesis by (simp add: normalize_number_def number_as_i64_def)
next
  case (Float x)
  with assms show ?thesis
    by (auto simp: acceptable_number_def normalize_number_def number_as_i64_def number_as_u64_def
        normalize_f64_def f64_is_integral_iff number_rat_def)
qed

lemma normalize_number_fixed: "canonical_number n \<Longrightarrow> normalize_number n = Inr n"
  by (cases n)
    (auto simp: canonical_number_def normalize_number_def number_as_i64_def number_as_u64_def
      safe_int_def normalize_f64_def)

lemma collect_entries_Ok_iff:
  "collect_results (\<lambda>(k, v). res_bind (f v) (\<lambda>v. Inr (k, v))) m = Inr n
     \<longleftrightarrow> list_all2 (\<lambda>a b. fst a = fst b \<and> f (snd a) = Inr (snd b)) m n"
proof -
  have "(\<lambda>x y. (case x of (k, v) \<Rightarrow> res_bind (f v) (\<lambda>v. Inr (k, v))) = Inr y)
      = (\<lambda>a b. fst a = fst b \<and> f (snd a) = Inr (snd b))"
    by (auto simp: fun_eq_iff)
  then show ?thesis
    unfolding collect_results_Ok_iff by (rule arg_cong [where f = "\<lambda>P. list_all2 P m n"])
qed

lemma normalize_value_sound:
  "normalize_value v = Inr w \<Longrightarrow> acceptable v \<and> same_value v w \<and> canonical_domain w"
proof (induction v arbitrary: w rule: normalize_value.induct)
  case (4 n)
  then show ?case using normalize_number_Ok by fastforce
next
  case (5 vs)
  then obtain ws where w: "w = JArray ws" and col: "list_all2 (\<lambda>v w. normalize_value v = Inr w) vs ws"
    by (auto simp: collect_results_Ok_iff)
  from col have "list_all2 (\<lambda>v w. acceptable v \<and> same_value v w \<and> canonical_domain w) vs ws"
    by (rule list_all2_strengthen) (use "5.IH" in blast)
  then show ?case by (simp add: w list_all2_sides)
next
  case (6 m)
  then obtain n where w: "w = JObject n"
    and col: "list_all2 (\<lambda>a b. fst a = fst b \<and> normalize_value (snd a) = Inr (snd b)) m n"
    by (auto simp: collect_entries_Ok_iff)
  have IH: "normalize_value (snd a) = Inr u \<Longrightarrow>
      acceptable (snd a) \<and> same_value (snd a) u \<and> canonical_domain u" if "a \<in> set m" for a u
    using 6(1) [OF that, of "fst a" "snd a" u] by simp
  from col have "list_all2 (\<lambda>a b. acceptable (snd a)
      \<and> (fst a = fst b \<and> same_value (snd a) (snd b)) \<and> canonical_domain (snd b)) m n"
    by (rule list_all2_strengthen) (use IH in blast)
  then show ?case by (simp only: w list_all2_sides acceptable.simps same_value.simps
      canonical_domain.simps)
qed auto

lemma normalize_value_accepts: "acceptable v \<Longrightarrow> \<exists>w. normalize_value v = Inr w"
proof (induction v rule: normalize_value.induct)
  case (4 n)
  then show ?case using normalize_number_accepts by fastforce
next
  case (5 vs)
  then have "\<forall>v \<in> set vs. \<exists>w. normalize_value v = Inr w" by (auto simp: list_all_iff)
  then obtain f where "\<And>v. v \<in> set vs \<Longrightarrow> normalize_value v = Inr (f v)" by metis
  then show ?case using collect_results_total [of vs normalize_value f] by simp
next
  case (6 m)
  then have "\<forall>kv \<in> set m. \<exists>w. normalize_value (snd kv) = Inr w" by (auto simp: list_all_iff)
  then obtain f where f: "\<And>kv. kv \<in> set m \<Longrightarrow> normalize_value (snd kv) = Inr (f kv)" by metis
  have "collect_results (\<lambda>(k, v). res_bind (normalize_value v) (\<lambda>v. Inr (k, v))) m
      = Inr (map (\<lambda>kv. (fst kv, f kv)) m)"
    by (rule collect_results_total) (use f in fastforce)
  then show ?case by simp
qed auto

lemma normalize_value_fixed: "canonical_domain v \<Longrightarrow> normalize_value v = Inr v"
proof (induction v rule: normalize_value.induct)
  case (4 n)
  then show ?case by (simp add: normalize_number_fixed)
next
  case (5 vs)
  then have "collect_results normalize_value vs = Inr (map id vs)"
    by (intro collect_results_total) (auto simp: list_all_iff)
  then show ?case by simp
next
  case (6 m)
  then have "collect_results (\<lambda>(k, v). res_bind (normalize_value v) (\<lambda>v. Inr (k, v))) m
      = Inr (map id m)"
    by (intro collect_results_total) (auto simp: list_all_iff)
  then show ?case by simp
qed auto

lemma normalize_number_wf: "normalize_number n = Inr n' \<Longrightarrow> number_wf n \<Longrightarrow> number_wf n'"
  by (cases n) (auto simp: normalize_number_def normalize_f64_def split: option.splits if_splits)

lemma normalize_value_wf: "normalize_value v = Inr w \<Longrightarrow> json_wf v \<Longrightarrow> json_wf w"
proof (induction v arbitrary: w rule: normalize_value.induct)
  case (4 n)
  then show ?case by (auto dest: normalize_number_wf)
next
  case (5 vs)
  then obtain ws where w: "w = JArray ws" and "list_all2 (\<lambda>v w. normalize_value v = Inr w) vs ws"
    by (auto simp: collect_results_Ok_iff)
  from this(2) have "list_all2 (\<lambda>_. json_wf) vs ws"
    by (rule list.rel_mono_strong) (use 5 in \<open>auto simp: list_all_iff\<close>)
  then show ?case by (simp add: w list_all_length list_all2_conv_all_nth)
next
  case (6 m)
  then obtain n where w: "w = JObject n"
    and rel: "list_all2 (\<lambda>a b. fst a = fst b \<and> normalize_value (snd a) = Inr (snd b)) m n"
    by (auto simp: collect_entries_Ok_iff)
  from rel have keys: "map fst m = map fst n" by (induction rule: list_all2_induct) auto
  from rel have "list_all2 (\<lambda>_ b. json_wf (snd b)) m n"
    by (rule list.rel_mono_strong) (use 6 in \<open>fastforce simp: list_all_iff\<close>)
  then have "list_all (\<lambda>b. json_wf (snd b)) n"
    by (simp add: list_all_length list_all2_conv_all_nth)
  with 6 w keys show ?case by (simp add: keys_sorted_def)
qed auto

section \<open>Properties\<close>

text \<open>
  \<open>CanonicalValue::try_from\<close> accepts a value exactly when every number
  in it is finite and every integral number is within the safe range; the accepted value lies in
  the restricted domain and denotes the same JSON value, and its objects stay in key order.
\<close>

theorem normalize_value_exact:
  "((\<exists>w. normalize_value v = Inr w) \<longleftrightarrow> acceptable v) \<and>
   (\<forall>w. normalize_value v = Inr w \<longrightarrow>
      canonical_domain w \<and> same_value v w \<and> (json_wf v \<longrightarrow> json_wf w))"
  using normalize_value_sound normalize_value_accepts normalize_value_wf by blast

theorem normalize_value_exact_witness:
  "normalize_value (JArray [JNumber (Float NegZero), JNumber (Float (F64 (1 / 2)))])
     = Inr (JArray [JNumber (PosInt 0), JNumber (Float (F64 (1 / 2)))]) \<and>
   canonical_domain (JArray [JNumber (PosInt 0), JNumber (Float (F64 (1 / 2)))])"
proof -
  let ?v = "JArray [JNumber (Float NegZero), JNumber (Float (F64 (1 / 2)))]"
  let ?w = "JArray [JNumber (PosInt 0), JNumber (Float (F64 (1 / 2)))]"
  have "\<lfloor>1 / 2 :: rat\<rfloor> = 0" by (simp add: floor_eq_iff)
  then have norm: "normalize_value ?v = Inr ?w"
    by (simp add: normalize_number_def number_as_i64_def number_as_u64_def normalize_f64_def
        f64_is_integral_def f64_as_i64_def number_from_i64_def)
  with normalize_value_exact [of ?v] show ?thesis by blast
qed

text \<open>
  A value accepted once is a fixed point of normalization, so
  re-validating an already canonical value never changes it and never fails.
\<close>

lemma normalize_value_idempotent:
  "normalize_value v = Inr w \<Longrightarrow> normalize_value w = Inr w"
  using normalize_value_sound normalize_value_fixed by blast

end
