(* ===== verification/Record_Identity.thy ===== *)
theory Record_Identity
  imports Canonical_Json
begin

text \<open>
  \<open>src/core/identity.rs\<close>: typed content identities.  A \<open>RecordId\<close> is its 32-byte digest; the
  phantom type is the kind passed to the operations.  SHA-256 (crate \<open>sha2\<close>), the RFC 8785
  serializer (crate \<open>serde_json_canonicalizer\<close>), the JSON parser and printer (crate \<open>serde_json\<close>) and SQLite's
  test that a text is a JSON object are code outside the repository: they are the fields of
  \<open>externals\<close>, an argument of every definition that uses them.
\<close>

record externals =
  sha256 :: "string \<Rightarrow> string"
  canonicalizer :: "json \<Rightarrow> string option"
  parse_json :: json_parser
  json_text :: "json \<Rightarrow> string"
  sqlite_object :: "string \<Rightarrow> bool"

text \<open>What the two crates document, stated where a property relies on it.\<close>

definition sha256_width :: "externals \<Rightarrow> bool" where
  "sha256_width X \<longleftrightarrow> (\<forall>bytes. length (sha256 X bytes) = 32)"

definition IDENTITY_VERSION :: u64 where
  "IDENTITY_VERSION = 1"

datatype identity_kind =
    SchemaKind | ProblemContractKind | SourceBundleKind | ArtifactKind
  | EnvironmentDefinitionKind | WorkerDefinitionKind | DatasetDefinitionKind
  | ProblemDefinitionKind | ImplementationDefinitionKind | ExecutionPolicyKind
  | ObservationPolicyKind | DatasetConfigurationKind | ProblemConfigurationKind
  | ImplementationConfigurationKind | DatasetInstanceKind | ProblemInstanceKind
  | LogicalCandidateKind | LogicalSpecificationKind | LogicalObservationSlotKind
  | LogicalAttemptSlotKind | ResolvedEnvironmentKind | ResolvedLaunchKind
  | ExecutorDefinitionKind | ResolvedWorkerKind | ApplicabilityKind
  | ResolvedSpecificationKind | ResolvedObservationSlotKind | ResolvedAttemptSlotKind
  | ObservationRecordKind | AttemptRecordKind

fun kind_tag :: "identity_kind \<Rightarrow> string" where
  "kind_tag SchemaKind = ''schema''"
| "kind_tag ProblemContractKind = ''problem-contract''"
| "kind_tag SourceBundleKind = ''source-bundle''"
| "kind_tag ArtifactKind = ''artifact''"
| "kind_tag EnvironmentDefinitionKind = ''environment-definition''"
| "kind_tag WorkerDefinitionKind = ''worker-definition''"
| "kind_tag DatasetDefinitionKind = ''dataset-definition''"
| "kind_tag ProblemDefinitionKind = ''problem-definition''"
| "kind_tag ImplementationDefinitionKind = ''implementation-definition''"
| "kind_tag ExecutionPolicyKind = ''execution-policy''"
| "kind_tag ObservationPolicyKind = ''observation-policy''"
| "kind_tag DatasetConfigurationKind = ''dataset-configuration''"
| "kind_tag ProblemConfigurationKind = ''problem-configuration''"
| "kind_tag ImplementationConfigurationKind = ''implementation-configuration''"
| "kind_tag DatasetInstanceKind = ''dataset-instance''"
| "kind_tag ProblemInstanceKind = ''problem-instance''"
| "kind_tag LogicalCandidateKind = ''logical-candidate''"
| "kind_tag LogicalSpecificationKind = ''logical-specification''"
| "kind_tag LogicalObservationSlotKind = ''logical-observation-slot''"
| "kind_tag LogicalAttemptSlotKind = ''logical-attempt-slot''"
| "kind_tag ResolvedEnvironmentKind = ''resolved-environment''"
| "kind_tag ResolvedLaunchKind = ''resolved-launch''"
| "kind_tag ExecutorDefinitionKind = ''executor-definition''"
| "kind_tag ResolvedWorkerKind = ''resolved-worker''"
| "kind_tag ApplicabilityKind = ''applicability''"
| "kind_tag ResolvedSpecificationKind = ''resolved-specification''"
| "kind_tag ResolvedObservationSlotKind = ''resolved-observation-slot''"
| "kind_tag ResolvedAttemptSlotKind = ''resolved-attempt-slot''"
| "kind_tag ObservationRecordKind = ''observation''"
| "kind_tag AttemptRecordKind = ''attempt''"

type_synonym digest = string

definition hex_digits :: string where
  "hex_digits = ''0123456789abcdef''"

fun hex :: "string \<Rightarrow> string" where
  "hex [] = []"
| "hex (b # bs) = hex_digits ! (byte_of b div 16) # hex_digits ! (byte_of b mod 16) # hex bs"

text \<open>\<open>None\<close> is the \<open>unreachable!\<close> arm.\<close>

definition hex_nibble :: "char \<Rightarrow> nat option" where
  "hex_nibble c =
     (if 48 \<le> byte_of c \<and> byte_of c \<le> 57 then Some (byte_of c - 48)
      else if 97 \<le> byte_of c \<and> byte_of c \<le> 102 then Some (byte_of c - 97 + 10)
      else None)"

fun unhex :: "string \<Rightarrow> string option" where
  "unhex (a # b # rest) =
     (case (hex_nibble a, hex_nibble b, unhex rest) of
        (Some x, Some y, Some bytes) \<Rightarrow> Some (char_of (16 * x + y) # bytes)
      | _ \<Rightarrow> None)"
| "unhex _ = Some []"

definition record_id_display :: "identity_kind \<Rightarrow> digest \<Rightarrow> string" where
  "record_id_display kind d = ''mw1-'' @ kind_tag kind @ ''-'' @ hex d"

datatype record_id_parse_error = WrongKind string | InvalidDigest | UnreachableNibble

definition record_id_from_str ::
  "identity_kind \<Rightarrow> string \<Rightarrow> (digest, record_id_parse_error) result" where
  "record_id_from_str kind s =
     (let prefix = ''mw1-'' @ kind_tag kind @ ''-''
      in case str_strip_prefix prefix s of
           None \<Rightarrow> Inl (WrongKind prefix)
         | Some d \<Rightarrow>
             if length d \<noteq> 64 \<or> \<not> list_all is_lower_hex d then Inl InvalidDigest
             else ok_or (unhex d) UnreachableNibble)"

text \<open>\<open>IdentityError\<close> wraps \<open>CanonicalJsonError\<close>; the constructors are those of the latter.\<close>

datatype identity_error =
    InvalidInput visitor_error
  | IdentityViolation canonical_violation
  | CanonicalizationFailed

text \<open>\<open>canonical_bytes\<close>: validate, then serialize.\<close>

definition canonical_bytes :: "externals \<Rightarrow> json \<Rightarrow> (string, identity_error) result" where
  "canonical_bytes X v =
     res_bind (map_err IdentityViolation (normalize_value v)) (\<lambda>w.
       ok_or (canonicalizer X w) CanonicalizationFailed)"

definition identity_transcript :: "identity_kind \<Rightarrow> string \<Rightarrow> string" where
  "identity_transcript kind canonical = kind_tag kind @ [CHR 0x00] @ canonical"

definition hash_identity :: "externals \<Rightarrow> identity_kind \<Rightarrow> string \<Rightarrow> digest" where
  "hash_identity X kind canonical = sha256 X (identity_transcript kind canonical)"

definition json_object :: "(string \<times> json) list \<Rightarrow> json" where
  "json_object flds = JObject (ord_extend [] flds)"

text \<open>\<open>record_id\<close> over the fields a record's \<open>identity_fields\<close> produces.\<close>

definition canonical_identity_bytes :: "externals \<Rightarrow> json_map \<Rightarrow> (string, identity_error) result" where
  "canonical_identity_bytes X flds =
     canonical_bytes X
       (JObject (ord_insert ''version'' (JNumber (number_from_u64 IDENTITY_VERSION)) flds))"

definition record_id :: "externals \<Rightarrow> identity_kind \<Rightarrow> json_map \<Rightarrow> (digest, identity_error) result" where
  "record_id X kind flds =
     res_bind (canonical_identity_bytes X flds) (\<lambda>bytes. Inr (hash_identity X kind bytes))"

definition canonical_resource_identity_bytes ::
  "externals \<Rightarrow> json \<Rightarrow> (string, identity_error) result" where
  "canonical_resource_identity_bytes X v =
     canonical_bytes X (json_object
       [(''version'', JNumber (number_from_u64 IDENTITY_VERSION)), (''value'', v)])"

definition identify_canonical ::
  "externals \<Rightarrow> identity_kind \<Rightarrow> json \<Rightarrow> (digest, identity_error) result" where
  "identify_canonical X kind v =
     res_bind (canonical_resource_identity_bytes X v) (\<lambda>bytes. Inr (hash_identity X kind bytes))"

definition run_attempt_id :: "externals \<Rightarrow> digest \<Rightarrow> u64 \<Rightarrow> (digest, identity_error) result" where
  "run_attempt_id X slot retry_index =
     res_bind
       (canonical_bytes X (json_object
          [(''version'', JNumber (number_from_u64 IDENTITY_VERSION)),
           (''slot'', JString (record_id_display ResolvedAttemptSlotKind slot)),
           (''retry_index'', JNumber (number_from_u64 retry_index))]))
       (\<lambda>bytes. Inr (hash_identity X AttemptRecordKind bytes))"

section \<open>Hexadecimal digests\<close>

lemma length_hex [simp]: "length (hex bs) = 2 * length bs"
  by (induction bs) auto

lemma hex_digit_table:
  "list_all (\<lambda>n. hex_nibble (hex_digits ! n) = Some n \<and> is_lower_hex (hex_digits ! n)) [0..<16]"
  by code_simp

lemma hex_digit_cases:
  "n < 16 \<Longrightarrow> hex_nibble (hex_digits ! n) = Some n \<and> is_lower_hex (hex_digits ! n)"
  using hex_digit_table by (simp add: list_all_iff)

lemma hex_char_table:
  "list_all (\<lambda>b. let n = (if b < 58 then b - 48 else b - 87) in
     n < 16 \<and> hex_nibble (char_of b) = Some n \<and> hex_digits ! n = char_of b)
     ([48..<58] @ [97..<103])"
  by code_simp

lemma hex_lower: "list_all is_lower_hex (hex bs)"
  by (induction bs) (auto simp: hex_digit_cases byte_of_less less_mult_imp_div_less)

lemma unhex_hex: "unhex (hex bs) = Some bs"
proof (induction bs)
  case (Cons b bs)
  have hi: "hex_nibble (hex_digits ! (byte_of b div 16)) = Some (byte_of b div 16)"
    using hex_digit_cases [of "byte_of b div 16"] byte_of_less [of b] by simp
  have lo: "hex_nibble (hex_digits ! (byte_of b mod 16)) = Some (byte_of b mod 16)"
    using hex_digit_cases [of "byte_of b mod 16"] by simp
  have "char_of (byte_of b) = b" by (simp add: byte_of_def)
  with Cons hi lo show ?case by simp
qed simp

lemma hex_nibble_Some:
  assumes "is_lower_hex c"
  shows "\<exists>n < 16. hex_nibble c = Some n \<and> hex_digits ! n = c"
proof -
  have c: "char_of (byte_of c) = c" by (simp add: byte_of_def)
  have "byte_of c \<in> {48..<58} \<union> {97..<103}"
    using assms by (auto simp: is_lower_hex_def is_ascii_digit_def)
  then have "byte_of c \<in> set ([48..<58] @ [97..<103])" by (simp only: set_append set_upt)
  with hex_char_table show ?thesis
    unfolding list_all_iff Let_def by (metis c)
qed

lemma unhex_total:
  "list_all is_lower_hex s \<Longrightarrow> even (length s) \<Longrightarrow> \<exists>bs. unhex s = Some bs \<and> hex bs = s"
proof (induction s rule: unhex.induct)
  case (1 a b rest)
  then obtain x y bs where x: "x < 16" "hex_nibble a = Some x" "hex_digits ! x = a"
    and y: "y < 16" "hex_nibble b = Some y" "hex_digits ! y = b"
    and rest: "unhex rest = Some bs" "hex bs = rest"
    using hex_nibble_Some [of a] hex_nibble_Some [of b] by auto
  have "byte_of (char_of (16 * x + y)) = 16 * x + y"
    using x y by (simp add: byte_of_def)
  with x y rest show ?case by simp
qed auto

lemma record_id_from_str_Ok_iff:
  "record_id_from_str kind s = Inr d \<longleftrightarrow> length d = 32 \<and> s = record_id_display kind d"
proof
  assume "record_id_from_str kind s = Inr d"
  then obtain h where s: "s = (''mw1-'' @ kind_tag kind @ ''-'') @ h" and len: "length h = 64"
    and low: "list_all is_lower_hex h" and un: "unhex h = Some d"
    by (auto simp: record_id_from_str_def Let_def str_strip_prefix_Some_iff
        split: option.splits if_splits)
  from unhex_total [OF low] len un have "hex d = h" by auto
  with len s show "length d = 32 \<and> s = record_id_display kind d"
    by (auto simp: record_id_display_def)
next
  assume "length d = 32 \<and> s = record_id_display kind d"
  moreover have "str_strip_prefix (''mw1-'' @ kind_tag kind @ ''-'') (record_id_display kind d)
      = Some (hex d)"
    by (simp add: str_strip_prefix_Some_iff record_id_display_def)
  ultimately show "record_id_from_str kind s = Inr d"
    by (simp add: record_id_from_str_def hex_lower unhex_hex del: append.simps)
qed

lemma record_id_never_unreachable: "record_id_from_str kind s \<noteq> Inl UnreachableNibble"
  using unhex_total
  by (fastforce simp: record_id_from_str_def Let_def ok_or_def split: option.splits if_splits)

lemma framed_inject: "(p @ k @ q) @ x = (p @ k' @ q) @ y \<Longrightarrow> length x = length y \<Longrightarrow> k = k' \<and> x = y"
  by simp

lemma record_id_display_inject:
  assumes eq: "record_id_display k d = record_id_display k' d'" and "length d = 32" "length d' = 32"
  shows "kind_tag k = kind_tag k' \<and> d = d'"
proof -
  have "kind_tag k = kind_tag k' \<and> hex d = hex d'"
  proof (rule framed_inject)
    show "(''mw1-'' @ kind_tag k @ ''-'') @ hex d = (''mw1-'' @ kind_tag k' @ ''-'') @ hex d'"
      using eq unfolding record_id_display_def append_assoc .
    show "length (hex d) = length (hex d')"
      using assms(2,3) by simp
  qed
  then show ?thesis
    using unhex_hex [of d] unhex_hex [of d'] by (metis option.inject)
qed

definition all_kinds :: "identity_kind list" where
  "all_kinds = [SchemaKind, ProblemContractKind, SourceBundleKind, ArtifactKind,
     EnvironmentDefinitionKind, WorkerDefinitionKind, DatasetDefinitionKind,
     ProblemDefinitionKind, ImplementationDefinitionKind, ExecutionPolicyKind,
     ObservationPolicyKind, DatasetConfigurationKind, ProblemConfigurationKind,
     ImplementationConfigurationKind, DatasetInstanceKind, ProblemInstanceKind,
     LogicalCandidateKind, LogicalSpecificationKind, LogicalObservationSlotKind,
     LogicalAttemptSlotKind, ResolvedEnvironmentKind, ResolvedLaunchKind,
     ExecutorDefinitionKind, ResolvedWorkerKind, ApplicabilityKind,
     ResolvedSpecificationKind, ResolvedObservationSlotKind, ResolvedAttemptSlotKind,
     ObservationRecordKind, AttemptRecordKind]"

lemma all_kinds_complete: "k \<in> set all_kinds"
  by (cases k) (simp_all add: all_kinds_def)

lemma kind_tags_distinct: "distinct (map kind_tag all_kinds)"
  by code_simp

lemma kind_tag_inject: "kind_tag a = kind_tag b \<Longrightarrow> a = b"
  using kind_tags_distinct all_kinds_complete by (metis distinct_map inj_onD)

lemma kind_tags_no_nul: "list_all (\<lambda>k. CHR 0x00 \<notin> set (kind_tag k)) all_kinds"
  by code_simp

lemma append_sep_inject:
  "a @ x # s = b @ x # t \<Longrightarrow> x \<notin> set a \<Longrightarrow> x \<notin> set b \<Longrightarrow> a = b \<and> s = t"
proof (induction a arbitrary: b)
  case Nil
  then show ?case by (cases b) auto
next
  case (Cons y a)
  then show ?case by (cases b) auto
qed

section \<open>Properties\<close>

text \<open>
  For a 32-byte digest, parsing the spelling of an identity under its
  kind gives the digest back and parsing it under any other kind fails; a text parses to the
  digest only if it is that spelling; the \<open>unreachable!\<close> arm of \<open>hex_nibble\<close> is never taken.
\<close>

theorem record_id_roundtrip:
  assumes "length d = 32"
  shows "record_id_from_str kind (record_id_display kind d) = Inr d \<and>
    (\<forall>other d'. record_id_from_str other (record_id_display kind d) = Inr d' \<longrightarrow>
        other = kind \<and> d' = d) \<and>
    (\<forall>s. record_id_from_str kind s \<noteq> Inl UnreachableNibble \<and>
        (record_id_from_str kind s = Inr d \<longleftrightarrow> s = record_id_display kind d))"
  using assms record_id_never_unreachable
  by (auto simp: record_id_from_str_Ok_iff dest: record_id_display_inject kind_tag_inject)

theorem record_id_roundtrip_witness:
  "record_id_from_str AttemptRecordKind
     (record_id_display AttemptRecordKind (replicate 32 (CHR ''m'')))
     = Inr (replicate 32 (CHR ''m'')) \<and> length (replicate 32 (CHR ''m'')) = (32::nat)"
proof -
  have len: "length (replicate 32 (CHR ''m'')) = (32::nat)" by simp
  from record_id_roundtrip [OF len, of AttemptRecordKind] len show ?thesis by blast
qed

text \<open>
  The hashed transcript determines both the identity kind and the
  canonical bytes, so identities of different kinds never hash the same transcript.
\<close>

theorem identity_domain_separation:
  "identity_transcript k a = identity_transcript k' b \<longleftrightarrow> k = k' \<and> a = b"
proof
  assume "identity_transcript k a = identity_transcript k' b"
  then have "kind_tag k @ CHR 0x00 # a = kind_tag k' @ CHR 0x00 # b"
    by (simp add: identity_transcript_def)
  moreover have "CHR 0x00 \<notin> set (kind_tag k)" "CHR 0x00 \<notin> set (kind_tag k')"
    using kind_tags_no_nul all_kinds_complete by (auto simp: list_all_iff)
  ultimately show "k = k' \<and> a = b"
    by (auto dest: append_sep_inject kind_tag_inject)
qed simp

end
