(* ===== verification/Profile_Policy.thy ===== *)
theory Profile_Policy
  imports Canonical_Json
begin

text \<open>
  \<open>src/core/duration.rs\<close> and the policy part of \<open>src/core/profile.rs\<close>: bounded durations, the
  completion policy of a profile with its validation, its JSON form, and check schedules.
\<close>

section \<open>Durations\<close>

datatype duration_error = DurationUnit | DurationDigits | DurationRange

definition duration_units :: "(string \<times> u64) list" where
  "duration_units =
     [(''ms'', 1000000), (''s'', 1000000000), (''min'', 60000000000), (''h'', 3600000000000)]"

fun find_unit :: "string \<Rightarrow> (string \<times> u64) list \<Rightarrow> (string \<times> u64) option" where
  "find_unit s [] = None"
| "find_unit s ((suffix, m) # us) =
     (case str_strip_suffix suffix (str_trim s) of
        Some n \<Rightarrow> Some (str_trim n, m)
      | None \<Rightarrow> find_unit s us)"

definition starts_nonzero :: "string \<Rightarrow> bool" where
  "starts_nonzero s = (case s of [] \<Rightarrow> False | c # _ \<Rightarrow> is_nonzero_digit c)"

definition positive_nanoseconds :: "string \<Rightarrow> (u64, duration_error) result" where
  "positive_nanoseconds s =
     res_bind (ok_or (find_unit s duration_units) DurationUnit) (\<lambda>(number, multiplier).
       if \<not> starts_nonzero number \<or> \<not> list_all is_ascii_digit number then Inl DurationDigits
       else ok_or
         (opt_filter (\<lambda>n. n > 0 \<and> n \<le> MAX_SAFE_INTEGER)
           (Option.bind (parse_u64 number) (\<lambda>n. checked_mul n multiplier)))
         DurationRange)"

section \<open>The policy\<close>

datatype direction = AtMost | AtLeast

record profile_policy =
  pp_metric :: "string option"
  pp_direction :: "direction option"
  pp_threshold :: "f64 option"
  pp_record_thresholds :: "f64 list"
  pp_max_observations :: u64
  pp_max_checkpoint_bytes :: u64
  pp_max_trace_points :: u64
  pp_max_buffer_bytes :: u64
  pp_terminal_reserve_bytes :: u64
  pp_max_active_time :: string

datatype policy_error =
    MaxObservationsBound
  | BufferedBounds
  | ActiveTime duration_error
  | FixedCountTracePoints
  | RecordThresholds
  | IncompleteTarget

definition active_time_ns :: "profile_policy \<Rightarrow> (u64, duration_error) result" where
  "active_time_ns p = positive_nanoseconds (pp_max_active_time p)"

definition validate_buffered :: "profile_policy \<Rightarrow> (unit, policy_error) result" where
  "validate_buffered p =
     (if list_ex (\<lambda>v. v = 0 \<or> v > MAX_SAFE_INTEGER)
           [pp_max_trace_points p, pp_max_buffer_bytes p, pp_terminal_reserve_bytes p]
         \<or> pp_terminal_reserve_bytes p > pp_max_buffer_bytes p
      then Inl BufferedBounds else Inr ())"

definition thresholds :: "profile_policy \<Rightarrow> f64 list" where
  "thresholds p =
     (if pp_record_thresholds p = []
      then (case pp_threshold p of None \<Rightarrow> [] | Some t \<Rightarrow> [t])
      else pp_record_thresholds p)"

definition reaches :: "profile_policy \<Rightarrow> f64 \<Rightarrow> f64 \<Rightarrow> bool" where
  "reaches p v t = (case pp_direction p of
       Some AtMost \<Rightarrow> f64_le v t
     | Some AtLeast \<Rightarrow> f64_ge v t
     | None \<Rightarrow> False)"

text \<open>\<open>windows(2)\<close>.\<close>

definition windows2 :: "'a list \<Rightarrow> ('a \<times> 'a) list" where
  "windows2 xs = zip xs (tl xs)"

text \<open>\<open>thresholds.last() != Some(&target)\<close> compares with IEEE equality.\<close>

definition last_is :: "f64 list \<Rightarrow> f64 \<Rightarrow> bool" where
  "last_is ts t \<longleftrightarrow> ts \<noteq> [] \<and> f64_eq (last ts) t"

definition thresholds_ok :: "profile_policy \<Rightarrow> f64 \<Rightarrow> bool" where
  "thresholds_ok p target \<longleftrightarrow>
     \<not> (length (thresholds p) > pp_max_observations p
        \<or> \<not> last_is (thresholds p) target
        \<or> list_ex (\<lambda>v. \<not> f64_is_finite v) (thresholds p)
        \<or> list_ex (\<lambda>(a, b). f64_eq a b \<or> \<not> reaches p b a) (windows2 (thresholds p)))"

definition validate_target :: "profile_policy \<Rightarrow> (unit, policy_error) result" where
  "validate_target p = (case (pp_metric p, pp_direction p, pp_threshold p) of
       (None, None, None) \<Rightarrow>
         if pp_record_thresholds p = [] then
           (if pp_max_trace_points p \<noteq> 0 \<and> pp_max_trace_points p < pp_max_observations p
            then Inl FixedCountTracePoints else Inr ())
         else Inl IncompleteTarget
     | (Some metric, Some _, Some target) \<Rightarrow>
         if metric \<noteq> [] \<and> f64_is_finite target then
           (if thresholds_ok p target then Inr () else Inl RecordThresholds)
         else Inl IncompleteTarget
     | _ \<Rightarrow> Inl IncompleteTarget)"

definition validate_policy :: "profile_policy \<Rightarrow> (unit, policy_error) result" where
  "validate_policy p =
     (if pp_max_observations p = 0 \<or> pp_max_observations p > MAX_SAFE_INTEGER
      then Inl MaxObservationsBound
      else res_bind
        (if pp_max_trace_points p \<noteq> 0 \<or> pp_max_buffer_bytes p \<noteq> 0 \<or> pp_terminal_reserve_bytes p \<noteq> 0
         then validate_buffered p else Inr ()) (\<lambda>_.
        res_bind (map_err ActiveTime (active_time_ns p)) (\<lambda>_. validate_target p)))"

section \<open>The persisted form of a policy\<close>

text \<open>
  The derived \<open>Serialize\<close> and \<open>Deserialize\<close> of \<open>ProfilePolicy\<close>: kebab-case keys, absent
  optional fields, unknown and repeated fields refused.  An integer read as \<open>f64\<close> is converted
  with \<open>as\<close>, which rounds to nearest, ties to even.
\<close>

definition round_at :: "nat \<Rightarrow> nat \<Rightarrow> nat" where
  "round_at k n =
     (if k = 0 then n
      else let q = n div 2 ^ k; r = n mod 2 ^ k; half = 2 ^ (k - 1)
           in if r < half \<or> (r = half \<and> even q) then q * 2 ^ k else (q + 1) * 2 ^ k)"

definition f64_of_u64 :: "u64 \<Rightarrow> f64" where
  "f64_of_u64 n =
     (case find (\<lambda>k. n < 2 ^ (53 + k)) [0..<12] of
        Some k \<Rightarrow> F64 (of_nat (round_at k n))
      | None \<Rightarrow> F64 (of_nat n))"

definition f64_of_i64 :: "int \<Rightarrow> f64" where
  "f64_of_i64 i =
     (if i < 0 then F64 (- f64_rat (f64_of_u64 (nat (- i)))) else f64_of_u64 (nat i))"

fun de_u64 :: "visit \<Rightarrow> u64 option" where
  "de_u64 (VisitU64 n) = Some n"
| "de_u64 (VisitI64 i) = (if 0 \<le> i then Some (nat i) else None)"
| "de_u64 _ = None"

fun de_f64 :: "visit \<Rightarrow> f64 option" where
  "de_f64 (VisitU64 n) = Some (f64_of_u64 n)"
| "de_f64 (VisitI64 i) = Some (f64_of_i64 i)"
| "de_f64 (VisitF64 x) = Some x"
| "de_f64 _ = None"

fun de_string :: "visit \<Rightarrow> string option" where
  "de_string (VisitStr s) = Some s"
| "de_string _ = None"

fun de_direction :: "visit \<Rightarrow> direction option" where
  "de_direction (VisitStr s) =
     (if s = ''at_most'' then Some AtMost else if s = ''at_least'' then Some AtLeast else None)"
| "de_direction _ = None"

definition positive_bound :: "visit \<Rightarrow> u64 option" where
  "positive_bound v = opt_filter (\<lambda>n. \<not> (n = 0 \<or> n > MAX_SAFE_INTEGER)) (de_u64 v)"

fun those_list :: "'a option list \<Rightarrow> 'a list option" where
  "those_list [] = Some []"
| "those_list (None # xs) = None"
| "those_list (Some x # xs) = map_option (Cons x) (those_list xs)"

definition nonempty_thresholds :: "visit \<Rightarrow> f64 list option" where
  "nonempty_thresholds v = (case v of
       VisitSeq vs True \<Rightarrow> opt_filter (\<lambda>ts. ts \<noteq> []) (those_list (map de_f64 vs))
     | _ \<Rightarrow> None)"

text \<open>A field with \<open>default\<close>: the default when absent, otherwise what the reader makes of it.\<close>

definition field_or :: "'a \<Rightarrow> (visit \<Rightarrow> 'a option) \<Rightarrow> (string \<times> visit) list \<Rightarrow> string \<Rightarrow> 'a option" where
  "field_or d rd es k = (case map_of es k of None \<Rightarrow> Some d | Some v \<Rightarrow> rd v)"

definition field_req :: "(visit \<Rightarrow> 'a option) \<Rightarrow> (string \<times> visit) list \<Rightarrow> string \<Rightarrow> 'a option" where
  "field_req rd es k = Option.bind (map_of es k) rd"

definition policy_keys :: "string list" where
  "policy_keys = [''metric'', ''direction'', ''threshold'', ''record-thresholds'',
     ''max-observations'', ''max-checkpoint-bytes'', ''max-trace-points'', ''max-buffer-bytes'',
     ''terminal-reserve-bytes'', ''max-active-time'']"

definition present :: "(visit \<Rightarrow> 'a option) \<Rightarrow> visit \<Rightarrow> 'a option option" where
  "present rd v = map_option Some (rd v)"

definition policy_fields :: "(string \<times> visit) list \<Rightarrow> profile_policy option" where
  "policy_fields es =
     (case (field_or None (present de_string) es ''metric'',
            field_or None (present de_direction) es ''direction'',
            field_or None (present de_f64) es ''threshold'',
            field_or [] nonempty_thresholds es ''record-thresholds'',
            field_req de_u64 es ''max-observations'') of
        (Some m, Some d, Some t, Some ts, Some obs) \<Rightarrow>
          (case (field_or 0 positive_bound es ''max-checkpoint-bytes'',
                 field_or 0 positive_bound es ''max-trace-points'',
                 field_or 0 positive_bound es ''max-buffer-bytes'',
                 field_or 0 positive_bound es ''terminal-reserve-bytes'',
                 field_req de_string es ''max-active-time'') of
             (Some cb, Some tp, Some bb, Some tr, Some tm) \<Rightarrow>
               Some \<lparr>pp_metric = m, pp_direction = d, pp_threshold = t, pp_record_thresholds = ts,
                 pp_max_observations = obs, pp_max_checkpoint_bytes = cb, pp_max_trace_points = tp,
                 pp_max_buffer_bytes = bb, pp_terminal_reserve_bytes = tr, pp_max_active_time = tm\<rparr>
           | _ \<Rightarrow> None)
      | _ \<Rightarrow> None)"

definition policy_of_visit :: "visit \<Rightarrow> profile_policy option" where
  "policy_of_visit v = (case v of
       VisitMap es True \<Rightarrow>
         if distinct (map fst es) \<and> list_all (\<lambda>e. fst e \<in> set policy_keys) es
         then policy_fields es else None
     | _ \<Rightarrow> None)"

text \<open>\<open>serde_json::from_str::<ProfilePolicy>\<close>.\<close>

definition policy_from_str :: "json_parser \<Rightarrow> string \<Rightarrow> profile_policy option" where
  "policy_from_str parser s =
     (if snd (parser s) then policy_of_visit (fst (parser s)) else None)"

text \<open>\<open>serde_json::to_value\<close>: a non-finite \<open>f64\<close> becomes null.\<close>

definition f64_json :: "f64 \<Rightarrow> json" where
  "f64_json x = (if f64_is_finite x then JNumber (Float x) else JNull)"

definition direction_name :: "direction \<Rightarrow> string" where
  "direction_name d = (case d of AtMost \<Rightarrow> ''at_most'' | AtLeast \<Rightarrow> ''at_least'')"

definition opt_field :: "string \<Rightarrow> ('a \<Rightarrow> json) \<Rightarrow> 'a option \<Rightarrow> (string \<times> json) list" where
  "opt_field k f v = (case v of None \<Rightarrow> [] | Some x \<Rightarrow> [(k, f x)])"

definition nonzero_field :: "string \<Rightarrow> u64 \<Rightarrow> (string \<times> json) list" where
  "nonzero_field k n = (if n = 0 then [] else [(k, JNumber (number_from_u64 n))])"

definition policy_json :: "profile_policy \<Rightarrow> json" where
  "policy_json p = JObject (ord_extend []
     (opt_field ''metric'' JString (pp_metric p)
      @ opt_field ''direction'' (\<lambda>d. JString (direction_name d)) (pp_direction p)
      @ opt_field ''threshold'' f64_json (pp_threshold p)
      @ (if pp_record_thresholds p = [] then []
         else [(''record-thresholds'', JArray (map f64_json (pp_record_thresholds p)))])
      @ [(''max-observations'', JNumber (number_from_u64 (pp_max_observations p)))]
      @ nonzero_field ''max-checkpoint-bytes'' (pp_max_checkpoint_bytes p)
      @ nonzero_field ''max-trace-points'' (pp_max_trace_points p)
      @ nonzero_field ''max-buffer-bytes'' (pp_max_buffer_bytes p)
      @ nonzero_field ''terminal-reserve-bytes'' (pp_terminal_reserve_bytes p)
      @ [(''max-active-time'', JString (pp_max_active_time p))]))"

section \<open>Check schedules\<close>

datatype check_schedule = Periodic u64 u64 | Explicit "u64 list"

text \<open>\<open>slice::partition_point\<close> by bisection, and \<open>binary_search(..).is_ok()\<close>.\<close>

function bisect :: "(nat \<Rightarrow> bool) \<Rightarrow> nat \<Rightarrow> nat \<Rightarrow> nat" where
  "bisect P lo hi =
     (if lo < hi then
        (let mid = lo + (hi - lo) div 2
         in if P mid then bisect P (mid + 1) hi else bisect P lo mid)
      else lo)"
  by pat_completeness auto
termination
  by (relation "measure (\<lambda>(P, lo, hi). hi - lo)") auto

declare bisect.simps [simp del]

definition partition_point :: "('a \<Rightarrow> bool) \<Rightarrow> 'a list \<Rightarrow> nat" where
  "partition_point p xs = bisect (\<lambda>i. p (xs ! i)) 0 (length xs)"

definition binary_search_ok :: "nat list \<Rightarrow> nat \<Rightarrow> bool" where
  "binary_search_ok xs x =
     (let i = partition_point (\<lambda>n. n < x) xs in i < length xs \<and> xs ! i = x)"

definition schedule_valid :: "check_schedule \<Rightarrow> bool" where
  "schedule_valid s = (case s of
       Periodic every start \<Rightarrow> every > 0 \<and> every \<le> MAX_SAFE_INTEGER \<and> start \<le> MAX_SAFE_INTEGER
     | Explicit indices \<Rightarrow> indices \<noteq> [] \<and> list_all (\<lambda>n. n \<le> MAX_SAFE_INTEGER) indices
         \<and> list_all (\<lambda>(a, b). a < b) (windows2 indices))"

definition schedule_includes :: "check_schedule \<Rightarrow> u64 \<Rightarrow> bool" where
  "schedule_includes s i = (case s of
       Periodic every start \<Rightarrow> every > 0 \<and> i \<ge> start \<and> every dvd (i - start)
     | Explicit indices \<Rightarrow> binary_search_ok indices i)"

definition next_after :: "check_schedule \<Rightarrow> u64 option \<Rightarrow> u64 option" where
  "next_after s previous = (case s of
       Periodic every start \<Rightarrow>
         opt_filter (\<lambda>n. n \<le> MAX_SAFE_INTEGER)
           (case previous of
              None \<Rightarrow> Some start
            | Some i \<Rightarrow>
                if i < start then Some start
                else Option.bind (checked_div (i - start) every) (\<lambda>q.
                     Option.bind (checked_add q 1) (\<lambda>q.
                     Option.bind (checked_mul q every) (\<lambda>q. checked_add q start))))
     | Explicit indices \<Rightarrow>
         (let k = (case previous of None \<Rightarrow> 0 | Some i \<Rightarrow> partition_point (\<lambda>n. n \<le> i) indices)
          in if k < length indices then Some (indices ! k) else None))"

datatype schedule_error = GeometricShape | UnsafeIndex | CheckpointOverflow | InvalidSchedule

text \<open>The loop of the geometric form; \<open>left\<close> counts the indices still to push.\<close>

fun geometric_loop :: "u64 \<Rightarrow> nat \<Rightarrow> u64 \<Rightarrow> u64 list \<Rightarrow> (u64 list, schedule_error) result" where
  "geometric_loop ratio 0 v indices = Inr indices"
| "geometric_loop ratio (Suc left) v indices =
     (if v > MAX_SAFE_INTEGER then Inl UnsafeIndex
      else if left = 0 then Inr (indices @ [v])
      else res_bind (ok_or (checked_mul v ratio) CheckpointOverflow) (\<lambda>v'.
        geometric_loop ratio left v' (indices @ [v])))"

definition geometric_schedule ::
  "u64 \<Rightarrow> u64 \<Rightarrow> u64 \<Rightarrow> u64 list \<Rightarrow> (check_schedule, schedule_error) result" where
  "geometric_schedule start ratio count prefix =
     (if count = 0 \<or> count > MAX_SAFE_INTEGER \<or> start = 0 \<or> \<not> (2 \<le> ratio \<and> ratio \<le> MAX_SAFE_INTEGER)
      then Inl GeometricShape
      else res_bind (geometric_loop ratio count start prefix) (\<lambda>indices.
        if schedule_valid (Explicit indices) then Inr (Explicit indices) else Inl InvalidSchedule))"

section \<open>Bisection\<close>

lemma bisect_split:
  assumes "lo \<le> hi" and "hi \<le> n" and "\<And>i. i < lo \<Longrightarrow> P i" and "\<And>i. hi \<le> i \<Longrightarrow> i < n \<Longrightarrow> \<not> P i"
    and mono: "\<And>i j. i < j \<Longrightarrow> j < n \<Longrightarrow> P j \<Longrightarrow> P i"
  shows "bisect P lo hi \<le> n \<and> (\<forall>i < bisect P lo hi. P i) \<and> (\<forall>i < n. bisect P lo hi \<le> i \<longrightarrow> \<not> P i)"
  using assms
proof (induction P lo hi rule: bisect.induct)
  case (1 P lo hi)
  note mono = "1.prems"(5)
  define mid where "mid = lo + (hi - lo) div 2"
  show ?case
  proof (cases "lo < hi")
    case True
    then have m: "lo \<le> mid" "mid < hi" by (auto simp: mid_def)
    show ?thesis
    proof (cases "P mid")
      case hit: True
      have below: "P i" if "i < mid + 1" for i
        using that hit mono [of i mid] m "1.prems"(2) by (cases "i = mid") auto
      have "bisect P lo hi = bisect P (mid + 1) hi"
        using True hit by (subst bisect.simps) (simp add: mid_def Let_def)
      with "1.IH"(1) [OF True mid_def hit _ "1.prems"(2) below "1.prems"(4) mono] m show ?thesis by simp
    next
      case miss: False
      have above: "\<not> P i" if "mid \<le> i" "i < n" for i
        using that miss mono [of mid i] by (cases "i = mid") auto
      have "bisect P lo hi = bisect P lo mid"
        using True miss by (subst bisect.simps) (simp add: mid_def Let_def)
      with "1.IH"(2) [OF True mid_def miss _ _ "1.prems"(3) above mono] m "1.prems"(2) show ?thesis by simp
    qed
  next
    case False
    with "1.prems" show ?thesis by (subst (1 2 3) bisect.simps) auto
  qed
qed

lemma partition_point_split:
  assumes "\<And>i j. i < j \<Longrightarrow> j < length xs \<Longrightarrow> p (xs ! j) \<Longrightarrow> p (xs ! i)"
  shows "partition_point p xs \<le> length xs"
    and "i < partition_point p xs \<Longrightarrow> p (xs ! i)"
    and "partition_point p xs \<le> i \<Longrightarrow> i < length xs \<Longrightarrow> \<not> p (xs ! i)"
proof -
  have "partition_point p xs \<le> length xs \<and> (\<forall>i < partition_point p xs. p (xs ! i)) \<and>
    (\<forall>i < length xs. partition_point p xs \<le> i \<longrightarrow> \<not> p (xs ! i))"
    unfolding partition_point_def by (rule bisect_split) (use assms in auto)
  then show "partition_point p xs \<le> length xs"
    and "i < partition_point p xs \<Longrightarrow> p (xs ! i)"
    and "partition_point p xs \<le> i \<Longrightarrow> i < length xs \<Longrightarrow> \<not> p (xs ! i)"
    by blast+
qed

lemma windows2_increasing: "list_all (\<lambda>(a, b). a < b) (windows2 xs) \<longleftrightarrow> sorted_wrt (<) (xs :: nat list)"
proof (induction xs)
  case (Cons x xs)
  show ?case
  proof (cases xs)
    case (Cons y ys)
    have "list_all (\<lambda>(a, b). a < b) (windows2 (x # xs)) \<longleftrightarrow> x < y \<and> sorted_wrt (<) xs"
      using Cons.IH local.Cons by (simp add: windows2_def)
    also have "\<dots> \<longleftrightarrow> sorted_wrt (<) (x # xs)"
      using local.Cons by (auto intro: less_trans)
    finally show ?thesis .
  qed (simp add: windows2_def)
qed (simp add: windows2_def)

lemma increasing_nth: "sorted_wrt (<) (xs :: nat list) \<Longrightarrow> i < j \<Longrightarrow> j < length xs \<Longrightarrow> xs ! i < xs ! j"
  by (simp add: sorted_wrt_iff_nth_less)

lemma binary_search_ok_iff:
  assumes "sorted_wrt (<) xs"
  shows "binary_search_ok xs x \<longleftrightarrow> x \<in> set xs"
proof
  assume "binary_search_ok xs x"
  then show "x \<in> set xs" by (metis binary_search_ok_def nth_mem)
next
  assume "x \<in> set xs"
  then obtain k where k: "k < length xs" "xs ! k = x" by (auto simp: in_set_conv_nth)
  let ?i = "partition_point (\<lambda>n. n < x) xs"
  have mono: "\<And>i j. i < j \<Longrightarrow> j < length xs \<Longrightarrow> xs ! j < x \<Longrightarrow> xs ! i < x"
    using increasing_nth [OF assms] by (meson less_trans)
  have "\<not> k < ?i" using partition_point_split(2) [of xs "\<lambda>n. n < x" k, OF mono] k by auto
  moreover have "\<not> ?i < k"
  proof
    assume "?i < k"
    with k have "xs ! ?i < x" using increasing_nth [OF assms, of ?i k] by simp
    moreover have "?i < length xs" using \<open>?i < k\<close> k by simp
    ultimately show False using partition_point_split(3) [of xs "\<lambda>n. n < x" ?i, OF mono] by auto
  qed
  ultimately show "binary_search_ok xs x" using k by (auto simp: binary_search_ok_def Let_def)
qed

section \<open>Least next index\<close>

text \<open>What a runner needs of \<open>next_after\<close>: the least scheduled index after the previous one.\<close>

definition scheduled_after :: "check_schedule \<Rightarrow> u64 option \<Rightarrow> u64 \<Rightarrow> bool" where
  "scheduled_after s previous k \<longleftrightarrow>
     schedule_includes s k \<and> k \<le> MAX_SAFE_INTEGER \<and> (case previous of None \<Rightarrow> True | Some i \<Rightarrow> i < k)"

definition least_after :: "check_schedule \<Rightarrow> u64 option \<Rightarrow> u64 option \<Rightarrow> bool" where
  "least_after s previous r = (case r of
       None \<Rightarrow> (\<forall>k. \<not> scheduled_after s previous k)
     | Some j \<Rightarrow> scheduled_after s previous j \<and> (\<forall>k. scheduled_after s previous k \<longrightarrow> j \<le> k))"

lemma explicit_least:
  assumes v: "schedule_valid (Explicit xs)"
  shows "least_after (Explicit xs) previous (next_after (Explicit xs) previous)"
proof -
  from v have inc: "sorted_wrt (<) xs" and ne: "xs \<noteq> []" and safe: "\<forall>n \<in> set xs. n \<le> MAX_SAFE_INTEGER"
    unfolding schedule_valid_def check_schedule.case windows2_increasing by (simp_all add: list.pred_set)
  define past where "past n = (case previous of None \<Rightarrow> False | Some i \<Rightarrow> n \<le> i)" for n
  define k where "k = (case previous of None \<Rightarrow> 0 | Some i \<Rightarrow> partition_point (\<lambda>n. n \<le> i) xs)"
  have mono: "\<And>i j. i < j \<Longrightarrow> j < length xs \<Longrightarrow> past (xs ! j) \<Longrightarrow> past (xs ! i)"
    using increasing_nth [OF inc] by (fastforce simp: past_def split: option.splits)
  have below: "past (xs ! i)" if "i < k" for i
    using that partition_point_split(2) [of xs past i, OF mono]
    by (auto simp: k_def past_def [abs_def] split: option.splits)
  have above: "\<not> past (xs ! i)" if "k \<le> i" "i < length xs" for i
    using that partition_point_split(3) [of xs past i, OF mono]
    by (auto simp: k_def past_def [abs_def] split: option.splits)
  have sched: "scheduled_after (Explicit xs) previous n \<longleftrightarrow> n \<in> set xs \<and> \<not> past n" for n
    using safe by (auto simp: scheduled_after_def schedule_includes_def binary_search_ok_iff [OF inc]
        past_def split: option.splits)
  have nxt: "next_after (Explicit xs) previous = (if k < length xs then Some (xs ! k) else None)"
    by (simp add: next_after_def k_def Let_def)
  show ?thesis
  proof (cases "k < length xs")
    case True
    have "xs ! k \<le> n" if "n \<in> set xs" "\<not> past n" for n
    proof -
      from that obtain i where i: "i < length xs" "xs ! i = n" by (auto simp: in_set_conv_nth)
      with that below [of i] have "k \<le> i" by (meson not_le)
      with i increasing_nth [OF inc, of k i] show ?thesis by (cases "k = i") auto
    qed
    with True above [of k] show ?thesis by (simp add: least_after_def nxt sched)
  next
    case False
    then have "past n" if "n \<in> set xs" for n
      using that below by (auto simp: in_set_conv_nth)
    with False show ?thesis by (auto simp: least_after_def nxt sched)
  qed
qed

lemma periodic_multiples:
  assumes "every > 0" and "start \<le> i"
  shows "i < start + every * (Suc ((i - start) div every))"
    and "every dvd (k - start) \<Longrightarrow> i < k \<Longrightarrow> start + every * (Suc ((i - start) div every)) \<le> k"
proof -
  have "i - start < every * Suc ((i - start) div every)"
    using assms dividend_less_times_div [of every "i - start"] by simp
  then show "i < start + every * (Suc ((i - start) div every))" using assms by linarith
  assume "every dvd (k - start)" and "i < k"
  then obtain m where m: "k - start = every * m" by (auto elim: dvdE)
  have "i - start < every * m" using \<open>i < k\<close> assms m by linarith
  then have "(i - start) div every < m" using assms(1) by (simp add: less_mult_imp_div_less mult.commute)
  then have "every * Suc ((i - start) div every) \<le> every * m" by (intro mult_le_mono2) simp
  with m \<open>i < k\<close> assms(2) show "start + every * (Suc ((i - start) div every)) \<le> k" by linarith
qed

lemma periodic_step:
  assumes v: "every > 0" and i: "start \<le> i" and u: "i \<le> U64_MAX"
  shows "opt_filter (\<lambda>n. n \<le> MAX_SAFE_INTEGER)
           (Option.bind (checked_div (i - start) every) (\<lambda>q.
            Option.bind (checked_add q 1) (\<lambda>q.
            Option.bind (checked_mul q every) (\<lambda>q. checked_add q start))))
         = (let n = start + every * Suc ((i - start) div every) in
            if n \<le> MAX_SAFE_INTEGER then Some n else None)"
proof -
  let ?q = "(i - start) div every"
  have big: "MAX_SAFE_INTEGER \<le> U64_MAX" by (simp add: MAX_SAFE_INTEGER_def U64_MAX_def)
  have q: "?q \<le> every * ?q" using v by simp
  have n: "start + every * Suc ?q = Suc ?q * every + start" by simp
  show ?thesis
  proof (cases "start + every * Suc ?q \<le> MAX_SAFE_INTEGER")
    case True
    have "Suc ?q \<le> every * Suc ?q" using mult_le_mono1 [of 1 every "Suc ?q"] v by (simp del: mult_Suc_right)
    also have "\<dots> \<le> start + every * Suc ?q" by (rule le_add2)
    also have "\<dots> \<le> U64_MAX" using True big by (rule order_trans)
    finally have "Suc ?q \<le> U64_MAX" .
    moreover have "Suc ?q * every + start \<le> U64_MAX" using True big n by linarith
    moreover from this have "Suc ?q * every \<le> U64_MAX" by linarith
    ultimately show ?thesis
      using True v by (simp add: checked_div_def checked_add_def checked_mul_def Let_def algebra_simps)
  next
    case False
    then show ?thesis
      using v n by (auto simp: checked_div_def checked_add_def checked_mul_def Let_def algebra_simps
          bind_eq_Some_conv)
  qed
qed

lemma periodic_least:
  assumes v: "schedule_valid (Periodic every start)" and u: "\<And>i. previous = Some i \<Longrightarrow> i \<le> U64_MAX"
  shows "least_after (Periodic every start) previous (next_after (Periodic every start) previous)"
proof -
  from v have e: "every > 0" and s: "start \<le> MAX_SAFE_INTEGER" by (auto simp: schedule_valid_def)
  show ?thesis
  proof (cases "\<exists>i. previous = Some i \<and> start \<le> i")
    case True
    then obtain i where i: "previous = Some i" "start \<le> i" by blast
    let ?n = "start + every * Suc ((i - start) div every)"
    have "next_after (Periodic every start) previous = (if ?n \<le> MAX_SAFE_INTEGER then Some ?n else None)"
      using i periodic_step [OF e i(2) u [OF i(1)]] by (simp add: next_after_def Let_def)
    moreover have "scheduled_after (Periodic every start) previous ?n \<longleftrightarrow> ?n \<le> MAX_SAFE_INTEGER"
      using i e periodic_multiples(1) [OF e i(2)] by (auto simp: scheduled_after_def schedule_includes_def)
    moreover have "?n \<le> k" if "scheduled_after (Periodic every start) previous k" for k
      using that i periodic_multiples(2) [OF e i(2), of k]
      by (simp add: scheduled_after_def schedule_includes_def)
    ultimately show ?thesis
      by (auto simp: least_after_def scheduled_after_def intro: order_trans split: option.splits)
  next
    case False
    then have "next_after (Periodic every start) previous = Some start"
      using s by (cases previous) (auto simp: next_after_def)
    moreover have "scheduled_after (Periodic every start) previous start"
      using False s e by (cases previous) (auto simp: scheduled_after_def schedule_includes_def)
    ultimately show ?thesis
      by (auto simp: least_after_def scheduled_after_def schedule_includes_def)
  qed
qed

section \<open>Durations spelled in decimal\<close>

lemma strip_encoding_Some_lead:
  "strip_encoding ws s = Some t \<Longrightarrow> \<exists>w \<in> set ws. w \<noteq> [] \<and> s \<noteq> [] \<and> byte_of (hd s) = hd w"
proof (induction ws s rule: strip_encoding.induct)
  case (2 w ws s)
  show ?case
  proof (cases "w \<noteq> [] \<and> map byte_of (take (length w) s) = w")
    case True
    then have "s \<noteq> []" by auto
    with True have "byte_of (hd s) = hd w" by (cases s; cases w) auto
    with True \<open>s \<noteq> []\<close> show ?thesis by auto
  next
    case False
    with 2 show ?thesis by (auto split: if_splits)
  qed
qed simp

definition lead_bytes :: "nat list" where
  "lead_bytes = [9, 10, 11, 12, 13, 32, 194, 225, 226, 227]"

definition plain_char :: "char \<Rightarrow> bool" where
  "plain_char c \<longleftrightarrow> 33 \<le> byte_of c \<and> byte_of c \<le> 127"

lemma ws_leads: "list_all (\<lambda>w. \<not> (33 \<le> hd w \<and> hd w \<le> 127)) ws_encodings"
  by code_simp

lemma ws_rev_leads: "list_all (\<lambda>w. \<not> (33 \<le> hd w \<and> hd w \<le> 127)) (map rev ws_encodings)"
  by code_simp

lemma trim_with_plain:
  assumes "list_all (\<lambda>w. \<not> (33 \<le> hd w \<and> hd w \<le> 127)) ws" and "s \<noteq> [] \<Longrightarrow> plain_char (hd s)"
  shows "trim_with ws s = s"
proof -
  have "strip_encoding ws s = None"
    using strip_encoding_Some_lead [of ws s] assms
    by (fastforce simp: list_all_iff plain_char_def)
  then show ?thesis by (subst trim_with.simps) simp
qed

lemma str_trim_plain:
  assumes "s \<noteq> [] \<Longrightarrow> plain_char (hd s) \<and> plain_char (last s)"
  shows "str_trim s = s"
  using assms trim_with_plain [OF ws_leads, of s] trim_with_plain [OF ws_rev_leads, of "rev s"]
  by (simp add: str_trim_def hd_rev)

lemma digit_plain: "is_ascii_digit c \<Longrightarrow> plain_char c"
  by (auto simp: is_ascii_digit_def plain_char_def)

lemma digits_plain:
  "list_all is_ascii_digit s \<Longrightarrow> s \<noteq> [] \<Longrightarrow> plain_char (hd s) \<and> plain_char (last s)"
  by (auto simp: list_all_iff intro!: digit_plain)

lemma dec_string_lead: "0 < n \<Longrightarrow> is_nonzero_digit (hd (dec_string n))"
proof (induction n rule: dec_string.induct)
  case (1 n)
  show ?case
  proof (cases "n < 10")
    case True
    then have "byte_of (digit_char n) = 48 + n" by (rule byte_of_digit_char)
    with True "1.prems" show ?thesis
      by (subst dec_string.simps) (simp add: is_nonzero_digit_def del: digit_char.simps)
  next
    case False
    with "1.IH" have "is_nonzero_digit (hd (dec_string (n div 10)))" by simp
    with False show ?thesis by (subst dec_string.simps) (simp add: hd_append)
  qed
qed

lemma parse_u64_digits:
  assumes "list_all is_ascii_digit s" and "s \<noteq> []"
  shows "parse_u64 s = (if dec_value s \<le> U64_MAX then Some (dec_value s) else None)"
proof -
  obtain c cs where s: "s = c # cs" using assms(2) by (meson list.exhaust)
  have "byte_of (CHR ''+'') = 43" by (simp add: byte_of_def)
  with assms(1) s have "c \<noteq> CHR ''+''" by (auto simp: is_ascii_digit_def)
  with s assms show ?thesis by (simp add: parse_u64_def Let_def)
qed

lemma unit_chars:
  "(u, m) \<in> set duration_units \<Longrightarrow> u \<noteq> [] \<and> list_all plain_char u \<and> list_all (\<lambda>c. \<not> is_ascii_digit c) u"
  by (auto simp: duration_units_def plain_char_def is_ascii_digit_def byte_of_def)

lemma strip_suffix_digits:
  assumes "list_all is_ascii_digit ds" and "ds \<noteq> []"
    and "list_all (\<lambda>c. \<not> is_ascii_digit c) u" and "list_all (\<lambda>c. \<not> is_ascii_digit c) u'"
  shows "str_strip_suffix u' (ds @ u) = (case str_strip_suffix u' u of None \<Rightarrow> None | Some t \<Rightarrow> Some (ds @ t))"
proof (cases "str_strip_suffix u' u")
  case (Some t)
  then have "str_strip_suffix u' (ds @ u) = Some (ds @ t)" by (simp add: str_strip_suffix_Some_iff)
  with Some show ?thesis by simp
next
  case None
  have "str_strip_suffix u' (ds @ u) = None"
  proof (rule ccontr)
    assume "str_strip_suffix u' (ds @ u) \<noteq> None"
    then obtain t where "ds @ u = t @ u'" by (auto simp: str_strip_suffix_Some_iff)
    then obtain us where us: "ds = t @ us \<and> us @ u = u' \<or> ds @ us = t \<and> u = us @ u'"
      by (auto simp: append_eq_append_conv2)
    have "\<not> (\<exists>us. u = us @ u')"
    proof
      assume "\<exists>us. u = us @ u'"
      then obtain vs where "u = vs @ u'" by blast
      then have "str_strip_suffix u' u = Some vs" by (simp only: str_strip_suffix_Some_iff)
      with None show False by simp
    qed
    with us have "ds = t @ us" "us @ u = u'" by auto
    with assms have "us = []" by (cases us) auto
    with None \<open>us @ u = u'\<close> show False
      using str_strip_suffix_Some_iff [of u' u "[]"] by simp
  qed
  with None show ?thesis by simp
qed

lemma unit_suffixes:
  "str_strip_suffix ''ms'' ''s'' = None" "str_strip_suffix ''ms'' ''min'' = None"
  "str_strip_suffix ''ms'' ''h'' = None" "str_strip_suffix ''s'' ''min'' = None"
  "str_strip_suffix ''s'' ''h'' = None" "str_strip_suffix ''min'' ''h'' = None"
  "str_strip_suffix u u = Some []"
  by (simp_all add: str_strip_suffix_def str_strip_prefix_def)

lemma find_unit_digits:
  assumes ds: "list_all is_ascii_digit ds" "ds \<noteq> []" and u: "(u, m) \<in> set duration_units"
  shows "find_unit (ds @ u) duration_units = Some (ds, m)"
proof -
  from unit_chars [OF u] have trim: "str_trim (ds @ u) = ds @ u"
    using digits_plain [OF ds] ds(2) by (intro str_trim_plain) (auto simp: list_all_iff)
  have trim': "str_trim ds = ds" using digits_plain [OF ds] by (intro str_trim_plain)
  have strip: "str_strip_suffix u' (ds @ u) = (case str_strip_suffix u' u of None \<Rightarrow> None | Some t \<Rightarrow> Some (ds @ t))"
    if "(u', m') \<in> set duration_units" for u' m'
    using strip_suffix_digits [OF ds, of u u'] unit_chars [OF u] unit_chars [OF that] by blast
  have s: "(''ms'', 1000000) \<in> set duration_units" "(''s'', 1000000000) \<in> set duration_units"
    "(''min'', 60000000000) \<in> set duration_units" "(''h'', 3600000000000) \<in> set duration_units"
    by (simp_all add: duration_units_def)
  note strips = strip [OF s(1)] strip [OF s(2)] strip [OF s(3)] strip [OF s(4)]
  consider "u = ''ms'' \<and> m = 1000000" | "u = ''s'' \<and> m = 1000000000"
    | "u = ''min'' \<and> m = 60000000000" | "u = ''h'' \<and> m = 3600000000000"
    using u by (auto simp: duration_units_def)
  then show ?thesis
    using trim trim' strips by cases (simp_all add: duration_units_def unit_suffixes)
qed

lemma decimal_duration:
  assumes u: "(u, m) \<in> set duration_units" and n: "0 < n"
  shows "positive_nanoseconds (dec_string n @ u) =
    (if n * m \<le> MAX_SAFE_INTEGER then Inr (n * m) else Inl DurationRange)"
proof -
  have m: "0 < m" using u by (auto simp: duration_units_def)
  have "starts_nonzero (dec_string n)"
    using dec_string_lead [OF n] dec_string_nonempty [of n]
    by (cases "dec_string n") (auto simp: starts_nonzero_def)
  moreover have "MAX_SAFE_INTEGER \<le> U64_MAX" by (simp add: MAX_SAFE_INTEGER_def U64_MAX_def)
  moreover have "n * m \<le> MAX_SAFE_INTEGER \<Longrightarrow> n \<le> U64_MAX"
    using calculation(2) mult_le_mono2 [of 1 m n] m by (simp only: Suc_le_eq One_nat_def nat_mult_1_right mult_Suc_right mult_0_right add_0_right) (meson le_trans)
  ultimately show ?thesis
    using n m find_unit_digits [OF dec_string_digits dec_string_nonempty u, of n]
      parse_u64_digits [OF dec_string_digits dec_string_nonempty, of n]
    by (auto simp: positive_nanoseconds_def dec_string_digits dec_value_dec_string checked_mul_def ok_or_def)
qed

section \<open>Properties\<close>

text \<open>
  A decimal count followed by a unit is accepted exactly when it
  is positive and the product with the unit is at most \<open>2\<^sup>5\<^sup>3 - 1\<close>, and then gives that product;
  larger counts are refused, never wrapped around.
\<close>

theorem positive_nanoseconds_decimal:
  assumes "(u, m) \<in> set duration_units" and "0 < n"
  shows "positive_nanoseconds (dec_string n @ u) =
    (if n * m \<le> MAX_SAFE_INTEGER then Inr (n * m) else Inl DurationRange)"
  using assms by (rule decimal_duration)

theorem positive_nanoseconds_decimal_witness:
  "positive_nanoseconds (dec_string 90 @ ''min'') = Inr (5400000000000::nat) \<and>
   positive_nanoseconds (dec_string 3000 @ ''h'') = Inl DurationRange \<and>
   (''min'', 60000000000) \<in> set duration_units"
proof -
  have u: "(''min'', 60000000000) \<in> set duration_units" "(''h'', 3600000000000) \<in> set duration_units"
    by (simp_all add: duration_units_def)
  show ?thesis
    using positive_nanoseconds_decimal [OF u(1), of 90] positive_nanoseconds_decimal [OF u(2), of 3000] u(1)
    by (simp add: MAX_SAFE_INTEGER_def)
qed

lemma positive_nanoseconds_bounds:
  "positive_nanoseconds s = Inr n \<Longrightarrow> 0 < n \<and> n \<le> MAX_SAFE_INTEGER"
  by (auto simp: positive_nanoseconds_def split: if_splits)

lemma active_time_bounds: "active_time_ns p = Inr n \<Longrightarrow> 0 < n \<and> n \<le> MAX_SAFE_INTEGER"
  by (simp add: active_time_ns_def positive_nanoseconds_bounds)

text \<open>
  C18 (next_after_is_least): on a valid check schedule \<open>next_after\<close> returns the least scheduled
  safe index after the previous one, and returns none only when there is none, although it works
  by bisection on explicit lists and by checked arithmetic on periodic ones.
\<close>

theorem next_after_is_least:
  assumes "schedule_valid s" and "\<forall>i. previous = Some i \<longrightarrow> i \<le> U64_MAX"
  shows "least_after s previous (next_after s previous)"
  using assms explicit_least periodic_least by (cases s) auto

theorem next_after_is_least_witness:
  "least_after (Periodic 10 5) (Some 27) (Some 35) \<and>
   least_after (Explicit [1, 4, 9]) (Some 9) None"
proof -
  have "schedule_valid (Periodic 10 5)" "schedule_valid (Explicit [1, 4, 9])"
    by (simp_all add: schedule_valid_def windows2_def MAX_SAFE_INTEGER_def)
  moreover have "next_after (Periodic 10 5) (Some 27) = Some 35"
    by (simp add: next_after_def checked_div_def checked_add_def checked_mul_def U64_MAX_def MAX_SAFE_INTEGER_def)
  moreover have "next_after (Explicit [1, 4, 9]) (Some 9) = None"
    by (simp add: next_after_def partition_point_def bisect.simps Let_def)
  ultimately show ?thesis
    using next_after_is_least [of "Periodic 10 5" "Some 27"] next_after_is_least [of "Explicit [1, 4, 9]" "Some 9"]
    by (simp add: U64_MAX_def)
qed

lemma geometric_loop_eq:
  "geometric_loop ratio n v acc = Inr xs \<Longrightarrow> xs = acc @ map (\<lambda>i. v * ratio ^ i) [0..<n]"
proof (induction n arbitrary: v acc xs)
  case (Suc n)
  have split: "map (\<lambda>i. v * ratio ^ i) [0..<Suc n] = v # map (\<lambda>i. v * ratio * ratio ^ i) [0..<n]"
    by (simp add: upt_conv_Cons map_Suc_upt [symmetric] del: upt_Suc)
  show ?case
  proof (cases "n = 0")
    case True
    with Suc.prems show ?thesis by (auto split: if_splits)
  next
    case False
    with Suc.prems obtain v' where "checked_mul v ratio = Some v'"
      and "geometric_loop ratio n v' (acc @ [v]) = Inr xs"
      by (auto split: if_splits)
    with Suc.IH [of "v * ratio" "acc @ [v]" xs] show ?thesis
      unfolding split by (simp add: checked_mul_Some_iff)
  qed
qed auto

text \<open>
  An accepted geometric check schedule is its prefix followed
  by \<open>start * ratio\<^sup>i\<close> for every \<open>i\<close> below the count, computed without wrap-around, and is valid.
\<close>

theorem geometric_schedule_expansion:
  assumes "geometric_schedule start ratio count prefix = Inr s"
  shows "s = Explicit (prefix @ map (\<lambda>i. start * ratio ^ i) [0..<count]) \<and> schedule_valid s"
  using assms geometric_loop_eq by (fastforce simp: geometric_schedule_def split: if_splits)

theorem geometric_schedule_expansion_witness:
  "geometric_schedule 2 3 3 [0, 1] = Inr (Explicit [0, 1, 2, 6, 18]) \<and>
   schedule_valid (Explicit [0, 1, 2, 6, 18])"
proof -
  have run: "geometric_schedule 2 3 3 [0, 1] = Inr (Explicit [0, 1, 2, 6, 18])"
    by (simp add: geometric_schedule_def numeral_3_eq_3 checked_mul_def schedule_valid_def
        windows2_def MAX_SAFE_INTEGER_def U64_MAX_def)
  from geometric_schedule_expansion [OF run] run show ?thesis by blast
qed

lemma reaches_trans: "reaches p a b \<Longrightarrow> reaches p b c \<Longrightarrow> reaches p a c"
  unfolding reaches_def f64_ge_def
  by (simp split: option.splits direction.splits) (meson f64_le_trans)+

lemma reaches_eq: "f64_eq a b \<Longrightarrow> reaches p v b \<Longrightarrow> reaches p v a"
  unfolding reaches_def f64_ge_def f64_eq_def
  by (simp split: option.splits direction.splits) (meson f64_le_trans)+

lemma chain_reaches:
  assumes "list_all (\<lambda>(a, b). reaches p b a) (windows2 ts)" and "ts \<noteq> []" and "reaches p v (last ts)"
  shows "\<forall>t \<in> set ts. reaches p v t"
  using assms
proof (induction ts)
  case (Cons t ts)
  show ?case
  proof (cases "ts = []")
    case True
    with Cons.prems show ?thesis by simp
  next
    case False
    have "windows2 (t # ts) = (t, hd ts) # windows2 ts"
      using False by (cases ts) (simp_all add: windows2_def)
    with Cons.prems(1) have step: "reaches p (hd ts) t"
      and rest: "list_all (\<lambda>(a, b). reaches p b a) (windows2 ts)" by simp_all
    have "reaches p v (last ts)" using Cons.prems(3) False by simp
    with Cons.IH [OF rest False] have all: "\<forall>t \<in> set ts. reaches p v t" .
    then have "reaches p v (hd ts)" using False by simp
    from reaches_trans [OF this step] all show ?thesis by simp
  qed
qed simp

text \<open>
  In a policy that \<open>validate\<close> accepts with a target, the
  recording thresholds are finite, fit the observation bound, end at the target, and are ordered:
  a metric value that reaches the target reaches every recording threshold.
\<close>

theorem valid_policy_thresholds_nested:
  assumes v: "validate_policy p = Inr ()" and t: "pp_threshold p = Some target"
  shows "length (thresholds p) \<le> pp_max_observations p \<and> list_all f64_is_finite (thresholds p) \<and>
    f64_eq (last (thresholds p)) target \<and>
    (reaches p v target \<longrightarrow> (\<forall>t \<in> set (thresholds p). reaches p v t))"
proof -
  from v t have ok: "thresholds_ok p target"
    by (auto simp: validate_policy_def validate_target_def split: option.splits if_splits)
  then have len: "length (thresholds p) \<le> pp_max_observations p" and ne: "thresholds p \<noteq> []"
    and eq: "f64_eq (last (thresholds p)) target" and fin: "list_all f64_is_finite (thresholds p)"
    and chain: "list_all (\<lambda>(a, b). reaches p b a) (windows2 (thresholds p))"
    by (auto simp: thresholds_ok_def last_is_def list_all_iff list_ex_iff)
  have "reaches p v (last (thresholds p))" if "reaches p v target"
    using eq that by (rule reaches_eq)
  with chain_reaches [OF chain ne] len eq fin show ?thesis by blast
qed

definition example_policy :: profile_policy where
  "example_policy = \<lparr>pp_metric = Some ''gap'', pp_direction = Some AtMost,
     pp_threshold = Some (F64 (1 / 100)), pp_record_thresholds = [F64 1, F64 (1 / 10), F64 (1 / 100)],
     pp_max_observations = 5, pp_max_checkpoint_bytes = 0, pp_max_trace_points = 0,
     pp_max_buffer_bytes = 0, pp_terminal_reserve_bytes = 0, pp_max_active_time = dec_string 5 @ ''s''\<rparr>"

lemma example_policy_active: "active_time_ns example_policy = Inr 5000000000"
proof -
  have "(''s'', 1000000000) \<in> set duration_units" by (simp add: duration_units_def)
  from decimal_duration [OF this, of 5] show ?thesis
    by (simp add: active_time_ns_def example_policy_def MAX_SAFE_INTEGER_def)
qed

theorem valid_policy_thresholds_nested_witness:
  "validate_policy example_policy = Inr () \<and>
   list_all (reaches example_policy (F64 (1 / 200))) (thresholds example_policy)"
proof -
  have v: "validate_policy example_policy = Inr ()"
    using example_policy_active
    by (simp add: validate_policy_def validate_target_def thresholds_ok_def thresholds_def last_is_def
        windows2_def reaches_def f64_eq_def example_policy_def MAX_SAFE_INTEGER_def)
  have t: "pp_threshold example_policy = Some (F64 (1 / 100))" by (simp add: example_policy_def)
  have "reaches example_policy (F64 (1 / 200)) (F64 (1 / 100))"
    by (simp add: reaches_def example_policy_def)
  with valid_policy_thresholds_nested [OF v t, of "F64 (1 / 200)"] v show ?thesis
    by (simp add: list_all_iff)
qed

end
