(* ===== verification/Run_Records.thy ===== *)
theory Run_Records
  imports Record_Identity Profile_Policy
begin

text \<open>
  The execution records of \<open>src/core/records.rs\<close> that the run store registers, the fields they
  contribute to their identities (\<open>src/core/identity.rs\<close>), and the public documents of
  \<open>src/core/run_documents.rs\<close> with their RFC 3339 timestamps.
\<close>

section \<open>Records\<close>

record resolved_worker =
  rw_source_bundle :: "digest option"
  rw_environment :: digest
  rw_launch :: digest

record resolved_specification =
  rs_applicability :: "digest option"
  rs_logical :: digest
  rs_problem_instance :: digest
  rs_implementation :: resolved_worker
  rs_evaluator :: resolved_worker
  rs_executor :: digest
  rs_wire_version :: nat
  rs_semantics_version :: nat

record resolved_observation_slot =
  ros_logical :: digest
  ros_specification :: digest

record resolved_attempt_slot =
  ras_logical :: digest
  ras_specification :: digest

datatype applicability_outcome = Unchecked | Applicable | NotApplicable

record applicability_decision =
  ad_candidate :: digest
  ad_outcome :: applicability_outcome
  ad_code :: string
  ad_reason :: string
  ad_checked_inputs :: "json option"
  ad_evidence :: "json option"
  ad_details :: "json option"

record artifact_reference =
  ref_id :: digest
  ref_path :: string
  ref_sha256 :: digest

text \<open>\<open>std::time::Duration\<close>: whole seconds and nanoseconds below one second.\<close>

record duration =
  du_secs :: u64
  du_nanos :: nat

datatype primary_time = TimedWallTime | CpuTime

record observation_timing =
  tm_primary :: primary_time
  tm_timed_wall :: duration
  tm_implementation :: "duration option"
  tm_evaluation :: duration
  tm_cpu :: "duration option"
  tm_peak_rss :: "u64 option"

datatype completion = NotRequired | Reached | NotReached

record provenance =
  pv_tool_version :: string
  pv_wire_version :: nat
  pv_semantics_version :: nat
  pv_data :: json

record buffered_observation =
  bo_scope :: string
  bo_clock :: string
  bo_time_ns :: u64
  bo_total_time_ns :: u64
  bo_trace_index :: u64
  bo_capture_ordinal :: u64
  bo_thresholds :: "f64 list"
  bo_provisional_metrics :: json

record fresh_observation =
  fo_measurement_index :: u64
  fo_schedule_index :: u64
  fo_control :: json

datatype stop_reason =
    TargetReached | FixedCount | TraceLimit | ObservationLimit | ByteLimit | ActiveTimeLimitStop
  | ImplementationStopped

record streaming_observation =
  so_sequence :: u64
  so_check_index :: u64
  so_work :: "(string \<times> u64) list"
  so_terminal :: bool
  so_thresholds :: "f64 list"
  so_active_time_ns :: u64
  so_elapsed_ns :: u64
  so_evaluation_ns :: u64
  so_decision :: string
  so_stop_reason :: "stop_reason option"

datatype profile_observation =
    BufferedObservation buffered_observation
  | FreshProfileObservation fresh_observation
  | StreamingObservation streaming_observation

record run_observation =
  ob_profile :: "profile_observation option"
  ob_slot :: digest
  ob_attempt :: digest
  ob_result :: artifact_reference
  ob_metrics :: artifact_reference
  ob_timing :: observation_timing
  ob_completion :: completion
  ob_provenance :: provenance

text \<open>\<open>IdentifiedRecord<T>\<close>.\<close>

type_synonym 'r identified = "digest \<times> 'r"

section \<open>Identity fields\<close>

definition id_value :: "identity_kind \<Rightarrow> digest \<Rightarrow> json" where
  "id_value kind d = JString (record_id_display kind d)"

definition optional_id :: "identity_kind \<Rightarrow> digest option \<Rightarrow> json" where
  "optional_id kind d = (case d of None \<Rightarrow> JNull | Some d \<Rightarrow> id_value kind d)"

definition u64_value :: "u64 \<Rightarrow> json" where
  "u64_value n = JNumber (number_from_u64 n)"

definition optional_value :: "('a \<Rightarrow> json) \<Rightarrow> 'a option \<Rightarrow> json" where
  "optional_value f v = (case v of None \<Rightarrow> JNull | Some x \<Rightarrow> f x)"

definition fields_of :: "(string \<times> json) list \<Rightarrow> json_map" where
  "fields_of flds = ord_extend [] flds"

definition resolved_worker_value :: "resolved_worker \<Rightarrow> json" where
  "resolved_worker_value w = json_object
     [(''source_bundle'', optional_id ArtifactKind (rw_source_bundle w)),
      (''environment'', id_value ResolvedEnvironmentKind (rw_environment w)),
      (''launch'', id_value ResolvedLaunchKind (rw_launch w))]"

definition specification_fields :: "resolved_specification \<Rightarrow> json_map" where
  "specification_fields r =
     (let result = fields_of
        [(''kind'', JString ''one_shot''),
         (''logical_specification'', id_value LogicalSpecificationKind (rs_logical r)),
         (''problem_instance'', id_value ProblemInstanceKind (rs_problem_instance r)),
         (''implementation'', resolved_worker_value (rs_implementation r)),
         (''evaluator'', resolved_worker_value (rs_evaluator r)),
         (''executor'', id_value ExecutorDefinitionKind (rs_executor r)),
         (''wire_protocol_version'', u64_value (rs_wire_version r)),
         (''execution_semantics_version'', u64_value (rs_semantics_version r))]
      in case rs_applicability r of
           None \<Rightarrow> result
         | Some d \<Rightarrow> ord_insert ''applicability'' (id_value ApplicabilityKind d) result)"

definition observation_slot_fields :: "resolved_observation_slot \<Rightarrow> json_map" where
  "observation_slot_fields r = fields_of
     [(''logical_slot'', id_value LogicalObservationSlotKind (ros_logical r)),
      (''specification'', id_value ResolvedSpecificationKind (ros_specification r))]"

definition attempt_slot_fields :: "resolved_attempt_slot \<Rightarrow> json_map" where
  "attempt_slot_fields r = fields_of
     [(''logical_slot'', id_value LogicalAttemptSlotKind (ras_logical r)),
      (''specification'', id_value ResolvedSpecificationKind (ras_specification r))]"

definition applicability_name :: "applicability_outcome \<Rightarrow> string" where
  "applicability_name v = (case v of
       Unchecked \<Rightarrow> ''unchecked'' | Applicable \<Rightarrow> ''applicable'' | NotApplicable \<Rightarrow> ''not_applicable'')"

definition applicability_fields :: "applicability_decision \<Rightarrow> json_map" where
  "applicability_fields r = fields_of
     [(''candidate_id'', id_value LogicalCandidateKind (ad_candidate r)),
      (''outcome'', JString (applicability_name (ad_outcome r))),
      (''code'', JString (ad_code r)),
      (''reason'', JString (ad_reason r)),
      (''checked_inputs'', optional_value (\<lambda>v. v) (ad_checked_inputs r)),
      (''evidence'', optional_value (\<lambda>v. v) (ad_evidence r)),
      (''details'', optional_value (\<lambda>v. v) (ad_details r))]"

definition artifact_value :: "artifact_reference \<Rightarrow> json" where
  "artifact_value r = json_object
     [(''id'', id_value ArtifactKind (ref_id r)), (''path'', JString (ref_path r)),
      (''sha256'', JString (hex (ref_sha256 r)))]"

definition duration_value :: "duration \<Rightarrow> json" where
  "duration_value d = json_object
     [(''seconds'', u64_value (du_secs d)), (''nanoseconds'', u64_value (du_nanos d))]"

definition primary_time_name :: "primary_time \<Rightarrow> string" where
  "primary_time_name p = (case p of TimedWallTime \<Rightarrow> ''timed_wall_time'' | CpuTime \<Rightarrow> ''cpu_time'')"

definition timing_value :: "observation_timing \<Rightarrow> json" where
  "timing_value t = json_object
     [(''primary_time'', JString (primary_time_name (tm_primary t))),
      (''timed_wall_time'', duration_value (tm_timed_wall t)),
      (''implementation_time'', optional_value duration_value (tm_implementation t)),
      (''evaluation_time'', duration_value (tm_evaluation t)),
      (''cpu_time'', optional_value duration_value (tm_cpu t)),
      (''peak_rss_bytes'', optional_value u64_value (tm_peak_rss t))]"

definition completion_name :: "completion \<Rightarrow> string" where
  "completion_name c = (case c of
       NotRequired \<Rightarrow> ''not_required'' | Reached \<Rightarrow> ''reached'' | NotReached \<Rightarrow> ''not_reached'')"

definition stop_reason_name :: "stop_reason \<Rightarrow> string" where
  "stop_reason_name r = (case r of
       TargetReached \<Rightarrow> ''target_reached'' | FixedCount \<Rightarrow> ''fixed_count''
     | TraceLimit \<Rightarrow> ''trace_limit'' | ObservationLimit \<Rightarrow> ''observation_limit''
     | ByteLimit \<Rightarrow> ''byte_limit'' | ActiveTimeLimitStop \<Rightarrow> ''active_time_limit''
     | ImplementationStopped \<Rightarrow> ''implementation_stopped'')"

definition streaming_value :: "streaming_observation \<Rightarrow> json" where
  "streaming_value s = json_object
     [(''delivery'', JString ''streaming_profile''),
      (''measurement_basis'', JString ''executor_observed''),
      (''checkpoint_sequence'', u64_value (so_sequence s)),
      (''check_index'', u64_value (so_check_index s)),
      (''work'', JObject (map (\<lambda>(k, n). (k, u64_value n)) (so_work s))),
      (''terminal'', JBool (so_terminal s)),
      (''thresholds'', JArray (map f64_json (so_thresholds s))),
      (''active_time_ns'', u64_value (so_active_time_ns s)),
      (''elapsed_wall_time_ns'', u64_value (so_elapsed_ns s)),
      (''evaluation_time_ns'', u64_value (so_evaluation_ns s)),
      (''decision'', JString (so_decision s)),
      (''stop_reason'', optional_value (\<lambda>r. JString (stop_reason_name r)) (so_stop_reason s))]"

fun profile_value :: "profile_observation \<Rightarrow> json" where
  "profile_value (BufferedObservation b) = json_object
     [(''delivery'', JString ''buffered_profile''),
      (''measurement_basis'', JString ''instrumented''),
      (''instrumented_scope'', JString (bo_scope b)),
      (''clock'', JString (bo_clock b)),
      (''instrumented_time_ns'', u64_value (bo_time_ns b)),
      (''instrumented_total_time_ns'', u64_value (bo_total_time_ns b)),
      (''trace_index'', u64_value (bo_trace_index b)),
      (''capture_ordinal'', u64_value (bo_capture_ordinal b)),
      (''thresholds'', JArray (map f64_json (bo_thresholds b))),
      (''provisional_metrics'', bo_provisional_metrics b)]"
| "profile_value (FreshProfileObservation f) = json_object
     [(''delivery'', JString ''fresh_sequence''),
      (''measurement_basis'', JString ''executor_observed''),
      (''measurement_index'', u64_value (fo_measurement_index f)),
      (''schedule_index'', u64_value (fo_schedule_index f)),
      (''observation_control'', fo_control f)]"
| "profile_value (StreamingObservation s) = streaming_value s"

definition observation_fields :: "run_observation \<Rightarrow> json_map" where
  "observation_fields r =
     (let result = fields_of
        [(''slot'', id_value ResolvedObservationSlotKind (ob_slot r)),
         (''producing_attempt'', id_value AttemptRecordKind (ob_attempt r)),
         (''result'', artifact_value (ob_result r)),
         (''metrics'', artifact_value (ob_metrics r)),
         (''timing'', timing_value (ob_timing r)),
         (''completion'', JString (completion_name (ob_completion r)))]
      in case ob_profile r of
           None \<Rightarrow> result
         | Some p \<Rightarrow> ord_insert ''profile'' (profile_value p) result)"

section \<open>Public documents\<close>

datatype run_document_error =
    UnsupportedPrimaryTime | DocumentCanonical canonical_violation
  | DocumentIdentity identity_error | TimestampError | DurationError

definition nanoseconds :: "duration \<Rightarrow> (u64, run_document_error) result" where
  "nanoseconds d =
     (let n = du_secs d * 1000000000 + du_nanos d
      in if n \<le> U64_MAX then Inr n else Inl DurationError)"

definition optional_nanoseconds :: "duration option \<Rightarrow> (json, run_document_error) result" where
  "optional_nanoseconds d = (case d of
       None \<Rightarrow> Inr JNull
     | Some d \<Rightarrow> res_bind (nanoseconds d) (\<lambda>n. Inr (u64_value n)))"

definition provenance_value :: "provenance \<Rightarrow> json" where
  "provenance_value p = json_object
     [(''tool_version'', JString (pv_tool_version p)),
      (''wire_protocol_version'', u64_value (pv_wire_version p)),
      (''execution_semantics_version'', u64_value (pv_semantics_version p)),
      (''data'', pv_data p)]"

definition observation_document ::
  "externals \<Rightarrow> run_observation \<Rightarrow> (json, run_document_error) result" where
  "observation_document X r =
     (if tm_primary (ob_timing r) \<noteq> TimedWallTime then Inl UnsupportedPrimaryTime
      else
      res_bind (map_err DocumentIdentity (record_id X ObservationRecordKind (observation_fields r))) (\<lambda>d.
      res_bind (nanoseconds (tm_timed_wall (ob_timing r))) (\<lambda>wall.
      res_bind (optional_nanoseconds (tm_implementation (ob_timing r))) (\<lambda>impl.
      res_bind (nanoseconds (tm_evaluation (ob_timing r))) (\<lambda>evaluation.
      res_bind (optional_nanoseconds (tm_cpu (ob_timing r))) (\<lambda>cpu.
      let doc = fields_of
        [(''schema_version'', u64_value 1),
         (''id'', id_value ObservationRecordKind d),
         (''slot_id'', id_value ResolvedObservationSlotKind (ob_slot r)),
         (''attempt_id'', id_value AttemptRecordKind (ob_attempt r)),
         (''result'', artifact_value (ob_result r)),
         (''metrics'', artifact_value (ob_metrics r)),
         (''timing'', json_object
           [(''primary_time'', JString ''timed_wall_time''),
            (''timed_wall_time_ns'', u64_value wall),
            (''implementation_time_ns'', impl),
            (''evaluation_time_ns'', u64_value evaluation),
            (''cpu_time_ns'', cpu),
            (''peak_rss_bytes'', optional_value u64_value (tm_peak_rss (ob_timing r)))]),
         (''validity'', json_object
           [(''valid'', JBool True), (''completion'', JString (completion_name (ob_completion r)))]),
         (''provenance'', provenance_value (ob_provenance r))]
      in map_err DocumentCanonical (normalize_value (JObject
           (case ob_profile r of
              None \<Rightarrow> doc
            | Some p \<Rightarrow> ord_insert ''profile'' (profile_value p) doc)))))))))"

section \<open>RFC 3339 timestamps\<close>

definition leap_year :: "nat \<Rightarrow> bool" where
  "leap_year y \<longleftrightarrow> 4 dvd y \<and> (\<not> 100 dvd y \<or> 400 dvd y)"

definition year_length :: "nat \<Rightarrow> nat" where
  "year_length y = (if leap_year y then 366 else 365)"

text \<open>The year loop, with the days left; it stops after the year 9999.\<close>

function year_loop :: "nat \<Rightarrow> nat \<Rightarrow> nat \<times> nat" where
  "year_loop year days =
     (if year \<le> 9999 then
        (if days < year_length year then (year, days)
         else year_loop (year + 1) (days - year_length year))
      else (year, days))"
  by pat_completeness auto
termination
  by (relation "measure (\<lambda>(year, days). 10000 - year)") auto

declare year_loop.simps [simp del]

definition month_lengths :: "nat \<Rightarrow> nat list" where
  "month_lengths y = [31, if leap_year y then 29 else 28, 31, 30, 31, 30, 31, 31, 30, 31, 30, 31]"

text \<open>The month loop; None is the panic of an index past December.\<close>

fun month_loop :: "nat list \<Rightarrow> nat \<Rightarrow> nat \<Rightarrow> (nat \<times> nat) option" where
  "month_loop [] month days = None"
| "month_loop (m # ms) month days =
     (if days \<ge> m then month_loop ms (month + 1) (days - m) else Some (month, days))"

record civil =
  cv_year :: nat
  cv_month :: nat
  cv_day :: nat
  cv_hour :: nat
  cv_minute :: nat
  cv_second :: nat
  cv_nanos :: nat

text \<open>\<open>timestamp\<close> up to its formatting; the argument is the time since the epoch, None before it.\<close>

definition civil_time :: "duration option \<Rightarrow> (civil option, run_document_error) result" where
  "civil_time elapsed = (case elapsed of
       None \<Rightarrow> Inl TimestampError
     | Some d \<Rightarrow>
         (let (year, days) = year_loop 1970 (du_secs d div 86400) in
          if year > 9999 then Inl TimestampError
          else Inr (case month_loop (month_lengths year) 0 days of
              None \<Rightarrow> None
            | Some (month, days) \<Rightarrow>
                (let seconds = du_secs d mod 86400 in
                 Some \<lparr>cv_year = year, cv_month = month + 1, cv_day = days + 1,
                   cv_hour = seconds div 3600, cv_minute = seconds div 60 mod 60,
                   cv_second = seconds mod 60, cv_nanos = du_nanos d\<rparr>))))"

definition pad0 :: "nat \<Rightarrow> nat \<Rightarrow> string" where
  "pad0 width n = replicate (width - length (dec_string n)) (CHR ''0'') @ dec_string n"

definition format_civil :: "civil \<Rightarrow> string" where
  "format_civil c =
     pad0 4 (cv_year c) @ ''-'' @ pad0 2 (cv_month c) @ ''-'' @ pad0 2 (cv_day c) @ ''T''
     @ pad0 2 (cv_hour c) @ '':'' @ pad0 2 (cv_minute c) @ '':'' @ pad0 2 (cv_second c) @ ''.''
     @ pad0 9 (cv_nanos c) @ ''Z''"

section \<open>Calendar arithmetic\<close>

definition days_before_year :: "nat \<Rightarrow> nat" where
  "days_before_year y = sum_list (map year_length [1970..<y])"

lemma days_before_year_Suc: "1970 \<le> y \<Longrightarrow> days_before_year (Suc y) = days_before_year y + year_length y"
  by (simp add: days_before_year_def)

lemma days_before_year_mono: "y \<le> z \<Longrightarrow> days_before_year y \<le> days_before_year z"
proof (induction z)
  case (Suc z)
  then show ?case
    by (cases "y = Suc z") (auto simp: days_before_year_def)
qed simp

lemma year_loop_spec:
  assumes "1970 \<le> year" and "year \<le> 10000" and "year_loop year days = (y, d)"
  shows "days_before_year year + days = days_before_year y + d \<and> year \<le> y \<and> y \<le> 10000
    \<and> (y \<le> 9999 \<longrightarrow> d < year_length y)"
  using assms
proof (induction year days rule: year_loop.induct)
  case (1 year days)
  show ?case
  proof (cases "year \<le> 9999 \<and> \<not> days < year_length year")
    case True
    with "1.prems"(3) have "year_loop (year + 1) (days - year_length year) = (y, d)"
      by (subst (asm) year_loop.simps) simp
    with 1 True have "days_before_year (year + 1) + (days - year_length year) = days_before_year y + d
        \<and> year + 1 \<le> y \<and> y \<le> 10000 \<and> (y \<le> 9999 \<longrightarrow> d < year_length y)"
      by simp
    with True days_before_year_Suc [OF "1.prems"(1)] show ?thesis by simp
  next
    case False
    with "1.prems" show ?thesis
      by (subst (asm) year_loop.simps) (auto split: if_splits)
  qed
qed

lemma month_loop_spec:
  "month_loop ms month days = Some (m, d) \<Longrightarrow>
     month \<le> m \<and> m - month < length ms \<and> d < ms ! (m - month)
     \<and> days = sum_list (take (m - month) ms) + d"
proof (induction ms month days rule: month_loop.induct)
  case (2 x ms month days)
  show ?case
  proof (cases "days \<ge> x")
    case True
    with 2 have ih: "month + 1 \<le> m \<and> m - (month + 1) < length ms \<and> d < ms ! (m - (month + 1))
      \<and> days - x = sum_list (take (m - (month + 1)) ms) + d" by simp
    then obtain k where k: "m - month = Suc k" "m - (month + 1) = k" by (metis Suc_diff_le Suc_eq_plus1 diff_Suc_Suc)
    from ih k(2) have "days - x = sum_list (take k ms) + d" by simp
    with True have "days = x + (sum_list (take k ms) + d)" by linarith
    then have "days = sum_list (take (m - month) (x # ms)) + d" by (simp add: k(1))
    moreover from ih k have "month \<le> m" "m - month < length (x # ms)" "d < (x # ms) ! (m - month)"
      by simp_all
    ultimately show ?thesis by blast
  next
    case False
    with 2 show ?thesis by simp
  qed
qed simp

lemma month_loop_total: "days < sum_list ms \<Longrightarrow> \<exists>r. month_loop ms month days = Some r"
  by (induction ms month days rule: month_loop.induct) auto

lemma month_lengths_sum: "sum_list (month_lengths y) = year_length y"
  by (simp add: month_lengths_def year_length_def)

text \<open>A civil time of the calendar, and the seconds since the epoch it denotes.\<close>

definition civil_valid :: "civil \<Rightarrow> bool" where
  "civil_valid c \<longleftrightarrow>
     1970 \<le> cv_year c \<and> cv_year c \<le> 9999 \<and> 1 \<le> cv_month c \<and> cv_month c \<le> 12
     \<and> 1 \<le> cv_day c \<and> cv_day c \<le> month_lengths (cv_year c) ! (cv_month c - 1)
     \<and> cv_hour c < 24 \<and> cv_minute c < 60 \<and> cv_second c < 60"

definition civil_seconds :: "civil \<Rightarrow> nat" where
  "civil_seconds c =
     86400 * (days_before_year (cv_year c)
       + sum_list (take (cv_month c - 1) (month_lengths (cv_year c))) + (cv_day c - 1))
     + 3600 * cv_hour c + 60 * cv_minute c + cv_second c"

lemma clock_split: "s < 86400 \<Longrightarrow> 3600 * (s div 3600) + 60 * (s div 60 mod 60) + s mod 60 = (s::nat)"
proof -
  assume "s < 86400"
  have "s div 60 div 60 = s div 3600" by (simp flip: div_mult2_eq)
  moreover have "60 * (s div 60 div 60) + s div 60 mod 60 = s div 60"
    by (rule mult_div_mod_eq)
  moreover have "60 * (s div 60) + s mod 60 = s" by (rule mult_div_mod_eq)
  ultimately show ?thesis by linarith
qed

text \<open>
  Rendering a time after the epoch never indexes past December; it
  fails exactly from the year 10000 on, and otherwise gives the valid calendar date and time of
  day that denotes the same number of seconds.
\<close>

theorem timestamp_civil_exact:
  "if du_secs d < 86400 * days_before_year 10000
   then \<exists>c. civil_time (Some d) = Inr (Some c) \<and> civil_valid c \<and> civil_seconds c = du_secs d
            \<and> cv_nanos c = du_nanos d
   else civil_time (Some d) = Inl TimestampError"
proof -
  obtain y days where yd: "year_loop 1970 (du_secs d div 86400) = (y, days)" by force
  have start: "days_before_year 1970 = 0" by (simp add: days_before_year_def)
  from year_loop_spec [OF _ _ yd] start have
    total: "du_secs d div 86400 = days_before_year y + days" and y: "1970 \<le> y" "y \<le> 10000"
    and fits: "y \<le> 9999 \<Longrightarrow> days < year_length y" by simp_all
  show ?thesis
  proof (cases "y \<le> 9999")
    case True
    then obtain m day where md: "month_loop (month_lengths y) 0 days = Some (m, day)"
      using month_loop_total [of days "month_lengths y" 0] fits by (auto simp: month_lengths_sum)
    from month_loop_spec [OF md] have m: "m < 12" and day: "day < month_lengths y ! m"
      and sum: "days = sum_list (take m (month_lengths y)) + day"
      by (simp_all add: month_lengths_def)
    define s where "s = du_secs d mod 86400"
    define c where "c = \<lparr>cv_year = y, cv_month = m + 1, cv_day = day + 1, cv_hour = s div 3600,
      cv_minute = s div 60 mod 60, cv_second = s mod 60, cv_nanos = du_nanos d\<rparr>"
    have s: "s < 86400" by (simp add: s_def)
    have "civil_time (Some d) = Inr (Some c)"
      using yd True md by (simp add: civil_time_def c_def s_def Let_def)
    moreover have "civil_valid c"
      using y True m day s by (simp add: civil_valid_def c_def less_mult_imp_div_less)
    moreover have "civil_seconds c = du_secs d"
    proof -
      have "civil_seconds c = 86400 * (du_secs d div 86400) + s"
        using clock_split [OF s] total sum by (simp add: civil_seconds_def c_def)
      then show ?thesis by (simp add: s_def)
    qed
    moreover have "du_secs d < 86400 * days_before_year 10000"
    proof -
      have "days_before_year y + year_length y \<le> days_before_year 10000"
        using days_before_year_Suc [OF y(1)] days_before_year_mono [of "Suc y" 10000] True by simp
      with total fits True have "du_secs d div 86400 < days_before_year 10000" by linarith
      then show ?thesis by (simp add: div_less_iff_less_mult mult.commute)
    qed
    ultimately show ?thesis by (auto simp: c_def)
  next
    case False
    with y have "y = 10000" by simp
    with total have "days_before_year 10000 \<le> du_secs d div 86400" by simp
    then have "\<not> du_secs d < 86400 * days_before_year 10000" by (simp add: less_eq_div_iff_mult_less_eq mult.commute)
    with False yd show ?thesis by (simp add: civil_time_def)
  qed
qed

end
