(* ===== verification/Run_Tables.thy ===== *)
theory Run_Tables
  imports Run_Records
begin

text \<open>
  The run-store database of \<open>src/runtime/run_store/v1.sql\<close>, \<open>v2.sql\<close> and \<open>v3.sql\<close>: one record
  per table row, one list per table, and one definition per kind of SQL statement the store
  executes, with the CHECK, UNIQUE and FOREIGN KEY constraints and the triggers of that statement.
  A statement that violates one fails; the caller's transaction is then rolled back.  Text columns
  restricted by \<open>CHECK (c IN (...))\<close> are datatypes.  A uniqueness constraint is tested on the
  table after the change, which is SQLite's test because the table satisfied it before.  No
  statement changes the columns of a row that another table references (the triggers forbid it),
  so foreign keys are tested on the child side only.
\<close>

section \<open>Errors\<close>

datatype trigger =
    AttemptsStartReserved | AttemptsAdvance | ClaimsRequireFinalizingAttempt
  | ClaimsReleaseAfterTerminal | LeasesPreserveOwner | FreshBudgetPreserveReservation

datatype sql_error = SqlConstraint | SqlAbort trigger | SqlNoRows | SqlFull | SqlOverflow

text \<open>One constructor per message of \<open>RunStoreError::InvalidAttempt\<close>.\<close>

datatype invalid_reason =
    TimestampRange | LeaseTokens | SlotNotRegistered | RetryOverflow | RetryUnauthorized
  | ExpirationInPast | RenewalShortens | FinalizationOwner | TerminalRequiresFinalizing
  | AcceptanceRequiresClaim | ArtifactMetadata | RevisionRange | EventDetails
  | FailureDetails | CensoringReason | WarmupObservations | MeasurementNeedsSlots
  | BufferedAcceptance | IncompleteObservations
  | PersistedPolicy | PersistedActiveTime | FreshMembershipMissing | ActiveTimeExhausted
  | FreshVersion | FreshPolicyConflict | FreshMembershipConflict
  | ApplicabilityUnresolved | ApplicabilityConflict | StreamingVersion | BufferedVersion
  | NeedsObservationSlots | RecordIdentity | SlotRunDisagree | NeedsApplicableDecision
  | ConflictingContents | InvalidBufferedSlot | ConflictingBufferedSlot | ConflictingKind
  | ObservationIdentity | ObservationAttempt | ObservationDocument | SelectionNeedsClaim
  | StreamingCheckpoint | StoredSlotIdentity
  | ArtifactConflict | CoordinationChanged | AttemptIdentityDisagrees | DependencyRoles
  | DependencyNotRegistered | FinishTime | FinishOutsideHistory | UnknownOutcome
  | MissingDependencies | MissingStringField | OutcomeDisagrees | UnauthorizedClaim
  | RegisteredDigest | RecoveryChanged | AmbiguousOutcomes
  | InvalidFreshMembership | InvalidProfilePolicy | InvalidResolvedSlot

datatype run_store_error =
    SequenceBusy
  | Publication
  | InvalidAttempt invalid_reason
  | StaleAttempt
  | SatisfiedSlot
  | RetryNotAuthorized
  | Identity identity_error
  | Canonical identity_error
  | UnsafePath string
  | UnsupportedSchema nat
  | Capability string
  | Busy
  | Io
  | Sqlite sql_error

abbreviation invalid :: "invalid_reason \<Rightarrow> ('a, run_store_error) result" where
  "invalid reason \<equiv> Inl (InvalidAttempt reason)"

section \<open>Columns\<close>

datatype attempt_state =
    Reserved | Materializing | Starting | Preparing | Executing | Checkpointing | Validating
  | Evaluating | Finalizing | Accepted | Censored | Superseded | Failed

fun state_name :: "attempt_state \<Rightarrow> string" where
  "state_name Reserved = ''reserved''"
| "state_name Materializing = ''materializing''"
| "state_name Starting = ''starting''"
| "state_name Preparing = ''preparing''"
| "state_name Executing = ''executing''"
| "state_name Checkpointing = ''checkpointing''"
| "state_name Validating = ''validating''"
| "state_name Evaluating = ''evaluating''"
| "state_name Finalizing = ''finalizing''"
| "state_name Accepted = ''accepted''"
| "state_name Censored = ''censored''"
| "state_name Superseded = ''superseded''"
| "state_name Failed = ''failed''"

definition terminal_state :: "attempt_state \<Rightarrow> bool" where
  "terminal_state s \<longleftrightarrow> s \<in> {Accepted, Censored, Superseded, Failed}"

text \<open>The edges of the CHECK constraint of \<open>attempt_transitions\<close>.\<close>

definition legal_edge :: "attempt_state \<Rightarrow> attempt_state \<Rightarrow> bool" where
  "legal_edge from to \<longleftrightarrow>
     (from = Reserved \<and> to = Materializing)
     \<or> (from = Materializing \<and> to = Starting)
     \<or> (from = Starting \<and> to = Preparing)
     \<or> (from = Preparing \<and> to = Executing)
     \<or> (from = Executing \<and> to \<in> {Checkpointing, Validating})
     \<or> (from = Checkpointing \<and> to = Validating)
     \<or> (from = Validating \<and> to = Evaluating)
     \<or> (from = Evaluating \<and> to = Executing)
     \<or> (from \<in> {Reserved, Materializing, Starting, Preparing, Executing, Checkpointing, Validating,
          Evaluating} \<and> to = Finalizing)
     \<or> (from = Finalizing \<and> to \<in> {Accepted, Censored, Superseded, Failed})"

datatype slot_kind = OneShot | FreshObservation | Stream | Buffered
datatype slot_role = Measurement | Warmup
datatype lease_purpose = Reservation | Staging | Finalization | ArtifactLease
datatype artifact_kind =
    AttemptArtifact | ObservationArtifact | ResultArtifact | MetricsArtifact | DatasetArtifact
  | SourceArtifact | EnvironmentArtifact | OtherArtifact
datatype storage_kind = FileStorage | DirectoryStorage
datatype disposition_reason = SkippedTargetReached | ActiveTimeLimit

section \<open>Rows\<close>

record applicability_row =
  d_id :: string
  d_candidate :: string
  d_applicable :: bool
  d_record :: string

record run_row =
  r_id :: string
  r_logical :: string
  r_candidate :: string
  r_applicability :: string
  r_record :: string

record observation_slot_row =
  os_id :: string
  os_logical :: string
  os_run :: string
  os_record :: string

record attempt_slot_row =
  sl_id :: string
  sl_logical :: string
  sl_run :: string
  sl_kind :: slot_kind
  sl_role :: slot_role
  sl_record :: string

record slot_member_row =
  sm_slot :: string
  sm_observation_slot :: string
  sm_run :: string

record artifact_row =
  art_id :: string
  art_kind :: artifact_kind
  art_path :: string
  art_sha256 :: string
  art_storage :: storage_kind
  art_manifest :: "string option"
  art_verified :: nat

record attempt_row =
  a_id :: string
  a_slot :: string
  a_retry :: nat
  a_state :: attempt_state
  a_revision :: nat
  a_started :: nat
  a_updated :: nat
  a_finished :: "nat option"
  a_failure :: "string option"
  a_artifact :: "string option"

record event_row =
  ev_sequence :: nat
  ev_attempt :: "string option"
  ev_time :: nat
  ev_kind :: string
  ev_payload :: string

record transition_row =
  t_attempt :: string
  t_revision :: nat
  t_previous :: "nat option"
  t_from :: "attempt_state option"
  t_to :: attempt_state
  t_time :: nat
  t_event :: nat

record lease_row =
  l_id :: string
  l_owner :: string
  l_attempt :: "string option"
  l_purpose :: lease_purpose
  l_staging :: "string option"
  l_acquired :: nat
  l_expires :: nat
  l_released :: "nat option"

record claim_row =
  c_slot :: string
  c_attempt :: string
  c_lease :: string

record observation_row =
  o_id :: string
  o_slot :: string
  o_attempt :: string
  o_attempt_slot :: string
  o_valid :: bool
  o_completion :: completion
  o_artifact :: string
  o_record :: string

record selection_row =
  s_slot :: string
  s_observation :: string
  s_time :: nat

record fresh_sequence_row =
  fs_run :: string
  fs_index :: nat
  fs_policy :: string

record fresh_member_row =
  fm_slot :: string
  fm_run :: string
  fm_index :: nat
  fm_schedule :: nat
  fm_control :: string

record fresh_budget_row =
  b_attempt :: string
  b_reserved :: nat
  b_charged :: "nat option"

record fresh_disposition_row =
  fd_slot :: string
  fd_reason :: disposition_reason
  fd_causing :: string

text \<open>
  The database.  \<open>event_seq\<close> is the AUTOINCREMENT counter of \<open>events\<close>.  The table
  \<open>observation_artifacts\<close> is left out: no statement of the store writes it.
\<close>

record db =
  user_version :: nat
  applicability_decisions :: "applicability_row list"
  resolved_runs :: "run_row list"
  observation_slots :: "observation_slot_row list"
  attempt_slots :: "attempt_slot_row list"
  attempt_observation_slots :: "slot_member_row list"
  artifacts :: "artifact_row list"
  attempts :: "attempt_row list"
  events :: "event_row list"
  event_seq :: nat
  attempt_transitions :: "transition_row list"
  leases :: "lease_row list"
  finalization_claims :: "claim_row list"
  observations :: "observation_row list"
  selected_observations :: "selection_row list"
  attempt_artifacts :: "(string \<times> string \<times> string) list"
  leased_artifacts :: "(string \<times> string) list"
  fresh_sequences :: "fresh_sequence_row list"
  fresh_members :: "fresh_member_row list"
  fresh_budget :: "fresh_budget_row list"
  fresh_dispositions :: "fresh_disposition_row list"

definition empty_db :: "nat \<Rightarrow> db" where
  "empty_db version = \<lparr>user_version = version, applicability_decisions = [], resolved_runs = [],
     observation_slots = [], attempt_slots = [], attempt_observation_slots = [], artifacts = [],
     attempts = [], events = [], event_seq = 0, attempt_transitions = [], leases = [],
     finalization_claims = [], observations = [], selected_observations = [],
     attempt_artifacts = [], leased_artifacts = [], fresh_sequences = [], fresh_members = [],
     fresh_budget = [], fresh_dispositions = []\<rparr>"

type_synonym 'a stmt = "db \<Rightarrow> ('a, run_store_error) result"

text \<open>\<open>query_row\<close>: the first row, or \<open>QueryReturnedNoRows\<close>.\<close>

definition query_row :: "'a list \<Rightarrow> ('a, run_store_error) result" where
  "query_row rows = (case rows of [] \<Rightarrow> Inl (Sqlite SqlNoRows) | r # _ \<Rightarrow> Inr r)"

definition query_optional :: "'a list \<Rightarrow> 'a option" where
  "query_optional rows = (case rows of [] \<Rightarrow> None | r # _ \<Rightarrow> Some r)"

definition constrained :: "bool \<Rightarrow> db \<Rightarrow> (db, run_store_error) result" where
  "constrained ok db' = (if ok then Inr db' else Inl (Sqlite SqlConstraint))"

section \<open>Constraints\<close>

definition contains :: "string \<Rightarrow> string \<Rightarrow> bool" where
  "contains hay needle \<longleftrightarrow>
     list_ex (\<lambda>i. take (length needle) (drop i hay) = needle) [0..<Suc (length hay)]"

definition safe_relative_path :: "string \<Rightarrow> bool" where
  "safe_relative_path p \<longleftrightarrow>
     p \<noteq> [] \<and> take 1 p \<noteq> ''/'' \<and> CHR 0x00 \<notin> set p \<and> CHR 0x5C \<notin> set p
     \<and> \<not> contains (''/'' @ p @ ''/'') ''//''
     \<and> \<not> contains (''/'' @ p @ ''/'') ''/./''
     \<and> \<not> contains (''/'' @ p @ ''/'') ''/../''"

definition hex_digest :: "string \<Rightarrow> bool" where
  "hex_digest d \<longleftrightarrow> length d = 64 \<and> list_all is_lower_hex d"

definition artifact_check :: "artifact_row \<Rightarrow> bool" where
  "artifact_check r \<longleftrightarrow>
     safe_relative_path (art_path r) \<and> hex_digest (art_sha256 r)
     \<and> (case art_manifest r of None \<Rightarrow> art_storage r \<noteq> DirectoryStorage | Some m \<Rightarrow> hex_digest m)"

definition attempt_check :: "attempt_row \<Rightarrow> bool" where
  "attempt_check r \<longleftrightarrow>
     a_started r \<le> a_updated r
     \<and> (case a_failure r of None \<Rightarrow> True | Some c \<Rightarrow> c \<noteq> [])
     \<and> (terminal_state (a_state r) \<longleftrightarrow> a_finished r \<noteq> None)
     \<and> (case a_finished r of None \<Rightarrow> True | Some t \<Rightarrow> t = a_updated r)
     \<and> (a_state r = Failed \<longleftrightarrow> a_failure r \<noteq> None)
     \<and> (terminal_state (a_state r) \<longleftrightarrow> a_artifact r \<noteq> None)"

definition attempts_unique :: "attempt_row list \<Rightarrow> bool" where
  "attempts_unique rows \<longleftrightarrow>
     distinct (map a_id rows) \<and> distinct (map (\<lambda>r. (a_slot r, a_retry r)) rows)
     \<and> distinct (map a_slot (filter (\<lambda>r. a_state r = Accepted) rows))"

definition attempt_references :: "db \<Rightarrow> attempt_row \<Rightarrow> bool" where
  "attempt_references db r \<longleftrightarrow>
     list_ex (\<lambda>s. sl_id s = a_slot r) (attempt_slots db)
     \<and> (case a_artifact r of None \<Rightarrow> True
        | Some x \<Rightarrow> list_ex (\<lambda>f. art_id f = x \<and> art_kind f = AttemptArtifact) (artifacts db))"

definition transition_check :: "transition_row \<Rightarrow> bool" where
  "transition_check t \<longleftrightarrow>
     (case (t_previous t, t_from t) of
        (None, None) \<Rightarrow> t_revision t = 0 \<and> t_to t = Reserved
      | (Some p, Some s) \<Rightarrow> t_revision t > 0 \<and> p = t_revision t - 1 \<and> legal_edge s (t_to t)
      | _ \<Rightarrow> False)"

definition transition_references :: "db \<Rightarrow> transition_row \<Rightarrow> bool" where
  "transition_references db t \<longleftrightarrow>
     list_ex (\<lambda>a. a_id a = t_attempt t) (attempts db)
     \<and> (case (t_previous t, t_from t) of
          (Some p, Some s) \<Rightarrow>
            list_ex (\<lambda>u. t_attempt u = t_attempt t \<and> t_revision u = p \<and> t_to u = s)
              (attempt_transitions db)
        | _ \<Rightarrow> True)
     \<and> list_ex (\<lambda>e. ev_sequence e = t_event t \<and> ev_attempt e = Some (t_attempt t)
            \<and> ev_time e = t_time t) (events db)"

definition transitions_unique :: "transition_row list \<Rightarrow> bool" where
  "transitions_unique rows \<longleftrightarrow>
     distinct (map (\<lambda>t. (t_attempt t, t_revision t)) rows) \<and> distinct (map t_event rows)"

definition lease_check :: "lease_row \<Rightarrow> bool" where
  "lease_check l \<longleftrightarrow>
     l_owner l \<noteq> []
     \<and> (case l_staging l of None \<Rightarrow> True | Some p \<Rightarrow> safe_relative_path p)
     \<and> l_acquired l < l_expires l
     \<and> (case l_released l of None \<Rightarrow> True | Some t \<Rightarrow> l_acquired l \<le> t)
     \<and> (l_purpose l = ArtifactLease \<or> l_attempt l \<noteq> None)
     \<and> (l_purpose l = Staging \<longleftrightarrow> l_staging l \<noteq> None)"

definition open_reservations :: "lease_row list \<Rightarrow> string option list" where
  "open_reservations rows =
     map l_attempt (filter (\<lambda>l. l_purpose l = Reservation \<and> l_released l = None) rows)"

definition leases_unique :: "lease_row list \<Rightarrow> bool" where
  "leases_unique rows \<longleftrightarrow>
     distinct (map l_id rows) \<and> distinct (List.map_filter l_staging rows)
     \<and> distinct (open_reservations rows)"

definition attempt_exists :: "db \<Rightarrow> string \<Rightarrow> bool" where
  "attempt_exists db x \<longleftrightarrow> list_ex (\<lambda>a. a_id a = x) (attempts db)"

section \<open>Statements\<close>

definition insert_attempt :: "attempt_row \<Rightarrow> db \<Rightarrow> (db, run_store_error) result" where
  "insert_attempt r db =
     (if a_state r \<noteq> Reserved \<or> a_revision r \<noteq> 0 \<or> a_updated r \<noteq> a_started r
      then Inl (Sqlite (SqlAbort AttemptsStartReserved))
      else constrained
        (attempt_check r \<and> attempt_references db r \<and> attempts_unique (attempts db @ [r]))
        (db\<lparr>attempts := attempts db @ [r]\<rparr>))"

text \<open>\<open>UPDATE attempts SET ... WHERE id = x AND revision = n\<close>, with the number of rows changed.\<close>

definition attempt_update_aborts :: "db \<Rightarrow> attempt_row \<Rightarrow> attempt_row \<Rightarrow> bool" where
  "attempt_update_aborts db old new \<longleftrightarrow>
     terminal_state (a_state old) \<or> a_id new \<noteq> a_id old \<or> a_slot new \<noteq> a_slot old
     \<or> a_retry new \<noteq> a_retry old \<or> a_started new \<noteq> a_started old
     \<or> a_revision new \<noteq> a_revision old + 1 \<or> a_updated new < a_updated old
     \<or> (a_state new = Accepted
        \<and> \<not> list_ex (\<lambda>c. c_slot c = a_slot new \<and> c_attempt c = a_id new) (finalization_claims db))"

definition update_attempt ::
  "string \<Rightarrow> nat \<Rightarrow> (attempt_row \<Rightarrow> attempt_row) \<Rightarrow> db \<Rightarrow> (nat \<times> db, run_store_error) result" where
  "update_attempt x n f db =
     (let hit = (\<lambda>r. a_id r = x \<and> a_revision r = n);
          rows = map (\<lambda>r. if hit r then f r else r) (attempts db)
      in if list_ex (\<lambda>r. attempt_update_aborts db r (f r)) (filter hit (attempts db))
         then Inl (Sqlite (SqlAbort AttemptsAdvance))
         else if list_all (\<lambda>r. attempt_check (f r) \<and> attempt_references db (f r))
                (filter hit (attempts db)) \<and> attempts_unique rows
         then Inr (length (filter hit (attempts db)), db\<lparr>attempts := rows\<rparr>)
         else Inl (Sqlite SqlConstraint))"

text \<open>\<open>INSERT INTO events\<close>; the result is \<open>last_insert_rowid\<close>.\<close>

definition insert_event ::
  "externals \<Rightarrow> string \<Rightarrow> nat \<Rightarrow> string \<Rightarrow> string \<Rightarrow> db \<Rightarrow> (nat \<times> db, run_store_error) result" where
  "insert_event X attempt now kind payload db =
     (if event_seq db \<ge> I64_MAX then Inl (Sqlite SqlFull)
      else if kind \<noteq> [] \<and> sqlite_object X payload \<and> attempt_exists db attempt
      then Inr (event_seq db + 1,
        db\<lparr>event_seq := event_seq db + 1,
           events := events db @ [\<lparr>ev_sequence = event_seq db + 1, ev_attempt = Some attempt,
             ev_time = now, ev_kind = kind, ev_payload = payload\<rparr>]\<rparr>)
      else Inl (Sqlite SqlConstraint))"

definition insert_transition :: "transition_row \<Rightarrow> db \<Rightarrow> (db, run_store_error) result" where
  "insert_transition t db =
     constrained
       (transition_check t \<and> transition_references db t
        \<and> transitions_unique (attempt_transitions db @ [t]))
       (db\<lparr>attempt_transitions := attempt_transitions db @ [t]\<rparr>)"

definition insert_lease_row :: "lease_row \<Rightarrow> db \<Rightarrow> (db, run_store_error) result" where
  "insert_lease_row l db =
     constrained
       (lease_check l \<and> (case l_attempt l of None \<Rightarrow> True | Some x \<Rightarrow> attempt_exists db x)
        \<and> leases_unique (leases db @ [l]))
       (db\<lparr>leases := leases db @ [l]\<rparr>)"

definition lease_update_aborts :: "lease_row \<Rightarrow> lease_row \<Rightarrow> bool" where
  "lease_update_aborts old new \<longleftrightarrow>
     l_released old \<noteq> None \<or> l_id new \<noteq> l_id old \<or> l_owner new \<noteq> l_owner old
     \<or> l_attempt new \<noteq> l_attempt old \<or> l_purpose new \<noteq> l_purpose old
     \<or> l_staging new \<noteq> l_staging old \<or> l_acquired new \<noteq> l_acquired old
     \<or> l_expires new < l_expires old"

definition update_leases ::
  "(lease_row \<Rightarrow> bool) \<Rightarrow> (lease_row \<Rightarrow> lease_row) \<Rightarrow> db \<Rightarrow> (nat \<times> db, run_store_error) result" where
  "update_leases hit f db =
     (let rows = map (\<lambda>l. if hit l then f l else l) (leases db)
      in if list_ex (\<lambda>l. lease_update_aborts l (f l)) (filter hit (leases db))
         then Inl (Sqlite (SqlAbort LeasesPreserveOwner))
         else if list_all (\<lambda>l. lease_check (f l)) (filter hit (leases db)) \<and> leases_unique rows
         then Inr (length (filter hit (leases db)), db\<lparr>leases := rows\<rparr>)
         else Inl (Sqlite SqlConstraint))"

definition insert_claim :: "claim_row \<Rightarrow> db \<Rightarrow> (db, run_store_error) result" where
  "insert_claim c db =
     (if \<not> list_ex (\<lambda>a. a_id a = c_attempt c \<and> a_state a = Finalizing) (attempts db)
         \<or> list_ex (\<lambda>a. a_slot a = c_slot c \<and> a_state a = Accepted) (attempts db)
         \<or> \<not> list_ex (\<lambda>l. l_id l = c_lease c \<and> l_released l = None) (leases db)
      then Inl (Sqlite (SqlAbort ClaimsRequireFinalizingAttempt))
      else constrained
        (list_ex (\<lambda>a. a_id a = c_attempt c \<and> a_slot a = c_slot c) (attempts db)
         \<and> list_ex (\<lambda>l. l_id l = c_lease c \<and> l_attempt l = Some (c_attempt c)
              \<and> l_purpose l = Finalization) (leases db)
         \<and> distinct (map c_slot (finalization_claims db @ [c]))
         \<and> distinct (map c_attempt (finalization_claims db @ [c]))
         \<and> distinct (map c_lease (finalization_claims db @ [c])))
        (db\<lparr>finalization_claims := finalization_claims db @ [c]\<rparr>))"

text \<open>\<open>DELETE FROM finalization_claims WHERE attempt_id = x\<close>.\<close>

definition delete_claims :: "string \<Rightarrow> db \<Rightarrow> (db, run_store_error) result" where
  "delete_claims x db =
     (if list_ex (\<lambda>c. c_attempt c = x) (finalization_claims db)
         \<and> \<not> list_ex (\<lambda>a. a_id a = x \<and> terminal_state (a_state a)) (attempts db)
      then Inl (Sqlite (SqlAbort ClaimsReleaseAfterTerminal))
      else Inr (db\<lparr>finalization_claims := filter (\<lambda>c. c_attempt c \<noteq> x) (finalization_claims db)\<rparr>))"

definition insert_artifact :: "artifact_row \<Rightarrow> db \<Rightarrow> (db, run_store_error) result" where
  "insert_artifact r db =
     constrained
       (artifact_check r \<and> distinct (map art_id (artifacts db @ [r]))
        \<and> distinct (map art_path (artifacts db @ [r])))
       (db\<lparr>artifacts := artifacts db @ [r]\<rparr>)"

definition artifact_exists :: "db \<Rightarrow> string \<Rightarrow> bool" where
  "artifact_exists db x \<longleftrightarrow> list_ex (\<lambda>f. art_id f = x) (artifacts db)"

definition insert_attempt_artifact ::
  "string \<Rightarrow> string \<Rightarrow> string \<Rightarrow> db \<Rightarrow> (db, run_store_error) result" where
  "insert_attempt_artifact attempt role artifact db =
     constrained
       (role \<noteq> [] \<and> attempt_exists db attempt \<and> artifact_exists db artifact
        \<and> (attempt, role, artifact) \<notin> set (attempt_artifacts db))
       (db\<lparr>attempt_artifacts := attempt_artifacts db @ [(attempt, role, artifact)]\<rparr>)"

text \<open>\<open>INSERT OR IGNORE INTO leased_artifacts\<close>.\<close>

definition insert_leased_artifact ::
  "string \<Rightarrow> string \<Rightarrow> db \<Rightarrow> (db, run_store_error) result" where
  "insert_leased_artifact lease artifact db =
     (if (lease, artifact) \<in> set (leased_artifacts db) then Inr db
      else constrained (list_ex (\<lambda>l. l_id l = lease) (leases db) \<and> artifact_exists db artifact)
        (db\<lparr>leased_artifacts := leased_artifacts db @ [(lease, artifact)]\<rparr>))"

definition insert_observation :: "externals \<Rightarrow> observation_row \<Rightarrow> db \<Rightarrow> (db, run_store_error) result" where
  "insert_observation X r db =
     constrained
       (sqlite_object X (o_record r) \<and> distinct (map o_id (observations db @ [r]))
        \<and> list_ex (\<lambda>a. a_id a = o_attempt r \<and> a_slot a = o_attempt_slot r) (attempts db)
        \<and> list_ex (\<lambda>m. sm_slot m = o_attempt_slot r \<and> sm_observation_slot m = o_slot r)
            (attempt_observation_slots db)
        \<and> list_ex (\<lambda>f. art_id f = o_artifact r \<and> art_kind f = ObservationArtifact) (artifacts db))
       (db\<lparr>observations := observations db @ [r]\<rparr>)"

text \<open>\<open>INSERT INTO selected_observations ... ON CONFLICT(slot_id) DO NOTHING\<close>.\<close>

definition insert_selection :: "selection_row \<Rightarrow> db \<Rightarrow> (db, run_store_error) result" where
  "insert_selection r db =
     (if list_ex (\<lambda>s. s_slot s = s_slot r) (selected_observations db) then Inr db
      else constrained
        (distinct (map s_observation (selected_observations db @ [r]))
         \<and> list_ex (\<lambda>x. o_id x = s_observation r \<and> o_slot x = s_slot r \<and> o_valid x) (observations db))
        (db\<lparr>selected_observations := selected_observations db @ [r]\<rparr>))"

fun insert_selections :: "selection_row list \<Rightarrow> db \<Rightarrow> (db, run_store_error) result" where
  "insert_selections [] db = Inr db"
| "insert_selections (r # rs) db = res_bind (insert_selection r db) (insert_selections rs)"

definition insert_fresh_budget :: "fresh_budget_row \<Rightarrow> db \<Rightarrow> (db, run_store_error) result" where
  "insert_fresh_budget r db =
     constrained
       (attempt_exists db (b_attempt r) \<and> b_reserved r > 0
        \<and> (case b_charged r of None \<Rightarrow> True | Some c \<Rightarrow> c \<le> b_reserved r)
        \<and> distinct (map b_attempt (fresh_budget db @ [r])))
       (db\<lparr>fresh_budget := fresh_budget db @ [r]\<rparr>)"

text \<open>\<open>UPDATE fresh_budget SET charged_ns = min(m, reserved_ns) WHERE attempt_id = x\<close>.\<close>

definition update_fresh_charge :: "string \<Rightarrow> nat \<Rightarrow> db \<Rightarrow> (db, run_store_error) result" where
  "update_fresh_charge x m db =
     (if list_ex (\<lambda>b. b_attempt b = x \<and> b_charged b \<noteq> None) (fresh_budget db)
      then Inl (Sqlite (SqlAbort FreshBudgetPreserveReservation))
      else Inr (db\<lparr>fresh_budget :=
        map (\<lambda>b. if b_attempt b = x then b\<lparr>b_charged := Some (min m (b_reserved b))\<rparr> else b)
          (fresh_budget db)\<rparr>))"

text \<open>\<open>INSERT INTO fresh_dispositions ... ON CONFLICT DO NOTHING\<close>.\<close>

definition insert_disposition :: "fresh_disposition_row \<Rightarrow> db \<Rightarrow> (db, run_store_error) result" where
  "insert_disposition r db =
     (if list_ex (\<lambda>d. fd_slot d = fd_slot r) (fresh_dispositions db) then Inr db
      else constrained
        (list_ex (\<lambda>m. fm_slot m = fd_slot r) (fresh_members db) \<and> attempt_exists db (fd_causing r))
        (db\<lparr>fresh_dispositions := fresh_dispositions db @ [r]\<rparr>))"

fun insert_dispositions :: "fresh_disposition_row list \<Rightarrow> db \<Rightarrow> (db, run_store_error) result" where
  "insert_dispositions [] db = Inr db"
| "insert_dispositions (r # rs) db = res_bind (insert_disposition r db) (insert_dispositions rs)"

section \<open>Registration statements\<close>

text \<open>Each is an \<open>INSERT ... ON CONFLICT(key) DO NOTHING\<close>.\<close>

definition insert_applicability :: "externals \<Rightarrow> applicability_row \<Rightarrow> db \<Rightarrow> (db, run_store_error) result" where
  "insert_applicability X r db =
     (if \<not> sqlite_object X (d_record r) then Inl (Sqlite SqlConstraint)
      else if list_ex (\<lambda>d. d_id d = d_id r) (applicability_decisions db) then Inr db
      else Inr (db\<lparr>applicability_decisions := applicability_decisions db @ [r]\<rparr>))"

definition insert_run :: "externals \<Rightarrow> run_row \<Rightarrow> db \<Rightarrow> (db, run_store_error) result" where
  "insert_run X r db =
     (if \<not> sqlite_object X (r_record r) then Inl (Sqlite SqlConstraint)
      else if list_ex (\<lambda>q. r_id q = r_id r) (resolved_runs db) then Inr db
      else constrained
        (list_ex (\<lambda>d. d_id d = r_applicability r \<and> d_candidate d = r_candidate r \<and> d_applicable d)
           (applicability_decisions db))
        (db\<lparr>resolved_runs := resolved_runs db @ [r]\<rparr>))"

definition run_exists :: "db \<Rightarrow> string \<Rightarrow> bool" where
  "run_exists db x \<longleftrightarrow> list_ex (\<lambda>r. r_id r = x) (resolved_runs db)"

definition slot_kind_allowed :: "nat \<Rightarrow> slot_kind \<Rightarrow> bool" where
  "slot_kind_allowed version kind \<longleftrightarrow> kind \<noteq> Buffered \<or> version \<noteq> 1"

definition insert_slot :: "externals \<Rightarrow> attempt_slot_row \<Rightarrow> db \<Rightarrow> (db, run_store_error) result" where
  "insert_slot X r db =
     (if \<not> sqlite_object X (sl_record r) \<or> \<not> slot_kind_allowed (user_version db) (sl_kind r)
      then Inl (Sqlite SqlConstraint)
      else if list_ex (\<lambda>s. sl_id s = sl_id r) (attempt_slots db) then Inr db
      else constrained
        (run_exists db (sl_run r)
         \<and> \<not> list_ex (\<lambda>s. sl_logical s = sl_logical r \<and> sl_run s = sl_run r) (attempt_slots db))
        (db\<lparr>attempt_slots := attempt_slots db @ [r]\<rparr>))"

definition insert_observation_slot ::
  "externals \<Rightarrow> observation_slot_row \<Rightarrow> db \<Rightarrow> (db, run_store_error) result" where
  "insert_observation_slot X r db =
     (if \<not> sqlite_object X (os_record r) then Inl (Sqlite SqlConstraint)
      else if list_ex (\<lambda>s. os_id s = os_id r) (observation_slots db) then Inr db
      else constrained
        (run_exists db (os_run r)
         \<and> \<not> list_ex (\<lambda>s. os_logical s = os_logical r \<and> os_run s = os_run r) (observation_slots db))
        (db\<lparr>observation_slots := observation_slots db @ [r]\<rparr>))"

definition insert_slot_member :: "slot_member_row \<Rightarrow> db \<Rightarrow> (db, run_store_error) result" where
  "insert_slot_member r db =
     (if list_ex (\<lambda>m. sm_observation_slot m = sm_observation_slot r) (attempt_observation_slots db)
      then Inr db
      else constrained
        (list_ex (\<lambda>s. sl_id s = sm_slot r \<and> sl_run s = sm_run r) (attempt_slots db)
         \<and> list_ex (\<lambda>s. os_id s = sm_observation_slot r \<and> os_run s = sm_run r) (observation_slots db))
        (db\<lparr>attempt_observation_slots := attempt_observation_slots db @ [r]\<rparr>))"

definition insert_fresh_sequence ::
  "externals \<Rightarrow> fresh_sequence_row \<Rightarrow> db \<Rightarrow> (db, run_store_error) result" where
  "insert_fresh_sequence X r db =
     (if \<not> sqlite_object X (fs_policy r) then Inl (Sqlite SqlConstraint)
      else if list_ex (\<lambda>s. fs_run s = fs_run r \<and> fs_index s = fs_index r) (fresh_sequences db)
      then Inr db
      else constrained (run_exists db (fs_run r))
        (db\<lparr>fresh_sequences := fresh_sequences db @ [r]\<rparr>))"

definition insert_fresh_member ::
  "externals \<Rightarrow> fresh_member_row \<Rightarrow> db \<Rightarrow> (db, run_store_error) result" where
  "insert_fresh_member X r db =
     (if \<not> sqlite_object X (fm_control r) then Inl (Sqlite SqlConstraint)
      else if list_ex (\<lambda>m. fm_slot m = fm_slot r \<or>
                (fm_run m = fm_run r \<and> fm_index m = fm_index r \<and> fm_schedule m = fm_schedule r))
             (fresh_members db)
      then Inr db
      else constrained
        (list_ex (\<lambda>s. sl_id s = fm_slot r) (attempt_slots db)
         \<and> list_ex (\<lambda>s. fs_run s = fm_run r \<and> fs_index s = fm_index r) (fresh_sequences db))
        (db\<lparr>fresh_members := fresh_members db @ [r]\<rparr>))"

section \<open>Transactions\<close>

text \<open>
  The deferred foreign key: every attempt's projection is the transition row of its revision.
  \<open>commit\<close> fails when it does not hold, and the transaction is rolled back.
\<close>

definition projected :: "transition_row list \<Rightarrow> attempt_row \<Rightarrow> bool" where
  "projected ts a \<longleftrightarrow>
     list_ex (\<lambda>t. t_attempt t = a_id a \<and> t_revision t = a_revision a \<and> t_to t = a_state a
       \<and> t_time t = a_updated a) ts"

definition projections_ok :: "db \<Rightarrow> bool" where
  "projections_ok db \<longleftrightarrow> list_all (projected (attempt_transitions db)) (attempts db)"

definition commit :: "'a \<times> db \<Rightarrow> ('a \<times> db, run_store_error) result" where
  "commit r = (if projections_ok (snd r) then Inr r else Inl (Sqlite SqlConstraint))"

text \<open>The store after an operation: the committed database, or the one before on any error.\<close>

definition after :: "('a \<times> db, run_store_error) result \<Rightarrow> db \<Rightarrow> db" where
  "after r db = (case r of Inl _ \<Rightarrow> db | Inr (_, db') \<Rightarrow> db')"

end
