(* ===== verification/Run_Guards.thy ===== *)
theory Run_Guards
  imports Run_Tables
begin

text \<open>
  The shared part of \<open>src/runtime/run_store/attempts.rs\<close>: timestamps, lease requests, the
  ownership guard and its fencing query, terminal outcomes, the event-and-history append, and the
  guarded transition of an attempt's projection.
\<close>

section \<open>Requests and guards\<close>

definition timestamp :: "u64 \<Rightarrow> (nat, run_store_error) result" where
  "timestamp v = (if v \<le> I64_MAX then Inr v else invalid TimestampRange)"

datatype attempt_phase =
    MaterializingPhase | StartingPhase | PreparingPhase | ExecutingPhase | CheckpointingPhase
  | ValidatingPhase | EvaluatingPhase | FinalizingPhase

fun phase_state :: "attempt_phase \<Rightarrow> attempt_state" where
  "phase_state MaterializingPhase = Materializing"
| "phase_state StartingPhase = Starting"
| "phase_state PreparingPhase = Preparing"
| "phase_state ExecutingPhase = Executing"
| "phase_state CheckpointingPhase = Checkpointing"
| "phase_state ValidatingPhase = Validating"
| "phase_state EvaluatingPhase = Evaluating"
| "phase_state FinalizingPhase = Finalizing"

datatype retry_authorization = FirstAttempt | Next bool | Retry u64 u64

record lease_request =
  lr_id :: string
  lr_owner :: string
  lr_expires :: u64

record owned_attempt =
  g_id :: digest
  g_slot :: digest
  g_retry :: u64
  g_revision :: u64
  g_updated :: u64
  g_lease :: string
  g_owner :: string

text \<open>\<open>attempt.id().to_string()\<close> and \<open>attempt.slot().to_string()\<close>.\<close>

definition slot_text :: "digest \<Rightarrow> string" where
  "slot_text d = record_id_display ResolvedAttemptSlotKind d"

definition attempt_text :: "digest \<Rightarrow> string" where
  "attempt_text d = record_id_display AttemptRecordKind d"

abbreviation aid :: "owned_attempt \<Rightarrow> string" where
  "aid g \<equiv> attempt_text (g_id g)"

abbreviation sid :: "owned_attempt \<Rightarrow> string" where
  "sid g \<equiv> slot_text (g_slot g)"

datatype terminal_outcome =
    OutcomeAccepted
  | OutcomeCensored string
  | OutcomeSuperseded
  | OutcomeFailed string json

fun outcome_state :: "terminal_outcome \<Rightarrow> attempt_state" where
  "outcome_state OutcomeAccepted = Accepted"
| "outcome_state (OutcomeCensored reason) = Censored"
| "outcome_state OutcomeSuperseded = Superseded"
| "outcome_state (OutcomeFailed code details) = Failed"

fun outcome_details :: "terminal_outcome \<Rightarrow> (json, run_store_error) result" where
  "outcome_details (OutcomeFailed code details) =
     (if str_trim code = [] \<or> \<not> is_object details then invalid FailureDetails
      else Inr (json_object [(''failure_code'', JString code), (''diagnostic'', details)]))"
| "outcome_details (OutcomeCensored reason) =
     (if str_trim reason = [] then invalid CensoringReason
      else Inr (json_object [(''reason'', JString reason)]))"
| "outcome_details _ = Inr (JObject [])"

record artifact_registration =
  ar_id :: string
  ar_path :: string
  ar_content :: digest
  ar_manifest :: digest
  ar_verified :: u64

datatype claim_disposition = Claimed | SupersededClaim

definition validate_lease :: "lease_request \<Rightarrow> nat \<Rightarrow> (unit, run_store_error) result" where
  "validate_lease lease now =
     (if lr_id lease = [] \<or> lr_owner lease = [] then invalid LeaseTokens
      else res_bind (timestamp (lr_expires lease)) (\<lambda>expires.
        if expires \<le> now then invalid LeaseTokens else Inr ()))"

definition insert_lease ::
  "string \<Rightarrow> lease_purpose \<Rightarrow> lease_request \<Rightarrow> nat \<Rightarrow> db \<Rightarrow> (db, run_store_error) result" where
  "insert_lease attempt purpose lease now db =
     res_bind (timestamp (lr_expires lease)) (\<lambda>expires.
       insert_lease_row \<lparr>l_id = lr_id lease, l_owner = lr_owner lease, l_attempt = Some attempt,
         l_purpose = purpose, l_staging = None, l_acquired = now, l_expires = expires,
         l_released = None\<rparr> db)"

definition satisfied :: "db \<Rightarrow> string \<Rightarrow> bool" where
  "satisfied db slot \<longleftrightarrow> list_ex (\<lambda>a. a_slot a = slot \<and> a_state a = Accepted) (attempts db)"

section \<open>Fencing\<close>

text \<open>The claim of the attempt, if any, must be held by the same owner on a live lease.\<close>

definition foreign_claim :: "owned_attempt \<Rightarrow> nat \<Rightarrow> db \<Rightarrow> bool" where
  "foreign_claim g now db \<longleftrightarrow>
     list_ex (\<lambda>c. c_attempt c = aid g \<and>
       list_ex (\<lambda>f. l_id f = c_lease c \<and>
         (l_owner f \<noteq> g_owner g \<or> l_released f \<noteq> None \<or> l_expires f \<le> now)) (leases db))
       (finalization_claims db)"

definition fence_attempt :: "owned_attempt \<Rightarrow> attempt_row \<Rightarrow> bool" where
  "fence_attempt g a \<longleftrightarrow>
     a_id a = aid g \<and> a_slot a = sid g \<and> a_retry a = g_retry g
     \<and> a_revision a = g_revision g \<and> a_finished a = None"

definition fence_lease :: "owned_attempt \<Rightarrow> nat \<Rightarrow> lease_row \<Rightarrow> bool" where
  "fence_lease g now l \<longleftrightarrow>
     l_attempt l = Some (aid g) \<and> l_id l = g_lease g \<and> l_owner l = g_owner g
     \<and> l_purpose l = Reservation \<and> l_released l = None \<and> l_expires l > now"

definition fence :: "owned_attempt \<Rightarrow> nat \<Rightarrow> db \<Rightarrow> (attempt_state, run_store_error) result" where
  "fence g now db =
     res_bind (timestamp (g_retry g)) (\<lambda>_.
     res_bind (timestamp (g_revision g)) (\<lambda>_.
     res_bind (timestamp (g_updated g)) (\<lambda>updated.
       let t = max now updated in
       ok_or (query_optional
         [a_state a. a \<leftarrow> attempts db, fence_attempt g a,
                     l \<leftarrow> leases db, fence_lease g t l \<and> \<not> foreign_claim g t db])
         StaleAttempt)))"

section \<open>History\<close>

definition event_kind :: "nat \<Rightarrow> attempt_state \<Rightarrow> string" where
  "event_kind revision to =
     (if revision = 0 then ''attempt_reserved''
      else if to = Finalizing then ''attempt_finalizing''
      else if terminal_state to then ''attempt_finished''
      else ''attempt_transition'')"

definition append_transition ::
  "externals \<Rightarrow> string \<Rightarrow> attempt_state option \<Rightarrow> attempt_state \<Rightarrow> u64 \<Rightarrow> nat \<Rightarrow> json \<Rightarrow> db
     \<Rightarrow> (db, run_store_error) result" where
  "append_transition X x from to revision now details db =
     res_bind (ok_or (as_object details) (InvalidAttempt EventDetails)) (\<lambda>flds.
     res_bind (map_err Canonical (canonical_bytes X (JObject
       (ord_insert ''revision'' (JNumber (number_from_u64 revision))
        (ord_insert ''to'' (JString (state_name to))
         (ord_insert ''from'' (case from of None \<Rightarrow> JNull | Some s \<Rightarrow> JString (state_name s)) flds))))))
       (\<lambda>payload.
     res_bind (insert_event X x now (event_kind revision to) payload db) (\<lambda>(sequence, db).
     res_bind (timestamp revision) (\<lambda>_.
       insert_transition \<lparr>t_attempt = x, t_revision = revision,
         t_previous = (if revision = 0 then None else Some (revision - 1)), t_from = from,
         t_to = to, t_time = now, t_event = sequence\<rparr> db))))"

text \<open>The terminal part of a projection: the final artifact and the failure code.\<close>

type_synonym terminal_projection = "(string \<times> string option) option"

definition project ::
  "attempt_state \<Rightarrow> nat \<Rightarrow> nat \<Rightarrow> terminal_projection \<Rightarrow> attempt_row \<Rightarrow> attempt_row" where
  "project to revision now terminal r =
     r\<lparr>a_state := to, a_revision := revision, a_updated := now,
       a_finished := map_option (\<lambda>_. now) terminal,
       a_failure := Option.bind terminal snd,
       a_artifact := map_option fst terminal\<rparr>"

definition transition ::
  "externals \<Rightarrow> owned_attempt \<Rightarrow> attempt_state \<Rightarrow> attempt_state \<Rightarrow> nat \<Rightarrow> json \<Rightarrow> terminal_projection
     \<Rightarrow> db \<Rightarrow> (owned_attempt \<times> db, run_store_error) result" where
  "transition X g from to now details terminal db =
     res_bind (ok_or (opt_filter (\<lambda>r. r \<le> MAX_SAFE_INTEGER) (checked_add (g_revision g) 1))
         (InvalidAttempt RevisionRange)) (\<lambda>revision.
     res_bind (timestamp (g_updated g)) (\<lambda>updated.
     let now = max now updated in
     res_bind (append_transition X (aid g) (Some from) to revision now details db) (\<lambda>db.
     res_bind (timestamp revision) (\<lambda>_.
     res_bind (timestamp (g_revision g)) (\<lambda>expected.
     res_bind (update_attempt (aid g) expected (project to revision now terminal) db) (\<lambda>(n, db).
       if n \<noteq> 1 then Inl StaleAttempt
       else Inr (g\<lparr>g_revision := revision, g_updated := now\<rparr>, db)))))))"

end
