(* ===== verification/Run_Fresh.thy ===== *)
theory Run_Fresh
  imports Run_Guards
begin

text \<open>
  \<open>src/runtime/run_store/fresh.rs\<close>: the executions of a fresh sequence share one durable
  active-time budget and one terminal target decision.
\<close>

definition fresh_supported :: "db \<Rightarrow> bool" where
  "fresh_supported db \<longleftrightarrow> user_version db = 3"

definition fresh_membership :: "db \<Rightarrow> string \<Rightarrow> (string \<times> nat) option" where
  "fresh_membership db slot =
     (if \<not> fresh_supported db then None
      else query_optional [(fm_run m, fm_index m). m \<leftarrow> fresh_members db, fm_slot m = slot])"

text \<open>What a reservation counts: all of it while its attempt runs, then the measured charge.\<close>

definition budget_charge :: "attempt_row \<Rightarrow> fresh_budget_row \<Rightarrow> nat" where
  "budget_charge a b =
     (if a_finished a = None then b_reserved b
      else (case b_charged b of None \<Rightarrow> b_reserved b | Some c \<Rightarrow> c))"

definition budget_rows :: "db \<Rightarrow> string \<Rightarrow> nat \<Rightarrow> (attempt_row \<times> fresh_budget_row) list" where
  "budget_rows db run index =
     [(a, b). b \<leftarrow> fresh_budget db, a \<leftarrow> attempts db, a_id a = b_attempt b,
              m \<leftarrow> fresh_members db, fm_slot m = a_slot a \<and> fm_run m = run \<and> fm_index m = index]"

definition used_time :: "db \<Rightarrow> string \<Rightarrow> nat \<Rightarrow> nat" where
  "used_time db run index = sum_list (map (\<lambda>(a, b). budget_charge a b) (budget_rows db run index))"

text \<open>SQLite's \<open>sum\<close> of integers fails when it leaves the signed 64-bit range.\<close>

definition sql_sum :: "nat \<Rightarrow> (nat, run_store_error) result" where
  "sql_sum n = (if n \<le> I64_MAX then Inr n else Inl (Sqlite SqlOverflow))"

definition policy_limit :: "externals \<Rightarrow> db \<Rightarrow> string \<Rightarrow> nat \<Rightarrow> (u64, run_store_error) result" where
  "policy_limit X db run index =
     res_bind (query_row [fs_policy s. s \<leftarrow> fresh_sequences db, fs_run s = run \<and> fs_index s = index])
       (\<lambda>policy.
     res_bind (ok_or (policy_from_str (parse_json X) policy) (InvalidAttempt PersistedPolicy)) (\<lambda>p.
       map_err (\<lambda>_. InvalidAttempt PersistedActiveTime) (active_time_ns p)))"

definition allowance ::
  "externals \<Rightarrow> db \<Rightarrow> string \<Rightarrow> nat \<Rightarrow> (u64 \<times> u64, run_store_error) result" where
  "allowance X db run index =
     res_bind (timestamp index) (\<lambda>_.
     res_bind (policy_limit X db run index) (\<lambda>limit.
     res_bind (sql_sum (used_time db run index)) (\<lambda>used. Inr (limit, used))))"

definition sequence_active :: "db \<Rightarrow> string \<Rightarrow> nat \<Rightarrow> bool" where
  "sequence_active db run index \<longleftrightarrow>
     list_ex (\<lambda>a. a_finished a = None \<and>
       list_ex (\<lambda>m. fm_slot m = a_slot a \<and> fm_run m = run \<and> fm_index m = index) (fresh_members db))
       (attempts db)"

definition check_reservation :: "externals \<Rightarrow> db \<Rightarrow> string \<Rightarrow> (unit, run_store_error) result" where
  "check_reservation X db slot = (case fresh_membership db slot of
       None \<Rightarrow>
         if fresh_supported db then
           res_bind (query_row [sl_kind s. s \<leftarrow> attempt_slots db, sl_id s = slot]) (\<lambda>kind.
             if kind = FreshObservation then invalid FreshMembershipMissing else Inr ())
         else Inr ()
     | Some (run, index) \<Rightarrow>
         if list_ex (\<lambda>d. fd_slot d = slot) (fresh_dispositions db) then Inl SatisfiedSlot
         else res_bind (timestamp index) (\<lambda>_.
           if sequence_active db run index then Inl SequenceBusy
           else res_bind (allowance X db run index) (\<lambda>(limit, used).
             if used \<ge> limit then Inl SatisfiedSlot else Inr ())))"

definition reserve_fresh_time ::
  "externals \<Rightarrow> owned_attempt \<Rightarrow> u64 option \<Rightarrow> u64 \<Rightarrow> db \<Rightarrow> (u64 option \<times> db, run_store_error) result" where
  "reserve_fresh_time X g point_limit now db =
     res_bind (timestamp now) (\<lambda>now.
     res_bind (fence g now db) (\<lambda>_.
     case fresh_membership db (sid g) of
       None \<Rightarrow> Inr (None, db)
     | Some (run, index) \<Rightarrow>
         res_bind (allowance X db run index) (\<lambda>(limit, used).
         let remaining = saturating_sub limit used;
             reserved = min remaining (case point_limit of None \<Rightarrow> remaining | Some p \<Rightarrow> p)
         in if reserved = 0 then invalid ActiveTimeExhausted
            else res_bind (timestamp reserved) (\<lambda>r.
                 res_bind (insert_fresh_budget \<lparr>b_attempt = aid g, b_reserved = r, b_charged = None\<rparr> db)
                   (\<lambda>db. commit (Some reserved, db))))))"

definition record_fresh_time ::
  "owned_attempt \<Rightarrow> u64 \<Rightarrow> u64 \<Rightarrow> db \<Rightarrow> (unit \<times> db, run_store_error) result" where
  "record_fresh_time g measured now db =
     res_bind (timestamp now) (\<lambda>now.
     res_bind (fence g now db) (\<lambda>_.
     res_bind (timestamp measured) (\<lambda>m.
     res_bind (update_fresh_charge (aid g) m db) (\<lambda>db. commit ((), db)))))"

text \<open>The part of an attempt's reservation its recorded charge would give back.\<close>

definition budget_refund :: "db \<Rightarrow> string \<Rightarrow> nat" where
  "budget_refund db x =
     (case [b. b \<leftarrow> fresh_budget db, b_attempt b = x] of
        [] \<Rightarrow> 0
      | b # _ \<Rightarrow> b_reserved b - (case b_charged b of None \<Rightarrow> b_reserved b | Some c \<Rightarrow> c))"

definition fresh_budget_exhausted :: "externals \<Rightarrow> owned_attempt \<Rightarrow> db \<Rightarrow> (bool, run_store_error) result" where
  "fresh_budget_exhausted X g db = (case fresh_membership db (sid g) of
       None \<Rightarrow> Inr False
     | Some (run, index) \<Rightarrow>
         res_bind (allowance X db run index) (\<lambda>(limit, used).
           Inr (saturating_sub used (budget_refund db (aid g)) \<ge> limit)))"

definition effect ::
  "externals \<Rightarrow> db \<Rightarrow> owned_attempt \<Rightarrow> terminal_outcome
     \<Rightarrow> (disposition_reason option, run_store_error) result" where
  "effect X db g outcome = (case fresh_membership db (sid g) of
       None \<Rightarrow> Inr None
     | Some (run, index) \<Rightarrow>
         if outcome = OutcomeAccepted
            \<and> list_ex (\<lambda>r. o_attempt r = aid g \<and> o_completion r = Reached) (observations db)
         then Inr (Some SkippedTargetReached)
         else res_bind (allowance X db run index) (\<lambda>(limit, used).
           Inr (if saturating_sub used (budget_refund db (aid g)) \<ge> limit
                then Some ActiveTimeLimit else None)))"

definition disposition_rows ::
  "db \<Rightarrow> owned_attempt \<Rightarrow> terminal_outcome \<Rightarrow> disposition_reason \<Rightarrow> string \<Rightarrow> nat
     \<Rightarrow> fresh_disposition_row list" where
  "disposition_rows db g outcome reason run index =
     [\<lparr>fd_slot = fm_slot m, fd_reason = reason, fd_causing = aid g\<rparr>.
        m \<leftarrow> fresh_members db, fm_run m = run \<and> fm_index m = index
          \<and> \<not> satisfied db (fm_slot m)
          \<and> (fm_slot m \<noteq> sid g \<or> outcome_state outcome \<noteq> Accepted)]"

definition finish ::
  "externals \<Rightarrow> owned_attempt \<Rightarrow> terminal_outcome \<Rightarrow> db \<Rightarrow> (db, run_store_error) result" where
  "finish X g outcome db =
     res_bind (effect X db g outcome) (\<lambda>r. case r of
       None \<Rightarrow> Inr db
     | Some reason \<Rightarrow> (case fresh_membership db (sid g) of
           None \<Rightarrow> Inr db
         | Some (run, index) \<Rightarrow>
             res_bind (timestamp index) (\<lambda>_.
               insert_dispositions (disposition_rows db g outcome reason run index) db)))"

section \<open>Progress\<close>

datatype progress_status = AcceptedProgress | PartialProgress | CensoredProgress
datatype progress_reason = TargetReachedReason | FixedCountReason | ActiveTimeReason | ScheduleExhausted

record fresh_sequence_progress =
  pr_run :: string
  pr_logical :: string
  pr_index :: nat
  pr_scheduled :: nat
  pr_accepted :: nat
  pr_consumed :: nat
  pr_conservative :: nat
  pr_status :: progress_status
  pr_reason :: "progress_reason option"

definition sequence_slots :: "db \<Rightarrow> string \<Rightarrow> nat \<Rightarrow> string list" where
  "sequence_slots db run index =
     [fm_slot m. m \<leftarrow> fresh_members db, fm_run m = run \<and> fm_index m = index]"

definition slots_where :: "db \<Rightarrow> string list \<Rightarrow> (attempt_row \<Rightarrow> bool) \<Rightarrow> nat" where
  "slots_where db slots p =
     length (remdups (filter (\<lambda>s. list_ex (\<lambda>a. a_slot a = s \<and> p a) (attempts db)) slots))"

definition conservative_time :: "db \<Rightarrow> string \<Rightarrow> nat \<Rightarrow> nat" where
  "conservative_time db run index =
     sum_list (map (\<lambda>(a, b).
       if a_finished a = None then b_reserved b - (case b_charged b of None \<Rightarrow> 0 | Some c \<Rightarrow> c)
       else if b_charged b = None then b_reserved b else 0) (budget_rows db run index))"

definition sequence_progress ::
  "externals \<Rightarrow> db \<Rightarrow> fresh_sequence_row \<times> run_row \<Rightarrow> (fresh_sequence_progress, run_store_error) result" where
  "sequence_progress X db sr =
     (let s = fst sr; run = fs_run s; index = fs_index s; slots = sequence_slots db run index in
     res_bind (ok_or (policy_from_str (parse_json X) (fs_policy s)) (InvalidAttempt InvalidProfilePolicy)) (\<lambda>p.
     res_bind (timestamp index) (\<lambda>_.
     let count = length slots;
         accepted = slots_where db slots (\<lambda>a. a_state a = Accepted);
         attempted = slots_where db slots (\<lambda>a. a_finished a \<noteq> None);
         active = sequence_active db run index;
         target = list_ex (\<lambda>a. a_slot a \<in> set slots \<and> a_state a = Accepted \<and>
           list_ex (\<lambda>r. o_attempt r = a_id a \<and> o_completion r = Reached) (observations db)) (attempts db)
     in res_bind (allowance X db run index) (\<lambda>(limit, used).
        res_bind (sql_sum (conservative_time db run index)) (\<lambda>conservative.
        let (status, reason) =
          (if target then (AcceptedProgress, Some TargetReachedReason)
           else if pp_metric p = None \<and> accepted = count then (AcceptedProgress, Some FixedCountReason)
           else if active then (PartialProgress, None)
           else if used \<ge> limit then (CensoredProgress, Some ActiveTimeReason)
           else if attempted = count then (CensoredProgress, Some ScheduleExhausted)
           else (PartialProgress, None))
        in Inr \<lparr>pr_run = run, pr_logical = r_logical (snd sr), pr_index = index,
             pr_scheduled = count, pr_accepted = accepted, pr_consumed = used,
             pr_conservative = conservative, pr_status = status, pr_reason = reason\<rparr>)))))"

definition fresh_progress :: "externals \<Rightarrow> db \<Rightarrow> (fresh_sequence_progress list, run_store_error) result" where
  "fresh_progress X db =
     (if \<not> fresh_supported db then Inr []
      else collect_results (sequence_progress X db)
        (sort_key (\<lambda>(s, r). (fs_run s, fs_index s))
          [(s, r). s \<leftarrow> fresh_sequences db, r \<leftarrow> resolved_runs db, r_id r = fs_run s]))"

end
