(* ===== verification/Run_Attempts.thy ===== *)
theory Run_Attempts
  imports Run_Fresh
begin

text \<open>
  The operations of \<open>src/runtime/run_store/attempts.rs\<close>: reservation, phase transitions, lease
  renewal, the finalization claim and the terminal commit.  An operation maps the database to its
  result and the committed database, or to an error; on an error the transaction is rolled back.
\<close>

section \<open>Reservation\<close>

definition next_retry :: "db \<Rightarrow> string \<Rightarrow> (nat, run_store_error) result" where
  "next_retry db slot =
     (case [a_retry a. a \<leftarrow> attempts db, a_slot a = slot] of
        [] \<Rightarrow> Inr 0
      | r # rs \<Rightarrow>
          (let n = fold max rs r
           in if n + 1 \<le> I64_MAX then Inr (n + 1) else invalid RetryOverflow))"

definition authorize :: "retry_authorization \<Rightarrow> nat \<Rightarrow> (unit, run_store_error) result" where
  "authorize authorization next = (case authorization of
       Next True \<Rightarrow> if next \<le> MAX_SAFE_INTEGER then Inr () else invalid RetryUnauthorized
     | Next False \<Rightarrow> if next = 0 then Inr () else Inl RetryNotAuthorized
     | FirstAttempt \<Rightarrow> if next = 0 then Inr () else invalid RetryUnauthorized
     | Retry next_index max_index \<Rightarrow>
         if next > 0 \<and> next_index = next \<and> next_index \<le> max_index \<and> max_index \<le> MAX_SAFE_INTEGER
         then Inr () else invalid RetryUnauthorized)"

definition new_attempt :: "string \<Rightarrow> string \<Rightarrow> nat \<Rightarrow> nat \<Rightarrow> attempt_row" where
  "new_attempt x slot next now = \<lparr>a_id = x, a_slot = slot, a_retry = next, a_state = Reserved,
     a_revision = 0, a_started = now, a_updated = now, a_finished = None, a_failure = None,
     a_artifact = None\<rparr>"

definition reserve ::
  "externals \<Rightarrow> digest \<Rightarrow> retry_authorization \<Rightarrow> lease_request \<Rightarrow> u64 \<Rightarrow> db
     \<Rightarrow> (owned_attempt \<times> db, run_store_error) result" where
  "reserve X slot authorization lease now_ns db =
     res_bind (timestamp now_ns) (\<lambda>now.
     res_bind (validate_lease lease now) (\<lambda>_.
     if \<not> list_ex (\<lambda>s. sl_id s = slot_text slot) (attempt_slots db) then invalid SlotNotRegistered
     else if satisfied db (slot_text slot) then Inl SatisfiedSlot
     else
     res_bind (check_reservation X db (slot_text slot)) (\<lambda>_.
     res_bind (next_retry db (slot_text slot)) (\<lambda>next.
     res_bind (authorize authorization next) (\<lambda>_.
     res_bind (map_err Identity (run_attempt_id X slot next)) (\<lambda>d.
     res_bind (insert_attempt (new_attempt (attempt_text d) (slot_text slot) next now) db) (\<lambda>db.
     res_bind (insert_lease (attempt_text d) Reservation lease now db) (\<lambda>db.
     res_bind (append_transition X (attempt_text d) None Reserved 0 now
         (json_object [(''slot'', JString (slot_text slot)),
                       (''retry_index'', JNumber (number_from_u64 next))]) db) (\<lambda>db.
       commit (\<lparr>g_id = d, g_slot = slot, g_retry = next, g_revision = 0, g_updated = now_ns,
         g_lease = lr_id lease, g_owner = lr_owner lease\<rparr>, db))))))))))"

section \<open>Advancing and renewing\<close>

definition advance ::
  "externals \<Rightarrow> owned_attempt \<Rightarrow> attempt_phase \<Rightarrow> u64 \<Rightarrow> db \<Rightarrow> (owned_attempt \<times> db, run_store_error) result" where
  "advance X g phase now_ns db =
     res_bind (timestamp now_ns) (\<lambda>now.
     res_bind (fence g now db) (\<lambda>state.
     res_bind (transition X g state (phase_state phase) now (JObject []) None db) commit))"

definition renewable :: "owned_attempt \<Rightarrow> nat \<Rightarrow> lease_row \<Rightarrow> bool" where
  "renewable g now l \<longleftrightarrow>
     l_attempt l = Some (aid g) \<and> l_released l = None
     \<and> (l_purpose l \<in> {Reservation, Finalization} \<or> (l_purpose l = Staging \<and> l_expires l > now))"

fun renew_loop ::
  "owned_attempt \<Rightarrow> nat \<Rightarrow> nat \<Rightarrow> lease_row list \<Rightarrow> db \<Rightarrow> (db, run_store_error) result" where
  "renew_loop g expires now [] db = Inr db"
| "renew_loop g expires now (l # ls) db =
     (if expires < l_expires l then invalid RenewalShortens
      else res_bind (update_leases
          (\<lambda>r. l_id r = l_id l \<and> l_owner r = g_owner g \<and> l_released r = None \<and> l_expires r > now)
          (\<lambda>r. r\<lparr>l_expires := expires\<rparr>) db) (\<lambda>(n, db).
        if n \<noteq> 1 then Inl StaleAttempt else renew_loop g expires now ls db))"

definition renew ::
  "owned_attempt \<Rightarrow> u64 \<Rightarrow> u64 \<Rightarrow> db \<Rightarrow> (unit \<times> db, run_store_error) result" where
  "renew g expires_ns now_ns db =
     res_bind (timestamp now_ns) (\<lambda>now.
     res_bind (timestamp expires_ns) (\<lambda>expires.
     if expires \<le> now then invalid ExpirationInPast
     else
     res_bind (fence g now db) (\<lambda>_.
     res_bind (timestamp (g_updated g)) (\<lambda>updated.
     res_bind (renew_loop g expires now (filter (renewable g (max now updated)) (leases db)) db) (\<lambda>db.
       commit ((), db))))))"

section \<open>The finalization claim\<close>

definition begin_finalization ::
  "externals \<Rightarrow> owned_attempt \<Rightarrow> lease_request \<Rightarrow> u64 \<Rightarrow> db
     \<Rightarrow> ((owned_attempt \<times> claim_disposition) \<times> db, run_store_error) result" where
  "begin_finalization X g lease now_ns db =
     res_bind (timestamp now_ns) (\<lambda>n.
     res_bind (timestamp (g_updated g)) (\<lambda>updated.
     let now = max n updated in
     res_bind (validate_lease lease now) (\<lambda>_.
     if lr_owner lease \<noteq> g_owner g then invalid FinalizationOwner
     else
     res_bind (fence g now db) (\<lambda>state.
     let competing = list_ex (\<lambda>c. c_slot c = sid g) (finalization_claims db);
         disposition = (if competing \<or> satisfied db (sid g) then SupersededClaim else Claimed)
     in
     res_bind (transition X g state Finalizing now
         (json_object [(''claim'',
            JString (if disposition = Claimed then ''claimed'' else ''superseded''))]) None db)
       (\<lambda>(advanced, db).
     res_bind
       (if disposition = Claimed then
          res_bind (insert_lease (aid g) Finalization lease now db)
            (insert_claim \<lparr>c_slot = sid g, c_attempt = aid g, c_lease = lr_id lease\<rparr>)
        else Inr db) (\<lambda>db.
       commit ((advanced, disposition), db)))))))"

section \<open>Acceptance\<close>

definition slot_rows :: "db \<Rightarrow> string \<Rightarrow> attempt_slot_row list" where
  "slot_rows db slot = filter (\<lambda>s. sl_id s = slot) (attempt_slots db)"

definition artifact_of_kind :: "db \<Rightarrow> string \<Rightarrow> artifact_kind \<Rightarrow> bool" where
  "artifact_of_kind db x k \<longleftrightarrow> list_ex (\<lambda>f. art_id f = x \<and> art_kind f = k) (artifacts db)"

definition produced_count :: "db \<Rightarrow> string \<Rightarrow> nat" where
  "produced_count db x = length (filter (\<lambda>r. o_attempt r = x \<and> o_valid r) (observations db))"

definition selection_conflicts :: "db \<Rightarrow> string \<Rightarrow> string \<Rightarrow> bool" where
  "selection_conflicts db slot x \<longleftrightarrow>
     list_ex (\<lambda>s. list_ex (\<lambda>r. o_id r = s_observation s \<and> o_attempt r \<noteq> x) (observations db)
       \<and> list_ex (\<lambda>m. sm_observation_slot m = s_slot s \<and> sm_slot m = slot) (attempt_observation_slots db))
       (selected_observations db)"

definition complete_count :: "db \<Rightarrow> string \<Rightarrow> slot_kind \<Rightarrow> string \<Rightarrow> nat" where
  "complete_count db slot kind x =
     length [m. m \<leftarrow> attempt_observation_slots db, sm_slot m = slot,
               s \<leftarrow> selected_observations db, s_slot s = sm_observation_slot m,
               r \<leftarrow> observations db, o_id r = s_observation s \<and> o_valid r
                 \<and> artifact_of_kind db (o_artifact r) ObservationArtifact
                 \<and> (kind = Stream \<or> list_ex (\<lambda>q. o_slot q = sm_observation_slot m \<and> o_attempt q = x
                      \<and> o_valid q \<and> o_completion q \<noteq> NotReached
                      \<and> artifact_of_kind db (o_artifact q) ObservationArtifact) (observations db))]"

definition validate_acceptance :: "db \<Rightarrow> owned_attempt \<Rightarrow> (unit, run_store_error) result" where
  "validate_acceptance db g =
     res_bind (query_row (slot_rows db (sid g))) (\<lambda>s.
     let total = length (filter (\<lambda>m. sm_slot m = sid g) (attempt_observation_slots db)) in
     if sl_role s = Warmup then (if total \<noteq> 0 then invalid WarmupObservations else Inr ())
     else if total = 0 then invalid MeasurementNeedsSlots
     else if sl_kind s \<in> {Buffered, FreshObservation, Stream} then
       (if produced_count db (aid g) = 0 \<or> selection_conflicts db (sid g) (aid g)
        then invalid BufferedAcceptance else Inr ())
     else if complete_count db (sid g) (sl_kind s) (aid g) \<noteq> total then invalid IncompleteObservations
     else Inr ())"

definition owns_claim :: "db \<Rightarrow> string \<Rightarrow> bool" where
  "owns_claim db x \<longleftrightarrow> list_ex (\<lambda>c. c_attempt c = x) (finalization_claims db)"

definition validate_finalization ::
  "db \<Rightarrow> owned_attempt \<Rightarrow> terminal_outcome \<Rightarrow> nat \<Rightarrow> (unit, run_store_error) result" where
  "validate_finalization db g outcome now =
     res_bind (fence g now db) (\<lambda>state.
     if state \<noteq> Finalizing then invalid TerminalRequiresFinalizing
     else if outcome = OutcomeAccepted then
       (if \<not> owns_claim db (aid g) then invalid AcceptanceRequiresClaim else validate_acceptance db g)
     else Inr ())"

section \<open>The terminal commit\<close>

fun insert_references ::
  "string \<Rightarrow> (string \<times> string) list \<Rightarrow> db \<Rightarrow> (db, run_store_error) result" where
  "insert_references x [] db = Inr db"
| "insert_references x ((role, artifact) # rs) db =
     res_bind (insert_attempt_artifact x role artifact db) (insert_references x rs)"

definition outcome_failure :: "terminal_outcome \<Rightarrow> string option" where
  "outcome_failure outcome = (case outcome of OutcomeFailed code _ \<Rightarrow> Some code | _ \<Rightarrow> None)"

definition select_produced ::
  "owned_attempt \<Rightarrow> terminal_outcome \<Rightarrow> u64 \<Rightarrow> db \<Rightarrow> (db, run_store_error) result" where
  "select_produced g outcome now_ns db =
     (if outcome = OutcomeAccepted then
        res_bind (query_row (slot_rows db (sid g))) (\<lambda>s.
        if sl_kind s \<in> {Buffered, FreshObservation, Stream} then
          res_bind (timestamp now_ns) (\<lambda>now.
          insert_selections
            [\<lparr>s_slot = o_slot r, s_observation = o_id r, s_time = now\<rparr>.
               r \<leftarrow> observations db, o_attempt r = aid g \<and> o_valid r] db)
        else Inr db)
      else Inr db)"

record terminal_attempt =
  ta_id :: digest
  ta_outcome :: terminal_outcome
  ta_finished :: u64
  ta_event :: nat

definition final_artifact :: "artifact_registration \<Rightarrow> nat \<Rightarrow> artifact_row" where
  "final_artifact artifact verified = \<lparr>art_id = ar_id artifact, art_kind = AttemptArtifact,
     art_path = ar_path artifact, art_sha256 = hex (ar_content artifact),
     art_storage = DirectoryStorage, art_manifest = Some (hex (ar_manifest artifact)),
     art_verified = verified\<rparr>"

definition commit_terminal_in ::
  "externals \<Rightarrow> owned_attempt \<Rightarrow> terminal_outcome \<Rightarrow> artifact_registration \<Rightarrow> (string \<times> string) list
     \<Rightarrow> u64 \<Rightarrow> u64 \<Rightarrow> db \<Rightarrow> (terminal_attempt \<times> db, run_store_error) result" where
  "commit_terminal_in X g outcome artifact references now_ns checked_ns db =
     res_bind (select_produced g outcome now_ns db) (\<lambda>db.
     res_bind (timestamp now_ns) (\<lambda>n.
     res_bind (timestamp (g_updated g)) (\<lambda>updated.
     let now = max n updated in
     res_bind (timestamp checked_ns) (\<lambda>c.
     let checked = max c now in
     res_bind (timestamp (ar_verified artifact)) (\<lambda>verified.
     if ar_id artifact = [] \<or> verified > checked then invalid ArtifactMetadata
     else
     res_bind (finish X g outcome db) (\<lambda>db.
     res_bind (outcome_details outcome) (\<lambda>details.
     res_bind (insert_artifact (final_artifact artifact verified) db) (\<lambda>db.
     res_bind (insert_attempt_artifact (aid g) ''final'' (ar_id artifact) db) (\<lambda>db.
     res_bind (insert_references (aid g) references db) (\<lambda>db.
     res_bind (transition X g Finalizing (outcome_state outcome) now details
         (Some (ar_id artifact, outcome_failure outcome)) db) (\<lambda>(finished, db).
     res_bind (timestamp (g_revision finished)) (\<lambda>rev.
     res_bind (query_row [t_event t. t \<leftarrow> attempt_transitions db, t_attempt t = aid g \<and> t_revision t = rev])
       (\<lambda>event.
     res_bind (delete_claims (aid g) db) (\<lambda>db.
     res_bind (update_leases (\<lambda>l. l_attempt l = Some (aid g) \<and> l_released l = None)
         (\<lambda>l. l\<lparr>l_released := Some checked\<rparr>) db) (\<lambda>(_, db).
       Inr (\<lparr>ta_id = g_id g, ta_outcome = outcome, ta_finished = g_updated finished,
              ta_event = event\<rparr>, db))))))))))))))))"

definition commit_finalization_in ::
  "externals \<Rightarrow> owned_attempt \<Rightarrow> terminal_outcome \<Rightarrow> artifact_registration \<Rightarrow> (string \<times> string) list
     \<Rightarrow> u64 \<Rightarrow> u64 \<Rightarrow> db \<Rightarrow> (terminal_attempt \<times> db, run_store_error) result" where
  "commit_finalization_in X g outcome artifact references now_ns checked_ns db =
     res_bind (timestamp now_ns) (\<lambda>n.
     res_bind (timestamp (g_updated g)) (\<lambda>updated.
     res_bind (timestamp checked_ns) (\<lambda>c.
     res_bind (validate_finalization db g outcome (max c (max n updated))) (\<lambda>_.
       commit_terminal_in X g outcome artifact references now_ns checked_ns db))))"

definition commit_finalization ::
  "externals \<Rightarrow> owned_attempt \<Rightarrow> terminal_outcome \<Rightarrow> artifact_registration \<Rightarrow> (string \<times> string) list
     \<Rightarrow> u64 \<Rightarrow> db \<Rightarrow> (terminal_attempt \<times> db, run_store_error) result" where
  "commit_finalization X g outcome artifact references now_ns db =
     res_bind (commit_finalization_in X g outcome artifact references now_ns now_ns db) commit"

end
