(* ===== verification/Run_Coordination.thy ===== *)
theory Run_Coordination
  imports Run_Attempts
begin

text \<open>
  \<open>src/runtime/run_store/coordination.rs\<close> and the registration part of \<open>fresh.rs\<close>: immutable
  registration of applicability decisions, runs, slots, fresh-sequence membership and
  observations, and the progress queries of a slot.
\<close>

section \<open>Registration\<close>

definition run_text :: "digest \<Rightarrow> string" where
  "run_text d = record_id_display ResolvedSpecificationKind d"

definition observation_slot_text :: "digest \<Rightarrow> string" where
  "observation_slot_text d = record_id_display ResolvedObservationSlotKind d"

definition candidate_text :: "digest \<Rightarrow> string" where
  "candidate_text d = record_id_display LogicalCandidateKind d"

definition decision_text :: "digest \<Rightarrow> string" where
  "decision_text d = record_id_display ApplicabilityKind d"

text \<open>\<open>record_id(&r.record)? != r.id\<close>.\<close>

definition identity_matches ::
  "externals \<Rightarrow> identity_kind \<Rightarrow> digest \<Rightarrow> json_map \<Rightarrow> invalid_reason \<Rightarrow> (unit, run_store_error) result" where
  "identity_matches X kind d flds reason =
     res_bind (map_err Identity (record_id X kind flds)) (\<lambda>d'.
       if d' \<noteq> d then invalid reason else Inr ())"

definition identity_text :: "externals \<Rightarrow> json_map \<Rightarrow> (string, run_store_error) result" where
  "identity_text X flds = map_err Identity (canonical_identity_bytes X flds)"

definition register_applicability ::
  "externals \<Rightarrow> applicability_decision identified \<Rightarrow> db \<Rightarrow> (unit \<times> db, run_store_error) result" where
  "register_applicability X decision db =
     (let d = fst decision; r = snd decision in
     res_bind (identity_matches X ApplicabilityKind d (applicability_fields r) ApplicabilityUnresolved) (\<lambda>_.
     if ad_outcome r = Unchecked then invalid ApplicabilityUnresolved
     else
     res_bind (identity_text X (applicability_fields r)) (\<lambda>record.
     res_bind (insert_applicability X \<lparr>d_id = decision_text d, d_candidate = candidate_text (ad_candidate r),
         d_applicable = (ad_outcome r = Applicable), d_record = record\<rparr> db) (\<lambda>db.
     res_bind (query_row [d_record q. q \<leftarrow> applicability_decisions db, d_id q = decision_text d]) (\<lambda>existing.
       if existing \<noteq> record then invalid ApplicabilityConflict else commit ((), db))))))"

definition unconditional_decision :: "externals \<Rightarrow> string \<Rightarrow> applicability_row" where
  "unconditional_decision X candidate =
     \<lparr>d_id = ''run-store-v1:unconditional:'' @ candidate, d_candidate = candidate, d_applicable = True,
      d_record = json_text X (json_object
        [(''candidate_id'', JString candidate), (''applicable'', JBool True),
         (''outcome'', JString ''applicable''), (''code'', JString ''unconditional_one_shot''),
         (''reason'', JString ''The implementation declares support for every admitted configuration.''),
         (''checked_inputs'', JNull), (''basis'', JString ''unconditional_one_shot'')])\<rparr>"

definition register_decision ::
  "externals \<Rightarrow> string \<Rightarrow> digest option \<Rightarrow> db \<Rightarrow> (string \<times> db, run_store_error) result" where
  "register_decision X candidate applicability db = (case applicability of
       Some d \<Rightarrow>
         if list_ex (\<lambda>q. d_id q = decision_text d \<and> d_candidate q = candidate \<and> d_applicable q)
              (applicability_decisions db)
         then Inr (decision_text d, db) else invalid NeedsApplicableDecision
     | None \<Rightarrow>
         res_bind (insert_applicability X (unconditional_decision X candidate) db) (\<lambda>db.
           Inr (d_id (unconditional_decision X candidate), db)))"

definition same_contents :: "string list \<Rightarrow> string \<Rightarrow> invalid_reason \<Rightarrow> (unit, run_store_error) result" where
  "same_contents stored record reason =
     res_bind (query_row stored) (\<lambda>existing. if existing \<noteq> record then invalid reason else Inr ())"

definition stored_run :: "db \<Rightarrow> string \<Rightarrow> string list" where
  "stored_run db x = [r_record q. q \<leftarrow> resolved_runs db, r_id q = x]"

definition stored_slot :: "db \<Rightarrow> string \<Rightarrow> string list" where
  "stored_slot db x = [sl_record q. q \<leftarrow> attempt_slots db, sl_id q = x]"

definition stored_observation_slot :: "db \<Rightarrow> string \<Rightarrow> string list" where
  "stored_observation_slot db x = [os_record q. q \<leftarrow> observation_slots db, os_id q = x]"

fun register_extra ::
  "externals \<Rightarrow> string \<Rightarrow> digest \<Rightarrow> resolved_observation_slot identified list \<Rightarrow> db
     \<Rightarrow> (db, run_store_error) result" where
  "register_extra X slot run [] db = Inr db"
| "register_extra X slot run (extra # rest) db =
     (let d = fst extra; r = snd extra; x = observation_slot_text d in
     res_bind (identity_matches X ResolvedObservationSlotKind d (observation_slot_fields r) InvalidBufferedSlot) (\<lambda>_.
     if ros_specification r \<noteq> run then invalid InvalidBufferedSlot
     else
     res_bind (identity_text X (observation_slot_fields r)) (\<lambda>document.
     res_bind (insert_observation_slot X \<lparr>os_id = x,
         os_logical = record_id_display LogicalObservationSlotKind (ros_logical r),
         os_run = run_text run, os_record = document\<rparr> db) (\<lambda>db.
     res_bind (same_contents (stored_observation_slot db x) document ConflictingBufferedSlot) (\<lambda>_.
     res_bind (insert_slot_member \<lparr>sm_slot = slot, sm_observation_slot = x, sm_run = run_text run\<rparr> db)
       (register_extra X slot run rest))))))"

definition register_execution ::
  "externals \<Rightarrow> digest \<Rightarrow> resolved_specification identified \<Rightarrow> resolved_attempt_slot identified
     \<Rightarrow> resolved_observation_slot identified list \<Rightarrow> slot_kind \<Rightarrow> db \<Rightarrow> (unit \<times> db, run_store_error) result" where
  "register_execution X candidate run attempt obs kind db =
     (case obs of
        [] \<Rightarrow> invalid NeedsObservationSlots
      | observation # extras \<Rightarrow>
     (let slot = slot_text (fst attempt); rid = run_text (fst run);
          oid = observation_slot_text (fst observation) in
     res_bind (identity_matches X ResolvedSpecificationKind (fst run) (specification_fields (snd run)) RecordIdentity) (\<lambda>_.
     res_bind (identity_matches X ResolvedAttemptSlotKind (fst attempt) (attempt_slot_fields (snd attempt)) RecordIdentity) (\<lambda>_.
     res_bind (identity_matches X ResolvedObservationSlotKind (fst observation)
         (observation_slot_fields (snd observation)) RecordIdentity) (\<lambda>_.
     if ras_specification (snd attempt) \<noteq> fst run \<or> ros_specification (snd observation) \<noteq> fst run
     then invalid SlotRunDisagree
     else
     res_bind (register_decision X (candidate_text candidate) (rs_applicability (snd run)) db) (\<lambda>(decision, db).
     res_bind (identity_text X (specification_fields (snd run))) (\<lambda>run_record.
     res_bind (insert_run X \<lparr>r_id = rid,
         r_logical = record_id_display LogicalSpecificationKind (rs_logical (snd run)),
         r_candidate = candidate_text candidate, r_applicability = decision, r_record = run_record\<rparr> db) (\<lambda>db.
     res_bind (identity_text X (attempt_slot_fields (snd attempt))) (\<lambda>attempt_record.
     res_bind (insert_slot X \<lparr>sl_id = slot,
         sl_logical = record_id_display LogicalAttemptSlotKind (ras_logical (snd attempt)),
         sl_run = rid, sl_kind = kind, sl_role = Measurement, sl_record = attempt_record\<rparr> db) (\<lambda>db.
     res_bind (identity_text X (observation_slot_fields (snd observation))) (\<lambda>observation_record.
     res_bind (insert_observation_slot X \<lparr>os_id = oid,
         os_logical = record_id_display LogicalObservationSlotKind (ros_logical (snd observation)),
         os_run = rid, os_record = observation_record\<rparr> db) (\<lambda>db.
     res_bind (insert_slot_member \<lparr>sm_slot = slot, sm_observation_slot = oid, sm_run = rid\<rparr> db) (\<lambda>db.
     res_bind (same_contents (stored_run db rid) run_record ConflictingContents) (\<lambda>_.
     res_bind (same_contents (stored_slot db slot) attempt_record ConflictingContents) (\<lambda>_.
     res_bind (same_contents (stored_observation_slot db oid) observation_record ConflictingContents) (\<lambda>_.
     res_bind (register_extra X slot (fst run) extras db) (\<lambda>db.
     res_bind (query_row [sl_kind q. q \<leftarrow> attempt_slots db, sl_id q = slot]) (\<lambda>existing.
       if existing \<noteq> kind then invalid ConflictingKind else commit ((), db)))))))))))))))))))"

definition register_one_shot ::
  "externals \<Rightarrow> digest \<Rightarrow> resolved_specification identified \<Rightarrow> resolved_attempt_slot identified
     \<Rightarrow> resolved_observation_slot identified \<Rightarrow> db \<Rightarrow> (unit \<times> db, run_store_error) result" where
  "register_one_shot X candidate run attempt observation db =
     register_execution X candidate run attempt [observation] OneShot db"

definition register_streaming ::
  "externals \<Rightarrow> digest \<Rightarrow> resolved_specification identified \<Rightarrow> resolved_attempt_slot identified
     \<Rightarrow> resolved_observation_slot identified list \<Rightarrow> db \<Rightarrow> (unit \<times> db, run_store_error) result" where
  "register_streaming X candidate run attempt obs db =
     (if user_version db \<noteq> 3 then invalid StreamingVersion
      else register_execution X candidate run attempt obs Stream db)"

definition register_buffered ::
  "externals \<Rightarrow> digest \<Rightarrow> resolved_specification identified \<Rightarrow> resolved_attempt_slot identified
     \<Rightarrow> resolved_observation_slot identified list \<Rightarrow> db \<Rightarrow> (unit \<times> db, run_store_error) result" where
  "register_buffered X candidate run attempt obs db =
     (if user_version db \<notin> {2, 3} then invalid BufferedVersion
      else register_execution X candidate run attempt obs Buffered db)"

section \<open>Fresh-sequence membership\<close>

record fresh_point =
  fp_measurement_index :: u64
  fp_schedule_index :: u64
  fp_control :: json
  fp_policy :: profile_policy

definition canonical_text :: "externals \<Rightarrow> json \<Rightarrow> (string, run_store_error) result" where
  "canonical_text X v = map_err Canonical (canonical_bytes X v)"

text \<open>The second transaction of \<open>register_fresh\<close>.\<close>

definition register_membership ::
  "externals \<Rightarrow> digest \<Rightarrow> digest \<Rightarrow> fresh_point \<Rightarrow> db \<Rightarrow> (unit \<times> db, run_store_error) result" where
  "register_membership X run slot point db =
     res_bind (canonical_text X (policy_json (fp_policy point))) (\<lambda>policy.
     res_bind (canonical_text X (fp_control point)) (\<lambda>control.
     res_bind (timestamp (fp_measurement_index point)) (\<lambda>index.
     res_bind (insert_fresh_sequence X \<lparr>fs_run = run_text run, fs_index = index, fs_policy = policy\<rparr> db) (\<lambda>db.
     res_bind (query_row [fs_policy s. s \<leftarrow> fresh_sequences db, fs_run s = run_text run \<and> fs_index s = index])
       (\<lambda>previous.
     if previous \<noteq> policy then invalid FreshPolicyConflict
     else
     res_bind (timestamp (fp_schedule_index point)) (\<lambda>schedule.
     res_bind (insert_fresh_member X \<lparr>fm_slot = slot_text slot, fm_run = run_text run, fm_index = index,
         fm_schedule = schedule, fm_control = control\<rparr> db) (\<lambda>db.
     res_bind (query_row [(fm_run m, fm_index m, fm_schedule m, fm_control m).
         m \<leftarrow> fresh_members db, fm_slot m = slot_text slot]) (\<lambda>previous.
       if previous \<noteq> (run_text run, fp_measurement_index point, fp_schedule_index point, control)
       then invalid FreshMembershipConflict
       else commit ((), db)))))))))"

text \<open>
  \<open>register_fresh\<close> commits the execution first and the membership in a second transaction; the
  result is returned with the database that is then stored.
\<close>

definition register_fresh ::
  "externals \<Rightarrow> digest \<Rightarrow> resolved_specification identified \<Rightarrow> resolved_attempt_slot identified
     \<Rightarrow> resolved_observation_slot identified \<Rightarrow> fresh_point \<Rightarrow> db \<Rightarrow> (unit, run_store_error) result \<times> db" where
  "register_fresh X candidate run attempt observation point db =
     (if \<not> fresh_supported db then (invalid FreshVersion, db)
      else (case register_execution X candidate run attempt [observation] FreshObservation db of
          Inl e \<Rightarrow> (Inl e, db)
        | Inr (_, db1) \<Rightarrow>
            (case register_membership X (fst run) (fst attempt) point db1 of
               Inl e \<Rightarrow> (Inl e, db1)
             | Inr (_, db2) \<Rightarrow> (Inr (), db2))))"

section \<open>Slot progress\<close>

record slot_progress =
  sp_disposition :: "disposition_reason option"
  sp_accepted :: bool
  sp_attempts :: nat
  sp_active :: bool

definition slot_progress_of :: "db \<Rightarrow> digest \<Rightarrow> slot_progress" where
  "slot_progress_of db slot =
     \<lparr>sp_disposition = (if fresh_supported db
        then query_optional [fd_reason d. d \<leftarrow> fresh_dispositions db, fd_slot d = slot_text slot]
        else None),
      sp_accepted = satisfied db (slot_text slot),
      sp_attempts = length (filter (\<lambda>a. a_slot a = slot_text slot) (attempts db)),
      sp_active = list_ex (\<lambda>a. a_slot a = slot_text slot \<and> a_finished a = None) (attempts db)\<rparr>"

definition attempt_is_terminal :: "db \<Rightarrow> digest \<Rightarrow> (bool, run_store_error) result" where
  "attempt_is_terminal db d =
     query_row [a_finished a \<noteq> None. a \<leftarrow> attempts db, a_id a = attempt_text d]"

section \<open>Observations\<close>

definition select_observation ::
  "owned_attempt \<Rightarrow> string \<Rightarrow> string \<Rightarrow> nat \<Rightarrow> db \<Rightarrow> (db, run_store_error) result" where
  "select_observation g slot observation now db =
     (if query_optional [c_attempt c. c \<leftarrow> finalization_claims db, c_slot c = sid g] \<noteq> Some (aid g)
      then invalid SelectionNeedsClaim
      else insert_selection \<lparr>s_slot = slot, s_observation = observation, s_time = now\<rparr> db)"

definition checkpoint_event ::
  "externals \<Rightarrow> owned_attempt \<Rightarrow> string \<Rightarrow> streaming_observation \<Rightarrow> bool \<Rightarrow> nat \<Rightarrow> db
     \<Rightarrow> (db, run_store_error) result" where
  "checkpoint_event X g observation profile select now db =
     res_bind (query_row [sl_kind s. s \<leftarrow> attempt_slots db, sl_id s = sid g]) (\<lambda>kind.
     let count = length (filter (\<lambda>e. ev_attempt e = Some (aid g) \<and> ev_kind e = ''stream_checkpoint'') (events db)) in
     if kind \<noteq> Stream \<or> select \<or> count \<noteq> so_sequence profile then invalid StreamingCheckpoint
     else
     res_bind (canonical_text X (json_object
         [(''observation_id'', JString observation), (''checkpoint'', streaming_value profile)])) (\<lambda>payload.
     res_bind (insert_event X (aid g) now ''stream_checkpoint'' payload db) (\<lambda>(_, db). Inr db)))"

definition register_observation ::
  "externals \<Rightarrow> owned_attempt \<Rightarrow> run_observation identified \<Rightarrow> artifact_registration \<Rightarrow> bool \<Rightarrow> u64 \<Rightarrow> db
     \<Rightarrow> (unit \<times> db, run_store_error) result" where
  "register_observation X g observation artifact select now_ns db =
     (let r = snd observation; x = record_id_display ObservationRecordKind (fst observation);
          slot = observation_slot_text (ob_slot r) in
     res_bind (identity_matches X ObservationRecordKind (fst observation) (observation_fields r) ObservationIdentity) (\<lambda>_.
     if ob_attempt r \<noteq> g_id g then invalid ObservationAttempt
     else
     res_bind (map_err (\<lambda>_. InvalidAttempt ObservationDocument) (observation_document X r)) (\<lambda>document.
     res_bind (ok_or (canonicalizer X document) (Canonical CanonicalizationFailed)) (\<lambda>text.
     res_bind (timestamp now_ns) (\<lambda>now.
     res_bind (fence g now db) (\<lambda>_.
     res_bind (insert_observation X \<lparr>o_id = x, o_slot = slot, o_attempt = aid g, o_attempt_slot = sid g,
         o_valid = True, o_completion = ob_completion r, o_artifact = ar_id artifact, o_record = text\<rparr> db) (\<lambda>db.
     res_bind (if select then select_observation g slot x now db else Inr db) (\<lambda>db.
     res_bind (case ob_profile r of
         Some (StreamingObservation profile) \<Rightarrow> checkpoint_event X g x profile select now db
       | _ \<Rightarrow> Inr db) (\<lambda>db.
       commit ((), db))))))))))"

end
