(* ===== verification/Run_Publication.thy ===== *)
theory Run_Publication
  imports Run_Coordination
begin

text \<open>
  The database side of \<open>src/runtime/run_store/publisher.rs\<close>: the staging lease, the transactions
  that register a published artifact or commit a published outcome, and the immutable outcome
  document with its coordination snapshot.  The filesystem work between the transactions is not
  modelled: the name of the staging directory and the hashes of the published tree are arguments,
  and each transaction is one operation.
\<close>

section \<open>Staging\<close>

record stage =
  st_lease :: string
  st_acquired :: u64

definition stage_path :: "string \<Rightarrow> string" where
  "stage_path relative = ''staging:'' @ relative"

text \<open>The transaction of \<open>stage\<close>: a staging lease with the owner and expiration of the reservation.\<close>

fun insert_staging_leases ::
  "string \<Rightarrow> nat \<Rightarrow> lease_row list \<Rightarrow> db \<Rightarrow> (db, run_store_error) result" where
  "insert_staging_leases relative now [] db = Inr db"
| "insert_staging_leases relative now (l # ls) db =
     res_bind (insert_lease_row \<lparr>l_id = stage_path relative, l_owner = l_owner l, l_attempt = l_attempt l,
         l_purpose = Staging, l_staging = Some relative, l_acquired = now, l_expires = l_expires l,
         l_released = None\<rparr> db)
       (insert_staging_leases relative now ls)"

definition stage_transaction ::
  "owned_attempt \<Rightarrow> string \<Rightarrow> u64 \<Rightarrow> db \<Rightarrow> (stage \<times> db, run_store_error) result" where
  "stage_transaction g relative now_ns db =
     res_bind (timestamp now_ns) (\<lambda>n.
     res_bind (timestamp (g_updated g)) (\<lambda>updated.
     let now = max n updated in
     res_bind (fence g now db) (\<lambda>_.
     res_bind (insert_staging_leases relative now (filter (\<lambda>l. l_id l = g_lease g) (leases db)) db) (\<lambda>db.
       commit (\<lparr>st_lease = stage_path relative, st_acquired = now\<rparr>, db)))))"

definition check_stage :: "owned_attempt \<Rightarrow> stage \<Rightarrow> u64 \<Rightarrow> db \<Rightarrow> (unit, run_store_error) result" where
  "check_stage g st now_ns db =
     res_bind (timestamp now_ns) (\<lambda>now.
     res_bind (fence g now db) (\<lambda>_.
     if list_ex (\<lambda>l. l_id l = st_lease st \<and> l_attempt l = Some (aid g) \<and> l_owner l = g_owner g
          \<and> l_purpose l = Staging \<and> l_released l = None \<and> l_expires l > now) (leases db)
     then Inr () else Inl StaleAttempt))"

definition release_stage :: "stage \<Rightarrow> u64 \<Rightarrow> db \<Rightarrow> (db, run_store_error) result" where
  "release_stage st now_ns db =
     res_bind (timestamp now_ns) (\<lambda>now.
     res_bind (update_leases (\<lambda>l. l_id l = st_lease st \<and> l_released l = None)
         (\<lambda>l. l\<lparr>l_released := Some now\<rparr>) db) (\<lambda>(_, db). Inr db))"

text \<open>\<open>INSERT INTO artifacts ... ON CONFLICT(id) DO NOTHING\<close>, then compare what is stored.\<close>

definition published_row :: "artifact_registration \<Rightarrow> artifact_kind \<Rightarrow> nat \<Rightarrow> artifact_row" where
  "published_row artifact kind verified = \<lparr>art_id = ar_id artifact, art_kind = kind,
     art_path = ar_path artifact, art_sha256 = hex (ar_content artifact),
     art_storage = DirectoryStorage, art_manifest = Some (hex (ar_manifest artifact)),
     art_verified = verified\<rparr>"

definition same_artifact :: "artifact_row \<Rightarrow> artifact_row \<Rightarrow> bool" where
  "same_artifact q r \<longleftrightarrow>
     art_kind q = art_kind r \<and> art_path q = art_path r \<and> art_sha256 q = art_sha256 r
     \<and> art_storage q = art_storage r \<and> art_manifest q = art_manifest r"

definition register_artifact ::
  "artifact_registration \<Rightarrow> artifact_kind \<Rightarrow> db \<Rightarrow> (db, run_store_error) result" where
  "register_artifact artifact kind db =
     res_bind (timestamp (ar_verified artifact)) (\<lambda>verified.
     let row = published_row artifact kind verified in
     res_bind (if artifact_exists db (ar_id artifact)
         then (if artifact_check row then Inr db else Inl (Sqlite SqlConstraint))
         else insert_artifact row db) (\<lambda>db.
       case query_optional [q. q \<leftarrow> artifacts db, art_id q = ar_id artifact] of
         Some q \<Rightarrow> if same_artifact q row then Inr db else invalid ArtifactConflict
       | None \<Rightarrow> invalid ArtifactConflict))"

text \<open>The final transaction of \<open>publish_artifact\<close>; \<open>now\<close> is the second clock sample.\<close>

definition publish_artifact_transaction ::
  "owned_attempt \<Rightarrow> stage \<Rightarrow> artifact_registration \<Rightarrow> artifact_kind \<Rightarrow> u64 \<Rightarrow> db
     \<Rightarrow> (unit \<times> db, run_store_error) result" where
  "publish_artifact_transaction g st artifact kind clock db =
     (let now = max clock (st_acquired st) in
     res_bind (check_stage g st now db) (\<lambda>_.
     res_bind (register_artifact (artifact\<lparr>ar_verified := now\<rparr>) kind db) (\<lambda>db.
     res_bind (insert_leased_artifact (g_lease g) (ar_id artifact) db) (\<lambda>db.
     res_bind (release_stage st now db) (\<lambda>db. commit ((), db))))))"

section \<open>The outcome document\<close>

text \<open>
  SQLite builds each row of the snapshot with \<open>json_object\<close>, embedding the stored records with
  \<open>json\<close>; the text is then read back.  The value read is the object of the columns, with a stored
  record read by the same reader.
\<close>

fun plain_value :: "visit \<Rightarrow> json option" where
  "plain_value VisitUnit = Some JNull"
| "plain_value (VisitBool b) = Some (JBool b)"
| "plain_value (VisitI64 i) = Some (JNumber (number_from_i64 i))"
| "plain_value (VisitU64 n) = Some (JNumber (number_from_u64 n))"
| "plain_value (VisitF64 x) = Some (if f64_is_finite x then JNumber (Float x) else JNull)"
| "plain_value (VisitStr s) = Some (JString s)"
| "plain_value (VisitSeq vs fin) =
     (if fin then map_option JArray (those_list (map plain_value vs)) else None)"
| "plain_value (VisitMap es fin) =
     (if fin then
        map_option (\<lambda>ws. JObject (ord_extend [] (zip (map fst es) ws)))
          (those_list (map (\<lambda>e. plain_value (snd e)) es))
      else None)"
| "plain_value VisitFail = None"

definition plain_from_str :: "externals \<Rightarrow> string \<Rightarrow> json option" where
  "plain_from_str X s = (if snd (parse_json X s) then plain_value (fst (parse_json X s)) else None)"

definition stored_value :: "externals \<Rightarrow> string \<Rightarrow> (json, run_store_error) result" where
  "stored_value X s = map_err (\<lambda>e. Canonical (InvalidInput e)) (canonical_from_slice (parse_json X) s)"

definition row_object ::
  "externals \<Rightarrow> (string \<times> json) list \<Rightarrow> string \<Rightarrow> (json, run_store_error) result" where
  "row_object X columns record =
     res_bind (stored_value X record) (\<lambda>v. Inr (json_object (columns @ [(''record'', v)])))"

fun slot_kind_name :: "slot_kind \<Rightarrow> string" where
  "slot_kind_name OneShot = ''one_shot''"
| "slot_kind_name FreshObservation = ''fresh_observation''"
| "slot_kind_name Stream = ''stream''"
| "slot_kind_name Buffered = ''buffered''"

fun slot_role_name :: "slot_role \<Rightarrow> string" where
  "slot_role_name Measurement = ''measurement''"
| "slot_role_name Warmup = ''warmup''"

definition attempt_slots_of :: "db \<Rightarrow> string \<Rightarrow> attempt_slot_row list" where
  "attempt_slots_of db x =
     [s. s \<leftarrow> attempt_slots db, a \<leftarrow> attempts db, a_slot a = sl_id s \<and> a_id a = x]"

definition runs_of :: "db \<Rightarrow> string \<Rightarrow> run_row list" where
  "runs_of db x = [r. r \<leftarrow> resolved_runs db, s \<leftarrow> attempt_slots_of db x, sl_run s = r_id r]"

definition include_selected :: "terminal_outcome \<Rightarrow> bool" where
  "include_selected outcome = (case outcome of
       OutcomeAccepted \<Rightarrow> True | OutcomeCensored _ \<Rightarrow> True | _ \<Rightarrow> False)"

text \<open>The observations of the snapshot, each with the time of its selection if it has one.\<close>

definition snapshot_observations ::
  "db \<Rightarrow> string \<Rightarrow> bool \<Rightarrow> (observation_row \<times> nat option) list" where
  "snapshot_observations db x selected =
     sort_key (\<lambda>p. o_id (fst p))
       [(r, sel). r \<leftarrow> observations db,
          sel \<leftarrow> [query_optional [s_time s. s \<leftarrow> selected_observations db, s_observation s = o_id r]],
          o_attempt r = x \<or> (selected \<and> sel \<noteq> None \<and>
            list_ex (\<lambda>m. sm_observation_slot m = o_slot r \<and>
              list_ex (\<lambda>a. a_id a = x \<and> a_slot a = sm_slot m) (attempts db)) (attempt_observation_slots db))]"

definition observation_object ::
  "externals \<Rightarrow> db \<Rightarrow> string \<Rightarrow> terminal_outcome \<Rightarrow> u64 \<Rightarrow> observation_row \<times> nat option
     \<Rightarrow> (json, run_store_error) result" where
  "observation_object X db x outcome finished rs =
     (let r = fst rs;
          kind = query_optional (map sl_kind (attempt_slots_of db x));
          own = (outcome = OutcomeAccepted \<and> kind \<in> {Some Buffered, Some FreshObservation} \<and> o_attempt r = x)
      in row_object X
        [(''id'', JString (o_id r)), (''slot_id'', JString (o_slot r)),
         (''producing_attempt_id'', JString (o_attempt r)),
         (''valid'', u64_value (if o_valid r then 1 else 0)),
         (''completion'', JString (completion_name (o_completion r))),
         (''artifact_id'', JString (o_artifact r)),
         (''selected_at_ns'', if own then JString (dec_string finished)
            else optional_value (\<lambda>t. JString (dec_string t)) (snd rs))] (o_record r))"

fun reason_name :: "disposition_reason \<Rightarrow> string" where
  "reason_name SkippedTargetReached = ''skipped_target_reached''"
| "reason_name ActiveTimeLimit = ''active_time_limit''"

definition fresh_snapshot ::
  "externals \<Rightarrow> db \<Rightarrow> owned_attempt \<Rightarrow> terminal_outcome \<Rightarrow> (json option, run_store_error) result" where
  "fresh_snapshot X db g outcome = (case fresh_membership db (sid g) of
       None \<Rightarrow> Inr None
     | Some (run, index) \<Rightarrow>
         res_bind (timestamp index) (\<lambda>_.
         res_bind (collect_results (\<lambda>m.
             res_bind (ok_or (plain_from_str X (fm_control m)) (InvalidAttempt InvalidFreshMembership)) (\<lambda>control.
               Inr (json_object [(''slot_id'', JString (fm_slot m)),
                 (''schedule_index'', u64_value (fm_schedule m)), (''control'', control)])))
             (sort_key fm_schedule (filter (\<lambda>m. fm_run m = run \<and> fm_index m = index) (fresh_members db)))) (\<lambda>members.
         res_bind (query_row [fs_policy s. s \<leftarrow> fresh_sequences db, fs_run s = run \<and> fs_index s = index]) (\<lambda>policy.
         res_bind (ok_or (plain_from_str X policy) (InvalidAttempt InvalidProfilePolicy)) (\<lambda>policy.
         res_bind (effect X db g outcome) (\<lambda>disposition.
           Inr (Some (json_object
             [(''resolved_run_id'', JString run), (''measurement_index'', u64_value index),
              (''policy'', policy), (''members'', JArray members),
              (''budget'', optional_value (\<lambda>b. json_object
                 [(''reserved_ns'', u64_value (b_reserved b)),
                  (''charged_ns'', optional_value u64_value (b_charged b))])
                (query_optional [b. b \<leftarrow> fresh_budget db, b_attempt b = aid g])),
              (''disposition'', optional_value (\<lambda>r. JString (reason_name r)) disposition)]))))))))"

definition coordination_snapshot ::
  "externals \<Rightarrow> db \<Rightarrow> owned_attempt \<Rightarrow> terminal_outcome \<Rightarrow> u64 \<Rightarrow> (json, run_store_error) result" where
  "coordination_snapshot X db g outcome finished =
     (let x = aid g in
     res_bind (collect_results (\<lambda>s. row_object X
         [(''id'', JString (sl_id s)), (''logical_slot_id'', JString (sl_logical s)),
          (''resolved_run_id'', JString (sl_run s)), (''kind'', JString (slot_kind_name (sl_kind s))),
          (''role'', JString (slot_role_name (sl_role s)))] (sl_record s)) (attempt_slots_of db x)) (\<lambda>slots.
     res_bind (collect_results (\<lambda>r. row_object X
         [(''id'', JString (r_id r)), (''logical_specification_id'', JString (r_logical r)),
          (''candidate_id'', JString (r_candidate r)), (''applicability_id'', JString (r_applicability r))]
         (r_record r)) (runs_of db x)) (\<lambda>runs.
     res_bind (collect_results (\<lambda>d. row_object X
         [(''id'', JString (d_id d)), (''candidate_id'', JString (d_candidate d)),
          (''applicable'', u64_value (if d_applicable d then 1 else 0))] (d_record d))
         [d. d \<leftarrow> applicability_decisions db, r \<leftarrow> runs_of db x, r_applicability r = d_id d]) (\<lambda>decisions.
     res_bind (collect_results (\<lambda>q. row_object X
         [(''id'', JString (os_id q)), (''logical_slot_id'', JString (os_logical q)),
          (''resolved_run_id'', JString (os_run q))] (os_record q))
         (sort_key os_id [q. q \<leftarrow> observation_slots db, m \<leftarrow> attempt_observation_slots db,
            sm_observation_slot m = os_id q, a \<leftarrow> attempts db, a_slot a = sm_slot m \<and> a_id a = x])) (\<lambda>oslots.
     res_bind (collect_results (observation_object X db x outcome finished)
         (snapshot_observations db x (include_selected outcome))) (\<lambda>obs.
     res_bind (fresh_snapshot X db g outcome) (\<lambda>fresh.
       Inr (json_object
         ([(''attempt_slots'', JArray slots), (''resolved_runs'', JArray runs),
           (''applicability_decisions'', JArray decisions), (''observation_slots'', JArray oslots),
           (''observations'', JArray obs)]
          @ (case fresh of None \<Rightarrow> [] | Some f \<Rightarrow> [(''fresh'', f)]))))))))))"

fun artifact_kind_name :: "artifact_kind \<Rightarrow> string" where
  "artifact_kind_name AttemptArtifact = ''attempt''"
| "artifact_kind_name ObservationArtifact = ''observation''"
| "artifact_kind_name ResultArtifact = ''result''"
| "artifact_kind_name MetricsArtifact = ''metrics''"
| "artifact_kind_name DatasetArtifact = ''dataset''"
| "artifact_kind_name SourceArtifact = ''source''"
| "artifact_kind_name EnvironmentArtifact = ''environment''"
| "artifact_kind_name OtherArtifact = ''other''"

fun storage_name :: "storage_kind \<Rightarrow> string" where
  "storage_name FileStorage = ''file''"
| "storage_name DirectoryStorage = ''directory''"

definition dependency_object :: "db \<Rightarrow> string \<times> string \<Rightarrow> (json, run_store_error) result" where
  "dependency_object db ref =
     (case query_optional [f. f \<leftarrow> artifacts db, art_id f = snd ref] of
        None \<Rightarrow> invalid DependencyNotRegistered
      | Some f \<Rightarrow> Inr (json_object
          [(''role'', JString (fst ref)), (''id'', JString (snd ref)),
           (''kind'', JString (artifact_kind_name (art_kind f))),
           (''relative_path'', JString (art_path f)), (''content_sha256'', JString (art_sha256 f)),
           (''storage_kind'', JString (storage_name (art_storage f))),
           (''manifest_sha256'', optional_value JString (art_manifest f))]))"

definition references_ok :: "(string \<times> string) list \<Rightarrow> bool" where
  "references_ok refs \<longleftrightarrow>
     \<not> (list_ex (\<lambda>(a, b). a = b) (windows2 (sort refs))
        \<or> list_ex (\<lambda>(role, x). str_trim role = [] \<or> role = ''final'') (sort refs))"

definition build_outcome_document ::
  "externals \<Rightarrow> db \<Rightarrow> owned_attempt \<Rightarrow> terminal_outcome \<Rightarrow> (string \<times> string) list \<Rightarrow> u64
     \<Rightarrow> (json, run_store_error) result" where
  "build_outcome_document X db g outcome refs finished =
     (if \<not> references_ok refs then invalid DependencyRoles
      else
      res_bind (collect_results (dependency_object db) (sort refs)) (\<lambda>dependencies.
      res_bind (query_row [a_started a. a \<leftarrow> attempts db, a_id a = aid g]) (\<lambda>started.
      res_bind (coordination_snapshot X db g outcome finished) (\<lambda>coordination.
      res_bind (outcome_details outcome) (\<lambda>details.
        map_err (\<lambda>e. Canonical (IdentityViolation e)) (normalize_value (json_object
          [(''run_store_version'', u64_value (user_version db)),
           (''attempt_id'', JString (aid g)), (''slot_id'', JString (sid g)),
           (''retry_index'', u64_value (g_retry g)), (''finalizing_revision'', u64_value (g_revision g)),
           (''state'', JString (state_name (outcome_state outcome))), (''details'', details),
           (''started_at_ns'', JString (dec_string started)),
           (''finished_at_ns'', JString (dec_string finished)),
           (''references'', JArray dependencies), (''coordination'', coordination)])))))))"

definition outcome_document ::
  "externals \<Rightarrow> owned_attempt \<Rightarrow> terminal_outcome \<Rightarrow> (string \<times> string) list \<Rightarrow> u64 \<Rightarrow> stage \<Rightarrow> db
     \<Rightarrow> (json \<times> db, run_store_error) result" where
  "outcome_document X g outcome refs finished st db =
     res_bind (timestamp finished) (\<lambda>now.
     res_bind (check_stage g st finished db) (\<lambda>_.
     res_bind (validate_finalization db g outcome now) (\<lambda>_.
     res_bind (build_outcome_document X db g outcome refs finished) (\<lambda>document.
       commit (document, db)))))"

definition json_get :: "json \<Rightarrow> string \<Rightarrow> json" where
  "json_get v k = (case v of
       JObject m \<Rightarrow> (case map_of m k of Some w \<Rightarrow> w | None \<Rightarrow> JNull)
     | _ \<Rightarrow> JNull)"

text \<open>The final transaction of \<open>publish_finalization\<close>, for the document written before it.\<close>

definition publish_finalization_transaction ::
  "externals \<Rightarrow> owned_attempt \<Rightarrow> terminal_outcome \<Rightarrow> artifact_registration \<Rightarrow> (string \<times> string) list
     \<Rightarrow> json \<Rightarrow> u64 \<Rightarrow> stage \<Rightarrow> u64 \<Rightarrow> db \<Rightarrow> (terminal_attempt \<times> db, run_store_error) result" where
  "publish_finalization_transaction X g outcome artifact refs document finished st clock db =
     (let now = max clock finished in
     res_bind (check_stage g st now db) (\<lambda>_.
     res_bind (coordination_snapshot X db g outcome finished) (\<lambda>snapshot.
     if snapshot \<noteq> json_get document ''coordination'' then invalid CoordinationChanged
     else
     res_bind (commit_finalization_in X g outcome (artifact\<lparr>ar_verified := now\<rparr>) refs finished now db) commit)))"

end
