(* ===== verification/Run_Recovery.thy ===== *)
theory Run_Recovery
  imports Run_Publication
begin

text \<open>
  The database side of \<open>src/runtime/run_store/recovery.rs\<close>: which attempts an explicit recovery
  pass may take over, the evidence it accepts, and its transactions.  Directory scans, locks and
  content verification are not modelled; an orphaned outcome is its registration and document.
\<close>

section \<open>Expiry\<close>

definition claim_expired :: "db \<Rightarrow> string \<Rightarrow> nat \<Rightarrow> bool" where
  "claim_expired db x now \<longleftrightarrow>
     list_ex (\<lambda>c. c_attempt c = x \<and>
       list_ex (\<lambda>f. l_id f = c_lease c \<and> (l_released f \<noteq> None \<or> l_expires f \<le> now)) (leases db))
       (finalization_claims db)"

definition expired_rows :: "db \<Rightarrow> string \<Rightarrow> nat \<Rightarrow> (attempt_row \<times> lease_row) list" where
  "expired_rows db x now =
     [(a, l). a \<leftarrow> attempts db, a_id a = x \<and> a_finished a = None,
              l \<leftarrow> leases db, l_attempt l = Some x \<and> l_purpose l = Reservation
                \<and> (l_released l \<noteq> None \<or> l_expires l \<le> max now (a_updated a)
                   \<or> claim_expired db x (max now (a_updated a)))]"

definition expired_attempt ::
  "externals \<Rightarrow> db \<Rightarrow> string \<Rightarrow> nat \<Rightarrow> ((owned_attempt \<times> attempt_state) option, run_store_error) result" where
  "expired_attempt X db x now = (case query_optional (expired_rows db x now) of
       None \<Rightarrow> Inr None
     | Some (a, l) \<Rightarrow>
         res_bind (map_err (\<lambda>_. InvalidAttempt InvalidResolvedSlot)
           (record_id_from_str ResolvedAttemptSlotKind (a_slot a))) (\<lambda>slot.
         res_bind (map_err Identity (run_attempt_id X slot (a_retry a))) (\<lambda>expected.
         if attempt_text expected \<noteq> x then invalid AttemptIdentityDisagrees
         else Inr (Some (\<lparr>g_id = expected, g_slot = slot, g_retry = a_retry a, g_revision = a_revision a,
           g_updated = a_updated a, g_lease = l_id l, g_owner = l_owner l\<rparr>, a_state a)))))"

definition require_expired ::
  "externals \<Rightarrow> db \<Rightarrow> owned_attempt \<Rightarrow> nat \<Rightarrow> (unit, run_store_error) result" where
  "require_expired X db g now =
     res_bind (expired_attempt X db (aid g) now) (\<lambda>current. case current of
         None \<Rightarrow> Inl StaleAttempt
       | Some (a, state) \<Rightarrow>
           if g_revision a \<noteq> g_revision g \<or> state \<noteq> Finalizing \<or> g_lease a \<noteq> g_lease g
              \<or> g_owner a \<noteq> g_owner g
           then Inl StaleAttempt else Inr ())"

section \<open>Evidence\<close>

record orphan =
  or_artifact :: artifact_registration
  or_document :: json

definition string_field :: "json \<Rightarrow> string \<Rightarrow> (string, run_store_error) result" where
  "string_field v k = ok_or (as_str (json_get v k)) (InvalidAttempt MissingStringField)"

definition orphan_outcome :: "json \<Rightarrow> (terminal_outcome, run_store_error) result" where
  "orphan_outcome v =
     (let details = json_get v ''details'' in
      case as_str (json_get v ''state'') of
        None \<Rightarrow> invalid UnknownOutcome
      | Some s \<Rightarrow>
          if s = ''accepted'' then Inr OutcomeAccepted
          else if s = ''superseded'' then Inr OutcomeSuperseded
          else if s = ''censored'' then
            res_bind (string_field details ''reason'') (\<lambda>r. Inr (OutcomeCensored r))
          else if s = ''failed'' then
            res_bind (string_field details ''failure_code'') (\<lambda>code.
            res_bind (map_err (\<lambda>e. Canonical (IdentityViolation e))
                (normalize_value (json_get details ''diagnostic''))) (\<lambda>d.
              Inr (OutcomeFailed code d)))
          else invalid UnknownOutcome)"

definition orphan_references :: "json \<Rightarrow> ((string \<times> string) list, run_store_error) result" where
  "orphan_references v = (case json_get v ''references'' of
       JArray vs \<Rightarrow> collect_results (\<lambda>r.
         res_bind (string_field r ''role'') (\<lambda>role.
         res_bind (string_field r ''id'') (\<lambda>x. Inr (role, x)))) vs
     | _ \<Rightarrow> invalid MissingDependencies)"

definition authorized_claim :: "db \<Rightarrow> owned_attempt \<Rightarrow> nat \<Rightarrow> bool" where
  "authorized_claim db g finished \<longleftrightarrow>
     list_ex (\<lambda>c. c_attempt c = aid g \<and> c_slot c = sid g \<and>
       list_ex (\<lambda>f. l_id f = c_lease c \<and> l_owner f = g_owner g \<and> l_released f = None
         \<and> l_acquired f \<le> finished \<and> l_expires f > finished) (leases db) \<and>
       list_ex (\<lambda>r. l_attempt r = Some (c_attempt c) \<and> l_purpose r = Reservation \<and> l_owner r = g_owner g
         \<and> l_released r = None \<and> l_expires r > finished) (leases db)) (finalization_claims db)"

record evidence =
  ec_outcome :: terminal_outcome
  ec_references :: "(string \<times> string) list"
  ec_finished :: u64

text \<open>
  \<open>validate_orphan\<close> without the content verification of the dependencies it returns: the roots
  are only handed to the filesystem checks.
\<close>

definition validate_orphan ::
  "externals \<Rightarrow> db \<Rightarrow> owned_attempt \<Rightarrow> orphan \<Rightarrow> u64 \<Rightarrow> (evidence, run_store_error) result" where
  "validate_orphan X db g orphan now_ns =
     res_bind (timestamp now_ns) (\<lambda>now.
     res_bind (require_expired X db g now) (\<lambda>_.
     let v = or_document orphan in
     res_bind (ok_or (Option.bind (as_str (json_get v ''finished_at_ns'')) parse_u64)
         (InvalidAttempt FinishTime)) (\<lambda>finished.
     if finished < g_updated g \<or> finished > now_ns then invalid FinishOutsideHistory
     else
     res_bind (orphan_outcome v) (\<lambda>outcome.
     res_bind (orphan_references v) (\<lambda>refs.
     res_bind (build_outcome_document X db g outcome refs finished) (\<lambda>document.
     if document \<noteq> v then invalid OutcomeDisagrees
     else
     res_bind (if outcome = OutcomeAccepted then
         res_bind (timestamp finished) (\<lambda>t.
           if \<not> authorized_claim db g t then invalid UnauthorizedClaim else validate_acceptance db g)
       else Inr ()) (\<lambda>_.
       Inr \<lparr>ec_outcome = outcome, ec_references = refs, ec_finished = finished\<rparr>)))))))"

section \<open>Transactions\<close>

text \<open>The first transaction of a pass on one attempt: \<open>None\<close> when the owner is still live.\<close>

definition recover_take ::
  "externals \<Rightarrow> string \<Rightarrow> u64 \<Rightarrow> db \<Rightarrow> (owned_attempt option \<times> db, run_store_error) result" where
  "recover_take X x clock db =
     res_bind (timestamp clock) (\<lambda>checked.
     res_bind (expired_attempt X db x checked) (\<lambda>current. case current of
         None \<Rightarrow> Inr (None, db)
       | Some (g, state) \<Rightarrow>
           if state \<noteq> Finalizing then
             res_bind (transition X g state Finalizing checked (json_object [(''recovery'', JBool True)]) None db)
               (\<lambda>(g', db'). commit (Some g', db'))
           else commit (Some g, db)))"

text \<open>Import of the one verified outcome of an attempt.\<close>

definition recover_import ::
  "externals \<Rightarrow> owned_attempt \<Rightarrow> orphan \<Rightarrow> evidence \<Rightarrow> u64 \<Rightarrow> db
     \<Rightarrow> (terminal_attempt \<times> db, run_store_error) result" where
  "recover_import X g orphan ev clock db =
     res_bind (timestamp clock) (\<lambda>checked.
     res_bind (require_expired X db g checked) (\<lambda>_.
     res_bind (validate_orphan X db g orphan checked) (\<lambda>_.
     res_bind (commit_terminal_in X g (ec_outcome ev) ((or_artifact orphan)\<lparr>ar_verified := checked\<rparr>)
         (ec_references ev) (ec_finished ev) checked db) commit)))"

definition interrupted_outcome :: terminal_outcome where
  "interrupted_outcome = OutcomeFailed ''interrupted_attempt'' (json_object
     [(''reason'', JString ''owner lease expired without an unambiguous verified published outcome'')])"

definition retained_references :: "db \<Rightarrow> string \<Rightarrow> (string \<times> string) list" where
  "retained_references db x =
     map (\<lambda>artifact. (''retained'', artifact)) (sort (remdups
       [art. (lease, art) \<leftarrow> leased_artifacts db, l \<leftarrow> leases db, l_id l = lease \<and> l_attempt l = Some x]))"

text \<open>The first and the last transaction of \<open>fail_interrupted\<close>.\<close>

definition interrupted_document ::
  "externals \<Rightarrow> owned_attempt \<Rightarrow> u64 \<Rightarrow> db \<Rightarrow> (((string \<times> string) list \<times> json) \<times> db, run_store_error) result" where
  "interrupted_document X g finished db =
     res_bind (timestamp finished) (\<lambda>t.
     res_bind (require_expired X db g t) (\<lambda>_.
     let refs = retained_references db (aid g) in
     res_bind (build_outcome_document X db g interrupted_outcome refs finished) (\<lambda>document.
       commit ((refs, document), db))))"

definition fail_interrupted ::
  "externals \<Rightarrow> owned_attempt \<Rightarrow> artifact_registration \<Rightarrow> (string \<times> string) list \<Rightarrow> json \<Rightarrow> u64 \<Rightarrow> u64 \<Rightarrow> db
     \<Rightarrow> (terminal_attempt \<times> db, run_store_error) result" where
  "fail_interrupted X g artifact refs document finished clock db =
     (let checked = max clock finished in
     res_bind (timestamp checked) (\<lambda>t.
     res_bind (require_expired X db g t) (\<lambda>_.
     res_bind (build_outcome_document X db g interrupted_outcome refs finished) (\<lambda>current.
     if current \<noteq> document then invalid RecoveryChanged
     else
     res_bind (commit_terminal_in X g interrupted_outcome (artifact\<lparr>ar_verified := checked\<rparr>) refs
         finished checked db) commit))))"

definition stage_recoverable :: "db \<Rightarrow> string \<Rightarrow> nat \<Rightarrow> (bool, run_store_error) result" where
  "stage_recoverable db lease checked =
     query_row [l_released l \<noteq> None \<or> l_expires l \<le> checked
        \<or> list_ex (\<lambda>a. Some (a_id a) = l_attempt l \<and> a_finished a \<noteq> None) (attempts db).
       l \<leftarrow> leases db, l_id l = lease]"

text \<open>The lease release of an abandoned stage.\<close>

definition recover_stage :: "string \<Rightarrow> u64 \<Rightarrow> db \<Rightarrow> (bool \<times> db, run_store_error) result" where
  "recover_stage lease clock db =
     res_bind (timestamp clock) (\<lambda>checked.
     res_bind (stage_recoverable db lease checked) (\<lambda>recoverable.
     if \<not> recoverable then Inr (False, db)
     else
     res_bind (update_leases (\<lambda>l. l_id l = lease \<and> l_released l = None)
         (\<lambda>l. l\<lparr>l_released := Some (max checked (l_acquired l))\<rparr>) db) (\<lambda>(_, db).
       commit (True, db))))"

definition import_artifact ::
  "artifact_registration \<Rightarrow> artifact_kind \<Rightarrow> db \<Rightarrow> (unit \<times> db, run_store_error) result" where
  "import_artifact artifact kind db =
     res_bind (register_artifact artifact kind db) (\<lambda>db. commit ((), db))"

end
