(* ===== verification/Run_Steps.thy ===== *)
theory Run_Steps
  imports Run_Recovery
begin

text \<open>
  The run store as a transition system: one step per committed operation, issued by any caller
  with any guard.  The locale \<open>unit_closed\<close> collects what a relation between databases must
  satisfy for the smallest units the operations are composed of; every operation then satisfies
  it.  Invariants and monotonicity facts are interpretations of it.
\<close>

section \<open>Successful statements\<close>

lemma constrained_Ok_iff [simp]: "constrained ok db = Inr db' \<longleftrightarrow> ok \<and> db' = db"
  by (auto simp: constrained_def)

lemma commit_Ok_iff [simp]: "commit r = Inr r' \<longleftrightarrow> projections_ok (snd r) \<and> r' = r"
  by (auto simp: commit_def)

lemma timestamp_Ok_iff [simp]: "timestamp v = Inr t \<longleftrightarrow> v \<le> I64_MAX \<and> t = v"
  by (auto simp: timestamp_def)

lemma query_row_Ok_iff: "query_row rows = Inr r \<longleftrightarrow> rows \<noteq> [] \<and> r = hd rows"
  by (cases rows) (auto simp: query_row_def)

lemma query_first_mem: "concat (map f xs) = y # ys \<Longrightarrow> \<exists>x \<in> set xs. y \<in> set (f x)"
proof -
  assume "concat (map f xs) = y # ys"
  then have "y \<in> set (concat (map f xs))" by simp
  then show ?thesis by auto
qed

lemma query_optional_Some_iff: "query_optional rows = Some r \<longleftrightarrow> rows \<noteq> [] \<and> r = hd rows"
  by (cases rows) (auto simp: query_optional_def)

lemma query_optional_Some_mem: "query_optional rows = Some r \<Longrightarrow> r \<in> set rows"
  by (auto simp: query_optional_Some_iff)

lemmas statement_defs =
  insert_attempt_def insert_event_def insert_transition_def insert_lease_row_def insert_lease_def
  insert_claim_def delete_claims_def insert_artifact_def insert_attempt_artifact_def
  insert_leased_artifact_def insert_observation_def insert_selection_def insert_fresh_budget_def
  update_fresh_charge_def insert_disposition_def insert_applicability_def insert_run_def
  insert_slot_def insert_observation_slot_def insert_slot_member_def insert_fresh_sequence_def
  insert_fresh_member_def

section \<open>Registered executions\<close>

definition slot_of_kind :: "db \<Rightarrow> string \<Rightarrow> slot_kind \<Rightarrow> bool" where
  "slot_of_kind db slot kind \<longleftrightarrow> list_ex (\<lambda>s. sl_id s = slot \<and> sl_kind s = kind) (attempt_slots db)"

lemma insert_frames:
  "insert_applicability X ap db = Inr db' \<Longrightarrow> user_version db' = user_version db"
  "insert_run X ru db = Inr db' \<Longrightarrow> user_version db' = user_version db"
  "insert_slot X sl db = Inr db' \<Longrightarrow> user_version db' = user_version db"
  "insert_observation_slot X os db = Inr db' \<Longrightarrow> user_version db' = user_version db"
  "insert_slot_member sm db = Inr db' \<Longrightarrow> user_version db' = user_version db"
  "insert_fresh_sequence X fs db = Inr db' \<Longrightarrow> user_version db' = user_version db
     \<and> attempt_slots db' = attempt_slots db"
  by (auto simp: statement_defs split: if_splits)

lemma register_decision_version: "register_decision X c a db = Inr (t, db') \<Longrightarrow> user_version db' = user_version db"
  by (auto simp: register_decision_def insert_frames split: option.splits if_splits)

lemma register_extra_version: "register_extra X slot run os db = Inr db' \<Longrightarrow> user_version db' = user_version db"
proof (induction os arbitrary: db)
  case (Cons e es)
  then show ?case by (auto simp: Let_def split: if_splits) (metis insert_frames(4,5))
qed simp

lemma register_execution_slot:
  assumes "register_execution X candidate run attempt obs kind db = Inr (u, db')"
  shows "user_version db' = user_version db" and "slot_of_kind db' (slot_text (fst attempt)) kind"
proof -
  obtain ob os where obs: "obs = ob # os" using assms by (cases obs) (auto simp: register_execution_def)
  show "user_version db' = user_version db"
    using assms unfolding obs
    by (auto simp: register_execution_def Let_def split: if_splits)
      (metis register_decision_version insert_frames(2-5) register_extra_version)
  have "query_row [sl_kind q. q \<leftarrow> attempt_slots db', sl_id q = slot_text (fst attempt)] = Inr kind"
    using assms unfolding obs by (auto simp: register_execution_def Let_def split: if_splits)
  then show "slot_of_kind db' (slot_text (fst attempt)) kind"
    by (auto simp: query_row_def slot_of_kind_def list_ex_iff split: list.splits dest!: query_first_mem)
qed

section \<open>Relations closed under the store's units\<close>

locale unit_closed =
  fixes X :: externals and R :: "db \<Rightarrow> db \<Rightarrow> bool"
  assumes R_refl: "R db db"
    and R_trans: "R db1 db2 \<Longrightarrow> R db2 db3 \<Longrightarrow> R db1 db3"
    and reserve_closed: "reserve X slot auth lease now db = Inr (g, db') \<Longrightarrow> R db db'"
    and transition_closed: "transition X g from to now details term db = Inr (g', db') \<Longrightarrow> R db db'"
    and event_closed: "insert_event X x now ''stream_checkpoint'' payload db = Inr (n, db') \<Longrightarrow> R db db'"
    and lease_closed: "insert_lease_row l db = Inr db' \<Longrightarrow> l_purpose l \<noteq> Reservation \<Longrightarrow> R db db'"
    and leases_closed: "update_leases hit f db = Inr (n, db') \<Longrightarrow> R db db'"
    and claim_closed: "insert_claim c db = Inr db' \<Longrightarrow> R db db'"
    and unclaim_closed: "delete_claims x db = Inr db' \<Longrightarrow> R db db'"
    and artifact_closed: "insert_artifact r db = Inr db' \<Longrightarrow> R db db'"
    and attempt_artifact_closed: "insert_attempt_artifact x role art db = Inr db' \<Longrightarrow> R db db'"
    and leased_artifact_closed: "insert_leased_artifact lid art db = Inr db' \<Longrightarrow> R db db'"
    and observation_closed: "insert_observation X ob db = Inr db' \<Longrightarrow> R db db'"
    and selection_closed: "insert_selection s db = Inr db' \<Longrightarrow> R db db'"
    and disposition_closed: "insert_disposition d db = Inr db' \<Longrightarrow> R db db'"
    and fresh_time_closed: "reserve_fresh_time X g limit now db = Inr (res, db') \<Longrightarrow> R db db'"
    and charge_closed: "update_fresh_charge x m db = Inr db' \<Longrightarrow> R db db'"
    and applicability_closed: "insert_applicability X ap db = Inr db' \<Longrightarrow> R db db'"
    and run_closed: "insert_run X ru db = Inr db' \<Longrightarrow> R db db'"
    and slot_closed: "insert_slot X sl db = Inr db' \<Longrightarrow> R db db'"
    and observation_slot_closed: "insert_observation_slot X os db = Inr db' \<Longrightarrow> R db db'"
    and slot_member_closed: "insert_slot_member sm db = Inr db' \<Longrightarrow> R db db'"
    and sequence_closed: "insert_fresh_sequence X fs db = Inr db' \<Longrightarrow> R db db'"
    and member_closed: "insert_fresh_member X fm db = Inr db' \<Longrightarrow> fresh_supported db
      \<Longrightarrow> slot_of_kind db (fm_slot fm) FreshObservation \<Longrightarrow> R db db'"
begin

lemma selections_closed: "insert_selections rs db = Inr db' \<Longrightarrow> R db db'"
  by (induction rs arbitrary: db) (auto simp: R_refl intro: R_trans selection_closed)

lemma dispositions_closed: "insert_dispositions rs db = Inr db' \<Longrightarrow> R db db'"
  by (induction rs arbitrary: db) (auto simp: R_refl intro: R_trans disposition_closed)

lemma references_closed: "insert_references x rs db = Inr db' \<Longrightarrow> R db db'"
proof (induction rs arbitrary: db)
  case (Cons r rs)
  then show ?case by (cases r) (auto intro: R_trans attempt_artifact_closed)
qed (simp add: R_refl)

lemma insert_lease_closed:
  "insert_lease x purpose lease now db = Inr db' \<Longrightarrow> purpose \<noteq> Reservation \<Longrightarrow> R db db'"
  by (auto simp: insert_lease_def intro: lease_closed)

lemma select_closed: "select_produced g outcome now db = Inr db' \<Longrightarrow> R db db'"
  by (auto simp: select_produced_def R_refl intro: selections_closed split: if_splits)

lemma finish_closed: "finish X g outcome db = Inr db' \<Longrightarrow> R db db'"
proof -
  assume fin: "finish X g outcome db = Inr db'"
  then obtain r where "effect X db g outcome = Inr r" by (auto simp: finish_def)
  with fin show ?thesis
    by (cases r; cases "fresh_membership db (sid g)")
      (auto simp: finish_def R_refl intro: dispositions_closed)
qed

lemma advance_closed: "advance X g phase now db = Inr (g', db') \<Longrightarrow> R db db'"
  by (auto simp: advance_def intro: transition_closed)

lemma renew_loop_closed: "renew_loop g expires now ls db = Inr db' \<Longrightarrow> R db db'"
proof (induction ls arbitrary: db)
  case (Cons l ls)
  then show ?case by (auto intro: R_trans leases_closed split: if_splits)
qed (simp add: R_refl)

lemma renew_closed: "renew g expires now db = Inr (u, db') \<Longrightarrow> R db db'"
  by (auto simp: renew_def intro: renew_loop_closed split: if_splits)

lemma leased_claim_closed:
  "insert_lease x Finalization lease now db = Inr db1 \<Longrightarrow> insert_claim c db1 = Inr db' \<Longrightarrow> R db db'"
  by (rule R_trans [OF insert_lease_closed claim_closed]) auto

lemma begin_finalization_closed:
  "begin_finalization X g lease now db = Inr (r, db') \<Longrightarrow> R db db'"
  by (auto simp: begin_finalization_def Let_def split: if_splits
      intro: transition_closed R_trans [OF transition_closed leased_claim_closed])

lemma commit_terminal_closed:
  assumes "commit_terminal_in X g outcome artifact refs now checked db = Inr (t, db')"
  shows "R db db'"
proof -
  from assms obtain db1 db2 db3 db4 db5 g6 db6 db7 n8 verified det c where
    "select_produced g outcome now db = Inr db1" "finish X g outcome db1 = Inr db2"
    "insert_artifact (final_artifact artifact verified) db2 = Inr db3"
    "insert_attempt_artifact (aid g) ''final'' (ar_id artifact) db3 = Inr db4"
    "insert_references (aid g) refs db4 = Inr db5"
    "transition X g Finalizing (outcome_state outcome) (max now (g_updated g)) det
       (Some (ar_id artifact, outcome_failure outcome)) db5 = Inr (g6, db6)"
    "delete_claims (aid g) db6 = Inr db7"
    "update_leases (\<lambda>l. l_attempt l = Some (aid g) \<and> l_released l = None)
       (\<lambda>l. l\<lparr>l_released := Some c\<rparr>) db7 = Inr (n8, db')"
    by (auto simp: commit_terminal_in_def Let_def split: if_splits prod.splits)
  then show ?thesis
    by (meson R_trans select_closed finish_closed artifact_closed attempt_artifact_closed
        references_closed transition_closed unclaim_closed leases_closed)
qed

lemma commit_finalization_in_closed:
  "commit_finalization_in X g outcome artifact refs now checked db = Inr (t, db') \<Longrightarrow> R db db'"
  by (auto simp: commit_finalization_in_def intro: commit_terminal_closed)

lemma commit_finalization_closed:
  "commit_finalization X g outcome artifact refs now db = Inr (t, db') \<Longrightarrow> R db db'"
  by (auto simp: commit_finalization_def intro: commit_finalization_in_closed)

lemma record_fresh_time_closed: "record_fresh_time g m now db = Inr (u, db') \<Longrightarrow> R db db'"
  by (auto simp: record_fresh_time_def intro: charge_closed)

lemma register_applicability_closed: "register_applicability X d db = Inr (u, db') \<Longrightarrow> R db db'"
  by (auto simp: register_applicability_def Let_def split: if_splits intro: applicability_closed)

lemma register_decision_closed: "register_decision X c a db = Inr (t, db') \<Longrightarrow> R db db'"
  by (auto simp: register_decision_def R_refl split: option.splits if_splits intro: applicability_closed)

lemma register_extra_closed: "register_extra X slot run os db = Inr db' \<Longrightarrow> R db db'"
proof (induction os arbitrary: db)
  case (Cons e es)
  then show ?case
    by (auto simp: Let_def split: if_splits
        intro: R_trans [OF observation_slot_closed] R_trans [OF slot_member_closed])
qed (simp add: R_refl)

lemma register_execution_closed:
  "register_execution X candidate run attempt obs kind db = Inr (u, db') \<Longrightarrow> R db db'"
  by (cases obs) (auto simp: register_execution_def Let_def split: if_splits,
      meson R_trans register_decision_closed run_closed slot_closed observation_slot_closed
        slot_member_closed register_extra_closed)

lemma register_membership_closed:
  assumes "register_membership X run slot point db = Inr (u, db')" "fresh_supported db"
    "slot_of_kind db (slot_text slot) FreshObservation"
  shows "R db db'"
proof -
  from assms(1) obtain fs db1 fm where
    s: "insert_fresh_sequence X fs db = Inr db1" and m: "insert_fresh_member X fm db1 = Inr db'"
    and fm: "fm_slot fm = slot_text slot"
    by (auto simp: register_membership_def split: if_splits)
  have "R db1 db'"
    using m assms(2,3) insert_frames(6) [OF s]
    by (auto simp: fm fresh_supported_def slot_of_kind_def intro: member_closed)
  with sequence_closed [OF s] show ?thesis by (rule R_trans)
qed

lemma register_fresh_closed: "R db (snd (register_fresh X c run attempt ob point db))"
proof (cases "register_execution X c run attempt [ob] FreshObservation db")
  case (Inr r)
  obtain u db1 where r: "r = (u, db1)" by (cases r)
  note ex = Inr [unfolded r]
  have sup: "fresh_supported db1" if "fresh_supported db"
    using that register_execution_slot(1) [OF ex] by (simp add: fresh_supported_def)
  have "R db1 db2" if "fresh_supported db" "register_membership X (fst run) (fst attempt) point db1 = Inr (u', db2)"
    for u' db2
    using register_membership_closed [OF that(2) sup [OF that(1)] register_execution_slot(2) [OF ex]] .
  with ex register_execution_closed [OF ex] show ?thesis
    by (auto simp: register_fresh_def R_refl split: sum.splits intro: R_trans)
qed (auto simp: register_fresh_def R_refl)

lemma register_observation_closed:
  "register_observation X g ob artifact sel now db = Inr (u, db') \<Longrightarrow> R db db'"
  by (auto simp: register_observation_def select_observation_def checkpoint_event_def Let_def R_refl
      split: if_splits option.splits profile_observation.splits
      intro: observation_closed R_trans [OF observation_closed] selection_closed
        R_trans [OF selection_closed] event_closed)

lemma staging_closed: "insert_staging_leases relative now ls db = Inr db' \<Longrightarrow> R db db'"
  by (induction ls arbitrary: db) (auto simp: R_refl intro: R_trans [OF lease_closed])

lemma stage_closed: "stage_transaction g relative now db = Inr (st, db') \<Longrightarrow> R db db'"
  by (auto simp: stage_transaction_def Let_def intro: staging_closed)

lemma register_artifact_closed: "register_artifact artifact kind db = Inr db' \<Longrightarrow> R db db'"
  by (auto simp: register_artifact_def Let_def R_refl split: if_splits option.splits intro: artifact_closed)

lemma release_stage_closed: "release_stage st now db = Inr db' \<Longrightarrow> R db db'"
  by (auto simp: release_stage_def intro: leases_closed)

lemma publish_artifact_closed:
  "publish_artifact_transaction g st artifact kind clock db = Inr (u, db') \<Longrightarrow> R db db'"
  by (auto simp: publish_artifact_transaction_def Let_def)
    (meson R_trans register_artifact_closed leased_artifact_closed release_stage_closed)

lemma publish_finalization_closed:
  "publish_finalization_transaction X g outcome artifact refs doc fin st clock db = Inr (t, db') \<Longrightarrow> R db db'"
  by (auto simp: publish_finalization_transaction_def Let_def split: if_splits
      intro: commit_finalization_in_closed)

lemma recover_take_closed: "recover_take X x clock db = Inr (r, db') \<Longrightarrow> R db db'"
proof -
  assume take: "recover_take X x clock db = Inr (r, db')"
  then obtain cur where "expired_attempt X db x clock = Inr cur" by (auto simp: recover_take_def)
  with take show ?thesis
    by (cases cur) (auto simp: recover_take_def R_refl split: if_splits intro: transition_closed)
qed

lemma recover_import_closed: "recover_import X g orphan ev clock db = Inr (t, db') \<Longrightarrow> R db db'"
  by (auto simp: recover_import_def intro: commit_terminal_closed)

lemma fail_interrupted_closed:
  "fail_interrupted X g artifact refs doc fin clock db = Inr (t, db') \<Longrightarrow> R db db'"
  by (auto simp: fail_interrupted_def Let_def split: if_splits intro: commit_terminal_closed)

lemma recover_stage_closed: "recover_stage lease clock db = Inr (b, db') \<Longrightarrow> R db db'"
  by (auto simp: recover_stage_def R_refl split: if_splits intro: leases_closed)

lemma import_artifact_closed: "import_artifact artifact kind db = Inr (u, db') \<Longrightarrow> R db db'"
  by (auto simp: import_artifact_def intro: register_artifact_closed)

end

section \<open>Steps and reachable stores\<close>

inductive store_step :: "externals \<Rightarrow> db \<Rightarrow> db \<Rightarrow> bool" for X where
  step_reserve: "reserve X slot auth lease now db = Inr (g, db') \<Longrightarrow> store_step X db db'"
| step_advance: "advance X g phase now db = Inr (g', db') \<Longrightarrow> store_step X db db'"
| step_renew: "renew g expires now db = Inr (u, db') \<Longrightarrow> store_step X db db'"
| step_begin_finalization:
    "begin_finalization X g lease now db = Inr (r, db') \<Longrightarrow> store_step X db db'"
| step_commit_finalization:
    "commit_finalization X g outcome artifact refs now db = Inr (t, db') \<Longrightarrow> store_step X db db'"
| step_reserve_fresh_time:
    "reserve_fresh_time X g limit now db = Inr (res, db') \<Longrightarrow> store_step X db db'"
| step_record_fresh_time: "record_fresh_time g m now db = Inr (u, db') \<Longrightarrow> store_step X db db'"
| step_register_applicability:
    "register_applicability X d db = Inr (u, db') \<Longrightarrow> store_step X db db'"
| step_register_one_shot:
    "register_one_shot X c run attempt ob db = Inr (u, db') \<Longrightarrow> store_step X db db'"
| step_register_streaming:
    "register_streaming X c run attempt obs db = Inr (u, db') \<Longrightarrow> store_step X db db'"
| step_register_buffered:
    "register_buffered X c run attempt obs db = Inr (u, db') \<Longrightarrow> store_step X db db'"
| step_register_fresh:
    "db' = snd (register_fresh X c run attempt ob point db) \<Longrightarrow> store_step X db db'"
| step_register_observation:
    "register_observation X g obs artifact sel now db = Inr (u, db') \<Longrightarrow> store_step X db db'"
| step_stage: "stage_transaction g relative now db = Inr (st, db') \<Longrightarrow> store_step X db db'"
| step_publish_artifact:
    "publish_artifact_transaction g st artifact kind clock db = Inr (u, db') \<Longrightarrow> store_step X db db'"
| step_publish_finalization:
    "publish_finalization_transaction X g outcome artifact refs doc fin st clock db = Inr (t, db')
       \<Longrightarrow> store_step X db db'"
| step_recover_take: "recover_take X x clock db = Inr (rt, db') \<Longrightarrow> store_step X db db'"
| step_recover_import:
    "recover_import X g orph ev clock db = Inr (t, db') \<Longrightarrow> store_step X db db'"
| step_fail_interrupted:
    "fail_interrupted X g artifact refs doc fin clock db = Inr (t, db') \<Longrightarrow> store_step X db db'"
| step_recover_stage: "recover_stage lid clock db = Inr (b, db') \<Longrightarrow> store_step X db db'"
| step_import_artifact: "import_artifact artifact kind db = Inr (u, db') \<Longrightarrow> store_step X db db'"

inductive reachable :: "externals \<Rightarrow> db \<Rightarrow> bool" for X where
  reach_new: "version \<in> {1, 2, 3} \<Longrightarrow> reachable X (empty_db version)"
| reach_step: "reachable X db \<Longrightarrow> store_step X db db' \<Longrightarrow> reachable X db'"

abbreviation store_steps :: "externals \<Rightarrow> db \<Rightarrow> db \<Rightarrow> bool" where
  "store_steps X \<equiv> (store_step X)\<^sup>*\<^sup>*"

context unit_closed
begin

lemma step_closed: "store_step X db db' \<Longrightarrow> R db db'"
  by (induction rule: store_step.induct)
    (auto simp: register_one_shot_def register_streaming_def register_buffered_def split: if_splits
      intro: reserve_closed advance_closed renew_closed begin_finalization_closed
        commit_finalization_closed fresh_time_closed record_fresh_time_closed
        register_applicability_closed register_execution_closed register_fresh_closed
        register_observation_closed stage_closed publish_artifact_closed publish_finalization_closed
        recover_take_closed recover_import_closed fail_interrupted_closed recover_stage_closed
        import_artifact_closed)

lemma steps_closed: "store_steps X db db' \<Longrightarrow> R db db'"
  by (induction rule: rtranclp_induct) (auto intro: R_refl R_trans step_closed)

end

end
