(* ===== verification/Run_Evolution.thy ===== *)
theory Run_Evolution
  imports Run_Steps
begin

text \<open>
  What later operations can never undo: terminal attempts, history, events, observations,
  selections and registrations are append-only; revisions, update times and lease expirations
  only grow; a finalization claim disappears only once its attempt is terminal.
\<close>

section \<open>Tables that only grow\<close>

definition extends :: "('a \<Rightarrow> 'a \<Rightarrow> bool) \<Rightarrow> 'a list \<Rightarrow> 'a list \<Rightarrow> bool" where
  "extends P xs ys \<longleftrightarrow> list_all2 P xs (take (length xs) ys)"

lemma extends_refl: "(\<And>x. P x x) \<Longrightarrow> extends P xs xs"
  by (simp add: extends_def list_all2_refl)

lemma extends_nth:
  "extends P xs ys \<longleftrightarrow> length xs \<le> length ys \<and> (\<forall>i < length xs. P (xs ! i) (ys ! i))"
  by (auto simp: extends_def list_all2_conv_all_nth)

lemma extends_trans:
  assumes "\<And>x y z. P x y \<Longrightarrow> P y z \<Longrightarrow> P x z" "extends P xs ys" "extends P ys zs"
  shows "extends P xs zs"
  using assms(2,3) unfolding extends_nth by (meson assms(1) le_trans less_le_trans)

lemma extends_append: "(\<And>x. P x x) \<Longrightarrow> extends P xs (xs @ ys)"
  by (simp add: extends_def list_all2_refl)

lemma extends_map: "(\<And>x. x \<in> set xs \<Longrightarrow> P x (f x)) \<Longrightarrow> extends P xs (map f xs)"
  by (simp add: extends_def list_all2_conv_all_nth)

lemma extends_mem: "extends P xs ys \<Longrightarrow> x \<in> set xs \<Longrightarrow> \<exists>y \<in> set ys. P x y"
  by (metis extends_nth in_set_conv_nth less_le_trans)

lemma extends_eq_prefix: "extends (=) xs ys \<longleftrightarrow> take (length xs) ys = xs"
  by (auto simp: extends_def list.rel_eq)

definition attempt_le :: "attempt_row \<Rightarrow> attempt_row \<Rightarrow> bool" where
  "attempt_le a a' \<longleftrightarrow>
     a_id a' = a_id a \<and> a_slot a' = a_slot a \<and> a_retry a' = a_retry a \<and> a_started a' = a_started a
     \<and> a_revision a \<le> a_revision a' \<and> a_updated a \<le> a_updated a'
     \<and> (terminal_state (a_state a) \<or> a_revision a' = a_revision a \<longrightarrow> a' = a)"

definition lease_le :: "lease_row \<Rightarrow> lease_row \<Rightarrow> bool" where
  "lease_le l l' \<longleftrightarrow>
     l_id l' = l_id l \<and> l_owner l' = l_owner l \<and> l_attempt l' = l_attempt l
     \<and> l_purpose l' = l_purpose l \<and> l_staging l' = l_staging l \<and> l_acquired l' = l_acquired l
     \<and> l_expires l \<le> l_expires l' \<and> (l_released l \<noteq> None \<longrightarrow> l' = l)"

definition budget_le :: "fresh_budget_row \<Rightarrow> fresh_budget_row \<Rightarrow> bool" where
  "budget_le b b' \<longleftrightarrow>
     b_attempt b' = b_attempt b \<and> b_reserved b' = b_reserved b
     \<and> (b_charged b \<noteq> None \<longrightarrow> b' = b)"

definition claim_kept :: "db \<Rightarrow> claim_row \<Rightarrow> bool" where
  "claim_kept db c \<longleftrightarrow>
     c \<in> set (finalization_claims db)
     \<or> (\<exists>a \<in> set (attempts db). a_id a = c_attempt c \<and> terminal_state (a_state a))"

definition evolves :: "db \<Rightarrow> db \<Rightarrow> bool" where
  "evolves db db' \<longleftrightarrow>
     user_version db' = user_version db
     \<and> extends attempt_le (attempts db) (attempts db')
     \<and> extends lease_le (leases db) (leases db')
     \<and> extends budget_le (fresh_budget db) (fresh_budget db')
     \<and> (\<forall>c \<in> set (finalization_claims db). claim_kept db' c)
     \<and> extends (=) (events db) (events db')
     \<and> extends (=) (attempt_transitions db) (attempt_transitions db')
     \<and> extends (=) (observations db) (observations db')
     \<and> extends (=) (selected_observations db) (selected_observations db')
     \<and> extends (=) (artifacts db) (artifacts db')
     \<and> extends (=) (attempt_slots db) (attempt_slots db')
     \<and> extends (=) (fresh_sequences db) (fresh_sequences db')
     \<and> extends (=) (fresh_members db) (fresh_members db')
     \<and> extends (=) (fresh_dispositions db) (fresh_dispositions db')"

lemma attempt_le_refl: "attempt_le a a"
  by (simp add: attempt_le_def)

lemma attempt_le_trans: "attempt_le a b \<Longrightarrow> attempt_le b c \<Longrightarrow> attempt_le a c"
  unfolding attempt_le_def by (metis (no_types) le_antisym le_trans)

lemma lease_le_refl: "lease_le l l"
  by (simp add: lease_le_def)

lemma lease_le_trans: "lease_le a b \<Longrightarrow> lease_le b c \<Longrightarrow> lease_le a c"
  unfolding lease_le_def by (metis le_trans)

lemma budget_le_refl: "budget_le b b"
  by (simp add: budget_le_def)

lemma budget_le_trans: "budget_le a b \<Longrightarrow> budget_le b c \<Longrightarrow> budget_le a c"
  unfolding budget_le_def by metis

lemma claim_kept_trans:
  assumes "claim_kept db2 c" and "extends attempt_le (attempts db2) (attempts db3)"
    and "\<forall>c \<in> set (finalization_claims db2). claim_kept db3 c"
  shows "claim_kept db3 c"
proof (cases "c \<in> set (finalization_claims db2)")
  case False
  with assms(1) obtain a where a: "a \<in> set (attempts db2)" "a_id a = c_attempt c" "terminal_state (a_state a)"
    by (auto simp: claim_kept_def)
  with extends_mem [OF assms(2) a(1)] have "a \<in> set (attempts db3)"
    by (auto simp: attempt_le_def)
  with a show ?thesis by (auto simp: claim_kept_def)
qed (use assms(3) in blast)

lemma evolves_refl: "evolves db db"
  by (simp add: evolves_def claim_kept_def attempt_le_refl lease_le_refl budget_le_refl extends_refl)

lemma extends_eq_trans: "extends (=) xs ys \<Longrightarrow> extends (=) ys zs \<Longrightarrow> extends (=) xs zs"
  by (rule extends_trans [of "(=)"]) auto

lemma evolves_trans:
  assumes a: "evolves db1 db2" and b: "evolves db2 db3"
  shows "evolves db1 db3"
proof -
  have "extends attempt_le (attempts db1) (attempts db3)"
    "extends lease_le (leases db1) (leases db3)" "extends budget_le (fresh_budget db1) (fresh_budget db3)"
    using a b unfolding evolves_def
    by (blast intro: extends_trans attempt_le_trans lease_le_trans budget_le_trans)+
  moreover have "\<forall>c \<in> set (finalization_claims db1). claim_kept db3 c"
    using a b claim_kept_trans unfolding evolves_def by blast
  ultimately show ?thesis
    using a b unfolding evolves_def by (auto intro: extends_eq_trans)
qed

lemmas row_refls = attempt_le_refl lease_le_refl budget_le_refl extends_refl extends_append

section \<open>Statements\<close>

lemma evolves_insert_attempt: "insert_attempt r db = Inr db' \<Longrightarrow> evolves db db'"
  by (auto simp: statement_defs evolves_def claim_kept_def row_refls split: if_splits)

lemma evolves_insert_event: "insert_event X x now kind payload db = Inr (n, db') \<Longrightarrow> evolves db db'"
  by (auto simp: statement_defs evolves_def claim_kept_def row_refls split: if_splits)

lemma evolves_insert_transition: "insert_transition t db = Inr db' \<Longrightarrow> evolves db db'"
  by (auto simp: statement_defs evolves_def claim_kept_def row_refls)

lemma evolves_insert_lease_row: "insert_lease_row l db = Inr db' \<Longrightarrow> evolves db db'"
  by (auto simp: statement_defs evolves_def claim_kept_def row_refls)

lemma update_attempt_Ok:
  assumes "update_attempt x n f db = Inr (k, db')"
  defines "hit \<equiv> \<lambda>r. a_id r = x \<and> a_revision r = n"
  shows "db' = db\<lparr>attempts := map (\<lambda>r. if hit r then f r else r) (attempts db)\<rparr>"
    and "k = length (filter hit (attempts db))"
    and "\<And>r. r \<in> set (attempts db) \<Longrightarrow> hit r \<Longrightarrow>
      \<not> attempt_update_aborts db r (f r) \<and> attempt_check (f r) \<and> attempt_references db (f r)"
    and "attempts_unique (attempts db')"
  using assms(1) unfolding update_attempt_def hit_def Let_def
  by (auto simp: list_ex_iff list_all_iff split: if_splits)

lemma evolves_update_attempt:
  assumes "update_attempt x n f db = Inr (k, db')"
  shows "evolves db db'"
proof -
  note ok = update_attempt_Ok [OF assms]
  have le: "attempt_le r (if a_id r = x \<and> a_revision r = n then f r else r)" if "r \<in> set (attempts db)" for r
    using ok(3) [OF that] by (auto simp: attempt_le_def attempt_update_aborts_def)
  then have "extends attempt_le (attempts db) (attempts db')"
    by (auto simp: ok(1) intro: extends_map)
  with ok(1) show ?thesis
    by (auto simp: evolves_def claim_kept_def row_refls)
qed

lemma evolves_append_transition:
  "append_transition X x from to n now details db = Inr db' \<Longrightarrow> evolves db db'"
  by (auto simp: append_transition_def intro: evolves_trans [OF evolves_insert_event evolves_insert_transition])

lemma evolves_transition:
  "transition X g from to now details term db = Inr (g', db') \<Longrightarrow> evolves db db'"
  by (auto simp: transition_def Let_def split: if_splits
      intro: evolves_trans [OF evolves_append_transition evolves_update_attempt])

lemma evolves_reserve: "reserve X slot auth lease now db = Inr (g, db') \<Longrightarrow> evolves db db'"
  by (auto simp: reserve_def insert_lease_def split: if_splits)
    (meson evolves_trans evolves_insert_attempt evolves_insert_lease_row evolves_append_transition)

lemma evolves_update_leases:
  assumes "update_leases hit f db = Inr (n, db')"
  shows "evolves db db'"
proof -
  from assms have db': "db' = db\<lparr>leases := map (\<lambda>l. if hit l then f l else l) (leases db)\<rparr>"
    and ok: "\<And>l. l \<in> set (leases db) \<Longrightarrow> hit l \<Longrightarrow> \<not> lease_update_aborts l (f l)"
    by (auto simp: update_leases_def Let_def list_ex_iff split: if_splits)
  have "lease_le l (if hit l then f l else l)" if "l \<in> set (leases db)" for l
    using ok [OF that] by (auto simp: lease_le_def lease_update_aborts_def)
  then have "extends lease_le (leases db) (leases db')"
    by (auto simp: db' intro: extends_map)
  with db' show ?thesis by (auto simp: evolves_def claim_kept_def row_refls)
qed

lemma evolves_update_fresh_charge:
  assumes "update_fresh_charge x m db = Inr db'"
  shows "evolves db db'"
proof -
  have "extends budget_le (fresh_budget db) (fresh_budget db')"
    using assms by (auto simp: update_fresh_charge_def budget_le_def list_ex_iff split: if_splits intro!: extends_map)
  with assms show ?thesis
    by (auto simp: update_fresh_charge_def evolves_def claim_kept_def row_refls split: if_splits)
qed

lemma evolves_reserve_fresh_time:
  "reserve_fresh_time X g limit now db = Inr (res, db') \<Longrightarrow> evolves db db'"
  by (auto simp: reserve_fresh_time_def Let_def statement_defs evolves_refl split: option.splits if_splits prod.splits)
    (auto simp: evolves_def claim_kept_def row_refls)

lemma evolves_insert_fresh_member: "insert_fresh_member X fm db = Inr db' \<Longrightarrow> evolves db db'"
  by (auto simp: statement_defs evolves_def claim_kept_def row_refls split: if_splits)

interpretation grows: unit_closed X evolves for X
proof
  fix c db db'
  assume "delete_claims c db = Inr db'"
  then show "evolves db db'"
    by (auto simp: delete_claims_def evolves_def claim_kept_def row_refls list_ex_iff split: if_splits)
qed (auto simp: evolves_refl split: if_splits
    intro: evolves_trans evolves_reserve evolves_transition evolves_insert_event evolves_insert_lease_row
      evolves_update_leases evolves_update_fresh_charge evolves_reserve_fresh_time,
   (auto simp: statement_defs evolves_def claim_kept_def row_refls split: if_splits)+)

end
