(* ===== verification/Run_History.thy ===== *)
theory Run_History
  imports Run_Evolution
begin

text \<open>
  The recorded history of an attempt is a legal path of the attempt state machine, contiguous from
  its reservation, and ends in the attempt's projection.
\<close>

section \<open>Histories\<close>

definition history :: "db \<Rightarrow> string \<Rightarrow> transition_row list" where
  "history db x = filter (\<lambda>t. t_attempt t = x) (attempt_transitions db)"

definition history_step :: "transition_row list \<Rightarrow> nat \<Rightarrow> bool" where
  "history_step ts i \<longleftrightarrow>
     t_revision (ts ! i) = i \<and>
     (case i of
        0 \<Rightarrow> t_previous (ts ! 0) = None \<and> t_from (ts ! 0) = None \<and> t_to (ts ! 0) = Reserved
      | Suc j \<Rightarrow> t_previous (ts ! i) = Some j \<and> t_from (ts ! i) = Some (t_to (ts ! j))
          \<and> legal_edge (t_to (ts ! j)) (t_to (ts ! i)) \<and> t_time (ts ! j) \<le> t_time (ts ! i))"

definition follows :: "attempt_row \<Rightarrow> transition_row list \<Rightarrow> bool" where
  "follows a ts \<longleftrightarrow>
     length ts = Suc (a_revision a) \<and> (\<forall>i \<le> a_revision a. history_step ts i)
     \<and> t_to (ts ! a_revision a) = a_state a \<and> t_time (ts ! a_revision a) = a_updated a"

definition history_ok :: "db \<Rightarrow> bool" where
  "history_ok db \<longleftrightarrow>
     distinct (map a_id (attempts db))
     \<and> (\<forall>a \<in> set (attempts db). follows a (history db (a_id a)))
     \<and> (\<forall>t \<in> set (attempt_transitions db). \<exists>a \<in> set (attempts db). a_id a = t_attempt t)"

lemma history_ok_frame:
  "attempts db' = attempts db \<Longrightarrow> attempt_transitions db' = attempt_transitions db
     \<Longrightarrow> history_ok db' \<longleftrightarrow> history_ok db"
  by (simp add: history_ok_def history_def)

lemma append_transition_Ok:
  assumes "append_transition X x from to n now details db = Inr db'"
  obtains t where "t_attempt t = x" "t_revision t = n" "t_from t = from" "t_to t = to" "t_time t = now"
    "t_previous t = (if n = 0 then None else Some (n - 1))" "transition_check t"
    "attempt_transitions db' = attempt_transitions db @ [t]" "attempts db' = attempts db"
    "\<And>s. from = Some s \<Longrightarrow> n > 0 \<Longrightarrow>
       \<exists>u \<in> set (attempt_transitions db). t_attempt u = x \<and> t_revision u = n - 1 \<and> t_to u = s"
  using assms
  by (fastforce simp: append_transition_def insert_event_def insert_transition_def
      transition_references_def list_ex_iff split: if_splits)

lemma transition_Ok:
  assumes "transition X g from to now details term db = Inr (g', db')"
  obtains db1 a where
    "append_transition X (aid g) (Some from) to (g_revision g + 1) (max now (g_updated g)) details db = Inr db1"
    "g' = g\<lparr>g_revision := g_revision g + 1, g_updated := max now (g_updated g)\<rparr>"
    "update_attempt (aid g) (g_revision g) (project to (g_revision g + 1) (max now (g_updated g)) term) db1
       = Inr (1, db')"
    "filter (\<lambda>r. a_id r = aid g \<and> a_revision r = g_revision g) (attempts db) = [a]"
    "g_revision g + 1 \<le> MAX_SAFE_INTEGER"
proof -
  from assms obtain db1 k where
    app: "append_transition X (aid g) (Some from) to (g_revision g + 1) (max now (g_updated g)) details db = Inr db1"
    and upd: "update_attempt (aid g) (g_revision g) (project to (g_revision g + 1) (max now (g_updated g)) term) db1
       = Inr (k, db')" and k: "k = 1"
    and g': "g' = g\<lparr>g_revision := g_revision g + 1, g_updated := max now (g_updated g)\<rparr>"
    and le: "g_revision g + 1 \<le> MAX_SAFE_INTEGER"
    by (auto simp: transition_def Let_def checked_add_Some_iff split: if_splits)
  from append_transition_Ok [OF app] have "attempts db1 = attempts db" by metis
  with update_attempt_Ok(2) [OF upd] k
  have "length (filter (\<lambda>r. a_id r = aid g \<and> a_revision r = g_revision g) (attempts db)) = 1" by simp
  then obtain a where "filter (\<lambda>r. a_id r = aid g \<and> a_revision r = g_revision g) (attempts db) = [a]"
    by (auto simp: length_Suc_conv)
  with that app upd k g' le show ?thesis by blast
qed

lemma map_update_one:
  assumes "distinct (map k xs)" and "x \<in> set xs" and "P x" and "\<And>y. P y \<Longrightarrow> k y = k x"
    and "\<And>y. k (f y) = k y"
  shows "set (map (\<lambda>y. if P y then f y else y) xs) = insert (f x) (set xs - {x})"
proof -
  have "y = x" if "y \<in> set xs" "P y" for y
    using that assms(1,2,4) by (metis distinct_map inj_onD)
  then have "(if P y then f y else y) = (if y = x then f x else y)" if "y \<in> set xs" for y
    using that assms(3) by metis
  then have "set (map (\<lambda>y. if P y then f y else y) xs) = (\<lambda>y. if y = x then f x else y) ` set xs"
    by (simp cong: image_cong)
  with assms(2) show ?thesis by auto
qed

lemma follows_extend:
  assumes f: "follows a ts" and last: "t_revision t = Suc (a_revision a)" "t_previous t = Some (a_revision a)"
    "t_from t = Some (a_state a)" "legal_edge (a_state a) (t_to t)" "a_updated a \<le> t_time t"
    and a': "a_revision a' = Suc (a_revision a)" "a_state a' = t_to t" "a_updated a' = t_time t"
  shows "follows a' (ts @ [t])"
proof -
  have len: "length ts = Suc (a_revision a)" using f by (simp add: follows_def)
  have "history_step (ts @ [t]) i" if "i \<le> a_revision a" for i
    using f that len by (cases i) (auto simp: follows_def history_step_def nth_append)
  moreover have "history_step (ts @ [t]) (Suc (a_revision a))"
    using f last len by (simp add: follows_def history_step_def nth_append)
  ultimately show ?thesis
    using a' len by (auto simp: follows_def le_Suc_eq nth_append)
qed

lemma history_transition:
  assumes ok: "history_ok db" and tr: "transition X g from to now details term db = Inr (g', db')"
  shows "history_ok db'"
proof -
  define x rv now' where "x = aid g" and "rv = g_revision g" and "now' = max now (g_updated g)"
  from tr obtain db1 a where
    app: "append_transition X x (Some from) to (rv + 1) now' details db = Inr db1"
    and upd: "update_attempt x rv (project to (rv + 1) now' term) db1 = Inr (1, db')"
    and hit: "filter (\<lambda>r. a_id r = x \<and> a_revision r = rv) (attempts db) = [a]"
    unfolding x_def rv_def now'_def by (rule transition_Ok)
  from app obtain t where t: "t_attempt t = x" "t_revision t = rv + 1" "t_from t = Some from" "t_to t = to"
      "t_time t = now'" "t_previous t = Some rv" "transition_check t"
    and db1: "attempt_transitions db1 = attempt_transitions db @ [t]" "attempts db1 = attempts db"
    and prev: "\<exists>u \<in> set (attempt_transitions db). t_attempt u = x \<and> t_revision u = rv \<and> t_to u = from"
    by (rule append_transition_Ok) auto
  from hit have a: "a \<in> set (attempts db)" "a_id a = x" "a_revision a = rv"
    by (auto dest!: arg_cong [where f = set])
  define a' where "a' = project to (rv + 1) now' term a"
  have keeps: "a_id (project to (rv + 1) now' term r) = a_id r" for r by (simp add: project_def)
  have dist: "distinct (map a_id (attempts db))" using ok by (simp add: history_ok_def)
  have db': "db' = db1\<lparr>attempts := map (\<lambda>r. if a_id r = x \<and> a_revision r = rv
      then project to (rv + 1) now' term r else r) (attempts db)\<rparr>"
    using update_attempt_Ok(1) [OF upd] db1 by simp
  then have rows: "set (attempts db') = insert a' (set (attempts db) - {a})"
    using map_update_one [OF dist a(1), of "\<lambda>r. a_id r = x \<and> a_revision r = rv"] a keeps
    by (simp add: a'_def)
  have ids: "map a_id (attempts db') = map a_id (attempts db)" using keeps db' by (auto simp: comp_def)
  from ok a have f: "follows a (history db x)" by (auto simp: history_ok_def)
  have "from = a_state a"
  proof -
    from prev obtain u where u: "u \<in> set (history db x)" "t_revision u = rv" "t_to u = from"
      by (auto simp: history_def)
    then obtain i where "i < length (history db x)" "history db x ! i = u" by (auto simp: in_set_conv_nth)
    moreover from this f have "t_revision u = i" by (auto simp: follows_def history_step_def)
    ultimately show ?thesis using f u a by (auto simp: follows_def)
  qed
  moreover have "\<not> attempt_update_aborts db1 a a'"
    using update_attempt_Ok(3) [OF upd] a db1 by (simp add: a'_def)
  then have "a_updated a \<le> now'" by (simp add: attempt_update_aborts_def a'_def project_def)
  moreover have "legal_edge from to" using t by (simp add: transition_check_def)
  ultimately have "follows a' (history db x @ [t])"
    using t a by (intro follows_extend [OF f]) (simp_all add: a'_def project_def)
  moreover have "history db' y = (if y = x then history db x @ [t] else history db y)" for y
    using db' db1 t by (simp add: history_def)
  moreover have "a_id a' = x" using a(2) keeps [of a] unfolding a'_def by (rule trans [rotated])
  moreover have "a_id r \<noteq> x" if "r \<in> set (attempts db)" "r \<noteq> a" for r
    using that a dist by (metis distinct_map inj_onD)
  ultimately have "\<forall>r \<in> set (attempts db'). follows r (history db' (a_id r))"
    using ok rows by (auto simp: history_ok_def)
  moreover have "\<exists>r \<in> set (attempts db'). a_id r = t_attempt v" if "v \<in> set (attempt_transitions db')" for v
  proof -
    have "a_id ` set (attempts db') = a_id ` set (attempts db)" using ids by (metis set_map)
    moreover have "t_attempt v \<in> a_id ` set (attempts db)"
    proof -
      have "v = t \<or> v \<in> set (attempt_transitions db)" using that db' db1 by auto
      then show ?thesis
      proof
        assume "v = t"
        with t(1) a show ?thesis by (metis imageI)
      next
        assume "v \<in> set (attempt_transitions db)"
        with ok show ?thesis unfolding history_ok_def by (metis imageI)
      qed
    qed
    ultimately show ?thesis by (metis imageE)
  qed
  ultimately show ?thesis using dist ids by (simp add: history_ok_def)
qed

lemma history_reserve:
  assumes ok: "history_ok db" and res: "reserve X slot auth lease now db = Inr (g, db')"
  shows "history_ok db'"
proof -
  from res obtain x n db1 db2 details where
    ins: "insert_attempt (new_attempt x (slot_text slot) n now) db = Inr db1"
    and lse: "insert_lease x Reservation lease now db1 = Inr db2"
    and app: "append_transition X x None Reserved 0 now details db2 = Inr db'"
    by (auto simp: reserve_def split: if_splits)
  define a where "a = new_attempt x (slot_text slot) n now"
  from ins lse have rows: "attempts db2 = attempts db @ [a]" and trs: "attempt_transitions db2 = attempt_transitions db"
    and uniq: "distinct (map a_id (attempts db @ [a]))"
    by (auto simp: insert_attempt_def insert_lease_def insert_lease_row_def attempts_unique_def a_def split: if_splits)
  from app obtain t where t: "t_attempt t = x" "t_revision t = 0" "t_from t = None" "t_to t = Reserved"
      "t_time t = now" "t_previous t = None"
    and db': "attempt_transitions db' = attempt_transitions db2 @ [t]" "attempts db' = attempts db2"
    by (rule append_transition_Ok) auto
  have a: "a_id a = x" "a_revision a = 0" "a_state a = Reserved" "a_updated a = now"
    by (simp_all add: a_def new_attempt_def)
  have fresh: "history db x = []"
  proof -
    have "x \<notin> a_id ` set (attempts db)" using uniq a(1) by auto
    with ok have "\<forall>t \<in> set (attempt_transitions db). t_attempt t \<noteq> x"
      unfolding history_ok_def by (metis imageI)
    then show ?thesis by (simp add: history_def filter_empty_conv)
  qed
  have hist: "history db' y = (if y = x then [t] else history db y)" for y
    using db' trs t fresh by (auto simp: history_def)
  have others: "a_id r \<noteq> x" if "r \<in> set (attempts db)" for r
  proof -
    have "x \<notin> a_id ` set (attempts db)" using uniq a(1) by auto
    with that show ?thesis by blast
  qed
  have "follows a [t]" using t a by (simp add: follows_def history_step_def)
  then have "\<forall>r \<in> set (attempts db'). follows r (history db' (a_id r))"
    using ok others a hist db' rows by (auto simp: history_ok_def)
  with ok uniq db' rows trs t a show ?thesis by (auto simp: history_ok_def)
qed

definition keeps_history :: "db \<Rightarrow> db \<Rightarrow> bool" where
  "keeps_history db db' \<longleftrightarrow> (history_ok db \<longrightarrow> history_ok db')"

lemma keeps_history_frame:
  "attempts db' = attempts db \<Longrightarrow> attempt_transitions db' = attempt_transitions db \<Longrightarrow> keeps_history db db'"
  unfolding keeps_history_def using history_ok_frame by blast

interpretation hist: unit_closed X keeps_history for X
proof
  fix X slot auth lease now db g db'
  assume "reserve X slot auth lease now db = Inr (g, db')"
  then show "keeps_history db db'" by (simp add: keeps_history_def history_reserve)
next
  fix X g "from" to now details "term" db g' db'
  assume "transition X g from to now details term db = Inr (g', db')"
  then show "keeps_history db db'" by (simp add: keeps_history_def history_transition)
next
  fix X g limit now db res db'
  assume "reserve_fresh_time X g limit now db = Inr (res, db')"
  then show "keeps_history db db'"
    by (auto simp: reserve_fresh_time_def Let_def statement_defs split: option.splits if_splits prod.splits
        intro!: keeps_history_frame)
qed (simp add: keeps_history_def, simp add: keeps_history_def,
   (rule keeps_history_frame; auto simp: update_leases_def Let_def statement_defs split: if_splits)+)

lemma reachable_history_ok: "reachable X db \<Longrightarrow> history_ok db"
proof (induction rule: reachable.induct)
  case (reach_new version)
  then show ?case by (simp add: history_ok_def empty_db_def)
next
  case (reach_step db db')
  then show ?case using hist.step_closed by (simp add: keeps_history_def)
qed

end
