(* ===== verification/Run_Safety.thy ===== *)
theory Run_Safety
  imports Run_History
begin

text \<open>
  Invariants of the stored tables beside the histories: attempt identities and retry numbering,
  one reservation lease per attempt, claims on live finalizers, gap-free event numbering, and
  selections of valid observations.
\<close>

section \<open>Attempts\<close>

definition slot_retries :: "db \<Rightarrow> string \<Rightarrow> nat set" where
  "slot_retries db slot = set (map a_retry (filter (\<lambda>a. a_slot a = slot) (attempts db)))"

definition attempt_identity :: "externals \<Rightarrow> attempt_row \<Rightarrow> bool" where
  "attempt_identity X a \<longleftrightarrow>
     (\<exists>slot d. a_slot a = slot_text slot \<and> run_attempt_id X slot (a_retry a) = Inr d
        \<and> a_id a = attempt_text d)"

definition attempts_ok :: "externals \<Rightarrow> db \<Rightarrow> bool" where
  "attempts_ok X db \<longleftrightarrow>
     attempts_unique (attempts db)
     \<and> (\<forall>a \<in> set (attempts db). attempt_identity X a \<and> attempt_check a)
     \<and> (\<forall>slot. \<exists>n. slot_retries db slot = {..<n})"

lemma attempts_ok_frame: "attempts db' = attempts db \<Longrightarrow> attempts_ok X db' \<longleftrightarrow> attempts_ok X db"
  by (simp add: attempts_ok_def slot_retries_def)

lemma next_retry_bound:
  assumes "slot_retries db slot = {..<n}" and "next_retry db slot = Inr k"
  shows "k = n"
proof -
  define l where "l = [a_retry a. a \<leftarrow> attempts db, a_slot a = slot]"
  have set: "set l = {..<n}" using assms(1) by (auto simp: slot_retries_def l_def)
  have nr: "next_retry db slot = (case l of [] \<Rightarrow> Inr 0 | r # rs \<Rightarrow>
      (let n = fold max rs r in if n + 1 \<le> I64_MAX then Inr (n + 1) else invalid RetryOverflow))"
    by (simp only: next_retry_def l_def)
  show ?thesis
  proof (cases l)
    case Nil
    with set have "n = 0" by auto
    with Nil assms(2) nr show ?thesis by simp
  next
    case (Cons r rs)
    with set have "set (r # rs) = {..<n}" by simp
    moreover from this obtain m where "n = Suc m" by (cases n) auto
    moreover have "Max {..<Suc m} = m" by (intro Max_eqI) auto
    moreover have "k = fold max rs r + 1"
      using Cons assms(2) nr by (auto simp: Let_def split: if_splits)
    ultimately show ?thesis by (metis Max.set_eq_fold Suc_eq_plus1)
  qed
qed

lemma reserve_Ok:
  assumes "reserve X slot auth lease now db = Inr (g, db')"
  obtains d n db1 db2 details where
    "next_retry db (slot_text slot) = Inr n" "authorize auth n = Inr ()"
    "run_attempt_id X slot n = Inr d" "check_reservation X db (slot_text slot) = Inr ()"
    "\<not> satisfied db (slot_text slot)" "validate_lease lease now = Inr ()"
    "insert_attempt (new_attempt (attempt_text d) (slot_text slot) n now) db = Inr db1"
    "insert_lease (attempt_text d) Reservation lease now db1 = Inr db2"
    "append_transition X (attempt_text d) None Reserved 0 now details db2 = Inr db'"
    "g = \<lparr>g_id = d, g_slot = slot, g_retry = n, g_revision = 0, g_updated = now,
       g_lease = lr_id lease, g_owner = lr_owner lease\<rparr>"
  using assms by (auto simp: reserve_def split: if_splits)

lemma insert_event_frame:
  "insert_event X x now kind payload db = Inr (n, db') \<Longrightarrow>
     db' = db\<lparr>event_seq := event_seq db', events := events db'\<rparr>"
  by (auto simp: insert_event_def split: if_splits)

lemma append_transition_frame:
  "append_transition X x from to n now details db = Inr db' \<Longrightarrow>
     db' = db\<lparr>event_seq := event_seq db', events := events db', attempt_transitions := attempt_transitions db'\<rparr>"
  by (auto simp: append_transition_def insert_event_def insert_transition_def split: if_splits)

lemma reserve_rows:
  assumes "reserve X slot auth lease now db = Inr (g, db')"
  shows "attempts db' = attempts db @ [new_attempt (aid g) (sid g) (g_retry g) now]"
    and "leases db' = leases db @ [\<lparr>l_id = g_lease g, l_owner = g_owner g, l_attempt = Some (aid g),
         l_purpose = Reservation, l_staging = None, l_acquired = now, l_expires = lr_expires lease,
         l_released = None\<rparr>]"
    and "finalization_claims db' = finalization_claims db"
    and "attempts_unique (attempts db')" and "leases_unique (leases db')"
    and "next_retry db (sid g) = Inr (g_retry g)" and "run_attempt_id X (g_slot g) (g_retry g) = Inr (g_id g)"
    and "g_slot g = slot" and "g_revision g = 0" and "g_updated g = now"
proof -
  from assms obtain d n db1 db2 details where
    n: "next_retry db (slot_text slot) = Inr n" and d: "run_attempt_id X slot n = Inr d"
    and ins: "insert_attempt (new_attempt (attempt_text d) (slot_text slot) n now) db = Inr db1"
    and lse: "insert_lease (attempt_text d) Reservation lease now db1 = Inr db2"
    and app: "append_transition X (attempt_text d) None Reserved 0 now details db2 = Inr db'"
    and g: "g = \<lparr>g_id = d, g_slot = slot, g_retry = n, g_revision = 0, g_updated = now,
       g_lease = lr_id lease, g_owner = lr_owner lease\<rparr>"
    by (rule reserve_Ok)
  have "attempts db' = attempts db2" "leases db' = leases db2" "finalization_claims db' = finalization_claims db2"
    using append_transition_frame [OF app] by (metis db.select_convs db.surjective db.update_convs)+
  then show "attempts db' = attempts db @ [new_attempt (aid g) (sid g) (g_retry g) now]"
    and "leases db' = leases db @ [\<lparr>l_id = g_lease g, l_owner = g_owner g, l_attempt = Some (aid g),
         l_purpose = Reservation, l_staging = None, l_acquired = now, l_expires = lr_expires lease,
         l_released = None\<rparr>]"
    and "finalization_claims db' = finalization_claims db"
    and "attempts_unique (attempts db')" and "leases_unique (leases db')"
    using ins lse g by (auto simp: insert_attempt_def insert_lease_def insert_lease_row_def split: if_splits)
  from n d g show "next_retry db (sid g) = Inr (g_retry g)" "run_attempt_id X (g_slot g) (g_retry g) = Inr (g_id g)"
    "g_slot g = slot" "g_revision g = 0" "g_updated g = now" by simp_all
qed

lemma attempts_ok_reserve:
  assumes ok: "attempts_ok X db" and res: "reserve X slot auth lease now db = Inr (g, db')"
  shows "attempts_ok X db'"
proof -
  note rows = reserve_rows [OF res]
  let ?a = "new_attempt (aid g) (sid g) (g_retry g) now"
  have a: "a_slot ?a = sid g" "a_retry ?a = g_retry g" by (simp_all add: new_attempt_def)
  have "attempt_identity X ?a \<and> attempt_check ?a"
    using rows(7) by (auto simp: attempt_identity_def attempt_check_def new_attempt_def terminal_state_def)
  moreover have "\<exists>n. slot_retries db' s = {..<n}" for s
  proof -
    from ok obtain n where n: "slot_retries db s = {..<n}" unfolding attempts_ok_def by blast
    show ?thesis
    proof (cases "s = sid g")
      case True
      with next_retry_bound [OF n] rows(6) have "g_retry g = n" by simp
      moreover have "slot_retries db' s = insert (g_retry g) (slot_retries db s)"
        using rows(1) True a by (simp add: slot_retries_def)
      ultimately have "slot_retries db' s = {..<Suc n}" using n by (simp add: lessThan_Suc)
      then show ?thesis by blast
    next
      case False
      then have "slot_retries db' s = slot_retries db s"
        using rows(1) a by (simp add: slot_retries_def)
      with n show ?thesis by blast
    qed
  qed
  ultimately show ?thesis
    using ok rows(1,4) by (auto simp: attempts_ok_def)
qed

lemma transition_frame:
  assumes "transition X g from to now details term db = Inr (g', db')"
  shows "db' = db\<lparr>event_seq := event_seq db', events := events db',
      attempt_transitions := attempt_transitions db', attempts := attempts db'\<rparr>"
    and "attempts db' = map (\<lambda>r. if a_id r = aid g \<and> a_revision r = g_revision g
      then project to (g_revision g + 1) (max now (g_updated g)) term r else r) (attempts db)"
    and "attempts_unique (attempts db')"
    and "\<And>r. r \<in> set (attempts db) \<Longrightarrow> a_id r = aid g \<Longrightarrow> a_revision r = g_revision g \<Longrightarrow>
      attempt_check (project to (g_revision g + 1) (max now (g_updated g)) term r)
      \<and> \<not> attempt_update_aborts db r (project to (g_revision g + 1) (max now (g_updated g)) term r)"
proof -
  from assms obtain db1 a where
    app: "append_transition X (aid g) (Some from) to (g_revision g + 1) (max now (g_updated g)) details db = Inr db1"
    and upd: "update_attempt (aid g) (g_revision g) (project to (g_revision g + 1) (max now (g_updated g)) term) db1
       = Inr (1, db')"
    by (rule transition_Ok)
  note fr = append_transition_frame [OF app] and ok = update_attempt_Ok [OF upd]
  have same: "attempts db1 = attempts db" "finalization_claims db1 = finalization_claims db"
    by (subst fr, simp)+
  show "db' = db\<lparr>event_seq := event_seq db', events := events db',
      attempt_transitions := attempt_transitions db', attempts := attempts db'\<rparr>"
    using fr ok(1) by (simp add: same)
  show "attempts db' = map (\<lambda>r. if a_id r = aid g \<and> a_revision r = g_revision g
      then project to (g_revision g + 1) (max now (g_updated g)) term r else r) (attempts db)"
    using ok(1) same by simp
  show "attempts_unique (attempts db')" by (rule ok(4))
  fix r assume "r \<in> set (attempts db)" "a_id r = aid g" "a_revision r = g_revision g"
  with ok(3) [of r] same show
    "attempt_check (project to (g_revision g + 1) (max now (g_updated g)) term r)
      \<and> \<not> attempt_update_aborts db r (project to (g_revision g + 1) (max now (g_updated g)) term r)"
    by (simp add: attempt_update_aborts_def)
qed

lemma project_keeps [simp]:
  "a_id (project to n now term r) = a_id r" "a_slot (project to n now term r) = a_slot r"
  "a_retry (project to n now term r) = a_retry r" "a_state (project to n now term r) = to"
  "a_revision (project to n now term r) = n" "a_updated (project to n now term r) = now"
  by (simp_all add: project_def)

lemma attempts_ok_transition:
  assumes ok: "attempts_ok X db" and tr: "transition X g from to now details term db = Inr (g', db')"
  shows "attempts_ok X db'"
proof -
  note fr = transition_frame [OF tr]
  define f where "f = (\<lambda>r. if a_id r = aid g \<and> a_revision r = g_revision g
      then project to (g_revision g + 1) (max now (g_updated g)) term r else r)"
  have rows: "attempts db' = map f (attempts db)" using fr(2) by (simp add: f_def)
  have keeps: "a_id (f r) = a_id r" "a_slot (f r) = a_slot r" "a_retry (f r) = a_retry r" for r
    by (simp_all add: f_def)
  have "attempt_identity X (f r) \<and> attempt_check (f r)" if "r \<in> set (attempts db)" for r
    using that ok fr(4) [of r] unfolding attempts_ok_def attempt_identity_def keeps by (auto simp: f_def)
  moreover have "slot_retries db' s = slot_retries db s" for s
    by (simp add: slot_retries_def rows filter_map comp_def keeps)
  ultimately show ?thesis
    using ok fr(3) rows by (auto simp: attempts_ok_def)
qed

section \<open>Leases\<close>

definition leases_ok :: "db \<Rightarrow> bool" where
  "leases_ok db \<longleftrightarrow>
     distinct (map l_id (leases db))
     \<and> distinct (map l_attempt (filter (\<lambda>l. l_purpose l = Reservation) (leases db)))
     \<and> (\<forall>l \<in> set (leases db). lease_check l)
     \<and> (\<forall>l \<in> set (leases db). \<forall>x. l_attempt l = Some x \<longrightarrow> x \<in> a_id ` set (attempts db))"

lemma attempt_ids_evolve: "evolves db db' \<Longrightarrow> a_id ` set (attempts db) \<subseteq> a_id ` set (attempts db')"
proof
  fix x assume ev: "evolves db db'" and "x \<in> a_id ` set (attempts db)"
  then obtain a where a: "a \<in> set (attempts db)" "x = a_id a" by blast
  from ev have "extends attempt_le (attempts db) (attempts db')" by (simp add: evolves_def)
  from extends_mem [OF this a(1)] obtain a' where "a' \<in> set (attempts db')" "a_id a' = a_id a"
    by (auto simp: attempt_le_def)
  with a(2) show "x \<in> a_id ` set (attempts db')" by (metis imageI)
qed

lemma leases_ok_frame:
  "leases db' = leases db \<Longrightarrow> evolves db db' \<Longrightarrow> leases_ok db \<Longrightarrow> leases_ok db'"
  using attempt_ids_evolve [of db db'] by (auto simp: leases_ok_def)

lemma leases_ok_reserve:
  assumes ok: "leases_ok db" and res: "reserve X slot auth lease now db = Inr (g, db')"
  shows "leases_ok db'"
proof -
  note rows = reserve_rows [OF res]
  have fresh: "aid g \<notin> a_id ` set (attempts db)"
    using rows(1,4) by (auto simp: attempts_unique_def new_attempt_def)
  then have "Some (aid g) \<notin> l_attempt ` set (leases db)" using ok by (auto simp: leases_ok_def)
  moreover have "lease_check (last (leases db'))"
    using res rows(2) by (auto simp: reserve_def insert_lease_def insert_lease_row_def split: if_splits)
  moreover have "aid g \<in> a_id ` set (attempts db')" using rows(1) by (simp add: new_attempt_def)
  moreover have "a_id ` set (attempts db) \<subseteq> a_id ` set (attempts db')" using rows(1) by auto
  ultimately show ?thesis
    using ok rows(2,5) unfolding leases_ok_def leases_unique_def by auto
qed

lemma leases_ok_insert:
  assumes "leases_ok db" and "insert_lease_row l db = Inr db'" and "l_purpose l \<noteq> Reservation"
  shows "leases_ok db'"
  using assms unfolding leases_ok_def
  by (auto simp: insert_lease_row_def leases_unique_def attempt_exists_def list_ex_iff split: option.splits)

lemma leases_ok_update:
  assumes ok: "leases_ok db" and upd: "update_leases hit f db = Inr (n, db')"
  shows "leases_ok db'"
proof -
  from upd have db': "db' = db\<lparr>leases := map (\<lambda>l. if hit l then f l else l) (leases db)\<rparr>"
    and le: "\<And>l. l \<in> set (leases db) \<Longrightarrow> hit l \<Longrightarrow> \<not> lease_update_aborts l (f l) \<and> lease_check (f l)"
    by (auto simp: update_leases_def Let_def list_ex_iff list_all_iff split: if_splits)
  define h where "h = (\<lambda>l. if hit l then f l else l)"
  have same: "l_id (h l) = l_id l \<and> l_attempt (h l) = l_attempt l \<and> l_purpose (h l) = l_purpose l"
    if "l \<in> set (leases db)" for l
    using le [OF that] by (auto simp: h_def lease_update_aborts_def)
  have "map l_id (map h (leases db)) = map l_id (leases db)"
    using same by (simp cong: map_cong)
  moreover have "map l_attempt (filter (\<lambda>l. l_purpose l = Reservation) (map h (leases db)))
      = map l_attempt (filter (\<lambda>l. l_purpose l = Reservation) (leases db))"
    using same by (induction "leases db") (simp_all add: filter_map comp_def cong: map_cong filter_cong)
  moreover have "lease_check (h l)" if "l \<in> set (leases db)" for l
    using that le [OF that] ok by (auto simp: h_def leases_ok_def)
  moreover have "leases db' = map h (leases db)" "attempts db' = attempts db"
    by (simp_all add: db' h_def)
  ultimately show ?thesis
    using ok same unfolding leases_ok_def by (simp del: map_map)
qed

section \<open>Claims\<close>

definition claim_ok :: "db \<Rightarrow> claim_row \<Rightarrow> bool" where
  "claim_ok db c \<longleftrightarrow>
     (\<exists>a \<in> set (attempts db). a_id a = c_attempt c \<and> a_slot a = c_slot c
        \<and> (a_state a = Finalizing \<or> terminal_state (a_state a)))
     \<and> (\<exists>l \<in> set (leases db). l_id l = c_lease c \<and> l_attempt l = Some (c_attempt c)
        \<and> l_purpose l = Finalization)"

definition claims_ok :: "db \<Rightarrow> bool" where
  "claims_ok db \<longleftrightarrow>
     distinct (map c_slot (finalization_claims db)) \<and> distinct (map c_attempt (finalization_claims db))
     \<and> (\<forall>c \<in> set (finalization_claims db). claim_ok db c)"

text \<open>A finalizing attempt can only become terminal.\<close>

lemma transition_edge:
  assumes ok: "history_ok db" and tr: "transition X g from to now details term db = Inr (g', db')"
    and a: "a \<in> set (attempts db)" "a_id a = aid g" "a_revision a = g_revision g"
  shows "legal_edge (a_state a) to"
proof -
  let ?rv = "g_revision g"
  let ?a' = "project to (?rv + 1) (max now (g_updated g)) term a"
  have ok': "history_ok db'" using history_transition [OF ok tr] .
  have "?a' \<in> set (attempts db')" using transition_frame(2) [OF tr] a by force
  with ok' have f': "follows ?a' (history db' (aid g))" using a by (auto simp: history_ok_def)
  from ok a have f: "follows a (history db (aid g))" by (auto simp: history_ok_def)
  from evolves_transition [OF tr] have pre: "take (length (attempt_transitions db)) (attempt_transitions db') = attempt_transitions db"
    by (simp add: evolves_def extends_eq_prefix)
  then obtain rest where "attempt_transitions db' = attempt_transitions db @ rest"
    by (metis append_take_drop_id)
  then have "history db' (aid g) ! ?rv = history db (aid g) ! ?rv"
    using f a by (simp add: history_def follows_def nth_append)
  moreover have "history_step (history db' (aid g)) (Suc ?rv)" and "t_to (history db' (aid g) ! Suc ?rv) = to"
    using f' by (simp_all add: follows_def)
  moreover have "t_to (history db (aid g) ! ?rv) = a_state a" using f a by (simp add: follows_def)
  ultimately show ?thesis by (simp add: history_step_def)
qed

lemma legal_edge_Finalizing: "legal_edge Finalizing to \<longleftrightarrow> terminal_state to"
  by (auto simp: legal_edge_def terminal_state_def)

lemma claims_ok_transition:
  assumes h: "history_ok db" and ok: "claims_ok db"
    and tr: "transition X g from to now details term db = Inr (g', db')"
  shows "claims_ok db'"
proof -
  note fr = transition_frame [OF tr]
  have same: "finalization_claims db' = finalization_claims db" "leases db' = leases db"
    by (subst fr(1), simp)+
  have "claim_ok db' c" if "c \<in> set (finalization_claims db)" for c
  proof -
    from that ok obtain a where a: "a \<in> set (attempts db)" "a_id a = c_attempt c" "a_slot a = c_slot c"
      "a_state a = Finalizing \<or> terminal_state (a_state a)"
      and l: "\<exists>l \<in> set (leases db). l_id l = c_lease c \<and> l_attempt l = Some (c_attempt c) \<and> l_purpose l = Finalization"
      by (auto simp: claims_ok_def claim_ok_def)
    show ?thesis
    proof (cases "a_id a = aid g \<and> a_revision a = g_revision g")
      case True
      let ?a' = "project to (g_revision g + 1) (max now (g_updated g)) term a"
      have "\<not> terminal_state (a_state a)"
        using fr(4) [OF a(1)] True by (simp add: attempt_update_aborts_def)
      with a(4) transition_edge [OF h tr a(1)] True have "terminal_state to"
        by (simp add: legal_edge_Finalizing)
      moreover have "?a' \<in> set (attempts db')" using fr(2) a(1) True by force
      ultimately show ?thesis using a l same unfolding claim_ok_def by (metis project_keeps(1,2,4))
    next
      case False
      with fr(2) a(1) have "a \<in> set (attempts db')" by force
      with a l same show ?thesis unfolding claim_ok_def by metis
    qed
  qed
  with ok same show ?thesis by (simp add: claims_ok_def)
qed

lemma claim_ok_grow:
  "claim_ok db c \<Longrightarrow> set (attempts db) \<subseteq> set (attempts db') \<Longrightarrow>
     (\<And>l. l \<in> set (leases db) \<Longrightarrow> \<exists>l' \<in> set (leases db'). lease_le l l') \<Longrightarrow> claim_ok db' c"
  unfolding claim_ok_def lease_le_def by (metis subsetD)

lemma claims_ok_frame:
  assumes "claims_ok db" and "evolves db db'" and "set (attempts db) \<subseteq> set (attempts db')"
    and "finalization_claims db' = finalization_claims db"
  shows "claims_ok db'"
proof -
  have "extends lease_le (leases db) (leases db')" using assms(2) by (simp add: evolves_def)
  from extends_mem [OF this] assms show ?thesis
    by (auto simp: claims_ok_def intro: claim_ok_grow)
qed

lemma claims_ok_insert:
  assumes "claims_ok db" and "insert_claim c db = Inr db'" and ids: "distinct (map a_id (attempts db))"
  shows "claims_ok db'"
proof -
  from assms(2) have db': "db' = db\<lparr>finalization_claims := finalization_claims db @ [c]\<rparr>"
    and d: "distinct (map c_slot (finalization_claims db @ [c]))" "distinct (map c_attempt (finalization_claims db @ [c]))"
    and ex: "\<exists>a \<in> set (attempts db). a_id a = c_attempt c \<and> a_state a = Finalizing"
      "\<exists>a \<in> set (attempts db). a_id a = c_attempt c \<and> a_slot a = c_slot c"
      "\<exists>l \<in> set (leases db). l_id l = c_lease c \<and> l_attempt l = Some (c_attempt c) \<and> l_purpose l = Finalization"
    by (auto simp: insert_claim_def list_ex_iff split: if_splits)
  from ex(1,2) ids have "\<exists>a \<in> set (attempts db). a_id a = c_attempt c \<and> a_slot a = c_slot c \<and> a_state a = Finalizing"
    by (metis (no_types, lifting) distinct_map inj_onD)
  with ex(3) have "claim_ok db c" unfolding claim_ok_def by blast
  with assms(1) d db' show ?thesis by (auto simp: claims_ok_def claim_ok_def)
qed

section \<open>Events and selections\<close>

definition events_ok :: "db \<Rightarrow> bool" where
  "events_ok db \<longleftrightarrow> map ev_sequence (events db) = [1..<Suc (event_seq db)]"

definition selections_ok :: "db \<Rightarrow> bool" where
  "selections_ok db \<longleftrightarrow>
     distinct (map s_slot (selected_observations db))
     \<and> (\<forall>s \<in> set (selected_observations db). \<exists>r \<in> set (observations db).
          o_id r = s_observation s \<and> o_slot r = s_slot s \<and> o_valid r)"

lemma events_ok_insert:
  "events_ok db \<Longrightarrow> insert_event X x now kind payload db = Inr (n, db') \<Longrightarrow> events_ok db'"
  by (auto simp: events_ok_def insert_event_def split: if_splits)

lemma events_ok_frame:
  "events db' = events db \<Longrightarrow> event_seq db' = event_seq db \<Longrightarrow> events_ok db \<Longrightarrow> events_ok db'"
  by (simp add: events_ok_def)

lemma events_ok_append:
  "events_ok db \<Longrightarrow> append_transition X x from to n now details db = Inr db' \<Longrightarrow> events_ok db'"
  by (auto simp: append_transition_def insert_transition_def dest: events_ok_insert intro: events_ok_frame)

lemma events_ok_transition:
  assumes "events_ok db" and "transition X g from to now details term db = Inr (g', db')"
  shows "events_ok db'"
proof -
  from assms(2) obtain db1 where
    app: "append_transition X (aid g) (Some from) to (g_revision g + 1) (max now (g_updated g)) details db = Inr db1"
    and upd: "update_attempt (aid g) (g_revision g) (project to (g_revision g + 1) (max now (g_updated g)) term) db1
       = Inr (1, db')"
    by (rule transition_Ok)
  from events_ok_append [OF assms(1) app] update_attempt_Ok(1) [OF upd] show ?thesis
    by (auto intro: events_ok_frame)
qed

lemma events_ok_reserve:
  assumes "events_ok db" and "reserve X slot auth lease now db = Inr (g, db')"
  shows "events_ok db'"
proof -
  from assms(2) obtain x n db1 db2 details where
    ins: "insert_attempt (new_attempt x (slot_text slot) n now) db = Inr db1"
    and lse: "insert_lease x Reservation lease now db1 = Inr db2"
    and app: "append_transition X x None Reserved 0 now details db2 = Inr db'"
    by (auto simp: reserve_def split: if_splits)
  from ins lse have "events_ok db2"
    using assms(1) by (auto simp: insert_attempt_def insert_lease_def insert_lease_row_def events_ok_def split: if_splits)
  then show ?thesis using app by (rule events_ok_append)
qed

lemma selections_ok_frame:
  "selections_ok db \<Longrightarrow> selected_observations db' = selected_observations db \<Longrightarrow>
     set (observations db) \<subseteq> set (observations db') \<Longrightarrow> selections_ok db'"
  unfolding selections_ok_def by (metis subsetD)

lemma selections_ok_insert:
  "selections_ok db \<Longrightarrow> insert_selection s db = Inr db' \<Longrightarrow> selections_ok db'"
  by (auto simp: insert_selection_def selections_ok_def list_ex_iff split: if_splits)

section \<open>The store invariant\<close>

definition store_ok :: "externals \<Rightarrow> db \<Rightarrow> bool" where
  "store_ok X db \<longleftrightarrow>
     history_ok db \<and> attempts_ok X db \<and> leases_ok db \<and> claims_ok db \<and> events_ok db \<and> selections_ok db"

definition keeps_ok :: "externals \<Rightarrow> db \<Rightarrow> db \<Rightarrow> bool" where
  "keeps_ok X db db' \<longleftrightarrow> (store_ok X db \<longrightarrow> store_ok X db')"

text \<open>Statements that leave attempts, history, leases, claims, events and selections alone.\<close>

lemma keeps_ok_frame:
  assumes "evolves db db'" "attempts db' = attempts db" "attempt_transitions db' = attempt_transitions db"
    "leases db' = leases db" "finalization_claims db' = finalization_claims db" "events db' = events db"
    "event_seq db' = event_seq db" "selected_observations db' = selected_observations db"
    "set (observations db) \<subseteq> set (observations db')"
  shows "keeps_ok X db db'"
  unfolding keeps_ok_def store_ok_def
  using assms history_ok_frame [of db' db] attempts_ok_frame [of db' db X] leases_ok_frame [of db' db]
    claims_ok_frame [of db db'] events_ok_frame [of db' db] selections_ok_frame [of db db']
  by simp

lemma keeps_ok_reserve: "reserve X slot auth lease now db = Inr (g, db') \<Longrightarrow> keeps_ok X db db'"
proof -
  assume res: "reserve X slot auth lease now db = Inr (g, db')"
  note rows = reserve_rows [OF res] and ev = evolves_reserve [OF res]
  have "selected_observations db' = selected_observations db" "observations db' = observations db"
    using res by (auto simp: reserve_def insert_attempt_def insert_lease_def insert_lease_row_def
        append_transition_def insert_event_def insert_transition_def split: if_splits)
  then show ?thesis
    unfolding keeps_ok_def store_ok_def
    using history_reserve [OF _ res] attempts_ok_reserve [OF _ res] leases_ok_reserve [OF _ res]
      claims_ok_frame [OF _ ev] events_ok_reserve [OF _ res] selections_ok_frame [of db db'] rows(1,3)
    by auto
qed

lemma keeps_ok_transition:
  assumes tr: "transition X g from to now details term db = Inr (g', db')"
  shows "keeps_ok X db db'"
proof -
  have "leases db' = leases db" "selected_observations db' = selected_observations db"
    "observations db' = observations db"
    by (subst transition_frame(1) [OF tr], simp)+
  then show ?thesis
    unfolding keeps_ok_def store_ok_def
    using history_transition [OF _ tr] attempts_ok_transition [OF _ tr]
      leases_ok_frame [OF _ evolves_transition [OF tr]] claims_ok_transition [OF _ _ tr]
      events_ok_transition [OF _ tr] selections_ok_frame [of db db']
    by auto
qed

lemma keeps_ok_event:
  assumes ev: "insert_event X x now kind payload db = Inr (n, db')"
  shows "keeps_ok X db db'"
proof -
  have "attempts db' = attempts db" "attempt_transitions db' = attempt_transitions db" "leases db' = leases db"
    "finalization_claims db' = finalization_claims db" "selected_observations db' = selected_observations db"
    "observations db' = observations db"
    using ev by (auto simp: insert_event_def split: if_splits)
  then show ?thesis
    unfolding keeps_ok_def store_ok_def
    using events_ok_insert [OF _ ev] history_ok_frame [of db' db] attempts_ok_frame [of db' db X]
      leases_ok_frame [of db' db] claims_ok_frame [of db db'] selections_ok_frame [of db db']
      evolves_insert_event [OF ev] by auto
qed

lemma keeps_ok_leases:
  assumes "attempts db' = attempts db" "attempt_transitions db' = attempt_transitions db"
    "finalization_claims db' = finalization_claims db" "events db' = events db" "event_seq db' = event_seq db"
    "selected_observations db' = selected_observations db" "observations db' = observations db"
    "evolves db db'" "leases_ok db \<Longrightarrow> leases_ok db'"
  shows "keeps_ok X db db'"
  unfolding keeps_ok_def store_ok_def
  using assms history_ok_frame [of db' db] attempts_ok_frame [of db' db X]
    claims_ok_frame [of db db'] events_ok_frame [of db' db] selections_ok_frame [of db db']
  by simp

lemma keeps_ok_lease:
  "insert_lease_row l db = Inr db' \<Longrightarrow> l_purpose l \<noteq> Reservation \<Longrightarrow> keeps_ok X db db'"
  using leases_ok_insert [of db l db'] evolves_insert_lease_row [of l db db']
  by (intro keeps_ok_leases) (auto simp: insert_lease_row_def)

lemma keeps_ok_update_leases: "update_leases hit f db = Inr (n, db') \<Longrightarrow> keeps_ok X db db'"
  using leases_ok_update [of db hit f n db'] evolves_update_leases [of hit f db n db']
  by (intro keeps_ok_leases) (auto simp: update_leases_def Let_def split: if_splits)

lemma keeps_ok_claims:
  assumes "attempts db' = attempts db" "attempt_transitions db' = attempt_transitions db"
    "leases db' = leases db" "events db' = events db" "event_seq db' = event_seq db"
    "selected_observations db' = selected_observations db" "observations db' = observations db"
    "evolves db db'" "history_ok db \<Longrightarrow> claims_ok db \<Longrightarrow> claims_ok db'"
  shows "keeps_ok X db db'"
  unfolding keeps_ok_def store_ok_def
  using assms history_ok_frame [of db' db] attempts_ok_frame [of db' db X] leases_ok_frame [of db' db]
    events_ok_frame [of db' db] selections_ok_frame [of db db']
  by simp

lemma keeps_ok_claim: "insert_claim c db = Inr db' \<Longrightarrow> keeps_ok X db db'"
  using claims_ok_insert [of db c db'] grows.claim_closed [of c db db']
  by (intro keeps_ok_claims) (auto simp: insert_claim_def history_ok_def split: if_splits)

lemma keeps_ok_unclaim: "delete_claims x db = Inr db' \<Longrightarrow> keeps_ok X db db'"
  using grows.unclaim_closed [of x db db']
  by (intro keeps_ok_claims)
    (auto simp: delete_claims_def claims_ok_def claim_ok_def distinct_map_filter split: if_splits)

lemma keeps_ok_selection: "insert_selection s db = Inr db' \<Longrightarrow> keeps_ok X db db'"
proof -
  assume ins: "insert_selection s db = Inr db'"
  then have "attempts db' = attempts db" "attempt_transitions db' = attempt_transitions db"
    "leases db' = leases db" "finalization_claims db' = finalization_claims db" "events db' = events db"
    "event_seq db' = event_seq db"
    by (auto simp: insert_selection_def split: if_splits)
  with ins show ?thesis
    unfolding keeps_ok_def store_ok_def
    using history_ok_frame [of db' db] attempts_ok_frame [of db' db X] leases_ok_frame [of db' db]
      claims_ok_frame [of db db'] events_ok_frame [of db' db] selections_ok_insert [of db s db']
      grows.selection_closed [of s db db'] by simp
qed

lemma reserve_fresh_time_None:
  assumes "reserve_fresh_time X g limit now db = Inr (res, db')" "fresh_membership db (sid g) = None"
  shows "res = None \<and> db' = db"
  using assms by (auto simp: reserve_fresh_time_def)

lemma reserve_fresh_time_Some:
  assumes "reserve_fresh_time X g limit now db = Inr (res, db')"
    "fresh_membership db (sid g) = Some (run, index)"
  shows "\<exists>total used reserved. allowance X db run index = Inr (total, used)
    \<and> res = Some reserved \<and> 0 < reserved \<and> reserved \<le> total - used \<and> is_ok (fence g now db)
    \<and> (\<forall>p. limit = Some p \<longrightarrow> reserved \<le> p)
    \<and> insert_fresh_budget \<lparr>b_attempt = aid g, b_reserved = reserved, b_charged = None\<rparr> db = Inr db'"
proof -
  obtain st where st: "fence g now db = Inr st" and tn: "timestamp now = Inr now"
    using assms by (auto simp: reserve_fresh_time_def timestamp_def split: if_splits)
  obtain total used where al: "allowance X db run index = Inr (total, used)"
    using assms st tn by (auto simp: reserve_fresh_time_def)
  define reserved where
    "reserved = min (total - used) (case limit of None \<Rightarrow> total - used | Some p \<Rightarrow> p)"
  have "reserved \<noteq> 0" "res = Some reserved"
    "insert_fresh_budget \<lparr>b_attempt = aid g, b_reserved = reserved, b_charged = None\<rparr> db = Inr db'"
    using assms st tn al
    by (auto simp: reserve_fresh_time_def Let_def reserved_def [symmetric] timestamp_def
        commit_def split: if_splits)
  moreover have "reserved \<le> total - used" "\<And>p. limit = Some p \<Longrightarrow> reserved \<le> p"
    by (simp_all add: reserved_def)
  ultimately show ?thesis using al st by simp
qed

lemma keeps_ok_fresh_time: "reserve_fresh_time X g limit now db = Inr (res, db') \<Longrightarrow> keeps_ok X db db'"
proof -
  assume res: "reserve_fresh_time X g limit now db = Inr (res, db')"
  have "db' = db \<or> (\<exists>b. insert_fresh_budget b db = Inr db')"
  proof (cases "fresh_membership db (sid g)")
    case None
    then show ?thesis using reserve_fresh_time_None [OF res] by simp
  next
    case (Some ri)
    then show ?thesis using reserve_fresh_time_Some [OF res, of "fst ri" "snd ri"] by auto
  qed
  then show ?thesis
    using grows.fresh_time_closed [OF res] by (intro keeps_ok_frame) (auto simp: insert_fresh_budget_def)
qed

lemma keeps_ok_artifact: "insert_artifact r db = Inr db' \<Longrightarrow> keeps_ok X db db'"
  by (rule keeps_ok_frame [OF grows.artifact_closed]) (auto simp: statement_defs)

lemma keeps_ok_attempt_artifact: "insert_attempt_artifact x role art db = Inr db' \<Longrightarrow> keeps_ok X db db'"
  by (rule keeps_ok_frame [OF grows.attempt_artifact_closed]) (auto simp: statement_defs)

lemma keeps_ok_leased_artifact: "insert_leased_artifact lid art db = Inr db' \<Longrightarrow> keeps_ok X db db'"
  by (rule keeps_ok_frame [OF grows.leased_artifact_closed]) (auto simp: statement_defs split: if_splits)

lemma keeps_ok_observation: "insert_observation X ob db = Inr db' \<Longrightarrow> keeps_ok X db db'"
  by (rule keeps_ok_frame [OF grows.observation_closed]) (auto simp: statement_defs)

lemma keeps_ok_disposition: "insert_disposition d db = Inr db' \<Longrightarrow> keeps_ok X db db'"
  by (rule keeps_ok_frame [OF grows.disposition_closed]) (auto simp: statement_defs split: if_splits)

lemma keeps_ok_charge: "update_fresh_charge x m db = Inr db' \<Longrightarrow> keeps_ok X db db'"
  by (rule keeps_ok_frame [OF grows.charge_closed]) (auto simp: statement_defs split: if_splits)

lemma keeps_ok_applicability: "insert_applicability X ap db = Inr db' \<Longrightarrow> keeps_ok X db db'"
  by (rule keeps_ok_frame [OF grows.applicability_closed]) (auto simp: statement_defs split: if_splits)

lemma keeps_ok_run: "insert_run X ru db = Inr db' \<Longrightarrow> keeps_ok X db db'"
  by (rule keeps_ok_frame [OF grows.run_closed]) (auto simp: statement_defs split: if_splits)

lemma keeps_ok_slot: "insert_slot X sl db = Inr db' \<Longrightarrow> keeps_ok X db db'"
  by (rule keeps_ok_frame [OF grows.slot_closed]) (auto simp: statement_defs split: if_splits)

lemma keeps_ok_observation_slot: "insert_observation_slot X os db = Inr db' \<Longrightarrow> keeps_ok X db db'"
  by (rule keeps_ok_frame [OF grows.observation_slot_closed]) (auto simp: statement_defs split: if_splits)

lemma keeps_ok_slot_member: "insert_slot_member sm db = Inr db' \<Longrightarrow> keeps_ok X db db'"
  by (rule keeps_ok_frame [OF grows.slot_member_closed]) (auto simp: statement_defs split: if_splits)

lemma keeps_ok_sequence: "insert_fresh_sequence X fs db = Inr db' \<Longrightarrow> keeps_ok X db db'"
  by (rule keeps_ok_frame [OF grows.sequence_closed]) (auto simp: statement_defs split: if_splits)

lemma keeps_ok_member: "insert_fresh_member X fm db = Inr db' \<Longrightarrow> keeps_ok X db db'"
  by (rule keeps_ok_frame [OF evolves_insert_fresh_member]) (auto simp: statement_defs split: if_splits)

lemma keeps_ok_refl: "keeps_ok X db db"
  by (simp add: keeps_ok_def)

lemma keeps_ok_trans: "keeps_ok X db1 db2 \<Longrightarrow> keeps_ok X db2 db3 \<Longrightarrow> keeps_ok X db1 db3"
  by (simp add: keeps_ok_def)

interpretation safe: unit_closed X "keeps_ok X" for X
  by unfold_locales (erule keeps_ok_refl keeps_ok_trans keeps_ok_reserve keeps_ok_transition keeps_ok_event
      keeps_ok_lease keeps_ok_update_leases keeps_ok_claim keeps_ok_unclaim keeps_ok_artifact
      keeps_ok_attempt_artifact keeps_ok_leased_artifact keeps_ok_observation keeps_ok_selection
      keeps_ok_disposition keeps_ok_fresh_time keeps_ok_charge keeps_ok_applicability keeps_ok_run
      keeps_ok_slot keeps_ok_observation_slot keeps_ok_slot_member keeps_ok_sequence keeps_ok_member
      | rule keeps_ok_refl | assumption)+

lemma store_ok_empty: "store_ok X (empty_db version)"
  by (auto simp: store_ok_def empty_db_def history_ok_def attempts_ok_def attempts_unique_def slot_retries_def
      leases_ok_def claims_ok_def events_ok_def selections_ok_def)

lemma reachable_store_ok: "reachable X db \<Longrightarrow> store_ok X db"
proof (induction rule: reachable.induct)
  case (reach_step db db')
  then show ?case using safe.step_closed by (simp add: keeps_ok_def)
qed (rule store_ok_empty)

lemma reachable_steps:
  assumes "store_steps X db db'" "reachable X db"
  shows "reachable X db'"
  using assms by (induction rule: rtranclp_induct) (auto intro: reach_step)

lemma fence_Ok:
  assumes "fence g now db = Inr st"
  obtains a l where "a \<in> set (attempts db)" "fence_attempt g a" "a_state a = st"
    "l \<in> set (leases db)" "fence_lease g (max now (g_updated g)) l"
    "\<not> foreign_claim g (max now (g_updated g)) db"
proof -
  from assms have "query_optional
      [a_state a. a \<leftarrow> attempts db, fence_attempt g a,
         l \<leftarrow> leases db, fence_lease g (max now (g_updated g)) l \<and> \<not> foreign_claim g (max now (g_updated g)) db]
      = Some st"
    by (auto simp: fence_def Let_def)
  then have "st \<in> set [a_state a. a \<leftarrow> attempts db, fence_attempt g a,
         l \<leftarrow> leases db, fence_lease g (max now (g_updated g)) l \<and> \<not> foreign_claim g (max now (g_updated g)) db]"
    by (rule query_optional_Some_mem)
  with that show ?thesis by (auto split: if_splits)
qed

end
