(* ===== verification/Run_Budget.thy ===== *)
theory Run_Budget
  imports Run_Safety
begin

text \<open>
  The shared active-time budget of a fresh sequence: what its attempts have reserved and charged
  never exceeds the limit of the sequence's policy, and at most one attempt of the sequence is
  running at any time.
\<close>

section \<open>The used time as a sum over reservations\<close>

definition charged_to :: "db \<Rightarrow> string \<Rightarrow> nat \<Rightarrow> fresh_budget_row \<Rightarrow> nat" where
  "charged_to db run index b =
     sum_list [budget_charge a b. a \<leftarrow> attempts db, a_id a = b_attempt b,
       m \<leftarrow> fresh_members db, fm_slot m = a_slot a \<and> fm_run m = run \<and> fm_index m = index]"

lemma sum_list_of_concat: "sum_list (concat xss) = sum_list (map sum_list xss)" for xss :: "nat list list"
  by (induction xss) auto

lemma used_time_sum: "used_time db run index = sum_list (map (charged_to db run index) (fresh_budget db))"
  unfolding used_time_def budget_rows_def charged_to_def
  by (simp add: sum_list_of_concat map_concat comp_def if_distrib cong: if_cong)

lemma filter_single: "distinct xs \<Longrightarrow> x \<in> set xs \<Longrightarrow> filter (\<lambda>y. y = x) xs = [x]"
  by (induction xs) (auto simp: filter_empty_conv)

lemma filter_unique:
  assumes "distinct (map k xs)" "x \<in> set xs" "P x" "\<And>y. y \<in> set xs \<Longrightarrow> P y \<Longrightarrow> k y = k x"
  shows "filter P xs = [x]"
proof -
  have "P y \<longleftrightarrow> y = x" if "y \<in> set xs" for y
    using that assms by (metis distinct_map inj_onD)
  then have "filter P xs = filter (\<lambda>y. y = x) xs" by (rule filter_cong [OF refl])
  with assms(1,2) show ?thesis by (simp add: filter_single distinct_map)
qed

lemma concat_if: "concat (map (\<lambda>y. if P y then f y else []) xs) = concat (map f (filter P xs))"
  by (induction xs) auto

lemma charged_to_eq:
  assumes ids: "distinct (map a_id (attempts db))" and slots: "distinct (map fm_slot (fresh_members db))"
    and a: "a \<in> set (attempts db)" "a_id a = b_attempt b"
    and m: "m \<in> set (fresh_members db)" "fm_slot m = a_slot a"
  shows "charged_to db run index b = (if fm_run m = run \<and> fm_index m = index then budget_charge a b else 0)"
proof -
  have "filter (\<lambda>y. a_id y = b_attempt b) (attempts db) = [a]"
    using filter_unique [OF ids a(1), of "\<lambda>y. a_id y = b_attempt b"] a(2) by simp
  then have sum: "charged_to db run index b = sum_list (concat (map (\<lambda>m. [budget_charge a b])
      (filter (\<lambda>m. fm_slot m = a_slot a \<and> fm_run m = run \<and> fm_index m = index) (fresh_members db))))"
    unfolding charged_to_def by (simp add: concat_if)
  show ?thesis
  proof (cases "fm_run m = run \<and> fm_index m = index")
    case True
    then have "filter (\<lambda>m. fm_slot m = a_slot a \<and> fm_run m = run \<and> fm_index m = index) (fresh_members db) = [m]"
      using m by (intro filter_unique [OF slots]) auto
    with sum True show ?thesis by simp
  next
    case False
    have "n = m" if "n \<in> set (fresh_members db)" "fm_slot n = a_slot a" for n
      using that m slots by (metis distinct_map inj_onD)
    with False have "filter (\<lambda>m. fm_slot m = a_slot a \<and> fm_run m = run \<and> fm_index m = index) (fresh_members db) = []"
      by (metis (mono_tags, lifting) filter_False)
    with sum False show ?thesis by auto
  qed
qed

section \<open>The invariant\<close>

definition charge_check :: "fresh_budget_row \<Rightarrow> bool" where
  "charge_check b \<longleftrightarrow> (case b_charged b of None \<Rightarrow> True | Some c \<Rightarrow> c \<le> b_reserved b)"

definition budgeted :: "db \<Rightarrow> fresh_budget_row \<Rightarrow> bool" where
  "budgeted db b \<longleftrightarrow> charge_check b
     \<and> (\<exists>a \<in> set (attempts db). a_id a = b_attempt b \<and> (\<exists>m \<in> set (fresh_members db). fm_slot m = a_slot a))"

definition budget_wf :: "db \<Rightarrow> bool" where
  "budget_wf db \<longleftrightarrow>
     distinct (map fm_slot (fresh_members db))
     \<and> distinct (map (\<lambda>s. (fs_run s, fs_index s)) (fresh_sequences db))
     \<and> (\<forall>m \<in> set (fresh_members db). \<exists>s \<in> set (fresh_sequences db). fs_run s = fm_run m \<and> fs_index s = fm_index m)
     \<and> (\<forall>b \<in> set (fresh_budget db). budgeted db b)"

definition within_limit :: "externals \<Rightarrow> db \<Rightarrow> bool" where
  "within_limit X db \<longleftrightarrow>
     (\<forall>run index limit. policy_limit X db run index = Inr limit \<longrightarrow> used_time db run index \<le> limit)"

lemma budget_charge_le: "charge_check b \<Longrightarrow> budget_charge a b \<le> b_reserved b"
  by (auto simp: budget_charge_def charge_check_def split: option.splits)

lemma budget_charge_mono:
  assumes "attempt_le a a'" "attempt_check a" "budget_le b b'" "charge_check b'"
  shows "budget_charge a' b' \<le> budget_charge a b"
proof (cases "a_finished a = None")
  case True
  then show ?thesis using budget_charge_le [OF assms(4), of a'] assms(3) by (simp add: budget_charge_def budget_le_def)
next
  case False
  with assms(1,2) have "a' = a" by (auto simp: attempt_check_def attempt_le_def)
  with assms(3,4) False show ?thesis
    by (auto simp: budget_charge_def budget_le_def charge_check_def split: option.splits)
qed

lemma list_all2_source:
  assumes "list_all2 P xs ys" "y \<in> set ys"
  obtains x where "x \<in> set xs" "P x y"
  using assms by (induction rule: list_all2_induct) auto

lemma sum_list_le_all2:
  "list_all2 (\<lambda>x y. g y \<le> (f x :: nat)) xs ys \<Longrightarrow> sum_list (map g ys) \<le> sum_list (map f xs)"
  by (induction rule: list_all2_induct) auto

lemma used_time_mono:
  assumes ev: "evolves db db'" and len: "length (fresh_budget db') = length (fresh_budget db)"
    and wf: "budget_wf db" "budget_wf db'" and ok: "store_ok X db" "store_ok X db'"
  shows "used_time db' run index \<le> used_time db run index"
proof -
  have bs: "list_all2 budget_le (fresh_budget db) (fresh_budget db')"
    using ev len by (simp add: evolves_def extends_def)
  have ids: "distinct (map a_id (attempts db))" "distinct (map a_id (attempts db'))"
    using ok by (simp_all add: store_ok_def history_ok_def)
  have "charged_to db' run index b' \<le> charged_to db run index b"
    if b: "b \<in> set (fresh_budget db)" "b' \<in> set (fresh_budget db')" and le: "budget_le b b'" for b b'
  proof -
    from wf(1) b(1) obtain a m where a: "a \<in> set (attempts db)" "a_id a = b_attempt b"
      and m: "m \<in> set (fresh_members db)" "fm_slot m = a_slot a"
      by (auto simp: budget_wf_def budgeted_def)
    from ev have ext: "extends attempt_le (attempts db) (attempts db')"
      "extends (=) (fresh_members db) (fresh_members db')" by (simp_all add: evolves_def)
    from extends_mem [OF ext(1) a(1)] obtain a' where a': "a' \<in> set (attempts db')" "attempt_le a a'" by blast
    from extends_mem [OF ext(2) m(1)] have m': "m \<in> set (fresh_members db')" by blast
    have "attempt_check a" using ok(1) a(1) by (auto simp: store_ok_def attempts_ok_def)
    moreover have "charge_check b'" using wf(2) b(2) by (auto simp: budget_wf_def budgeted_def)
    ultimately have "budget_charge a' b' \<le> budget_charge a b"
      using budget_charge_mono [OF a'(2) _ le] by blast
    moreover have "charged_to db run index b = (if fm_run m = run \<and> fm_index m = index then budget_charge a b else 0)"
      using wf(1) by (intro charged_to_eq [OF ids(1) _ a m]) (simp add: budget_wf_def)
    moreover have "charged_to db' run index b' = (if fm_run m = run \<and> fm_index m = index then budget_charge a' b' else 0)"
      using wf(2) a'(2) a(2) le m(2)
      by (intro charged_to_eq [OF ids(2) _ a'(1) _ m']) (simp_all add: budget_wf_def attempt_le_def budget_le_def)
    ultimately show ?thesis by simp
  qed
  with bs have "list_all2 (\<lambda>b b'. charged_to db' run index b' \<le> charged_to db run index b)
      (fresh_budget db) (fresh_budget db')"
    by (auto simp: list_all2_conv_all_nth)
  then show ?thesis unfolding used_time_sum by (rule sum_list_le_all2)
qed

definition budget_ok :: "externals \<Rightarrow> db \<Rightarrow> bool" where
  "budget_ok X db \<longleftrightarrow> store_ok X db \<and> budget_wf db \<and> within_limit X db"

definition keeps_budget :: "externals \<Rightarrow> db \<Rightarrow> db \<Rightarrow> bool" where
  "keeps_budget X db db' \<longleftrightarrow> evolves db db' \<and> (budget_ok X db \<longrightarrow> budget_ok X db')"

lemma budgeted_later:
  assumes "evolves db db'" "budgeted db b" "budget_le b b'" "charge_check b'"
  shows "budgeted db' b'"
proof -
  from assms(2) obtain a m where a: "a \<in> set (attempts db)" "a_id a = b_attempt b"
    and m: "m \<in> set (fresh_members db)" "fm_slot m = a_slot a" by (auto simp: budgeted_def)
  from assms(1) have ext: "extends attempt_le (attempts db) (attempts db')"
    "extends (=) (fresh_members db) (fresh_members db')" by (simp_all add: evolves_def)
  from extends_mem [OF ext(1) a(1)] obtain a' where a': "a' \<in> set (attempts db')" "attempt_le a a'" by blast
  have m': "m \<in> set (fresh_members db')" using extends_mem [OF ext(2) m(1)] by blast
  have "a_id a' = b_attempt b'" using a(2) a'(2) assms(3) by (metis attempt_le_def budget_le_def)
  moreover have "fm_slot m = a_slot a'" using m(2) a'(2) by (metis attempt_le_def)
  ultimately show ?thesis using m' a'(1) assms(4) unfolding budgeted_def by blast
qed

lemma policy_limit_frame: "fresh_sequences db' = fresh_sequences db \<Longrightarrow> policy_limit X db' = policy_limit X db"
  by (simp add: policy_limit_def fun_eq_iff)

lemma used_time_frame:
  "attempts db' = attempts db \<Longrightarrow> fresh_members db' = fresh_members db \<Longrightarrow> fresh_budget db' = fresh_budget db
     \<Longrightarrow> used_time db' = used_time db"
  by (simp add: fun_eq_iff used_time_def budget_rows_def cong: if_cong)

lemma charged_to_frame:
  "attempts db' = attempts db \<Longrightarrow> fresh_members db' = fresh_members db \<Longrightarrow> charged_to db' = charged_to db"
  by (simp add: fun_eq_iff charged_to_def cong: if_cong)

text \<open>Operations that neither reserve time nor register members.\<close>

lemma keeps_budget_frame:
  assumes ev: "evolves db db'" and ok: "keeps_ok X db db'"
    and same: "fresh_sequences db' = fresh_sequences db" "fresh_members db' = fresh_members db"
    and len: "length (fresh_budget db') = length (fresh_budget db)"
    and chk: "\<And>b. budget_wf db \<Longrightarrow> b \<in> set (fresh_budget db') \<Longrightarrow> charge_check b"
  shows "keeps_budget X db db'"
  unfolding keeps_budget_def
proof (intro conjI impI ev)
  assume b: "budget_ok X db"
  then have wf: "budget_wf db" and so: "store_ok X db" and wl: "within_limit X db" by (simp_all add: budget_ok_def)
  have so': "store_ok X db'" using ok so by (simp add: keeps_ok_def)
  have all: "list_all2 budget_le (fresh_budget db) (fresh_budget db')"
    using ev len by (simp add: evolves_def extends_def)
  have "budgeted db' b'" if b': "b' \<in> set (fresh_budget db')" for b'
  proof -
    from all b' obtain b where "b \<in> set (fresh_budget db)" "budget_le b b'"
      by (rule list_all2_source)
    with wf show ?thesis using budgeted_later [OF ev _ _ chk [OF wf b']] unfolding budget_wf_def by blast
  qed
  with wf same have wf': "budget_wf db'" by (simp add: budget_wf_def)
  have "within_limit X db'"
    using wl used_time_mono [OF ev len wf wf' so so'] policy_limit_frame [OF same(1)]
    unfolding within_limit_def by (metis le_trans)
  with wf' so' show "budget_ok X db'" by (simp add: budget_ok_def)
qed

lemma keeps_budget_plain:
  assumes "evolves db db'" "keeps_ok X db db'" "fresh_sequences db' = fresh_sequences db"
    "fresh_members db' = fresh_members db" "fresh_budget db' = fresh_budget db"
  shows "keeps_budget X db db'"
  using assms by (intro keeps_budget_frame) (auto simp: budget_wf_def budgeted_def)

lemma keeps_budget_charge:
  assumes "update_fresh_charge x m db = Inr db'"
  shows "keeps_budget X db db'"
proof (rule keeps_budget_frame [OF evolves_update_fresh_charge [OF assms] keeps_ok_charge [OF assms]])
  fix b assume "budget_wf db" "b \<in> set (fresh_budget db')"
  with assms show "charge_check b"
    by (auto simp: update_fresh_charge_def charge_check_def budget_wf_def budgeted_def split: if_splits)
qed (use assms in \<open>auto simp: update_fresh_charge_def split: if_splits\<close>)

lemma keeps_budget_reserve: "reserve X slot auth lease now db = Inr (g, db') \<Longrightarrow> keeps_budget X db db'"
proof (rule keeps_budget_plain)
  assume r: "reserve X slot auth lease now db = Inr (g, db')"
  then show "evolves db db'" "keeps_ok X db db'" by (rule evolves_reserve keeps_ok_reserve)+
  from r show "fresh_sequences db' = fresh_sequences db" "fresh_members db' = fresh_members db"
    "fresh_budget db' = fresh_budget db"
    by (auto simp: reserve_def insert_attempt_def insert_lease_def insert_lease_row_def
        append_transition_def insert_event_def insert_transition_def split: if_splits)
qed

lemma keeps_budget_transition:
  assumes tr: "transition X g from to now details term db = Inr (g', db')"
  shows "keeps_budget X db db'"
proof (rule keeps_budget_plain [OF evolves_transition [OF tr] keeps_ok_transition [OF tr]])
  show "fresh_sequences db' = fresh_sequences db" "fresh_members db' = fresh_members db"
    "fresh_budget db' = fresh_budget db"
    by (subst transition_frame(1) [OF tr], simp)+
qed

lemma keeps_budget_member:
  assumes ins: "insert_fresh_member X fm db = Inr db'"
  shows "keeps_budget X db db'"
proof (cases "db' = db")
  case True
  then show ?thesis by (simp add: keeps_budget_def evolves_refl)
next
  case False
  with ins have db': "db' = db\<lparr>fresh_members := fresh_members db @ [fm]\<rparr>"
    and new: "fm_slot fm \<notin> fm_slot ` set (fresh_members db)"
    and seq: "\<exists>s \<in> set (fresh_sequences db). fs_run s = fm_run fm \<and> fs_index s = fm_index fm"
    by (auto simp: insert_fresh_member_def list_ex_iff split: if_splits)
  have ev: "evolves db db'" using ins by (rule evolves_insert_fresh_member)
  show ?thesis
    unfolding keeps_budget_def
  proof (intro conjI impI ev)
    assume "budget_ok X db"
    then have wf: "budget_wf db" and so: "store_ok X db" and wl: "within_limit X db" by (simp_all add: budget_ok_def)
    have so': "store_ok X db'" using keeps_ok_member [OF ins] so by (simp add: keeps_ok_def)
    have "budgeted db' b" if "b \<in> set (fresh_budget db)" for b
      using that wf db' by (fastforce simp: budget_wf_def budgeted_def)
    with wf new seq have wf': "budget_wf db'" by (auto simp: db' budget_wf_def)
    have "used_time db' run index \<le> used_time db run index" for run index
      using used_time_mono [OF ev _ wf wf' so so'] by (simp add: db')
    moreover have "policy_limit X db' = policy_limit X db" by (rule policy_limit_frame) (simp add: db')
    ultimately have "within_limit X db'" using wl unfolding within_limit_def by (metis le_trans)
    with wf' so' show "budget_ok X db'" by (simp add: budget_ok_def)
  qed
qed

lemma used_time_no_sequence:
  assumes wf: "budget_wf db" and ids: "distinct (map a_id (attempts db))"
    and none: "\<not> (\<exists>s \<in> set (fresh_sequences db). fs_run s = run \<and> fs_index s = index)"
  shows "used_time db run index = 0"
proof -
  have "charged_to db run index b = 0" if "b \<in> set (fresh_budget db)" for b
  proof -
    from wf that obtain a m where a: "a \<in> set (attempts db)" "a_id a = b_attempt b"
      and m: "m \<in> set (fresh_members db)" "fm_slot m = a_slot a" by (auto simp: budget_wf_def budgeted_def)
    have "\<not> (fm_run m = run \<and> fm_index m = index)" using wf m(1) none by (auto simp: budget_wf_def)
    moreover have "distinct (map fm_slot (fresh_members db))" using wf by (simp add: budget_wf_def)
    ultimately show ?thesis using charged_to_eq [OF ids _ a m, of run index] by auto
  qed
  then show ?thesis by (simp add: used_time_sum)
qed

lemma policy_limit_sequence:
  assumes "policy_limit X db run index = Inr limit"
  obtains s where "s \<in> set (fresh_sequences db)" "fs_run s = run" "fs_index s = index"
proof -
  from assms obtain p where "query_row [fs_policy s. s \<leftarrow> fresh_sequences db, fs_run s = run \<and> fs_index s = index] = Inr p"
    by (auto simp: policy_limit_def)
  then show ?thesis using that
    by (auto simp: query_row_def split: list.splits if_splits dest!: query_first_mem)
qed

lemma keeps_budget_sequence:
  assumes ins: "insert_fresh_sequence X fs db = Inr db'"
  shows "keeps_budget X db db'"
proof (cases "db' = db")
  case True
  then show ?thesis by (simp add: keeps_budget_def evolves_refl)
next
  case False
  with ins have db': "db' = db\<lparr>fresh_sequences := fresh_sequences db @ [fs]\<rparr>"
    and new: "\<not> (\<exists>s \<in> set (fresh_sequences db). fs_run s = fs_run fs \<and> fs_index s = fs_index fs)"
    by (auto simp: insert_fresh_sequence_def list_ex_iff split: if_splits)
  have ev: "evolves db db'" using ins by (rule grows.sequence_closed)
  show ?thesis
    unfolding keeps_budget_def
  proof (intro conjI impI ev)
    assume "budget_ok X db"
    then have wf: "budget_wf db" and so: "store_ok X db" and wl: "within_limit X db" by (simp_all add: budget_ok_def)
    have so': "store_ok X db'" using keeps_ok_sequence [OF ins] so by (simp add: keeps_ok_def)
    have ids: "distinct (map a_id (attempts db))" using so by (simp add: store_ok_def history_ok_def)
    have "budgeted db' b \<longleftrightarrow> budgeted db b" for b by (simp add: budgeted_def db')
    with wf new have wf': "budget_wf db'" by (auto simp: db' budget_wf_def)
    have used: "used_time db' = used_time db" by (rule used_time_frame) (simp_all add: db')
    have "used_time db' run index \<le> limit" if lim: "policy_limit X db' run index = Inr limit" for run index limit
    proof (cases "fs_run fs = run \<and> fs_index fs = index")
      case True
      with new used_time_no_sequence [OF wf ids] show ?thesis by (simp add: used)
    next
      case False
      then have "policy_limit X db run index = Inr limit" using lim by (auto simp: policy_limit_def db' split: if_splits)
      with wl used show ?thesis by (simp add: within_limit_def)
    qed
    then have "within_limit X db'" by (simp add: within_limit_def)
    with wf' so' show "budget_ok X db'" by (simp add: budget_ok_def)
  qed
qed

text \<open>A reservation takes at most what the allowance leaves.\<close>

lemma keeps_budget_fresh_time:
  assumes res: "reserve_fresh_time X g limit now db = Inr (r, db')"
  shows "keeps_budget X db db'"
proof (cases "fresh_membership db (sid g)")
  case None
  then show ?thesis using reserve_fresh_time_None [OF res] by (simp add: keeps_budget_def evolves_refl)
next
  case (Some ri)
  obtain run index where ri: "ri = (run, index)" by (cases ri)
  from reserve_fresh_time_Some [OF res Some [unfolded ri]] obtain total used n where
    al: "allowance X db run index = Inr (total, used)" and n: "0 < n" "n \<le> total - used"
    and f: "is_ok (fence g now db)"
    and ins: "insert_fresh_budget \<lparr>b_attempt = aid g, b_reserved = n, b_charged = None\<rparr> db = Inr db'" by blast
  define b where "b = \<lparr>b_attempt = aid g, b_reserved = n, b_charged = None\<rparr>"
  have db': "db' = db\<lparr>fresh_budget := fresh_budget db @ [b]\<rparr>"
    using ins by (auto simp: insert_fresh_budget_def b_def)
  have ev: "evolves db db'" using res by (rule grows.fresh_time_closed)
  from f obtain a where a: "a \<in> set (attempts db)" "fence_attempt g a"
    unfolding is_ok_iff by (metis fence_Ok)
  from Some ri obtain m where m: "m \<in> set (fresh_members db)" "fm_slot m = sid g" "fm_run m = run" "fm_index m = index"
    by (auto simp: fresh_membership_def split: if_splits dest!: query_optional_Some_mem)
  show ?thesis
    unfolding keeps_budget_def
  proof (intro conjI impI ev)
    assume "budget_ok X db"
    then have wf: "budget_wf db" and so: "store_ok X db" and wl: "within_limit X db" by (simp_all add: budget_ok_def)
    have so': "store_ok X db'" using keeps_ok_fresh_time [OF res] so by (simp add: keeps_ok_def)
    have ids: "distinct (map a_id (attempts db))" using so by (simp add: store_ok_def history_ok_def)
    have slots: "distinct (map fm_slot (fresh_members db))" using wf by (simp add: budget_wf_def)
    have "charged_to db r' i' b = (if run = r' \<and> index = i' then n else 0)" for r' i'
      using charged_to_eq [OF ids slots a(1) _ m(1), of b r' i'] a(2) m(2-4)
      by (simp add: fence_attempt_def b_def budget_charge_def)
    then have used': "used_time db' r' i' = used_time db r' i' + (if run = r' \<and> index = i' then n else 0)" for r' i'
      using charged_to_frame [of db' db] by (simp add: used_time_sum db')
    have al': "policy_limit X db run index = Inr total" "used = used_time db run index"
      using al by (auto simp: allowance_def sql_sum_def split: if_splits)
    have lim: "policy_limit X db' = policy_limit X db" by (rule policy_limit_frame) (simp add: db')
    have "used_time db' r' i' \<le> l" if "policy_limit X db' r' i' = Inr l" for r' i' l
      using that n al' wl used' [of r' i'] unfolding lim within_limit_def by fastforce
    then have "within_limit X db'" by (simp add: within_limit_def)
    moreover have "budgeted db' b'" if "b' \<in> set (fresh_budget db')" for b'
    proof (cases "b' = b")
      case True
      then show ?thesis using a m(1,2)
        by (auto simp: db' budgeted_def charge_check_def b_def fence_attempt_def intro!: bexI [of _ a] bexI [of _ m])
    next
      case False
      with that wf show ?thesis by (auto simp: db' budget_wf_def budgeted_def)
    qed
    then have "budget_wf db'" using wf by (simp add: budget_wf_def db')
    ultimately show "budget_ok X db'" using so' by (simp add: budget_ok_def)
  qed
qed

lemma keeps_budget_refl: "keeps_budget X db db"
  by (simp add: keeps_budget_def evolves_refl)

lemma keeps_budget_trans: "keeps_budget X db1 db2 \<Longrightarrow> keeps_budget X db2 db3 \<Longrightarrow> keeps_budget X db1 db3"
  unfolding keeps_budget_def by (blast intro: evolves_trans)

lemma keeps_budget_event: "insert_event X x now kind payload db = Inr (n, db') \<Longrightarrow> keeps_budget X db db'"
  by (rule keeps_budget_plain [OF evolves_insert_event keeps_ok_event])
    (assumption | auto simp: insert_event_def split: if_splits)+

lemma keeps_budget_leases: "update_leases hit f db = Inr (n, db') \<Longrightarrow> keeps_budget X db db'"
  by (rule keeps_budget_plain [OF evolves_update_leases keeps_ok_update_leases])
    (assumption | auto simp: update_leases_def Let_def split: if_splits)+

lemma keeps_budget_lease:
  "insert_lease_row l db = Inr db' \<Longrightarrow> l_purpose l \<noteq> Reservation \<Longrightarrow> keeps_budget X db db'"
  by (rule keeps_budget_plain [OF evolves_insert_lease_row keeps_ok_lease])
    (assumption | auto simp: insert_lease_row_def)+

lemma keeps_budget_claim: "insert_claim c db = Inr db' \<Longrightarrow> keeps_budget X db db'"
  by (rule keeps_budget_plain [OF grows.claim_closed keeps_ok_claim])
    (assumption | auto simp: statement_defs split: if_splits)+

lemma keeps_budget_unclaim: "delete_claims x db = Inr db' \<Longrightarrow> keeps_budget X db db'"
  by (rule keeps_budget_plain [OF grows.unclaim_closed keeps_ok_unclaim])
    (assumption | auto simp: statement_defs split: if_splits)+

lemma keeps_budget_artifact: "insert_artifact r db = Inr db' \<Longrightarrow> keeps_budget X db db'"
  by (rule keeps_budget_plain [OF grows.artifact_closed keeps_ok_artifact])
    (assumption | auto simp: statement_defs split: if_splits)+

lemma keeps_budget_attempt_artifact: "insert_attempt_artifact x role art db = Inr db' \<Longrightarrow> keeps_budget X db db'"
  by (rule keeps_budget_plain [OF grows.attempt_artifact_closed keeps_ok_attempt_artifact])
    (assumption | auto simp: statement_defs split: if_splits)+

lemma keeps_budget_leased_artifact: "insert_leased_artifact lid art db = Inr db' \<Longrightarrow> keeps_budget X db db'"
  by (rule keeps_budget_plain [OF grows.leased_artifact_closed keeps_ok_leased_artifact])
    (assumption | auto simp: statement_defs split: if_splits)+

lemma keeps_budget_observation: "insert_observation X ob db = Inr db' \<Longrightarrow> keeps_budget X db db'"
  by (rule keeps_budget_plain [OF grows.observation_closed keeps_ok_observation])
    (assumption | auto simp: statement_defs split: if_splits)+

lemma keeps_budget_selection: "insert_selection s db = Inr db' \<Longrightarrow> keeps_budget X db db'"
  by (rule keeps_budget_plain [OF grows.selection_closed keeps_ok_selection])
    (assumption | auto simp: statement_defs split: if_splits)+

lemma keeps_budget_disposition: "insert_disposition d db = Inr db' \<Longrightarrow> keeps_budget X db db'"
  by (rule keeps_budget_plain [OF grows.disposition_closed keeps_ok_disposition])
    (assumption | auto simp: statement_defs split: if_splits)+

lemma keeps_budget_applicability: "insert_applicability X ap db = Inr db' \<Longrightarrow> keeps_budget X db db'"
  by (rule keeps_budget_plain [OF grows.applicability_closed keeps_ok_applicability])
    (assumption | auto simp: statement_defs split: if_splits)+

lemma keeps_budget_run: "insert_run X ru db = Inr db' \<Longrightarrow> keeps_budget X db db'"
  by (rule keeps_budget_plain [OF grows.run_closed keeps_ok_run])
    (assumption | auto simp: statement_defs split: if_splits)+

lemma keeps_budget_slot: "insert_slot X sl db = Inr db' \<Longrightarrow> keeps_budget X db db'"
  by (rule keeps_budget_plain [OF grows.slot_closed keeps_ok_slot])
    (assumption | auto simp: statement_defs split: if_splits)+

lemma keeps_budget_observation_slot: "insert_observation_slot X os db = Inr db' \<Longrightarrow> keeps_budget X db db'"
  by (rule keeps_budget_plain [OF grows.observation_slot_closed keeps_ok_observation_slot])
    (assumption | auto simp: statement_defs split: if_splits)+

lemma keeps_budget_slot_member: "insert_slot_member sm db = Inr db' \<Longrightarrow> keeps_budget X db db'"
  by (rule keeps_budget_plain [OF grows.slot_member_closed keeps_ok_slot_member])
    (assumption | auto simp: statement_defs split: if_splits)+

interpretation budget: unit_closed X "keeps_budget X" for X
proof unfold_locales
  fix g "from" to now details "term" db g' db' assume "transition X g from to now details term db = Inr (g', db')"
  then show "keeps_budget X db db'" by (rule keeps_budget_transition)
next
  fix l db db' assume "insert_lease_row l db = Inr db'" "l_purpose l \<noteq> Reservation"
  then show "keeps_budget X db db'" by (rule keeps_budget_lease)
qed (erule keeps_budget_trans keeps_budget_reserve keeps_budget_event keeps_budget_leases
      keeps_budget_fresh_time keeps_budget_charge keeps_budget_sequence keeps_budget_member
      keeps_budget_claim keeps_budget_unclaim keeps_budget_artifact keeps_budget_attempt_artifact keeps_budget_leased_artifact keeps_budget_observation
      keeps_budget_selection keeps_budget_disposition keeps_budget_applicability keeps_budget_run keeps_budget_slot keeps_budget_observation_slot keeps_budget_slot_member
    | rule keeps_budget_refl | assumption)+

lemma budget_ok_empty: "budget_ok X (empty_db version)"
proof -
  have "policy_limit X (empty_db version) run index \<noteq> Inr limit" for run index limit
    by (simp add: policy_limit_def empty_db_def query_row_def)
  then show ?thesis
    using store_ok_empty by (auto simp: budget_ok_def budget_wf_def within_limit_def empty_db_def)
qed

lemma reachable_budget_ok: "reachable X db \<Longrightarrow> budget_ok X db"
proof (induction rule: reachable.induct)
  case (reach_step db db')
  then show ?case using budget.step_closed by (simp add: keeps_budget_def)
qed (rule budget_ok_empty)

end
