(* ===== verification/Run_Sequences.thy ===== *)
theory Run_Sequences
  imports Run_Budget
begin

text \<open>
  At most one attempt of a fresh sequence runs at a time: a reservation refuses a busy sequence,
  and a slot joins a sequence only before it has attempts.
\<close>

definition same_sequence :: "db \<Rightarrow> attempt_row \<Rightarrow> attempt_row \<Rightarrow> bool" where
  "same_sequence db a a' \<longleftrightarrow>
     (\<exists>m \<in> set (fresh_members db). \<exists>m' \<in> set (fresh_members db).
        fm_slot m = a_slot a \<and> fm_slot m' = a_slot a' \<and> fm_run m = fm_run m' \<and> fm_index m = fm_index m')"

definition sequences_ok :: "db \<Rightarrow> bool" where
  "sequences_ok db \<longleftrightarrow>
     (\<forall>a \<in> set (attempts db). a_slot a \<in> sl_id ` set (attempt_slots db))
     \<and> distinct (map sl_id (attempt_slots db))
     \<and> (\<forall>m \<in> set (fresh_members db). slot_of_kind db (fm_slot m) FreshObservation \<and> fresh_supported db)
     \<and> (fresh_supported db \<longrightarrow> (\<forall>a \<in> set (attempts db).
          slot_of_kind db (a_slot a) FreshObservation \<longrightarrow> a_slot a \<in> fm_slot ` set (fresh_members db)))
     \<and> (\<forall>a \<in> set (attempts db). \<forall>a' \<in> set (attempts db).
          a_finished a = None \<and> a_finished a' = None \<and> same_sequence db a a' \<longrightarrow> a = a')"

definition keeps_sequences :: "externals \<Rightarrow> db \<Rightarrow> db \<Rightarrow> bool" where
  "keeps_sequences X db db' \<longleftrightarrow>
     keeps_budget X db db' \<and> (budget_ok X db \<and> sequences_ok db \<longrightarrow> sequences_ok db')"

lemma slot_of_kind_frame: "attempt_slots db' = attempt_slots db \<Longrightarrow> slot_of_kind db' = slot_of_kind db"
  by (simp add: slot_of_kind_def fun_eq_iff)

lemma same_sequence_frame:
  "fresh_members db' = fresh_members db \<Longrightarrow> a_slot b = a_slot a \<Longrightarrow> a_slot b' = a_slot a'
     \<Longrightarrow> same_sequence db' b b' \<longleftrightarrow> same_sequence db a a'"
  by (simp add: same_sequence_def)

text \<open>Operations that register no slot, member or attempt.\<close>

lemma keeps_sequences_frame:
  assumes kb: "keeps_budget X db db'" and len: "length (attempts db') = length (attempts db)"
    and same: "attempt_slots db' = attempt_slots db" "fresh_members db' = fresh_members db"
  shows "keeps_sequences X db db'"
  unfolding keeps_sequences_def
proof (intro conjI impI kb)
  assume "budget_ok X db \<and> sequences_ok db"
  then have b: "budget_ok X db" and s: "sequences_ok db" by simp_all
  from kb b have ev: "evolves db db'" and b': "budget_ok X db'" by (simp_all add: keeps_budget_def)
  have ids': "distinct (map a_id (attempts db'))"
    using b' by (simp add: budget_ok_def store_ok_def history_ok_def)
  have chk: "attempt_check a" if "a \<in> set (attempts db)" for a
    using b that by (auto simp: budget_ok_def store_ok_def attempts_ok_def)
  have all: "list_all2 attempt_le (attempts db) (attempts db')"
    using ev len by (simp add: evolves_def extends_def)
  have src: "\<exists>a \<in> set (attempts db). a_id a' = a_id a \<and> a_slot a' = a_slot a \<and> (a_finished a' = None \<longrightarrow> a_finished a = None)"
    if a': "a' \<in> set (attempts db')" for a'
  proof -
    from all a' obtain a where a: "a \<in> set (attempts db)" "attempt_le a a'" by (rule list_all2_source)
    with chk [OF a(1)] have "a_finished a \<noteq> None \<longrightarrow> a' = a" by (auto simp: attempt_le_def attempt_check_def)
    with a show ?thesis unfolding attempt_le_def by metis
  qed
  have ver: "fresh_supported db' = fresh_supported db" using ev by (simp add: evolves_def fresh_supported_def)
  have one: "x = y" if x: "x \<in> set (attempts db')" "a_finished x = None" and y: "y \<in> set (attempts db')" "a_finished y = None"
    and ss: "same_sequence db' x y" for x y
  proof -
    from src [OF x(1)] x(2) obtain a where a: "a \<in> set (attempts db)" "a_id x = a_id a" "a_slot x = a_slot a" "a_finished a = None"
      by blast
    from src [OF y(1)] y(2) obtain c where c: "c \<in> set (attempts db)" "a_id y = a_id c" "a_slot y = a_slot c" "a_finished c = None"
      by blast
    have "same_sequence db a c" using ss same_sequence_frame [OF same(2) a(3) c(3)] by simp
    with s a c have "a = c" by (simp add: sequences_ok_def)
    with a c x y ids' show ?thesis by (metis distinct_map inj_onD)
  qed
  have slot: "\<exists>a \<in> set (attempts db). a_slot x = a_slot a" if "x \<in> set (attempts db')" for x
    using src [OF that] by blast
  then have "\<forall>x \<in> set (attempts db'). a_slot x \<in> sl_id ` set (attempt_slots db)"
    using s unfolding sequences_ok_def by metis
  moreover have "\<forall>x \<in> set (attempts db'). fresh_supported db \<longrightarrow> slot_of_kind db (a_slot x) FreshObservation
      \<longrightarrow> a_slot x \<in> fm_slot ` set (fresh_members db)"
    using s slot unfolding sequences_ok_def by metis
  ultimately show "sequences_ok db'"
    using s one ver slot_of_kind_frame [OF same(1)] unfolding sequences_ok_def same by auto
qed

lemma keeps_sequences_plain:
  assumes "keeps_budget X db db'" "attempts db' = attempts db" "attempt_slots db' = attempt_slots db"
    "fresh_members db' = fresh_members db"
  shows "keeps_sequences X db db'"
  using assms by (intro keeps_sequences_frame) simp_all

lemma keeps_sequences_transition:
  assumes tr: "transition X g from to now details term db = Inr (g', db')"
  shows "keeps_sequences X db db'"
proof (rule keeps_sequences_frame [OF keeps_budget_transition [OF tr]])
  show "length (attempts db') = length (attempts db)" using transition_frame(2) [OF tr] by simp
  show "attempt_slots db' = attempt_slots db" "fresh_members db' = fresh_members db"
    by (subst transition_frame(1) [OF tr], simp)+
qed

lemma keeps_sequences_event: "insert_event X x now kind payload db = Inr (n, db') \<Longrightarrow> keeps_sequences X db db'"
  by (rule keeps_sequences_plain [OF keeps_budget_event])
    (assumption | auto simp: statement_defs update_leases_def Let_def split: if_splits)+

lemma keeps_sequences_leases: "update_leases hit f db = Inr (n, db') \<Longrightarrow> keeps_sequences X db db'"
  by (rule keeps_sequences_plain [OF keeps_budget_leases])
    (assumption | auto simp: statement_defs update_leases_def Let_def split: if_splits)+

lemma keeps_sequences_claim: "insert_claim c db = Inr db' \<Longrightarrow> keeps_sequences X db db'"
  by (rule keeps_sequences_plain [OF keeps_budget_claim])
    (assumption | auto simp: statement_defs update_leases_def Let_def split: if_splits)+

lemma keeps_sequences_unclaim: "delete_claims x db = Inr db' \<Longrightarrow> keeps_sequences X db db'"
  by (rule keeps_sequences_plain [OF keeps_budget_unclaim])
    (assumption | auto simp: statement_defs update_leases_def Let_def split: if_splits)+

lemma keeps_sequences_artifact: "insert_artifact r db = Inr db' \<Longrightarrow> keeps_sequences X db db'"
  by (rule keeps_sequences_plain [OF keeps_budget_artifact])
    (assumption | auto simp: statement_defs update_leases_def Let_def split: if_splits)+

lemma keeps_sequences_attempt_artifact: "insert_attempt_artifact x role art db = Inr db' \<Longrightarrow> keeps_sequences X db db'"
  by (rule keeps_sequences_plain [OF keeps_budget_attempt_artifact])
    (assumption | auto simp: statement_defs update_leases_def Let_def split: if_splits)+

lemma keeps_sequences_leased_artifact: "insert_leased_artifact lid art db = Inr db' \<Longrightarrow> keeps_sequences X db db'"
  by (rule keeps_sequences_plain [OF keeps_budget_leased_artifact])
    (assumption | auto simp: statement_defs update_leases_def Let_def split: if_splits)+

lemma keeps_sequences_observation: "insert_observation X ob db = Inr db' \<Longrightarrow> keeps_sequences X db db'"
  by (rule keeps_sequences_plain [OF keeps_budget_observation])
    (assumption | auto simp: statement_defs update_leases_def Let_def split: if_splits)+

lemma keeps_sequences_selection: "insert_selection s db = Inr db' \<Longrightarrow> keeps_sequences X db db'"
  by (rule keeps_sequences_plain [OF keeps_budget_selection])
    (assumption | auto simp: statement_defs update_leases_def Let_def split: if_splits)+

lemma keeps_sequences_disposition: "insert_disposition d db = Inr db' \<Longrightarrow> keeps_sequences X db db'"
  by (rule keeps_sequences_plain [OF keeps_budget_disposition])
    (assumption | auto simp: statement_defs update_leases_def Let_def split: if_splits)+

lemma keeps_sequences_charge: "update_fresh_charge x m db = Inr db' \<Longrightarrow> keeps_sequences X db db'"
  by (rule keeps_sequences_plain [OF keeps_budget_charge])
    (assumption | auto simp: statement_defs update_leases_def Let_def split: if_splits)+

lemma keeps_sequences_applicability: "insert_applicability X ap db = Inr db' \<Longrightarrow> keeps_sequences X db db'"
  by (rule keeps_sequences_plain [OF keeps_budget_applicability])
    (assumption | auto simp: statement_defs update_leases_def Let_def split: if_splits)+

lemma keeps_sequences_run: "insert_run X ru db = Inr db' \<Longrightarrow> keeps_sequences X db db'"
  by (rule keeps_sequences_plain [OF keeps_budget_run])
    (assumption | auto simp: statement_defs update_leases_def Let_def split: if_splits)+

lemma keeps_sequences_observation_slot: "insert_observation_slot X os db = Inr db' \<Longrightarrow> keeps_sequences X db db'"
  by (rule keeps_sequences_plain [OF keeps_budget_observation_slot])
    (assumption | auto simp: statement_defs update_leases_def Let_def split: if_splits)+

lemma keeps_sequences_slot_member: "insert_slot_member sm db = Inr db' \<Longrightarrow> keeps_sequences X db db'"
  by (rule keeps_sequences_plain [OF keeps_budget_slot_member])
    (assumption | auto simp: statement_defs update_leases_def Let_def split: if_splits)+

lemma keeps_sequences_sequence: "insert_fresh_sequence X fs db = Inr db' \<Longrightarrow> keeps_sequences X db db'"
  by (rule keeps_sequences_plain [OF keeps_budget_sequence])
    (assumption | auto simp: statement_defs update_leases_def Let_def split: if_splits)+

lemma keeps_sequences_lease:
  "insert_lease_row l db = Inr db' \<Longrightarrow> l_purpose l \<noteq> Reservation \<Longrightarrow> keeps_sequences X db db'"
  by (rule keeps_sequences_plain [OF keeps_budget_lease]) (assumption | auto simp: insert_lease_row_def)+

lemma keeps_sequences_fresh_time:
  assumes res: "reserve_fresh_time X g limit now db = Inr (r, db')"
  shows "keeps_sequences X db db'"
proof -
  have "db' = db \<or> (\<exists>b. insert_fresh_budget b db = Inr db')"
  proof (cases "fresh_membership db (sid g)")
    case None
    then show ?thesis using reserve_fresh_time_None [OF res] by simp
  next
    case (Some ri)
    then show ?thesis using reserve_fresh_time_Some [OF res, of "fst ri" "snd ri"] by auto
  qed
  then show ?thesis
    by (intro keeps_sequences_plain [OF keeps_budget_fresh_time [OF res]]) (auto simp: insert_fresh_budget_def)
qed

lemma keeps_sequences_slot:
  assumes ins: "insert_slot X sl db = Inr db'"
  shows "keeps_sequences X db db'"
proof (cases "db' = db")
  case True
  then show ?thesis using keeps_budget_refl by (simp add: keeps_sequences_def)
next
  case False
  with ins have db': "db' = db\<lparr>attempt_slots := attempt_slots db @ [sl]\<rparr>"
    and new: "sl_id sl \<notin> sl_id ` set (attempt_slots db)"
    by (auto simp: insert_slot_def list_ex_iff split: if_splits)
  have sup: "fresh_supported db' = fresh_supported db" by (simp add: db' fresh_supported_def)
  have kind: "slot_of_kind db' x k = slot_of_kind db x k" if "x \<in> sl_id ` set (attempt_slots db)" for x k
    using that new by (auto simp: slot_of_kind_def db')
  have kind': "slot_of_kind db x k \<Longrightarrow> slot_of_kind db' x k" for x k
    by (simp add: slot_of_kind_def db')
  have "sequences_ok db'" if s: "sequences_ok db"
  proof -
    have ss: "same_sequence db' = same_sequence db" by (simp add: fun_eq_iff same_sequence_def db')
    have tabs: "attempts db' = attempts db" "fresh_members db' = fresh_members db"
      "attempt_slots db' = attempt_slots db @ [sl]" by (simp_all add: db')
    have at: "a_slot a \<in> sl_id ` set (attempt_slots db)" if "a \<in> set (attempts db)" for a
      using s that by (simp add: sequences_ok_def)
    show ?thesis
      using s new at kind [OF at] kind' unfolding sequences_ok_def ss sup tabs by auto
  qed
  with keeps_budget_slot [OF ins] show ?thesis by (simp add: keeps_sequences_def)
qed

lemma keeps_sequences_member:
  assumes ins: "insert_fresh_member X fm db = Inr db'" and sup: "fresh_supported db"
    and kind: "slot_of_kind db (fm_slot fm) FreshObservation"
  shows "keeps_sequences X db db'"
proof (cases "db' = db")
  case True
  then show ?thesis using keeps_budget_refl by (simp add: keeps_sequences_def)
next
  case False
  with ins have db': "db' = db\<lparr>fresh_members := fresh_members db @ [fm]\<rparr>"
    and new: "fm_slot fm \<notin> fm_slot ` set (fresh_members db)"
    by (auto simp: insert_fresh_member_def list_ex_iff split: if_splits)
  have "sequences_ok db'" if s: "sequences_ok db"
  proof -
    have tabs: "attempts db' = attempts db" "fresh_members db' = fresh_members db @ [fm]"
      "attempt_slots db' = attempt_slots db" "fresh_supported db' = fresh_supported db"
      by (simp_all add: db' fresh_supported_def)
    have none: "a_slot a \<noteq> fm_slot fm" if "a \<in> set (attempts db)" for a
      using s that sup kind new unfolding sequences_ok_def by metis
    have "same_sequence db' a a' \<longleftrightarrow> same_sequence db a a'" if "a \<in> set (attempts db)" "a' \<in> set (attempts db)" for a a'
      using none [OF that(1)] none [OF that(2)] unfolding same_sequence_def tabs by auto
    then show ?thesis
      using s sup kind slot_of_kind_frame [OF tabs(3)] unfolding sequences_ok_def tabs by auto
  qed
  with keeps_budget_member [OF ins] show ?thesis by (simp add: keeps_sequences_def)
qed

text \<open>A reservation checks that its sequence is idle.\<close>

lemma slot_kind_unique:
  assumes "distinct (map sl_id (attempt_slots db))" "slot_of_kind db x k"
    "query_row [sl_kind s. s \<leftarrow> attempt_slots db, sl_id s = x] = Inr k'"
  shows "k' = k"
proof -
  from assms(2) obtain s where s: "s \<in> set (attempt_slots db)" "sl_id s = x" "sl_kind s = k"
    by (auto simp: slot_of_kind_def list_ex_iff)
  have "filter (\<lambda>s. sl_id s = x) (attempt_slots db) = [s]"
    using s by (intro filter_unique [OF assms(1)]) auto
  with assms(3) s show ?thesis by (simp add: concat_if query_row_def)
qed

lemma check_reservation_idle:
  assumes chk: "check_reservation X db slot = Inr ()" and s: "sequences_ok db" and wf: "budget_wf db"
  shows "(fresh_supported db \<longrightarrow> slot_of_kind db slot FreshObservation \<longrightarrow> slot \<in> fm_slot ` set (fresh_members db))
    \<and> (\<forall>m \<in> set (fresh_members db). fm_slot m = slot \<longrightarrow>
         \<not> sequence_active db (fm_run m) (fm_index m))"
proof (cases "fresh_membership db slot")
  case None
  have "\<not> (\<exists>m \<in> set (fresh_members db). fm_slot m = slot)"
  proof
    assume "\<exists>m \<in> set (fresh_members db). fm_slot m = slot"
    then obtain m where m: "m \<in> set (fresh_members db)" "fm_slot m = slot" by blast
    with s have "fresh_supported db" by (simp add: sequences_ok_def)
    with None have "[(fm_run m, fm_index m). m \<leftarrow> fresh_members db, fm_slot m = slot] = []"
      by (auto simp: fresh_membership_def query_optional_def split: list.splits)
    with m show False by (simp add: concat_if filter_empty_conv)
  qed
  moreover have "\<not> slot_of_kind db slot FreshObservation" if "fresh_supported db"
  proof
    assume k: "slot_of_kind db slot FreshObservation"
    from chk None that obtain k' where q: "query_row [sl_kind s. s \<leftarrow> attempt_slots db, sl_id s = slot] = Inr k'"
      and ne: "k' \<noteq> FreshObservation" by (auto simp: check_reservation_def split: if_splits)
    have "distinct (map sl_id (attempt_slots db))" using s by (simp add: sequences_ok_def)
    with slot_kind_unique [OF _ k q] ne show False by simp
  qed
  ultimately show ?thesis by blast
next
  case (Some ri)
  obtain run index where ri: "ri = (run, index)" by (cases ri)
  from chk Some ri have idle: "\<not> sequence_active db run index"
    by (auto simp: check_reservation_def split: if_splits)
  from Some ri obtain m where m: "m \<in> set (fresh_members db)" "fm_slot m = slot" "fm_run m = run" "fm_index m = index"
    by (auto simp: fresh_membership_def split: if_splits dest!: query_optional_Some_mem)
  have slots: "distinct (map fm_slot (fresh_members db))" using wf by (simp add: budget_wf_def)
  have "\<not> sequence_active db (fm_run n) (fm_index n)" if n: "n \<in> set (fresh_members db)" "fm_slot n = slot" for n
  proof -
    have "n = m" using n m(1,2) slots by (metis distinct_map inj_onD)
    with idle m(3,4) show ?thesis by simp
  qed
  moreover have "slot \<in> fm_slot ` set (fresh_members db)" using m(1,2) by (metis imageI)
  ultimately show ?thesis by blast
qed

lemma keeps_sequences_reserve:
  assumes res: "reserve X slot auth lease now db = Inr (g, db')"
  shows "keeps_sequences X db db'"
  unfolding keeps_sequences_def
proof (intro conjI impI keeps_budget_reserve [OF res])
  assume "budget_ok X db \<and> sequences_ok db"
  then have wf: "budget_wf db" and s: "sequences_ok db" by (simp_all add: budget_ok_def)
  let ?n = "new_attempt (aid g) (sid g) (g_retry g) now"
  have slot: "a_slot ?n = slot_text slot" "sid g = slot_text slot"
    using reserve_rows(8) [OF res] by (simp_all add: new_attempt_def)
  have at: "attempts db' = attempts db @ [?n]" using reserve_rows(1) [OF res] .
  have tabs: "attempt_slots db' = attempt_slots db" "fresh_members db' = fresh_members db"
    "fresh_supported db' = fresh_supported db"
    using res by (auto simp: reserve_def insert_attempt_def insert_lease_def insert_lease_row_def
        append_transition_def insert_event_def insert_transition_def fresh_supported_def split: if_splits)
  have reg: "slot_text slot \<in> sl_id ` set (attempt_slots db)"
    using res by (force simp: reserve_def list_ex_iff split: if_splits)
  have "check_reservation X db (slot_text slot) = Inr ()" using res by (rule reserve_Ok)
  note idle = check_reservation_idle [OF this s wf]
  have busy: "sequence_active db (fm_run m) (fm_index m)"
    if "a \<in> set (attempts db)" "a_finished a = None" "m' \<in> set (fresh_members db)" "fm_slot m' = a_slot a"
      "fm_run m' = fm_run m" "fm_index m' = fm_index m" for a m m'
    using that unfolding sequence_active_def list_ex_iff by blast
  have new: "\<not> same_sequence db a ?n" "\<not> same_sequence db ?n a" if "a \<in> set (attempts db)" "a_finished a = None" for a
    using busy [OF that] idle slot(1) unfolding same_sequence_def by metis+
  have ss: "same_sequence db' = same_sequence db" by (simp add: fun_eq_iff same_sequence_def tabs)
  show "sequences_ok db'"
    using s reg idle slot new slot_of_kind_frame [OF tabs(1)]
    unfolding sequences_ok_def at tabs ss by auto
qed

lemma keeps_sequences_refl: "keeps_sequences X db db"
  by (simp add: keeps_sequences_def keeps_budget_refl)

lemma keeps_sequences_trans:
  "keeps_sequences X db1 db2 \<Longrightarrow> keeps_sequences X db2 db3 \<Longrightarrow> keeps_sequences X db1 db3"
  unfolding keeps_sequences_def by (meson keeps_budget_def keeps_budget_trans)

interpretation seqs: unit_closed X "keeps_sequences X" for X
proof unfold_locales
  fix g "from" to now details "term" db g' db' assume "transition X g from to now details term db = Inr (g', db')"
  then show "keeps_sequences X db db'" by (rule keeps_sequences_transition)
next
  fix l db db' assume "insert_lease_row l db = Inr db'" "l_purpose l \<noteq> Reservation"
  then show "keeps_sequences X db db'" by (rule keeps_sequences_lease)
next
  fix fm db db' assume "insert_fresh_member X fm db = Inr db'" "fresh_supported db"
    "slot_of_kind db (fm_slot fm) FreshObservation"
  then show "keeps_sequences X db db'" by (rule keeps_sequences_member)
qed (erule keeps_sequences_trans keeps_sequences_reserve keeps_sequences_fresh_time keeps_sequences_slot
      keeps_sequences_event keeps_sequences_leases keeps_sequences_claim keeps_sequences_unclaim
      keeps_sequences_artifact keeps_sequences_attempt_artifact keeps_sequences_leased_artifact
      keeps_sequences_observation keeps_sequences_selection keeps_sequences_disposition
      keeps_sequences_charge keeps_sequences_applicability keeps_sequences_run
      keeps_sequences_observation_slot keeps_sequences_slot_member keeps_sequences_sequence
    | rule keeps_sequences_refl | assumption)+

lemma reachable_sequences_ok: "reachable X db \<Longrightarrow> sequences_ok db"
proof (induction rule: reachable.induct)
  case (reach_new version)
  show ?case by (simp add: sequences_ok_def empty_db_def same_sequence_def)
next
  case (reach_step db db')
  then show ?case using seqs.step_closed reachable_budget_ok by (simp add: keeps_sequences_def)
qed

end
