(* ===== verification/Run_Demo.thy ===== *)
theory Run_Demo
  imports Run_Safety "HOL-Library.Code_Target_Nat"
begin

text \<open>
  A concrete run of the store that the witnesses evaluate: a one-shot slot is registered and
  reserved twice, the first attempt advances, claims finalization, registers its observation and is
  accepted, while the second loses the claim; another slot belongs to a fresh sequence.  The
  external functions are concrete ones.
\<close>

section \<open>Externals\<close>

text \<open>
  The canonical text of a value keeps only its \<open>retry_index\<close>, in unary, and the digest counts
  those marks: enough to give every attempt of a slot its own identity.
\<close>

definition demo_policy_visit :: visit where
  "demo_policy_visit = VisitMap [(''max-observations'', VisitU64 4), (''max-active-time'', VisitStr ''1ms'')] True"

definition demo :: externals where
  "demo = \<lparr>sha256 = filter (\<lambda>c. c = CHR ''#''),
     canonicalizer = (\<lambda>v. Some (case v of
         JObject m \<Rightarrow> (case map_of m ''retry_index'' of
            Some (JNumber (PosInt n)) \<Rightarrow> replicate n (CHR ''#'') | _ \<Rightarrow> []) | _ \<Rightarrow> [])),
     parse_json = (\<lambda>s. (demo_policy_visit, True)), json_text = (\<lambda>v. []), sqlite_object = (\<lambda>s. True)\<rparr>"

definition zero_digest :: digest where
  "zero_digest = []"

definition demo_worker :: "digest \<Rightarrow> resolved_worker" where
  "demo_worker d = \<lparr>rw_source_bundle = None, rw_environment = d, rw_launch = d\<rparr>"

definition demo_run :: "digest \<Rightarrow> resolved_specification identified" where
  "demo_run d = (d, \<lparr>rs_applicability = None, rs_logical = d, rs_problem_instance = d,
     rs_implementation = demo_worker d, rs_evaluator = demo_worker d, rs_executor = d,
     rs_wire_version = 1, rs_semantics_version = 1\<rparr>)"

definition demo_slot :: "digest \<Rightarrow> resolved_attempt_slot identified" where
  "demo_slot d = (d, \<lparr>ras_logical = d, ras_specification = d\<rparr>)"

definition demo_observation_slot :: "digest \<Rightarrow> resolved_observation_slot identified" where
  "demo_observation_slot d = (d, \<lparr>ros_logical = d, ros_specification = d\<rparr>)"

definition demo_lease :: "string \<Rightarrow> u64 \<Rightarrow> lease_request" where
  "demo_lease x expires = \<lparr>lr_id = x, lr_owner = ''worker'', lr_expires = expires\<rparr>"

definition demo_artifact :: "string \<Rightarrow> artifact_registration" where
  "demo_artifact x = \<lparr>ar_id = x, ar_path = x, ar_content = replicate 32 (CHR ''a''), ar_manifest = replicate 32 (CHR ''a''),
     ar_verified = 1\<rparr>"

definition demo_reference :: artifact_reference where
  "demo_reference = \<lparr>ref_id = zero_digest, ref_path = ''result'', ref_sha256 = zero_digest\<rparr>"

definition demo_observation :: "digest \<Rightarrow> run_observation identified" where
  "demo_observation attempt = (zero_digest, \<lparr>ob_profile = None, ob_slot = zero_digest, ob_attempt = attempt,
     ob_result = demo_reference, ob_metrics = demo_reference,
     ob_timing = \<lparr>tm_primary = TimedWallTime, tm_timed_wall = \<lparr>du_secs = 1, du_nanos = 5\<rparr>,
       tm_implementation = None, tm_evaluation = \<lparr>du_secs = 0, du_nanos = 7\<rparr>, tm_cpu = None,
       tm_peak_rss = None\<rparr>,
     ob_completion = NotRequired,
     ob_provenance = \<lparr>pv_tool_version = ''1'', pv_wire_version = 1, pv_semantics_version = 1,
       pv_data = JObject []\<rparr>\<rparr>)"

section \<open>The one-shot slot\<close>

type_synonym 'a run_state = "('a \<times> db, run_store_error) result"

text \<open>Two attempts on one slot, the first one materializing.\<close>

definition demo_contend :: "db \<Rightarrow> (owned_attempt \<times> owned_attempt) run_state" where
  "demo_contend db =
     res_bind (reserve demo zero_digest FirstAttempt (demo_lease ''first'' 100) 5 db) (\<lambda>(g, db).
     res_bind (advance demo g MaterializingPhase 6 db) (\<lambda>(g, db).
     res_bind (reserve demo zero_digest (Next True) (demo_lease ''second'' 100) 7 db) (\<lambda>(h, db).
       Inr ((g, h), db))))"

text \<open>The first attempt claims the slot and publishes and selects its observation.\<close>

definition demo_observe :: "owned_attempt \<Rightarrow> db \<Rightarrow> owned_attempt run_state" where
  "demo_observe g db =
     res_bind (begin_finalization demo g (demo_lease ''claim'' 90) 8 db) (\<lambda>((g, _), db).
     res_bind (import_artifact (demo_artifact ''observed'') ObservationArtifact db) (\<lambda>(_, db).
     res_bind (register_observation demo g (demo_observation (g_id g)) (demo_artifact ''observed'') True 9 db)
       (\<lambda>(_, db). Inr (g, db))))"

definition demo_accept :: "owned_attempt \<Rightarrow> db \<Rightarrow> terminal_attempt run_state" where
  "demo_accept g db = commit_finalization demo g OutcomeAccepted (demo_artifact ''final'') [] 10 db"

definition db_registered :: db where
  "db_registered = (empty_db 3)\<lparr>
       applicability_decisions := [\<lparr>d_id =
         ''run-store-v1:unconditional:mw1-logical-candidate-'', d_candidate =
         ''mw1-logical-candidate-'', d_applicable = True, d_record = []\<rparr>],
       resolved_runs := [\<lparr>r_id = ''mw1-resolved-specification-'', r_logical =
         ''mw1-logical-specification-'', r_candidate = ''mw1-logical-candidate-'',
         r_applicability = ''run-store-v1:unconditional:mw1-logical-candidate-'', r_record =
         []\<rparr>],
       observation_slots := [\<lparr>os_id = ''mw1-resolved-observation-slot-'', os_logical =
         ''mw1-logical-observation-slot-'', os_run = ''mw1-resolved-specification-'', os_record
         = []\<rparr>],
       attempt_slots := [\<lparr>sl_id = ''mw1-resolved-attempt-slot-'', sl_logical =
         ''mw1-logical-attempt-slot-'', sl_run = ''mw1-resolved-specification-'', sl_kind =
         OneShot, sl_role = Measurement, sl_record = []\<rparr>],
       attempt_observation_slots := [\<lparr>sm_slot = ''mw1-resolved-attempt-slot-'',
         sm_observation_slot = ''mw1-resolved-observation-slot-'', sm_run =
         ''mw1-resolved-specification-''\<rparr>]\<rparr>"

definition db_contended :: db where
  "db_contended = db_registered\<lparr>
       attempts := [\<lparr>a_id = ''mw1-attempt-'', a_slot = ''mw1-resolved-attempt-slot-'',
         a_retry = 0, a_state = Materializing, a_revision = 1, a_started = 5, a_updated = 6,
         a_finished = None, a_failure = None, a_artifact = None\<rparr>, \<lparr>a_id =
         ''mw1-attempt-23'', a_slot = ''mw1-resolved-attempt-slot-'', a_retry = 1, a_state =
         Reserved, a_revision = 0, a_started = 7, a_updated = 7, a_finished = None, a_failure =
         None, a_artifact = None\<rparr>],
       events := [\<lparr>ev_sequence = 1, ev_attempt = Some ''mw1-attempt-'', ev_time = 5,
         ev_kind = ''attempt_reserved'', ev_payload = []\<rparr>, \<lparr>ev_sequence = 2,
         ev_attempt = Some ''mw1-attempt-'', ev_time = 6, ev_kind = ''attempt_transition'',
         ev_payload = []\<rparr>, \<lparr>ev_sequence = 3, ev_attempt = Some ''mw1-attempt-23'',
         ev_time = 7, ev_kind = ''attempt_reserved'', ev_payload = ''#''\<rparr>],
       event_seq := 3,
       attempt_transitions := [\<lparr>t_attempt = ''mw1-attempt-'', t_revision = 0, t_previous
         = None, t_from = None, t_to = Reserved, t_time = 5, t_event = 1\<rparr>,
         \<lparr>t_attempt = ''mw1-attempt-'', t_revision = 1, t_previous = Some 0, t_from =
         Some Reserved, t_to = Materializing, t_time = 6, t_event = 2\<rparr>, \<lparr>t_attempt
         = ''mw1-attempt-23'', t_revision = 0, t_previous = None, t_from = None, t_to =
         Reserved, t_time = 7, t_event = 3\<rparr>],
       leases := [\<lparr>l_id = ''first'', l_owner = ''worker'', l_attempt = Some
         ''mw1-attempt-'', l_purpose = Reservation, l_staging = None, l_acquired = 5, l_expires
         = 100, l_released = None\<rparr>, \<lparr>l_id = ''second'', l_owner = ''worker'',
         l_attempt = Some ''mw1-attempt-23'', l_purpose = Reservation, l_staging = None,
         l_acquired = 7, l_expires = 100, l_released = None\<rparr>]\<rparr>"

definition db_observed :: db where
  "db_observed = db_contended\<lparr>
       artifacts := [\<lparr>art_id = ''observed'', art_kind = ObservationArtifact, art_path =
         ''observed'', art_sha256 = hex (replicate 32 (CHR ''a'')), art_storage = DirectoryStorage, art_manifest = Some (hex (replicate 32 (CHR ''a''))), art_verified = 1\<rparr>],
       attempts := [\<lparr>a_id = ''mw1-attempt-'', a_slot = ''mw1-resolved-attempt-slot-'',
         a_retry = 0, a_state = Finalizing, a_revision = 2, a_started = 5, a_updated = 8,
         a_finished = None, a_failure = None, a_artifact = None\<rparr>, \<lparr>a_id =
         ''mw1-attempt-23'', a_slot = ''mw1-resolved-attempt-slot-'', a_retry = 1, a_state =
         Reserved, a_revision = 0, a_started = 7, a_updated = 7, a_finished = None, a_failure =
         None, a_artifact = None\<rparr>],
       events := [\<lparr>ev_sequence = 1, ev_attempt = Some ''mw1-attempt-'', ev_time = 5,
         ev_kind = ''attempt_reserved'', ev_payload = []\<rparr>, \<lparr>ev_sequence = 2,
         ev_attempt = Some ''mw1-attempt-'', ev_time = 6, ev_kind = ''attempt_transition'',
         ev_payload = []\<rparr>, \<lparr>ev_sequence = 3, ev_attempt = Some ''mw1-attempt-23'',
         ev_time = 7, ev_kind = ''attempt_reserved'', ev_payload = ''#''\<rparr>,
         \<lparr>ev_sequence = 4, ev_attempt = Some ''mw1-attempt-'', ev_time = 8, ev_kind =
         ''attempt_finalizing'', ev_payload = []\<rparr>],
       event_seq := 4,
       attempt_transitions := [\<lparr>t_attempt = ''mw1-attempt-'', t_revision = 0, t_previous
         = None, t_from = None, t_to = Reserved, t_time = 5, t_event = 1\<rparr>,
         \<lparr>t_attempt = ''mw1-attempt-'', t_revision = 1, t_previous = Some 0, t_from =
         Some Reserved, t_to = Materializing, t_time = 6, t_event = 2\<rparr>, \<lparr>t_attempt
         = ''mw1-attempt-23'', t_revision = 0, t_previous = None, t_from = None, t_to =
         Reserved, t_time = 7, t_event = 3\<rparr>, \<lparr>t_attempt = ''mw1-attempt-'',
         t_revision = 2, t_previous = Some 1, t_from = Some Materializing, t_to = Finalizing,
         t_time = 8, t_event = 4\<rparr>],
       leases := [\<lparr>l_id = ''first'', l_owner = ''worker'', l_attempt = Some
         ''mw1-attempt-'', l_purpose = Reservation, l_staging = None, l_acquired = 5, l_expires
         = 100, l_released = None\<rparr>, \<lparr>l_id = ''second'', l_owner = ''worker'',
         l_attempt = Some ''mw1-attempt-23'', l_purpose = Reservation, l_staging = None,
         l_acquired = 7, l_expires = 100, l_released = None\<rparr>, \<lparr>l_id = ''claim'',
         l_owner = ''worker'', l_attempt = Some ''mw1-attempt-'', l_purpose = Finalization,
         l_staging = None, l_acquired = 8, l_expires = 90, l_released = None\<rparr>],
       finalization_claims := [\<lparr>c_slot = ''mw1-resolved-attempt-slot-'', c_attempt =
         ''mw1-attempt-'', c_lease = ''claim''\<rparr>],
       observations := [\<lparr>o_id = ''mw1-observation-'', o_slot =
         ''mw1-resolved-observation-slot-'', o_attempt = ''mw1-attempt-'', o_attempt_slot =
         ''mw1-resolved-attempt-slot-'', o_valid = True, o_completion = NotRequired, o_artifact
         = ''observed'', o_record = []\<rparr>],
       selected_observations := [\<lparr>s_slot = ''mw1-resolved-observation-slot-'',
         s_observation = ''mw1-observation-'', s_time = 9\<rparr>]\<rparr>"

definition db_accepted :: db where
  "db_accepted = db_observed\<lparr>
       artifacts := [\<lparr>art_id = ''observed'', art_kind = ObservationArtifact, art_path =
         ''observed'', art_sha256 = hex (replicate 32 (CHR ''a'')), art_storage = DirectoryStorage, art_manifest = Some (hex (replicate 32 (CHR ''a''))), art_verified = 1\<rparr>, \<lparr>art_id = ''final'', art_kind =
         AttemptArtifact, art_path = ''final'', art_sha256 = hex (replicate 32 (CHR ''a'')), art_storage =
         DirectoryStorage, art_manifest = Some (hex (replicate 32 (CHR ''a''))), art_verified = 1\<rparr>],
       attempts := [\<lparr>a_id = ''mw1-attempt-'', a_slot = ''mw1-resolved-attempt-slot-'',
         a_retry = 0, a_state = Accepted, a_revision = 3, a_started = 5, a_updated = 10,
         a_finished = Some 10, a_failure = None, a_artifact = Some ''final''\<rparr>,
         \<lparr>a_id = ''mw1-attempt-23'', a_slot = ''mw1-resolved-attempt-slot-'', a_retry =
         1, a_state = Reserved, a_revision = 0, a_started = 7, a_updated = 7, a_finished = None,
         a_failure = None, a_artifact = None\<rparr>],
       events := [\<lparr>ev_sequence = 1, ev_attempt = Some ''mw1-attempt-'', ev_time = 5,
         ev_kind = ''attempt_reserved'', ev_payload = []\<rparr>, \<lparr>ev_sequence = 2,
         ev_attempt = Some ''mw1-attempt-'', ev_time = 6, ev_kind = ''attempt_transition'',
         ev_payload = []\<rparr>, \<lparr>ev_sequence = 3, ev_attempt = Some ''mw1-attempt-23'',
         ev_time = 7, ev_kind = ''attempt_reserved'', ev_payload = ''#''\<rparr>,
         \<lparr>ev_sequence = 4, ev_attempt = Some ''mw1-attempt-'', ev_time = 8, ev_kind =
         ''attempt_finalizing'', ev_payload = []\<rparr>, \<lparr>ev_sequence = 5, ev_attempt =
         Some ''mw1-attempt-'', ev_time = 10, ev_kind = ''attempt_finished'', ev_payload =
         []\<rparr>],
       event_seq := 5,
       attempt_transitions := [\<lparr>t_attempt = ''mw1-attempt-'', t_revision = 0, t_previous
         = None, t_from = None, t_to = Reserved, t_time = 5, t_event = 1\<rparr>,
         \<lparr>t_attempt = ''mw1-attempt-'', t_revision = 1, t_previous = Some 0, t_from =
         Some Reserved, t_to = Materializing, t_time = 6, t_event = 2\<rparr>, \<lparr>t_attempt
         = ''mw1-attempt-23'', t_revision = 0, t_previous = None, t_from = None, t_to =
         Reserved, t_time = 7, t_event = 3\<rparr>, \<lparr>t_attempt = ''mw1-attempt-'',
         t_revision = 2, t_previous = Some 1, t_from = Some Materializing, t_to = Finalizing,
         t_time = 8, t_event = 4\<rparr>, \<lparr>t_attempt = ''mw1-attempt-'', t_revision = 3,
         t_previous = Some 2, t_from = Some Finalizing, t_to = Accepted, t_time = 10, t_event =
         5\<rparr>],
       leases := [\<lparr>l_id = ''first'', l_owner = ''worker'', l_attempt = Some
         ''mw1-attempt-'', l_purpose = Reservation, l_staging = None, l_acquired = 5, l_expires
         = 100, l_released = Some 10\<rparr>, \<lparr>l_id = ''second'', l_owner = ''worker'',
         l_attempt = Some ''mw1-attempt-23'', l_purpose = Reservation, l_staging = None,
         l_acquired = 7, l_expires = 100, l_released = None\<rparr>, \<lparr>l_id = ''claim'',
         l_owner = ''worker'', l_attempt = Some ''mw1-attempt-'', l_purpose = Finalization,
         l_staging = None, l_acquired = 8, l_expires = 90, l_released = Some 10\<rparr>],
       finalization_claims := [],
       attempt_artifacts := [(''mw1-attempt-'', ''final'', ''final'')]\<rparr>"

definition guard_first :: owned_attempt where
  "guard_first = \<lparr>g_id = [], g_slot = [], g_retry = 0, g_revision = 1, g_updated = 6, g_lease = ''first'',
     g_owner = ''worker''\<rparr>"

definition guard_second :: owned_attempt where
  "guard_second = \<lparr>g_id = ''#'', g_slot = [], g_retry = 1, g_revision = 0, g_updated = 7, g_lease =
     ''second'', g_owner = ''worker''\<rparr>"

definition guard_final :: owned_attempt where
  "guard_final = \<lparr>g_id = [], g_slot = [], g_retry = 0, g_revision = 2, g_updated = 8, g_lease = ''first'',
     g_owner = ''worker''\<rparr>"

definition terminal_first :: terminal_attempt where
  "terminal_first = \<lparr>ta_id = [], ta_outcome = OutcomeAccepted, ta_finished = 10, ta_event = 5\<rparr>"

lemma demo_register_run:
  "register_one_shot demo zero_digest (demo_run zero_digest) (demo_slot zero_digest)
     (demo_observation_slot zero_digest) (empty_db 3) = Inr ((), db_registered)"
  by code_simp

lemma demo_contend_run: "demo_contend db_registered = Inr ((guard_first, guard_second), db_contended)"
  by code_simp

lemma demo_observe_run: "demo_observe guard_first db_contended = Inr (guard_final, db_observed)"
  by code_simp

lemma demo_accept_run: "demo_accept guard_final db_observed = Inr (terminal_first, db_accepted)"
  by code_simp

lemma reachable_registered: "reachable demo db_registered"
  by (rule reach_step [OF reach_new [of 3] step_register_one_shot [OF demo_register_run]]) simp

lemma reachable_contended: "reachable demo db_contended"
  using demo_contend_run reachable_registered unfolding demo_contend_def
  by (auto split: prod.splits) (metis reach_step step_reserve step_advance)

lemma reachable_observed: "reachable demo db_observed"
  using demo_observe_run reachable_contended unfolding demo_observe_def
  by (auto split: prod.splits)
    (metis reach_step step_begin_finalization step_import_artifact step_register_observation)

lemma reachable_accepted: "reachable demo db_accepted"
  using demo_accept_run reachable_observed unfolding demo_accept_def
  by (blast intro: reach_step step_commit_finalization)

text \<open>The second attempt reaches finalization after the acceptance and loses the claim.\<close>

definition db_lost :: db where
  "db_lost = db_accepted\<lparr>
       attempts := [\<lparr>a_id = ''mw1-attempt-'', a_slot = ''mw1-resolved-attempt-slot-'',
         a_retry = 0, a_state = Accepted, a_revision = 3, a_started = 5, a_updated = 10,
         a_finished = Some 10, a_failure = None, a_artifact = Some ''final''\<rparr>,
         \<lparr>a_id = ''mw1-attempt-23'', a_slot = ''mw1-resolved-attempt-slot-'', a_retry =
         1, a_state = Finalizing, a_revision = 1, a_started = 7, a_updated = 12, a_finished =
         None, a_failure = None, a_artifact = None\<rparr>],
       events := [\<lparr>ev_sequence = 1, ev_attempt = Some ''mw1-attempt-'', ev_time = 5,
         ev_kind = ''attempt_reserved'', ev_payload = []\<rparr>, \<lparr>ev_sequence = 2,
         ev_attempt = Some ''mw1-attempt-'', ev_time = 6, ev_kind = ''attempt_transition'',
         ev_payload = []\<rparr>, \<lparr>ev_sequence = 3, ev_attempt = Some ''mw1-attempt-23'',
         ev_time = 7, ev_kind = ''attempt_reserved'', ev_payload = ''#''\<rparr>,
         \<lparr>ev_sequence = 4, ev_attempt = Some ''mw1-attempt-'', ev_time = 8, ev_kind =
         ''attempt_finalizing'', ev_payload = []\<rparr>, \<lparr>ev_sequence = 5, ev_attempt =
         Some ''mw1-attempt-'', ev_time = 10, ev_kind = ''attempt_finished'', ev_payload =
         []\<rparr>, \<lparr>ev_sequence = 6, ev_attempt = Some ''mw1-attempt-23'', ev_time =
         12, ev_kind = ''attempt_finalizing'', ev_payload = []\<rparr>],
       event_seq := 6,
       attempt_transitions := [\<lparr>t_attempt = ''mw1-attempt-'', t_revision = 0, t_previous
         = None, t_from = None, t_to = Reserved, t_time = 5, t_event = 1\<rparr>,
         \<lparr>t_attempt = ''mw1-attempt-'', t_revision = 1, t_previous = Some 0, t_from =
         Some Reserved, t_to = Materializing, t_time = 6, t_event = 2\<rparr>, \<lparr>t_attempt
         = ''mw1-attempt-23'', t_revision = 0, t_previous = None, t_from = None, t_to =
         Reserved, t_time = 7, t_event = 3\<rparr>, \<lparr>t_attempt = ''mw1-attempt-'',
         t_revision = 2, t_previous = Some 1, t_from = Some Materializing, t_to = Finalizing,
         t_time = 8, t_event = 4\<rparr>, \<lparr>t_attempt = ''mw1-attempt-'', t_revision = 3,
         t_previous = Some 2, t_from = Some Finalizing, t_to = Accepted, t_time = 10, t_event =
         5\<rparr>, \<lparr>t_attempt = ''mw1-attempt-23'', t_revision = 1, t_previous = Some 0,
         t_from = Some Reserved, t_to = Finalizing, t_time = 12, t_event = 6\<rparr>]\<rparr>"

definition guard_lost :: owned_attempt where
  "guard_lost = \<lparr>g_id = ''#'', g_slot = [], g_retry = 1, g_revision = 1, g_updated = 12, g_lease =
     ''second'', g_owner = ''worker''\<rparr>"

lemma demo_lose_run:
  "begin_finalization demo guard_second (demo_lease ''late'' 90) 12 db_accepted
     = Inr ((guard_lost, SupersededClaim), db_lost)"
  by code_simp

lemma steps_observed_accepted: "store_steps demo db_observed db_accepted"
  using demo_accept_run unfolding demo_accept_def by (blast intro: step_commit_finalization)

lemma steps_contended_observed: "store_steps demo db_contended db_observed"
  using demo_observe_run unfolding demo_observe_def
  by (auto split: prod.splits)
    (meson rtranclp.intros step_begin_finalization step_import_artifact step_register_observation)

lemma steps_accepted_lost: "store_steps demo db_accepted db_lost"
  using demo_lose_run by (blast intro: step_begin_finalization)

lemmas demo_steps = steps_contended_observed steps_observed_accepted steps_accepted_lost

definition row_accepted :: attempt_row where
  "row_accepted = hd (attempts db_accepted)"

lemma row_accepted_in: "row_accepted \<in> set (attempts db_accepted)"
  by code_simp

lemma row_accepted_state: "a_state row_accepted = Accepted" "terminal_state (a_state row_accepted)"
  by code_simp+

section \<open>An expired owner\<close>

text \<open>
  Recovery reads the slot identity back from its text, so this part uses a digest of 32 bytes.
\<close>

definition long_digest :: digest where
  "long_digest = replicate 32 (CHR ''a'')"

definition demo_long :: externals where
  "demo_long = demo\<lparr>sha256 := (\<lambda>bs. long_digest)\<rparr>"

definition long_registered :: "unit run_state" where
  "long_registered = register_one_shot demo_long long_digest (demo_run long_digest) (demo_slot long_digest)
     (demo_observation_slot long_digest) (empty_db 1)"

definition long_reserved :: "owned_attempt run_state" where
  "long_reserved = res_bind long_registered (\<lambda>(_, db).
     reserve demo_long long_digest FirstAttempt (demo_lease ''first'' 100) 5 db)"

definition db_long :: db where
  "db_long = (empty_db 1)\<lparr>
     applicability_decisions := [unconditional_decision demo_long (candidate_text long_digest)],
     resolved_runs := [\<lparr>r_id = run_text long_digest,
       r_logical = record_id_display LogicalSpecificationKind long_digest,
       r_candidate = candidate_text long_digest,
       r_applicability = ''run-store-v1:unconditional:'' @ candidate_text long_digest, r_record = []\<rparr>],
     observation_slots := [\<lparr>os_id = observation_slot_text long_digest,
       os_logical = record_id_display LogicalObservationSlotKind long_digest,
       os_run = run_text long_digest, os_record = []\<rparr>],
     attempt_slots := [\<lparr>sl_id = slot_text long_digest,
       sl_logical = record_id_display LogicalAttemptSlotKind long_digest, sl_run = run_text long_digest,
       sl_kind = OneShot, sl_role = Measurement, sl_record = []\<rparr>],
     attempt_observation_slots := [\<lparr>sm_slot = slot_text long_digest,
       sm_observation_slot = observation_slot_text long_digest, sm_run = run_text long_digest\<rparr>],
     attempts := [new_attempt (attempt_text long_digest) (slot_text long_digest) 0 5],
     events := [\<lparr>ev_sequence = 1, ev_attempt = Some (attempt_text long_digest), ev_time = 5,
       ev_kind = ''attempt_reserved'', ev_payload = []\<rparr>],
     event_seq := 1,
     attempt_transitions := [\<lparr>t_attempt = attempt_text long_digest, t_revision = 0, t_previous = None,
       t_from = None, t_to = Reserved, t_time = 5, t_event = 1\<rparr>],
     leases := [\<lparr>l_id = ''first'', l_owner = ''worker'', l_attempt = Some (attempt_text long_digest),
       l_purpose = Reservation, l_staging = None, l_acquired = 5, l_expires = 100, l_released = None\<rparr>]\<rparr>"

definition guard_long :: owned_attempt where
  "guard_long = \<lparr>g_id = long_digest, g_slot = long_digest, g_retry = 0, g_revision = 0, g_updated = 5,
     g_lease = ''first'', g_owner = ''worker''\<rparr>"

lemma long_reserved_run: "long_reserved = Inr (guard_long, db_long)"
  by code_simp

lemma reachable_long: "reachable demo_long db_long"
proof -
  from long_reserved_run obtain db where
    reg: "register_one_shot demo_long long_digest (demo_run long_digest) (demo_slot long_digest)
      (demo_observation_slot long_digest) (empty_db 1) = Inr ((), db)"
    and res: "reserve demo_long long_digest FirstAttempt (demo_lease ''first'' 100) 5 db = Inr (guard_long, db_long)"
    unfolding long_reserved_def long_registered_def by auto
  show ?thesis
    by (rule reach_step [OF reach_step [OF reach_new [of 1] step_register_one_shot [OF reg]] step_reserve [OF res]])
      simp
qed

definition db_taken :: db where
  "db_taken = snd (projr (recover_take demo_long (aid guard_long) 200 db_long))"

lemma recover_take_run:
  "recover_take demo_long (aid guard_long) 200 db_long
     = Inr (Some (guard_long\<lparr>g_revision := 1, g_updated := 200\<rparr>), db_taken)"
  by code_simp

end
