(* ===== verification/Run_Allowance.thy ===== *)
theory Run_Allowance
  imports Run_Sequences Run_Demo
begin

text \<open>
  The two contracts of a fresh sequence, over every reachable store, with a concrete sequence that
  has reserved part of its budget.
\<close>

section \<open>A concrete sequence\<close>

definition demo_policy :: profile_policy where
  "demo_policy = \<lparr>pp_metric = None, pp_direction = None, pp_threshold = None, pp_record_thresholds = [],
     pp_max_observations = 4, pp_max_checkpoint_bytes = 0, pp_max_trace_points = 0,
     pp_max_buffer_bytes = 0, pp_terminal_reserve_bytes = 0, pp_max_active_time = ''1ms''\<rparr>"

definition demo_point :: fresh_point where
  "demo_point = \<lparr>fp_measurement_index = 0, fp_schedule_index = 0, fp_control = JObject [],
     fp_policy = demo_policy\<rparr>"

definition db_member :: db where
  "db_member = db_registered\<lparr>
     attempt_slots := map (\<lambda>s. s\<lparr>sl_kind := FreshObservation\<rparr>) (attempt_slots db_registered),
     fresh_sequences := [\<lparr>fs_run = run_text zero_digest, fs_index = 0, fs_policy = []\<rparr>],
     fresh_members := [\<lparr>fm_slot = slot_text zero_digest, fm_run = run_text zero_digest, fm_index = 0,
       fm_schedule = 0, fm_control = []\<rparr>]\<rparr>"

lemma register_fresh_run:
  "register_fresh demo zero_digest (demo_run zero_digest) (demo_slot zero_digest)
     (demo_observation_slot zero_digest) demo_point (empty_db 3) = (Inr (), db_member)"
  by code_simp

definition demo_spend :: "db \<Rightarrow> u64 option run_state" where
  "demo_spend db =
     res_bind (reserve demo zero_digest FirstAttempt (demo_lease ''first'' 100) 5 db) (\<lambda>(g, db).
       reserve_fresh_time demo g (Some 700000) 6 db)"

definition db_spending :: db where
  "db_spending = db_member\<lparr>
     attempts := [new_attempt (attempt_text zero_digest) (slot_text zero_digest) 0 5],
     events := [\<lparr>ev_sequence = 1, ev_attempt = Some (attempt_text zero_digest), ev_time = 5,
       ev_kind = ''attempt_reserved'', ev_payload = []\<rparr>],
     event_seq := 1,
     attempt_transitions := [\<lparr>t_attempt = attempt_text zero_digest, t_revision = 0, t_previous = None,
       t_from = None, t_to = Reserved, t_time = 5, t_event = 1\<rparr>],
     leases := [\<lparr>l_id = ''first'', l_owner = ''worker'', l_attempt = Some (attempt_text zero_digest),
       l_purpose = Reservation, l_staging = None, l_acquired = 5, l_expires = 100, l_released = None\<rparr>],
     fresh_budget := [\<lparr>b_attempt = attempt_text zero_digest, b_reserved = 700000, b_charged = None\<rparr>]\<rparr>"

lemma demo_spend_run: "demo_spend db_member = Inr (Some 700000, db_spending)"
  by code_simp

lemma reachable_spending: "reachable demo db_spending"
proof -
  have "db_member = snd (register_fresh demo zero_digest (demo_run zero_digest) (demo_slot zero_digest)
      (demo_observation_slot zero_digest) demo_point (empty_db 3))"
    by (simp only: register_fresh_run snd_conv)
  from reach_step [OF reach_new [of 3] step_register_fresh [OF this]] have m: "reachable demo db_member"
    by simp
  from demo_spend_run obtain g db where
    "reserve demo zero_digest FirstAttempt (demo_lease ''first'' 100) 5 db_member = Inr (g, db)"
    "reserve_fresh_time demo g (Some 700000) 6 db = Inr (Some 700000, db_spending)"
    by (auto simp: demo_spend_def)
  with m show ?thesis by (meson reach_step step_reserve step_reserve_fresh_time)
qed

section \<open>The contracts\<close>

text \<open>
  C19 (fresh_budget_never_overdrawn): in every reachable store the time the attempts of a fresh
  sequence have reserved or charged is within the active-time limit of the sequence's policy, so
  that the allowance the store computes never goes below zero.
\<close>

theorem fresh_budget_never_overdrawn:
  assumes "reachable X db" "policy_limit X db run index = Inr limit"
  shows "used_time db run index \<le> limit"
  using reachable_budget_ok [OF assms(1)] assms(2) by (simp add: budget_ok_def within_limit_def)

theorem fresh_budget_never_overdrawn_witness:
  "used_time db_spending (run_text zero_digest) 0 \<le> 1000000
   \<and> used_time db_spending (run_text zero_digest) 0 = 700000"
proof
  have "policy_limit demo db_spending (run_text zero_digest) 0 = Inr 1000000" by code_simp
  then show "used_time db_spending (run_text zero_digest) 0 \<le> 1000000"
    by (rule fresh_budget_never_overdrawn [OF reachable_spending])
  show "used_time db_spending (run_text zero_digest) 0 = 700000" by code_simp
qed

text \<open>
  C20 (sequence_runs_one_attempt): in every reachable store at most one attempt of a fresh sequence
  is unfinished.
\<close>

theorem sequence_runs_one_attempt:
  assumes "reachable X db"
  shows "length (filter (\<lambda>a. a_finished a = None \<and> a_slot a \<in> set (sequence_slots db run index)) (attempts db)) \<le> 1"
    (is "length ?rows \<le> 1")
proof -
  have "distinct (attempts db)"
    using reachable_history_ok [OF assms] by (simp add: history_ok_def distinct_map)
  then have "length ?rows = card (set ?rows)" by (intro distinct_card [symmetric] distinct_filter)
  moreover have "a = a'" if "a \<in> set ?rows" "a' \<in> set ?rows" for a a'
  proof -
    from that obtain m m' where "m \<in> set (fresh_members db)" "fm_slot m = a_slot a"
      "m' \<in> set (fresh_members db)" "fm_slot m' = a_slot a'" "fm_run m = run" "fm_run m' = run"
      "fm_index m = index" "fm_index m' = index"
      by (auto simp: sequence_slots_def split: if_splits)
    then have "same_sequence db a a'" unfolding same_sequence_def by metis
    with that reachable_sequences_ok [OF assms] show ?thesis by (simp add: sequences_ok_def)
  qed
  then have "card (set ?rows) \<le> 1"
    unfolding One_nat_def by (subst card_le_Suc0_iff_eq [OF finite_set]) blast
  ultimately show ?thesis by simp
qed

theorem sequence_runs_one_attempt_witness:
  "length (filter (\<lambda>a. a_finished a = None \<and> a_slot a \<in> set (sequence_slots db_spending (run_text zero_digest) 0))
     (attempts db_spending)) \<le> 1"
  by (rule sequence_runs_one_attempt [OF reachable_spending])

end
