(* ===== verification/Run_Ledger.thy ===== *)
theory Run_Ledger
  imports Run_Sequences
begin

text \<open>
  The audit trail: every recorded transition has its own event, of the same attempt and time.  With
  it and the other invariants, an owner that passes the fence is never stuck: every legal next phase
  can be entered.
\<close>

section \<open>Transitions and their events\<close>

definition recorded :: "db \<Rightarrow> transition_row \<Rightarrow> bool" where
  "recorded db t \<longleftrightarrow> list_ex (\<lambda>e. ev_sequence e = t_event t \<and> ev_attempt e = Some (t_attempt t)
     \<and> ev_time e = t_time t) (events db)"

definition ledger_ok :: "db \<Rightarrow> bool" where
  "ledger_ok db \<longleftrightarrow>
     transitions_unique (attempt_transitions db) \<and> list_all (recorded db) (attempt_transitions db)"

definition keeps_ledger :: "db \<Rightarrow> db \<Rightarrow> bool" where
  "keeps_ledger db db' \<longleftrightarrow> (ledger_ok db \<longrightarrow> ledger_ok db')"

lemma recorded_grow: "set (events db) \<subseteq> set (events db') \<Longrightarrow> recorded db t \<Longrightarrow> recorded db' t"
  by (auto simp: recorded_def list_ex_iff)

lemma keeps_ledger_frame:
  assumes "attempt_transitions db' = attempt_transitions db" "set (events db) \<subseteq> set (events db')"
  shows "keeps_ledger db db'"
  using assms recorded_grow [OF assms(2)] by (auto simp: keeps_ledger_def ledger_ok_def list_all_iff)

lemma keeps_ledger_insert_transition:
  "insert_transition t db = Inr db' \<Longrightarrow> keeps_ledger db db'"
  by (auto simp: keeps_ledger_def ledger_ok_def insert_transition_def transition_references_def
      recorded_def list_all_iff)

lemma keeps_ledger_trans: "keeps_ledger db1 db2 \<Longrightarrow> keeps_ledger db2 db3 \<Longrightarrow> keeps_ledger db1 db3"
  by (simp add: keeps_ledger_def)

lemma keeps_ledger_append:
  assumes "append_transition X x from to n now details db = Inr db'"
  shows "keeps_ledger db db'"
proof -
  from assms obtain k payload sq db1 t where "insert_event X x now k payload db = Inr (sq, db1)"
    and t: "insert_transition t db1 = Inr db'"
    by (auto simp: append_transition_def)
  then have "keeps_ledger db db1"
    by (intro keeps_ledger_frame) (auto simp: insert_event_def split: if_splits)
  with keeps_ledger_insert_transition [OF t] show ?thesis by (blast intro: keeps_ledger_trans)
qed

lemma keeps_ledger_transition:
  assumes "transition X g from to now details term db = Inr (g', db')"
  shows "keeps_ledger db db'"
proof -
  from assms obtain db1 a where
    app: "append_transition X (aid g) (Some from) to (g_revision g + 1) (max now (g_updated g)) details db = Inr db1"
    and upd: "update_attempt (aid g) (g_revision g) (project to (g_revision g + 1) (max now (g_updated g)) term) db1
       = Inr (1, db')"
    by (rule transition_Ok)
  have "keeps_ledger db1 db'"
    using update_attempt_Ok(1) [OF upd] by (intro keeps_ledger_frame) auto
  with keeps_ledger_append [OF app] show ?thesis by (blast intro: keeps_ledger_trans)
qed

lemma keeps_ledger_reserve:
  assumes "reserve X slot auth lease now db = Inr (g, db')"
  shows "keeps_ledger db db'"
proof -
  from assms obtain x n db1 db2 details where
    "insert_attempt (new_attempt x (slot_text slot) n now) db = Inr db1"
    "insert_lease x Reservation lease now db1 = Inr db2"
    and app: "append_transition X x None Reserved 0 now details db2 = Inr db'"
    by (auto simp: reserve_def split: if_splits)
  then have "keeps_ledger db db2"
    by (intro keeps_ledger_frame)
      (auto simp: insert_attempt_def insert_lease_def insert_lease_row_def split: if_splits)
  with keeps_ledger_append [OF app] show ?thesis by (blast intro: keeps_ledger_trans)
qed

interpretation ledger: unit_closed X keeps_ledger for X
proof
  fix X slot auth lease now db g db'
  assume "reserve X slot auth lease now db = Inr (g, db')"
  then show "keeps_ledger db db'" by (rule keeps_ledger_reserve)
next
  fix X g "from" to now details "term" db g' db'
  assume "transition X g from to now details term db = Inr (g', db')"
  then show "keeps_ledger db db'" by (rule keeps_ledger_transition)
next
  fix X g limit now db res db'
  assume "reserve_fresh_time X g limit now db = Inr (res, db')"
  then show "keeps_ledger db db'"
    by (auto simp: reserve_fresh_time_def Let_def statement_defs split: option.splits if_splits prod.splits
        intro!: keeps_ledger_frame)
qed (simp add: keeps_ledger_def, simp add: keeps_ledger_def,
   (rule keeps_ledger_frame; auto simp: update_leases_def Let_def statement_defs split: if_splits)+)

lemma reachable_ledger_ok: "reachable X db \<Longrightarrow> ledger_ok db"
proof (induction rule: reachable.induct)
  case (reach_new version)
  then show ?case by (simp add: ledger_ok_def empty_db_def transitions_unique_def)
next
  case (reach_step db db')
  then show ?case using ledger.step_closed by (simp add: keeps_ledger_def)
qed

end
