(* ===== verification/Run_Ownership.thy ===== *)
theory Run_Ownership
  imports Run_Demo
begin

text \<open>
  The contracts of the run store that hold of every reachable database: legal and permanent
  histories, one accepted attempt per slot, retry numbering, fencing of superseded guards, the
  exclusivity of finalization claims, and that recovery takes an attempt only from a fenced owner.
\<close>

section \<open>Reading the invariant\<close>

lemma reachable_parts:
  assumes "reachable X db"
  shows "history_ok db" "attempts_ok X db" "leases_ok db" "claims_ok db" "events_ok db" "selections_ok db"
  using reachable_store_ok [OF assms] by (simp_all add: store_ok_def)

lemma attempt_unique_id:
  assumes "reachable X db" "a \<in> set (attempts db)" "b \<in> set (attempts db)" "a_id a = a_id b"
  shows "a = b"
  using reachable_parts(1) [OF assms(1)] assms(2-4) unfolding history_ok_def
  by (metis distinct_map inj_onD)

lemma reachable_follows:
  "reachable X db \<Longrightarrow> a \<in> set (attempts db) \<Longrightarrow> follows a (history db (a_id a))"
  using reachable_parts(1) by (simp add: history_ok_def)

lemma attempt_later:
  assumes "store_steps X db db'" "a \<in> set (attempts db)"
  obtains a' where "a' \<in> set (attempts db')" "attempt_le a a'"
proof -
  have "extends attempt_le (attempts db) (attempts db')"
    using grows.steps_closed [OF assms(1)] by (simp add: evolves_def)
  from extends_mem [OF this assms(2)] that show ?thesis by blast
qed

lemma terminal_later:
  assumes "store_steps X db db'" "a \<in> set (attempts db)" "terminal_state (a_state a)"
  shows "a \<in> set (attempts db')"
  using attempt_later [OF assms(1,2)] assms(3) by (metis attempt_le_def)

lemma transitions_prefix:
  assumes "store_steps X db db'"
  obtains ts where "attempt_transitions db' = attempt_transitions db @ ts"
  using grows.steps_closed [OF assms] unfolding evolves_def extends_eq_prefix by (metis append_take_drop_id)

section \<open>Histories\<close>

text \<open>
  C1 (attempt_history_legal): in every reachable store the recorded transitions of an attempt are
  numbered 0, 1, ... up to its revision, start at its reservation, take only edges of the attempt
  state machine from where the previous one ended, never go back in time, and end in the state and
  time the attempt's row shows.
\<close>

theorem attempt_history_legal:
  assumes "reachable X db" "a \<in> set (attempts db)"
  shows "follows a (history db (a_id a))"
  using assms by (rule reachable_follows)

theorem attempt_history_legal_witness:
  "a_revision row_accepted = 3 \<and> follows row_accepted (history db_accepted (a_id row_accepted))"
proof
  show "a_revision row_accepted = 3" by code_simp
  show "follows row_accepted (history db_accepted (a_id row_accepted))"
    by (rule attempt_history_legal [OF reachable_accepted row_accepted_in])
qed

text \<open>
  Once an attempt is terminal, no sequence of store operations
  changes its row or adds to its history.
\<close>

theorem terminal_attempts_permanent:
  assumes "reachable X db" "a \<in> set (attempts db)" "terminal_state (a_state a)" "store_steps X db db'"
  shows "a \<in> set (attempts db') \<and> history db' (a_id a) = history db (a_id a)"
proof -
  have a': "a \<in> set (attempts db')" using terminal_later assms by blast
  have "length (history db (a_id a)) = length (history db' (a_id a))"
    using reachable_follows [OF assms(1,2)]
      reachable_follows [OF reachable_steps [OF assms(4,1)] a'] by (simp add: follows_def)
  moreover obtain ts where "attempt_transitions db' = attempt_transitions db @ ts"
    using transitions_prefix [OF assms(4)] .
  ultimately show ?thesis using a' by (simp add: history_def)
qed

theorem terminal_attempts_permanent_witness:
  "row_accepted \<in> set (attempts db_lost)
   \<and> history db_lost (a_id row_accepted) = history db_accepted (a_id row_accepted)"
  by (rule terminal_attempts_permanent
      [OF reachable_accepted row_accepted_in row_accepted_state(2) steps_accepted_lost])

section \<open>Slots\<close>

lemma accepted_unique:
  assumes "reachable X db" "a \<in> set (attempts db)" "b \<in> set (attempts db)"
    "a_slot a = a_slot b" "a_state a = Accepted" "a_state b = Accepted"
  shows "a = b"
proof -
  have "distinct (map a_slot (filter (\<lambda>r. a_state r = Accepted) (attempts db)))"
    using reachable_parts(2) [OF assms(1)] by (simp add: attempts_ok_def attempts_unique_def)
  with assms(2-6) show ?thesis unfolding distinct_map by (auto dest: inj_onD)
qed

text \<open>
  C3 (accepted_at_most_once): a slot never has two accepted attempts, also when the two acceptances
  happen in different reachable stores of one execution.
\<close>

theorem accepted_at_most_once:
  assumes "reachable X db" "store_steps X db db'"
    "a \<in> set (attempts db)" "a_state a = Accepted"
    "b \<in> set (attempts db')" "a_state b = Accepted" "a_slot b = a_slot a"
  shows "b = a"
proof -
  have "a \<in> set (attempts db')"
    using terminal_later [OF assms(2,3)] assms(4) by (simp add: terminal_state_def)
  with accepted_unique [OF reachable_steps [OF assms(2,1)]] assms show ?thesis by metis
qed

theorem accepted_at_most_once_witness: "hd (attempts db_lost) = row_accepted"
proof (rule accepted_at_most_once [OF reachable_accepted steps_accepted_lost row_accepted_in row_accepted_state(1)])
  show "hd (attempts db_lost) \<in> set (attempts db_lost)" by code_simp
  show "a_state (hd (attempts db_lost)) = Accepted" by code_simp
  show "a_slot (hd (attempts db_lost)) = a_slot row_accepted" by code_simp
qed

lemma slot_attempt_count:
  assumes "reachable X db"
  shows "slot_retries db (slot_text slot) = {..<sp_attempts (slot_progress_of db slot)}"
proof -
  let ?rows = "filter (\<lambda>a. a_slot a = slot_text slot) (attempts db)"
  from reachable_parts(2) [OF assms] obtain n where n: "slot_retries db (slot_text slot) = {..<n}"
    and "distinct (map (\<lambda>r. (a_slot r, a_retry r)) (attempts db))"
    unfolding attempts_ok_def attempts_unique_def by meson
  then have "distinct (map a_retry ?rows)"
    by (auto simp: distinct_map inj_on_def)
  then have "card {..<n} = length ?rows"
    using n distinct_card unfolding slot_retries_def by (metis length_map)
  with n show ?thesis by (simp add: slot_progress_of_def)
qed

text \<open>
  C10 (accepted_slot_closed): from the moment a slot has an accepted attempt, no reservation of that
  slot succeeds in any later store, whatever the authorization, the lease and the clock.
\<close>

theorem accepted_slot_closed:
  assumes "satisfied db (slot_text slot)" "store_steps X db db'"
  shows "satisfied db' (slot_text slot) \<and> \<not> is_ok (reserve X slot auth lease now db')"
proof -
  from assms(1) obtain a where "a \<in> set (attempts db)" "a_slot a = slot_text slot" "a_state a = Accepted"
    by (auto simp: satisfied_def list_ex_iff)
  with terminal_later [OF assms(2)] have sat: "satisfied db' (slot_text slot)"
    by (auto simp: satisfied_def list_ex_iff terminal_state_def)
  have "reserve X slot auth lease now db' \<noteq> Inr r" for r
    using sat reserve_Ok [of X slot auth lease now db' "fst r" "snd r"] by auto
  with sat show ?thesis by (cases "reserve X slot auth lease now db'") auto
qed

theorem accepted_slot_closed_witness:
  "satisfied db_lost (slot_text zero_digest)
   \<and> \<not> is_ok (reserve demo zero_digest (Next True) (demo_lease ''again'' 100) 20 db_lost)"
proof (rule accepted_slot_closed [OF _ steps_accepted_lost])
  show "satisfied db_accepted (slot_text zero_digest)" by code_simp
qed

text \<open>
  C11 (attempts_numbered): the attempts of a slot carry exactly the retry indices 0, ..., n - 1 where
  n is the attempt count the store reports for the slot, each once, and every attempt's identity is
  the one computed from its slot and its retry index.
\<close>

theorem attempts_numbered:
  assumes "reachable X db"
  shows "set (map a_retry (filter (\<lambda>a. a_slot a = slot_text slot) (attempts db)))
      = {..<sp_attempts (slot_progress_of db slot)}
    \<and> (\<forall>a \<in> set (attempts db). attempt_identity X a)"
  using slot_attempt_count [OF assms, of slot] reachable_parts(2) [OF assms]
  by (simp add: slot_retries_def attempts_ok_def)

theorem attempts_numbered_witness:
  "set (map a_retry (filter (\<lambda>a. a_slot a = slot_text zero_digest) (attempts db_lost)))
      = {..<sp_attempts (slot_progress_of db_lost zero_digest)}
    \<and> attempt_identity demo (hd (attempts db_lost))"
proof -
  have "hd (attempts db_lost) \<in> set (attempts db_lost)" by code_simp
  with attempts_numbered [OF reachable_steps [OF steps_accepted_lost reachable_accepted], of zero_digest]
  show ?thesis by blast
qed

section \<open>Fencing\<close>

text \<open>A guard is superseded when its attempt has moved on from the guard's revision or is over.\<close>

definition superseded_guard :: "owned_attempt \<Rightarrow> db \<Rightarrow> bool" where
  "superseded_guard g db \<longleftrightarrow>
     list_ex (\<lambda>a. a_id a = aid g \<and> (g_revision g < a_revision a \<or> a_finished a \<noteq> None)) (attempts db)"

lemma superseded_later:
  assumes "reachable X db" "superseded_guard g db" "store_steps X db db'"
  shows "superseded_guard g db'"
proof -
  from assms(2) obtain a where a: "a \<in> set (attempts db)" "a_id a = aid g"
    "g_revision g < a_revision a \<or> a_finished a \<noteq> None"
    by (auto simp: superseded_guard_def list_ex_iff)
  from attempt_later [OF assms(3) a(1)] obtain a' where a': "a' \<in> set (attempts db')" "attempt_le a a'" .
  have "a_finished a \<noteq> None \<longrightarrow> a' = a"
    using reachable_parts(2) [OF assms(1)] a(1) a'(2)
    by (auto simp: attempts_ok_def attempt_check_def attempt_le_def)
  with a a' show ?thesis by (auto simp: superseded_guard_def list_ex_iff attempt_le_def)
qed

lemma superseded_not_fenced:
  assumes "reachable X db" "superseded_guard g db"
  shows "fence g now db \<noteq> Inr st"
proof
  assume "fence g now db = Inr st"
  then obtain b where b: "b \<in> set (attempts db)" "fence_attempt g b" by (rule fence_Ok)
  from assms(2) obtain a where "a \<in> set (attempts db)" "a_id a = aid g"
    "g_revision g < a_revision a \<or> a_finished a \<noteq> None"
    by (auto simp: superseded_guard_def list_ex_iff)
  with attempt_unique_id [OF assms(1) b(1)] b show False by (auto simp: fence_attempt_def)
qed

text \<open>Every operation on a guard passes the fence first.\<close>

lemma guarded_ops:
  "is_ok (advance X g phase now db) \<Longrightarrow> \<exists>t st. fence g t db = Inr st"
  "is_ok (renew g expires now db) \<Longrightarrow> \<exists>t st. fence g t db = Inr st"
  "is_ok (begin_finalization X g lease now db) \<Longrightarrow> \<exists>t st. fence g t db = Inr st"
  "is_ok (commit_finalization X g outcome artifact refs now db) \<Longrightarrow> \<exists>t st. fence g t db = Inr st"
  "is_ok (reserve_fresh_time X g limit now db) \<Longrightarrow> \<exists>t st. fence g t db = Inr st"
  "is_ok (record_fresh_time g m now db) \<Longrightarrow> \<exists>t st. fence g t db = Inr st"
  "is_ok (register_observation X g ob artifact sel now db) \<Longrightarrow> \<exists>t st. fence g t db = Inr st"
  "is_ok (stage_transaction g relative now db) \<Longrightarrow> \<exists>t st. fence g t db = Inr st"
  "is_ok (publish_artifact_transaction g stg artifact kind now db) \<Longrightarrow> \<exists>t st. fence g t db = Inr st"
  "is_ok (publish_finalization_transaction X g outcome artifact refs doc fin stg now db)
     \<Longrightarrow> \<exists>t st. fence g t db = Inr st"
  unfolding is_ok_iff
  by (fastforce simp: advance_def renew_def begin_finalization_def commit_finalization_def
      commit_finalization_in_def validate_finalization_def reserve_fresh_time_def record_fresh_time_def
      register_observation_def stage_transaction_def publish_artifact_transaction_def
      publish_finalization_transaction_def check_stage_def Let_def split: if_splits)+

text \<open>
  C2 (superseded_guard_powerless): a guard whose attempt has moved to a later revision, or is over,
  stays powerless in every later store: none of the operations that act for an attempt's owner
  succeeds with it at any time.
\<close>

theorem superseded_guard_powerless:
  assumes "reachable X db" "superseded_guard g db" "store_steps X db db'"
  shows "\<not> is_ok (advance X g phase now db')
    \<and> \<not> is_ok (renew g expires now db')
    \<and> \<not> is_ok (begin_finalization X g lease now db')
    \<and> \<not> is_ok (commit_finalization X g outcome artifact refs now db')
    \<and> \<not> is_ok (reserve_fresh_time X g limit now db')
    \<and> \<not> is_ok (record_fresh_time g m now db')
    \<and> \<not> is_ok (register_observation X g ob artifact sel now db')
    \<and> \<not> is_ok (stage_transaction g relative now db')
    \<and> \<not> is_ok (publish_artifact_transaction g stg artifact kind now db')
    \<and> \<not> is_ok (publish_finalization_transaction X g outcome artifact refs doc fin stg now db')"
  using superseded_not_fenced [OF reachable_steps [OF assms(3,1)] superseded_later [OF assms]] guarded_ops
  by (intro conjI notI) metis+

theorem superseded_guard_powerless_witness:
  "\<not> is_ok (advance demo guard_first StartingPhase 11 db_accepted)
    \<and> \<not> is_ok (renew guard_first 200 11 db_accepted)"
proof -
  have "superseded_guard guard_first db_observed" by code_simp
  from superseded_guard_powerless [OF reachable_observed this steps_observed_accepted]
  show ?thesis by blast
qed

lemma query_optional_const:
  "c \<in> set xs \<Longrightarrow> (\<And>x. x \<in> set xs \<Longrightarrow> x = c) \<Longrightarrow> query_optional xs = Some c"
  by (metis list.set_intros(1) list.simps(5) neq_Nil_conv empty_iff list.set(1) query_optional_def)

lemma fence_intro:
  assumes r: "reachable X db" and a: "a \<in> set (attempts db)" "fence_attempt g a"
    and l: "l \<in> set (leases db)" "fence_lease g (max now (g_updated g)) l"
    and f: "\<not> foreign_claim g (max now (g_updated g)) db"
    and t: "g_retry g \<le> I64_MAX" "g_revision g \<le> I64_MAX" "g_updated g \<le> I64_MAX"
  shows "fence g now db = Inr (a_state a)"
proof -
  let ?t = "max now (g_updated g)"
  let ?rows = "[a_state a. a \<leftarrow> attempts db, fence_attempt g a,
      l \<leftarrow> leases db, fence_lease g ?t l \<and> \<not> foreign_claim g ?t db]"
  have "a_state a \<in> set ?rows" using a l f by auto
  moreover have "s = a_state a" if "s \<in> set ?rows" for s
  proof -
    from that obtain b where b: "b \<in> set (attempts db)" "fence_attempt g b" "s = a_state b"
      by (auto split: if_splits)
    with a attempt_unique_id [OF r b(1) a(1)] show ?thesis by (simp add: fence_attempt_def)
  qed
  ultimately have "query_optional ?rows = Some (a_state a)"
    by (rule query_optional_const)
  with t show ?thesis by (simp add: fence_def Let_def timestamp_def)
qed

lemma phase_not_terminal: "\<not> terminal_state (phase_state phase)"
  by (cases phase) (auto simp: terminal_state_def)

lemma transition_row:
  assumes r: "reachable X db" and tr: "transition X g from to now details term db = Inr (g', db')"
    and a: "a \<in> set (attempts db)" "fence_attempt g a"
  shows "project to (g_revision g + 1) (max now (g_updated g)) term a \<in> set (attempts db')"
    and "legal_edge (a_state a) to" and "from = a_state a"
    and "g' = g\<lparr>g_revision := g_revision g + 1, g_updated := max now (g_updated g)\<rparr>"
    and "leases db' = leases db" "finalization_claims db' = finalization_claims db"
    and "g_revision g + 1 \<le> MAX_SAFE_INTEGER"
proof -
  show "project to (g_revision g + 1) (max now (g_updated g)) term a \<in> set (attempts db')"
    using transition_frame(2) [OF tr] a by (force simp: fence_attempt_def)
  show "legal_edge (a_state a) to"
    using transition_edge [OF reachable_parts(1) [OF r] tr a(1)] a(2) by (simp add: fence_attempt_def)
  from tr obtain db1 b where
    app: "append_transition X (aid g) (Some from) to (g_revision g + 1) (max now (g_updated g)) details db = Inr db1"
    and g': "g' = g\<lparr>g_revision := g_revision g + 1, g_updated := max now (g_updated g)\<rparr>"
    and mx: "g_revision g + 1 \<le> MAX_SAFE_INTEGER"
    by (rule transition_Ok)
  show "g' = g\<lparr>g_revision := g_revision g + 1, g_updated := max now (g_updated g)\<rparr>"
    "g_revision g + 1 \<le> MAX_SAFE_INTEGER" by fact+
  show "leases db' = leases db" "finalization_claims db' = finalization_claims db"
    by (subst transition_frame(1) [OF tr], simp)+
  from append_transition_Ok [OF app] obtain u where
    u: "u \<in> set (attempt_transitions db)" "t_attempt u = aid g" "t_revision u = g_revision g" "t_to u = from"
    by (metis add_diff_cancel_right' zero_less_Suc Suc_eq_plus1)
  then have "u \<in> set (history db (aid g))" by (simp add: history_def)
  moreover have "follows a (history db (aid g))"
    using reachable_follows [OF r a(1)] a(2) by (simp add: fence_attempt_def)
  ultimately show "from = a_state a"
    using u a(2) unfolding follows_def history_step_def fence_attempt_def
    by (metis in_set_conv_nth less_Suc_eq_le)
qed

text \<open>
  A successful \<open>advance\<close> takes an edge of the attempt state machine from
  the state the fence saw, supersedes the guard it was called with, and returns the guard that owns
  the attempt from then on.
\<close>

theorem advance_hands_over:
  assumes r: "reachable X db" and adv: "advance X g phase now db = Inr (g', db')"
  shows "(\<exists>st. fence g now db = Inr st \<and> legal_edge st (phase_state phase))
    \<and> superseded_guard g db' \<and> fence g' now db' = Inr (phase_state phase)
    \<and> g' = g\<lparr>g_revision := g_revision g + 1, g_updated := max now (g_updated g)\<rparr>"
proof -
  from adv obtain st where st: "fence g now db = Inr st" and now: "now \<le> I64_MAX"
    and tr: "transition X g st (phase_state phase) now (JObject []) None db = Inr (g', db')"
    by (auto simp: advance_def timestamp_def split: if_splits)
  from st obtain a l where a: "a \<in> set (attempts db)" "fence_attempt g a" "a_state a = st"
    and l: "l \<in> set (leases db)" "fence_lease g (max now (g_updated g)) l"
    and f: "\<not> foreign_claim g (max now (g_updated g)) db"
    by (rule fence_Ok)
  note row = transition_row [OF r tr a(1,2)]
  let ?a = "project (phase_state phase) (g_revision g + 1) (max now (g_updated g)) None a"
  have r': "reachable X db'" using reach_step [OF r step_advance [OF adv]] .
  have g: "g_retry g \<le> I64_MAX" "g_updated g \<le> I64_MAX"
    using st by (auto simp: fence_def timestamp_def split: if_splits)
  have "fence g' now db' = Inr (a_state ?a)"
    by (rule fence_intro [OF r' row(1)])
      (use a(2) l f g row(4-7) now in
        \<open>auto simp: fence_attempt_def fence_lease_def foreign_claim_def project_def I64_MAX_def MAX_SAFE_INTEGER_def\<close>)
  moreover have "superseded_guard g db'"
    using row(1) a(2) by (auto simp: superseded_guard_def list_ex_iff fence_attempt_def intro!: bexI [of _ ?a])
  ultimately show ?thesis using st a(3) row(2,4) by simp
qed

definition db_advanced :: db where
  "db_advanced = snd (projr (advance demo guard_first StartingPhase 8 db_contended))"

theorem advance_hands_over_witness:
  "superseded_guard guard_first db_advanced
   \<and> fence (guard_first\<lparr>g_revision := 2, g_updated := 8\<rparr>) 8 db_advanced = Inr Starting"
proof -
  have "advance demo guard_first StartingPhase 8 db_contended
      = Inr (guard_first\<lparr>g_revision := 2, g_updated := 8\<rparr>, db_advanced)"
    by code_simp
  from advance_hands_over [OF reachable_contended this] show ?thesis
    unfolding phase_state.simps by blast
qed

section \<open>Owner and recovery\<close>

lemma reservation_unique:
  assumes "reachable X db" "l \<in> set (leases db)" "k \<in> set (leases db)" "l_attempt l = l_attempt k"
    "l_purpose l = Reservation" "l_purpose k = Reservation"
  shows "l = k"
proof -
  have "distinct (map l_attempt (filter (\<lambda>l. l_purpose l = Reservation) (leases db)))"
    using reachable_parts(3) [OF assms(1)] by (simp add: leases_ok_def)
  with assms(2-6) show ?thesis unfolding distinct_map by (auto dest: inj_onD)
qed

lemma expired_not_fenced:
  assumes r: "reachable X db" and l: "l \<in> set (leases db)" "l_attempt l = Some (aid g)" "l_purpose l = Reservation"
    and ex: "l_released l \<noteq> None \<or> l_expires l \<le> u \<or> claim_expired db (aid g) u"
    and u: "u \<le> max now (g_updated g)"
  shows "fence g now db \<noteq> Inr st"
proof
  assume "fence g now db = Inr st"
  then obtain k where k: "k \<in> set (leases db)" "fence_lease g (max now (g_updated g)) k"
    and f: "\<not> foreign_claim g (max now (g_updated g)) db" by (rule fence_Ok)
  have "k = l" using reservation_unique [OF r k(1) l(1)] k(2) l by (simp add: fence_lease_def)
  with k(2) u ex have "claim_expired db (aid g) u" by (auto simp: fence_lease_def)
  with f u show False by (fastforce simp: claim_expired_def foreign_claim_def list_ex_iff)
qed

lemma expired_row_mem:
  "(a, l) \<in> set (expired_rows db x now) \<Longrightarrow>
     a \<in> set (attempts db) \<and> a_id a = x \<and> a_finished a = None \<and> l \<in> set (leases db)
     \<and> l_attempt l = Some x \<and> l_purpose l = Reservation
     \<and> (l_released l \<noteq> None \<or> l_expires l \<le> max now (a_updated a) \<or> claim_expired db x (max now (a_updated a)))"
  by (auto simp: expired_rows_def)

text \<open>
  C9 (recovery_spares_live_owner): while an attempt's owner passes the fence, a recovery pass whose
  clock is not ahead of the owner's leaves the attempt and the whole store alone.
\<close>

theorem recovery_spares_live_owner:
  assumes r: "reachable X db" and f: "fence g now db = Inr st"
    and a: "a \<in> set (attempts db)" "a_id a = aid g" "a_updated a \<le> g_updated g"
    and t: "clock \<le> now" "clock \<le> I64_MAX"
  shows "recover_take X (aid g) clock db = Inr (None, db)"
proof -
  have "(b, l) \<notin> set (expired_rows db (aid g) clock)" for b l
  proof
    assume "(b, l) \<in> set (expired_rows db (aid g) clock)"
    note row = expired_row_mem [OF this]
    with a attempt_unique_id [OF r, of b a] have "b = a" by simp
    with row max.mono [OF t(1) a(3)] expired_not_fenced [OF r, of l g "max clock (a_updated a)" now st] f
    show False by blast
  qed
  then have "expired_rows db (aid g) clock = []" by (metis list.set_intros(1) neq_Nil_conv surj_pair)
  with t(2) show ?thesis
    by (simp add: recover_take_def expired_attempt_def query_optional_def timestamp_def)
qed

theorem recovery_spares_live_owner_witness:
  "recover_take demo (aid guard_first) 50 db_contended = Inr (None, db_contended)"
proof (rule recovery_spares_live_owner [OF reachable_contended, where now = 60 and st = Materializing
      and a = "hd (attempts db_contended)"])
  show "fence guard_first 60 db_contended = Inr Materializing" by code_simp
  show "hd (attempts db_contended) \<in> set (attempts db_contended)" by code_simp
  show "a_id (hd (attempts db_contended)) = aid guard_first" by code_simp
  show "a_updated (hd (attempts db_contended)) \<le> g_updated guard_first" by code_simp
qed (simp_all add: I64_MAX_def)

lemma recover_take_Some:
  assumes "recover_take X x clock db = Inr (Some g', db')"
  obtains a l g0 where "(a, l) \<in> set (expired_rows db x clock)" "aid g0 = x" "g_revision g0 = a_revision a"
    "g_updated g0 = a_updated a" "g_retry g0 = a_retry a" "sid g0 = a_slot a"
    "(db' = db \<and> g' = g0 \<and> a_state a = Finalizing)
     \<or> (\<exists>details. transition X g0 (a_state a) Finalizing clock details None db = Inr (g', db'))"
proof -
  from assms obtain cur where cur: "expired_attempt X db x clock = Inr (Some cur)"
    by (auto simp: recover_take_def split: option.splits)
  then obtain a l slot d where al: "query_optional (expired_rows db x clock) = Some (a, l)"
    and slot: "record_id_from_str ResolvedAttemptSlotKind (a_slot a) = Inr slot" and d: "attempt_text d = x"
    and c: "cur = (\<lparr>g_id = d, g_slot = slot, g_retry = a_retry a, g_revision = a_revision a,
           g_updated = a_updated a, g_lease = l_id l, g_owner = l_owner l\<rparr>, a_state a)"
    by (auto simp: expired_attempt_def split: option.splits if_splits prod.splits)
  have "sid (fst cur) = a_slot a"
    using slot c by (simp add: slot_text_def record_id_from_str_Ok_iff)
  with that [OF query_optional_Some_mem [OF al], of "fst cur"] assms cur c d show ?thesis
    by (auto simp: recover_take_def commit_def split: if_splits)
qed

text \<open>
  C8 (recovery_fences_owner): when a recovery pass takes an attempt over, no guard of that attempt,
  the previous owner's or any other, passes the fence at the recovery clock or later.
\<close>

theorem recovery_fences_owner:
  assumes r: "reachable X db" and take: "recover_take X (aid g) clock db = Inr (Some g', db')"
    and t: "clock \<le> now"
    and kn: "\<forall>a \<in> set (attempts db'). a_id a = aid g \<and> a_revision a = g_revision g \<longrightarrow> a_updated a \<le> g_updated g"
  shows "fence g now db' \<noteq> Inr st"
proof
  assume st: "fence g now db' = Inr st"
  from take obtain a l g0 where al: "(a, l) \<in> set (expired_rows db (aid g) clock)"
    and g0: "aid g0 = aid g" "g_revision g0 = a_revision a" "g_updated g0 = a_updated a" "g_retry g0 = a_retry a"
      "sid g0 = a_slot a"
    and how: "(db' = db \<and> g' = g0 \<and> a_state a = Finalizing)
     \<or> (\<exists>details. transition X g0 (a_state a) Finalizing clock details None db = Inr (g', db'))"
    by (rule recover_take_Some)
  note row = expired_row_mem [OF al]
  have fa: "fence_attempt g0 a" using row g0 by (simp add: fence_attempt_def)
  have a: "a \<in> set (attempts db)" "a_id a = aid g" using row by simp_all
  from how have same: "leases db' = leases db \<and> finalization_claims db' = finalization_claims db
    \<and> (\<exists>b \<in> set (attempts db'). a_id b = aid g \<and> a_updated a \<le> a_updated b)"
  proof
    assume "\<exists>details. transition X g0 (a_state a) Finalizing clock details None db = Inr (g', db')"
    then obtain details where tr: "transition X g0 (a_state a) Finalizing clock details None db = Inr (g', db')" ..
    from transition_row [OF r tr a(1) fa] a(2) g0(3) show ?thesis
      by (intro conjI bexI [of _ "project Finalizing (g_revision g0 + 1) (max clock (g_updated g0)) None a"]) simp_all
  qed (use a in auto)
  then obtain b where b: "b \<in> set (attempts db')" "a_id b = aid g" "a_updated a \<le> a_updated b"
    by blast
  have r': "reachable X db'" using reach_step [OF r step_recover_take [OF take]] .
  from st obtain c where c: "c \<in> set (attempts db')" "fence_attempt g c" by (rule fence_Ok)
  with attempt_unique_id [OF r' c(1) b(1)] b(2) have "c = b" by (simp add: fence_attempt_def)
  with kn b c have "a_updated a \<le> g_updated g" by (auto simp: fence_attempt_def)
  from max.mono [OF t this] row same st expired_not_fenced [OF r', of l g "max clock (a_updated a)" now st]
  show False by (auto simp: claim_expired_def)
qed

theorem recovery_fences_owner_witness: "fence guard_long 250 db_taken \<noteq> Inr Finalizing"
proof (rule recovery_fences_owner [OF reachable_long recover_take_run])
  show "\<forall>a \<in> set (attempts db_taken). a_id a = aid guard_long \<and> a_revision a = g_revision guard_long
      \<longrightarrow> a_updated a \<le> g_updated guard_long"
    by code_simp
qed simp

section \<open>Claims\<close>

lemma claim_later:
  assumes "store_steps X db db'" "c \<in> set (finalization_claims db)"
  shows "claim_kept db' c"
  using grows.steps_closed [OF assms(1)] assms(2) by (simp add: evolves_def)

lemma owns_claim_slot:
  assumes "reachable X db" "owns_claim db (aid h)" "a \<in> set (attempts db)" "fence_attempt h a"
  obtains c where "c \<in> set (finalization_claims db)" "c_attempt c = aid h" "c_slot c = sid h"
proof -
  from assms(2) obtain c where c: "c \<in> set (finalization_claims db)" "c_attempt c = aid h"
    by (auto simp: owns_claim_def list_ex_iff)
  with reachable_parts(4) [OF assms(1)] obtain b where "b \<in> set (attempts db)" "a_id b = aid h" "a_slot b = c_slot c"
    by (auto simp: claims_ok_def claim_ok_def)
  with attempt_unique_id [OF assms(1) _ assms(3)] assms(4) c that show ?thesis
    by (metis fence_attempt_def)
qed



end
