(* ===== verification/Run_Progress.thy ===== *)
theory Run_Progress
  imports Run_Ledger Run_Ownership
begin

text \<open>
  Liveness of an owner: an owner that passes the fence can enter every phase the attempt state
  machine allows next, and nothing else.
\<close>

section \<open>Appending a legal transition\<close>

text \<open>
  The canonical serializer writes every object of the restricted data model, and SQLite's JSON
  functions accept what it writes as an object.
\<close>

definition writes_objects :: "externals \<Rightarrow> bool" where
  "writes_objects X \<longleftrightarrow> (\<forall>m. \<exists>s. canonicalizer X (JObject m) = Some s \<and> sqlite_object X s)"

definition transition_payload :: "attempt_state option \<Rightarrow> attempt_state \<Rightarrow> u64 \<Rightarrow> json" where
  "transition_payload from to revision = JObject
     (ord_insert ''revision'' (JNumber (number_from_u64 revision))
      (ord_insert ''to'' (JString (state_name to))
       (ord_insert ''from'' (case from of None \<Rightarrow> JNull | Some s \<Rightarrow> JString (state_name s)) [])))"

lemma transition_payload_bytes:
  assumes "writes_objects X" "revision \<le> MAX_SAFE_INTEGER"
  obtains s where "canonical_bytes X (transition_payload from to revision) = Inr s" "sqlite_object X s"
proof -
  have n: "normalize_number (number_from_u64 revision) = Inr (number_from_u64 revision)"
    using assms(2) MAX_SAFE_less_I64
    by (auto simp: normalize_number_def number_from_u64_def number_as_i64_def safe_int_def number_as_u64_def)
  have "\<exists>m. normalize_value (transition_payload from to revision) = Inr (JObject m)"
    using n by (auto simp: transition_payload_def split: option.splits)
  then obtain m where "normalize_value (transition_payload from to revision) = Inr (JObject m)" ..
  moreover from assms(1) obtain s where "canonicalizer X (JObject m) = Some s" "sqlite_object X s"
    unfolding writes_objects_def by blast
  ultimately show ?thesis using that by (simp add: canonical_bytes_def)
qed

lemma new_event_number:
  assumes "reachable X db" "t \<in> set (attempt_transitions db)"
  shows "t_event t \<le> event_seq db"
proof -
  from reachable_ledger_ok [OF assms(1)] assms(2) obtain e where "e \<in> set (events db)" "ev_sequence e = t_event t"
    by (auto simp: ledger_ok_def list_all_iff recorded_def list_ex_iff)
  moreover have "map ev_sequence (events db) = [1..<Suc (event_seq db)]"
    using reachable_parts(5) [OF assms(1)] by (simp add: events_ok_def)
  ultimately have "t_event t \<in> set [1..<Suc (event_seq db)]" by (metis imageI set_map)
  then show ?thesis by auto
qed

lemma last_transition:
  assumes "reachable X db" "a \<in> set (attempts db)"
  shows "\<exists>t \<in> set (attempt_transitions db). t_attempt t = a_id a \<and> t_revision t = a_revision a
    \<and> t_to t = a_state a \<and> t_time t = a_updated a"
proof -
  let ?h = "history db (a_id a)"
  have f: "follows a ?h" using reachable_follows [OF assms] .
  then have "?h ! a_revision a \<in> set ?h" by (simp add: follows_def)
  with f show ?thesis
    by (intro bexI [of _ "?h ! a_revision a"]) (auto simp: follows_def history_step_def history_def)
qed

lemma revision_bound:
  assumes "reachable X db" "a \<in> set (attempts db)" "t \<in> set (attempt_transitions db)" "t_attempt t = a_id a"
  shows "t_revision t \<le> a_revision a"
proof -
  let ?h = "history db (a_id a)"
  have f: "follows a ?h" using reachable_follows [OF assms(1,2)] .
  have "t \<in> set ?h" using assms(3,4) by (simp add: history_def)
  with f show ?thesis by (auto simp: follows_def history_step_def in_set_conv_nth)
qed

lemma append_transition_total:
  assumes r: "reachable X db" and w: "writes_objects X" and ev: "event_seq db < I64_MAX"
    and a: "a \<in> set (attempts db)" "a_id a = x" and edge: "legal_edge (a_state a) to"
    and rv: "a_revision a + 1 \<le> MAX_SAFE_INTEGER"
  shows "is_ok (append_transition X x (Some (a_state a)) to (a_revision a + 1) now (JObject []) db)"
proof -
  let ?rv = "a_revision a + 1" and ?n = "event_seq db + 1"
  let ?t = "\<lparr>t_attempt = x, t_revision = ?rv, t_previous = Some (a_revision a), t_from = Some (a_state a),
    t_to = to, t_time = now, t_event = ?n\<rparr>"
  obtain s where s: "canonical_bytes X (transition_payload (Some (a_state a)) to ?rv) = Inr s" "sqlite_object X s"
    using transition_payload_bytes [OF w rv] by blast
  let ?db = "db\<lparr>event_seq := ?n, events := events db @ [\<lparr>ev_sequence = ?n, ev_attempt = Some x, ev_time = now,
    ev_kind = event_kind ?rv to, ev_payload = s\<rparr>]\<rparr>"
  have "event_kind ?rv to \<noteq> []" by (simp add: event_kind_def)
  then have ins: "insert_event X x now (event_kind ?rv to) s db = Inr (?n, ?db)"
    using ev s(2) a by (auto simp: insert_event_def attempt_exists_def list_ex_iff)
  obtain u where u: "u \<in> set (attempt_transitions db)" "t_attempt u = x" "t_revision u = a_revision a" "t_to u = a_state a"
    using last_transition [OF r a(1)] a(2) by blast
  have "transition_check ?t" using edge by (simp add: transition_check_def)
  moreover have "transition_references ?db ?t"
    using a u by (auto simp: transition_references_def list_ex_iff)
  moreover have "transitions_unique (attempt_transitions db @ [?t])"
  proof -
    have "(x, ?rv) \<notin> (\<lambda>t. (t_attempt t, t_revision t)) ` set (attempt_transitions db)"
      using revision_bound [OF r a(1)] a(2) by fastforce
    moreover have "?n \<notin> t_event ` set (attempt_transitions db)"
      using new_event_number [OF r] by fastforce
    ultimately show ?thesis
      using reachable_ledger_ok [OF r] by (simp add: ledger_ok_def transitions_unique_def)
  qed
  ultimately have "insert_transition ?t ?db = Inr (?db\<lparr>attempt_transitions := attempt_transitions db @ [?t]\<rparr>)"
    by (simp add: insert_transition_def constrained_def)
  moreover have "timestamp ?rv = Inr ?rv" using rv MAX_SAFE_less_I64 by (simp add: timestamp_def)
  ultimately show ?thesis
    using s(1) ins unfolding is_ok_iff by (simp add: append_transition_def transition_payload_def)
qed

section \<open>Updating the projection\<close>

lemma filter_map_if:
  "(\<And>r. hit r \<Longrightarrow> \<not> P (f r)) \<Longrightarrow>
     filter P (map (\<lambda>r. if hit r then f r else r) xs) = filter (\<lambda>r. P r \<and> \<not> hit r) xs"
  by (induction xs) auto

lemma update_attempt_total:
  assumes r: "reachable X db" and a: "a \<in> set (attempts db)" "a_finished a = None"
    and same: "attempts db1 = attempts db" "attempt_slots db1 = attempt_slots db"
    and to: "\<not> terminal_state to" and t: "a_updated a \<le> t"
  defines "f \<equiv> project to (a_revision a + 1) t None"
  shows "update_attempt (a_id a) (a_revision a) f db1 =
    Inr (1, db1\<lparr>attempts := map (\<lambda>r. if a_id r = a_id a \<and> a_revision r = a_revision a then f r else r) (attempts db)\<rparr>)"
proof -
  let ?hit = "\<lambda>r. a_id r = a_id a \<and> a_revision r = a_revision a"
  let ?rows = "map (\<lambda>r. if ?hit r then f r else r) (attempts db)"
  have ok: "attempts_unique (attempts db)" "attempt_check a"
    using reachable_parts(2) [OF r] a(1) by (auto simp: attempts_ok_def)
  have ids: "distinct (map a_id (attempts db))" using ok(1) by (simp add: attempts_unique_def)
  have hits: "filter ?hit (attempts db) = [a]"
    by (rule filter_unique [OF ids a(1)]) auto
  have nt: "\<not> terminal_state (a_state a)" "a_failure a = None" "a_started a \<le> a_updated a"
    using ok(2) a(2) by (auto simp: attempt_check_def terminal_state_def)
  have not_acc: "to \<noteq> Accepted" "to \<noteq> Failed" using to by (auto simp: terminal_state_def)
  have "\<not> attempt_update_aborts db1 a (f a)"
    using nt t not_acc by (simp add: attempt_update_aborts_def f_def project_def)
  moreover have "attempt_check (f a)"
    using nt t not_acc to by (simp add: attempt_check_def f_def project_def)
  moreover have "attempt_references db1 (f a)"
  proof -
    have "a_slot a \<in> sl_id ` set (attempt_slots db)"
      using reachable_sequences_ok [OF r] a(1) by (simp add: sequences_ok_def)
    then show ?thesis by (auto simp: attempt_references_def f_def project_def same list_ex_iff)
  qed
  moreover have "attempts_unique ?rows"
  proof -
    have keep: "a_id (if ?hit r then f r else r) = a_id r" "a_slot (if ?hit r then f r else r) = a_slot r"
      "a_retry (if ?hit r then f r else r) = a_retry r" for r
      by (simp_all add: f_def)
    have "filter (\<lambda>r. a_state r = Accepted) ?rows
        = filter (\<lambda>r. a_state r = Accepted \<and> \<not> ?hit r) (attempts db)"
      by (rule filter_map_if) (simp add: f_def not_acc)
    then have "distinct (map a_slot (filter (\<lambda>r. a_state r = Accepted) ?rows))"
      using ok(1) distinct_map_filter [of a_slot "filter (\<lambda>r. a_state r = Accepted) (attempts db)" "\<lambda>r. \<not> ?hit r"]
      by (simp add: attempts_unique_def conj_commute)
    with ok(1) show ?thesis by (simp add: attempts_unique_def comp_def keep)
  qed
  ultimately show ?thesis using hits by (simp add: update_attempt_def same Let_def)
qed

section \<open>Owners are never stuck\<close>

lemma advance_succeeds:
  assumes r: "reachable X db" and w: "writes_objects X" and ev: "event_seq db < I64_MAX"
    and now: "now \<le> I64_MAX" and f: "fence g now db = Inr st"
    and a: "a \<in> set (attempts db)" "a_id a = aid g" "a_updated a \<le> g_updated g"
    and rv: "g_revision g + 1 \<le> MAX_SAFE_INTEGER" and edge: "legal_edge st (phase_state phase)"
  shows "is_ok (advance X g phase now db)"
proof -
  let ?t = "max now (g_updated g)" and ?to = "phase_state phase"
  from f obtain b where b: "b \<in> set (attempts db)" "fence_attempt g b" "a_state b = st" by (rule fence_Ok)
  with attempt_unique_id [OF r b(1) a(1)] a(2) have ab: "a = b" by (simp add: fence_attempt_def)
  with b have fa: "a_revision a = g_revision g" "a_finished a = None" "a_state a = st"
    by (simp_all add: fence_attempt_def)
  have gu: "g_updated g \<le> I64_MAX" using f by (auto simp: fence_def split: if_splits)
  from append_transition_total [OF r w ev a(1,2), of ?to ?t] edge fa rv obtain db1 where
    app: "append_transition X (aid g) (Some st) ?to (g_revision g + 1) ?t (JObject []) db = Inr db1"
    by (auto simp: is_ok_iff)
  note fr = append_transition_frame [OF app]
  have same: "attempts db1 = attempts db" "attempt_slots db1 = attempt_slots db" by (subst fr, simp)+
  define rows where "rows = map (\<lambda>r. if a_id r = a_id a \<and> a_revision r = a_revision a
    then project ?to (a_revision a + 1) ?t None r else r) (attempts db)"
  have upd: "update_attempt (aid g) (g_revision g) (project ?to (g_revision g + 1) ?t None) db1 = Inr (1, db1\<lparr>attempts := rows\<rparr>)"
    using update_attempt_total [OF r a(1) fa(2) same phase_not_terminal, of ?t phase] a(2,3) fa(1)
    by (simp add: rows_def)
  have tr: "transition X g st ?to now (JObject []) None db
      = Inr (g\<lparr>g_revision := g_revision g + 1, g_updated := ?t\<rparr>, db1\<lparr>attempts := rows\<rparr>)"
    using app upd rv gu MAX_SAFE_less_I64 MAX_SAFE_less_U64
    by (simp add: transition_def Let_def checked_add_def opt_filter_def timestamp_def)
  have "projected (attempt_transitions db1) q" if "q \<in> set rows" for q
  proof -
    from append_transition_Ok [OF app] obtain t where t: "t_attempt t = aid g" "t_revision t = g_revision g + 1"
      "t_to t = ?to" "t_time t = ?t" "attempt_transitions db1 = attempt_transitions db @ [t]" by metis
    from that obtain p where p: "p \<in> set (attempts db)"
      "q = (if a_id p = a_id a \<and> a_revision p = a_revision a then project ?to (a_revision a + 1) ?t None p else p)"
      by (auto simp: rows_def)
    show ?thesis
    proof (cases "a_id p = a_id a \<and> a_revision p = a_revision a")
      case True
      with t p(2) a(2) fa(1) show ?thesis by (simp add: projected_def)
    next
      case False
      with p t(5) last_transition [OF r p(1)] show ?thesis by (auto simp: projected_def list_ex_iff)
    qed
  qed
  then have "projections_ok (db1\<lparr>attempts := rows\<rparr>)" by (simp add: projections_ok_def list_all_iff)
  with tr f now show ?thesis by (simp add: advance_def timestamp_def commit_def)
qed



end
