(* ===== verification/Run_Effects.thy ===== *)
theory Run_Effects
  imports Run_Progress
begin

text \<open>
  What single operations leave behind: a renewal, a terminal commit, and what no later operation
  can undo.
\<close>

section \<open>Renewal\<close>

lemma renew_loop_leases:
  assumes "renew_loop g e now ls db = Inr db'" "distinct (map l_id (leases db))"
    "set ls \<subseteq> set (leases db)" "distinct ls"
  shows "db' = db\<lparr>leases := map (\<lambda>l. if l \<in> set ls then l\<lparr>l_expires := e\<rparr> else l) (leases db)\<rparr>
    \<and> (\<forall>l \<in> set ls. l_expires l \<le> e \<and> l_owner l = g_owner g)"
  using assms
proof (induction ls arbitrary: db)
  case Nil
  then show ?case by simp
next
  case (Cons l ls)
  let ?hit = "\<lambda>r. l_id r = l_id l \<and> l_owner r = g_owner g \<and> l_released r = None \<and> l_expires r > now"
  from Cons.prems(1) obtain db1 where le: "l_expires l \<le> e"
    and upd: "update_leases ?hit (\<lambda>r. r\<lparr>l_expires := e\<rparr>) db = Inr (1, db1)"
    and rest: "renew_loop g e now ls db1 = Inr db'"
    by (auto split: if_splits)
  from upd have n: "length (filter ?hit (leases db)) = 1"
    and db1: "db1 = db\<lparr>leases := map (\<lambda>r. if ?hit r then r\<lparr>l_expires := e\<rparr> else r) (leases db)\<rparr>"
    by (auto simp: update_leases_def Let_def split: if_splits)
  have l: "l \<in> set (leases db)" using Cons.prems(3) by simp
  have id: "r = l" if "r \<in> set (leases db)" "l_id r = l_id l" for r
    using that l Cons.prems(2) by (metis distinct_map inj_onD)
  from n obtain r where "filter ?hit (leases db) = [r]" by (auto simp: length_Suc_conv)
  then have "r \<in> set (filter ?hit (leases db))" by simp
  then have r: "r \<in> set (leases db)" "?hit r" by simp_all
  with id have hit: "?hit l" by blast
  then have hit_iff: "?hit q \<longleftrightarrow> q = l" if "q \<in> set (leases db)" for q using id [OF that] by metis
  have rows: "leases db1 = map (\<lambda>q. if q = l then q\<lparr>l_expires := e\<rparr> else q) (leases db)"
    unfolding db1 using hit_iff by (auto intro: map_cong)
  have "map l_id (leases db1) = map l_id (leases db)" unfolding rows by simp
  with Cons.prems(2) have ids1: "distinct (map l_id (leases db1))" by simp
  have fresh: "l \<notin> set ls" using Cons.prems(4) by simp
  have new: "l\<lparr>l_expires := e\<rparr> \<notin> set ls"
  proof
    assume "l\<lparr>l_expires := e\<rparr> \<in> set ls"
    moreover from this have "l\<lparr>l_expires := e\<rparr> = l" using Cons.prems(3) id by (metis lease_row.select_convs(1) lease_row.surjective lease_row.update_convs(7) set_subset_Cons subsetD)
    ultimately show False using fresh by simp
  qed
  have sub1: "set ls \<subseteq> set (leases db1)"
    using Cons.prems(3) fresh unfolding rows by auto
  have d: "distinct ls" using Cons.prems(4) by simp
  note ih = Cons.IH [OF rest ids1 sub1 d]
  have "map (\<lambda>q. if q \<in> set ls then q\<lparr>l_expires := e\<rparr> else q) (leases db1)
      = map (\<lambda>q. if q \<in> set (l # ls) then q\<lparr>l_expires := e\<rparr> else q) (leases db)"
    unfolding rows using fresh new by auto
  with ih le hit show ?case by (simp add: db1)
qed



section \<open>The terminal commit\<close>

lemma commit_terminal_parts:
  assumes "commit_terminal_in X g outcome artifact refs now checked db = Inr (t, db')"
  obtains db5 g6 db6 db7 det c n where "keeps_ok X db db5" "evolves db db5"
    "transition X g Finalizing (outcome_state outcome) (max now (g_updated g)) det
       (Some (ar_id artifact, outcome_failure outcome)) db5 = Inr (g6, db6)"
    "delete_claims (aid g) db6 = Inr db7"
    "update_leases (\<lambda>l. l_attempt l = Some (aid g) \<and> l_released l = None) (\<lambda>l. l\<lparr>l_released := Some c\<rparr>) db7 = Inr (n, db')"
    "ta_finished t = g_updated g6" "ta_outcome t = outcome" "ta_id t = g_id g"
proof -
  from assms obtain db1 db2 db3 db4 db5 g6 db6 db7 n8 verified det c where
    ops: "select_produced g outcome now db = Inr db1" "finish X g outcome db1 = Inr db2"
    "insert_artifact (final_artifact artifact verified) db2 = Inr db3"
    "insert_attempt_artifact (aid g) ''final'' (ar_id artifact) db3 = Inr db4"
    "insert_references (aid g) refs db4 = Inr db5"
    and rest: "transition X g Finalizing (outcome_state outcome) (max now (g_updated g)) det
       (Some (ar_id artifact, outcome_failure outcome)) db5 = Inr (g6, db6)"
    "delete_claims (aid g) db6 = Inr db7"
    "update_leases (\<lambda>l. l_attempt l = Some (aid g) \<and> l_released l = None)
       (\<lambda>l. l\<lparr>l_released := Some c\<rparr>) db7 = Inr (n8, db')"
    and t: "ta_finished t = g_updated g6" "ta_outcome t = outcome" "ta_id t = g_id g"
    by (auto simp: commit_terminal_in_def Let_def split: if_splits prod.splits)
  have "keeps_ok X db db5"
    using ops safe.select_closed safe.finish_closed safe.artifact_closed safe.attempt_artifact_closed
      safe.references_closed keeps_ok_trans by meson
  moreover have "evolves db db5"
    using ops grows.select_closed grows.finish_closed grows.artifact_closed grows.attempt_artifact_closed
      grows.references_closed evolves_trans by meson
  ultimately show ?thesis using rest t that by blast
qed

text \<open>
  C23 (terminal_commit_effects): a successful terminal commit leaves its attempt in the state of the
  committed outcome, with the published artifact and the finish time of the receipt; the attempt
  holds no finalization claim and no open lease any more, and every guard of it is superseded.
\<close>

theorem terminal_commit_effects:
  assumes r: "reachable X db" and cm: "commit_finalization X g outcome artifact refs now db = Inr (t, db')"
  shows "list_ex (\<lambda>a. a_id a = aid g \<and> a_slot a = sid g \<and> a_state a = outcome_state outcome
      \<and> a_finished a = Some (ta_finished t) \<and> a_artifact a = Some (ar_id artifact)) (attempts db')
    \<and> ta_finished t = max now (g_updated g)
    \<and> \<not> owns_claim db' (aid g)
    \<and> \<not> list_ex (\<lambda>l. l_attempt l = Some (aid g) \<and> l_released l = None) (leases db')
    \<and> (aid h = aid g \<longrightarrow> superseded_guard h db')"
proof -
  from cm obtain c st where f: "fence g c db = Inr st"
    and ct: "commit_terminal_in X g outcome artifact refs now now db = Inr (t, db')"
    by (auto simp: commit_finalization_def commit_finalization_in_def validate_finalization_def split: if_splits)
  from ct obtain db5 g6 db6 db7 det c n where k5: "keeps_ok X db db5" and e5: "evolves db db5"
    and tr: "transition X g Finalizing (outcome_state outcome) (max now (g_updated g)) det
       (Some (ar_id artifact, outcome_failure outcome)) db5 = Inr (g6, db6)"
    and dc: "delete_claims (aid g) db6 = Inr db7"
    and ul: "update_leases (\<lambda>l. l_attempt l = Some (aid g) \<and> l_released l = None) (\<lambda>l. l\<lparr>l_released := Some c\<rparr>) db7 = Inr (n, db')"
    and t: "ta_finished t = g_updated g6"
    by (rule commit_terminal_parts)
  have ok5: "store_ok X db5" using k5 reachable_store_ok [OF r] by (simp add: keeps_ok_def)
  from f obtain b where b: "b \<in> set (attempts db)" "fence_attempt g b" by (rule fence_Ok)
  from e5 have "extends attempt_le (attempts db) (attempts db5)" by (simp add: evolves_def)
  from extends_mem [OF this b(1)] obtain b5 where b5: "b5 \<in> set (attempts db5)" "attempt_le b b5" by blast
  from tr obtain db1 a where one: "filter (\<lambda>r. a_id r = aid g \<and> a_revision r = g_revision g) (attempts db5) = [a]"
    and g6: "g6 = g\<lparr>g_revision := g_revision g + 1, g_updated := max (max now (g_updated g)) (g_updated g)\<rparr>"
    by (rule transition_Ok)
  then have "a \<in> set (filter (\<lambda>r. a_id r = aid g \<and> a_revision r = g_revision g) (attempts db5))" by simp
  then have a: "a \<in> set (attempts db5)" "a_id a = aid g" "a_revision a = g_revision g" by simp_all
  have "distinct (map a_id (attempts db5))" using ok5 by (simp add: store_ok_def history_ok_def)
  moreover have "a_id b5 = a_id a" using b5(2) b(2) a(2) unfolding attempt_le_def fence_attempt_def by metis
  ultimately have "b5 = a" using a(1) b5(1) by (metis distinct_map inj_onD)
  with b5(2) b(2) have slot: "a_slot a = sid g" unfolding attempt_le_def fence_attempt_def by metis
  define a' where "a' = project (outcome_state outcome) (g_revision g + 1) (max now (g_updated g))
    (Some (ar_id artifact, outcome_failure outcome)) a"
  have "a' \<in> set (attempts db6)"
    using transition_frame(2) [OF tr] a by (force simp: a'_def)
  moreover have "attempts db' = attempts db6" "finalization_claims db' = filter (\<lambda>c. c_attempt c \<noteq> aid g) (finalization_claims db6)"
    using dc ul by (auto simp: delete_claims_def update_leases_def Let_def split: if_splits)
  moreover have "\<not> list_ex (\<lambda>l. l_attempt l = Some (aid g) \<and> l_released l = None) (leases db')"
    using ul by (auto simp: update_leases_def Let_def list_ex_iff split: if_splits)
  moreover have "a_id a' = aid g" "a_slot a' = sid g" "a_state a' = outcome_state outcome"
    "a_finished a' = Some (ta_finished t)" "a_artifact a' = Some (ar_id artifact)"
    using a slot t g6 by (simp_all add: a'_def) (simp_all add: project_def)
  moreover have "ta_finished t = max now (g_updated g)" using t g6 by simp
  ultimately show ?thesis
    by (auto simp: list_ex_iff owns_claim_def superseded_guard_def)
qed

theorem terminal_commit_effects_witness:
  "a_state row_accepted = Accepted \<and> \<not> owns_claim db_accepted (aid guard_final)
    \<and> \<not> list_ex (\<lambda>l. l_attempt l = Some (aid guard_final) \<and> l_released l = None) (leases db_accepted)
    \<and> superseded_guard guard_final db_accepted"
  using terminal_commit_effects [OF reachable_observed demo_accept_run [unfolded demo_accept_def], of guard_final]
    row_accepted_state(1) by simp

section \<open>What cannot be undone\<close>



text \<open>
  C25 (audit_trail_complete): in every reachable store the events are numbered 1, 2, ... without
  gaps, every transition has its own event with the same attempt and time, and every selected
  observation is a registered valid observation of the selected slot, at most one per slot.
\<close>

theorem audit_trail_complete:
  assumes "reachable X db"
  shows "events_ok db \<and> ledger_ok db \<and> selections_ok db"
  using reachable_parts(5,6) [OF assms] reachable_ledger_ok [OF assms] by simp

theorem audit_trail_complete_witness: "events_ok db_lost \<and> ledger_ok db_lost \<and> selections_ok db_lost"
  by (rule audit_trail_complete [OF reachable_steps [OF steps_accepted_lost reachable_accepted]])

section \<open>Reservation outcomes\<close>

text \<open>
  A successful reservation was of a slot that is not satisfied and
  whose sequence, if it has one, is idle and within its budget; its retry index is the number of
  attempts the slot had and was authorized; and the guard it returns passes the fence in the new
  store at every time before the lease expires.
\<close>

theorem reserve_grants_ownership:
  assumes r: "reachable X db" and res: "reserve X slot auth lease now db = Inr (g, db')"
    and later: "later < lr_expires lease"
  shows "\<not> satisfied db (slot_text slot) \<and> check_reservation X db (slot_text slot) = Inr ()
    \<and> authorize auth (g_retry g) = Inr () \<and> g_retry g = sp_attempts (slot_progress_of db slot)
    \<and> fence g later db' = Inr Reserved"
proof -
  have r': "reachable X db'" using reach_step [OF r step_reserve [OF res]] .
  from res obtain d n db1 db2 details where
    n: "next_retry db (slot_text slot) = Inr n" "authorize auth n = Inr ()"
    and chk: "check_reservation X db (slot_text slot) = Inr ()" "\<not> satisfied db (slot_text slot)"
    and vl: "validate_lease lease now = Inr ()"
    and g: "g = \<lparr>g_id = d, g_slot = slot, g_retry = n, g_revision = 0, g_updated = now,
       g_lease = lr_id lease, g_owner = lr_owner lease\<rparr>"
    by (rule reserve_Ok)
  note rows = reserve_rows [OF res]
  let ?a = "new_attempt (aid g) (sid g) (g_retry g) now"
  have "n = sp_attempts (slot_progress_of db slot)"
    using next_retry_bound [OF slot_attempt_count [OF r] n(1)] .
  moreover have "fence g later db' = Inr (a_state ?a)"
  proof (rule fence_intro [OF r'])
    show "?a \<in> set (attempts db')" "fence_attempt g ?a" using rows(1) g by (simp_all add: fence_attempt_def new_attempt_def)
    let ?l = "\<lparr>l_id = g_lease g, l_owner = g_owner g, l_attempt = Some (aid g), l_purpose = Reservation,
      l_staging = None, l_acquired = now, l_expires = lr_expires lease, l_released = None\<rparr>"
    show "?l \<in> set (leases db')" using rows(2) by simp
    show "fence_lease g (max later (g_updated g)) ?l"
      using vl later g by (auto simp: fence_lease_def validate_lease_def split: if_splits)
    have "aid g \<notin> a_id ` set (attempts db)" using rows(1,4) by (auto simp: attempts_unique_def new_attempt_def)
    then have "c_attempt c \<noteq> aid g" if "c \<in> set (finalization_claims db)" for c
      using reachable_parts(4) [OF r] that unfolding claims_ok_def claim_ok_def by (metis imageI)
    then show "\<not> foreign_claim g (max later (g_updated g)) db'"
      using rows(3) by (auto simp: foreign_claim_def list_ex_iff)
    show "g_retry g \<le> I64_MAX" using n(1) g
      by (auto simp: next_retry_def Let_def split: list.splits if_splits)
    show "g_revision g \<le> I64_MAX" "g_updated g \<le> I64_MAX"
      using res g by (auto simp: reserve_def split: if_splits)
  qed
  ultimately show ?thesis using chk n g by (simp add: new_attempt_def)
qed

theorem reserve_grants_ownership_witness:
  "g_retry guard_long = 0 \<and> fence guard_long 99 db_long = Inr Reserved"
proof -
  from long_reserved_run obtain db where
    reg: "register_one_shot demo_long long_digest (demo_run long_digest) (demo_slot long_digest)
      (demo_observation_slot long_digest) (empty_db 1) = Inr ((), db)"
    and res: "reserve demo_long long_digest FirstAttempt (demo_lease ''first'' 100) 5 db = Inr (guard_long, db_long)"
    unfolding long_reserved_def long_registered_def by auto
  have "reachable demo_long db"
    by (rule reach_step [OF reach_new [of 1] step_register_one_shot [OF reg]]) simp
  from reserve_grants_ownership [OF this res, of 99] show ?thesis
    by (simp add: demo_lease_def guard_long_def)
qed

end
