(* ===== verification/Schema_Catalog.thy ===== *)
theory Schema_Catalog
  imports Canonical_Json
begin

text \<open>
  The schema catalog of \<open>core/schema.rs\<close>: declarations, path and dialect checks, repository URIs,
  instance validation and the two queries other components make.  The compiled validator of the
  \<open>jsonschema\<close> crate and \<open>serde_json::Value::pointer\<close> are parameters: a validator is the list of
  errors it reports for an instance, in the order it reports them.
\<close>

section \<open>Declarations and paths\<close>

record schema_declaration =
  sd_path :: string
  sd_document :: "json option"

definition DRAFT_2020_12_DIALECT :: string where
  "DRAFT_2020_12_DIALECT = ''https://json-schema.org/draft/2020-12/schema''"

definition REPOSITORY_SCHEMA_BASE_URI :: string where
  "REPOSITORY_SCHEMA_BASE_URI = ''metewand://repository/''"

datatype schema_catalog_error =
    InvalidPath string
  | MissingDialect string
  | UnsupportedDialect string json

text \<open>\<open>str::split\<close> on one character: the empty string has one empty part.\<close>

fun str_split :: "char \<Rightarrow> string \<Rightarrow> string list" where
  "str_split c [] = [[]]"
| "str_split c (x # xs) =
     (if x = c then [] # str_split c xs
      else (case str_split c xs of [] \<Rightarrow> [[x]] | part # parts \<Rightarrow> (x # part) # parts))"

definition validate_repository_path :: "string \<Rightarrow> (unit, schema_catalog_error) result" where
  "validate_repository_path path =
     ensure (path \<noteq> [] \<and> take 1 path \<noteq> ''/'' \<and> CHR 0x5C \<notin> set path
       \<and> list_all (\<lambda>component. component \<noteq> [] \<and> component \<noteq> ''.'' \<and> component \<noteq> ''..'')
           (str_split (CHR ''/'') path))
       (InvalidPath path)"

definition validate_dialect :: "string \<Rightarrow> json \<Rightarrow> (unit, schema_catalog_error) result" where
  "validate_dialect path document =
     (case Option.bind (as_object document) (\<lambda>m. map_of m ''$schema'') of
        None \<Rightarrow> Inl (MissingDialect path)
      | Some dialect \<Rightarrow>
          (case as_str dialect of
             None \<Rightarrow> Inl (UnsupportedDialect path dialect)
           | Some d \<Rightarrow> ensure (d = DRAFT_2020_12_DIALECT) (UnsupportedDialect path dialect)))"

definition is_ascii_alphanumeric :: "char \<Rightarrow> bool" where
  "is_ascii_alphanumeric c \<longleftrightarrow> is_ascii_digit c
     \<or> (65 \<le> byte_of c \<and> byte_of c \<le> 90) \<or> (97 \<le> byte_of c \<and> byte_of c \<le> 122)"

definition uri_plain :: "char \<Rightarrow> bool" where
  "uri_plain c \<longleftrightarrow> is_ascii_alphanumeric c \<or> c \<in> set ''-._~/''"

definition upper_hex_digits :: string where
  "upper_hex_digits = ''0123456789ABCDEF''"

definition uri_byte :: "char \<Rightarrow> string" where
  "uri_byte c = (if uri_plain c then [c]
     else CHR ''%'' # [upper_hex_digits ! (byte_of c div 16), upper_hex_digits ! (byte_of c mod 16)])"

definition repository_uri :: "string \<Rightarrow> string" where
  "repository_uri path = REPOSITORY_SCHEMA_BASE_URI @ concat (map uri_byte path)"

section \<open>Validation\<close>

datatype validation_error_kind =
    RequiredError json
  | AdditionalPropertiesError "string list"
  | UnevaluatedPropertiesError "string list"
  | OtherError

record validation_error =
  ve_instance_path :: string
  ve_kind :: validation_error_kind
  ve_keyword_location :: "string option"
  ve_schema_path :: string
  ve_message :: string

text \<open>\<open>SchemaViolation\<close> with its derived lexicographic order, as the tuple of its fields.\<close>

type_synonym schema_violation = "string \<times> string \<times> string \<times> string"

datatype schema_validation_error =
    UnknownSchema string
  | InvalidInstance string "schema_violation list"

type_synonym validator = "json \<Rightarrow> validation_error list"

record schema_catalog =
  validators :: "(string \<times> validator) list"
  normalized :: "(string \<times> json) list"

definition escape_pointer :: "string \<Rightarrow> string" where
  "escape_pointer segment =
     concat (map (\<lambda>c. if c = CHR ''~'' then ''~0'' else if c = CHR ''/'' then ''~1'' else [c]) segment)"

definition unexpected_path :: "string \<Rightarrow> string list \<Rightarrow> string" where
  "unexpected_path instance_path unexpected =
     (if unexpected = [] then instance_path
      else instance_path @ ''/'' @ escape_pointer (min_list unexpected))"

definition value_path :: "validation_error \<Rightarrow> string" where
  "value_path e = (case ve_kind e of
       RequiredError property \<Rightarrow>
         ve_instance_path e @ ''/'' @ escape_pointer (case as_str property of Some s \<Rightarrow> s | None \<Rightarrow> [])
     | AdditionalPropertiesError unexpected \<Rightarrow> unexpected_path (ve_instance_path e) unexpected
     | UnevaluatedPropertiesError unexpected \<Rightarrow> unexpected_path (ve_instance_path e) unexpected
     | OtherError \<Rightarrow> ve_instance_path e)"

definition schema_violation_of :: "validation_error \<Rightarrow> schema_violation" where
  "schema_violation_of e =
     (ve_instance_path e,
      (case ve_keyword_location e of None \<Rightarrow> ve_schema_path e | Some l \<Rightarrow> l),
      ve_message e, value_path e)"

definition schema_validate ::
  "schema_catalog \<Rightarrow> string \<Rightarrow> json \<Rightarrow> (unit, schema_validation_error) result" where
  "schema_validate catalog path v =
     res_bind (ok_or (map_of (validators catalog) path) (UnknownSchema path)) (\<lambda>validator.
       let violations = sort (map schema_violation_of (validator v))
       in ensure (violations = []) (InvalidInstance path violations))"

definition schema_contains :: "schema_catalog \<Rightarrow> string \<Rightarrow> bool" where
  "schema_contains catalog path \<longleftrightarrow> map_of (validators catalog) path \<noteq> None"

definition schema_matches :: "schema_catalog \<Rightarrow> schema_declaration \<Rightarrow> schema_declaration \<Rightarrow> bool" where
  "schema_matches catalog left right \<longleftrightarrow>
     left = right
     \<or> ((sd_document left \<noteq> None \<or> sd_document right \<noteq> None)
        \<and> (case map_of (normalized catalog) (sd_path left) of
             None \<Rightarrow> False
           | Some document \<Rightarrow> Some document = map_of (normalized catalog) (sd_path right)))"

section \<open>Numeric properties\<close>

definition json_get :: "json \<Rightarrow> string \<Rightarrow> json option" where
  "json_get v key = (case v of JObject m \<Rightarrow> map_of m key | _ \<Rightarrow> None)"

text \<open>\<open>reference.split_once('#').unwrap_or((reference, ""))\<close>.\<close>

definition split_fragment :: "string \<Rightarrow> string \<times> string" where
  "split_fragment s = (takeWhile (\<lambda>c. c \<noteq> CHR ''#'') s, drop 1 (dropWhile (\<lambda>c. c \<noteq> CHR ''#'') s))"

definition find_document :: "schema_catalog \<Rightarrow> string \<Rightarrow> json option" where
  "find_document catalog uri =
     map_option snd (find (\<lambda>(path, document). repository_uri path = uri
        \<or> Option.bind (json_get document ''$id'') as_str = Some uri) (normalized catalog))"

type_synonym pointer = "json \<Rightarrow> string \<Rightarrow> json option"

text \<open>\<open>resolve\<close> follows at most 64 references; the first argument is the number left.\<close>

fun resolve_ref :: "nat \<Rightarrow> pointer \<Rightarrow> schema_catalog \<Rightarrow> json \<Rightarrow> json \<Rightarrow> (json \<times> json) option" where
  "resolve_ref 0 ptr catalog node doc = None"
| "resolve_ref (Suc n) ptr catalog node doc =
     (case Option.bind (json_get node ''$ref'') as_str of
        None \<Rightarrow> Some (node, doc)
      | Some reference \<Rightarrow>
          (let (uri, fragment) = split_fragment reference in
           Option.bind (if uri = [] then Some doc else find_document catalog uri) (\<lambda>doc.
           Option.bind (if fragment = [] then Some doc else ptr doc fragment) (\<lambda>node.
             resolve_ref n ptr catalog node doc))))"

definition has_numeric_property :: "pointer \<Rightarrow> schema_catalog \<Rightarrow> string \<Rightarrow> string \<Rightarrow> bool" where
  "has_numeric_property ptr catalog path name =
     (case Option.bind (map_of (normalized catalog) path) (\<lambda>doc. resolve_ref 64 ptr catalog doc doc) of
        None \<Rightarrow> False
      | Some (object, doc) \<Rightarrow>
          (case Option.bind (json_get object ''properties'') (\<lambda>p. json_get p name) of
             None \<Rightarrow> False
           | Some property \<Rightarrow>
               (case resolve_ref 64 ptr catalog property doc of
                  None \<Rightarrow> False
                | Some (property, _) \<Rightarrow>
                    Option.bind (json_get property ''type'') as_str \<in> {Some ''number'', Some ''integer''})))"

section \<open>Paths and URIs\<close>

lemma str_split_nonempty [simp]: "str_split c s \<noteq> []"
  by (induction s) (auto split: list.splits)

text \<open>The parts of a split, joined again, are the string.\<close>

fun str_join :: "char \<Rightarrow> string list \<Rightarrow> string" where
  "str_join c [] = []"
| "str_join c [part] = part"
| "str_join c (part # parts) = part @ c # str_join c parts"

lemma str_join_Cons: "parts \<noteq> [] \<Longrightarrow> str_join c (part # parts) = part @ c # str_join c parts"
  by (cases parts) auto

lemma str_join_split: "str_join c (str_split c s) = s"
proof (induction s)
  case (Cons x xs)
  obtain part parts where split: "str_split c xs = part # parts"
    by (cases "str_split c xs") auto
  with Cons show ?case by (cases parts) auto
qed simp

lemma str_split_parts: "part \<in> set (str_split c s) \<Longrightarrow> c \<notin> set part"
proof (induction s arbitrary: part)
  case (Cons x xs)
  then show ?case by (cases "str_split c xs") (auto split: if_splits)
qed simp

lemma str_split_append: "c \<notin> set part \<Longrightarrow> str_split c (part @ c # rest) = part # str_split c rest"
  by (induction part) auto

lemma str_split_plain: "c \<notin> set part \<Longrightarrow> str_split c part = [part]"
  by (induction part) auto

lemma str_split_join:
  "parts \<noteq> [] \<Longrightarrow> list_all (\<lambda>part. c \<notin> set part) parts \<Longrightarrow> str_split c (str_join c parts) = parts"
proof (induction parts)
  case (Cons part parts)
  then show ?case
    by (cases parts) (simp_all add: str_split_plain str_split_append str_join_Cons)
qed simp

text \<open>Lexical resolution of a path below a directory: \<open>..\<close> leaves it, \<open>.\<close> and empty parts stay.\<close>

fun walk :: "string list \<Rightarrow> string list \<Rightarrow> string list option" where
  "walk here [] = Some here"
| "walk here (part # parts) =
     (if part = [] \<or> part = ''.'' then walk here parts
      else if part = ''..'' then (case here of [] \<Rightarrow> None | _ \<Rightarrow> walk (butlast here) parts)
      else walk (here @ [part]) parts)"

lemma walk_plain:
  "list_all (\<lambda>part. part \<noteq> [] \<and> part \<noteq> ''.'' \<and> part \<noteq> ''..'') parts \<Longrightarrow> walk here parts = Some (here @ parts)"
  by (induction parts arbitrary: here) auto

lemma upper_hex_table:
  "distinct (map (\<lambda>n. upper_hex_digits ! n) [0..<16])"
  by code_simp

lemma upper_hex_inject: "m < 16 \<Longrightarrow> n < 16 \<Longrightarrow> upper_hex_digits ! m = upper_hex_digits ! n \<longleftrightarrow> m = n"
  using upper_hex_table by (auto simp: distinct_map inj_on_def)

lemma uri_percent: "\<not> uri_plain (CHR ''%'')"
  by code_simp

lemma byte_nibbles: "byte_of c div 16 < 16" "byte_of c mod 16 < 16"
  using byte_of_less [of c] by (simp_all add: less_mult_imp_div_less)

lemma uri_byte_inject: "uri_byte a @ s = uri_byte b @ t \<longleftrightarrow> a = b \<and> s = t"
proof
  assume eq: "uri_byte a @ s = uri_byte b @ t"
  show "a = b \<and> s = t"
  proof (cases "uri_plain a \<or> uri_plain b")
    case True
    with eq uri_percent show ?thesis by (auto simp: uri_byte_def split: if_splits)
  next
    case False
    with eq have "byte_of a div 16 = byte_of b div 16" "byte_of a mod 16 = byte_of b mod 16" "s = t"
      by (auto simp: uri_byte_def upper_hex_inject byte_nibbles)
    then have "byte_of a = byte_of b" by (metis div_mult_mod_eq)
    with \<open>s = t\<close> show ?thesis by (simp add: byte_of_def)
  qed
qed simp

lemma uri_byte_nonempty: "uri_byte c \<noteq> []"
  by (simp add: uri_byte_def)

lemma uri_bytes_inject: "concat (map uri_byte p) = concat (map uri_byte q) \<Longrightarrow> p = q"
proof (induction p arbitrary: q)
  case Nil
  then show ?case by (cases q) (auto simp: uri_byte_nonempty)
next
  case (Cons a p)
  then obtain b r where "q = b # r" by (cases q) (auto simp: uri_byte_nonempty)
  with Cons show ?case by (auto simp: uri_byte_inject)
qed

lemma uri_bytes_alphabet: "c \<in> set (concat (map uri_byte p)) \<Longrightarrow> uri_plain c \<or> c = CHR ''%''"
proof -
  have "list_all uri_plain upper_hex_digits" by code_simp
  then have "n < 16 \<Longrightarrow> uri_plain (upper_hex_digits ! n)" for n
    by (simp add: list_all_length upper_hex_digits_def)
  then show "c \<in> set (concat (map uri_byte p)) \<Longrightarrow> uri_plain c \<or> c = CHR ''%''"
    by (auto simp: uri_byte_def byte_nibbles split: if_splits)
qed

lemma split_fragment_at: "CHR ''#'' \<notin> set s \<Longrightarrow> split_fragment (s @ CHR ''#'' # t) = (s, t)"
  by (induction s) (auto simp: split_fragment_def)

section \<open>The contracts\<close>

text \<open>
  A path the catalog accepts, resolved part by part below any
  directory, ends exactly below that directory with the parts as written: it never leaves the
  directory, is never the directory itself, and no other accepted path resolves to the same place.
\<close>

theorem repository_path_contained:
  assumes "validate_repository_path path = Inr ()" "validate_repository_path other = Inr ()"
  shows "walk here (str_split (CHR ''/'') path) = Some (here @ str_split (CHR ''/'') path)
    \<and> str_split (CHR ''/'') path \<noteq> []
    \<and> (walk here (str_split (CHR ''/'') path) = walk here (str_split (CHR ''/'') other) \<longleftrightarrow> path = other)"
proof -
  have "walk here (str_split (CHR ''/'') p) = Some (here @ str_split (CHR ''/'') p)"
    if "validate_repository_path p = Inr ()" for p
    using that by (intro walk_plain) (auto simp: validate_repository_path_def)
  from this [OF assms(1)] this [OF assms(2)] show ?thesis
    by simp (metis str_join_split)
qed

theorem repository_path_contained_witness:
  "walk [''repo''] (str_split (CHR ''/'') ''schemas/data.json'') = Some [''repo'', ''schemas'', ''data.json'']
   \<and> walk [''repo''] (str_split (CHR ''/'') ''schemas/data.json'')
       \<noteq> walk [''repo''] (str_split (CHR ''/'') ''schemas/other.json'')"
proof -
  have "validate_repository_path ''schemas/data.json'' = Inr ()"
    "validate_repository_path ''schemas/other.json'' = Inr ()"
    by (simp_all add: validate_repository_path_def)
  from repository_path_contained [OF this, of "[''repo'']"] show ?thesis by simp
qed

text \<open>
  Different repository paths have different schema URIs, and a URI
  contains no fragment separator, so that splitting a reference at its first \<open>#\<close> keeps the URI.
\<close>

lemma repository_uri_faithful:
  "(repository_uri path = repository_uri other \<longleftrightarrow> path = other)
   \<and> split_fragment (repository_uri path @ CHR ''#'' # fragment) = (repository_uri path, fragment)"
proof -
  have "\<not> uri_plain (CHR ''#'')" by code_simp
  with uri_bytes_alphabet [of "CHR ''#''" path] have "CHR ''#'' \<notin> set (repository_uri path)"
    by (auto simp: repository_uri_def REPOSITORY_SCHEMA_BASE_URI_def)
  then have "split_fragment (repository_uri path @ CHR ''#'' # fragment) = (repository_uri path, fragment)"
    by (intro split_fragment_at)
  then show ?thesis using uri_bytes_inject by (auto simp: repository_uri_def)
qed

end
