(* ===== verification/Control_Schedule.thy ===== *)
theory Control_Schedule
  imports Profile_Policy Schema_Catalog
begin

text \<open>
  Fresh-sequence control schedules and profile bindings (\<open>core/profile.rs\<close>).  A linear or geometric
  schedule is generated by repeated binary64 addition or multiplication, so the two operations are
  written out with their rounding.  A failed allocation (\<open>try_reserve\<close>) is not modelled.
\<close>

section \<open>Binary64 addition and multiplication\<close>

fun bit_length :: "nat \<Rightarrow> nat" where
  "bit_length n = (if n = 0 then 0 else Suc (bit_length (n div 2)))"

declare bit_length.simps [simp del]

definition pow2 :: "int \<Rightarrow> rat" where
  "pow2 e = (if 0 \<le> e then 2 ^ nat e else 1 / 2 ^ nat (- e))"

text \<open>\<open>\<lfloor>log\<^sub>2 q\<rfloor>\<close> of a positive rational.\<close>

definition rat_log2 :: "rat \<Rightarrow> int" where
  "rat_log2 q =
     (let (n, d) = quotient_of q;
          k = int (bit_length (nat n)) - int (bit_length (nat d))
      in if pow2 k \<le> q then k else k - 1)"

definition round_half_even :: "rat \<Rightarrow> int" where
  "round_half_even q =
     (let f = \<lfloor>q\<rfloor>; r = q - of_int f in if r < 1 / 2 \<or> (r = 1 / 2 \<and> even f) then f else f + 1)"

text \<open>Round a nonzero rational to binary64: 53 significant bits, smallest exponent -1074.\<close>

definition f64_round :: "rat \<Rightarrow> f64" where
  "f64_round q =
     (let ulp = pow2 (max (rat_log2 \<bar>q\<bar>) (- 1022) - 52);
          v = of_int (round_half_even (\<bar>q\<bar> / ulp)) * ulp
      in if 2 ^ 1024 \<le> v then (if q < 0 then NegInfinity else PosInfinity)
         else if v = 0 then (if q < 0 then NegZero else F64 0)
         else F64 (if q < 0 then - v else v))"

definition f64_negative :: "f64 \<Rightarrow> bool" where
  "f64_negative x = (case x of F64 q \<Rightarrow> q < 0 | NegZero \<Rightarrow> True | NegInfinity \<Rightarrow> True | _ \<Rightarrow> False)"

definition f64_add :: "f64 \<Rightarrow> f64 \<Rightarrow> f64" where
  "f64_add x y =
     (if x = NaN \<or> y = NaN then NaN
      else if f64_is_finite x \<and> f64_is_finite y then
        (if f64_rat x + f64_rat y = 0 then (if x = NegZero \<and> y = NegZero then NegZero else F64 0)
         else f64_round (f64_rat x + f64_rat y))
      else if f64_is_finite x then y
      else if f64_is_finite y \<or> x = y then x else NaN)"

definition f64_mul :: "f64 \<Rightarrow> f64 \<Rightarrow> f64" where
  "f64_mul x y =
     (let negative = (f64_negative x \<noteq> f64_negative y) in
      if x = NaN \<or> y = NaN then NaN
      else if f64_is_finite x \<and> f64_is_finite y then
        (if f64_rat x * f64_rat y = 0 then (if negative then NegZero else F64 0)
         else f64_round (f64_rat x * f64_rat y))
      else if (f64_is_finite x \<and> f64_rat x = 0) \<or> (f64_is_finite y \<and> f64_rat y = 0) then NaN
      else if negative then NegInfinity else PosInfinity)"

section \<open>Schedules\<close>

datatype control_schedule =
    ExplicitControls "json list"
  | Linear string f64 f64 u64 "json list"
  | Geometric string f64 f64 u64 "json list"

datatype control_error =
    ControlCount | ControlNotObject | ControlCanonical canonical_violation | ControlFieldEmpty
  | GeneratedCount | NotFiniteArithmetic

fun schedule_prefix :: "control_schedule \<Rightarrow> json list" where
  "schedule_prefix (ExplicitControls controls) = []"
| "schedule_prefix (Linear field start step count prefix) = prefix"
| "schedule_prefix (Geometric field start ratio count prefix) = prefix"

fun schedule_len :: "control_schedule \<Rightarrow> u64" where
  "schedule_len (ExplicitControls controls) = length controls"
| "schedule_len (Linear field start step count prefix) = saturating_add count (length prefix)"
| "schedule_len (Geometric field start ratio count prefix) = saturating_add count (length prefix)"

definition schedule_is_empty :: "control_schedule \<Rightarrow> bool" where
  "schedule_is_empty s \<longleftrightarrow> schedule_len s = 0"

definition control_object :: "json \<Rightarrow> (json, control_error) result" where
  "control_object v =
     res_bind (ensure (is_object v) ControlNotObject) (\<lambda>_. map_err ControlCanonical (normalize_value v))"

definition control_number :: "f64 \<Rightarrow> json" where
  "control_number v =
     (if f64_is_integral v \<and> \<bar>f64_rat v\<bar> \<le> of_nat MAX_SAFE_INTEGER
      then JNumber (number_from_i64 (f64_as_i64 v)) else JNumber (Float v))"

fun generate_controls :: "(f64 \<Rightarrow> f64) \<Rightarrow> string \<Rightarrow> nat \<Rightarrow> f64 \<Rightarrow> (json list, control_error) result" where
  "generate_controls step field 0 v = Inr []"
| "generate_controls step field (Suc n) v =
     (if \<not> f64_is_finite v then Inl NotFiniteArithmetic
      else res_bind (map_err ControlCanonical (normalize_value (JObject [(field, control_number v)]))) (\<lambda>c.
        res_bind (generate_controls step field n (if 0 < n then step v else v)) (\<lambda>cs. Inr (c # cs))))"

definition expand_generated ::
  "(f64 \<Rightarrow> f64) \<Rightarrow> string \<Rightarrow> f64 \<Rightarrow> json list \<Rightarrow> u64 \<Rightarrow> (json list, control_error) result" where
  "expand_generated step field start prefix count =
     res_bind (ensure (field \<noteq> []) ControlFieldEmpty) (\<lambda>_.
     res_bind (collect_results control_object prefix) (\<lambda>controls.
       let generated = count - length prefix in
       res_bind (ensure (generated \<noteq> 0) GeneratedCount) (\<lambda>_.
       res_bind (generate_controls step field generated start) (\<lambda>cs. Inr (controls @ cs)))))"

definition expand_schedule :: "control_schedule \<Rightarrow> u64 \<Rightarrow> (json list, control_error) result" where
  "expand_schedule s bound =
     (let count = schedule_len s in
      res_bind (ensure (\<not> (count = 0 \<or> count > bound \<or> count > MAX_SAFE_INTEGER)) ControlCount) (\<lambda>_.
        case s of
          ExplicitControls values \<Rightarrow> collect_results control_object values
        | Linear field start step _ prefix \<Rightarrow> expand_generated (\<lambda>v. f64_add v step) field start prefix count
        | Geometric field start ratio _ prefix \<Rightarrow>
            expand_generated (\<lambda>v. f64_mul v ratio) field start prefix count))"

section \<open>Bindings\<close>

record buffered_binding =
  bb_scope :: string
  bb_schema :: schema_declaration
  bb_instrumentation :: json
  bb_check_schedule :: check_schedule

record fresh_binding =
  fb_control_schema :: schema_declaration
  fb_schedule :: control_schedule

datatype profile_binding =
    BufferedBinding buffered_binding
  | FreshBinding fresh_binding
  | StreamingBinding check_schedule

fun binding_schema :: "profile_binding \<Rightarrow> schema_declaration option" where
  "binding_schema (BufferedBinding b) = Some (bb_schema b)"
| "binding_schema (FreshBinding b) = Some (fb_control_schema b)"
| "binding_schema (StreamingBinding c) = None"

datatype binding_error =
    CheckpointBytes | BindingSchedule | BindingPolicy policy_error | BindingShape | FreshCount
  | FreshControls control_error

fun validate_binding :: "profile_binding \<Rightarrow> profile_policy \<Rightarrow> (unit, binding_error) result" where
  "validate_binding (StreamingBinding c) policy =
     res_bind (ensure (\<not> (pp_max_checkpoint_bytes policy = 0
         \<or> pp_max_checkpoint_bytes policy > MAX_SAFE_INTEGER)) CheckpointBytes) (\<lambda>_.
       ensure (schedule_valid c) BindingSchedule)"
| "validate_binding (BufferedBinding b) policy =
     res_bind (map_err BindingPolicy (validate_buffered policy)) (\<lambda>_.
     res_bind (ensure (schedule_valid (bb_check_schedule b)) BindingSchedule) (\<lambda>_.
       ensure (\<not> (bb_scope b = [] \<or> \<not> is_object (bb_instrumentation b))) BindingShape))"
| "validate_binding (FreshBinding b) policy =
     (let count = schedule_len (fb_schedule b) in
      res_bind (ensure (\<not> (count = 0 \<or> count > pp_max_observations policy
          \<or> (pp_metric policy = None \<and> count \<noteq> pp_max_observations policy))) FreshCount) (\<lambda>_.
      res_bind (map_err FreshControls (expand_schedule (fb_schedule b) (pp_max_observations policy))) (\<lambda>_.
        Inr ())))"

text \<open>\<open>SelectedStreamingProfile::measurement_index\<close>.\<close>

definition streaming_measurement_index :: "profile_policy \<Rightarrow> u64 \<Rightarrow> u64" where
  "streaming_measurement_index policy slot_index = slot_index div pp_max_observations policy"

section \<open>Integers are exact\<close>

lemma bit_length_bounds: "0 < n \<Longrightarrow> 2 ^ (bit_length n - 1) \<le> n \<and> n < 2 ^ bit_length n \<and> 0 < bit_length n"
proof (induction n rule: bit_length.induct)
  case (1 n)
  show ?case
  proof (cases "n div 2 = 0")
    case True
    with 1 have "n = 1" by auto
    then show ?thesis by (simp add: bit_length.simps)
  next
    case False
    with 1 have ih: "2 ^ (bit_length (n div 2) - 1) \<le> n div 2" "n div 2 < 2 ^ bit_length (n div 2)"
      "0 < bit_length (n div 2)" by auto
    have step: "bit_length n = Suc (bit_length (n div 2))"
      using 1 by (simp add: bit_length.simps [of n])
    obtain b where b: "bit_length (n div 2) = Suc b" using ih(3) by (cases "bit_length (n div 2)") auto
    with ih(1,2) show ?thesis by (simp add: step) linarith
  qed
qed

lemma pow2_pos [simp]: "0 < pow2 e"
  by (simp add: pow2_def)

lemma pow2_add: "pow2 (a + b) = pow2 a * pow2 b"
proof -
  have "pow2 e = 2 powi e" for e
    by (auto simp: pow2_def power_int_def inverse_eq_divide power_one_over)
  then show ?thesis by (simp add: power_int_add)
qed

lemma pow2_nat [simp]: "pow2 (int n) = 2 ^ n"
  by (simp add: pow2_def)

lemma pow2_mono: "a \<le> b \<Longrightarrow> pow2 a \<le> pow2 b"
proof -
  assume "a \<le> b"
  then have "pow2 b = pow2 a * 2 ^ nat (b - a)"
    using pow2_add [of a "b - a"] by (simp add: pow2_def [of "b - a"])
  moreover have "pow2 a * 1 \<le> pow2 a * 2 ^ nat (b - a)"
    by (rule mult_left_mono) (simp_all add: less_imp_le)
  ultimately show ?thesis by simp
qed

lemma pow2_log2_le:
  assumes "0 < q"
  shows "pow2 (rat_log2 q) \<le> q"
proof -
  obtain n d where q: "quotient_of q = (n, d)" by (cases "quotient_of q")
  then have d: "0 < d" and eq: "q = of_int n / of_int d"
    by (auto simp: quotient_of_denom_pos quotient_of_div)
  with assms have n: "0 < n" by (simp add: zero_less_divide_iff)
  let ?k = "int (bit_length (nat n)) - int (bit_length (nat d))"
  have bn: "2 ^ (bit_length (nat n) - 1) \<le> nat n" "0 < bit_length (nat n)"
    and bd: "nat d < 2 ^ bit_length (nat d)"
    using bit_length_bounds [of "nat n"] bit_length_bounds [of "nat d"] n d by auto
  have "pow2 (?k - 1) * of_int d \<le> of_int n"
  proof -
    have "(of_int d :: rat) \<le> pow2 (int (bit_length (nat d)))"
      using bd d by simp
    then have "pow2 (?k - 1) * of_int d \<le> pow2 (?k - 1) * pow2 (int (bit_length (nat d)))"
      by (rule mult_left_mono) (simp add: less_imp_le)
    also have "\<dots> = pow2 (int (bit_length (nat n) - 1))"
      unfolding pow2_add [symmetric] using bn(2) by (simp add: of_nat_diff)
    also have "\<dots> \<le> of_int n"
      using bn(1) n by simp
    finally show ?thesis .
  qed
  then have "pow2 (?k - 1) \<le> q" using d by (simp add: eq le_divide_eq)
  then show ?thesis by (simp add: rat_log2_def q Let_def)
qed

lemma round_half_even_int [simp]: "round_half_even (of_int n) = n"
  by (simp add: round_half_even_def)

lemma f64_round_int:
  assumes "n \<noteq> 0" "\<bar>n\<bar> \<le> 2 ^ 53"
  shows "f64_round (of_int n) = F64 (of_int n)"
proof -
  define m where "m = \<bar>n\<bar>"
  define l where "l = rat_log2 (of_int m)"
  define e where "e = max l (- 1022) - 52"
  have m: "0 < m" "m \<le> 2 ^ 53" using assms by (simp_all add: m_def)
  have l: "pow2 l \<le> of_int m" using pow2_log2_le [of "of_int m"] m by (simp add: l_def)
  have "\<exists>k. of_int m / pow2 e = of_int k"
  proof (cases "e \<le> 0")
    case True
    then have "pow2 e * 2 ^ nat (- e) = 1" using pow2_add [of e "int (nat (- e))"] by (simp add: pow2_def)
    moreover have "pow2 e \<noteq> 0" using pow2_pos [of e] by (metis less_irrefl)
    ultimately have "of_int m / pow2 e = of_int (m * 2 ^ nat (- e))" by (simp add: divide_eq_eq ac_simps)
    then show ?thesis by blast
  next
    case False
    then have "53 \<le> l" by (simp add: e_def)
    moreover have "l \<le> 53"
    proof (rule ccontr)
      assume "\<not> l \<le> 53"
      then have "pow2 54 \<le> pow2 l" by (intro pow2_mono) simp
      moreover have "(of_int m :: rat) \<le> 2 ^ 53" using m by (metis of_int_le_iff of_int_numeral of_int_power)
      ultimately show False using l by (simp add: pow2_def)
    qed
    ultimately have "l = 53" by simp
    with l m have "m = 2 ^ 53" by (simp add: pow2_def)
    then have "of_int m / pow2 e = of_int (2 ^ 52)" using \<open>l = 53\<close> by (simp add: e_def pow2_def)
    then show ?thesis by blast
  qed
  then obtain k where k: "of_int m / pow2 e = of_int k" by blast
  then have v: "of_int (round_half_even (of_int m / pow2 e)) * pow2 e = of_int m"
    using pow2_pos [of e] by (simp add: field_simps)
  have "(of_int m :: rat) \<le> 2 ^ 53" using m by (metis of_int_le_iff of_int_numeral of_int_power)
  then have "\<not> 2 ^ 1024 \<le> (of_int m :: rat)" by simp
  with v m show ?thesis
    unfolding f64_round_def Let_def
    by (simp add: m_def [symmetric] l_def [symmetric] e_def [symmetric] flip: of_int_abs) (auto simp: m_def)
qed

lemma control_number_int:
  "safe_int n \<Longrightarrow> control_number (F64 (of_int n)) = JNumber (number_from_i64 n)"
  by (simp add: control_number_def f64_is_integral_def f64_as_i64_def safe_int_def) linarith

lemma canonical_i64: "safe_int n \<Longrightarrow> canonical_domain (JNumber (number_from_i64 n))"
  by (auto simp: number_from_i64_def canonical_number_def safe_int_def)

lemma f64_add_int:
  assumes "safe_int (a + b)"
  shows "f64_add (F64 (of_int a)) (F64 (of_int b)) = F64 (of_int (a + b))"
proof (cases "a + b = 0")
  case True
  then have "(of_int a + of_int b :: rat) = 0" by (metis of_int_0 of_int_add)
  then show ?thesis using True by (simp add: f64_add_def)
next
  case False
  then have nz: "(of_int a + of_int b :: rat) \<noteq> 0" by (metis of_int_0_eq_iff of_int_add)
  have "f64_round (of_int (a + b)) = F64 (of_int (a + b))"
    using assms False by (intro f64_round_int) (auto simp: safe_int_def MAX_SAFE_INTEGER_def)
  with nz show ?thesis by (simp add: f64_add_def)
qed

lemma generate_linear:
  assumes "\<And>i. i < n \<Longrightarrow> safe_int (start + int i * step)"
  shows "generate_controls (\<lambda>v. f64_add v (F64 (of_int step))) field n (F64 (of_int start))
    = Inr (map (\<lambda>i. JObject [(field, JNumber (number_from_i64 (start + int i * step)))]) [0..<n])"
  using assms
proof (induction n arbitrary: start)
  case (Suc n)
  have start: "safe_int start" using Suc.prems [of 0] by simp
  have first: "normalize_value (JObject [(field, control_number (F64 (of_int start)))])
      = Inr (JObject [(field, JNumber (number_from_i64 start))])"
    unfolding control_number_int [OF start]
    using canonical_i64 [OF start] by (intro normalize_value_fixed) simp
  have rest: "[0..<Suc n] = 0 # map Suc [0..<n]"
    by (simp add: map_Suc_upt upt_conv_Cons)
  show ?case
  proof (cases "n = 0")
    case True
    with first show ?thesis by simp
  next
    case False
    have "safe_int (start + step)" using Suc.prems [of 1] False by simp
    from f64_add_int [OF this] have sum: "f64_add (F64 (of_int start)) (F64 (of_int step)) = F64 (of_int (start + step))" .
    have "safe_int (start + step + int i * step)" if "i < n" for i
      using Suc.prems [of "Suc i"] that by (simp add: algebra_simps)
    from Suc.IH [OF this] False show ?thesis
      unfolding generate_controls.simps sum rest using first by (simp add: algebra_simps)
  qed
qed simp

section \<open>The contracts\<close>

definition canonical_control :: "json \<Rightarrow> bool" where
  "canonical_control c \<longleftrightarrow> is_object c \<and> canonical_domain c"

lemma normalize_control: "normalize_value (JObject m) = Inr c \<Longrightarrow> canonical_control c"
  using normalize_value_sound [of "JObject m" c] by (auto simp: canonical_control_def)

lemma control_object_Ok: "control_object v = Inr c \<Longrightarrow> canonical_control c \<and> same_value v c"
  using normalize_value_sound by (auto simp: control_object_def dest: normalize_control)

lemma collect_controls_Ok:
  "collect_results control_object vs = Inr cs \<Longrightarrow> list_all canonical_control cs \<and> list_all2 same_value vs cs"
  by (auto simp: collect_results_Ok_iff list_all_length list_all2_conv_all_nth dest!: control_object_Ok)

lemma generate_controls_Ok:
  "generate_controls step field n v = Inr cs \<Longrightarrow> length cs = n \<and> list_all canonical_control cs"
proof (induction n arbitrary: v cs)
  case (Suc n)
  then show ?case by (fastforce split: if_splits dest: normalize_control simp del: normalize_value.simps)
qed simp

lemma expand_generated_Ok:
  assumes "expand_generated step field start prefix count = Inr cs" "length prefix \<le> count"
  shows "length cs = count \<and> list_all canonical_control cs \<and> list_all2 same_value prefix (take (length prefix) cs)"
proof -
  from assms(1) obtain ps gs where "collect_results control_object prefix = Inr ps"
    "generate_controls step field (count - length prefix) start = Inr gs" "cs = ps @ gs"
    by (auto simp: expand_generated_def Let_def)
  with collect_controls_Ok [of prefix ps] generate_controls_Ok [of step field _ start gs] assms(2)
  show ?thesis by (auto dest: collect_results_length)
qed

lemma expand_schedule_Ok:
  assumes "expand_schedule s bound = Inr controls"
  shows "0 < length controls \<and> length controls \<le> bound \<and> length controls = schedule_len s
    \<and> list_all canonical_control controls
    \<and> (case s of
         ExplicitControls vs \<Rightarrow> list_all2 same_value vs controls
       | Linear _ _ _ count prefix \<Rightarrow>
           list_all2 same_value prefix (take (length prefix) controls) \<and> length controls = count + length prefix
       | Geometric _ _ _ count prefix \<Rightarrow>
           list_all2 same_value prefix (take (length prefix) controls) \<and> length controls = count + length prefix)"
proof -
  have count: "0 < schedule_len s" "schedule_len s \<le> bound" "schedule_len s \<le> MAX_SAFE_INTEGER"
    using assms by (auto simp: expand_schedule_def Let_def)
  have sat: "saturating_add a b = a + b" if "saturating_add a b \<le> MAX_SAFE_INTEGER" for a b
    using that by (auto simp: saturating_add_def U64_MAX_def MAX_SAFE_INTEGER_def)
  show ?thesis
  proof (cases s)
    case (ExplicitControls vs)
    with assms count show ?thesis
      using collect_controls_Ok [of vs controls] collect_results_length [of control_object vs controls]
      by (auto simp: expand_schedule_def Let_def)
  next
    case (Linear field start step n prefix)
    with count sat [of n "length prefix"] have n: "schedule_len s = n + length prefix" by simp
    with Linear assms have "expand_generated (\<lambda>v. f64_add v step) field start prefix (n + length prefix) = Inr controls"
      by (auto simp: expand_schedule_def Let_def)
    from expand_generated_Ok [OF this] Linear n count show ?thesis by simp
  next
    case (Geometric field start ratio n prefix)
    with count sat [of n "length prefix"] have n: "schedule_len s = n + length prefix" by simp
    with Geometric assms have "expand_generated (\<lambda>v. f64_mul v ratio) field start prefix (n + length prefix) = Inr controls"
      by (auto simp: expand_schedule_def Let_def)
    from expand_generated_Ok [OF this] Geometric n count show ?thesis by simp
  qed
qed

definition example_schedule :: control_schedule where
  "example_schedule = Linear ''budget'' (F64 10) (F64 5) 2 [JObject [(''mode'', JString ''off'')]]"

lemma example_expansion:
  "expand_schedule example_schedule 3 = Inr [JObject [(''mode'', JString ''off'')],
     JObject [(''budget'', JNumber (PosInt 10))], JObject [(''budget'', JNumber (PosInt 15))]]"
proof -
  have "generate_controls (\<lambda>v. f64_add v (F64 (of_int 5))) ''budget'' 2 (F64 (of_int 10))
      = Inr (map (\<lambda>i. JObject [(''budget'', JNumber (number_from_i64 (10 + int i * 5)))]) [0..<2])"
    by (rule generate_linear) (auto simp: safe_int_def MAX_SAFE_INTEGER_def)
  then show ?thesis
    by (simp add: expand_schedule_def example_schedule_def expand_generated_def control_object_def
        number_from_i64_def saturating_add_def U64_MAX_def MAX_SAFE_INTEGER_def numeral_2_eq_2)
qed

text \<open>
  A linear schedule whose start and step are integers and whose values
  stay in the canonical integer range expands to exactly the arithmetic progression it denotes: the
  binary64 additions never round.
\<close>

theorem linear_schedule_exact:
  assumes "field \<noteq> []" "0 < count" "count \<le> bound" "count \<le> MAX_SAFE_INTEGER"
    and "\<forall>i < count. safe_int (start + int i * step)"
  shows "expand_schedule (Linear field (F64 (of_int start)) (F64 (of_int step)) count []) bound
    = Inr (map (\<lambda>i. JObject [(field, JNumber (number_from_i64 (start + int i * step)))]) [0..<count])"
proof -
  have "saturating_add count 0 = count"
    using assms(4) by (simp add: saturating_add_def U64_MAX_def MAX_SAFE_INTEGER_def)
  with assms generate_linear [of count start step field] show ?thesis
    by (simp add: expand_schedule_def expand_generated_def)
qed

theorem linear_schedule_exact_witness:
  "expand_schedule (Linear ''budget'' (F64 (of_int 10)) (F64 (of_int 5)) 2 []) 4
   = Inr [JObject [(''budget'', JNumber (PosInt 10))], JObject [(''budget'', JNumber (PosInt 15))]]"
proof -
  have "expand_schedule (Linear ''budget'' (F64 (of_int 10)) (F64 (of_int 5)) 2 []) 4
      = Inr (map (\<lambda>i. JObject [(''budget'', JNumber (number_from_i64 (10 + int i * 5)))]) [0..<2])"
    by (rule linear_schedule_exact) (auto simp: safe_int_def MAX_SAFE_INTEGER_def)
  then show ?thesis by (simp add: number_from_i64_def numeral_2_eq_2)
qed

end
