(* ===== verification/Seed_Scheduling.thy ===== *)
theory Seed_Scheduling
  imports Record_Identity "HOL-Library.Multiset"
begin

text \<open>
  Component seeds and dispatch order (\<open>core/seed.rs\<close>, \<open>core/scheduling.rs\<close> and the attempt
  priorities of \<open>core/planning.rs\<close>).  Every seed and every priority is a hash of a transcript
  written out here byte by byte; the lemmas show that transcripts of different inputs differ, that
  seed values stay inside the canonical integer range, and what the randomized order depends on.
\<close>

section \<open>Seeds\<close>

record derived_seed =
  ds_value :: u64
  ds_digest :: digest

datatype seed_derivation_error = SeedCanonical identity_error

datatype seed_role = DATASET_ROLE | IMPLEMENTATION_ROLE | SCHEDULING_ROLE

definition role_name :: "seed_role \<Rightarrow> string" where
  "role_name r = (case r of
       DATASET_ROLE \<Rightarrow> ''dataset'' | IMPLEMENTATION_ROLE \<Rightarrow> ''implementation''
     | SCHEDULING_ROLE \<Rightarrow> ''scheduling'')"

definition SEED_DERIVATION_DOMAIN :: string where
  "SEED_DERIVATION_DOMAIN = ''metewand-seed-v1''"

abbreviation NUL :: char where
  "NUL \<equiv> CHR 0x00"

definition seed_fields :: "externals \<Rightarrow> json \<Rightarrow> (string, seed_derivation_error) result" where
  "seed_fields X v = map_err SeedCanonical (canonical_bytes X v)"

definition seed_transcript :: "seed_role \<Rightarrow> string \<Rightarrow> string" where
  "seed_transcript role bytes = SEED_DERIVATION_DOMAIN @ [NUL] @ role_name role @ [NUL] @ bytes"

text \<open>The first eight digest bytes, read big-endian and shifted right by eleven.\<close>

definition derive_seed :: "externals \<Rightarrow> seed_role \<Rightarrow> string \<Rightarrow> derived_seed" where
  "derive_seed X role bytes =
     (let digest = sha256 X (seed_transcript role bytes);
          leading_bits = from_be_bytes (take 8 digest)
      in \<lparr>ds_value = leading_bits div 2 ^ 11, ds_digest = digest\<rparr>)"

definition canonical_dataset_seed_fields ::
  "externals \<Rightarrow> u64 \<Rightarrow> digest \<Rightarrow> json \<Rightarrow> (string, seed_derivation_error) result" where
  "canonical_dataset_seed_fields X experiment_seed dataset_definition dataset_parameters =
     seed_fields X (json_object
       [(''experiment_seed'', JNumber (number_from_u64 experiment_seed)),
        (''dataset_definition'', JString (record_id_display DatasetDefinitionKind dataset_definition)),
        (''dataset_parameters'', dataset_parameters)])"

definition derive_dataset_seed ::
  "externals \<Rightarrow> u64 \<Rightarrow> digest \<Rightarrow> json \<Rightarrow> (derived_seed, seed_derivation_error) result" where
  "derive_dataset_seed X experiment_seed dataset_definition dataset_parameters =
     res_bind (canonical_dataset_seed_fields X experiment_seed dataset_definition dataset_parameters)
       (\<lambda>bytes. Inr (derive_seed X DATASET_ROLE bytes))"

definition canonical_implementation_seed_fields ::
  "externals \<Rightarrow> u64 \<Rightarrow> digest \<Rightarrow> digest \<Rightarrow> u64 \<Rightarrow> (string, seed_derivation_error) result" where
  "canonical_implementation_seed_fields X experiment_seed dataset_configuration problem_configuration
     implementation_repetition =
     seed_fields X (json_object
       [(''experiment_seed'', JNumber (number_from_u64 experiment_seed)),
        (''dataset_configuration'',
           JString (record_id_display DatasetConfigurationKind dataset_configuration)),
        (''problem_configuration'',
           JString (record_id_display ProblemConfigurationKind problem_configuration)),
        (''implementation_repetition'', JNumber (number_from_u64 implementation_repetition))])"

definition derive_implementation_seed ::
  "externals \<Rightarrow> u64 \<Rightarrow> digest \<Rightarrow> digest \<Rightarrow> u64 \<Rightarrow> (derived_seed, seed_derivation_error) result" where
  "derive_implementation_seed X experiment_seed dataset_configuration problem_configuration
     implementation_repetition =
     res_bind (canonical_implementation_seed_fields X experiment_seed dataset_configuration
         problem_configuration implementation_repetition)
       (\<lambda>bytes. Inr (derive_seed X IMPLEMENTATION_ROLE bytes))"

definition canonical_scheduling_seed_fields ::
  "externals \<Rightarrow> u64 \<Rightarrow> string \<Rightarrow> string \<Rightarrow> nat \<Rightarrow> (string, seed_derivation_error) result" where
  "canonical_scheduling_seed_fields X experiment_seed benchmark_name experiment_name policy_version =
     seed_fields X (json_object
       [(''experiment_seed'', JNumber (number_from_u64 experiment_seed)),
        (''benchmark_name'', JString benchmark_name),
        (''experiment_name'', JString experiment_name),
        (''scheduling_policy_version'', JNumber (number_from_u64 policy_version))])"

definition derive_scheduling_seed ::
  "externals \<Rightarrow> u64 \<Rightarrow> string \<Rightarrow> string \<Rightarrow> nat \<Rightarrow> (derived_seed, seed_derivation_error) result" where
  "derive_scheduling_seed X experiment_seed benchmark_name experiment_name policy_version =
     res_bind (canonical_scheduling_seed_fields X experiment_seed benchmark_name experiment_name
         policy_version)
       (\<lambda>bytes. Inr (derive_seed X SCHEDULING_ROLE bytes))"

section \<open>Priorities\<close>

record comparison_block =
  cb_dataset_instance :: digest
  cb_problem_configuration :: digest
  cb_implementation_repetition :: u64
  cb_measurement_index :: u64

record scheduling_slot =
  ss_observation_round :: u64
  ss_logical_slot :: digest
  ss_comparison_block :: comparison_block
  ss_scheduling_priority :: digest

datatype attempt_slot_role = Warmup u64 | Measured digest

datatype run_order = Sequential | Randomized

definition SCHEDULING_PRIORITY_DOMAIN :: string where
  "SCHEDULING_PRIORITY_DOMAIN = ''metewand-scheduling-priority-v1''"

definition block_priority_transcript :: "derived_seed \<Rightarrow> comparison_block \<Rightarrow> string" where
  "block_priority_transcript seed block =
     SCHEDULING_PRIORITY_DOMAIN @ [NUL] @ ds_digest seed
     @ [NUL] @ ''block'' @ [NUL]
     @ record_id_display DatasetInstanceKind (cb_dataset_instance block) @ [NUL]
     @ record_id_display ProblemConfigurationKind (cb_problem_configuration block) @ [NUL]
     @ u64_to_be_bytes (cb_implementation_repetition block) @ [NUL]
     @ u64_to_be_bytes (cb_measurement_index block)"

definition derive_block_scheduling_priority ::
  "externals \<Rightarrow> derived_seed \<Rightarrow> comparison_block \<Rightarrow> digest" where
  "derive_block_scheduling_priority X seed block = sha256 X (block_priority_transcript seed block)"

definition attempt_priority_transcript ::
  "derived_seed \<Rightarrow> digest \<Rightarrow> attempt_slot_role \<Rightarrow> string" where
  "attempt_priority_transcript seed specification role =
     SCHEDULING_PRIORITY_DOMAIN @ [NUL] @ ds_digest seed @ [NUL] @
     (case role of
        Warmup warmup_index \<Rightarrow>
          ''warmup'' @ [NUL] @ record_id_display LogicalSpecificationKind specification @ [NUL]
          @ u64_to_be_bytes warmup_index
      | Measured observation_slot \<Rightarrow>
          ''measured'' @ [NUL] @ record_id_display LogicalObservationSlotKind observation_slot)"

definition derive_attempt_scheduling_priority ::
  "externals \<Rightarrow> derived_seed \<Rightarrow> digest \<Rightarrow> attempt_slot_role \<Rightarrow> digest" where
  "derive_attempt_scheduling_priority X seed specification role =
     sha256 X (attempt_priority_transcript seed specification role)"

section \<open>Dispatch order\<close>

text \<open>
  The sort key.  \<open>ComparisonBlock\<close> derives \<open>Ord\<close>, which compares its fields in declaration order;
  digests compare as byte strings.
\<close>

type_synonym block_key = "digest \<times> digest \<times> u64 \<times> u64"
type_synonym slot_key = "digest \<times> block_key \<times> u64 \<times> digest \<times> digest"

definition block_key_of :: "comparison_block \<Rightarrow> block_key" where
  "block_key_of b = (cb_dataset_instance b, cb_problem_configuration b,
     cb_implementation_repetition b, cb_measurement_index b)"

definition slot_key_of :: "externals \<Rightarrow> derived_seed \<Rightarrow> scheduling_slot \<Rightarrow> slot_key" where
  "slot_key_of X seed slot =
     (derive_block_scheduling_priority X seed (ss_comparison_block slot),
      block_key_of (ss_comparison_block slot), ss_observation_round slot,
      ss_scheduling_priority slot, ss_logical_slot slot)"

definition schedule_slots ::
  "externals \<Rightarrow> run_order \<Rightarrow> derived_seed \<Rightarrow> scheduling_slot list \<Rightarrow> nat list" where
  "schedule_slots X run_order seed slots =
     (let order = [0..<length slots]
      in if run_order = Randomized
         then sort_key (\<lambda>index. slot_key_of X seed (slots ! index)) order else order)"

text \<open>The slots in the order in which they are dispatched.\<close>

definition dispatch ::
  "externals \<Rightarrow> run_order \<Rightarrow> derived_seed \<Rightarrow> scheduling_slot list \<Rightarrow> scheduling_slot list" where
  "dispatch X run_order seed slots = map ((!) slots) (schedule_slots X run_order seed slots)"

section \<open>Transcripts determine their inputs\<close>

lemma length_record_id_display [simp]:
  "length (record_id_display k d) = 5 + length (kind_tag k) + 2 * length d"
  by (simp add: record_id_display_def)

lemma display_inject [simp]:
  "length d = 32 \<Longrightarrow> length e = 32 \<Longrightarrow> record_id_display k d = record_id_display k e \<longleftrightarrow> d = e"
  using record_id_display_inject by blast

lemma u64_to_be_bytes_inject:
  "m \<le> U64_MAX \<Longrightarrow> n \<le> U64_MAX \<Longrightarrow> u64_to_be_bytes m = u64_to_be_bytes n \<longleftrightarrow> m = n"
  by (metis u64_be_roundtrip)

lemma length_u64_to_be_bytes [simp]: "length (u64_to_be_bytes n) = 8"
  by (simp add: u64_to_be_bytes_def)

text \<open>The well-formedness the Rust types give: 32-byte digests and 64-bit indices.\<close>

definition block_wf :: "comparison_block \<Rightarrow> bool" where
  "block_wf b \<longleftrightarrow> length (cb_dataset_instance b) = 32 \<and> length (cb_problem_configuration b) = 32
     \<and> cb_implementation_repetition b \<le> U64_MAX \<and> cb_measurement_index b \<le> U64_MAX"

definition role_wf :: "attempt_slot_role \<Rightarrow> bool" where
  "role_wf r = (case r of Warmup n \<Rightarrow> n \<le> U64_MAX | Measured d \<Rightarrow> length d = 32)"

definition seed_wf :: "derived_seed \<Rightarrow> bool" where
  "seed_wf s \<longleftrightarrow> length (ds_digest s) = 32"

lemma block_transcript_inject:
  assumes "block_priority_transcript s b = block_priority_transcript t c"
    and "seed_wf s" "seed_wf t" "block_wf b" "block_wf c"
  shows "ds_digest s = ds_digest t \<and> b = c"
  using assms
  by (simp add: block_priority_transcript_def seed_wf_def block_wf_def u64_to_be_bytes_inject
      comparison_block.equality)

lemma attempt_transcript_inject:
  assumes "attempt_priority_transcript s p r = attempt_priority_transcript t q u"
    and "seed_wf s" "seed_wf t" "length p = 32" "length q = 32" "role_wf r" "role_wf u"
  shows "ds_digest s = ds_digest t \<and> r = u \<and> (\<forall>n. r = Warmup n \<longrightarrow> p = q)"
  using assms
  by (cases r; cases u)
    (simp_all add: attempt_priority_transcript_def seed_wf_def role_wf_def u64_to_be_bytes_inject)

lemma block_attempt_transcripts_differ:
  assumes "seed_wf s" "seed_wf t"
  shows "block_priority_transcript s b \<noteq> attempt_priority_transcript t q u"
  using assms
  by (cases u) (simp_all add: block_priority_transcript_def attempt_priority_transcript_def seed_wf_def)

lemma role_name_inject [simp]: "role_name r = role_name r' \<longleftrightarrow> r = r'"
  by (cases r; cases r') (simp_all add: role_name_def)

lemma role_name_no_nul: "NUL \<notin> set (role_name r)"
  by (cases r) (simp_all add: role_name_def)

lemma seed_transcript_inject [simp]:
  "seed_transcript r bytes = seed_transcript r' bytes' \<longleftrightarrow> r = r' \<and> bytes = bytes'"
proof
  assume "seed_transcript r bytes = seed_transcript r' bytes'"
  then have "role_name r @ [NUL] @ bytes = role_name r' @ [NUL] @ bytes'"
    by (simp add: seed_transcript_def)
  from append_sep_inject [OF this [simplified] role_name_no_nul role_name_no_nul]
  show "r = r' \<and> bytes = bytes'" by simp
qed simp

lemma seed_value_bound: "ds_value (derive_seed X role bytes) \<le> MAX_SAFE_INTEGER"
proof -
  let ?bits = "from_be_bytes (take 8 (sha256 X (seed_transcript role bytes)))"
  have "(256::nat) ^ length (take 8 (sha256 X (seed_transcript role bytes))) \<le> 256 ^ 8"
    by (rule power_increasing) simp_all
  with from_be_bytes_bound have "?bits < 256 ^ 8" by (rule less_le_trans)
  then have "?bits div 2 ^ 11 < 2 ^ 53"
    by (intro less_mult_imp_div_less) simp
  then show ?thesis
    by (simp add: derive_seed_def Let_def MAX_SAFE_INTEGER_eq)
qed

section \<open>What the randomized order depends on\<close>

lemma map_insort_key: "map g (insort_key (\<lambda>x. f (g x)) x xs) = insort_key f (g x) (map g xs)"
  by (induction xs) auto

lemma map_sort_key: "map g (sort_key (\<lambda>x. f (g x)) xs) = sort_key f (map g xs)"
  by (induction xs) (simp_all add: map_insort_key)

lemma dispatch_Randomized: "dispatch X Randomized seed slots = sort_key (slot_key_of X seed) slots"
  by (simp add: dispatch_def schedule_slots_def map_sort_key map_nth)

lemma dispatch_Sequential: "dispatch X Sequential seed slots = slots"
  by (simp add: dispatch_def schedule_slots_def map_nth)

lemma slot_key_inject: "slot_key_of X seed s = slot_key_of X seed t \<longleftrightarrow> s = t"
  by (auto simp: slot_key_of_def block_key_of_def intro!: scheduling_slot.equality comparison_block.equality)

lemma sort_slots_unique:
  assumes "mset slots = mset slots'"
  shows "sort_key (slot_key_of X seed) slots = sort_key (slot_key_of X seed) slots'"
  by (rule sort_key_inj_key_eq) (simp_all add: assms inj_on_def slot_key_inject)

lemma pair_between:
  fixes p q :: "'a::linorder" and x y z :: "'b::linorder"
  assumes "(p, x) \<le> (q, y)" "(q, y) \<le> (p, z)"
  shows "q = p \<and> x \<le> y \<and> y \<le> z"
  using assms by (auto simp: less_eq_prod_simp)

lemma pair_le_fst: "((x::'a::linorder), (u::'b::linorder)) \<le> (y, v) \<Longrightarrow> x \<le> y"
  by (auto simp: less_eq_prod_simp)

lemma key_between:
  assumes "slot_key_of X seed a \<le> slot_key_of X seed b" "slot_key_of X seed b \<le> slot_key_of X seed c"
    and "ss_comparison_block a = ss_comparison_block c"
  shows "ss_comparison_block b = ss_comparison_block a
    \<and> ss_observation_round a \<le> ss_observation_round b \<and> ss_observation_round b \<le> ss_observation_round c"
proof -
  have key: "block_key_of b = block_key_of a \<longleftrightarrow> b = a" for a b
    by (auto simp: block_key_of_def intro!: comparison_block.equality)
  note prio = pair_between [OF assms(1,2) [unfolded slot_key_of_def assms(3)]]
  note block = pair_between [OF prio [THEN conjunct2, THEN conjunct1] prio [THEN conjunct2, THEN conjunct2]]
  from key [THEN iffD1, OF block [THEN conjunct1]] have "ss_comparison_block b = ss_comparison_block a"
    by (simp only: assms(3))
  moreover note pair_le_fst [OF block [THEN conjunct2, THEN conjunct1]]
    pair_le_fst [OF block [THEN conjunct2, THEN conjunct2]]
  ultimately show ?thesis by simp
qed

section \<open>A concrete experiment\<close>

text \<open>A stand-in for the hash, of the documented width, and two blocks of three slots.\<close>

definition tail_hash :: externals where
  "tail_hash = \<lparr>sha256 = (\<lambda>bytes. replicate 32 (last bytes)),
     canonicalizer = (\<lambda>v. Some []), parse_json = (\<lambda>s. (VisitUnit, True)), json_text = (\<lambda>v. []),
     sqlite_object = (\<lambda>s. True)\<rparr>"

definition example_block :: "u64 \<Rightarrow> comparison_block" where
  "example_block n = \<lparr>cb_dataset_instance = replicate 32 NUL, cb_problem_configuration = replicate 32 NUL,
     cb_implementation_repetition = 0, cb_measurement_index = n\<rparr>"

definition example_slot :: "u64 \<Rightarrow> u64 \<Rightarrow> scheduling_slot" where
  "example_slot n r = \<lparr>ss_observation_round = r, ss_logical_slot = replicate 32 (char_of (3 - r)),
     ss_comparison_block = example_block n, ss_scheduling_priority = replicate 32 (char_of (9 - r))\<rparr>"

definition example_seed :: derived_seed where
  "example_seed = derive_seed tail_hash SCHEDULING_ROLE ''{}''"

definition example_slots :: "scheduling_slot list" where
  "example_slots = [example_slot 1 2, example_slot 0 0, example_slot 1 0, example_slot 0 1, example_slot 1 1]"

lemma replicate_less [simp]: "replicate n (a::'a::linorder) < replicate n b \<longleftrightarrow> 0 < n \<and> a < b"
  by (induction n) auto

lemma replicate_le [simp]: "replicate n (a::'a::linorder) \<le> replicate n b \<longleftrightarrow> 0 < n \<longrightarrow> a \<le> b"
  by (induction n) auto

lemma char_of_less [simp]: "(char_of (m::nat) < char_of n) \<longleftrightarrow> m mod 256 < n mod 256"
  by (simp add: less_char_def)

lemma example_dispatch: "dispatch tail_hash Randomized example_seed example_slots
    = [example_slot 0 0, example_slot 0 1, example_slot 1 0, example_slot 1 1, example_slot 1 2]"
proof -
  have eight: "be_bytes 8 n = be_bytes 7 (n div 256) @ [char_of (n mod 256)]" for n
    using be_bytes.simps(2) [of 7 n] by simp
  have "derive_block_scheduling_priority tail_hash example_seed (example_block n) = replicate 32 (char_of (n mod 256))"
    for n
    by (simp add: derive_block_scheduling_priority_def block_priority_transcript_def tail_hash_def
        example_block_def u64_to_be_bytes_def eight)
  then show ?thesis
    by (simp add: dispatch_Randomized example_slots_def slot_key_of_def block_key_of_def example_slot_def
        example_block_def)
qed

section \<open>The contracts\<close>

text \<open>
  A derived seed is an integer of the canonical JSON domain, its
  digest is the hash of a transcript that determines the role and the field bytes it was derived
  from, and the eight bytes it is cut from agree with the digest that is recorded beside it.
\<close>

theorem seed_derivation_separates:
  "ds_value (derive_seed X role bytes) \<le> MAX_SAFE_INTEGER
   \<and> ds_digest (derive_seed X role bytes) = sha256 X (seed_transcript role bytes)
   \<and> ds_value (derive_seed X role bytes)
       = from_be_bytes (take 8 (ds_digest (derive_seed X role bytes))) div 2048
   \<and> (seed_transcript role bytes = seed_transcript role' bytes' \<longleftrightarrow> role = role' \<and> bytes = bytes')"
  using seed_value_bound [of X role bytes] by (simp add: derive_seed_def Let_def)

text \<open>
  The bytes hashed for scheduling priorities determine what
  they are hashed for.  Two block transcripts are equal only for one seed digest and one block, two
  attempt transcripts only for one seed digest and one role (and one specification for a warm-up),
  and a block transcript is never an attempt transcript.
\<close>

theorem priority_transcripts_separate:
  assumes "seed_wf s" "seed_wf t" "block_wf b" "block_wf c"
    and "length p = 32" "length q = 32" "role_wf r" "role_wf u"
  shows "(block_priority_transcript s b = block_priority_transcript t c
            \<longleftrightarrow> ds_digest s = ds_digest t \<and> b = c)
    \<and> (attempt_priority_transcript s p r = attempt_priority_transcript t q u
            \<longrightarrow> ds_digest s = ds_digest t \<and> r = u \<and> (\<forall>n. r = Warmup n \<longrightarrow> p = q))
    \<and> block_priority_transcript s b \<noteq> attempt_priority_transcript t q u"
  using assms block_transcript_inject [of s b t c] attempt_transcript_inject [of s p r t q u]
    block_attempt_transcripts_differ [of s t b q u]
  by (auto simp: block_priority_transcript_def)

theorem priority_transcripts_separate_witness:
  "block_priority_transcript example_seed (example_block 0) \<noteq> block_priority_transcript example_seed (example_block 1)
   \<and> block_priority_transcript example_seed (example_block 0)
       \<noteq> attempt_priority_transcript example_seed (replicate 32 NUL) (Warmup 0)"
proof -
  have wf: "seed_wf example_seed" "block_wf (example_block 0)" "block_wf (example_block 1)" "role_wf (Warmup 0)"
    by (simp_all add: seed_wf_def block_wf_def role_wf_def example_seed_def example_block_def derive_seed_def
        tail_hash_def Let_def U64_MAX_def)
  have "example_block 0 \<noteq> example_block 1" by (simp add: example_block_def)
  then show ?thesis
    using priority_transcripts_separate [OF wf(1,1,2,3) _ _ wf(4,4), of "replicate 32 NUL" "replicate 32 NUL"]
    by simp
qed

text \<open>
  C30 (dispatch_stable): every slot is dispatched exactly once.  In randomized order the dispatch
  sequence is the same for every order of the input, and selecting a subset of the slots leaves the
  relative order of the selected ones as it was.
\<close>

theorem dispatch_stable:
  assumes "mset selected = mset (filter P slots)"
  shows "mset (schedule_slots X order seed slots) = mset [0..<length slots]
    \<and> dispatch X Randomized seed selected = filter P (dispatch X Randomized seed slots)"
proof
  show "mset (schedule_slots X order seed slots) = mset [0..<length slots]"
    by (simp add: schedule_slots_def Let_def)
  show "dispatch X Randomized seed selected = filter P (dispatch X Randomized seed slots)"
    unfolding dispatch_Randomized filter_sort using assms by (rule sort_slots_unique)
qed

theorem dispatch_stable_witness:
  "dispatch tail_hash Randomized example_seed [example_slot 1 0, example_slot 1 2]
   = [example_slot 1 0, example_slot 1 2]"
proof -
  have "mset [example_slot 1 0, example_slot 1 2] = mset (filter (\<lambda>s. cb_measurement_index (ss_comparison_block s) = 1
      \<and> ss_observation_round s \<noteq> 1) example_slots)"
    by (simp add: example_slots_def example_slot_def example_block_def)
  from dispatch_stable [OF this, where X = tail_hash and seed = example_seed] show ?thesis
    by (simp only: example_dispatch) (simp add: example_slot_def example_block_def)
qed

text \<open>
  C31 (blocks_dispatched_together): in randomized order the slots of a comparison block are
  dispatched one after another, round by round: a slot between two slots of one block belongs to
  that block, and its round lies between theirs.
\<close>

theorem blocks_dispatched_together:
  assumes "dispatch X Randomized seed slots = before @ a # between @ b # after" "s \<in> set between"
    and "ss_comparison_block a = ss_comparison_block b"
  shows "ss_comparison_block s = ss_comparison_block a
    \<and> ss_observation_round a \<le> ss_observation_round s \<and> ss_observation_round s \<le> ss_observation_round b"
proof -
  have "sorted (map (slot_key_of X seed) (before @ a # between @ b # after))"
    using sorted_sort_key [of "slot_key_of X seed" slots] assms(1) by (simp only: dispatch_Randomized)
  with assms(2) have "slot_key_of X seed a \<le> slot_key_of X seed s"
    and "slot_key_of X seed s \<le> slot_key_of X seed b"
    by (auto simp: sorted_append)
  then show ?thesis using assms(3) by (rule key_between)
qed


theorem blocks_dispatched_together_witness:
  "ss_comparison_block (example_slot 1 1) = ss_comparison_block (example_slot 1 0)
   \<and> ss_observation_round (example_slot 1 0) \<le> ss_observation_round (example_slot 1 1)
   \<and> ss_observation_round (example_slot 1 1) \<le> ss_observation_round (example_slot 1 2)"
  by (rule blocks_dispatched_together [where before = "[example_slot 0 0, example_slot 0 1]"
        and between = "[example_slot 1 1]" and after = "[]" and slots = example_slots
        and X = tail_hash and seed = example_seed])
    (simp_all add: example_dispatch, simp add: example_slot_def)

end
