(* ===== verification/Manifest_Model.thy ===== *)
theory Manifest_Model
  imports Control_Schedule Seed_Scheduling Run_Records
begin

text \<open>
  The parsed benchmark manifest (\<open>core/manifest.rs\<close>) and problem contract
  (\<open>core/problem_contract.rs\<close>) as validation and planning read them, with the version-1 defaults of
  an execution policy.  Reading YAML and the source positions kept for diagnostics are not modelled;
  fields no modelled operation reads are left out of the records.  \<open>BTreeMap\<close>s are association
  lists in key order.
\<close>

section \<open>Definitions\<close>

type_synonym name = string

datatype parameter_axis = AxisValue json | AxisGrid "json list"

type_synonym parameter_axes = "(string \<times> parameter_axis) list"
type_synonym named_parameter_axes = "(name \<times> parameter_axes) list"

datatype timing_scope = ColdEndToEnd | PrepareAndExecute | ExecuteOnly

datatype enforcement = BestEffortEnforcement | RequiredEnforcement

datatype observation_kind = OneShotKind | ProfileKind

datatype implementation_capability =
    FreshSequenceCapability | OneShotCapability | ApplicabilityCapability | BufferedProfileCapability
  | StreamingProfileCapability

datatype interpreted_runner = PythonRunner | RRunner | JuliaRunner

record interpreted_worker =
  iw_runner :: interpreted_runner
  iw_entrypoint :: string
  iw_args :: "string list"
  iw_environment :: name

record command_worker =
  cw_program :: string
  cw_args :: "string list"
  cw_environment :: name

datatype worker_definition = InterpretedWorker interpreted_worker | CommandWorker command_worker

record fixed_dataset =
  fd_output_schema :: schema_declaration
  fd_sources :: "string list"

record generated_dataset =
  gd_parameter_schema :: "schema_declaration option"
  gd_parameter_defaults :: "json option"
  gd_parameter_grids :: parameter_axes
  gd_output_schema :: schema_declaration
  gd_worker :: worker_definition

datatype dataset_definition = FixedDataset fixed_dataset | GeneratedDataset generated_dataset

record problem_definition =
  pd_contract_path :: "string option"
  pd_parameter_defaults :: "json option"

record implementation_definition =
  im_worker :: worker_definition
  im_problem_contracts :: "name list"
  im_parameter_schema :: "schema_declaration option"
  im_parameter_defaults :: "json option"
  im_parameter_grids :: parameter_axes
  im_capabilities :: "implementation_capability list"

record experiment_case =
  ec_name :: name
  ec_dataset_parameters :: named_parameter_axes
  ec_problem_parameters :: parameter_axes
  ec_implementation_parameters :: named_parameter_axes

record experiment_definition =
  ex_name :: name
  ex_problem :: name
  ex_datasets :: "name list"
  ex_implementations :: "name list"
  ex_execution_policy :: name
  ex_observation_policy :: name
  ex_implementation_repetitions :: u64
  ex_measurement_repetitions :: u64
  ex_seed :: u64
  ex_dataset_parameters :: named_parameter_axes
  ex_problem_parameters :: parameter_axes
  ex_implementation_parameters :: named_parameter_axes
  ex_cases :: "experiment_case list"

record execution_policy_definition =
  ep_cpus :: "u64 option"
  ep_threads :: "u64 option"
  ep_memory :: "string option"
  ep_network :: "bool option"
  ep_worker_reuse :: "bool option"
  ep_warmup_runs :: "u64 option"
  ep_timeout :: "string option"
  ep_timing_scope :: "timing_scope option"
  ep_primary_time :: "primary_time option"
  ep_run_order :: "run_order option"
  ep_max_concurrency :: "u64 option"
  ep_enforcement :: "enforcement option"

record profile_definition =
  pr_policy :: profile_policy
  pr_implementations :: "(name \<times> profile_binding) list"

record observation_policy_definition =
  op_kind :: observation_kind
  op_profile :: "profile_definition option"

record manifest =
  mf_name :: name
  mf_datasets :: "(name \<times> dataset_definition) list"
  mf_problems :: "(name \<times> problem_definition) list"
  mf_implementations :: "(name \<times> implementation_definition) list"
  mf_experiments :: "experiment_definition list"
  mf_execution_policies :: "(name \<times> execution_policy_definition) list"
  mf_observation_policies :: "(name \<times> observation_policy_definition) list"

section \<open>Problem contracts\<close>

datatype scientific_budget = NoBudget

record metric_agreement =
  ma_atol :: f64
  ma_rtol :: f64

record instrumented_scope =
  is_clock_origin :: string
  is_included_work :: string
  is_excluded_preparation :: string
  is_metric_agreement :: "(string \<times> metric_agreement) list"

record problem_contract =
  pc_parameter_schema :: schema_declaration
  pc_parameter_defaults :: "json option"
  pc_parameter_grids :: parameter_axes
  pc_compact_parameters :: bool
  pc_dataset_schemas :: "schema_declaration list"
  pc_metric_schema :: schema_declaration
  pc_allowed_timing_scopes :: "timing_scope list"
  pc_instrumented_scopes :: "(string \<times> instrumented_scope) list"
  pc_supported_budgets :: "scientific_budget list"

definition resolved_parameter_defaults :: "problem_definition \<Rightarrow> problem_contract \<Rightarrow> json option" where
  "resolved_parameter_defaults definition contract =
     (case pd_parameter_defaults definition of
        Some v \<Rightarrow> Some v
      | None \<Rightarrow> pc_parameter_defaults contract)"

fun worker_environment :: "worker_definition \<Rightarrow> name" where
  "worker_environment (InterpretedWorker w) = iw_environment w"
| "worker_environment (CommandWorker w) = cw_environment w"

section \<open>Execution-policy defaults\<close>

definition unwrap_or :: "'a option \<Rightarrow> 'a \<Rightarrow> 'a" where
  "unwrap_or v d = (case v of None \<Rightarrow> d | Some x \<Rightarrow> x)"

definition resolved_network :: "execution_policy_definition \<Rightarrow> bool" where
  "resolved_network p = unwrap_or (ep_network p) False"

definition resolved_worker_reuse :: "execution_policy_definition \<Rightarrow> bool" where
  "resolved_worker_reuse p = unwrap_or (ep_worker_reuse p) False"

definition resolved_warmup_runs :: "execution_policy_definition \<Rightarrow> u64" where
  "resolved_warmup_runs p = unwrap_or (ep_warmup_runs p) 0"

definition resolved_timing_scope :: "execution_policy_definition \<Rightarrow> timing_scope" where
  "resolved_timing_scope p = unwrap_or (ep_timing_scope p) PrepareAndExecute"

definition resolved_primary_time :: "execution_policy_definition \<Rightarrow> primary_time" where
  "resolved_primary_time p = unwrap_or (ep_primary_time p) TimedWallTime"

definition resolved_run_order :: "execution_policy_definition \<Rightarrow> run_order" where
  "resolved_run_order p = unwrap_or (ep_run_order p) Sequential"

definition resolved_max_concurrency :: "execution_policy_definition \<Rightarrow> u64" where
  "resolved_max_concurrency p = unwrap_or (ep_max_concurrency p) 1"

definition resolved_enforcement :: "execution_policy_definition \<Rightarrow> enforcement" where
  "resolved_enforcement p = unwrap_or (ep_enforcement p) BestEffortEnforcement"

section \<open>Policy records\<close>

record execution_policy =
  epr_name :: name
  epr_cpus :: "u64 option"
  epr_threads :: "u64 option"
  epr_memory :: "string option"
  epr_network :: bool
  epr_worker_reuse :: bool
  epr_warmup_runs :: u64
  epr_timeout :: "string option"
  epr_timing_scope :: timing_scope
  epr_primary_time :: primary_time
  epr_run_order :: run_order
  epr_max_concurrency :: u64
  epr_enforcement :: enforcement

definition execution_policy_record :: "name \<Rightarrow> execution_policy_definition \<Rightarrow> execution_policy" where
  "execution_policy_record name definition =
     \<lparr>epr_name = name, epr_cpus = ep_cpus definition, epr_threads = ep_threads definition,
      epr_memory = ep_memory definition, epr_network = resolved_network definition,
      epr_worker_reuse = resolved_worker_reuse definition, epr_warmup_runs = resolved_warmup_runs definition,
      epr_timeout = ep_timeout definition, epr_timing_scope = resolved_timing_scope definition,
      epr_primary_time = resolved_primary_time definition, epr_run_order = resolved_run_order definition,
      epr_max_concurrency = resolved_max_concurrency definition,
      epr_enforcement = resolved_enforcement definition\<rparr>"

record observation_policy =
  opr_name :: name
  opr_kind :: observation_kind
  opr_profile :: "json option"

end
