(* ===== verification/Parameters.thy ===== *)
theory Parameters
  imports Manifest_Model "HOL-Library.Sublist"
begin

text \<open>
  Parameter ownership, default merging and axis expansion (\<open>core/parameters.rs\<close> and
  \<open>expand_resolved_parameters\<close> of \<open>core/planning.rs\<close>).
\<close>

section \<open>Namespaces\<close>

text \<open>\<open>for x in xs { f(x)?; }\<close>.\<close>

fun for_each :: "('a \<Rightarrow> (unit, 'e) result) \<Rightarrow> 'a list \<Rightarrow> (unit, 'e) result" where
  "for_each f [] = Inr ()"
| "for_each f (x # xs) = res_bind (f x) (\<lambda>_. for_each f xs)"

lemma for_each_Ok_iff: "for_each f xs = Inr () \<longleftrightarrow> (\<forall>x \<in> set xs. f x = Inr ())"
  by (induction xs) auto

datatype parameter_namespace = DatasetNamespace | ImplementationNamespace

record namespace_location =
  nl_experiment :: name
  nl_case :: "name option"

datatype parameter_namespace_error =
    DefaultsWithoutSchema parameter_namespace name
  | UnselectedDefinition namespace_location parameter_namespace name
  | UndefinedDefinition namespace_location parameter_namespace name
  | DefinitionHasNoParameterSchema namespace_location parameter_namespace name

text \<open>Whether a definition exists and, if it does, whether it declares a parameter schema.\<close>

definition dataset_has_schema :: "manifest \<Rightarrow> name \<Rightarrow> bool option" where
  "dataset_has_schema m n = map_option
     (\<lambda>d. case d of FixedDataset _ \<Rightarrow> False | GeneratedDataset g \<Rightarrow> gd_parameter_schema g \<noteq> None)
     (map_of (mf_datasets m) n)"

definition implementation_has_schema :: "manifest \<Rightarrow> name \<Rightarrow> bool option" where
  "implementation_has_schema m n =
     map_option (\<lambda>i. im_parameter_schema i \<noteq> None) (map_of (mf_implementations m) n)"

definition validate_named_parameter_axes ::
  "manifest \<Rightarrow> experiment_definition \<Rightarrow> name option \<Rightarrow> parameter_namespace \<Rightarrow> named_parameter_axes
   \<Rightarrow> (unit, parameter_namespace_error) result" where
  "validate_named_parameter_axes m ex case_name namespace axes =
     (let selected = (case namespace of
            DatasetNamespace \<Rightarrow> ex_datasets ex | ImplementationNamespace \<Rightarrow> ex_implementations ex);
          location = \<lparr>nl_experiment = ex_name ex, nl_case = case_name\<rparr>
      in for_each (\<lambda>definition.
           res_bind (ensure (definition \<in> set selected)
               (UnselectedDefinition location namespace definition)) (\<lambda>_.
           res_bind (ok_or (case namespace of
                 DatasetNamespace \<Rightarrow> dataset_has_schema m definition
               | ImplementationNamespace \<Rightarrow> implementation_has_schema m definition)
               (UndefinedDefinition location namespace definition)) (\<lambda>has_parameter_schema.
             ensure has_parameter_schema (DefinitionHasNoParameterSchema location namespace definition))))
         (map fst axes))"

definition validate_experiment_namespaces ::
  "manifest \<Rightarrow> experiment_definition \<Rightarrow> (unit, parameter_namespace_error) result" where
  "validate_experiment_namespaces m ex =
     res_bind (validate_named_parameter_axes m ex None DatasetNamespace (ex_dataset_parameters ex)) (\<lambda>_.
     res_bind (validate_named_parameter_axes m ex None ImplementationNamespace
         (ex_implementation_parameters ex)) (\<lambda>_.
       for_each (\<lambda>c.
         res_bind (validate_named_parameter_axes m ex (Some (ec_name c)) DatasetNamespace
             (ec_dataset_parameters c)) (\<lambda>_.
           validate_named_parameter_axes m ex (Some (ec_name c)) ImplementationNamespace
             (ec_implementation_parameters c)))
         (ex_cases ex)))"

definition validate_parameter_namespaces :: "manifest \<Rightarrow> (unit, parameter_namespace_error) result" where
  "validate_parameter_namespaces m =
     res_bind (for_each (\<lambda>(n, d). case d of
           FixedDataset _ \<Rightarrow> Inr ()
         | GeneratedDataset g \<Rightarrow>
             ensure (\<not> (gd_parameter_defaults g \<noteq> None \<and> gd_parameter_schema g = None))
               (DefaultsWithoutSchema DatasetNamespace n)) (mf_datasets m)) (\<lambda>_.
     res_bind (for_each (\<lambda>(n, i).
             ensure (\<not> (im_parameter_defaults i \<noteq> None \<and> im_parameter_schema i = None))
               (DefaultsWithoutSchema ImplementationNamespace n)) (mf_implementations m)) (\<lambda>_.
       for_each (validate_experiment_namespaces m) (mf_experiments m)))"

section \<open>Merging defaults\<close>

function merge_objects :: "json_map \<Rightarrow> json_map \<Rightarrow> json_map" where
  "merge_objects target [] = target"
| "merge_objects target ((key, supplied_value) # rest) =
     merge_objects
       (case (map_of target key, supplied_value) of
          (Some (JObject t), JObject s) \<Rightarrow> ord_insert key (JObject (merge_objects t s)) target
        | _ \<Rightarrow> ord_insert key supplied_value target) rest"
  by pat_completeness auto
termination
  by (relation "measure (\<lambda>(target, supplied). size (JObject supplied))") auto

datatype parameter_resolution_error =
    DefaultsMustBeObject
  | ParametersMustBeObject
  | ParameterCanonical canonical_violation
  | ParameterValidation schema_validation_error

definition resolve_parameters ::
  "schema_catalog \<Rightarrow> string \<Rightarrow> json option \<Rightarrow> json \<Rightarrow> (json, parameter_resolution_error) result" where
  "resolve_parameters schemas schema_path parameter_defaults supplied_parameters =
     res_bind (ok_or (as_object supplied_parameters) ParametersMustBeObject) (\<lambda>supplied.
     res_bind (case parameter_defaults of
          Some defaults \<Rightarrow> ok_or (as_object defaults) DefaultsMustBeObject
        | None \<Rightarrow> Inr []) (\<lambda>resolved.
     res_bind (map_err ParameterCanonical (normalize_value (JObject (merge_objects resolved supplied)))) (\<lambda>v.
     res_bind (map_err ParameterValidation (schema_validate schemas schema_path v)) (\<lambda>_. Inr v))))"

section \<open>Axes\<close>

fun axis_values :: "parameter_axis \<Rightarrow> json list" where
  "axis_values (AxisValue v) = [v]"
| "axis_values (AxisGrid vs) = vs"

definition expand_axis :: "string \<times> parameter_axis \<Rightarrow> json_map list \<Rightarrow> json_map list" where
  "expand_axis na combinations = concat (map (\<lambda>combination.
     map (\<lambda>v. ord_insert (fst na) v combination) (axis_values (snd na))) combinations)"

definition expand_axes :: "parameter_axes \<Rightarrow> (json list, canonical_violation) result" where
  "expand_axes axes =
     collect_results (\<lambda>parameters. normalize_value (JObject parameters)) (fold expand_axis axes [[]])"

definition expand_resolved_parameters ::
  "schema_catalog \<Rightarrow> string \<Rightarrow> json option \<Rightarrow> parameter_axes \<Rightarrow> parameter_axes option
   \<Rightarrow> parameter_axes option \<Rightarrow> (json list, parameter_resolution_error) result" where
  "expand_resolved_parameters schemas schema_path defaults grids base overlay =
     (let axes = ord_extend [] grids;
          axes = (case base of Some b \<Rightarrow> ord_extend axes b | None \<Rightarrow> axes);
          axes = (case overlay of Some b \<Rightarrow> ord_extend axes b | None \<Rightarrow> axes)
      in res_bind (map_err ParameterCanonical (expand_axes axes)) (\<lambda>supplied.
           collect_results (resolve_parameters schemas schema_path defaults) supplied))"

definition empty_parameters :: json where
  "empty_parameters = JObject []"

section \<open>What a merge means\<close>

fun merge_value :: "json option \<Rightarrow> json \<Rightarrow> json" where
  "merge_value (Some (JObject t)) (JObject s) = JObject (merge_objects t s)"
| "merge_value _ v = v"

lemma merge_step:
  "merge_objects target ((k, v) # rest) = merge_objects (ord_insert k (merge_value (map_of target k) v) target) rest"
  by (cases "map_of target k"; cases v) (auto split: json.split)

lemma map_of_merge:
  "distinct (map fst supplied) \<Longrightarrow> map_of (merge_objects target supplied) k =
     (case map_of supplied k of None \<Rightarrow> map_of target k | Some v \<Rightarrow> Some (merge_value (map_of target k) v))"
proof (induction supplied arbitrary: target)
  case (Cons kv rest)
  obtain k' v where kv: "kv = (k', v)" by (cases kv)
  from Cons.prems kv have k': "map_of rest k' = None" by (simp add: map_of_eq_None_iff)
  show ?case
    unfolding kv merge_step using Cons.prems kv k'
    by (subst Cons.IH) (auto split: option.splits)
qed simp

lemma ord_insert_sorted_values:
  "list_all P m \<Longrightarrow> P (k, v) \<Longrightarrow> list_all P (ord_insert k v m)"
  by (induction k v m rule: ord_insert.induct) auto

lemma list_all_map_of: "list_all (\<lambda>kv. P (snd kv)) m \<Longrightarrow> map_of m k = Some v \<Longrightarrow> P v"
  by (fastforce simp: list_all_iff dest: map_of_SomeD)

lemma merge_value_cases:
  obtains (merged) t s where "d = Some (JObject t)" "v = JObject s" "merge_value d v = JObject (merge_objects t s)"
  | (replaced) "merge_value d v = v"
  by (cases "(d, v)" rule: merge_value.cases) auto

text \<open>Merging keeps key order and every property that objects inherit from their members.\<close>

lemma merge_closed:
  assumes obj: "\<And>m. P (JObject m) \<longleftrightarrow> Q m \<and> list_all (\<lambda>kv. P (snd kv)) m"
    and ins: "\<And>m k v. Q m \<Longrightarrow> Q (ord_insert k v m)" and tl: "\<And>kv m. Q (kv # m) \<Longrightarrow> Q m"
  shows "P (JObject target) \<Longrightarrow> P (JObject supplied) \<Longrightarrow> P (JObject (merge_objects target supplied))"
proof (induction "size (JObject supplied)" arbitrary: target supplied rule: less_induct)
  case less
  show ?case
  proof (cases supplied)
    case Nil
    with less.prems show ?thesis by simp
  next
    case (Cons kv rest)
    obtain k v where kv: "kv = (k, v)" by (cases kv)
    have v: "P v" and rest: "P (JObject rest)"
      using less.prems(2) obj tl [of kv rest] by (auto simp: Cons kv)
    have "P (merge_value (map_of target k) v)"
    proof (cases "map_of target k" v rule: merge_value_cases)
      case (merged t s)
      then have "P (JObject t)" using less.prems(1) obj list_all_map_of by metis
      with merged v less.hyps [of s t] show ?thesis by (simp add: Cons kv)
    qed (simp add: v)
    then have "P (JObject (ord_insert k (merge_value (map_of target k) v) target))"
      using less.prems(1) ins by (auto simp: obj intro!: ord_insert_sorted_values)
    from less.hyps [OF _ this rest] show ?thesis
      unfolding Cons kv merge_step by simp
  qed
qed

lemma keys_sorted_tail: "keys_sorted (kv # m) \<Longrightarrow> keys_sorted m"
  by (simp add: keys_sorted_def)

lemma merge_wf:
  "json_wf (JObject target) \<Longrightarrow> json_wf (JObject supplied) \<Longrightarrow> json_wf (JObject (merge_objects target supplied))"
  by (rule merge_closed [where Q = keys_sorted]) (auto simp: keys_sorted_ord_insert elim: keys_sorted_tail)

lemma merge_canonical:
  "canonical_domain (JObject target) \<Longrightarrow> canonical_domain (JObject supplied)
   \<Longrightarrow> canonical_domain (JObject (merge_objects target supplied))"
  by (rule merge_closed [where Q = "\<lambda>_. True"]) auto

text \<open>The value at a path of object keys.\<close>

fun value_at :: "json \<Rightarrow> string list \<Rightarrow> json option" where
  "value_at v [] = Some v"
| "value_at v (k # ks) = Option.bind (json_get v k) (\<lambda>w. value_at w ks)"

text \<open>A supplied value decides a path when a value other than an object stands on it.\<close>

fun decides :: "json \<Rightarrow> string list \<Rightarrow> bool" where
  "decides v [] = (\<not> is_object v)"
| "decides v (k # ks) = (\<not> is_object v \<or> (case json_get v k of None \<Rightarrow> False | Some w \<Rightarrow> decides w ks))"

lemma json_get_wf: "json_wf v \<Longrightarrow> json_get v k = Some w \<Longrightarrow> json_wf w"
  by (cases v) (auto simp: json_get_def intro: list_all_map_of [where P = json_wf])

lemma json_get_merge:
  assumes "json_wf (JObject m)"
  shows "json_get (merge_value d (JObject m)) k = (case map_of m k of
      None \<Rightarrow> Option.bind d (\<lambda>d. json_get d k)
    | Some w \<Rightarrow> Some (merge_value (Option.bind d (\<lambda>d. json_get d k)) w))"
proof (cases "\<exists>t. d = Some (JObject t)")
  case True
  then obtain t where d: "d = Some (JObject t)" by blast
  have "distinct (map fst m)" using assms by (simp add: keys_sorted_distinct)
  from map_of_merge [OF this, of t k] show ?thesis by (simp add: d json_get_def split: option.split)
next
  case False
  then have "merge_value d (JObject m) = JObject m" and none: "Option.bind d (\<lambda>d. json_get d k) = None"
    by (cases "(d, JObject m)" rule: merge_value.cases; auto simp: json_get_def)+
  then show ?thesis by (simp add: json_get_def split: option.split)
qed

lemma merge_paths:
  assumes "json_wf s"
  shows "value_at (merge_value d s) path =
    (if decides s path then value_at s path
     else if value_at s path = None then Option.bind d (\<lambda>d. value_at d path)
     else Some (merge_value (Option.bind d (\<lambda>d. value_at d path)) (the (value_at s path))))"
  using assms
proof (induction path arbitrary: d s)
  case Nil
  show ?case by (cases "(d, s)" rule: merge_value.cases) auto
next
  case (Cons k ks)
  show ?case
  proof (cases "\<exists>m. s = JObject m")
    case False
    then have "merge_value d s = s" by (cases "(d, s)" rule: merge_value.cases) auto
    with False show ?thesis by simp
  next
    case True
    then obtain m where s: "s = JObject m" by blast
    have get: "json_get s k = map_of m k" by (simp add: s json_get_def)
    have path: "Option.bind d (\<lambda>d. value_at d (k # ks))
        = Option.bind (Option.bind d (\<lambda>d. json_get d k)) (\<lambda>d. value_at d ks)"
      by (cases d) auto
    show ?thesis
    proof (cases "map_of m k")
      case None
      with Cons.prems get show ?thesis unfolding path by (simp add: s json_get_merge)
    next
      case (Some w)
      with Cons.prems get have "json_wf w" using json_get_wf by metis
      from Cons.IH [OF this] Some Cons.prems get show ?thesis
        unfolding path by (simp add: s json_get_merge)
    qed
  qed
qed

section \<open>What an expansion enumerates\<close>

definition axes_canonical :: "parameter_axes \<Rightarrow> bool" where
  "axes_canonical axes \<longleftrightarrow> list_all (\<lambda>na. list_all canonical_domain (axis_values (snd na))) axes"

lemma product_lists_snoc:
  "product_lists (xss @ [ys]) = concat (map (\<lambda>xs. map (\<lambda>y. xs @ [y]) ys) (product_lists xss))"
proof (induction xss)
  case Nil
  show ?case by (induction ys) auto
next
  case (Cons zs xss)
  have "concat (map (\<lambda>x. map ((#) x) (concat (map (\<lambda>xs. map (\<lambda>y. xs @ [y]) ys) ps))) zs)
      = concat (map (\<lambda>xs. map (\<lambda>y. xs @ [y]) ys) (concat (map (\<lambda>x. map ((#) x) ps) zs)))" for ps
    by (induction zs) (simp_all add: map_concat comp_def)
  with Cons show ?case by simp
qed

lemma ord_insert_last: "\<forall>k' \<in> fst ` set m. k' < k \<Longrightarrow> ord_insert k v m = m @ [(k, v)]"
  by (induction m) (auto simp: not_less_iff_gr_or_eq)

lemma fold_expand_axis:
  assumes "keys_sorted axes"
  shows "fold expand_axis axes [[]] =
    map (zip (map fst axes)) (product_lists (map (\<lambda>na. axis_values (snd na)) axes))"
  using assms
proof (induction axes rule: rev_induct)
  case (snoc na axes)
  let ?names = "map fst axes" and ?vals = "map (\<lambda>na. axis_values (snd na)) axes"
  have sorted: "keys_sorted axes" and last: "\<forall>k \<in> set ?names. k < fst na"
    using snoc.prems by (auto simp: keys_sorted_def sorted_wrt_append)
  have ins: "ord_insert (fst na) v (zip ?names vs) = zip (map fst (axes @ [na])) (vs @ [v])"
    if "vs \<in> set (product_lists ?vals)" for v vs
  proof -
    have "length vs = length ?names" using in_set_product_lists_length [OF that] by simp
    then have "fst ` set (zip ?names vs) = set ?names" by (metis list.set_map map_fst_zip)
    with last have "ord_insert (fst na) v (zip ?names vs) = zip ?names vs @ [(fst na, v)]"
      by (intro ord_insert_last) simp
    with \<open>length vs = length ?names\<close> show ?thesis by simp
  qed
  have "fold expand_axis (axes @ [na]) [[]] = expand_axis na (map (zip ?names) (product_lists ?vals))"
    using snoc.IH [OF sorted] by simp
  also have "\<dots> = concat (map (\<lambda>vs. map (\<lambda>v. zip (map fst (axes @ [na])) (vs @ [v])) (axis_values (snd na)))
      (product_lists ?vals))"
    unfolding expand_axis_def map_map comp_def
    by (intro arg_cong [where f = concat] map_cong refl) (simp only: ins)
  also have "\<dots> = map (zip (map fst (axes @ [na]))) (product_lists (map (\<lambda>na. axis_values (snd na)) (axes @ [na])))"
    by (simp add: product_lists_snoc map_concat comp_def)
  finally show ?case .
qed simp

lemma expand_axes_product:
  assumes "keys_sorted axes" "axes_canonical axes"
  shows "expand_axes axes = Inr (map (\<lambda>vs. JObject (zip (map fst axes) vs))
    (product_lists (map (\<lambda>na. axis_values (snd na)) axes)))"
proof -
  have "normalize_value (JObject (zip (map fst axes) vs)) = Inr (JObject (zip (map fst axes) vs))"
    if "vs \<in> set (product_lists (map (\<lambda>na. axis_values (snd na)) axes))" for vs
  proof (rule normalize_value_fixed)
    from that have "list_all2 (\<lambda>x ys. x \<in> set ys) vs (map (\<lambda>na. axis_values (snd na)) axes)"
      by (simp add: product_lists_set)
    then have "vs ! n \<in> set (axis_values (snd (axes ! n))) \<and> axes ! n \<in> set axes" if "n < length vs" for n
      using that by (auto simp: list_all2_conv_all_nth)
    moreover have "canonical_domain v" if "v \<in> set (axis_values (snd na))" "na \<in> set axes" for v na
      using assms(2) that by (auto simp: axes_canonical_def list_all_iff)
    ultimately have "list_all canonical_domain vs"
      unfolding list_all_length by blast
    then show "canonical_domain (JObject (zip (map fst axes) vs))"
      by (auto simp: list_all_iff dest: set_zip_rightD)
  qed
  then have "collect_results (\<lambda>parameters. normalize_value (JObject parameters))
      (map (zip (map fst axes)) (product_lists (map (\<lambda>na. axis_values (snd na)) axes)))
    = Inr (map JObject (map (zip (map fst axes)) (product_lists (map (\<lambda>na. axis_values (snd na)) axes))))"
    by (intro collect_results_total) auto
  then show ?thesis by (simp add: expand_axes_def fold_expand_axis [OF assms(1)])
qed

lemma axes_canonical_ord_insert:
  "axes_canonical axes \<Longrightarrow> list_all canonical_domain (axis_values a) \<Longrightarrow> axes_canonical (ord_insert n a axes)"
  unfolding axes_canonical_def by (rule ord_insert_sorted_values) simp_all

lemma axes_canonical_ord_extend:
  "axes_canonical axes \<Longrightarrow> axes_canonical extra \<Longrightarrow> axes_canonical (ord_extend axes extra)"
proof (induction extra arbitrary: axes)
  case Nil
  then show ?case by (simp add: ord_extend_def)
next
  case (Cons na extra)
  have "axes_canonical (ord_extend (ord_insert (fst na) (snd na) axes) extra)"
    using Cons.prems by (intro Cons.IH axes_canonical_ord_insert) (auto simp: axes_canonical_def)
  then show ?case by (simp add: ord_extend_def case_prod_beta)
qed

definition axes_wf :: "parameter_axes \<Rightarrow> bool" where
  "axes_wf axes \<longleftrightarrow> keys_sorted axes \<and> axes_canonical axes"

lemma axes_wf_extend:
  assumes "axes_wf axes" "axes_wf extra"
  shows "axes_wf (ord_extend axes extra) \<and> map_of (ord_extend axes extra) = map_of axes ++ map_of extra"
  using assms
  by (simp add: axes_wf_def keys_sorted_ord_extend axes_canonical_ord_extend map_of_ord_extend keys_sorted_distinct)

definition overlay_axes :: "parameter_axes \<Rightarrow> parameter_axes option \<Rightarrow> parameter_axes" where
  "overlay_axes axes extra = (case extra of None \<Rightarrow> axes | Some b \<Rightarrow> ord_extend axes b)"

lemma axes_wf_overlay:
  assumes "axes_wf axes" "axes_wf (unwrap_or extra [])"
  shows "axes_wf (overlay_axes axes extra)
    \<and> map_of (overlay_axes axes extra) = map_of axes ++ map_of (unwrap_or extra [])"
proof (cases extra)
  case None
  with assms show ?thesis by (simp add: overlay_axes_def unwrap_or_def)
next
  case (Some b)
  with assms axes_wf_extend [of axes b] show ?thesis by (simp add: overlay_axes_def unwrap_or_def)
qed

section \<open>The contracts\<close>

definition canonical_object :: "json \<Rightarrow> bool" where
  "canonical_object v \<longleftrightarrow> is_object v \<and> json_wf v \<and> canonical_domain v"

text \<open>
  C29 (resolve_parameters_meaning): for canonical parameter objects, resolution never reports a
  canonicalization error and succeeds exactly when the merged value satisfies its schema.  In the
  result every path on which the supplied parameters put a value other than an object reads as they
  say, every path they do not reach reads as the defaults say, and the result is canonical.
\<close>

theorem resolve_parameters_meaning:
  assumes "canonical_object supplied" "canonical_object (unwrap_or defaults empty_parameters)"
  shows "case resolve_parameters schemas path defaults supplied of
      Inl e \<Rightarrow> \<exists>v. e = ParameterValidation v
    | Inr v \<Rightarrow> canonical_object v \<and> schema_validate schemas path v = Inr ()
        \<and> (\<forall>p. (decides supplied p \<longrightarrow> value_at v p = value_at supplied p)
             \<and> (\<not> decides supplied p \<and> value_at supplied p = None
                  \<longrightarrow> value_at v p = value_at (unwrap_or defaults empty_parameters) p))"
proof -
  obtain s where s: "supplied = JObject s" using assms(1) by (auto simp: canonical_object_def)
  obtain d where d: "unwrap_or defaults empty_parameters = JObject d"
    using assms(2) by (auto simp: canonical_object_def)
  let ?v = "JObject (merge_objects d s)"
  have v: "canonical_object ?v"
    using assms s d merge_wf [of d s] merge_canonical [of d s] by (simp add: canonical_object_def)
  have "resolve_parameters schemas path defaults supplied =
      res_bind (map_err ParameterValidation (schema_validate schemas path ?v)) (\<lambda>_. Inr ?v)"
    using d v normalize_value_fixed [of ?v]
    by (cases defaults) (simp_all add: resolve_parameters_def s unwrap_or_def empty_parameters_def canonical_object_def)
  moreover have "value_at ?v p = (if decides supplied p then value_at supplied p
      else if value_at supplied p = None then value_at (JObject d) p
      else Some (merge_value (value_at (JObject d) p) (the (value_at supplied p))))" for p
    using merge_paths [of supplied "Some (JObject d)" p] assms(1) s by (simp add: canonical_object_def)
  ultimately show ?thesis using v d by (cases "schema_validate schemas path ?v") auto
qed

definition example_defaults :: json where
  "example_defaults = JObject [(''solver'', JObject [(''name'', JString ''cd''), (''tol'', JNumber (PosInt 1))])]"

definition example_supplied :: json where
  "example_supplied = JObject [(''solver'', JObject [(''tol'', JNumber (PosInt 2))])]"

definition accepting_catalog :: schema_catalog where
  "accepting_catalog = \<lparr>validators = [(''p.json'', \<lambda>v. [])], normalized = []\<rparr>"

definition example_resolved :: json where
  "example_resolved = JObject [(''solver'', JObject [(''name'', JString ''cd''), (''tol'', JNumber (PosInt 2))])]"

lemma example_resolution:
  "resolve_parameters accepting_catalog ''p.json'' (Some example_defaults) example_supplied = Inr example_resolved"
proof -
  have "canonical_domain example_resolved"
    by (simp add: example_resolved_def canonical_number_def MAX_SAFE_INTEGER_def)
  from normalize_value_fixed [OF this] show ?thesis
    by (simp add: resolve_parameters_def example_defaults_def example_supplied_def example_resolved_def
        accepting_catalog_def schema_validate_def del: normalize_value.simps)
qed

theorem resolve_parameters_meaning_witness:
  "value_at example_resolved [''solver'', ''tol''] = Some (JNumber (PosInt 2))
   \<and> value_at example_resolved [''solver'', ''name''] = Some (JString ''cd'')"
proof -
  have wf: "canonical_object example_supplied" "canonical_object (unwrap_or (Some example_defaults) empty_parameters)"
    by (simp_all add: canonical_object_def example_supplied_def example_defaults_def unwrap_or_def
        canonical_number_def MAX_SAFE_INTEGER_def)
  have "decides example_supplied [''solver'', ''tol'']" "\<not> decides example_supplied [''solver'', ''name'']"
    "value_at example_supplied [''solver'', ''name''] = None"
    by (simp_all add: example_supplied_def json_get_def)
  note on = this
  note meaning = resolve_parameters_meaning [OF wf, of accepting_catalog "''p.json''",
      unfolded example_resolution sum.case, THEN conjunct2, THEN conjunct2, THEN spec]
  note reads = meaning [THEN conjunct1, THEN mp, OF on(1)]
    meaning [THEN conjunct2, THEN mp, OF conjI, OF on(2,3)]
  show ?thesis unfolding reads by code_simp
qed

text \<open>
  The configurations of a definition are the Cartesian product of
  its effective axes in lexicographic order, the last name varying fastest, each resolved against
  the defaults; the effective axis of a name is the one of the case, else the one of the experiment,
  else the grid of the definition.
\<close>

theorem parameter_expansion_product:
  assumes "axes_wf grids" "axes_wf (unwrap_or base [])" "axes_wf (unwrap_or overlay [])"
  shows "\<exists>axes. keys_sorted axes
    \<and> map_of axes = map_of grids ++ map_of (unwrap_or base []) ++ map_of (unwrap_or overlay [])
    \<and> expand_resolved_parameters schemas path defaults grids base overlay
      = collect_results (resolve_parameters schemas path defaults)
          (map (\<lambda>vs. JObject (zip (map fst axes) vs))
             (product_lists (map (\<lambda>na. axis_values (snd na)) axes)))"
proof -
  have nil: "axes_wf []" by (simp add: axes_wf_def axes_canonical_def)
  note g = axes_wf_extend [OF nil assms(1)]
  note b = axes_wf_overlay [OF g [THEN conjunct1] assms(2)]
  note o = axes_wf_overlay [OF b [THEN conjunct1] assms(3)]
  define axes where "axes = overlay_axes (overlay_axes (ord_extend [] grids) base) overlay"
  have axes: "axes_wf axes"
    "map_of axes = map_of grids ++ map_of (unwrap_or base []) ++ map_of (unwrap_or overlay [])"
    unfolding axes_def by (simp_all only: o b g map_of.simps empty_map_add)
  have "expand_resolved_parameters schemas path defaults grids base overlay
      = res_bind (map_err ParameterCanonical (expand_axes axes))
          (collect_results (resolve_parameters schemas path defaults))"
    by (simp add: expand_resolved_parameters_def axes_def overlay_axes_def Let_def)
  with axes show ?thesis by (intro exI [of _ axes]) (simp add: expand_axes_product axes_wf_def)
qed

definition example_grid :: parameter_axes where
  "example_grid = [(''alpha'', AxisGrid [JNumber (PosInt 1), JNumber (PosInt 2)]), (''beta'', AxisGrid [JNull, JBool True])]"

theorem parameter_expansion_product_witness:
  "list_ex (\<lambda>axes. keys_sorted axes
     \<and> expand_resolved_parameters accepting_catalog ''p.json'' None example_grid None (Some [(''beta'', AxisValue JNull)])
       = collect_results (resolve_parameters accepting_catalog ''p.json'' None)
           (map (\<lambda>vs. JObject (zip (map fst axes) vs)) (product_lists (map (\<lambda>na. axis_values (snd na)) axes))))
     [[(''alpha'', AxisGrid [JNumber (PosInt 1), JNumber (PosInt 2)]), (''beta'', AxisValue JNull)]]"
proof -
  have "axes_wf example_grid" "axes_wf (unwrap_or None [])" "axes_wf (unwrap_or (Some [(''beta'', AxisValue JNull)]) [])"
    by (simp_all add: axes_wf_def axes_canonical_def example_grid_def unwrap_or_def canonical_number_def MAX_SAFE_INTEGER_def)
  from parameter_expansion_product [OF this, of accepting_catalog "''p.json''" None]
  obtain axes where axes: "keys_sorted axes"
    "map_of axes = map_of example_grid ++ map_of (unwrap_or None []) ++ map_of (unwrap_or (Some [(''beta'', AxisValue JNull)]) [])"
    "expand_resolved_parameters accepting_catalog ''p.json'' None example_grid None (Some [(''beta'', AxisValue JNull)])
       = collect_results (resolve_parameters accepting_catalog ''p.json'' None)
           (map (\<lambda>vs. JObject (zip (map fst axes) vs)) (product_lists (map (\<lambda>na. axis_values (snd na)) axes)))"
    by blast
  let ?axes = "[(''alpha'', AxisGrid [JNumber (PosInt 1), JNumber (PosInt 2)]), (''beta'', AxisValue JNull)]"
  have "map_of axes = map_of ?axes"
    unfolding axes(2) by (auto simp: example_grid_def unwrap_or_def fun_eq_iff)
  moreover have "keys_sorted ?axes" by simp
  ultimately have "axes = ?axes" using axes(1) keys_sorted_map_of_inject by blast
  with axes show ?thesis by simp
qed

end
