(* ===== verification/Compatibility.thy ===== *)
theory Compatibility
  imports Parameters
begin

text \<open>
  Cross-definition validation of a manifest and its problem contracts (\<open>core/compatibility.rs\<close>).
  The checks run in the order of the source and report the first error.  Indexing a map that has no
  entry panics in Rust; here it is the error \<open>CompatibilityPanic\<close>, which the lemmas show to be
  unreachable.
\<close>

section \<open>Errors\<close>

datatype invalid_profile =
    MissingBinding name
  | TargetMetricNotNumeric string
  | ScheduleRejected control_error
  | ControlRejected schema_validation_error
  | ScopeNotAuthorized string
  | ScopeIncomplete
  | AgreementMetricNotNumeric string
  | InstrumentationRejected schema_validation_error

datatype compatibility_error =
    InvalidProfile invalid_profile
  | CompetingProblemParameterDefaults name
  | MissingProblemContract name string
  | UndefinedProblemDeclaration name name
  | WarmupsRequireWorkerReuse name u64
  | ColdEndToEndRequiresFreshWorker name
  | UndefinedProblem name name
  | DatasetFreeProblemHasDatasets name name
  | DatasetRequired name name
  | UndefinedDataset name name
  | IncompatibleDatasetSchema name name name string
  | UndefinedExecutionPolicy name name
  | UnsupportedTimingScope name name name timing_scope
  | UndefinedObservationPolicy name name
  | UnsupportedScientificBudget name name name scientific_budget
  | UndefinedImplementation name name
  | UnsupportedProblem name name name
  | UnsupportedObservationKind name name name observation_kind
  | CompatibilityPanic

type_synonym contracts = "(name \<times> problem_contract) list"

section \<open>The checks\<close>

fun required_capability :: "observation_kind \<Rightarrow> implementation_capability" where
  "required_capability OneShotKind = OneShotCapability"
| "required_capability ProfileKind = BufferedProfileCapability"

fun required_scientific_budget :: "observation_kind \<Rightarrow> scientific_budget" where
  "required_scientific_budget OneShotKind = NoBudget"
| "required_scientific_budget ProfileKind = NoBudget"

definition dataset_output_schema :: "dataset_definition \<Rightarrow> schema_declaration" where
  "dataset_output_schema d = (case d of
       FixedDataset f \<Rightarrow> fd_output_schema f | GeneratedDataset g \<Rightarrow> gd_output_schema g)"

definition validate_dataset_selection ::
  "manifest \<Rightarrow> experiment_definition \<Rightarrow> problem_contract \<Rightarrow> schema_catalog option
   \<Rightarrow> (unit, compatibility_error) result" where
  "validate_dataset_selection m ex contract schemas =
     (if pc_dataset_schemas contract = [] then
        ensure (ex_datasets ex = []) (DatasetFreeProblemHasDatasets (ex_name ex) (ex_problem ex))
      else if ex_datasets ex = [] then Inl (DatasetRequired (ex_name ex) (ex_problem ex))
      else for_each (\<lambda>dataset.
        res_bind (ok_or (map_of (mf_datasets m) dataset) (UndefinedDataset (ex_name ex) dataset)) (\<lambda>definition.
          let output_schema = dataset_output_schema definition in
          ensure (list_ex (\<lambda>accepted. accepted = output_schema
              \<or> (case schemas of None \<Rightarrow> False | Some catalog \<Rightarrow> schema_matches catalog accepted output_schema))
              (pc_dataset_schemas contract))
            (IncompatibleDatasetSchema (ex_name ex) dataset (ex_problem ex) (sd_path output_schema))))
        (ex_datasets ex))"

definition scope_incomplete :: "instrumented_scope \<Rightarrow> bool" where
  "scope_incomplete scope \<longleftrightarrow>
     is_clock_origin scope = [] \<or> is_included_work scope = [] \<or> is_excluded_preparation scope = []
     \<or> list_ex (\<lambda>(_, t). \<not> f64_is_finite (ma_atol t) \<or> \<not> f64_is_finite (ma_rtol t)
          \<or> \<not> f64_ge (ma_atol t) (F64 0) \<or> \<not> f64_ge (ma_rtol t) (F64 0)) (is_metric_agreement scope)"

fun validate_profile_binding ::
  "pointer \<Rightarrow> schema_catalog option \<Rightarrow> problem_contract \<Rightarrow> profile_policy \<Rightarrow> profile_binding
   \<Rightarrow> (unit, invalid_profile) result" where
  "validate_profile_binding ptr schemas contract policy (StreamingBinding _) = Inr ()"
| "validate_profile_binding ptr schemas contract policy (FreshBinding binding) =
     (case schemas of
        None \<Rightarrow> Inr ()
      | Some catalog \<Rightarrow>
          res_bind (map_err ScheduleRejected (expand_schedule (fb_schedule binding) (pp_max_observations policy)))
            (for_each (\<lambda>control. map_err ControlRejected
               (schema_validate catalog (sd_path (fb_control_schema binding)) control))))"
| "validate_profile_binding ptr schemas contract policy (BufferedBinding binding) =
     res_bind (ok_or (map_of (pc_instrumented_scopes contract) (bb_scope binding))
         (ScopeNotAuthorized (bb_scope binding))) (\<lambda>scope.
     res_bind (ensure (\<not> scope_incomplete scope) ScopeIncomplete) (\<lambda>_.
       case schemas of
         None \<Rightarrow> Inr ()
       | Some catalog \<Rightarrow>
           res_bind (for_each (\<lambda>metric. ensure
                 (has_numeric_property ptr catalog (sd_path (pc_metric_schema contract)) metric)
                 (AgreementMetricNotNumeric metric)) (map fst (is_metric_agreement scope))) (\<lambda>_.
             map_err InstrumentationRejected
               (schema_validate catalog (sd_path (bb_schema binding)) (bb_instrumentation binding)))))"

definition validate_profile ::
  "pointer \<Rightarrow> schema_catalog option \<Rightarrow> problem_contract \<Rightarrow> profile_definition \<Rightarrow> name
   \<Rightarrow> (unit, invalid_profile) result" where
  "validate_profile ptr schemas contract profile implementation =
     res_bind (ok_or (map_of (pr_implementations profile) implementation) (MissingBinding implementation))
       (\<lambda>binding.
     res_bind (case (schemas, pp_metric (pr_policy profile)) of
          (Some catalog, Some metric) \<Rightarrow>
            ensure (has_numeric_property ptr catalog (sd_path (pc_metric_schema contract)) metric)
              (TargetMetricNotNumeric metric)
        | _ \<Rightarrow> Inr ()) (\<lambda>_.
       validate_profile_binding ptr schemas contract (pr_policy profile) binding))"

definition capability_for :: "observation_policy_definition \<Rightarrow> name \<Rightarrow> implementation_capability" where
  "capability_for policy implementation =
     (case Option.bind (op_profile policy) (\<lambda>p. map_of (pr_implementations p) implementation) of
        Some (StreamingBinding _) \<Rightarrow> StreamingProfileCapability
      | Some (FreshBinding _) \<Rightarrow> FreshSequenceCapability
      | _ \<Rightarrow> required_capability (op_kind policy))"

definition validate_implementation ::
  "pointer \<Rightarrow> manifest \<Rightarrow> schema_catalog option \<Rightarrow> experiment_definition \<Rightarrow> problem_contract
   \<Rightarrow> observation_policy_definition \<Rightarrow> name \<Rightarrow> (unit, compatibility_error) result" where
  "validate_implementation ptr m schemas ex contract policy implementation =
     res_bind (ok_or (map_of (mf_implementations m) implementation)
         (UndefinedImplementation (ex_name ex) implementation)) (\<lambda>definition.
     res_bind (ensure (ex_problem ex \<in> set (im_problem_contracts definition))
         (UnsupportedProblem (ex_name ex) implementation (ex_problem ex))) (\<lambda>_.
     res_bind (case op_profile policy of
          None \<Rightarrow> Inr ()
        | Some profile \<Rightarrow> map_err InvalidProfile (validate_profile ptr schemas contract profile implementation)) (\<lambda>_.
       ensure (capability_for policy implementation \<in> set (im_capabilities definition))
         (UnsupportedObservationKind (ex_name ex) implementation (ex_observation_policy ex) (op_kind policy)))))"

definition validate_experiment ::
  "pointer \<Rightarrow> manifest \<Rightarrow> contracts \<Rightarrow> schema_catalog option \<Rightarrow> experiment_definition
   \<Rightarrow> (unit, compatibility_error) result" where
  "validate_experiment ptr m problem_contracts schemas ex =
     res_bind (ensure (map_of (mf_problems m) (ex_problem ex) \<noteq> None)
         (UndefinedProblem (ex_name ex) (ex_problem ex))) (\<lambda>_.
     res_bind (ok_or (map_of problem_contracts (ex_problem ex)) CompatibilityPanic) (\<lambda>contract.
     res_bind (validate_dataset_selection m ex contract schemas) (\<lambda>_.
     res_bind (ok_or (map_of (mf_execution_policies m) (ex_execution_policy ex))
         (UndefinedExecutionPolicy (ex_name ex) (ex_execution_policy ex))) (\<lambda>execution_policy.
     res_bind (ensure (resolved_timing_scope execution_policy \<in> set (pc_allowed_timing_scopes contract))
         (UnsupportedTimingScope (ex_name ex) (ex_problem ex) (ex_execution_policy ex)
            (resolved_timing_scope execution_policy))) (\<lambda>_.
     res_bind (ok_or (map_of (mf_observation_policies m) (ex_observation_policy ex))
         (UndefinedObservationPolicy (ex_name ex) (ex_observation_policy ex))) (\<lambda>observation_policy.
     res_bind (ensure (required_scientific_budget (op_kind observation_policy) \<in> set (pc_supported_budgets contract))
         (UnsupportedScientificBudget (ex_name ex) (ex_problem ex) (ex_observation_policy ex)
            (required_scientific_budget (op_kind observation_policy)))) (\<lambda>_.
       for_each (validate_implementation ptr m schemas ex contract observation_policy) (ex_implementations ex))))))))"

definition validate_problem ::
  "contracts \<Rightarrow> name \<times> problem_definition \<Rightarrow> (unit, compatibility_error) result" where
  "validate_problem problem_contracts pd =
     (case map_of problem_contracts (fst pd) of
        None \<Rightarrow> Inl (MissingProblemContract (fst pd) (unwrap_or (pd_contract_path (snd pd)) ''<inline>''))
      | Some contract \<Rightarrow>
          ensure (\<not> (pd_parameter_defaults (snd pd) \<noteq> None \<and> pc_compact_parameters contract))
            (CompetingProblemParameterDefaults (fst pd)))"

definition validate_execution_policy ::
  "name \<times> execution_policy_definition \<Rightarrow> (unit, compatibility_error) result" where
  "validate_execution_policy np =
     (let worker_reuse = resolved_worker_reuse (snd np); warmup_runs = resolved_warmup_runs (snd np) in
      res_bind (ensure (\<not> (warmup_runs > 0 \<and> \<not> worker_reuse)) (WarmupsRequireWorkerReuse (fst np) warmup_runs)) (\<lambda>_.
        ensure (\<not> (resolved_timing_scope (snd np) = ColdEndToEnd \<and> (worker_reuse \<or> warmup_runs \<noteq> 0)))
          (ColdEndToEndRequiresFreshWorker (fst np))))"

definition validate_compatibility ::
  "pointer \<Rightarrow> manifest \<Rightarrow> contracts \<Rightarrow> schema_catalog option \<Rightarrow> (unit, compatibility_error) result" where
  "validate_compatibility ptr m problem_contracts schemas =
     res_bind (for_each (validate_problem problem_contracts) (mf_problems m)) (\<lambda>_.
     res_bind (for_each (\<lambda>(implementation, definition).
         for_each (\<lambda>problem. ensure (map_of (mf_problems m) problem \<noteq> None)
             (UndefinedProblemDeclaration implementation problem)) (im_problem_contracts definition))
         (mf_implementations m)) (\<lambda>_.
     res_bind (for_each validate_execution_policy (mf_execution_policies m)) (\<lambda>_.
       for_each (validate_experiment ptr m problem_contracts schemas) (mf_experiments m))))"

end
