(* ===== verification/Configuration_Expansion.thy ===== *)
theory Configuration_Expansion
  imports Compatibility
begin

text \<open>
  Expansion of experiments into configuration candidates (\<open>core/planning.rs\<close>, up to
  \<open>insert_candidate\<close>).  A Rust index into a map without the key panics; here it is the error
  \<open>ExpansionPanic\<close>, and the lemmas show that the validation that runs first excludes it.  The source
  position attached to a parameter error is not modelled.
\<close>

section \<open>Candidates\<close>

datatype configuration_source = ExperimentSource | CaseSource name

datatype dataset_configuration_definition = UnitDataset | NamedDataset name

record expanded_dataset =
  xd_definition :: dataset_configuration_definition
  xd_parameters :: json

record expanded_problem =
  xp_definition :: name
  xp_parameters :: json

record expanded_implementation =
  xi_definition :: name
  xi_environment :: name
  xi_parameters :: json

record expanded_candidate =
  xc_source :: configuration_source
  xc_dataset :: expanded_dataset
  xc_problem :: expanded_problem
  xc_implementation :: expanded_implementation

record expanded_experiment =
  xe_name :: name
  xe_candidates :: "expanded_candidate list"

datatype configuration_namespace =
    DatasetConfigurationNamespace | ProblemConfigurationNamespace | ImplementationConfigurationNamespace

record duplicate_candidate =
  dc_experiment :: name
  dc_first_source :: configuration_source
  dc_duplicate_source :: configuration_source
  dc_dataset :: dataset_configuration_definition
  dc_problem :: name
  dc_implementation :: name

datatype configuration_error =
    NamespaceError parameter_namespace_error
  | CompatibilityError compatibility_error
  | ParameterResolution name configuration_source configuration_namespace name parameter_resolution_error
  | DuplicateLogicalCandidate duplicate_candidate
  | Canonicalization
  | ExpansionPanic

text \<open>\<open>CandidateKey\<close>: two definitions with their canonical parameter bytes, and the problem.\<close>

type_synonym candidate_key =
  "dataset_configuration_definition \<times> string \<times> name \<times> string \<times> name \<times> string"

definition value_bytes :: "externals \<Rightarrow> json \<Rightarrow> (string, configuration_error) result" where
  "value_bytes X v = ok_or (canonicalizer X v) Canonicalization"

definition candidate_key :: "externals \<Rightarrow> expanded_candidate \<Rightarrow> (candidate_key, configuration_error) result" where
  "candidate_key X c =
     res_bind (value_bytes X (xd_parameters (xc_dataset c))) (\<lambda>dataset_parameters.
     res_bind (value_bytes X (xp_parameters (xc_problem c))) (\<lambda>problem_parameters.
     res_bind (value_bytes X (xi_parameters (xc_implementation c))) (\<lambda>implementation_parameters.
       Inr (xd_definition (xc_dataset c), dataset_parameters, xp_definition (xc_problem c), problem_parameters,
            xi_definition (xc_implementation c), implementation_parameters))))"

type_synonym expansion_state = "expanded_candidate list \<times> (candidate_key \<times> configuration_source) list"

definition insert_candidate ::
  "externals \<Rightarrow> experiment_definition \<Rightarrow> expanded_candidate \<Rightarrow> expansion_state
   \<Rightarrow> (expansion_state, configuration_error) result" where
  "insert_candidate X ex candidate st =
     (case st of (candidates, seen) \<Rightarrow>
        res_bind (candidate_key X candidate) (\<lambda>key.
          case map_of seen key of
            Some first_source \<Rightarrow> Inl (DuplicateLogicalCandidate
              \<lparr>dc_experiment = ex_name ex, dc_first_source = first_source,
               dc_duplicate_source = xc_source candidate, dc_dataset = xd_definition (xc_dataset candidate),
               dc_problem = xp_definition (xc_problem candidate),
               dc_implementation = xi_definition (xc_implementation candidate)\<rparr>)
          | None \<Rightarrow> Inr (candidates @ [candidate], (key, xc_source candidate) # seen)))"

fun insert_all ::
  "externals \<Rightarrow> experiment_definition \<Rightarrow> expanded_candidate list \<Rightarrow> expansion_state
   \<Rightarrow> (expansion_state, configuration_error) result" where
  "insert_all X ex [] st = Inr st"
| "insert_all X ex (c # cs) st = res_bind (insert_candidate X ex c st) (insert_all X ex cs)"

section \<open>Expansion\<close>

definition expand_problem ::
  "manifest \<Rightarrow> problem_contract \<Rightarrow> schema_catalog \<Rightarrow> experiment_definition \<Rightarrow> experiment_case option
   \<Rightarrow> configuration_source \<Rightarrow> (json list, configuration_error) result" where
  "expand_problem m contract schemas ex ec source =
     res_bind (ok_or (map_of (mf_problems m) (ex_problem ex)) ExpansionPanic) (\<lambda>problem.
       map_err (ParameterResolution (ex_name ex) source ProblemConfigurationNamespace (ex_problem ex))
         (expand_resolved_parameters schemas (sd_path (pc_parameter_schema contract))
            (resolved_parameter_defaults problem contract) (pc_parameter_grids contract)
            (Some (ex_problem_parameters ex)) (map_option ec_problem_parameters ec)))"

definition expand_dataset ::
  "manifest \<Rightarrow> schema_catalog \<Rightarrow> experiment_definition \<Rightarrow> experiment_case option \<Rightarrow> configuration_source
   \<Rightarrow> name \<Rightarrow> (dataset_configuration_definition \<times> json list, configuration_error) result" where
  "expand_dataset m schemas ex ec source name =
     res_bind (ok_or (map_of (mf_datasets m) name) ExpansionPanic) (\<lambda>definition.
     res_bind (map_err (ParameterResolution (ex_name ex) source DatasetConfigurationNamespace name)
         (case definition of
            FixedDataset _ \<Rightarrow> Inr [empty_parameters]
          | GeneratedDataset g \<Rightarrow>
              (case gd_parameter_schema g of
                 None \<Rightarrow> Inr [empty_parameters]
               | Some schema \<Rightarrow>
                   expand_resolved_parameters schemas (sd_path schema) (gd_parameter_defaults g)
                     (gd_parameter_grids g) (map_of (ex_dataset_parameters ex) name)
                     (Option.bind ec (\<lambda>c. map_of (ec_dataset_parameters c) name))))) (\<lambda>parameters.
       Inr (NamedDataset name, parameters)))"

definition expand_implementation ::
  "manifest \<Rightarrow> schema_catalog \<Rightarrow> experiment_definition \<Rightarrow> experiment_case option \<Rightarrow> configuration_source
   \<Rightarrow> name \<Rightarrow> (name \<times> name \<times> json list, configuration_error) result" where
  "expand_implementation m schemas ex ec source name =
     res_bind (ok_or (map_of (mf_implementations m) name) ExpansionPanic) (\<lambda>definition.
     res_bind (map_err (ParameterResolution (ex_name ex) source ImplementationConfigurationNamespace name)
         (case im_parameter_schema definition of
            None \<Rightarrow> Inr [empty_parameters]
          | Some schema \<Rightarrow>
              expand_resolved_parameters schemas (sd_path schema) (im_parameter_defaults definition)
                (im_parameter_grids definition) (map_of (ex_implementation_parameters ex) name)
                (Option.bind ec (\<lambda>c. map_of (ec_implementation_parameters c) name)))) (\<lambda>parameters.
       Inr (name, worker_environment (im_worker definition), parameters)))"

text \<open>The five nested loops of \<open>expand_source\<close>, as the list of candidates they insert.\<close>

definition candidate_product ::
  "configuration_source \<Rightarrow> name \<Rightarrow> (dataset_configuration_definition \<times> json list) list \<Rightarrow> json list
   \<Rightarrow> (name \<times> name \<times> json list) list \<Rightarrow> expanded_candidate list" where
  "candidate_product source problem datasets problems implementations =
     concat (map (\<lambda>(dataset_definition, dataset_parameters).
       concat (map (\<lambda>dataset_parameters.
         concat (map (\<lambda>problem_parameters.
           concat (map (\<lambda>(implementation_definition, environment, implementation_parameters).
             map (\<lambda>implementation_parameters.
               \<lparr>xc_source = source,
                xc_dataset = \<lparr>xd_definition = dataset_definition, xd_parameters = dataset_parameters\<rparr>,
                xc_problem = \<lparr>xp_definition = problem, xp_parameters = problem_parameters\<rparr>,
                xc_implementation = \<lparr>xi_definition = implementation_definition, xi_environment = environment,
                  xi_parameters = implementation_parameters\<rparr>\<rparr>)
               implementation_parameters) implementations))
           problems)) dataset_parameters)) datasets)"

definition source_candidates ::
  "manifest \<Rightarrow> problem_contract \<Rightarrow> schema_catalog \<Rightarrow> experiment_definition \<Rightarrow> experiment_case option
   \<Rightarrow> configuration_source \<Rightarrow> (expanded_candidate list, configuration_error) result" where
  "source_candidates m contract schemas ex ec source =
     res_bind (expand_problem m contract schemas ex ec source) (\<lambda>problems.
     res_bind (if ex_datasets ex = [] then Inr [(UnitDataset, [empty_parameters])]
               else collect_results (expand_dataset m schemas ex ec source) (ex_datasets ex)) (\<lambda>datasets.
     res_bind (collect_results (expand_implementation m schemas ex ec source) (ex_implementations ex))
       (\<lambda>implementations.
       Inr (candidate_product source (ex_problem ex) datasets problems implementations))))"

definition expand_source ::
  "externals \<Rightarrow> manifest \<Rightarrow> problem_contract \<Rightarrow> schema_catalog \<Rightarrow> experiment_definition
   \<Rightarrow> experiment_case option \<Rightarrow> configuration_source \<Rightarrow> expansion_state
   \<Rightarrow> (expansion_state, configuration_error) result" where
  "expand_source X m contract schemas ex ec source st =
     res_bind (source_candidates m contract schemas ex ec source) (\<lambda>cs. insert_all X ex cs st)"

fun expand_cases ::
  "externals \<Rightarrow> manifest \<Rightarrow> problem_contract \<Rightarrow> schema_catalog \<Rightarrow> experiment_definition
   \<Rightarrow> experiment_case list \<Rightarrow> expansion_state \<Rightarrow> (expansion_state, configuration_error) result" where
  "expand_cases X m contract schemas ex [] st = Inr st"
| "expand_cases X m contract schemas ex (c # cs) st =
     res_bind (expand_source X m contract schemas ex (Some c) (CaseSource (ec_name c)) st)
       (expand_cases X m contract schemas ex cs)"

definition expand_experiment ::
  "externals \<Rightarrow> manifest \<Rightarrow> problem_contract \<Rightarrow> schema_catalog \<Rightarrow> experiment_definition
   \<Rightarrow> (expanded_experiment, configuration_error) result" where
  "expand_experiment X m contract schemas ex =
     res_bind (if ex_cases ex = []
               then expand_source X m contract schemas ex None ExperimentSource ([], [])
               else expand_cases X m contract schemas ex (ex_cases ex) ([], [])) (\<lambda>(candidates, seen).
       Inr \<lparr>xe_name = ex_name ex, xe_candidates = candidates\<rparr>)"

definition expand_manifest_configurations ::
  "externals \<Rightarrow> pointer \<Rightarrow> manifest \<Rightarrow> contracts \<Rightarrow> schema_catalog
   \<Rightarrow> (expanded_experiment list, configuration_error) result" where
  "expand_manifest_configurations X ptr m problem_contracts schemas =
     res_bind (map_err NamespaceError (validate_parameter_namespaces m)) (\<lambda>_.
     res_bind (map_err CompatibilityError (validate_compatibility ptr m problem_contracts (Some schemas))) (\<lambda>_.
       collect_results (\<lambda>ex.
         res_bind (ok_or (map_of problem_contracts (ex_problem ex)) ExpansionPanic) (\<lambda>contract.
           expand_experiment X m contract schemas ex)) (mf_experiments m)))"

end
