(* ===== verification/Expansion_Laws.thy ===== *)
theory Expansion_Laws
  imports Configuration_Expansion
begin

text \<open>
  What configuration expansion promises: validated manifests never run into a missing map entry, and
  the candidates of an experiment are exactly the union of its case products, in order and without a
  duplicate.
\<close>

section \<open>Validation excludes panics\<close>

lemma for_each_Err: "for_each f xs = Inl e \<Longrightarrow> \<exists>x \<in> set xs. f x = Inl e"
  by (induction xs) (auto simp: res_bind_Err_iff)

lemma collect_results_Err: "collect_results f xs = Inl e \<Longrightarrow> \<exists>x \<in> set xs. f x = Inl e"
  by (induction xs) (auto simp: res_bind_Err_iff)

lemma ok_or_Err_iff [simp]: "ok_or v e = Inl e' \<longleftrightarrow> v = None \<and> e' = e"
  by (cases v) auto

lemma map_err_Err_iff [simp]: "map_err f m = Inl e \<longleftrightarrow> (\<exists>d. m = Inl d \<and> e = f d)"
  by (cases m) auto

definition validated :: "manifest \<Rightarrow> contracts \<Rightarrow> experiment_definition \<Rightarrow> bool" where
  "validated m problem_contracts ex \<longleftrightarrow>
     map_of (mf_problems m) (ex_problem ex) \<noteq> None \<and> map_of problem_contracts (ex_problem ex) \<noteq> None
     \<and> list_all (\<lambda>n. map_of (mf_datasets m) n \<noteq> None) (ex_datasets ex)
     \<and> list_all (\<lambda>n. map_of (mf_implementations m) n \<noteq> None) (ex_implementations ex)
     \<and> (\<exists>p. map_of (mf_execution_policies m) (ex_execution_policy ex) = Some p)
     \<and> (\<exists>p. map_of (mf_observation_policies m) (ex_observation_policy ex) = Some p
           \<and> (\<forall>profile. op_profile p = Some profile \<longrightarrow>
                list_all (\<lambda>n. map_of (pr_implementations profile) n \<noteq> None) (ex_implementations ex)))"

lemma validate_dataset_selection_Ok:
  "validate_dataset_selection m ex contract schemas = Inr () \<Longrightarrow>
   list_all (\<lambda>n. map_of (mf_datasets m) n \<noteq> None) (ex_datasets ex)"
  by (auto simp: validate_dataset_selection_def for_each_Ok_iff list_all_iff split: if_splits)

lemma validate_implementation_Ok:
  assumes "validate_implementation ptr m schemas ex contract policy n = Inr ()"
  shows "map_of (mf_implementations m) n \<noteq> None"
    and "op_profile policy = Some profile \<Longrightarrow> map_of (pr_implementations profile) n \<noteq> None"
  using assms by (auto simp: validate_implementation_def validate_profile_def split: option.splits)

lemma validate_experiment_Ok:
  assumes "validate_experiment ptr m problem_contracts schemas ex = Inr ()"
  shows "validated m problem_contracts ex"
proof -
  from assms obtain contract policy where
    "map_of (mf_problems m) (ex_problem ex) \<noteq> None" "map_of problem_contracts (ex_problem ex) = Some contract"
    "validate_dataset_selection m ex contract schemas = Inr ()"
    "\<exists>p. map_of (mf_execution_policies m) (ex_execution_policy ex) = Some p"
    "map_of (mf_observation_policies m) (ex_observation_policy ex) = Some policy"
    and impl: "for_each (validate_implementation ptr m schemas ex contract policy) (ex_implementations ex) = Inr ()"
    by (auto simp: validate_experiment_def)
  moreover from impl have "\<forall>n \<in> set (ex_implementations ex). validate_implementation ptr m schemas ex contract policy n = Inr ()"
    by (simp add: for_each_Ok_iff)
  ultimately show ?thesis
    unfolding validated_def using validate_dataset_selection_Ok validate_implementation_Ok
    by (auto simp: list_all_iff)
qed

lemma validate_compatibility_Ok:
  "validate_compatibility ptr m problem_contracts schemas = Inr () \<Longrightarrow> ex \<in> set (mf_experiments m)
   \<Longrightarrow> validated m problem_contracts ex"
  by (auto simp: validate_compatibility_def for_each_Ok_iff dest!: validate_experiment_Ok)

definition expansion_panics :: "('a, configuration_error) result \<Rightarrow> bool" where
  "expansion_panics r \<longleftrightarrow> r = Inl ExpansionPanic \<or> r = Inl (CompatibilityError CompatibilityPanic)"

lemma panics_bind [simp]:
  "expansion_panics (res_bind r f) \<longleftrightarrow> expansion_panics r \<or> (\<exists>x. r = Inr x \<and> expansion_panics (f x))"
  by (auto simp: expansion_panics_def res_bind_Err_iff)

lemma panics_Ok [simp]: "\<not> expansion_panics (Inr x)"
  by (simp add: expansion_panics_def)

lemma panics_map_err [simp]:
  "expansion_panics (map_err f r) \<longleftrightarrow> (\<exists>e. r = Inl e \<and> (f e = ExpansionPanic \<or> f e = CompatibilityError CompatibilityPanic))"
  by (cases r) (auto simp: expansion_panics_def)

lemma panics_Err [simp]: "expansion_panics (Inl e) \<longleftrightarrow> e = ExpansionPanic \<or> e = CompatibilityError CompatibilityPanic"
  by (auto simp: expansion_panics_def)

lemma panics_ok_or [simp]: "expansion_panics (ok_or v e) \<longleftrightarrow> v = None \<and> expansion_panics (Inl e :: ('a, configuration_error) result)"
  for v :: "'a option"
  by (cases v) auto

lemmas panics_simps = panics_bind panics_Ok panics_map_err panics_Err panics_ok_or

lemma collect_no_panic: "(\<And>x. x \<in> set xs \<Longrightarrow> \<not> expansion_panics (f x)) \<Longrightarrow> \<not> expansion_panics (collect_results f xs)"
  by (induction xs) auto

lemma expand_problem_no_panic:
  "validated m cs ex \<Longrightarrow> \<not> expansion_panics (expand_problem m contract schemas ex ec source)"
  by (auto simp: expand_problem_def validated_def panics_simps)

lemma expand_dataset_no_panic:
  "validated m cs ex \<Longrightarrow> n \<in> set (ex_datasets ex) \<Longrightarrow> \<not> expansion_panics (expand_dataset m schemas ex ec source n)"
  by (auto simp: expand_dataset_def validated_def list_all_iff panics_simps)

lemma expand_implementation_no_panic:
  "validated m cs ex \<Longrightarrow> n \<in> set (ex_implementations ex)
   \<Longrightarrow> \<not> expansion_panics (expand_implementation m schemas ex ec source n)"
  by (auto simp: expand_implementation_def validated_def list_all_iff panics_simps)

lemma source_candidates_no_panic:
  assumes "validated m cs ex"
  shows "\<not> expansion_panics (source_candidates m contract schemas ex ec source)"
  using assms
  by (auto simp: source_candidates_def panics_simps expand_problem_no_panic expand_dataset_no_panic
      expand_implementation_no_panic intro!: collect_no_panic)

lemma insert_all_no_panic: "\<not> expansion_panics (insert_all X ex cs st)"
proof (induction cs arbitrary: st)
  case (Cons c cs)
  have "\<not> expansion_panics (insert_candidate X ex c st)"
    by (auto simp: insert_candidate_def candidate_key_def value_bytes_def panics_simps split: prod.splits option.splits)
  with Cons show ?case by (auto simp: panics_simps)
qed (simp add: panics_simps)

lemma expand_source_no_panic:
  "validated m cs ex \<Longrightarrow> \<not> expansion_panics (expand_source X m contract schemas ex ec source st)"
  by (auto simp: expand_source_def panics_simps source_candidates_no_panic insert_all_no_panic)

lemma expand_cases_no_panic:
  "validated m cs ex \<Longrightarrow> \<not> expansion_panics (expand_cases X m contract schemas ex ecs st)"
  by (induction ecs arbitrary: st) (auto simp: panics_simps expand_source_no_panic)

lemma expand_experiment_no_panic:
  "validated m cs ex \<Longrightarrow> \<not> expansion_panics (expand_experiment X m contract schemas ex)"
  by (auto simp: expand_experiment_def panics_simps expand_source_no_panic expand_cases_no_panic split: if_splits)

lemma validate_compatibility_no_panic:
  "validate_compatibility ptr m problem_contracts schemas \<noteq> Inl CompatibilityPanic"
proof
  assume panic: "validate_compatibility ptr m problem_contracts schemas = Inl CompatibilityPanic"
  have "validate_implementation ptr m schemas ex contract policy n \<noteq> Inl CompatibilityPanic" for ex contract policy n
    by (auto simp: validate_implementation_def res_bind_Err_iff split: option.splits)
  then have impl: "for_each (validate_implementation ptr m schemas ex contract policy) ns \<noteq> Inl CompatibilityPanic"
    for ex contract policy ns by (auto dest!: for_each_Err)
  have dataset: "validate_dataset_selection m ex contract schemas \<noteq> Inl CompatibilityPanic" for ex contract
    by (auto simp: validate_dataset_selection_def res_bind_Err_iff Let_def dest!: for_each_Err split: if_splits)
  have problems: "for_each (validate_problem problem_contracts) (mf_problems m) \<noteq> Inl CompatibilityPanic"
    by (auto simp: validate_problem_def dest!: for_each_Err split: option.splits)
  have policies: "for_each validate_execution_policy (mf_execution_policies m) \<noteq> Inl CompatibilityPanic"
    by (auto simp: validate_execution_policy_def Let_def res_bind_Err_iff dest!: for_each_Err)
  from panic problems policies obtain ex where
    ok: "for_each (validate_problem problem_contracts) (mf_problems m) = Inr ()"
    and ex: "validate_experiment ptr m problem_contracts schemas ex = Inl CompatibilityPanic"
    by (auto simp: validate_compatibility_def res_bind_Err_iff dest!: for_each_Err)
  from ex impl dataset have "map_of (mf_problems m) (ex_problem ex) \<noteq> None" "map_of problem_contracts (ex_problem ex) = None"
    by (auto simp: validate_experiment_def res_bind_Err_iff)
  then obtain pd where "(ex_problem ex, pd) \<in> set (mf_problems m)" "map_of problem_contracts (ex_problem ex) = None"
    by (auto dest: map_of_SomeD)
  with ok show False by (fastforce simp: for_each_Ok_iff validate_problem_def split: option.splits)
qed

section \<open>Insertion is a checked append\<close>

lemma insert_candidate_Ok_iff:
  "insert_candidate X ex c (cs, seen) = Inr st \<longleftrightarrow>
   (\<exists>key. candidate_key X c = Inr key \<and> key \<notin> fst ` set seen \<and> st = (cs @ [c], (key, xc_source c) # seen))"
  by (auto simp: insert_candidate_def map_of_eq_None_iff split: option.splits)
    (metis domI dom_map_of_conv_image_fst)

lemma insert_all_Ok_iff:
  "(\<exists>seen'. insert_all X ex cs (cs0, seen) = Inr (cs1, seen') \<and> fst ` set seen' = K) \<longleftrightarrow>
   (\<exists>keys. collect_results (candidate_key X) cs = Inr keys \<and> distinct keys \<and> set keys \<inter> fst ` set seen = {}
      \<and> cs1 = cs0 @ cs \<and> K = set keys \<union> fst ` set seen)"
proof (induction cs arbitrary: cs0 seen)
  case Nil
  show ?case by auto
next
  case (Cons c cs)
  have "(\<exists>seen'. insert_all X ex (c # cs) (cs0, seen) = Inr (cs1, seen') \<and> fst ` set seen' = K) \<longleftrightarrow>
      (\<exists>key. candidate_key X c = Inr key \<and> key \<notin> fst ` set seen
        \<and> (\<exists>seen'. insert_all X ex cs (cs0 @ [c], (key, xc_source c) # seen) = Inr (cs1, seen') \<and> fst ` set seen' = K))"
    by (auto simp: insert_candidate_Ok_iff)
  also have "\<dots> \<longleftrightarrow> (\<exists>key. candidate_key X c = Inr key \<and> key \<notin> fst ` set seen
        \<and> (\<exists>keys. collect_results (candidate_key X) cs = Inr keys \<and> distinct keys
             \<and> set keys \<inter> insert key (fst ` set seen) = {} \<and> cs1 = cs0 @ c # cs
             \<and> K = set keys \<union> insert key (fst ` set seen)))"
    unfolding Cons.IH by simp
  also have "\<dots> \<longleftrightarrow> (\<exists>key keys. collect_results (candidate_key X) (c # cs) = Inr (key # keys)
        \<and> distinct (key # keys) \<and> set (key # keys) \<inter> fst ` set seen = {} \<and> cs1 = cs0 @ c # cs
        \<and> K = set (key # keys) \<union> fst ` set seen)"
    by auto
  also have "\<dots> \<longleftrightarrow> (\<exists>keys. collect_results (candidate_key X) (c # cs) = Inr keys \<and> distinct keys
        \<and> set keys \<inter> fst ` set seen = {} \<and> cs1 = cs0 @ c # cs \<and> K = set keys \<union> fst ` set seen)"
    by (auto simp del: distinct.simps)
  finally show ?case .
qed

text \<open>The sources of an experiment, in the order in which they are expanded.\<close>

definition sources_of :: "experiment_definition \<Rightarrow> (experiment_case option \<times> configuration_source) list" where
  "sources_of ex = (if ex_cases ex = [] then [(None, ExperimentSource)]
     else map (\<lambda>c. (Some c, CaseSource (ec_name c))) (ex_cases ex))"

lemma collect_results_append:
  "collect_results f (xs @ ys) = res_bind (collect_results f xs) (\<lambda>us. res_bind (collect_results f ys) (\<lambda>vs. Inr (us @ vs)))"
proof (induction xs)
  case Nil
  show ?case by (cases "collect_results f ys") auto
next
  case (Cons x xs)
  then show ?case by (cases "f x"; cases "collect_results f xs"; cases "collect_results f ys") auto
qed

fun expand_sources ::
  "externals \<Rightarrow> manifest \<Rightarrow> problem_contract \<Rightarrow> schema_catalog \<Rightarrow> experiment_definition
   \<Rightarrow> (experiment_case option \<times> configuration_source) list \<Rightarrow> expansion_state
   \<Rightarrow> (expansion_state, configuration_error) result" where
  "expand_sources X m contract schemas ex [] st = Inr st"
| "expand_sources X m contract schemas ex ((ec, source) # rest) st =
     res_bind (expand_source X m contract schemas ex ec source st) (expand_sources X m contract schemas ex rest)"

lemma expand_cases_sources:
  "expand_cases X m contract schemas ex ecs st
   = expand_sources X m contract schemas ex (map (\<lambda>c. (Some c, CaseSource (ec_name c))) ecs) st"
proof (induction ecs arbitrary: st)
  case (Cons c ecs)
  then show ?case by (cases "expand_source X m contract schemas ex (Some c) (CaseSource (ec_name c)) st") auto
qed simp

lemma expand_experiment_sources:
  "expand_experiment X m contract schemas ex =
     res_bind (expand_sources X m contract schemas ex (sources_of ex) ([], [])) (\<lambda>(candidates, seen).
       Inr \<lparr>xe_name = ex_name ex, xe_candidates = candidates\<rparr>)"
proof (cases "ex_cases ex = []")
  case True
  then show ?thesis
    by (cases "expand_source X m contract schemas ex None ExperimentSource ([], [])")
      (simp_all add: expand_experiment_def sources_of_def)
qed (simp add: expand_experiment_def sources_of_def expand_cases_sources)

lemma expand_sources_Ok_iff:
  "(\<exists>seen'. expand_sources X m contract schemas ex srcs (cs0, seen) = Inr (cs1, seen') \<and> fst ` set seen' = K) \<longleftrightarrow>
   (\<exists>css keys. collect_results (\<lambda>(ec, source). source_candidates m contract schemas ex ec source) srcs = Inr css
      \<and> collect_results (candidate_key X) (concat css) = Inr keys \<and> distinct keys
      \<and> set keys \<inter> fst ` set seen = {} \<and> cs1 = cs0 @ concat css \<and> K = set keys \<union> fst ` set seen)"
proof (induction srcs arbitrary: cs0 seen)
  case Nil
  show ?case by auto
next
  case (Cons src srcs)
  obtain ec source where src: "src = (ec, source)" by (cases src)
  let ?cand = "source_candidates m contract schemas ex ec source"
  have "(\<exists>seen'. expand_sources X m contract schemas ex (src # srcs) (cs0, seen) = Inr (cs1, seen') \<and> fst ` set seen' = K) \<longleftrightarrow>
      (\<exists>cs csm K'. ?cand = Inr cs \<and> (\<exists>seenm. insert_all X ex cs (cs0, seen) = Inr (csm, seenm) \<and> fst ` set seenm = K'
        \<and> (\<exists>seen'. expand_sources X m contract schemas ex srcs (csm, seenm) = Inr (cs1, seen') \<and> fst ` set seen' = K)))"
    by (auto simp: src expand_source_def)
  also have "\<dots> \<longleftrightarrow> (\<exists>cs csm K'. ?cand = Inr cs \<and> (\<exists>seenm. insert_all X ex cs (cs0, seen) = Inr (csm, seenm) \<and> fst ` set seenm = K')
        \<and> (\<exists>css keys. collect_results (\<lambda>(ec, source). source_candidates m contract schemas ex ec source) srcs = Inr css
            \<and> collect_results (candidate_key X) (concat css) = Inr keys \<and> distinct keys \<and> set keys \<inter> K' = {}
            \<and> cs1 = csm @ concat css \<and> K = set keys \<union> K'))"
    unfolding Cons.IH by blast
  also have "\<dots> \<longleftrightarrow> (\<exists>css keys. collect_results (\<lambda>(ec, source). source_candidates m contract schemas ex ec source) (src # srcs) = Inr css
      \<and> collect_results (candidate_key X) (concat css) = Inr keys \<and> distinct keys
      \<and> set keys \<inter> fst ` set seen = {} \<and> cs1 = cs0 @ concat css \<and> K = set keys \<union> fst ` set seen)"
    (is "?l \<longleftrightarrow> ?r")
  proof
    assume ?l
    then obtain cs css keys0 keys where "?cand = Inr cs"
      "collect_results (\<lambda>(ec, source). source_candidates m contract schemas ex ec source) srcs = Inr css"
      "collect_results (candidate_key X) cs = Inr keys0" "collect_results (candidate_key X) (concat css) = Inr keys"
      "distinct keys0" "distinct keys" "set keys0 \<inter> fst ` set seen = {}" "set keys \<inter> (set keys0 \<union> fst ` set seen) = {}"
      "cs1 = cs0 @ cs @ concat css" "K = set keys \<union> (set keys0 \<union> fst ` set seen)"
      unfolding insert_all_Ok_iff by auto
    then show ?r
      by (intro exI [of _ "cs # css"] exI [of _ "keys0 @ keys"]) (auto simp: src collect_results_append)
  next
    assume ?r
    then obtain cs css keys0 keys where ok: "?cand = Inr cs"
      "collect_results (\<lambda>(ec, source). source_candidates m contract schemas ex ec source) srcs = Inr css"
      "collect_results (candidate_key X) cs = Inr keys0" "collect_results (candidate_key X) (concat css) = Inr keys"
      "distinct (keys0 @ keys)" "set (keys0 @ keys) \<inter> fst ` set seen = {}"
      "cs1 = cs0 @ cs @ concat css" "K = set (keys0 @ keys) \<union> fst ` set seen"
      by (auto simp: src collect_results_append)
    then have "\<exists>seenm. insert_all X ex cs (cs0, seen) = Inr (cs0 @ cs, seenm) \<and> fst ` set seenm = set keys0 \<union> fst ` set seen"
      unfolding insert_all_Ok_iff by auto
    with ok show ?l
      by (intro exI [of _ cs] exI [of _ "cs0 @ cs"] exI [of _ "set keys0 \<union> fst ` set seen"] exI [of _ css] exI [of _ keys] conjI) auto
  qed
  finally show ?case .
qed

end
