(* ===== verification/Execution_Controls.thy ===== *)
theory Execution_Controls
  imports Manifest_Model
begin

text \<open>
  Executor controls (\<open>core/controls.rs\<close>) and phase measurements (\<open>core/measurements.rs\<close>).
\<close>

section \<open>Controls\<close>

datatype control_status = EnforcedControl | BestEffortControl | UnsupportedControl

record control_record =
  cr_name :: string
  cr_requested :: json
  cr_required :: bool
  cr_status :: control_status
  cr_scope :: string

text \<open>\<open>ControlFailure\<close> carries the name of the first insufficient control.\<close>

type_synonym control_failure = string

fun validate_required_controls :: "control_record list \<Rightarrow> (unit, control_failure) result" where
  "validate_required_controls [] = Inr ()"
| "validate_required_controls (c # cs) =
     (if cr_required c \<and> cr_status c \<noteq> EnforcedControl then Inl (cr_name c) else validate_required_controls cs)"

definition add_control :: "bool \<Rightarrow> string \<Rightarrow> json \<Rightarrow> control_status \<Rightarrow> control_record" where
  "add_control required name requested status =
     \<lparr>cr_name = name, cr_requested = requested, cr_required = required, cr_status = status,
      cr_scope = ''worker_lifetime''\<rparr>"

definition local_controls ::
  "bool \<Rightarrow> bool \<Rightarrow> u64 option \<Rightarrow> u64 option \<Rightarrow> string option \<Rightarrow> control_record list" where
  "local_controls network required cpus threads memory =
     (let add = add_control required in
      [add ''network'' (JBool network) (if network then EnforcedControl else UnsupportedControl),
       add ''filesystem_isolation'' (JBool True) UnsupportedControl,
       add ''dataset_immutability'' (JBool True) BestEffortControl,
       add ''process_tree'' (JBool True) BestEffortControl,
       add ''process_tree_accounting'' (JBool True) UnsupportedControl,
       add ''private_working_directory'' (JBool True) BestEffortControl]
      @ (case cpus of None \<Rightarrow> [] | Some n \<Rightarrow> [add ''cpus'' (u64_value n) UnsupportedControl])
      @ (case threads of None \<Rightarrow> [] | Some n \<Rightarrow> [add ''threads'' (u64_value n) UnsupportedControl])
      @ (case memory of None \<Rightarrow> [] | Some s \<Rightarrow> [add ''memory'' (JString s) UnsupportedControl]))"

definition local_control_report :: "execution_policy \<Rightarrow> control_record list" where
  "local_control_report policy =
     local_controls (epr_network policy) (epr_enforcement policy = RequiredEnforcement)
       (epr_cpus policy) (epr_threads policy) (epr_memory policy)"

definition default_local_control_report :: "control_record list" where
  "default_local_control_report = local_controls False False None None None"

section \<open>Measurements\<close>

datatype partial_reason = Interrupted | ProcessOnly | SampledProcessTree

datatype missing_reason =
    NotStarted | ProvidedDataset | CacheHit | UnsupportedAccounting | AccountingUnavailable | OutOfRange

datatype measurement =
    CompleteMeasurement u64
  | PartialMeasurement u64 partial_reason
  | UnavailableMeasurement missing_reason

text \<open>\<open>Duration::as_nanos\<close> is a \<open>u128\<close>; a duration has at most \<open>2\<^sup>6\<^sup>4 - 1\<close> seconds.\<close>

definition elapsed :: "duration \<Rightarrow> bool \<Rightarrow> measurement" where
  "elapsed d completed =
     (let nanos = du_secs d * 1000000000 + du_nanos d in
      if nanos \<le> U64_MAX \<and> nanos \<le> MAX_SAFE_INTEGER
      then (if completed then CompleteMeasurement nanos else PartialMeasurement nanos Interrupted)
      else UnavailableMeasurement OutOfRange)"

fun complete_value :: "measurement \<Rightarrow> u64 option" where
  "complete_value (CompleteMeasurement v) = Some v"
| "complete_value _ = None"

section \<open>Lemmas\<close>

lemma validate_required_controls_Ok_iff:
  "validate_required_controls cs = Inr () \<longleftrightarrow> (\<forall>c \<in> set cs. cr_required c \<longrightarrow> cr_status c = EnforcedControl)"
  by (induction cs) auto

lemma local_controls_optional:
  "validate_required_controls (local_controls network False cpus threads memory) = Inr ()"
  by (auto simp: validate_required_controls_Ok_iff local_controls_def add_control_def Let_def split: option.splits)

lemma local_controls_required:
  "validate_required_controls (local_controls network True cpus threads memory)
   = Inl (if network then ''filesystem_isolation'' else ''network'')"
  by (simp add: local_controls_def add_control_def Let_def)

end
