(* ===== verification/Logical_Plan.thy ===== *)
theory Logical_Plan
  imports Expansion_Laws Execution_Controls
begin

text \<open>
  The logical plan (\<open>core/planning.rs\<close> from \<open>LogicalPlanningCatalog\<close> on): candidates become
  identified records, every implementation repetition a run specification with its observation and
  attempt slots.  \<open>expect\<close>, a missing index and \<open>step_by(0)\<close> panic in Rust; they are the error
  \<open>PlanPanic\<close>.
\<close>

section \<open>Records and their identity fields\<close>

record dataset_configuration =
  dcf_definition :: digest
  dcf_parameters :: json
  dcf_seed :: derived_seed

record problem_configuration =
  pcf_definition :: digest
  pcf_parameters :: json

record implementation_configuration =
  icf_definition :: digest
  icf_parameters :: json
  icf_environment :: digest

record logical_candidate =
  lc_dataset :: digest
  lc_problem :: digest
  lc_implementation :: digest
  lc_execution_policy :: digest
  lc_observation_policy :: digest

record logical_specification =
  ls_candidate :: digest
  ls_budget :: scientific_budget
  ls_repetition :: u64
  ls_seed :: derived_seed

record fresh_control =
  fc_schedule_index :: u64
  fc_control :: json

record logical_observation_slot =
  los_specification :: digest
  los_measurement_index :: u64
  los_fresh :: "fresh_control option"

record logical_attempt_slot =
  las_specification :: digest
  las_role :: attempt_slot_role
  las_priority :: digest

definition seed_value :: "derived_seed \<Rightarrow> json" where
  "seed_value s = json_object [(''value'', u64_value (ds_value s)), (''derivation_digest'', JString (hex (ds_digest s)))]"

definition timing_scope_name :: "timing_scope \<Rightarrow> string" where
  "timing_scope_name t = (case t of
       ColdEndToEnd \<Rightarrow> ''cold_end_to_end'' | PrepareAndExecute \<Rightarrow> ''prepare_and_execute''
     | ExecuteOnly \<Rightarrow> ''execute_only'')"

definition run_order_name :: "run_order \<Rightarrow> string" where
  "run_order_name r = (case r of Sequential \<Rightarrow> ''sequential'' | Randomized \<Rightarrow> ''randomized'')"

definition enforcement_name :: "enforcement \<Rightarrow> string" where
  "enforcement_name e = (case e of BestEffortEnforcement \<Rightarrow> ''best_effort'' | RequiredEnforcement \<Rightarrow> ''required'')"

definition execution_policy_fields :: "execution_policy \<Rightarrow> json_map" where
  "execution_policy_fields p = fields_of
     [(''name'', JString (epr_name p)), (''cpus'', optional_value u64_value (epr_cpus p)),
      (''threads'', optional_value u64_value (epr_threads p)), (''memory'', optional_value JString (epr_memory p)),
      (''network'', JBool (epr_network p)), (''worker_reuse'', JBool (epr_worker_reuse p)),
      (''warmup_runs'', u64_value (epr_warmup_runs p)), (''timeout'', optional_value JString (epr_timeout p)),
      (''timing_scope'', JString (timing_scope_name (epr_timing_scope p))),
      (''primary_time'', JString (primary_time_name (epr_primary_time p))),
      (''run_order'', JString (run_order_name (epr_run_order p))),
      (''max_concurrency'', u64_value (epr_max_concurrency p)),
      (''enforcement'', JString (enforcement_name (epr_enforcement p)))]"

definition observation_kind_name :: "observation_kind \<Rightarrow> string" where
  "observation_kind_name k = (case k of OneShotKind \<Rightarrow> ''one_shot'' | ProfileKind \<Rightarrow> ''profile'')"

definition observation_policy_fields :: "observation_policy \<Rightarrow> json_map" where
  "observation_policy_fields p =
     (let fs = fields_of [(''name'', JString (opr_name p)), (''kind'', JString (observation_kind_name (opr_kind p)))]
      in case opr_profile p of None \<Rightarrow> fs | Some v \<Rightarrow> ord_insert ''profile'' v fs)"

definition dataset_configuration_fields :: "dataset_configuration \<Rightarrow> json_map" where
  "dataset_configuration_fields r = fields_of
     [(''definition'', id_value DatasetDefinitionKind (dcf_definition r)), (''parameters'', dcf_parameters r),
      (''seed'', seed_value (dcf_seed r))]"

definition problem_configuration_fields :: "problem_configuration \<Rightarrow> json_map" where
  "problem_configuration_fields r = fields_of
     [(''definition'', id_value ProblemDefinitionKind (pcf_definition r)), (''parameters'', pcf_parameters r)]"

definition implementation_configuration_fields :: "implementation_configuration \<Rightarrow> json_map" where
  "implementation_configuration_fields r = fields_of
     [(''definition'', id_value ImplementationDefinitionKind (icf_definition r)), (''parameters'', icf_parameters r),
      (''environment'', id_value EnvironmentDefinitionKind (icf_environment r))]"

definition logical_candidate_fields :: "logical_candidate \<Rightarrow> json_map" where
  "logical_candidate_fields r = fields_of
     [(''dataset_configuration'', id_value DatasetConfigurationKind (lc_dataset r)),
      (''problem_configuration'', id_value ProblemConfigurationKind (lc_problem r)),
      (''implementation_configuration'', id_value ImplementationConfigurationKind (lc_implementation r)),
      (''execution_policy'', id_value ExecutionPolicyKind (lc_execution_policy r)),
      (''observation_policy'', id_value ObservationPolicyKind (lc_observation_policy r))]"

definition budget_name :: "scientific_budget \<Rightarrow> string" where
  "budget_name b = (case b of NoBudget \<Rightarrow> ''none'')"

definition logical_specification_fields :: "logical_specification \<Rightarrow> json_map" where
  "logical_specification_fields r = fields_of
     [(''kind'', JString ''one_shot''), (''candidate'', id_value LogicalCandidateKind (ls_candidate r)),
      (''scientific_budget'', JString (budget_name (ls_budget r))),
      (''implementation_repetition'', u64_value (ls_repetition r)), (''implementation_seed'', seed_value (ls_seed r))]"

definition logical_observation_slot_fields :: "logical_observation_slot \<Rightarrow> json_map" where
  "logical_observation_slot_fields r =
     (let fs = fields_of [(''specification'', id_value LogicalSpecificationKind (los_specification r)),
                          (''measurement_index'', u64_value (los_measurement_index r))]
      in case los_fresh r of
           None \<Rightarrow> fs
         | Some f \<Rightarrow> ord_insert ''fresh'' (json_object [(''schedule_index'', u64_value (fc_schedule_index f)),
                        (''observation_control'', fc_control f)]) fs)"

definition attempt_role_value :: "attempt_slot_role \<Rightarrow> json" where
  "attempt_role_value role = (case role of
       Warmup n \<Rightarrow> json_object [(''kind'', JString ''warmup''), (''warmup_index'', u64_value n)]
     | Measured slot \<Rightarrow> json_object [(''kind'', JString ''measured''),
           (''observation_slot'', id_value LogicalObservationSlotKind slot)])"

definition logical_attempt_slot_fields :: "logical_attempt_slot \<Rightarrow> json_map" where
  "logical_attempt_slot_fields r = fields_of
     [(''specification'', id_value LogicalSpecificationKind (las_specification r)),
      (''role'', attempt_role_value (las_role r)), (''scheduling_priority'', JString (hex (las_priority r)))]"

section \<open>Declared profiles\<close>

definition schema_declaration_value :: "schema_declaration \<Rightarrow> json" where
  "schema_declaration_value d = (case sd_document d of None \<Rightarrow> JString (sd_path d) | Some v \<Rightarrow> v)"

definition check_schedule_json :: "check_schedule \<Rightarrow> json" where
  "check_schedule_json s = (case s of
       Periodic every start \<Rightarrow> json_object [(''every'', u64_value every), (''start'', u64_value start)]
     | Explicit indices \<Rightarrow> json_object [(''indices'', JArray (map u64_value indices))])"

definition prefix_field :: "json list \<Rightarrow> (string \<times> json) list" where
  "prefix_field lead = (if lead = [] then [] else [(''prefix'', JArray lead)])"

definition control_schedule_json :: "control_schedule \<Rightarrow> json" where
  "control_schedule_json s = (case s of
       ExplicitControls controls \<Rightarrow> json_object [(''kind'', JString ''explicit''), (''controls'', JArray controls)]
     | Linear field start step n lead \<Rightarrow> json_object
         ([(''kind'', JString ''linear''), (''field'', JString field), (''start'', f64_json start),
           (''step'', f64_json step), (''count'', u64_value n)] @ prefix_field lead)
     | Geometric field start ratio n lead \<Rightarrow> json_object
         ([(''kind'', JString ''geometric''), (''field'', JString field), (''start'', f64_json start),
           (''ratio'', f64_json ratio), (''count'', u64_value n)] @ prefix_field lead))"

fun binding_declaration_value :: "profile_binding \<Rightarrow> json" where
  "binding_declaration_value (StreamingBinding c) = json_object
     [(''delivery'', JString ''streaming_profile''), (''measurement-basis'', JString ''executor_observed''),
      (''check-schedule'', check_schedule_json c)]"
| "binding_declaration_value (BufferedBinding b) = json_object
     [(''delivery'', JString ''buffered_profile''), (''measurement-basis'', JString ''instrumented''),
      (''instrumented-scope'', JString (bb_scope b)),
      (''instrumentation-schema'', schema_declaration_value (bb_schema b)),
      (''instrumentation'', bb_instrumentation b), (''check-schedule'', check_schedule_json (bb_check_schedule b))]"
| "binding_declaration_value (FreshBinding b) = json_object
     [(''delivery'', JString ''fresh_sequence''),
      (''control-schema'', schema_declaration_value (fb_control_schema b)),
      (''schedule'', control_schedule_json (fb_schedule b))]"

text \<open>
  The profile an implementation is bound to: the policy, the binding, and the identity of its schema
  under the key its delivery mode uses (none for streaming).
\<close>

definition bound_profile_value :: "(string \<times> digest) list \<Rightarrow> profile_policy \<Rightarrow> profile_binding \<Rightarrow> json" where
  "bound_profile_value schema_identities policy binding =
     (let schema = optional_id SchemaKind
            (Option.bind (binding_schema binding) (\<lambda>s. map_of schema_identities (sd_path s)));
          common = [(''policy'', policy_json policy), (''binding'', binding_declaration_value binding)]
      in case binding of
           StreamingBinding _ \<Rightarrow> json_object common
         | FreshBinding _ \<Rightarrow> json_object (common @ [(''control_schema'', schema)])
         | BufferedBinding _ \<Rightarrow> json_object (common @ [(''instrumentation_schema'', schema)]))"

section \<open>Plans\<close>

text \<open>
  The message a rejected control schedule contributes to \<open>MissingDefinitionIdentity\<close> is left out.
\<close>

datatype planning_error =
    ControlError control_failure
  | ConfigurationError configuration_error
  | MissingDefinitionIdentity string string
  | SeedError seed_derivation_error
  | PlanIdentity identity_error
  | PlanPanic

record planning_catalog =
  cat_schema_identities :: "(string \<times> digest) list"
  cat_dataset_definitions :: "(dataset_configuration_definition \<times> digest) list"
  cat_problem_definitions :: "(name \<times> digest) list"
  cat_implementation_definitions :: "(name \<times> digest) list"
  cat_environment_definitions :: "(name \<times> digest) list"

record specification_plan =
  sp_specification :: "logical_specification identified"
  sp_observation_slots :: "logical_observation_slot identified list"
  sp_attempt_slots :: "logical_attempt_slot identified list"

record candidate_plan =
  cp_profile_policy :: "observation_policy identified option"
  cp_source :: configuration_source
  cp_dataset_configuration :: "dataset_configuration identified"
  cp_problem_configuration :: "problem_configuration identified"
  cp_implementation_configuration :: "implementation_configuration identified"
  cp_capabilities :: "implementation_capability list"
  cp_candidate :: "logical_candidate identified"
  cp_specifications :: "specification_plan list"

record experiment_plan =
  xpl_name :: name
  xpl_scheduling_seed :: derived_seed
  xpl_execution_policy :: "execution_policy identified"
  xpl_observation_policy :: "observation_policy identified"
  xpl_candidates :: "candidate_plan list"

definition SCHEDULING_POLICY_VERSION :: nat where
  "SCHEDULING_POLICY_VERSION = 1"

definition identify_record ::
  "externals \<Rightarrow> identity_kind \<Rightarrow> ('r \<Rightarrow> json_map) \<Rightarrow> 'r \<Rightarrow> ('r identified, planning_error) result" where
  "identify_record X kind flds r =
     res_bind (map_err PlanIdentity (record_id X kind (flds r))) (\<lambda>d. Inr (d, r))"

definition named_definition_id ::
  "(name \<times> digest) list \<Rightarrow> name \<Rightarrow> string \<Rightarrow> (digest, planning_error) result" where
  "named_definition_id definitions name kind =
     ok_or (map_of definitions name) (MissingDefinitionIdentity kind name)"

definition dataset_definition_name :: "dataset_configuration_definition \<Rightarrow> string" where
  "dataset_definition_name d = (case d of UnitDataset \<Rightarrow> ''<unit>'' | NamedDataset n \<Rightarrow> n)"

text \<open>\<open>Iterator::step_by\<close>: the elements at the multiples of the step, which must not be zero.\<close>

definition step_by :: "nat \<Rightarrow> 'a list \<Rightarrow> 'a list" where
  "step_by k xs = map snd (filter (\<lambda>(i, x). k dvd i) (enumerate 0 xs))"

definition observation_slot_at ::
  "digest \<Rightarrow> json list option \<Rightarrow> u64 \<Rightarrow> u64 \<Rightarrow> logical_observation_slot" where
  "observation_slot_at specification controls bound i =
     \<lparr>los_specification = specification,
      los_measurement_index = (if controls = None then i else i div bound),
      los_fresh = map_option (\<lambda>cs. \<lparr>fc_schedule_index = i mod bound, fc_control = cs ! (i mod bound)\<rparr>) controls\<rparr>"

definition attempt_slot_at ::
  "externals \<Rightarrow> derived_seed \<Rightarrow> digest \<Rightarrow> attempt_slot_role \<Rightarrow> logical_attempt_slot" where
  "attempt_slot_at X scheduling_seed specification role =
     \<lparr>las_specification = specification, las_role = role,
      las_priority = derive_attempt_scheduling_priority X scheduling_seed specification role\<rparr>"

definition profile_controls ::
  "(u64 \<times> profile_binding) option \<Rightarrow> (json list option, planning_error) result" where
  "profile_controls profile_bound = (case profile_bound of
       Some (bound, FreshBinding binding) \<Rightarrow>
         res_bind (map_err (\<lambda>_. MissingDefinitionIdentity ''control schedule'' [])
           (expand_schedule (fb_schedule binding) bound)) (\<lambda>cs. Inr (Some cs))
     | _ \<Rightarrow> Inr None)"

definition observation_bound :: "json list option \<Rightarrow> (u64 \<times> profile_binding) option \<Rightarrow> u64" where
  "observation_bound controls profile_bound = (case controls of
       Some cs \<Rightarrow> length cs
     | None \<Rightarrow> (case profile_bound of None \<Rightarrow> 1 | Some (bound, _) \<Rightarrow> bound))"

definition plan_specification ::
  "externals \<Rightarrow> experiment_definition \<Rightarrow> digest \<Rightarrow> digest \<Rightarrow> digest \<Rightarrow> u64 \<Rightarrow> u64 \<Rightarrow> derived_seed
   \<Rightarrow> (u64 \<times> profile_binding) option \<Rightarrow> (specification_plan, planning_error) result" where
  "plan_specification X ex candidate dataset_configuration problem_configuration repetition warmup_runs
     scheduling_seed profile_bound =
     res_bind (map_err SeedError (derive_implementation_seed X (ex_seed ex) dataset_configuration
         problem_configuration repetition)) (\<lambda>implementation_seed.
     res_bind (identify_record X LogicalSpecificationKind logical_specification_fields
         \<lparr>ls_candidate = candidate, ls_budget = NoBudget, ls_repetition = repetition,
          ls_seed = implementation_seed\<rparr>) (\<lambda>specification.
     res_bind (profile_controls profile_bound) (\<lambda>controls.
       let bound = observation_bound controls profile_bound;
           identify_attempt = (\<lambda>role. identify_record X LogicalAttemptSlotKind logical_attempt_slot_fields
             (attempt_slot_at X scheduling_seed (fst specification) role))
       in
       res_bind (ok_or (checked_mul (ex_measurement_repetitions ex) bound)
           (MissingDefinitionIdentity ''observation bound'' ''too many observation slots'')) (\<lambda>slot_count.
       res_bind (collect_results (\<lambda>i. identify_record X LogicalObservationSlotKind logical_observation_slot_fields
           (observation_slot_at (fst specification) controls bound i)) [0..<slot_count]) (\<lambda>observation_slots.
       res_bind (collect_results (\<lambda>n. identify_attempt (Warmup n)) [0..<warmup_runs]) (\<lambda>warmups.
       let step = (if controls = None then bound else 1) in
       res_bind (ensure (step \<noteq> 0) PlanPanic) (\<lambda>_.
       res_bind (collect_results (\<lambda>observation. identify_attempt (Measured (fst observation)))
           (step_by step observation_slots)) (\<lambda>measured.
         Inr \<lparr>sp_specification = specification, sp_observation_slots = observation_slots,
              sp_attempt_slots = warmups @ measured\<rparr>))))))))"

definition observation_policy_record ::
  "name \<Rightarrow> observation_policy_definition \<Rightarrow> (observation_policy, planning_error) result" where
  "observation_policy_record name definition =
     res_bind (case op_profile definition of
          None \<Rightarrow> Inr None
        | Some p \<Rightarrow> res_bind (map_err (\<lambda>_. PlanPanic) (normalize_value (policy_json (pr_policy p)))) (\<lambda>v. Inr (Some v)))
       (\<lambda>profile. Inr \<lparr>opr_name = name, opr_kind = op_kind definition, opr_profile = profile\<rparr>)"

definition bound_observation_policy ::
  "externals \<Rightarrow> planning_catalog \<Rightarrow> name \<Rightarrow> observation_policy_definition \<Rightarrow> name
   \<Rightarrow> (observation_policy identified option, planning_error) result" where
  "bound_observation_policy X catalog policy_name definition implementation =
     (case op_profile definition of
        None \<Rightarrow> Inr None
      | Some profile \<Rightarrow>
          res_bind (ok_or (map_of (pr_implementations profile) implementation) PlanPanic) (\<lambda>binding.
          res_bind (map_err (\<lambda>v. PlanIdentity (IdentityViolation v))
              (normalize_value (bound_profile_value (cat_schema_identities catalog) (pr_policy profile) binding))) (\<lambda>v.
          res_bind (identify_record X ObservationPolicyKind observation_policy_fields
              \<lparr>opr_name = policy_name, opr_kind = ProfileKind, opr_profile = Some v\<rparr>) (\<lambda>r. Inr (Some r)))))"

definition profile_bound_of ::
  "observation_policy_definition \<Rightarrow> name \<Rightarrow> ((u64 \<times> profile_binding) option, planning_error) result" where
  "profile_bound_of definition implementation =
     (case op_profile definition of
        None \<Rightarrow> Inr None
      | Some p \<Rightarrow>
          res_bind (ok_or (map_of (pr_implementations p) implementation) PlanPanic) (\<lambda>binding.
            Inr (Some (pp_max_observations (pr_policy p), binding))))"

definition plan_candidate ::
  "externals \<Rightarrow> manifest \<Rightarrow> planning_catalog \<Rightarrow> experiment_definition \<Rightarrow> digest \<Rightarrow> digest \<Rightarrow> u64 \<Rightarrow> derived_seed
   \<Rightarrow> expanded_candidate \<Rightarrow> (candidate_plan, planning_error) result" where
  "plan_candidate X m catalog ex execution_policy observation_policy warmup_runs scheduling_seed expanded =
     (let implementation = xi_definition (xc_implementation expanded);
          dataset = xd_definition (xc_dataset expanded) in
      res_bind (ok_or (map_of (cat_dataset_definitions catalog) dataset)
          (MissingDefinitionIdentity ''dataset-definition'' (dataset_definition_name dataset))) (\<lambda>dataset_definition.
      res_bind (named_definition_id (cat_problem_definitions catalog) (xp_definition (xc_problem expanded))
          ''problem-definition'') (\<lambda>problem_definition.
      res_bind (named_definition_id (cat_implementation_definitions catalog) implementation
          ''implementation-definition'') (\<lambda>implementation_definition.
      res_bind (named_definition_id (cat_environment_definitions catalog) (xi_environment (xc_implementation expanded))
          ''environment-definition'') (\<lambda>environment_definition.
      res_bind (map_err SeedError (derive_dataset_seed X (ex_seed ex) dataset_definition
          (xd_parameters (xc_dataset expanded)))) (\<lambda>dataset_seed.
      res_bind (identify_record X DatasetConfigurationKind dataset_configuration_fields
          \<lparr>dcf_definition = dataset_definition, dcf_parameters = xd_parameters (xc_dataset expanded),
           dcf_seed = dataset_seed\<rparr>) (\<lambda>dataset_configuration.
      res_bind (identify_record X ProblemConfigurationKind problem_configuration_fields
          \<lparr>pcf_definition = problem_definition, pcf_parameters = xp_parameters (xc_problem expanded)\<rparr>)
          (\<lambda>problem_configuration.
      res_bind (identify_record X ImplementationConfigurationKind implementation_configuration_fields
          \<lparr>icf_definition = implementation_definition, icf_parameters = xi_parameters (xc_implementation expanded),
           icf_environment = environment_definition\<rparr>) (\<lambda>implementation_configuration.
      res_bind (ok_or (map_of (mf_implementations m) implementation) PlanPanic) (\<lambda>definition.
      res_bind (ok_or (map_of (mf_observation_policies m) (ex_observation_policy ex)) PlanPanic) (\<lambda>policy.
      res_bind (bound_observation_policy X catalog (ex_observation_policy ex) policy implementation) (\<lambda>profile_policy.
      res_bind (identify_record X LogicalCandidateKind logical_candidate_fields
          \<lparr>lc_dataset = fst dataset_configuration, lc_problem = fst problem_configuration,
           lc_implementation = fst implementation_configuration, lc_execution_policy = execution_policy,
           lc_observation_policy = (case profile_policy of None \<Rightarrow> observation_policy | Some p \<Rightarrow> fst p)\<rparr>) (\<lambda>candidate.
      res_bind (collect_results (\<lambda>repetition.
          res_bind (profile_bound_of policy implementation)
            (plan_specification X ex (fst candidate) (fst dataset_configuration) (fst problem_configuration)
               repetition warmup_runs scheduling_seed)) [0..<ex_implementation_repetitions ex]) (\<lambda>specifications.
        Inr \<lparr>cp_profile_policy = profile_policy, cp_source = xc_source expanded,
             cp_dataset_configuration = dataset_configuration, cp_problem_configuration = problem_configuration,
             cp_implementation_configuration = implementation_configuration,
             cp_capabilities = im_capabilities definition, cp_candidate = candidate,
             cp_specifications = specifications\<rparr>))))))))))))))"

definition plan_experiment ::
  "externals \<Rightarrow> manifest \<Rightarrow> planning_catalog \<Rightarrow> experiment_definition \<Rightarrow> expanded_experiment
   \<Rightarrow> (experiment_plan, planning_error) result" where
  "plan_experiment X m catalog ex expanded =
     res_bind (ok_or (map_of (mf_execution_policies m) (ex_execution_policy ex)) PlanPanic) (\<lambda>execution_definition.
     res_bind (identify_record X ExecutionPolicyKind execution_policy_fields
         (execution_policy_record (ex_execution_policy ex) execution_definition)) (\<lambda>execution_policy.
     res_bind (map_err ControlError (validate_required_controls (local_control_report (snd execution_policy)))) (\<lambda>_.
     res_bind (ok_or (map_of (mf_observation_policies m) (ex_observation_policy ex)) PlanPanic) (\<lambda>observation_definition.
     res_bind (observation_policy_record (ex_observation_policy ex) observation_definition) (\<lambda>policy.
     res_bind (identify_record X ObservationPolicyKind observation_policy_fields policy) (\<lambda>observation_policy.
     res_bind (map_err SeedError (derive_scheduling_seed X (ex_seed ex) (mf_name m) (ex_name ex)
         SCHEDULING_POLICY_VERSION)) (\<lambda>scheduling_seed.
     res_bind (collect_results (plan_candidate X m catalog ex (fst execution_policy) (fst observation_policy)
         (epr_warmup_runs (snd execution_policy)) scheduling_seed) (xe_candidates expanded)) (\<lambda>candidates.
       Inr \<lparr>xpl_name = xe_name expanded, xpl_scheduling_seed = scheduling_seed,
            xpl_execution_policy = execution_policy, xpl_observation_policy = observation_policy,
            xpl_candidates = candidates\<rparr>))))))))"

definition expand_manifest_logical_plan ::
  "externals \<Rightarrow> pointer \<Rightarrow> manifest \<Rightarrow> contracts \<Rightarrow> schema_catalog \<Rightarrow> planning_catalog
   \<Rightarrow> (experiment_plan list, planning_error) result" where
  "expand_manifest_logical_plan X ptr m problem_contracts schemas catalog =
     res_bind (map_err ConfigurationError (expand_manifest_configurations X ptr m problem_contracts schemas)) (\<lambda>expanded.
       collect_results (\<lambda>(ex, e). plan_experiment X m catalog ex e) (zip (mf_experiments m) expanded))"

text \<open>\<open>LogicalPlan::select_experiments\<close>; the error carries the undeclared name.\<close>

definition select_experiments ::
  "experiment_plan list \<Rightarrow> name list \<Rightarrow> name option \<Rightarrow> (experiment_plan list, name) result" where
  "select_experiments plan names default_name =
     (let selected = (if names = [] then (case default_name of None \<Rightarrow> [] | Some n \<Rightarrow> [n]) else names) in
      case find (\<lambda>n. \<not> list_ex (\<lambda>e. xpl_name e = n) plan) selected of
        Some n \<Rightarrow> Inl n
      | None \<Rightarrow> Inr (if selected = [] then plan else filter (\<lambda>e. xpl_name e \<in> set selected) plan))"

end
