(* ===== verification/Plan_Laws.thy ===== *)
theory Plan_Laws
  imports Logical_Plan
begin

text \<open>
  What logical planning promises: no panic on a parsed manifest, the coordinates of the planned slots,
  and the selection of experiments.
\<close>

section \<open>No panic\<close>

text \<open>
  What parsing guarantees for every profile: the policy has passed \<open>ProfilePolicy::validate\<close>, and its
  numbers are in the canonical domain, because the YAML reader refuses any other number.
\<close>

definition profiles_wf :: "manifest \<Rightarrow> bool" where
  "profiles_wf m \<longleftrightarrow> (\<forall>(n, p) \<in> set (mf_observation_policies m). \<forall>profile. op_profile p = Some profile \<longrightarrow>
     validate_policy (pr_policy profile) = Inr () \<and> acceptable (policy_json (pr_policy profile)))"

lemma identify_record_no_panic: "identify_record X kind flds r \<noteq> Inl PlanPanic"
  by (auto simp: identify_record_def res_bind_Err_iff)

lemma validate_policy_positive: "validate_policy p = Inr () \<Longrightarrow> 0 < pp_max_observations p"
  by (auto simp: validate_policy_def split: if_splits)

lemma profile_controls_Ok:
  "profile_controls profile_bound = Inr (Some cs) \<Longrightarrow>
   \<exists>bound binding. profile_bound = Some (bound, FreshBinding binding) \<and> expand_schedule (fb_schedule binding) bound = Inr cs
     \<and> 0 < length cs"
  by (auto simp: profile_controls_def split: option.splits profile_binding.splits prod.splits
      dest: expand_schedule_Ok)

definition bound_wf :: "(u64 \<times> profile_binding) option \<Rightarrow> bool" where
  "bound_wf profile_bound = (case profile_bound of None \<Rightarrow> True | Some (bound, _) \<Rightarrow> 0 < bound)"

lemma observation_bound_positive:
  "profile_controls profile_bound = Inr controls \<Longrightarrow> bound_wf profile_bound \<Longrightarrow> 0 < observation_bound controls profile_bound"
  using profile_controls_Ok [of profile_bound]
  by (auto simp: observation_bound_def bound_wf_def split: option.splits)

lemma plan_specification_no_panic:
  assumes "bound_wf profile_bound"
  shows "plan_specification X ex c d p r w seed profile_bound \<noteq> Inl PlanPanic"
  using observation_bound_positive [OF _ assms]
  by (auto simp: plan_specification_def Let_def res_bind_Err_iff identify_record_no_panic profile_controls_def
      dest!: collect_results_Err split: option.splits profile_binding.splits prod.splits)

lemma candidate_product_implementations:
  assumes "c \<in> set (candidate_product source problem datasets problems implementations)"
  shows "xi_definition (xc_implementation c) \<in> fst ` set implementations"
  using assms by (force simp: candidate_product_def)

lemma source_candidates_implementations:
  assumes "source_candidates m contract schemas ex ec source = Inr cs" "c \<in> set cs"
  shows "xi_definition (xc_implementation c) \<in> set (ex_implementations ex)"
proof -
  from assms obtain datasets problems implementations where
    impl: "collect_results (expand_implementation m schemas ex ec source) (ex_implementations ex) = Inr implementations"
    and cs: "cs = candidate_product source (ex_problem ex) datasets problems implementations"
    by (auto simp: source_candidates_def)
  have "list_all2 (\<lambda>n i. fst i = n) (ex_implementations ex) implementations"
    using impl unfolding collect_results_Ok_iff
    by (rule list_all2_mono) (auto simp: expand_implementation_def)
  then have "fst ` set implementations \<subseteq> set (ex_implementations ex)"
    by (auto simp: list_all2_conv_all_nth in_set_conv_nth) (metis fst_conv)
  with candidate_product_implementations assms(2) cs show ?thesis by blast
qed

lemma expand_experiment_Ok_iff:
  "expand_experiment X m contract schemas ex = Inr e \<longleftrightarrow>
   (\<exists>css keys. collect_results (\<lambda>(ec, source). source_candidates m contract schemas ex ec source) (sources_of ex) = Inr css
      \<and> collect_results (candidate_key X) (concat css) = Inr keys \<and> distinct keys
      \<and> e = \<lparr>xe_name = ex_name ex, xe_candidates = concat css\<rparr>)"
proof -
  have "expand_experiment X m contract schemas ex = Inr e \<longleftrightarrow>
      (\<exists>cs K. (\<exists>seen. expand_sources X m contract schemas ex (sources_of ex) ([], []) = Inr (cs, seen) \<and> fst ` set seen = K)
        \<and> e = \<lparr>xe_name = ex_name ex, xe_candidates = cs\<rparr>)"
    by (auto simp: expand_experiment_sources)
  also have "\<dots> \<longleftrightarrow> (\<exists>css keys. collect_results (\<lambda>(ec, source). source_candidates m contract schemas ex ec source) (sources_of ex) = Inr css
      \<and> collect_results (candidate_key X) (concat css) = Inr keys \<and> distinct keys
      \<and> e = \<lparr>xe_name = ex_name ex, xe_candidates = concat css\<rparr>)"
    unfolding expand_sources_Ok_iff by auto
  finally show ?thesis .
qed

lemma expanded_implementations:
  assumes "expand_experiment X m contract schemas ex = Inr e" "c \<in> set (xe_candidates e)"
  shows "xi_definition (xc_implementation c) \<in> set (ex_implementations ex)"
proof -
  from assms obtain css where
    css: "collect_results (\<lambda>(ec, source). source_candidates m contract schemas ex ec source) (sources_of ex) = Inr css"
    and "c \<in> set (concat css)" by (auto simp: expand_experiment_Ok_iff)
  then obtain i where i: "i < length css" "c \<in> set (css ! i)" by (metis UN_E in_set_conv_nth set_concat)
  then have "i < length (sources_of ex)" using collect_results_length [OF css] by simp
  from collect_results_nth [OF css this] i(2) show ?thesis
    by (auto simp: case_prod_beta dest: source_candidates_implementations)
qed

lemma plan_candidate_no_panic:
  assumes "validated m cs ex" "profiles_wf m" "xi_definition (xc_implementation c) \<in> set (ex_implementations ex)"
  shows "plan_candidate X m catalog ex ep op w seed c \<noteq> Inl PlanPanic"
proof -
  let ?i = "xi_definition (xc_implementation c)"
  from assms obtain policy where
    policy: "map_of (mf_observation_policies m) (ex_observation_policy ex) = Some policy"
    and bind: "\<And>profile. op_profile policy = Some profile \<Longrightarrow> map_of (pr_implementations profile) ?i \<noteq> None"
    and impl: "map_of (mf_implementations m) ?i \<noteq> None"
    by (auto simp: validated_def list_all_iff)
  have wf: "0 < pp_max_observations (pr_policy profile)" if "op_profile policy = Some profile" for profile
    using assms(2) map_of_SomeD [OF policy] that by (auto simp: profiles_wf_def validate_policy_positive)
  have bp: "bound_observation_policy X catalog n policy ?i \<noteq> Inl PlanPanic" for n
    using bind by (auto simp: bound_observation_policy_def res_bind_Err_iff identify_record_no_panic split: option.splits)
  have "profile_bound_of policy ?i \<noteq> Inl PlanPanic" using bind
    by (auto simp: profile_bound_of_def res_bind_Err_iff split: option.splits)
  moreover have "bound_wf b" if "profile_bound_of policy ?i = Inr b" for b
    using that wf by (auto simp: profile_bound_of_def bound_wf_def split: option.splits)
  ultimately have spec: "res_bind (profile_bound_of policy ?i) (plan_specification X ex cd dc pc r w seed) \<noteq> Inl PlanPanic"
    for cd dc pc r by (auto simp: res_bind_Err_iff plan_specification_no_panic)
  show ?thesis using impl spec bp
    by (auto simp: plan_candidate_def Let_def res_bind_Err_iff identify_record_no_panic named_definition_id_def policy
        dest!: collect_results_Err)
qed

lemma observation_policy_record_no_panic:
  assumes "profiles_wf m" "map_of (mf_observation_policies m) n = Some policy"
  shows "observation_policy_record k policy \<noteq> Inl PlanPanic"
proof -
  have "\<exists>v. normalize_value (policy_json (pr_policy profile)) = Inr v" if "op_profile policy = Some profile" for profile
    using assms(1) map_of_SomeD [OF assms(2)] that by (intro normalize_value_accepts) (auto simp: profiles_wf_def)
  then show ?thesis
    by (auto simp: observation_policy_record_def res_bind_Err_iff split: option.splits)
qed

lemma plan_experiment_no_panic:
  assumes "validated m cs ex" "profiles_wf m" "expand_experiment X m contract schemas ex = Inr e"
  shows "plan_experiment X m catalog ex e \<noteq> Inl PlanPanic"
proof -
  from assms(1) obtain ep policy where policies:
    "map_of (mf_execution_policies m) (ex_execution_policy ex) = Some ep"
    "map_of (mf_observation_policies m) (ex_observation_policy ex) = Some policy"
    by (auto simp: validated_def)
  have "collect_results (plan_candidate X m catalog ex a b w seed) (xe_candidates e) \<noteq> Inl PlanPanic" for a b w seed
    using plan_candidate_no_panic [OF assms(1,2) expanded_implementations [OF assms(3)]] by (auto dest!: collect_results_Err)
  with policies observation_policy_record_no_panic [OF assms(2) policies(2)] show ?thesis
    by (auto simp: plan_experiment_def res_bind_Err_iff identify_record_no_panic)
qed

lemma expand_manifest_Ok:
  assumes "expand_manifest_configurations X ptr m problem_contracts schemas = Inr expanded"
    and "(ex, e) \<in> set (zip (mf_experiments m) expanded)"
  shows "validated m problem_contracts ex \<and> (\<exists>contract. expand_experiment X m contract schemas ex = Inr e)"
proof -
  from assms(1) have valid: "validate_compatibility ptr m problem_contracts (Some schemas) = Inr ()"
    and col: "collect_results (\<lambda>ex. res_bind (ok_or (map_of problem_contracts (ex_problem ex)) ExpansionPanic)
        (\<lambda>contract. expand_experiment X m contract schemas ex)) (mf_experiments m) = Inr expanded"
    by (auto simp: expand_manifest_configurations_def)
  from assms(2) obtain i where i: "i < length (mf_experiments m)" "ex = mf_experiments m ! i" "e = expanded ! i"
    by (auto simp: in_set_zip)
  with validate_compatibility_Ok [OF valid] collect_results_nth [OF col i(1)] show ?thesis by auto
qed

section \<open>Coordinates of slots\<close>

lemma identify_record_snd: "identify_record X kind flds r = Inr d \<Longrightarrow> snd d = r"
  by (auto simp: identify_record_def)

lemma collect_identify_snd:
  "collect_results (\<lambda>x. identify_record X kind flds (f x)) xs = Inr ds \<Longrightarrow> map snd ds = map f xs"
  by (induction xs arbitrary: ds) (auto dest: identify_record_snd)

lemma step_by_eq: "0 < k \<Longrightarrow> length xs = n * k \<Longrightarrow> step_by k xs = map (\<lambda>r. xs ! (r * k)) [0..<n]"
proof -
  assume k: "0 < k" and len: "length xs = n * k"
  have "filter (\<lambda>i. k dvd i) [0..<n * k] = map (\<lambda>r. r * k) [0..<n]"
  proof (induction n)
    case (Suc n)
    have "filter (\<lambda>i. k dvd i) [n * k..<n * k + k] = [n * k]"
    proof -
      have "\<not> k dvd i" if i: "n * k < i" "i < n * k + k" for i
      proof -
        obtain j where j: "0 < j" "i = n * k + j" using less_imp_add_positive [OF i(1)] by blast
        with i(2) have "\<not> k dvd j" by (simp add: nat_dvd_not_less)
        with j(2) show ?thesis by (simp add: dvd_add_right_iff)
      qed
      then have "filter (\<lambda>i. k dvd i) [Suc (n * k)..<n * k + k] = []"
        by (simp add: filter_empty_conv Suc_le_eq)
      then show ?thesis using k by (simp add: upt_conv_Cons)
    qed
    moreover have "[0..<Suc n * k] = [0..<n * k] @ [n * k..<n * k + k]"
      by (metis add.commute le_add1 mult_Suc upt_add_eq_append zero_le)
    ultimately show ?case using Suc by simp
  qed simp
  then have idx: "filter (\<lambda>i. k dvd i) [0..<length xs] = map (\<lambda>r. r * k) [0..<n]" by (simp add: len)
  have "step_by k xs = map ((!) xs) (filter (\<lambda>i. k dvd i) [0..<length xs])"
    unfolding step_by_def enumerate_eq_zip
    by (induction xs rule: rev_induct) (auto simp: nth_append)
  then show ?thesis by (simp add: idx)
qed

lemma div_mod_product: "0 < b \<Longrightarrow> map (\<lambda>i. (i div b, i mod b)) [0..<n * b] = List.product [0..<n] [0..<b]"
proof (induction n)
  case (Suc n)
  have "[0..<n * b + b] = [0..<n * b] @ [n * b..<n * b + b]" by (rule upt_add_eq_append) simp
  also have "[n * b..<n * b + b] = map (\<lambda>i. i + n * b) [0..<b]" by (simp add: map_add_upt add.commute)
  finally have "[0..<Suc n * b] = [0..<n * b] @ map (\<lambda>i. i + n * b) [0..<b]" by (simp add: add.commute [of b])
  moreover have "map (\<lambda>i. ((i + n * b) div b, (i + n * b) mod b)) [0..<b] = map (Pair n) [0..<b]"
    using Suc.prems by (intro map_cong) auto
  moreover have "List.product (xs @ ys) zs = List.product xs zs @ List.product ys zs" for xs ys :: "nat list" and zs :: "nat list"
    by (induction xs) auto
  ultimately show ?case using Suc by simp
qed simp

lemma plan_specification_Ok:
  assumes "plan_specification X ex c d p r w seed pb = Inr plan" "profile_controls pb = Inr controls"
  defines "bound \<equiv> observation_bound controls pb"
  shows "ex_measurement_repetitions ex * bound \<le> U64_MAX
    \<and> map snd (sp_observation_slots plan) = map (observation_slot_at (fst (sp_specification plan)) controls bound)
        [0..<ex_measurement_repetitions ex * bound]
    \<and> map (las_role \<circ> snd) (sp_attempt_slots plan) = map Warmup [0..<w]
        @ map (\<lambda>z. Measured (fst z)) (step_by (if controls = None then bound else 1) (sp_observation_slots plan))"
proof -
  from assms(1,2) obtain sp obs warm meas where
    n: "ex_measurement_repetitions ex * bound \<le> U64_MAX"
    and obs: "collect_results (\<lambda>i. identify_record X LogicalObservationSlotKind logical_observation_slot_fields
        (observation_slot_at (fst sp) controls bound i)) [0..<ex_measurement_repetitions ex * bound] = Inr obs"
    and warm: "collect_results (\<lambda>n. identify_record X LogicalAttemptSlotKind logical_attempt_slot_fields
        (attempt_slot_at X seed (fst sp) (Warmup n))) [0..<w] = Inr warm"
    and meas: "collect_results (\<lambda>z. identify_record X LogicalAttemptSlotKind logical_attempt_slot_fields
        (attempt_slot_at X seed (fst sp) (Measured (fst z)))) (step_by (if controls = None then bound else 1) obs) = Inr meas"
    and plan: "plan = \<lparr>sp_specification = sp, sp_observation_slots = obs, sp_attempt_slots = warm @ meas\<rparr>"
    unfolding plan_specification_def Let_def bound_def res_bind_Ok_iff ok_or_Ok_iff checked_mul_Some_iff
    by (elim exE conjE) (simp only: sum.inject)
  note snds = collect_identify_snd [OF obs] collect_identify_snd [OF warm] collect_identify_snd [OF meas]
  have role: "map (las_role \<circ> snd) (warm @ meas) = map las_role (map snd warm @ map snd meas)" by simp
  show ?thesis using n unfolding plan specification_plan.simps role snds by (simp add: attempt_slot_at_def comp_def)
qed

section \<open>Specifications can always be planned\<close>

definition total_canonicalizer :: "externals \<Rightarrow> bool" where
  "total_canonicalizer X \<longleftrightarrow> (\<forall>v. canonicalizer X v \<noteq> None)"

lemma canonical_ord_extend:
  "list_all (\<lambda>kv. canonical_domain (snd kv)) m \<Longrightarrow> list_all (\<lambda>kv. canonical_domain (snd kv)) kvs
   \<Longrightarrow> list_all (\<lambda>kv. canonical_domain (snd kv)) (ord_extend m kvs)"
proof (induction kvs arbitrary: m)
  case (Cons kv kvs)
  then have "list_all (\<lambda>kv. canonical_domain (snd kv)) (ord_extend (ord_insert (fst kv) (snd kv) m) kvs)"
    by (intro Cons.IH ord_insert_sorted_values) auto
  then show ?case by (simp add: ord_extend_def case_prod_beta)
qed (simp add: ord_extend_def)

lemma canonical_object_fields [simp]:
  "list_all (\<lambda>kv. canonical_domain (snd kv)) kvs \<Longrightarrow> canonical_domain (json_object kvs)"
  by (simp add: json_object_def canonical_ord_extend)

lemma canonical_u64 [simp]: "canonical_domain (u64_value n) \<longleftrightarrow> n \<le> MAX_SAFE_INTEGER"
  by (simp add: u64_value_def number_from_u64_def canonical_number_def)

lemma canonical_id [simp]: "canonical_domain (id_value kind d)"
  by (simp add: id_value_def)

lemma canonical_seed [simp]: "canonical_domain (seed_value s) \<longleftrightarrow> ds_value s \<le> MAX_SAFE_INTEGER"
  by (auto simp: seed_value_def json_object_def ord_extend_def)

lemma identify_record_total:
  assumes "total_canonicalizer X" "list_all (\<lambda>kv. canonical_domain (snd kv)) (flds r)"
  shows "\<exists>d. identify_record X kind flds r = Inr (d, r)"
proof -
  have "canonical_domain (JObject (ord_insert ''version'' (JNumber (number_from_u64 IDENTITY_VERSION)) (flds r)))"
    using assms(2) by (auto intro!: ord_insert_sorted_values
        simp: number_from_u64_def IDENTITY_VERSION_def canonical_number_def MAX_SAFE_INTEGER_def)
  from normalize_value_fixed [OF this] assms(1) show ?thesis
    by (auto simp: identify_record_def record_id_def canonical_identity_bytes_def canonical_bytes_def
        total_canonicalizer_def ok_or_def split: option.split)
qed

lemma collect_results_total_ex: "(\<And>x. x \<in> set xs \<Longrightarrow> \<exists>y. f x = Inr y) \<Longrightarrow> \<exists>ys. collect_results f xs = Inr ys"
  by (induction xs) auto

lemma identify_all_total:
  assumes "total_canonicalizer X" "\<And>x. x \<in> set xs \<Longrightarrow> list_all (\<lambda>kv. canonical_domain (snd kv)) (flds (f x))"
  shows "\<exists>ds. collect_results (\<lambda>x. identify_record X kind flds (f x)) xs = Inr ds"
  using identify_record_total [where flds = flds, OF assms(1) assms(2)] by (intro collect_results_total_ex) blast

lemma plan_specification_total:
  assumes X: "total_canonicalizer X" and controls: "profile_controls pb = Inr controls" and wf: "bound_wf pb"
    and small: "ex_measurement_repetitions ex * observation_bound controls pb \<le> MAX_SAFE_INTEGER"
      "ex_seed ex \<le> MAX_SAFE_INTEGER" "r \<le> MAX_SAFE_INTEGER" "w \<le> MAX_SAFE_INTEGER"
    and canon: "case controls of None \<Rightarrow> True | Some cs \<Rightarrow> list_all canonical_domain cs"
  shows "\<exists>plan. plan_specification X ex c d p r w seed pb = Inr plan"
proof -
  let ?b = "observation_bound controls pb" and ?n = "ex_measurement_repetitions ex * observation_bound controls pb"
  have pos: "0 < ?b" by (rule observation_bound_positive [OF controls wf])
  have "\<exists>s. derive_implementation_seed X (ex_seed ex) d p r = Inr s \<and> ds_value s \<le> MAX_SAFE_INTEGER"
  proof -
    let ?fs = "json_object
       [(''experiment_seed'', JNumber (number_from_u64 (ex_seed ex))),
        (''dataset_configuration'', JString (record_id_display DatasetConfigurationKind d)),
        (''problem_configuration'', JString (record_id_display ProblemConfigurationKind p)),
        (''implementation_repetition'', JNumber (number_from_u64 r))]"
    have "canonical_domain ?fs"
      using small by (intro canonical_object_fields) (simp add: number_from_u64_def canonical_number_def)
    from normalize_value_fixed [OF this] X show ?thesis
      using seed_value_bound [of X IMPLEMENTATION_ROLE]
      by (auto simp: derive_implementation_seed_def canonical_implementation_seed_fields_def seed_fields_def
          canonical_bytes_def total_canonicalizer_def ok_or_def split: option.split)
  qed
  then obtain s where s: "derive_implementation_seed X (ex_seed ex) d p r = Inr s" "ds_value s \<le> MAX_SAFE_INTEGER" by blast
  let ?spec = "\<lparr>ls_candidate = c, ls_budget = NoBudget, ls_repetition = r, ls_seed = s\<rparr>"
  have "list_all (\<lambda>kv. canonical_domain (snd kv)) (logical_specification_fields ?spec)"
    using s(2) small by (simp add: logical_specification_fields_def fields_of_def canonical_ord_extend)
  from identify_record_total [where flds = logical_specification_fields, OF X this] obtain sid where
    sid: "identify_record X LogicalSpecificationKind logical_specification_fields ?spec = Inr (sid, ?spec)" by blast
  have "\<exists>obs. collect_results (\<lambda>i. identify_record X LogicalObservationSlotKind logical_observation_slot_fields
      (observation_slot_at sid controls ?b i)) [0..<?n] = Inr obs"
  proof (rule identify_all_total [OF X])
    fix i assume "i \<in> set [0..<?n]"
    then have i: "i \<le> MAX_SAFE_INTEGER" using small by simp
    have mod: "i mod ?b < ?b" "i mod ?b \<le> MAX_SAFE_INTEGER" "i div ?b \<le> MAX_SAFE_INTEGER"
      using pos order_trans [OF mod_less_eq_dividend [of i ?b] i] order_trans [OF div_le_dividend [of i ?b] i] by simp_all
    show "list_all (\<lambda>kv. canonical_domain (snd kv)) (logical_observation_slot_fields (observation_slot_at sid controls ?b i))"
    proof (cases controls)
      case None
      with i show ?thesis
        by (simp add: logical_observation_slot_fields_def observation_slot_at_def fields_of_def canonical_ord_extend)
    next
      case (Some cs)
      then have "canonical_domain (cs ! (i mod length cs))"
        using canon mod pos by (simp add: list_all_length observation_bound_def)
      with Some i mod show ?thesis
        by (auto simp: logical_observation_slot_fields_def observation_slot_at_def fields_of_def observation_bound_def
            intro!: ord_insert_sorted_values canonical_ord_extend canonical_object_fields)
    qed
  qed
  then obtain obs where obs: "collect_results (\<lambda>i. identify_record X LogicalObservationSlotKind logical_observation_slot_fields
      (observation_slot_at sid controls ?b i)) [0..<?n] = Inr obs" by blast
  have role: "list_all (\<lambda>kv. canonical_domain (snd kv)) (logical_attempt_slot_fields (attempt_slot_at X seed sid role))"
    if "case role of Warmup n \<Rightarrow> n \<le> MAX_SAFE_INTEGER | Measured _ \<Rightarrow> True" for role
    using that by (simp add: logical_attempt_slot_fields_def attempt_slot_at_def attempt_role_value_def fields_of_def
        canonical_ord_extend split: attempt_slot_role.split attempt_slot_role.splits)
  obtain warm where warm: "collect_results (\<lambda>n. identify_record X LogicalAttemptSlotKind logical_attempt_slot_fields
      (attempt_slot_at X seed sid (Warmup n))) [0..<w] = Inr warm"
    using identify_all_total [where flds = logical_attempt_slot_fields, OF X role, of "[0..<w]" Warmup] small by auto
  obtain meas where meas: "collect_results (\<lambda>z. identify_record X LogicalAttemptSlotKind logical_attempt_slot_fields
      (attempt_slot_at X seed sid (Measured (fst z)))) (step_by (if controls = None then ?b else 1) obs) = Inr meas"
    using identify_all_total [where flds = logical_attempt_slot_fields, OF X role,
        of "step_by (if controls = None then ?b else 1) obs" "\<lambda>z. Measured (fst z)"] by auto
  have "checked_mul (ex_measurement_repetitions ex) ?b = Some ?n"
    using small(1) MAX_SAFE_less_U64 by (simp add: checked_mul_def)
  then show ?thesis
    using pos by (auto simp: plan_specification_def s sid controls Let_def obs warm meas)
qed

section \<open>The contracts\<close>

text \<open>
  C27 (expansion_complete_and_unique): expanding an experiment succeeds exactly when every source
  expands and the canonical keys of all candidates are distinct, and it then yields the candidates
  of all its sources in declared order: none is lost, merged, reordered or kept twice.
\<close>

theorem expansion_complete_and_unique:
  "expand_experiment X m contract schemas ex = Inr e \<longleftrightarrow>
   (\<exists>css keys. collect_results (\<lambda>(ec, source). source_candidates m contract schemas ex ec source) (sources_of ex) = Inr css
      \<and> collect_results (candidate_key X) (concat css) = Inr keys \<and> distinct keys
      \<and> e = \<lparr>xe_name = ex_name ex, xe_candidates = concat css\<rparr>)"
  by (rule expand_experiment_Ok_iff)



text \<open>
  C26 (planned_slot_coordinates): the slots of a run specification.  In a fresh sequence the
  observation slots are the pairs of measurement repetition and schedule index in lexicographic
  order, each with the control of its index, and every one is measured by its own attempt.
  Otherwise the slots are numbered consecutively, one attempt measures each repetition and owns its
  first slot.  Warm-ups come first, and the number of slots never overflows.
\<close>

theorem planned_slot_coordinates:
  assumes "plan_specification X ex c d p r w seed pb = Inr plan" "bound_wf pb"
  shows "\<exists>controls. profile_controls pb = Inr controls
    \<and> (let bound = observation_bound controls pb; reps = ex_measurement_repetitions ex; slots = sp_observation_slots plan in
       0 < bound \<and> length slots = reps * bound \<and> reps * bound \<le> U64_MAX
       \<and> (case controls of
            Some cs \<Rightarrow>
              map (\<lambda>s. (los_measurement_index (snd s), los_fresh (snd s))) slots
                = map (\<lambda>(rep, i). (rep, Some \<lparr>fc_schedule_index = i, fc_control = cs ! i\<rparr>)) (List.product [0..<reps] [0..<length cs])
              \<and> map (las_role \<circ> snd) (sp_attempt_slots plan) = map Warmup [0..<w] @ map (\<lambda>s. Measured (fst s)) slots
          | None \<Rightarrow>
              map (\<lambda>s. (los_measurement_index (snd s), los_fresh (snd s))) slots = map (\<lambda>i. (i, None)) [0..<reps * bound]
              \<and> map (las_role \<circ> snd) (sp_attempt_slots plan)
                  = map Warmup [0..<w] @ map (\<lambda>rep. Measured (fst (slots ! (rep * bound)))) [0..<reps]))"
proof -
  from assms(1) obtain controls where c: "profile_controls pb = Inr controls"
    by (auto simp: plan_specification_def)
  define bound where "bound = observation_bound controls pb"
  define slots where "slots = sp_observation_slots plan"
  let ?reps = "ex_measurement_repetitions ex"
  have pos: "0 < bound" using observation_bound_positive [OF c assms(2)] by (simp add: bound_def)
  note ok = plan_specification_Ok [OF assms(1) c, folded bound_def slots_def]
  have len: "length slots = ?reps * bound" using ok by (metis length_map length_upt minus_nat.diff_0)
  have fields: "map (\<lambda>s. (los_measurement_index (snd s), los_fresh (snd s))) slots
      = map ((\<lambda>s. (los_measurement_index s, los_fresh s)) \<circ> observation_slot_at (fst (sp_specification plan)) controls bound)
          [0..<?reps * bound]"
    using ok [THEN conjunct2, THEN conjunct1, THEN arg_cong [where f = "map (\<lambda>s. (los_measurement_index s, los_fresh s))"]]
    by (simp add: comp_def)
  show ?thesis
  proof (cases controls)
    case None
    then have b: "observation_bound None pb = bound" by (simp add: bound_def)
    with None ok fields c pos len show ?thesis
      by (intro exI [of _ controls])
        (simp add: Let_def b slots_def [symmetric] observation_slot_at_def comp_def step_by_eq)
  next
    case (Some cs)
    then have b: "bound = length cs" by (simp add: bound_def observation_bound_def)
    have b': "observation_bound (Some cs) pb = length cs" by (simp add: observation_bound_def)
    have one: "step_by 1 slots = slots" using step_by_eq [of 1 slots "length slots"] by (simp add: map_nth)
    have "map ((\<lambda>s. (los_measurement_index s, los_fresh s)) \<circ> observation_slot_at (fst (sp_specification plan)) controls bound)
          [0..<?reps * bound]
        = map (\<lambda>(rep, i). (rep, Some \<lparr>fc_schedule_index = i, fc_control = cs ! i\<rparr>))
            (map (\<lambda>i. (i div bound, i mod bound)) [0..<?reps * bound])"
      by (simp add: observation_slot_at_def Some)
    with ok fields c pos len one show ?thesis
      unfolding div_mod_product [OF pos]
      by (intro exI [of _ controls]) (simp add: Let_def b' slots_def [symmetric] Some b comp_def)
  qed
qed


definition example_experiment :: experiment_definition where
  "example_experiment = \<lparr>ex_name = ''main'', ex_problem = ''lasso'', ex_datasets = [], ex_implementations = [''cd''],
     ex_execution_policy = ''default'', ex_observation_policy = ''once'', ex_implementation_repetitions = 1,
     ex_measurement_repetitions = 2, ex_seed = 7, ex_dataset_parameters = [], ex_problem_parameters = [],
     ex_implementation_parameters = [], ex_cases = []\<rparr>"

definition example_controls :: "json list" where
  "example_controls = [JObject [(''mode'', JString ''off'')],
     JObject [(''budget'', JNumber (PosInt 10))], JObject [(''budget'', JNumber (PosInt 15))]]"

definition example_fresh :: "(u64 \<times> profile_binding) option" where
  "example_fresh = Some (3, FreshBinding \<lparr>fb_control_schema = \<lparr>sd_path = ''c.json'', sd_document = None\<rparr>,
     fb_schedule = example_schedule\<rparr>)"

lemma example_planned:
  obtains plan where "plan_specification tail_hash example_experiment [] [] [] 0 1 example_seed example_fresh = Inr plan"
proof -
  have "total_canonicalizer tail_hash" by (simp add: total_canonicalizer_def tail_hash_def)
  moreover have "profile_controls example_fresh = Inr (Some example_controls)"
    by (simp add: profile_controls_def example_fresh_def example_expansion example_controls_def)
  ultimately have "\<exists>plan. plan_specification tail_hash example_experiment [] [] [] 0 1 example_seed example_fresh = Inr plan"
    by (rule plan_specification_total) (auto simp: bound_wf_def example_fresh_def example_experiment_def
      observation_bound_def MAX_SAFE_INTEGER_def canonical_number_def example_controls_def)
  with that show thesis by blast
qed

theorem planned_slot_coordinates_witness:
  "\<exists>plan. plan_specification tail_hash example_experiment [] [] [] 0 1 example_seed example_fresh = Inr plan
     \<and> map (\<lambda>s. (los_measurement_index (snd s), map_option fc_schedule_index (los_fresh (snd s)))) (sp_observation_slots plan)
       = [(0, Some 0), (0, Some 1), (0, Some 2), (1, Some 0), (1, Some 1), (1, Some 2)]"
proof -
  obtain plan where plan: "plan_specification tail_hash example_experiment [] [] [] 0 1 example_seed example_fresh = Inr plan"
    by (rule example_planned)
  have wf: "bound_wf example_fresh" by (simp add: bound_wf_def example_fresh_def)
  have c: "profile_controls example_fresh = Inr (Some example_controls)"
    by (simp add: profile_controls_def example_fresh_def example_expansion example_controls_def)
  have n3: "length example_controls = 3" by (simp add: example_controls_def)
  from planned_slot_coordinates [OF plan wf] have
    "map (\<lambda>s. (los_measurement_index (snd s), los_fresh (snd s))) (sp_observation_slots plan)
       = map (\<lambda>(rep, i). (rep, Some \<lparr>fc_schedule_index = i, fc_control = example_controls ! i\<rparr>))
           (List.product [0..<2] [0..<3])"
    by (simp add: c Let_def example_experiment_def n3)
  from arg_cong [OF this, of "map (\<lambda>(a, b). (a, map_option fc_schedule_index b))"] plan show ?thesis
    by (intro exI [of _ plan]) (simp add: comp_def numeral_2_eq_2 numeral_3_eq_3)
qed


end
