(* ===== verification/Serde_Derive.thy ===== *)
theory Serde_Derive
  imports Canonical_Json
begin

text \<open>
  What \<open>#[derive(Deserialize, Serialize)]\<close> means for the message types, over an already parsed
  \<open>serde_json::Value\<close>: a struct is read from an object by field name or from an array by position,
  a unit variant from its name or from an object of one null entry.  The text of a decoding error is
  not modelled: every failure is the one value \<open>SerdeError\<close>.
\<close>

datatype serde_error = SerdeError

type_synonym 'a decoder = "json \<Rightarrow> ('a, serde_error) result"

named_theorems de_simps \<open>unfolding rules of the decoders\<close>

section \<open>Scalars and sequences\<close>

fun de_bool :: "bool decoder" where
  "de_bool (JBool b) = Inr b"
| "de_bool _ = Inl SerdeError"

fun de_string :: "string decoder" where
  "de_string (JString s) = Inr s"
| "de_string _ = Inl SerdeError"

text \<open>An unsigned integer: a fraction is refused even when it is integral.\<close>

fun de_u64 :: "u64 decoder" where
  "de_u64 (JNumber (PosInt n)) = Inr n"
| "de_u64 (JNumber (NegInt i)) = (if 0 \<le> i then Inr (nat i) else Inl SerdeError)"
| "de_u64 _ = Inl SerdeError"

definition U32_MAX :: nat where
  "U32_MAX = 4294967295"

definition de_u32 :: "nat decoder" where
  "de_u32 v = res_bind (de_u64 v) (\<lambda>n. if n \<le> U32_MAX then Inr n else Inl SerdeError)"

definition de_value :: "json decoder" where
  "de_value v = Inr v"

fun de_vec :: "'a decoder \<Rightarrow> 'a list decoder" where
  "de_vec d (JArray vs) = collect_results d vs"
| "de_vec d _ = Inl SerdeError"

definition de_option :: "'a decoder \<Rightarrow> 'a option decoder" where
  "de_option d v = (if v = JNull then Inr None else res_bind (d v) (\<lambda>x. Inr (Some x)))"

text \<open>\<open>BTreeMap<String, T>\<close>: the entries of an object, in key order.\<close>

fun de_map :: "'a decoder \<Rightarrow> (string \<times> 'a) list decoder" where
  "de_map d (JObject m) = collect_results (\<lambda>(k, v). res_bind (d v) (\<lambda>x. Inr (k, x))) m"
| "de_map d _ = Inl SerdeError"

text \<open>A field-less enum with the variant names of its table.\<close>

fun de_variant :: "(string \<times> 'a) list \<Rightarrow> 'a decoder" where
  "de_variant table (JString s) = ok_or (map_of table s) SerdeError"
| "de_variant table (JObject [(s, v)]) =
     (if v = JNull then ok_or (map_of table s) SerdeError else Inl SerdeError)"
| "de_variant table _ = Inl SerdeError"

section \<open>Structs\<close>

text \<open>
  The members a struct visitor sees.  By name, \<open>deny_unknown_fields\<close> refuses any other key; by
  position, a value left over is refused.
\<close>

fun de_struct :: "bool \<Rightarrow> string list \<Rightarrow> json \<Rightarrow> (string \<rightharpoonup> json, serde_error) result" where
  "de_struct deny names (JObject m) =
     (if deny \<and> \<not> list_all (\<lambda>kv. fst kv \<in> set names) m then Inl SerdeError else Inr (map_of m))"
| "de_struct deny names (JArray vs) =
     (if length vs \<le> length names then Inr (map_of (zip names vs)) else Inl SerdeError)"
| "de_struct deny names _ = Inl SerdeError"

text \<open>An untagged struct variant is read by name only.\<close>

fun de_untagged :: "string list \<Rightarrow> json \<Rightarrow> (string \<rightharpoonup> json, serde_error) result" where
  "de_untagged names (JObject m) = de_struct True names (JObject m)"
| "de_untagged names _ = Inl SerdeError"

definition de_field :: "(string \<rightharpoonup> json) \<Rightarrow> string \<Rightarrow> 'a decoder \<Rightarrow> ('a, serde_error) result" where
  "de_field ms name d = (case ms name of None \<Rightarrow> Inl SerdeError | Some v \<Rightarrow> d v)"

text \<open>A field with \<open>#[serde(default)]\<close>: absent means \<open>None\<close>; the decoder of a present one yields \<open>Some\<close>.\<close>

definition de_default :: "(string \<rightharpoonup> json) \<Rightarrow> string \<Rightarrow> 'a option decoder \<Rightarrow> ('a option, serde_error) result" where
  "de_default ms name d = (case ms name of None \<Rightarrow> Inr None | Some v \<Rightarrow> d v)"

section \<open>Serialization\<close>

definition ser_object :: "(string \<times> json) list \<Rightarrow> json" where
  "ser_object members = JObject (ord_extend [] members)"

text \<open>\<open>skip_serializing_if = "Option::is_none"\<close>.\<close>

definition ser_skip :: "string \<Rightarrow> ('a \<Rightarrow> json) \<Rightarrow> 'a option \<Rightarrow> (string \<times> json) list" where
  "ser_skip name f x = (case x of None \<Rightarrow> [] | Some y \<Rightarrow> [(name, f y)])"

definition ser_option :: "('a \<Rightarrow> json) \<Rightarrow> 'a option \<Rightarrow> json" where
  "ser_option f x = (case x of None \<Rightarrow> JNull | Some y \<Rightarrow> f y)"

definition ser_u64 :: "u64 \<Rightarrow> json" where
  "ser_u64 n = JNumber (PosInt n)"

section \<open>Laws\<close>

lemma de_bool_Ok_iff [simp]: "de_bool v = Inr b \<longleftrightarrow> v = JBool b"
  by (cases v) auto

lemma de_string_Ok_iff [simp]: "de_string v = Inr s \<longleftrightarrow> v = JString s"
  by (cases v) auto

lemma de_u64_ser [simp]: "de_u64 (ser_u64 n) = Inr n"
  by (simp add: ser_u64_def)

lemma de_u32_ser: "n \<le> U32_MAX \<Longrightarrow> de_u32 (ser_u64 n) = Inr n"
  by (simp add: de_u32_def)

lemma de_value_Ok_iff [simp]: "de_value v = Inr w \<longleftrightarrow> w = v"
  by (auto simp: de_value_def)

lemma de_vec_Ok_iff: "de_vec d v = Inr xs \<longleftrightarrow> (\<exists>vs. v = JArray vs \<and> collect_results d vs = Inr xs)"
  by (cases v) auto

lemma collect_results_inverse:
  "(\<And>x. x \<in> set xs \<Longrightarrow> d (f x) = Inr x) \<Longrightarrow> collect_results d (map f xs) = Inr xs"
  by (induction xs) auto

lemma collect_results_all:
  "collect_results d vs = Inr xs \<Longrightarrow> (\<And>v x. d v = Inr x \<Longrightarrow> P x) \<Longrightarrow> list_all P xs"
  by (induction vs arbitrary: xs) auto

lemma de_option_ser:
  "(\<And>y. x = Some y \<Longrightarrow> d (f y) = Inr y \<and> f y \<noteq> JNull) \<Longrightarrow> de_option d (ser_option f x) = Inr x"
  by (cases x) (auto simp: de_option_def ser_option_def)

lemma de_option_Ok_iff:
  "de_option d v = Inr x \<longleftrightarrow> (v = JNull \<and> x = None) \<or> (v \<noteq> JNull \<and> (\<exists>y. d v = Inr y \<and> x = Some y))"
  by (auto simp: de_option_def)

lemma de_variant_Ok:
  "de_variant table v = Inr x \<Longrightarrow> \<exists>s. map_of table s = Some x"
  by (cases "(table, v)" rule: de_variant.cases) (auto split: if_splits)

lemma de_field_Ok_iff [simp]:
  "de_field ms name d = Inr x \<longleftrightarrow> (\<exists>v. ms name = Some v \<and> d v = Inr x)"
  by (auto simp: de_field_def split: option.splits)

lemma de_default_Ok_iff [simp]:
  "de_default ms name d = Inr x \<longleftrightarrow> (ms name = None \<and> x = None) \<or> (\<exists>v. ms name = Some v \<and> d v = Inr x)"
  by (auto simp: de_default_def split: option.splits)

lemma ser_skip_keys: "fst ` set (ser_skip name f x) \<subseteq> {name}"
  by (auto simp: ser_skip_def split: option.splits)

lemma fst_ord_extend: "fst ` set (ord_extend m kvs) = fst ` set m \<union> fst ` set kvs"
  by (induction kvs arbitrary: m) (auto simp: ord_extend_def split: prod.splits)

text \<open>A struct reads back the members it wrote.\<close>

lemma de_struct_ser:
  assumes "distinct (map fst members)" "fst ` set members \<subseteq> set names"
  shows "de_struct deny names (ser_object members) = Inr (map_of members)"
    and "de_untagged names (ser_object members) = Inr (map_of members)"
proof -
  have "fst ` set (ord_extend [] members) \<subseteq> set names" using assms(2) by (simp add: fst_ord_extend)
  then have "list_all (\<lambda>kv. fst kv \<in> set names) (ord_extend [] members)" by (auto simp: list_all_iff)
  with map_of_ord_extend [OF assms(1), of "[]"]
  show "de_struct deny names (ser_object members) = Inr (map_of members)"
    and "de_untagged names (ser_object members) = Inr (map_of members)"
    by (simp_all add: ser_object_def)
qed

lemma ser_object_wf:
  "list_all (\<lambda>kv. json_wf (snd kv)) members \<Longrightarrow> json_wf (ser_object members)"
proof -
  have "list_all (\<lambda>kv. json_wf (snd kv)) (ord_extend m kvs)"
    if "list_all (\<lambda>kv. json_wf (snd kv)) m" "list_all (\<lambda>kv. json_wf (snd kv)) kvs" for m kvs :: json_map
    using that
  proof (induction kvs arbitrary: m)
    case (Cons kv kvs)
    have "list_all (\<lambda>kv. json_wf (snd kv)) (ord_insert k v m)" if "json_wf v" for k v
      using Cons.prems(1) that by (induction k v m rule: ord_insert.induct) auto
    with Cons show ?case by (cases kv) (auto simp: ord_extend_def)
  qed (simp add: ord_extend_def)
  then show "list_all (\<lambda>kv. json_wf (snd kv)) members \<Longrightarrow> json_wf (ser_object members)"
    by (simp add: ser_object_def keys_sorted_ord_extend)
qed

end
