(* ===== verification/Wire_Framing.thy ===== *)
theory Wire_Framing
  imports Canonical_Json
begin

text \<open>
  \<open>src/protocol/framing.rs\<close>: the bounded JSON-Lines reader, the parser that refuses repeated
  object keys, and the response correlator.  A byte stream is the list of buffers \<open>fill_buf\<close>
  delivers, so every fragmentation of the stream is covered; the JSON parser is a parameter.
\<close>

section \<open>The bounded line reader\<close>

definition MAX_LINE_BYTES :: nat where
  "MAX_LINE_BYTES = 1024 * 1024"

datatype fill = Chunk string | IoFailure

datatype frame_error =
    FrameIo
  | LineTooLong nat
  | EarlyEof nat
  | ByteOrderMark
  | InvalidUtf8 nat
  | DuplicateKey string
  | MalformedJson

abbreviation newline :: char where
  "newline \<equiv> CHR 0x0A"

text \<open>\<open>available.iter().position(|byte| *byte == b'\n')\<close>\<close>

fun position :: "('a \<Rightarrow> bool) \<Rightarrow> 'a list \<Rightarrow> nat option" where
  "position p [] = None"
| "position p (x # xs) = (if p x then Some 0 else map_option Suc (position p xs))"

text \<open>
  \<open>FrameReader::read_line\<close> with the loop's local \<open>line\<close>; the second component is the reader
  afterwards.  \<open>MAX_LINE_BYTES - 1 - line.len()\<close> is a \<open>usize\<close> subtraction; it never
  underflows (\<open>read_line_bounded\<close>).
\<close>

fun read_line_loop ::
  "fill list \<Rightarrow> string \<Rightarrow> (string option, frame_error) result \<times> fill list" where
  "read_line_loop [] line =
     ((if line = [] then Inr None else Inl (EarlyEof (length line))), [])"
| "read_line_loop (IoFailure # rest) line = (Inl FrameIo, rest)"
| "read_line_loop (Chunk available # rest) line =
     (if available = [] then
        ((if line = [] then Inr None else Inl (EarlyEof (length line))), rest)
      else case position (\<lambda>byte. byte = newline) available of
        Some i \<Rightarrow>
          let consumed = i + 1
          in if saturating_add (length line) consumed > MAX_LINE_BYTES
             then (Inl (LineTooLong MAX_LINE_BYTES), Chunk available # rest)
             else (Inr (Some (line @ take i available)),
                   (if drop consumed available = [] then rest
                    else Chunk (drop consumed available) # rest))
      | None \<Rightarrow>
          let remaining = MAX_LINE_BYTES - 1 - length line
          in if length available > remaining
             then (Inl (LineTooLong MAX_LINE_BYTES), Chunk available # rest)
             else read_line_loop rest (line @ available))"

definition read_line :: "fill list \<Rightarrow> (string option, frame_error) result \<times> fill list" where
  "read_line reader = read_line_loop reader []"

section \<open>UTF-8 validation\<close>

text \<open>
  \<open>str::from_utf8\<close>: the well-formed byte sequences of the Unicode standard; the error carries the
  length of the longest valid prefix that ends at a character boundary.
\<close>

definition cont_byte :: "nat \<Rightarrow> bool" where
  "cont_byte b \<longleftrightarrow> 128 \<le> b \<and> b \<le> 191"

fun utf8_seq_len :: "nat list \<Rightarrow> nat option" where
  "utf8_seq_len [] = None"
| "utf8_seq_len (a # rest) =
     (if a \<le> 127 then Some 1
      else case rest of
        [] \<Rightarrow> None
      | b # rest2 \<Rightarrow>
          if 194 \<le> a \<and> a \<le> 223 then (if cont_byte b then Some 2 else None)
          else case rest2 of
            [] \<Rightarrow> None
          | c # rest3 \<Rightarrow>
              if 224 \<le> a \<and> a \<le> 239 then
                (if cont_byte b \<and> cont_byte c \<and> (a = 224 \<longrightarrow> 160 \<le> b) \<and> (a = 237 \<longrightarrow> b \<le> 159)
                 then Some 3 else None)
              else case rest3 of
                [] \<Rightarrow> None
              | d # _ \<Rightarrow>
                  if 240 \<le> a \<and> a \<le> 244 \<and> cont_byte b \<and> cont_byte c \<and> cont_byte d
                    \<and> (a = 240 \<longrightarrow> 144 \<le> b) \<and> (a = 244 \<longrightarrow> b \<le> 143)
                  then Some 4 else None)"

lemma utf8_seq_len_bounds: "utf8_seq_len bs = Some n \<Longrightarrow> 1 \<le> n \<and> n \<le> length bs"
  by (induction bs rule: utf8_seq_len.induct) (auto split: if_splits list.splits)

function utf8_invalid_at :: "nat \<Rightarrow> nat list \<Rightarrow> nat option" where
  "utf8_invalid_at off bs =
     (if bs = [] then None
      else case utf8_seq_len bs of
        None \<Rightarrow> Some off
      | Some n \<Rightarrow> utf8_invalid_at (off + n) (drop n bs))"
  by pat_completeness auto
termination
  by (relation "measure (\<lambda>(off, bs). length bs)") (auto dest: utf8_seq_len_bounds)

declare utf8_invalid_at.simps [simp del]

section \<open>Parsing one frame\<close>

text \<open>\<open>UniqueValueVisitor\<close>: the key is checked before the value is read.\<close>

fun unique_value :: "visit \<Rightarrow> (json, visitor_error) result"
and unique_seq :: "visit list \<Rightarrow> (json list, visitor_error) result"
and unique_map :: "json_map \<Rightarrow> (string \<times> visit) list \<Rightarrow> (json_map, visitor_error) result" where
  "unique_value VisitUnit = Inr JNull"
| "unique_value (VisitBool b) = Inr (JBool b)"
| "unique_value (VisitI64 i) = Inr (JNumber (number_from_i64 i))"
| "unique_value (VisitU64 n) = Inr (JNumber (number_from_u64 n))"
| "unique_value (VisitF64 x) =
     (if f64_is_finite x then Inr (JNumber (Float x)) else Inl NonFiniteNumber)"
| "unique_value (VisitStr s) = Inr (JString s)"
| "unique_value (VisitSeq vs fin) =
     res_bind (unique_seq vs) (\<lambda>vs. if fin then Inr (JArray vs) else Inl ParserError)"
| "unique_value (VisitMap es fin) =
     res_bind (unique_map [] es) (\<lambda>m. if fin then Inr (JObject m) else Inl ParserError)"
| "unique_value VisitFail = Inl ParserError"
| "unique_seq [] = Inr []"
| "unique_seq (v # vs) =
     res_bind (unique_value v) (\<lambda>w. res_bind (unique_seq vs) (\<lambda>ws. Inr (w # ws)))"
| "unique_map m [] = Inr m"
| "unique_map m ((k, v) # es) =
     (if map_of m k \<noteq> None then Inl (DuplicateObjectKey k)
      else res_bind (unique_value v) (\<lambda>w. unique_map (ord_insert k w m) es))"

fun malformed_or_duplicate :: "visitor_error \<Rightarrow> frame_error" where
  "malformed_or_duplicate (DuplicateObjectKey k) = DuplicateKey k"
| "malformed_or_duplicate _ = MalformedJson"

definition parse_unique_json :: "json_parser \<Rightarrow> string \<Rightarrow> (json, frame_error) result" where
  "parse_unique_json parser input =
     res_bind (map_err malformed_or_duplicate (unique_value (fst (parser input)))) (\<lambda>v.
       if snd (parser input) then Inr v else Inl MalformedJson)"

definition parse_frame :: "json_parser \<Rightarrow> string \<Rightarrow> (json, frame_error) result" where
  "parse_frame parser input =
     (if map byte_of (take 3 input) = [239, 187, 191] then Inl ByteOrderMark
      else case utf8_invalid_at 0 (map byte_of input) of
        Some valid_up_to \<Rightarrow> Inl (InvalidUtf8 valid_up_to)
      | None \<Rightarrow> parse_unique_json parser input)"

definition read_frame ::
  "json_parser \<Rightarrow> fill list \<Rightarrow> (json option, frame_error) result \<times> fill list" where
  "read_frame parser reader =
     (case read_line reader of
        (Inl e, rest) \<Rightarrow> (Inl e, rest)
      | (Inr None, rest) \<Rightarrow> (Inr None, rest)
      | (Inr (Some bytes), rest) \<Rightarrow>
          (res_bind (parse_frame parser bytes) (\<lambda>v. Inr (Some v)), rest))"

section \<open>Response correlation\<close>

record response_correlator =
  expected_id :: "string option"

datatype correlation_error =
    InvalidRequestId
  | CorrelationMismatch string string
  | CorrelationExtra string

definition correlator_new :: "string \<Rightarrow> response_correlator" where
  "correlator_new expected = \<lparr>expected_id = Some expected\<rparr>"

definition response_id_of :: "json \<Rightarrow> string option" where
  "response_id_of response =
     Option.bind (as_object response) (\<lambda>m. Option.bind (map_of m ''id'') as_str)"

definition correlator_accept ::
  "response_correlator \<Rightarrow> json \<Rightarrow> (unit, correlation_error) result \<times> response_correlator" where
  "correlator_accept c response =
     (case response_id_of response of
        None \<Rightarrow> (Inl InvalidRequestId, c)
      | Some actual \<Rightarrow>
          (case expected_id c of
             None \<Rightarrow> (Inl (CorrelationExtra actual), c)
           | Some expected \<Rightarrow>
               if actual \<noteq> expected then (Inl (CorrelationMismatch expected actual), c)
               else (Inr (), c\<lparr>expected_id := None\<rparr>)))"

definition correlator_is_complete :: "response_correlator \<Rightarrow> bool" where
  "correlator_is_complete c \<longleftrightarrow> expected_id c = None"

section \<open>The reader implements the line specification\<close>

text \<open>The bytes a fragmented stream carries, when no read fails and no buffer is empty.\<close>

fun stream_bytes :: "fill list \<Rightarrow> string" where
  "stream_bytes [] = []"
| "stream_bytes (Chunk b # rest) = b @ stream_bytes rest"
| "stream_bytes (IoFailure # rest) = []"

definition stream_ok :: "fill list \<Rightarrow> bool" where
  "stream_ok reader \<longleftrightarrow> list_all (\<lambda>f. case f of Chunk b \<Rightarrow> b \<noteq> [] | IoFailure \<Rightarrow> False) reader"

text \<open>
  The specification, over the whole remaining byte string: the line before the first newline if
  it fits, and otherwise which error; with the bytes left for the next call.
\<close>

definition line_spec :: "string \<Rightarrow> (string option, frame_error) result \<times> string option" where
  "line_spec bytes =
     (case position (\<lambda>byte. byte = newline) bytes of
        Some i \<Rightarrow>
          if i < MAX_LINE_BYTES then (Inr (Some (take i bytes)), Some (drop (i + 1) bytes))
          else (Inl (LineTooLong MAX_LINE_BYTES), None)
      | None \<Rightarrow>
          if bytes = [] then (Inr None, Some [])
          else if length bytes < MAX_LINE_BYTES then (Inl (EarlyEof (length bytes)), Some [])
          else (Inl (LineTooLong MAX_LINE_BYTES), None))"

lemma position_Some_iff:
  "position p xs = Some i \<longleftrightarrow> i < length xs \<and> p (xs ! i) \<and> (\<forall>j < i. \<not> p (xs ! j))"
proof (induction xs arbitrary: i)
  case Nil
  then show ?case by simp
next
  case (Cons x xs)
  then show ?case
    by (cases i) (auto simp: less_Suc_eq_0_disj)
qed

lemma position_None_iff: "position p xs = None \<longleftrightarrow> (\<forall>x \<in> set xs. \<not> p x)"
  by (induction xs) auto

lemma position_append:
  "position p (xs @ ys) =
     (case position p xs of Some i \<Rightarrow> Some i | None \<Rightarrow> map_option (\<lambda>i. length xs + i) (position p ys))"
  by (induction xs; cases "position p ys") (auto split: option.splits)

lemma position_less: "position p xs = Some i \<Longrightarrow> i < length xs"
  by (simp add: position_Some_iff)

lemma saturating_add_gt: "m \<le> U64_MAX \<Longrightarrow> saturating_add a b > m \<longleftrightarrow> a + b > m"
  if "m < U64_MAX" using that by (auto simp: saturating_add_def min_def)

lemma max_line_small: "MAX_LINE_BYTES < U64_MAX"
  by (simp add: MAX_LINE_BYTES_def U64_MAX_def)

lemma line_spec_newline:
  "position (\<lambda>byte. byte = newline) b = Some i \<Longrightarrow> position (\<lambda>byte. byte = newline) l = None \<Longrightarrow>
   line_spec (l @ b @ r) =
     (if length l + i < MAX_LINE_BYTES
      then (Inr (Some (l @ take i b)), Some (drop (i + 1) b @ r))
      else (Inl (LineTooLong MAX_LINE_BYTES), None))"
  using position_less [of "\<lambda>byte. byte = newline" b i] by (auto simp: line_spec_def position_append)

lemma line_spec_overlong:
  assumes "position (\<lambda>byte. byte = newline) l = None" and "MAX_LINE_BYTES \<le> length l"
  shows "line_spec (l @ r) = (Inl (LineTooLong MAX_LINE_BYTES), None)"
  using assms by (auto simp: line_spec_def position_append MAX_LINE_BYTES_def split: option.splits)

lemma read_line_loop_spec:
  assumes "stream_ok reader" and "position (\<lambda>byte. byte = newline) line = None"
    and "length line < MAX_LINE_BYTES"
  shows "fst (read_line_loop reader line) = fst (line_spec (line @ stream_bytes reader)) \<and>
    (\<forall>rest. snd (line_spec (line @ stream_bytes reader)) = Some rest \<longrightarrow>
       stream_ok (snd (read_line_loop reader line)) \<and>
       stream_bytes (snd (read_line_loop reader line)) = rest)"
  using assms
proof (induction reader line rule: read_line_loop.induct)
  case (1 line)
  then show ?case by (auto simp: line_spec_def stream_ok_def)
next
  case (2 rest line)
  then show ?case by (simp add: stream_ok_def)
next
  case (3 b rest line)
  from "3.prems" have b: "b \<noteq> []" and ok: "stream_ok rest" by (auto simp: stream_ok_def)
  show ?case
  proof (cases "position (\<lambda>byte. byte = newline) b")
    case (Some i)
    have lim: "saturating_add (length line) (i + 1) > MAX_LINE_BYTES
        \<longleftrightarrow> \<not> length line + i < MAX_LINE_BYTES"
      using saturating_add_gt [OF max_line_small] max_line_small by auto
    with Some b ok "3.prems" show ?thesis
      using line_spec_newline [OF Some "3.prems"(2), of "stream_bytes rest"]
      by (auto simp: Let_def stream_ok_def)
  next
    case None
    show ?thesis
    proof (cases "length b > MAX_LINE_BYTES - 1 - length line")
      case True
      then have long: "MAX_LINE_BYTES \<le> length (line @ b)" using "3.prems"(3) by simp
      have "position (\<lambda>byte. byte = newline) (line @ b) = None"
        using None "3.prems"(2) by (simp add: position_append)
      from line_spec_overlong [OF this long, of "stream_bytes rest"] True None b show ?thesis
        by simp
    next
      case False
      then have "length (line @ b) < MAX_LINE_BYTES" using "3.prems"(3) by simp
      moreover have "position (\<lambda>byte. byte = newline) (line @ b) = None"
        using None "3.prems"(2) by (simp add: position_append)
      ultimately have "fst (read_line_loop rest (line @ b))
            = fst (line_spec ((line @ b) @ stream_bytes rest)) \<and>
          (\<forall>left. snd (line_spec ((line @ b) @ stream_bytes rest)) = Some left \<longrightarrow>
             stream_ok (snd (read_line_loop rest (line @ b))) \<and>
             stream_bytes (snd (read_line_loop rest (line @ b))) = left)"
        using "3.IH" [OF b None refl False ok] by blast
      with False None b show ?thesis by simp
    qed
  qed
qed

section \<open>Repeated keys and the restricted domain\<close>

text \<open>
  A frame that passes the unique-key visitor and then \<open>CanonicalValue::try_from\<close> is accepted by
  \<open>CanonicalValue::from_slice\<close>'s visitor with the same value, and conversely.
\<close>

definition norm_map_rel :: "json_map \<Rightarrow> json_map \<Rightarrow> bool" where
  "norm_map_rel = list_all2 (\<lambda>a b. fst a = fst b \<and> normalize_value (snd a) = Inr (snd b))"

lemma norm_map_rel_insert:
  "norm_map_rel m n \<Longrightarrow> normalize_value v = Inr w \<Longrightarrow>
   norm_map_rel (ord_insert k v m) (ord_insert k w n)"
  unfolding norm_map_rel_def by (induction rule: list_all2_induct) auto

lemma norm_map_rel_lookup: "norm_map_rel m n \<Longrightarrow> (map_of m k = None) = (map_of n k = None)"
  unfolding norm_map_rel_def by (induction rule: list_all2_induct) auto

lemma norm_map_rel_normalize:
  "norm_map_rel m n \<longleftrightarrow> normalize_value (JObject m) = Inr (JObject n)"
  by (simp add: norm_map_rel_def collect_entries_Ok_iff)

lemma norm_map_rel_entry:
  "norm_map_rel m n \<Longrightarrow> map_of m k = Some u \<Longrightarrow> \<exists>w. normalize_value u = Inr w"
  unfolding norm_map_rel_def by (induction rule: list_all2_induct) (auto split: if_splits)

lemma unique_map_keeps: "unique_map m es = Inr m' \<Longrightarrow> map_of m k = Some u \<Longrightarrow> map_of m' k = Some u"
proof (induction es arbitrary: m)
  case (Cons e es)
  obtain k' v where e: "e = (k', v)" by (cases e)
  with Cons.prems obtain w where fresh: "map_of m k' = None"
    and run: "unique_map (ord_insert k' w m) es = Inr m'"
    by (auto split: if_splits)
  from fresh Cons.prems(2) have "map_of (ord_insert k' w m) k = Some u" by auto
  then show ?case using Cons.IH [OF run] by simp
qed simp

lemma normalize_number_i64:
  "normalize_number (number_from_i64 i) =
     (if safe_int i then Inr (number_from_i64 i) else Inl (IntegerOutOfRange (number_from_i64 i)))"
  by (auto simp: normalize_number_def number_from_i64_def number_as_i64_def number_as_u64_def
      safe_int_def I64_MAX_def MAX_SAFE_INTEGER_def)

lemma normalize_number_u64:
  "normalize_number (number_from_u64 n) =
     (if n > MAX_SAFE_INTEGER then Inl (IntegerOutOfRange (number_from_u64 n))
      else Inr (number_from_u64 n))"
  by (auto simp: normalize_number_def number_from_u64_def number_as_i64_def number_as_u64_def
      safe_int_def)

lemma normalize_number_f64: "normalize_number (Float x) = normalize_f64 x"
  by (simp add: normalize_number_def number_as_i64_def number_as_u64_def)

lemma unique_then_normalize:
  "restricted_value ev = Inr w \<longleftrightarrow> (\<exists>v. unique_value ev = Inr v \<and> normalize_value v = Inr w)"
  "restricted_seq evs = Inr ws \<longleftrightarrow>
     (\<exists>vs. unique_seq evs = Inr vs \<and> collect_results normalize_value vs = Inr ws)"
  "norm_map_rel m0 n0 \<Longrightarrow>
     restricted_map n0 es = Inr n \<longleftrightarrow> (\<exists>m. unique_map m0 es = Inr m \<and> norm_map_rel m n)"
proof (induction ev and evs and m0 es arbitrary: w and ws and n0 n
    rule: unique_value_unique_seq_unique_map.induct)
  case (3 i)
  then show ?case by (auto simp: normalize_number_i64)
next
  case (4 n)
  then show ?case by (auto simp: normalize_number_u64)
next
  case (5 x)
  then show ?case by (auto simp: normalize_number_f64 dest: normalize_f64_Ok)
next
  case (7 vs fin)
  then show ?case by (cases fin) auto
next
  case (8 es fin)
  have "norm_map_rel [] []" by (simp add: norm_map_rel_def)
  from "8.IH" [OF this] show ?case
    by (cases fin) (auto simp: norm_map_rel_normalize)
next
  case (12 m)
  then have "norm_map_rel m n \<longleftrightarrow> n = n0" by (auto simp: norm_map_rel_normalize)
  then show ?case by auto
next
  case (13 m k v es)
  show ?case
  proof (cases "map_of m k = None")
    case True
    have rest: "restricted_map (ord_insert k w n0) es = Inr n
        \<longleftrightarrow> (\<exists>m'. unique_map (ord_insert k u m) es = Inr m' \<and> norm_map_rel m' n)"
      if "unique_value v = Inr u" "normalize_value u = Inr w" for u w
      using "13.IH"(2) [OF _ norm_map_rel_insert [OF "13.prems" that(2)]] True by blast
    have val: "restricted_value v = Inr w
        \<longleftrightarrow> (\<exists>u. unique_value v = Inr u \<and> normalize_value u = Inr w)" for w
      using "13.IH"(1) True by blast
    have fwd: "\<exists>w. normalize_value u = Inr w"
      if "unique_map (ord_insert k u m) es = Inr m'" "norm_map_rel m' n" for u m'
      using unique_map_keeps [OF that(1), of k u] norm_map_rel_entry [OF that(2)] by simp
    from True have "map_of n0 k = None" using norm_map_rel_lookup [OF "13.prems"] by blast
    then have "restricted_map n0 ((k, v) # es) = Inr n \<longleftrightarrow>
        (\<exists>w. restricted_value v = Inr w \<and> restricted_map (ord_insert k w n0) es = Inr n)"
      by auto
    also have "\<dots> \<longleftrightarrow> (\<exists>u. unique_value v = Inr u \<and>
        (\<exists>m'. unique_map (ord_insert k u m) es = Inr m' \<and> norm_map_rel m' n))"
      using val rest fwd by (metis sum.inject(2))
    also have "\<dots> \<longleftrightarrow> (\<exists>m'. unique_map m ((k, v) # es) = Inr m' \<and> norm_map_rel m' n)"
      using True by auto
    finally show ?thesis .
  next
    case False
    then show ?thesis using norm_map_rel_lookup [OF "13.prems", of k] by auto
  qed
qed auto

section \<open>Properties of framing and correlation\<close>

lemma unique_wf:
  "unique_value ev = Inr v \<Longrightarrow> json_wf v"
  "unique_seq evs = Inr vs \<Longrightarrow> list_all json_wf vs"
  "unique_map m0 es = Inr m \<Longrightarrow> json_wf (JObject m0) \<Longrightarrow> json_wf (JObject m)"
proof (induction ev and evs and m0 es arbitrary: v and vs and m
    rule: unique_value_unique_seq_unique_map.induct)
  case (13 m0 k v es)
  from "13.prems" obtain w where new: "map_of m0 k = None" and val: "unique_value v = Inr w"
    and run: "unique_map (ord_insert k w m0) es = Inr m"
    by (auto split: if_splits)
  have "json_wf w" using "13.IH"(1) new val by blast
  then have "json_wf (JObject (ord_insert k w m0))"
    using "13.prems"(2) by (induction k w m0 rule: ord_insert.induct) auto
  then show ?case using "13.IH"(2) new val run by blast
qed (auto split: if_splits)

text \<open>
  C12 (read_line_refines_spec): however the byte stream is fragmented into buffers, \<open>read_line\<close>
  returns what the specification reads off the concatenated bytes: the bytes before the first
  newline when the line with its newline fits in \<open>MAX_LINE_BYTES\<close>, end of input, an early end, or
  a line that is too long; after an accepted line exactly the bytes behind its newline are left.
\<close>

theorem read_line_refines_spec:
  assumes "stream_ok reader"
  shows "fst (read_line reader) = fst (line_spec (stream_bytes reader)) \<and>
    (\<forall>rest. snd (line_spec (stream_bytes reader)) = Some rest \<longrightarrow>
       stream_ok (snd (read_line reader)) \<and> stream_bytes (snd (read_line reader)) = rest)"
  using read_line_loop_spec [OF assms, of "[]"]
  by (simp add: read_line_def MAX_LINE_BYTES_def)

theorem read_line_refines_spec_witness:
  "fst (read_line [Chunk ''ab'', Chunk (CHR ''c'' # newline # ''d'')]) = Inr (Some ''abc'') \<and>
   stream_bytes (snd (read_line [Chunk ''ab'', Chunk (CHR ''c'' # newline # ''d'')])) = ''d''"
proof -
  let ?r = "[Chunk ''ab'', Chunk (CHR ''c'' # newline # ''d'')]"
  have ok: "stream_ok ?r" by (simp add: stream_ok_def)
  have spec: "line_spec (stream_bytes ?r) = (Inr (Some ''abc''), Some ''d'')"
    by (simp add: line_spec_def MAX_LINE_BYTES_def)
  from read_line_refines_spec [OF ok] spec show ?thesis by simp
qed

text \<open>
  A frame's events are accepted by the unique-key visitor and then by
  \<open>CanonicalValue::try_from\<close> exactly when \<open>CanonicalValue::from_slice\<close>'s visitor accepts them,
  with the same resulting value; and every value a frame yields has each key once, in key order.
\<close>

theorem frame_then_canonical:
  "(restricted_value ev = Inr w \<longleftrightarrow>
      (\<exists>v. unique_value ev = Inr v \<and> json_wf v \<and> normalize_value v = Inr w))"
  using unique_then_normalize(1) unique_wf(1) by blast

text \<open>One correlator fed with a sequence of responses: the outcomes, in order.\<close>

fun correlator_run ::
  "response_correlator \<Rightarrow> json list \<Rightarrow> (unit, correlation_error) result list" where
  "correlator_run c [] = []"
| "correlator_run c (r # rs) =
     (case correlator_accept c r of (outcome, c') \<Rightarrow> outcome # correlator_run c' rs)"

lemma correlator_run_complete:
  "expected_id c = None \<Longrightarrow> r \<in> set (correlator_run c rs) \<Longrightarrow> r \<noteq> Inr ()"
  by (induction rs arbitrary: c) (auto simp: correlator_accept_def split: option.splits)

lemma correlator_run_None:
  "expected_id c = None \<Longrightarrow> filter is_ok (correlator_run c rs) = []"
  using correlator_run_complete [of c _ rs] by (auto simp: filter_empty_conv is_ok_iff)

text \<open>
  Whatever responses arrive, a correlator accepts at most one of
  them, and it accepts one exactly when some response carries the pending identifier as a string.
\<close>

theorem correlator_accepts_once:
  "length (filter is_ok (correlator_run (correlator_new i) rs)) =
     (if \<exists>r \<in> set rs. response_id_of r = Some i then 1 else 0)"
proof (induction rs)
  case Nil
  then show ?case by simp
next
  case (Cons r rs)
  show ?case
  proof (cases "response_id_of r = Some i")
    case True
    then show ?thesis
      by (simp add: correlator_accept_def correlator_new_def correlator_run_None)
  next
    case False
    then obtain e where "correlator_accept (correlator_new i) r = (Inl e, correlator_new i)"
      by (cases "response_id_of r") (auto simp: correlator_accept_def correlator_new_def)
    with Cons False show ?thesis by auto
  qed
qed

end
