(* ===== verification/Wire_Messages.thy ===== *)
theory Wire_Messages
  imports Serde_Derive Wire_Framing Record_Identity
begin

text \<open>
  The version-1 worker messages (\<open>protocol/messages.rs\<close> and its submodules).  Every message is the
  record of its data, a function \<open>_value\<close> for its derived or written \<open>Serialize\<close>, a function
  \<open>_from\<close> for its \<open>Deserialize\<close>, and the invariant \<open>_valid\<close> its decoder enforces.  Fields whose type
  has one value (\<open>method\<close>, \<open>event\<close>, \<open>ok\<close>, \<open>protocol\<close>) carry no data; they are written and checked,
  and have no place in the records.
\<close>

definition WIRE_PROTOCOL_VERSION :: nat where
  "WIRE_PROTOCOL_VERSION = 1"

section \<open>Metadata\<close>

datatype metadata_error =
    EmptyRequestId
  | InvalidWorkerIdentity string
  | EmptySdkName
  | EmptySdkVersion
  | EmptyWorkerFailureMessage
  | InvalidWorkerFailureDetails

text \<open>\<open>de::Error::custom\<close>: the text of the error is not modelled.\<close>

definition custom :: "('a, 'e) result \<Rightarrow> ('a, serde_error) result" where
  "custom r = map_err (\<lambda>_. SerdeError) r"

type_synonym request_id = string

definition request_id_from_str :: "string \<Rightarrow> (request_id, metadata_error) result" where
  "request_id_from_str s = (if s = [] then Inl EmptyRequestId else Inr s)"

definition de_request_id :: "request_id decoder" where
  "de_request_id v = res_bind (de_string v) (\<lambda>s. custom (request_id_from_str s))"

type_synonym worker_identity = string

definition RESOLVED_WORKER_PREFIX :: string where
  "RESOLVED_WORKER_PREFIX = ''mw1-resolved-worker-''"

definition worker_identity_from_str :: "string \<Rightarrow> (worker_identity, metadata_error) result" where
  "worker_identity_from_str s =
     (case str_strip_prefix RESOLVED_WORKER_PREFIX s of
        None \<Rightarrow> Inl (InvalidWorkerIdentity s)
      | Some digest \<Rightarrow>
          if length digest \<noteq> 64 \<or> \<not> list_all is_lower_hex digest then Inl (InvalidWorkerIdentity s)
          else Inr s)"

definition worker_identity_valid :: "worker_identity \<Rightarrow> bool" where
  "worker_identity_valid s \<longleftrightarrow> is_ok (worker_identity_from_str s)"

definition de_worker_identity :: "worker_identity decoder" where
  "de_worker_identity v = res_bind (de_string v) (\<lambda>s. custom (worker_identity_from_str s))"

datatype worker_role = DatasetMaterializer | ProblemPreparer | ImplementationRole | ProblemEvaluator

fun worker_role_name :: "worker_role \<Rightarrow> string" where
  "worker_role_name DatasetMaterializer = ''dataset_materializer''"
| "worker_role_name ProblemPreparer = ''problem_preparer''"
| "worker_role_name ImplementationRole = ''implementation''"
| "worker_role_name ProblemEvaluator = ''problem_evaluator''"

text \<open>A field-less enum is decoded through the table of the names it is encoded with.\<close>

definition de_enum :: "('a \<Rightarrow> string) \<Rightarrow> 'a list \<Rightarrow> 'a decoder" where
  "de_enum nm variants = de_variant (map (\<lambda>x. (nm x, x)) variants)"

definition de_worker_role :: "worker_role decoder" where
  "de_worker_role = de_enum worker_role_name
     [DatasetMaterializer, ProblemPreparer, ImplementationRole, ProblemEvaluator]"

datatype capability =
    ProblemPreparationCap | OneShotCap | ApplicabilityCap | FreshSequenceCap
  | StreamingProfileCap | BufferedProfileCap | ManagedOutputsCap | ProblemSemanticsCap

definition all_capabilities :: "capability list" where
  "all_capabilities =
     [ProblemPreparationCap, OneShotCap, ApplicabilityCap, FreshSequenceCap,
      StreamingProfileCap, BufferedProfileCap, ManagedOutputsCap, ProblemSemanticsCap]"

fun capability_name :: "capability \<Rightarrow> string" where
  "capability_name ProblemPreparationCap = ''problem_preparation''"
| "capability_name OneShotCap = ''one_shot''"
| "capability_name ApplicabilityCap = ''applicability''"
| "capability_name FreshSequenceCap = ''fresh_sequence''"
| "capability_name StreamingProfileCap = ''streaming_profile''"
| "capability_name BufferedProfileCap = ''buffered_profile''"
| "capability_name ManagedOutputsCap = ''managed_outputs''"
| "capability_name ProblemSemanticsCap = ''problem_semantics''"

text \<open>The derived \<open>Ord\<close> is the declaration order.\<close>

fun capability_index :: "capability \<Rightarrow> nat" where
  "capability_index ProblemPreparationCap = 0"
| "capability_index OneShotCap = 1"
| "capability_index ApplicabilityCap = 2"
| "capability_index FreshSequenceCap = 3"
| "capability_index StreamingProfileCap = 4"
| "capability_index BufferedProfileCap = 5"
| "capability_index ManagedOutputsCap = 6"
| "capability_index ProblemSemanticsCap = 7"

lemma capability_index_inject [simp]: "capability_index a = capability_index b \<longleftrightarrow> a = b"
  by (cases a; cases b) auto

instantiation capability :: linorder
begin

definition less_eq_capability :: "capability \<Rightarrow> capability \<Rightarrow> bool" where
  "less_eq_capability a b \<longleftrightarrow> capability_index a \<le> capability_index b"

definition less_capability :: "capability \<Rightarrow> capability \<Rightarrow> bool" where
  "less_capability a b \<longleftrightarrow> capability_index a < capability_index b"

instance
  by standard (auto simp: less_eq_capability_def less_capability_def)

end

text \<open>Collecting into a \<open>BTreeSet\<close> and back into a vector.\<close>

definition btree_set :: "'a::linorder list \<Rightarrow> 'a list" where
  "btree_set xs = sort (remdups xs)"

definition de_capabilities :: "capability list decoder" where
  "de_capabilities v =
     res_bind (de_vec (de_enum capability_name all_capabilities) v) (\<lambda>vs.
       let unique = btree_set vs
       in if length unique \<noteq> length vs then Inl SerdeError else Inr unique)"

record sdk_metadata =
  sdk_name :: string
  sdk_version :: string

definition sdk_metadata_new :: "string \<Rightarrow> string \<Rightarrow> (sdk_metadata, metadata_error) result" where
  "sdk_metadata_new nm version =
     (if nm = [] then Inl EmptySdkName
      else if version = [] then Inl EmptySdkVersion
      else Inr \<lparr>sdk_name = nm, sdk_version = version\<rparr>)"

definition sdk_metadata_value :: "sdk_metadata \<Rightarrow> json" where
  "sdk_metadata_value s =
     ser_object [(''name'', JString (sdk_name s)), (''version'', JString (sdk_version s))]"

definition de_sdk_metadata :: "sdk_metadata decoder" where
  "de_sdk_metadata v =
     res_bind (de_struct True [''name'', ''version''] v) (\<lambda>ms.
     res_bind (de_field ms ''name'' de_string) (\<lambda>nm.
     res_bind (de_field ms ''version'' de_string) (\<lambda>version.
     custom (sdk_metadata_new nm version))))"

definition sdk_valid :: "sdk_metadata \<Rightarrow> bool" where
  "sdk_valid s \<longleftrightarrow> sdk_name s \<noteq> [] \<and> sdk_version s \<noteq> []"

section \<open>Field decoders\<close>

definition deserialize_safe_u64 :: "u64 decoder" where
  "deserialize_safe_u64 v =
     res_bind (de_u64 v) (\<lambda>n. if n > MAX_SAFE_INTEGER then Inl SerdeError else Inr n)"

definition deserialize_required_safe_u64_option :: "u64 option decoder" where
  "deserialize_required_safe_u64_option v =
     res_bind (de_option de_u64 v) (\<lambda>x. case x of
         None \<Rightarrow> Inr None
       | Some n \<Rightarrow> if n > MAX_SAFE_INTEGER then Inl SerdeError else Inr (Some n))"

definition deserialize_nonempty_string :: "string decoder" where
  "deserialize_nonempty_string v =
     res_bind (de_string v) (\<lambda>s. if s = [] then Inl SerdeError else Inr s)"

definition deserialize_optional_object :: "json option decoder" where
  "deserialize_optional_object v =
     res_bind (de_option de_value v) (\<lambda>x. case x of
         None \<Rightarrow> Inr None
       | Some d \<Rightarrow> if is_object d then Inr (Some d) else Inl SerdeError)"

definition deserialize_object :: "json decoder" where
  "deserialize_object v =
     res_bind (de_value v) (\<lambda>w. if is_object w then Inr w else Inl SerdeError)"

definition deserialize_present_object :: "json option decoder" where
  "deserialize_present_object v = res_bind (deserialize_object v) (\<lambda>w. Inr (Some w))"

definition deserialize_control :: "json option decoder" where
  "deserialize_control v = res_bind (deserialize_object v) (\<lambda>control. Inr (Some control))"

definition deserialize_problem_dir :: "string option decoder" where
  "deserialize_problem_dir v = res_bind (deserialize_nonempty_string v) (\<lambda>s. Inr (Some s))"

definition optional_nonempty :: "string option decoder" where
  "optional_nonempty v = res_bind (deserialize_nonempty_string v) (\<lambda>s. Inr (Some s))"

text \<open>The types with one value: a method or event name, \<open>Success\<close>, \<open>Failure\<close> and \<open>VersionOne\<close>.\<close>

definition de_method :: "string \<Rightarrow> unit decoder" where
  "de_method nm = de_enum (\<lambda>_. nm) [()]"

definition de_success :: "unit decoder" where
  "de_success v = res_bind (de_bool v) (\<lambda>b. if b then Inr () else Inl SerdeError)"

definition de_failure :: "unit decoder" where
  "de_failure v = res_bind (de_bool v) (\<lambda>b. if b then Inl SerdeError else Inr ())"

definition de_version_one :: "unit decoder" where
  "de_version_one v =
     res_bind (de_u32 v) (\<lambda>n. if n = WIRE_PROTOCOL_VERSION then Inr () else Inl SerdeError)"

definition de_protocol_offers :: "nat list decoder" where
  "de_protocol_offers v =
     res_bind (de_vec de_u32 v) (\<lambda>versions.
       if versions = [] then Inl SerdeError
       else if length (btree_set versions) \<noteq> length versions then Inl SerdeError
       else Inr versions)"

definition offers_valid :: "nat list \<Rightarrow> bool" where
  "offers_valid versions \<longleftrightarrow>
     versions \<noteq> [] \<and> distinct versions \<and> list_all (\<lambda>n. n \<le> U32_MAX) versions"

definition manifest_reference_value :: "string \<Rightarrow> json" where
  "manifest_reference_value m = ser_object [(''manifest'', JString m)]"

definition de_manifest_reference :: "string decoder" where
  "de_manifest_reference v =
     res_bind (de_struct True [''manifest''] v) (\<lambda>ms.
     de_field ms ''manifest'' deserialize_nonempty_string)"

section \<open>The handshake\<close>

record hello_request =
  hq_id :: request_id
  hq_protocols :: "nat list"
  hq_role :: worker_role
  hq_worker_id :: worker_identity

definition hello_request_value :: "hello_request \<Rightarrow> json" where
  "hello_request_value m = ser_object
     ([(''id'', JString (hq_id m)),
      (''method'', JString ''hello''),
      (''protocols'', JArray (map ser_u64 (hq_protocols m))),
      (''role'', JString (worker_role_name (hq_role m))),
      (''worker_id'', JString (hq_worker_id m))])"

definition hello_request_from :: "hello_request decoder" where
  "hello_request_from v =
     res_bind (de_struct True [''id'', ''method'', ''protocols'', ''role'', ''worker_id''] v) (\<lambda>ms.
     res_bind (de_field ms ''id'' de_request_id) (\<lambda>i.
     res_bind (de_field ms ''method'' (de_method ''hello'')) (\<lambda>_.
     res_bind (de_field ms ''protocols'' de_protocol_offers) (\<lambda>protocols.
     res_bind (de_field ms ''role'' de_worker_role) (\<lambda>r.
     res_bind (de_field ms ''worker_id'' de_worker_identity) (\<lambda>worker_id.
     Inr \<lparr>hq_id = i, hq_protocols = protocols, hq_role = r, hq_worker_id = worker_id\<rparr>))))))"

definition hello_request_valid :: "hello_request \<Rightarrow> bool" where
  "hello_request_valid m \<longleftrightarrow> hq_id m \<noteq> []
     \<and> offers_valid (hq_protocols m)
     \<and> worker_identity_valid (hq_worker_id m)"

definition hello_request_new :: "request_id \<Rightarrow> worker_role \<Rightarrow> worker_identity \<Rightarrow> hello_request" where
  "hello_request_new i r w =
     \<lparr>hq_id = i, hq_protocols = [WIRE_PROTOCOL_VERSION], hq_role = r, hq_worker_id = w\<rparr>"

record hello_response =
  hr_id :: request_id
  hr_worker_id :: worker_identity
  hr_sdk :: "sdk_metadata option"
  hr_capabilities :: "capability list"

definition hello_response_value :: "hello_response \<Rightarrow> json" where
  "hello_response_value m = ser_object
     ([(''id'', JString (hr_id m)),
      (''ok'', JBool True),
      (''protocol'', ser_u64 WIRE_PROTOCOL_VERSION),
      (''worker_id'', JString (hr_worker_id m)),
      (''sdk'', ser_option sdk_metadata_value (hr_sdk m)),
      (''capabilities'', JArray (map (\<lambda>c. JString (capability_name c)) (hr_capabilities m)))])"

definition hello_response_from :: "hello_response decoder" where
  "hello_response_from v =
     res_bind (de_struct True [''id'', ''ok'', ''protocol'', ''worker_id'', ''sdk'',
         ''capabilities''] v) (\<lambda>ms.
     res_bind (de_field ms ''id'' de_request_id) (\<lambda>i.
     res_bind (de_field ms ''ok'' de_success) (\<lambda>_.
     res_bind (de_field ms ''protocol'' de_version_one) (\<lambda>_.
     res_bind (de_field ms ''worker_id'' de_worker_identity) (\<lambda>worker_id.
     res_bind (de_field ms ''sdk'' (de_option de_sdk_metadata)) (\<lambda>s.
     res_bind (de_field ms ''capabilities'' de_capabilities) (\<lambda>capabilities.
     Inr \<lparr>hr_id = i, hr_worker_id = worker_id, hr_sdk = s, hr_capabilities = capabilities\<rparr>)))))))"

definition hello_response_valid :: "hello_response \<Rightarrow> bool" where
  "hello_response_valid m \<longleftrightarrow> hr_id m \<noteq> []
     \<and> worker_identity_valid (hr_worker_id m)
     \<and> (case hr_sdk m of None \<Rightarrow> True | Some s \<Rightarrow> sdk_valid s)
     \<and> sorted_wrt (<) (hr_capabilities m)"

definition hello_response_new ::
    "request_id \<Rightarrow> worker_identity \<Rightarrow> sdk_metadata option \<Rightarrow> capability list \<Rightarrow> hello_response" where
  "hello_response_new i w s capabilities =
     \<lparr>hr_id = i, hr_worker_id = w, hr_sdk = s, hr_capabilities = btree_set capabilities\<rparr>"

section \<open>Datasets and shared problem inputs\<close>

record materialize_request =
  mq_id :: request_id
  mq_source_dir :: string
  mq_dataset_parameters :: json
  mq_dataset_seed :: u64
  mq_output_dir :: string

definition materialize_request_value :: "materialize_request \<Rightarrow> json" where
  "materialize_request_value m = ser_object
     ([(''id'', JString (mq_id m)),
      (''method'', JString ''materialize''),
      (''source_dir'', JString (mq_source_dir m)),
      (''dataset_parameters'', mq_dataset_parameters m),
      (''dataset_seed'', ser_u64 (mq_dataset_seed m)),
      (''output_dir'', JString (mq_output_dir m))])"

definition materialize_request_from :: "materialize_request decoder" where
  "materialize_request_from v =
     res_bind (de_struct True [''id'', ''method'', ''source_dir'', ''dataset_parameters'',
         ''dataset_seed'', ''output_dir''] v) (\<lambda>ms.
     res_bind (de_field ms ''id'' de_request_id) (\<lambda>i.
     res_bind (de_field ms ''method'' (de_method ''materialize'')) (\<lambda>_.
     res_bind (de_field ms ''source_dir'' deserialize_nonempty_string) (\<lambda>source_dir.
     res_bind (de_field ms ''dataset_parameters'' deserialize_object) (\<lambda>dataset_parameters.
     res_bind (de_field ms ''dataset_seed'' deserialize_safe_u64) (\<lambda>dataset_seed.
     res_bind (de_field ms ''output_dir'' deserialize_nonempty_string) (\<lambda>output_dir.
     Inr \<lparr>mq_id = i, mq_source_dir = source_dir, mq_dataset_parameters = dataset_parameters,
         mq_dataset_seed = dataset_seed, mq_output_dir = output_dir\<rparr>)))))))"

definition materialize_request_valid :: "materialize_request \<Rightarrow> bool" where
  "materialize_request_valid m \<longleftrightarrow> mq_id m \<noteq> []
     \<and> mq_source_dir m \<noteq> []
     \<and> is_object (mq_dataset_parameters m)
     \<and> mq_dataset_seed m \<le> MAX_SAFE_INTEGER
     \<and> mq_output_dir m \<noteq> []"

record materialize_response =
  mr_id :: request_id
  mr_dataset :: string

definition materialize_response_value :: "materialize_response \<Rightarrow> json" where
  "materialize_response_value m = ser_object
     ([(''id'', JString (mr_id m)),
      (''ok'', JBool True),
      (''dataset'', manifest_reference_value (mr_dataset m))])"

definition materialize_response_from :: "materialize_response decoder" where
  "materialize_response_from v =
     res_bind (de_struct True [''id'', ''ok'', ''dataset''] v) (\<lambda>ms.
     res_bind (de_field ms ''id'' de_request_id) (\<lambda>i.
     res_bind (de_field ms ''ok'' de_success) (\<lambda>_.
     res_bind (de_field ms ''dataset'' de_manifest_reference) (\<lambda>d.
     Inr \<lparr>mr_id = i, mr_dataset = d\<rparr>))))"

definition materialize_response_valid :: "materialize_response \<Rightarrow> bool" where
  "materialize_response_valid m \<longleftrightarrow> mr_id m \<noteq> []
     \<and> mr_dataset m \<noteq> []"

record prepare_problem_request =
  ppq_id :: request_id
  ppq_dataset_dir :: string
  ppq_problem_contract_id :: string
  ppq_problem_parameters :: json
  ppq_output_dir :: string

definition prepare_problem_request_value :: "prepare_problem_request \<Rightarrow> json" where
  "prepare_problem_request_value m = ser_object
     ([(''id'', JString (ppq_id m)),
      (''method'', JString ''materialize''),
      (''dataset_dir'', JString (ppq_dataset_dir m)),
      (''problem_contract_id'', JString (ppq_problem_contract_id m)),
      (''problem_parameters'', ppq_problem_parameters m),
      (''output_dir'', JString (ppq_output_dir m))])"

definition prepare_problem_request_from :: "prepare_problem_request decoder" where
  "prepare_problem_request_from v =
     res_bind (de_struct True [''id'', ''method'', ''dataset_dir'', ''problem_contract_id'',
         ''problem_parameters'', ''output_dir''] v) (\<lambda>ms.
     res_bind (de_field ms ''id'' de_request_id) (\<lambda>i.
     res_bind (de_field ms ''method'' (de_method ''materialize'')) (\<lambda>_.
     res_bind (de_field ms ''dataset_dir'' deserialize_nonempty_string) (\<lambda>dataset_dir.
     res_bind (de_field ms ''problem_contract_id'' deserialize_nonempty_string) (\<lambda>problem_contract_id.
     res_bind (de_field ms ''problem_parameters'' deserialize_object) (\<lambda>problem_parameters.
     res_bind (de_field ms ''output_dir'' deserialize_nonempty_string) (\<lambda>output_dir.
     Inr \<lparr>ppq_id = i, ppq_dataset_dir = dataset_dir,
         ppq_problem_contract_id = problem_contract_id,
         ppq_problem_parameters = problem_parameters, ppq_output_dir = output_dir\<rparr>)))))))"

definition prepare_problem_request_valid :: "prepare_problem_request \<Rightarrow> bool" where
  "prepare_problem_request_valid m \<longleftrightarrow> ppq_id m \<noteq> []
     \<and> ppq_dataset_dir m \<noteq> []
     \<and> ppq_problem_contract_id m \<noteq> []
     \<and> is_object (ppq_problem_parameters m)
     \<and> ppq_output_dir m \<noteq> []"

section \<open>Applicability\<close>

record check_applicability_request =
  caq_problem_dir :: "string option"
  caq_id :: request_id
  caq_dataset_dir :: string
  caq_dataset_manifest :: string
  caq_problem_contract_id :: string
  caq_problem_parameters :: json
  caq_implementation_parameters :: json

definition check_applicability_request_value :: "check_applicability_request \<Rightarrow> json" where
  "check_applicability_request_value m = ser_object
     (ser_skip ''problem_dir'' JString (caq_problem_dir m)
      @ [(''id'', JString (caq_id m)),
      (''method'', JString ''check_applicability''),
      (''dataset_dir'', JString (caq_dataset_dir m)),
      (''dataset_manifest'', JString (caq_dataset_manifest m)),
      (''problem_contract_id'', JString (caq_problem_contract_id m)),
      (''problem_parameters'', caq_problem_parameters m),
      (''implementation_parameters'', caq_implementation_parameters m)])"

definition check_applicability_request_from :: "check_applicability_request decoder" where
  "check_applicability_request_from v =
     res_bind (de_struct True [''problem_dir'', ''id'', ''method'', ''dataset_dir'',
         ''dataset_manifest'', ''problem_contract_id'', ''problem_parameters'',
         ''implementation_parameters''] v) (\<lambda>ms.
     res_bind (de_default ms ''problem_dir'' deserialize_problem_dir) (\<lambda>problem_dir.
     res_bind (de_field ms ''id'' de_request_id) (\<lambda>i.
     res_bind (de_field ms ''method'' (de_method ''check_applicability'')) (\<lambda>_.
     res_bind (de_field ms ''dataset_dir'' deserialize_nonempty_string) (\<lambda>dataset_dir.
     res_bind (de_field ms ''dataset_manifest'' deserialize_nonempty_string) (\<lambda>dataset_manifest.
     res_bind (de_field ms ''problem_contract_id'' deserialize_nonempty_string) (\<lambda>problem_contract_id.
     res_bind (de_field ms ''problem_parameters'' deserialize_object) (\<lambda>problem_parameters.
     res_bind (de_field ms ''implementation_parameters'' deserialize_object) (\<lambda>implementation_parameters.
     Inr \<lparr>caq_problem_dir = problem_dir, caq_id = i, caq_dataset_dir = dataset_dir,
         caq_dataset_manifest = dataset_manifest, caq_problem_contract_id = problem_contract_id,
         caq_problem_parameters = problem_parameters,
         caq_implementation_parameters = implementation_parameters\<rparr>)))))))))"

definition check_applicability_request_valid :: "check_applicability_request \<Rightarrow> bool" where
  "check_applicability_request_valid m \<longleftrightarrow> caq_problem_dir m \<noteq> Some []
     \<and> caq_id m \<noteq> []
     \<and> caq_dataset_dir m \<noteq> []
     \<and> caq_dataset_manifest m \<noteq> []
     \<and> caq_problem_contract_id m \<noteq> []
     \<and> is_object (caq_problem_parameters m)
     \<and> is_object (caq_implementation_parameters m)"

definition check_applicability_request_new ::
    "request_id \<Rightarrow> string \<Rightarrow> string \<Rightarrow> string \<Rightarrow> json \<Rightarrow> json \<Rightarrow> check_applicability_request" where
  "check_applicability_request_new i dataset_dir dataset_manifest contract problem implementation =
     \<lparr>caq_problem_dir = None, caq_id = i, caq_dataset_dir = dataset_dir,
      caq_dataset_manifest = dataset_manifest, caq_problem_contract_id = contract,
      caq_problem_parameters = problem, caq_implementation_parameters = implementation\<rparr>"

datatype applicability_outcome = Applicable | NotApplicable

fun applicability_outcome_name :: "applicability_outcome \<Rightarrow> string" where
  "applicability_outcome_name Applicable = ''applicable''"
| "applicability_outcome_name NotApplicable = ''not_applicable''"

definition de_applicability_outcome :: "applicability_outcome decoder" where
  "de_applicability_outcome = de_enum applicability_outcome_name [Applicable, NotApplicable]"

record check_applicability_response =
  car_id :: request_id
  car_outcome :: applicability_outcome
  car_code :: string
  car_reason :: string
  car_details :: "json option"

definition check_applicability_response_value :: "check_applicability_response \<Rightarrow> json" where
  "check_applicability_response_value m = ser_object
     ([(''id'', JString (car_id m)),
      (''ok'', JBool True),
      (''outcome'', JString (applicability_outcome_name (car_outcome m))),
      (''code'', JString (car_code m)),
      (''reason'', JString (car_reason m))]
      @ ser_skip ''details'' id (car_details m))"

definition check_applicability_response_from :: "check_applicability_response decoder" where
  "check_applicability_response_from v =
     res_bind (de_struct True [''id'', ''ok'', ''outcome'', ''code'', ''reason'',
         ''details''] v) (\<lambda>ms.
     res_bind (de_field ms ''id'' de_request_id) (\<lambda>i.
     res_bind (de_field ms ''ok'' de_success) (\<lambda>_.
     res_bind (de_field ms ''outcome'' de_applicability_outcome) (\<lambda>d.
     res_bind (de_field ms ''code'' deserialize_nonempty_string) (\<lambda>c.
     res_bind (de_field ms ''reason'' deserialize_nonempty_string) (\<lambda>why.
     res_bind (de_default ms ''details'' deserialize_present_object) (\<lambda>x.
     Inr \<lparr>car_id = i, car_outcome = d, car_code = c, car_reason = why, car_details = x\<rparr>)))))))"

definition check_applicability_response_valid :: "check_applicability_response \<Rightarrow> bool" where
  "check_applicability_response_valid m \<longleftrightarrow> car_id m \<noteq> []
     \<and> car_code m \<noteq> []
     \<and> car_reason m \<noteq> []
     \<and> (case car_details m of None \<Rightarrow> True | Some v \<Rightarrow> is_object v)"

section \<open>Preparation and execution\<close>

record prepare_request =
  pq_problem_dir :: "string option"
  pq_id :: request_id
  pq_dataset_dir :: string
  pq_problem_contract_id :: string
  pq_problem_parameters :: json
  pq_implementation_parameters :: json
  pq_implementation_seed :: u64

definition prepare_request_value :: "prepare_request \<Rightarrow> json" where
  "prepare_request_value m = ser_object
     (ser_skip ''problem_dir'' JString (pq_problem_dir m)
      @ [(''id'', JString (pq_id m)),
      (''method'', JString ''prepare''),
      (''dataset_dir'', JString (pq_dataset_dir m)),
      (''problem_contract_id'', JString (pq_problem_contract_id m)),
      (''problem_parameters'', pq_problem_parameters m),
      (''implementation_parameters'', pq_implementation_parameters m),
      (''implementation_seed'', ser_u64 (pq_implementation_seed m))])"

definition prepare_request_from :: "prepare_request decoder" where
  "prepare_request_from v =
     res_bind (de_struct True [''problem_dir'', ''id'', ''method'', ''dataset_dir'',
         ''problem_contract_id'', ''problem_parameters'', ''implementation_parameters'',
         ''implementation_seed''] v) (\<lambda>ms.
     res_bind (de_default ms ''problem_dir'' deserialize_problem_dir) (\<lambda>problem_dir.
     res_bind (de_field ms ''id'' de_request_id) (\<lambda>i.
     res_bind (de_field ms ''method'' (de_method ''prepare'')) (\<lambda>_.
     res_bind (de_field ms ''dataset_dir'' deserialize_nonempty_string) (\<lambda>dataset_dir.
     res_bind (de_field ms ''problem_contract_id'' deserialize_nonempty_string) (\<lambda>problem_contract_id.
     res_bind (de_field ms ''problem_parameters'' deserialize_object) (\<lambda>problem_parameters.
     res_bind (de_field ms ''implementation_parameters'' deserialize_object) (\<lambda>implementation_parameters.
     res_bind (de_field ms ''implementation_seed'' deserialize_safe_u64) (\<lambda>implementation_seed.
     Inr \<lparr>pq_problem_dir = problem_dir, pq_id = i, pq_dataset_dir = dataset_dir,
         pq_problem_contract_id = problem_contract_id, pq_problem_parameters = problem_parameters,
         pq_implementation_parameters = implementation_parameters,
         pq_implementation_seed = implementation_seed\<rparr>)))))))))"

definition prepare_request_valid :: "prepare_request \<Rightarrow> bool" where
  "prepare_request_valid m \<longleftrightarrow> pq_problem_dir m \<noteq> Some []
     \<and> pq_id m \<noteq> []
     \<and> pq_dataset_dir m \<noteq> []
     \<and> pq_problem_contract_id m \<noteq> []
     \<and> is_object (pq_problem_parameters m)
     \<and> is_object (pq_implementation_parameters m)
     \<and> pq_implementation_seed m \<le> MAX_SAFE_INTEGER"

definition prepare_request_new ::
    "request_id \<Rightarrow> string \<Rightarrow> string \<Rightarrow> json \<Rightarrow> json \<Rightarrow> u64 \<Rightarrow> prepare_request" where
  "prepare_request_new i dataset_dir contract problem implementation seed =
     \<lparr>pq_problem_dir = None, pq_id = i, pq_dataset_dir = dataset_dir,
      pq_problem_contract_id = contract, pq_problem_parameters = problem,
      pq_implementation_parameters = implementation, pq_implementation_seed = seed\<rparr>"

record execute_request =
  xq_observation_control :: "json option"
  xq_id :: request_id
  xq_result_dir :: string

definition execute_request_value :: "execute_request \<Rightarrow> json" where
  "execute_request_value m = ser_object
     (ser_skip ''observation_control'' id (xq_observation_control m)
      @ [(''id'', JString (xq_id m)),
      (''method'', JString ''execute''),
      (''result_dir'', JString (xq_result_dir m))])"

definition execute_request_from :: "execute_request decoder" where
  "execute_request_from v =
     res_bind (de_struct True [''observation_control'', ''id'', ''method'', ''result_dir''] v) (\<lambda>ms.
     res_bind (de_default ms ''observation_control'' deserialize_control) (\<lambda>observation_control.
     res_bind (de_field ms ''id'' de_request_id) (\<lambda>i.
     res_bind (de_field ms ''method'' (de_method ''execute'')) (\<lambda>_.
     res_bind (de_field ms ''result_dir'' deserialize_nonempty_string) (\<lambda>result_dir.
     Inr \<lparr>xq_observation_control = observation_control, xq_id = i, xq_result_dir = result_dir\<rparr>)))))"

definition execute_request_valid :: "execute_request \<Rightarrow> bool" where
  "execute_request_valid m \<longleftrightarrow> (case xq_observation_control m of None \<Rightarrow> True | Some v \<Rightarrow> is_object v)
     \<and> xq_id m \<noteq> []
     \<and> xq_result_dir m \<noteq> []"

definition execute_request_new :: "request_id \<Rightarrow> string \<Rightarrow> execute_request" where
  "execute_request_new i result_dir =
     \<lparr>xq_observation_control = None, xq_id = i, xq_result_dir = result_dir\<rparr>"

definition with_observation_control :: "execute_request \<Rightarrow> json \<Rightarrow> execute_request" where
  "with_observation_control m control = m\<lparr>xq_observation_control := Some control\<rparr>"

record execute_response =
  xr_observation_control :: "json option"
  xr_id :: request_id
  xr_implementation_time_ns :: "u64 option"
  xr_result :: string
  xr_statistics :: json

definition execute_response_value :: "execute_response \<Rightarrow> json" where
  "execute_response_value m = ser_object
     (ser_skip ''observation_control'' id (xr_observation_control m)
      @ [(''id'', JString (xr_id m)),
      (''ok'', JBool True),
      (''implementation_time_ns'', ser_option ser_u64 (xr_implementation_time_ns m)),
      (''result'', manifest_reference_value (xr_result m)),
      (''statistics'', xr_statistics m)])"

definition execute_response_from :: "execute_response decoder" where
  "execute_response_from v =
     res_bind (de_struct True [''observation_control'', ''id'', ''ok'',
         ''implementation_time_ns'', ''result'', ''statistics''] v) (\<lambda>ms.
     res_bind (de_default ms ''observation_control'' deserialize_control) (\<lambda>observation_control.
     res_bind (de_field ms ''id'' de_request_id) (\<lambda>i.
     res_bind (de_field ms ''ok'' de_success) (\<lambda>_.
     res_bind (de_field ms ''implementation_time_ns'' deserialize_required_safe_u64_option) (\<lambda>implementation_time_ns.
     res_bind (de_field ms ''result'' de_manifest_reference) (\<lambda>r.
     res_bind (de_field ms ''statistics'' deserialize_object) (\<lambda>statistics.
     Inr \<lparr>xr_observation_control = observation_control, xr_id = i,
         xr_implementation_time_ns = implementation_time_ns, xr_result = r,
         xr_statistics = statistics\<rparr>)))))))"

definition execute_response_valid :: "execute_response \<Rightarrow> bool" where
  "execute_response_valid m \<longleftrightarrow> (case xr_observation_control m of None \<Rightarrow> True | Some v \<Rightarrow> is_object v)
     \<and> xr_id m \<noteq> []
     \<and> (case xr_implementation_time_ns m of None \<Rightarrow> True | Some n \<Rightarrow> n \<le> MAX_SAFE_INTEGER)
     \<and> xr_result m \<noteq> []
     \<and> is_object (xr_statistics m)"

record execute_buffered_request =
  xbq_id :: request_id
  xbq_result_root :: string
  xbq_profile :: json

definition execute_buffered_request_value :: "execute_buffered_request \<Rightarrow> json" where
  "execute_buffered_request_value m = ser_object
     ([(''id'', JString (xbq_id m)),
      (''method'', JString ''execute_buffered''),
      (''result_root'', JString (xbq_result_root m)),
      (''profile'', xbq_profile m)])"

definition execute_buffered_request_from :: "execute_buffered_request decoder" where
  "execute_buffered_request_from v =
     res_bind (de_struct True [''id'', ''method'', ''result_root'', ''profile''] v) (\<lambda>ms.
     res_bind (de_field ms ''id'' de_request_id) (\<lambda>i.
     res_bind (de_field ms ''method'' (de_method ''execute_buffered'')) (\<lambda>_.
     res_bind (de_field ms ''result_root'' deserialize_nonempty_string) (\<lambda>result_root.
     res_bind (de_field ms ''profile'' deserialize_object) (\<lambda>p.
     Inr \<lparr>xbq_id = i, xbq_result_root = result_root, xbq_profile = p\<rparr>)))))"

definition execute_buffered_request_valid :: "execute_buffered_request \<Rightarrow> bool" where
  "execute_buffered_request_valid m \<longleftrightarrow> xbq_id m \<noteq> []
     \<and> xbq_result_root m \<noteq> []
     \<and> is_object (xbq_profile m)"

record execute_buffered_response =
  xbr_id :: request_id
  xbr_buffer :: string

definition execute_buffered_response_value :: "execute_buffered_response \<Rightarrow> json" where
  "execute_buffered_response_value m = ser_object
     ([(''id'', JString (xbr_id m)),
      (''ok'', JBool True),
      (''buffer'', manifest_reference_value (xbr_buffer m))])"

definition execute_buffered_response_from :: "execute_buffered_response decoder" where
  "execute_buffered_response_from v =
     res_bind (de_struct True [''id'', ''ok'', ''buffer''] v) (\<lambda>ms.
     res_bind (de_field ms ''id'' de_request_id) (\<lambda>i.
     res_bind (de_field ms ''ok'' de_success) (\<lambda>_.
     res_bind (de_field ms ''buffer'' de_manifest_reference) (\<lambda>b.
     Inr \<lparr>xbr_id = i, xbr_buffer = b\<rparr>))))"

definition execute_buffered_response_valid :: "execute_buffered_response \<Rightarrow> bool" where
  "execute_buffered_response_valid m \<longleftrightarrow> xbr_id m \<noteq> []
     \<and> xbr_buffer m \<noteq> []"

record reset_request =
  rq_id :: request_id

definition reset_request_value :: "reset_request \<Rightarrow> json" where
  "reset_request_value m = ser_object
     ([(''id'', JString (rq_id m)),
      (''method'', JString ''reset'')])"

definition reset_request_from :: "reset_request decoder" where
  "reset_request_from v =
     res_bind (de_struct True [''id'', ''method''] v) (\<lambda>ms.
     res_bind (de_field ms ''id'' de_request_id) (\<lambda>i.
     res_bind (de_field ms ''method'' (de_method ''reset'')) (\<lambda>_.
     Inr \<lparr>rq_id = i\<rparr>)))"

definition reset_request_valid :: "reset_request \<Rightarrow> bool" where
  "reset_request_valid m \<longleftrightarrow> rq_id m \<noteq> []"

record acknowledgement =
  ack_id :: request_id

definition acknowledgement_value :: "acknowledgement \<Rightarrow> json" where
  "acknowledgement_value m = ser_object
     ([(''id'', JString (ack_id m)),
      (''ok'', JBool True)])"

definition acknowledgement_from :: "acknowledgement decoder" where
  "acknowledgement_from v =
     res_bind (de_struct True [''id'', ''ok''] v) (\<lambda>ms.
     res_bind (de_field ms ''id'' de_request_id) (\<lambda>i.
     res_bind (de_field ms ''ok'' de_success) (\<lambda>_.
     Inr \<lparr>ack_id = i\<rparr>)))"

definition acknowledgement_valid :: "acknowledgement \<Rightarrow> bool" where
  "acknowledgement_valid m \<longleftrightarrow> ack_id m \<noteq> []"

section \<open>Evaluation and shutdown\<close>

record evaluate_request =
  eq_problem_dir :: "string option"
  eq_id :: request_id
  eq_dataset_dir :: string
  eq_problem_contract_id :: string
  eq_problem_parameters :: json
  eq_problem_semantics :: "json option"
  eq_result_dir :: string
  eq_metrics_path :: string

definition evaluate_request_value :: "evaluate_request \<Rightarrow> json" where
  "evaluate_request_value m = ser_object
     (ser_skip ''problem_dir'' JString (eq_problem_dir m)
      @ [(''id'', JString (eq_id m)),
      (''method'', JString ''evaluate''),
      (''dataset_dir'', JString (eq_dataset_dir m)),
      (''problem_contract_id'', JString (eq_problem_contract_id m)),
      (''problem_parameters'', eq_problem_parameters m)]
      @ ser_skip ''problem_semantics'' id (eq_problem_semantics m)
      @ [(''result_dir'', JString (eq_result_dir m)),
      (''metrics_path'', JString (eq_metrics_path m))])"

definition evaluate_request_from :: "evaluate_request decoder" where
  "evaluate_request_from v =
     res_bind (de_struct True [''problem_dir'', ''id'', ''method'', ''dataset_dir'',
         ''problem_contract_id'', ''problem_parameters'', ''problem_semantics'', ''result_dir'',
         ''metrics_path''] v) (\<lambda>ms.
     res_bind (de_default ms ''problem_dir'' deserialize_problem_dir) (\<lambda>problem_dir.
     res_bind (de_field ms ''id'' de_request_id) (\<lambda>i.
     res_bind (de_field ms ''method'' (de_method ''evaluate'')) (\<lambda>_.
     res_bind (de_field ms ''dataset_dir'' deserialize_nonempty_string) (\<lambda>dataset_dir.
     res_bind (de_field ms ''problem_contract_id'' deserialize_nonempty_string) (\<lambda>problem_contract_id.
     res_bind (de_field ms ''problem_parameters'' deserialize_object) (\<lambda>problem_parameters.
     res_bind (de_default ms ''problem_semantics'' deserialize_present_object) (\<lambda>problem_semantics.
     res_bind (de_field ms ''result_dir'' deserialize_nonempty_string) (\<lambda>result_dir.
     res_bind (de_field ms ''metrics_path'' deserialize_nonempty_string) (\<lambda>metrics_path.
     Inr \<lparr>eq_problem_dir = problem_dir, eq_id = i, eq_dataset_dir = dataset_dir,
         eq_problem_contract_id = problem_contract_id, eq_problem_parameters = problem_parameters,
         eq_problem_semantics = problem_semantics, eq_result_dir = result_dir,
         eq_metrics_path = metrics_path\<rparr>))))))))))"

definition evaluate_request_valid :: "evaluate_request \<Rightarrow> bool" where
  "evaluate_request_valid m \<longleftrightarrow> eq_problem_dir m \<noteq> Some []
     \<and> eq_id m \<noteq> []
     \<and> eq_dataset_dir m \<noteq> []
     \<and> eq_problem_contract_id m \<noteq> []
     \<and> is_object (eq_problem_parameters m)
     \<and> (case eq_problem_semantics m of None \<Rightarrow> True | Some v \<Rightarrow> is_object v)
     \<and> eq_result_dir m \<noteq> []
     \<and> eq_metrics_path m \<noteq> []"

definition evaluate_request_new ::
    "request_id \<Rightarrow> string \<Rightarrow> string \<Rightarrow> json \<Rightarrow> string \<Rightarrow> string \<Rightarrow> evaluate_request" where
  "evaluate_request_new i dataset_dir contract problem result_dir metrics =
     \<lparr>eq_problem_dir = None, eq_id = i, eq_dataset_dir = dataset_dir,
      eq_problem_contract_id = contract, eq_problem_parameters = problem,
      eq_problem_semantics = None, eq_result_dir = result_dir, eq_metrics_path = metrics\<rparr>"

definition with_problem_semantics :: "evaluate_request \<Rightarrow> json \<Rightarrow> evaluate_request" where
  "with_problem_semantics m semantics = m\<lparr>eq_problem_semantics := Some semantics\<rparr>"

datatype evaluation_verdict = InvalidVerdict | Reached | NotReached | NotRequired

fun evaluation_verdict_name :: "evaluation_verdict \<Rightarrow> string" where
  "evaluation_verdict_name InvalidVerdict = ''invalid''"
| "evaluation_verdict_name Reached = ''reached''"
| "evaluation_verdict_name NotReached = ''not_reached''"
| "evaluation_verdict_name NotRequired = ''not_required''"

definition de_evaluation_verdict :: "evaluation_verdict decoder" where
  "de_evaluation_verdict =
     de_enum evaluation_verdict_name [InvalidVerdict, Reached, NotReached, NotRequired]"

record evaluate_response =
  er_id :: request_id
  er_verdict :: evaluation_verdict

definition evaluate_response_value :: "evaluate_response \<Rightarrow> json" where
  "evaluate_response_value m = ser_object
     ([(''id'', JString (er_id m)),
      (''ok'', JBool True),
      (''verdict'', JString (evaluation_verdict_name (er_verdict m)))])"

definition evaluate_response_from :: "evaluate_response decoder" where
  "evaluate_response_from v =
     res_bind (de_struct True [''id'', ''ok'', ''verdict''] v) (\<lambda>ms.
     res_bind (de_field ms ''id'' de_request_id) (\<lambda>i.
     res_bind (de_field ms ''ok'' de_success) (\<lambda>_.
     res_bind (de_field ms ''verdict'' de_evaluation_verdict) (\<lambda>d.
     Inr \<lparr>er_id = i, er_verdict = d\<rparr>))))"

definition evaluate_response_valid :: "evaluate_response \<Rightarrow> bool" where
  "evaluate_response_valid m \<longleftrightarrow> er_id m \<noteq> []"

record shutdown_request =
  sq_id :: request_id

definition shutdown_request_value :: "shutdown_request \<Rightarrow> json" where
  "shutdown_request_value m = ser_object
     ([(''id'', JString (sq_id m)),
      (''method'', JString ''shutdown'')])"

definition shutdown_request_from :: "shutdown_request decoder" where
  "shutdown_request_from v =
     res_bind (de_struct True [''id'', ''method''] v) (\<lambda>ms.
     res_bind (de_field ms ''id'' de_request_id) (\<lambda>i.
     res_bind (de_field ms ''method'' (de_method ''shutdown'')) (\<lambda>_.
     Inr \<lparr>sq_id = i\<rparr>)))"

definition shutdown_request_valid :: "shutdown_request \<Rightarrow> bool" where
  "shutdown_request_valid m \<longleftrightarrow> sq_id m \<noteq> []"

section \<open>Managed outputs\<close>

datatype managed_output =
    ManagedExecute request_id string "u64 option" json "json option"
  | ManagedEvaluate request_id string evaluation_verdict
  | ManagedMaterialize request_id string

fun managed_output_value :: "managed_output \<Rightarrow> json" where
  "managed_output_value (ManagedExecute i draft time_ns statistics control) = ser_object
     ([(''id'', JString i),
      (''ok'', JBool True),
      (''draft'', JString draft),
      (''implementation_time_ns'', ser_option ser_u64 time_ns),
      (''statistics'', statistics)]
      @ ser_skip ''observation_control'' id control)"
| "managed_output_value (ManagedEvaluate i draft d) = ser_object
     [(''id'', JString i), (''ok'', JBool True), (''draft'', JString draft),
      (''verdict'', JString (evaluation_verdict_name d))]"
| "managed_output_value (ManagedMaterialize i draft) = ser_object
     [(''id'', JString i), (''ok'', JBool True), (''draft'', JString draft)]"

definition managed_execute_from :: "managed_output decoder" where
  "managed_execute_from v =
     res_bind (de_untagged [''id'', ''ok'', ''draft'', ''implementation_time_ns'', ''statistics'',
         ''observation_control''] v) (\<lambda>ms.
     res_bind (de_field ms ''id'' de_request_id) (\<lambda>i.
     res_bind (de_field ms ''ok'' de_success) (\<lambda>_.
     res_bind (de_field ms ''draft'' deserialize_nonempty_string) (\<lambda>draft.
     res_bind (de_field ms ''implementation_time_ns'' deserialize_required_safe_u64_option) (\<lambda>time_ns.
     res_bind (de_field ms ''statistics'' deserialize_object) (\<lambda>statistics.
     res_bind (de_default ms ''observation_control'' deserialize_control) (\<lambda>control.
     Inr (ManagedExecute i draft time_ns statistics control))))))))"

definition managed_evaluate_from :: "managed_output decoder" where
  "managed_evaluate_from v =
     res_bind (de_untagged [''id'', ''ok'', ''draft'', ''verdict''] v) (\<lambda>ms.
     res_bind (de_field ms ''id'' de_request_id) (\<lambda>i.
     res_bind (de_field ms ''ok'' de_success) (\<lambda>_.
     res_bind (de_field ms ''draft'' deserialize_nonempty_string) (\<lambda>draft.
     res_bind (de_field ms ''verdict'' de_evaluation_verdict) (\<lambda>d.
     Inr (ManagedEvaluate i draft d))))))"

definition managed_materialize_from :: "managed_output decoder" where
  "managed_materialize_from v =
     res_bind (de_untagged [''id'', ''ok'', ''draft''] v) (\<lambda>ms.
     res_bind (de_field ms ''id'' de_request_id) (\<lambda>i.
     res_bind (de_field ms ''ok'' de_success) (\<lambda>_.
     res_bind (de_field ms ''draft'' deserialize_nonempty_string) (\<lambda>draft.
     Inr (ManagedMaterialize i draft)))))"

text \<open>An untagged enum takes the first variant that decodes.\<close>

definition or_else :: "('a, 'e) result \<Rightarrow> ('a, 'e) result \<Rightarrow> ('a, 'e) result" where
  "or_else r s = (case r of Inr x \<Rightarrow> Inr x | Inl _ \<Rightarrow> s)"

definition managed_output_from :: "managed_output decoder" where
  "managed_output_from v =
     or_else (managed_execute_from v) (or_else (managed_evaluate_from v) (managed_materialize_from v))"

fun managed_output_valid :: "managed_output \<Rightarrow> bool" where
  "managed_output_valid (ManagedExecute i draft time_ns statistics control) \<longleftrightarrow>
     i \<noteq> [] \<and> draft \<noteq> [] \<and> is_object statistics
     \<and> (case time_ns of None \<Rightarrow> True | Some n \<Rightarrow> n \<le> MAX_SAFE_INTEGER)
     \<and> (case control of None \<Rightarrow> True | Some v \<Rightarrow> is_object v)"
| "managed_output_valid (ManagedEvaluate i draft d) \<longleftrightarrow> i \<noteq> [] \<and> draft \<noteq> []"
| "managed_output_valid (ManagedMaterialize i draft) \<longleftrightarrow> i \<noteq> [] \<and> draft \<noteq> []"

fun managed_output_id :: "managed_output \<Rightarrow> request_id" where
  "managed_output_id (ManagedExecute i _ _ _ _) = i"
| "managed_output_id (ManagedEvaluate i _ _) = i"
| "managed_output_id (ManagedMaterialize i _) = i"

fun managed_output_method :: "managed_output \<Rightarrow> string" where
  "managed_output_method (ManagedExecute _ _ _ _ _) = ''execute''"
| "managed_output_method (ManagedEvaluate _ _ _) = ''evaluate''"
| "managed_output_method (ManagedMaterialize _ _) = ''materialize''"

section \<open>Failures\<close>

datatype worker_failure_code =
    InvalidRequest | UnsupportedOperation | OperationFailed | InternalError | ResourceLimit

fun worker_failure_code_name :: "worker_failure_code \<Rightarrow> string" where
  "worker_failure_code_name InvalidRequest = ''invalid_request''"
| "worker_failure_code_name UnsupportedOperation = ''unsupported_operation''"
| "worker_failure_code_name OperationFailed = ''operation_failed''"
| "worker_failure_code_name InternalError = ''internal_error''"
| "worker_failure_code_name ResourceLimit = ''resource_limit''"

definition de_worker_failure_code :: "worker_failure_code decoder" where
  "de_worker_failure_code = de_enum worker_failure_code_name
     [InvalidRequest, UnsupportedOperation, OperationFailed, InternalError, ResourceLimit]"

record worker_failure =
  fl_code :: worker_failure_code
  fl_message :: string
  fl_details :: "json option"

definition worker_failure_new ::
    "worker_failure_code \<Rightarrow> string \<Rightarrow> json option \<Rightarrow> (worker_failure, metadata_error) result" where
  "worker_failure_new code message details =
     (if message = [] then Inl EmptyWorkerFailureMessage
      else if (case details of None \<Rightarrow> False | Some v \<Rightarrow> \<not> is_object v)
      then Inl InvalidWorkerFailureDetails
      else Inr \<lparr>fl_code = code, fl_message = message, fl_details = details\<rparr>)"

definition worker_failure_value :: "worker_failure \<Rightarrow> json" where
  "worker_failure_value f = ser_object
     ([(''code'', JString (worker_failure_code_name (fl_code f))),
      (''message'', JString (fl_message f))]
      @ ser_skip ''details'' id (fl_details f))"

definition de_worker_failure :: "worker_failure decoder" where
  "de_worker_failure v =
     res_bind (de_struct True [''code'', ''message'', ''details''] v) (\<lambda>ms.
     res_bind (de_field ms ''code'' de_worker_failure_code) (\<lambda>code.
     res_bind (de_field ms ''message'' deserialize_nonempty_string) (\<lambda>message.
     res_bind (de_default ms ''details'' deserialize_optional_object) (\<lambda>details.
     Inr \<lparr>fl_code = code, fl_message = message, fl_details = details\<rparr>))))"

definition worker_failure_valid :: "worker_failure \<Rightarrow> bool" where
  "worker_failure_valid f \<longleftrightarrow>
     fl_message f \<noteq> [] \<and> (case fl_details f of None \<Rightarrow> True | Some v \<Rightarrow> is_object v)"

record worker_failure_response =
  wf_id :: request_id
  wf_error :: worker_failure

definition worker_failure_response_value :: "worker_failure_response \<Rightarrow> json" where
  "worker_failure_response_value m = ser_object
     ([(''id'', JString (wf_id m)),
      (''ok'', JBool False),
      (''error'', worker_failure_value (wf_error m))])"

definition worker_failure_response_from :: "worker_failure_response decoder" where
  "worker_failure_response_from v =
     res_bind (de_struct True [''id'', ''ok'', ''error''] v) (\<lambda>ms.
     res_bind (de_field ms ''id'' de_request_id) (\<lambda>i.
     res_bind (de_field ms ''ok'' de_failure) (\<lambda>_.
     res_bind (de_field ms ''error'' de_worker_failure) (\<lambda>e.
     Inr \<lparr>wf_id = i, wf_error = e\<rparr>))))"

definition worker_failure_response_valid :: "worker_failure_response \<Rightarrow> bool" where
  "worker_failure_response_valid m \<longleftrightarrow> wf_id m \<noteq> []
     \<and> worker_failure_valid (wf_error m)"

section \<open>Streaming\<close>

record execute_stream_request =
  xsq_id :: request_id
  xsq_result_root :: string
  xsq_profile :: json

definition execute_stream_request_value :: "execute_stream_request \<Rightarrow> json" where
  "execute_stream_request_value m = ser_object
     ([(''id'', JString (xsq_id m)),
      (''method'', JString ''execute_stream''),
      (''result_root'', JString (xsq_result_root m)),
      (''profile'', xsq_profile m)])"

definition execute_stream_request_from :: "execute_stream_request decoder" where
  "execute_stream_request_from v =
     res_bind (de_struct True [''id'', ''method'', ''result_root'', ''profile''] v) (\<lambda>ms.
     res_bind (de_field ms ''id'' de_request_id) (\<lambda>i.
     res_bind (de_field ms ''method'' (de_method ''execute_stream'')) (\<lambda>_.
     res_bind (de_field ms ''result_root'' deserialize_nonempty_string) (\<lambda>result_root.
     res_bind (de_field ms ''profile'' deserialize_object) (\<lambda>p.
     Inr \<lparr>xsq_id = i, xsq_result_root = result_root, xsq_profile = p\<rparr>)))))"

definition execute_stream_request_valid :: "execute_stream_request \<Rightarrow> bool" where
  "execute_stream_request_valid m \<longleftrightarrow> xsq_id m \<noteq> []
     \<and> xsq_result_root m \<noteq> []
     \<and> is_object (xsq_profile m)"

record stream_checkpoint =
  sc_id :: request_id
  sc_sequence :: u64
  sc_check_index :: u64
  sc_work :: "(string \<times> u64) list"
  sc_terminal :: bool
  sc_manifest :: "string option"
  sc_draft :: "string option"

definition stream_checkpoint_value :: "stream_checkpoint \<Rightarrow> json" where
  "stream_checkpoint_value m = ser_object
     ([(''id'', JString (sc_id m)),
      (''event'', JString ''checkpoint''),
      (''sequence'', ser_u64 (sc_sequence m)),
      (''check_index'', ser_u64 (sc_check_index m)),
      (''work'', JObject (map (\<lambda>(k, n). (k, ser_u64 n)) (sc_work m))),
      (''terminal'', JBool (sc_terminal m))]
      @ ser_skip ''manifest'' JString (sc_manifest m)
      @ ser_skip ''draft'' JString (sc_draft m))"

definition unchecked_checkpoint_from :: "stream_checkpoint decoder" where
  "unchecked_checkpoint_from v =
     res_bind (de_struct True [''id'', ''event'', ''sequence'', ''check_index'', ''work'', ''terminal'',
         ''manifest'', ''draft''] v) (\<lambda>ms.
     res_bind (de_field ms ''id'' de_request_id) (\<lambda>i.
     res_bind (de_field ms ''event'' (de_method ''checkpoint'')) (\<lambda>_.
     res_bind (de_field ms ''sequence'' deserialize_safe_u64) (\<lambda>n.
     res_bind (de_field ms ''check_index'' deserialize_safe_u64) (\<lambda>k.
     res_bind (de_field ms ''work'' (de_map de_u64)) (\<lambda>work.
     res_bind (de_field ms ''terminal'' de_bool) (\<lambda>terminal.
     res_bind (de_default ms ''manifest'' optional_nonempty) (\<lambda>manifest.
     res_bind (de_default ms ''draft'' optional_nonempty) (\<lambda>draft.
     Inr \<lparr>sc_id = i, sc_sequence = n, sc_check_index = k, sc_work = work, sc_terminal = terminal,
         sc_manifest = manifest, sc_draft = draft\<rparr>)))))))))"

definition checkpoint_try_from :: "stream_checkpoint \<Rightarrow> (stream_checkpoint, string) result" where
  "checkpoint_try_from raw =
     (if (sc_manifest raw \<noteq> None) = (sc_draft raw \<noteq> None)
         \<or> list_ex (\<lambda>kn. snd kn > MAX_SAFE_INTEGER) (sc_work raw)
      then Inl ''checkpoint requires exactly one snapshot reference and safe work counters''
      else Inr raw)"

definition stream_checkpoint_from :: "stream_checkpoint decoder" where
  "stream_checkpoint_from v =
     res_bind (unchecked_checkpoint_from v) (\<lambda>raw. custom (checkpoint_try_from raw))"

definition stream_checkpoint_valid :: "stream_checkpoint \<Rightarrow> bool" where
  "stream_checkpoint_valid m \<longleftrightarrow> sc_id m \<noteq> []
     \<and> sc_sequence m \<le> MAX_SAFE_INTEGER
     \<and> sc_check_index m \<le> MAX_SAFE_INTEGER
     \<and> list_all (\<lambda>kn. snd kn \<le> MAX_SAFE_INTEGER) (sc_work m)
     \<and> sc_manifest m \<noteq> Some [] \<and> sc_draft m \<noteq> Some []
     \<and> (sc_manifest m = None) \<noteq> (sc_draft m = None)"

definition stream_checkpoint_new ::
    "request_id \<Rightarrow> u64 \<Rightarrow> u64 \<Rightarrow> (string \<times> u64) list \<Rightarrow> bool \<Rightarrow> string \<Rightarrow> stream_checkpoint" where
  "stream_checkpoint_new i n k work terminal manifest =
     \<lparr>sc_id = i, sc_sequence = n, sc_check_index = k, sc_work = work, sc_terminal = terminal,
      sc_manifest = Some manifest, sc_draft = None\<rparr>"

datatype stream_action = ContinueStream | StopStream

fun stream_action_name :: "stream_action \<Rightarrow> string" where
  "stream_action_name ContinueStream = ''continue''"
| "stream_action_name StopStream = ''stop''"

definition de_stream_action :: "stream_action decoder" where
  "de_stream_action = de_enum stream_action_name [ContinueStream, StopStream]"

record stream_decision =
  sd_id :: request_id
  sd_sequence :: u64
  sd_action :: stream_action
  sd_reason :: "string option"

definition stream_decision_value :: "stream_decision \<Rightarrow> json" where
  "stream_decision_value m = ser_object
     ([(''id'', JString (sd_id m)),
      (''method'', JString ''stream_decision''),
      (''sequence'', ser_u64 (sd_sequence m)),
      (''action'', JString (stream_action_name (sd_action m)))]
      @ ser_skip ''reason'' JString (sd_reason m))"

definition stream_decision_from :: "stream_decision decoder" where
  "stream_decision_from v =
     res_bind (de_struct True [''id'', ''method'', ''sequence'', ''action'', ''reason''] v) (\<lambda>ms.
     res_bind (de_field ms ''id'' de_request_id) (\<lambda>i.
     res_bind (de_field ms ''method'' (de_method ''stream_decision'')) (\<lambda>_.
     res_bind (de_field ms ''sequence'' deserialize_safe_u64) (\<lambda>n.
     res_bind (de_field ms ''action'' de_stream_action) (\<lambda>a.
     res_bind (de_default ms ''reason'' optional_nonempty) (\<lambda>why.
     Inr \<lparr>sd_id = i, sd_sequence = n, sd_action = a, sd_reason = why\<rparr>))))))"

definition stream_decision_valid :: "stream_decision \<Rightarrow> bool" where
  "stream_decision_valid m \<longleftrightarrow> sd_id m \<noteq> []
     \<and> sd_sequence m \<le> MAX_SAFE_INTEGER
     \<and> sd_reason m \<noteq> Some []"

record execute_stream_response =
  xsr_id :: request_id
  xsr_checkpoint_count :: u64

definition execute_stream_response_value :: "execute_stream_response \<Rightarrow> json" where
  "execute_stream_response_value m = ser_object
     ([(''id'', JString (xsr_id m)),
      (''ok'', JBool True),
      (''checkpoint_count'', ser_u64 (xsr_checkpoint_count m))])"

definition execute_stream_response_from :: "execute_stream_response decoder" where
  "execute_stream_response_from v =
     res_bind (de_struct True [''id'', ''ok'', ''checkpoint_count''] v) (\<lambda>ms.
     res_bind (de_field ms ''id'' de_request_id) (\<lambda>i.
     res_bind (de_field ms ''ok'' de_success) (\<lambda>_.
     res_bind (de_field ms ''checkpoint_count'' deserialize_safe_u64) (\<lambda>checkpoint_count.
     Inr \<lparr>xsr_id = i, xsr_checkpoint_count = checkpoint_count\<rparr>))))"

definition execute_stream_response_valid :: "execute_stream_response \<Rightarrow> bool" where
  "execute_stream_response_valid m \<longleftrightarrow> xsr_id m \<noteq> []
     \<and> xsr_checkpoint_count m \<le> MAX_SAFE_INTEGER"

end
