(* ===== verification/Wire_Laws.thy ===== *)
theory Wire_Laws
  imports Wire_Messages
begin

text \<open>
  The contract of a wire message: a valid message is read back from the value it is written as, and
  only valid messages are read.  The contract of a response adds its envelope.  Every message type of
  \<open>protocol/messages.rs\<close> satisfies them.
\<close>

section \<open>Decoding and encoding\<close>

datatype message_decode_error = InvalidMessage serde_error

definition decode_message :: "'m decoder \<Rightarrow> json \<Rightarrow> ('m, message_decode_error) result" where
  "decode_message from_value v = map_err InvalidMessage (from_value v)"

datatype message_encode_error = Serialization | EncodedLineTooLong nat

definition encode_message :: "externals \<Rightarrow> ('m \<Rightarrow> json) \<Rightarrow> 'm \<Rightarrow> (string, message_encode_error) result" where
  "encode_message X to_value m =
     (case canonicalizer X (to_value m) of
        None \<Rightarrow> Inl Serialization
      | Some encoded \<Rightarrow>
          if length encoded \<ge> MAX_LINE_BYTES then Inl (EncodedLineTooLong MAX_LINE_BYTES)
          else Inr (encoded @ [CHR 0x0A]))"

record response_envelope =
  env_id :: request_id
  env_ok :: bool

definition response_envelope_from :: "response_envelope decoder" where
  "response_envelope_from v =
     res_bind (de_struct False [''id'', ''ok''] v) (\<lambda>ms.
     res_bind (de_field ms ''id'' de_request_id) (\<lambda>i.
     res_bind (de_field ms ''ok'' de_bool) (\<lambda>ok.
     Inr \<lparr>env_id = i, env_ok = ok\<rparr>)))"

section \<open>The contracts\<close>

locale wire_message =
  fixes to_value :: "'m \<Rightarrow> json" and from_value :: "'m decoder" and valid :: "'m \<Rightarrow> bool"
  assumes read_back: "valid m \<Longrightarrow> from_value (to_value m) = Inr m"
    and read_valid: "from_value v = Inr m \<Longrightarrow> valid m"
begin

lemma decode_exact: "decode_message from_value (to_value m) = Inr m \<longleftrightarrow> valid m"
  using read_back read_valid by (auto simp: decode_message_def)

lemma decode_valid: "decode_message from_value v = Inr m \<Longrightarrow> valid m"
  using read_valid by (simp add: decode_message_def)

lemma to_value_inject: "valid m \<Longrightarrow> valid n \<Longrightarrow> to_value m = to_value n \<longleftrightarrow> m = n"
  using read_back by (metis Inr_inject)

lemma decode_again:
  "decode_message from_value v = Inr m \<Longrightarrow> decode_message from_value (to_value m) = Inr m"
  using decode_valid decode_exact by blast

end

locale wire_response = wire_message to_value from_value valid
  for to_value :: "'m \<Rightarrow> json" and from_value :: "'m decoder" and valid :: "'m \<Rightarrow> bool" +
  fixes answer_id :: "'m \<Rightarrow> request_id"
  assumes envelope: "valid m \<Longrightarrow> response_envelope_from (to_value m) = Inr \<lparr>env_id = answer_id m, env_ok = True\<rparr>"
    and same_id: "from_value v = Inr m \<Longrightarrow> response_envelope_from v = Inr e \<Longrightarrow> answer_id m = env_id e"

section \<open>Field decoders\<close>

lemma custom_Ok_iff [de_simps]: "custom r = Inr x \<longleftrightarrow> r = Inr x"
  by (simp add: custom_def)

lemma de_request_id_Ok_iff [de_simps]: "de_request_id v = Inr i \<longleftrightarrow> v = JString i \<and> i \<noteq> []"
  by (auto simp: de_request_id_def request_id_from_str_def de_simps split: if_splits)

lemma worker_identity_from_str_Ok: "worker_identity_from_str s = Inr t \<Longrightarrow> t = s"
  by (auto simp: worker_identity_from_str_def split: option.splits if_splits)

lemma de_worker_identity_Ok_iff [de_simps]:
  "de_worker_identity v = Inr w \<longleftrightarrow> v = JString w \<and> worker_identity_valid w"
  using worker_identity_from_str_Ok
  by (fastforce simp: de_worker_identity_def worker_identity_valid_def is_ok_iff de_simps)

lemma deserialize_nonempty_string_Ok_iff [de_simps]:
  "deserialize_nonempty_string v = Inr s \<longleftrightarrow> v = JString s \<and> s \<noteq> []"
  by (auto simp: deserialize_nonempty_string_def)

lemma deserialize_object_Ok_iff [de_simps]:
  "deserialize_object v = Inr w \<longleftrightarrow> w = v \<and> (\<exists>m. v = JObject m)"
  by (auto simp: deserialize_object_def)

lemma present_Ok_iff [de_simps]:
  "deserialize_present_object v = Inr x \<longleftrightarrow> x = Some v \<and> (\<exists>m. v = JObject m)"
  "deserialize_control v = Inr x \<longleftrightarrow> x = Some v \<and> (\<exists>m. v = JObject m)"
  "deserialize_problem_dir v = Inr y \<longleftrightarrow> (\<exists>s. v = JString s \<and> s \<noteq> [] \<and> y = Some s)"
  "optional_nonempty v = Inr y \<longleftrightarrow> (\<exists>s. v = JString s \<and> s \<noteq> [] \<and> y = Some s)"
  by (auto simp: deserialize_present_object_def deserialize_control_def deserialize_problem_dir_def
      optional_nonempty_def de_simps)

lemma safe_u64_Ok_iff [de_simps]:
  "deserialize_safe_u64 v = Inr n \<longleftrightarrow> de_u64 v = Inr n \<and> n \<le> MAX_SAFE_INTEGER"
  by (cases "de_u64 v") (simp_all add: deserialize_safe_u64_def del: res_bind_Ok_iff, linarith)

lemma required_safe_u64_option_Ok_iff [de_simps]:
  "deserialize_required_safe_u64_option v = Inr x \<longleftrightarrow>
     de_option de_u64 v = Inr x \<and> (case x of None \<Rightarrow> True | Some n \<Rightarrow> n \<le> MAX_SAFE_INTEGER)"
  by (cases "de_option de_u64 v")
    (auto simp: deserialize_required_safe_u64_option_def simp del: res_bind_Ok_iff split: option.split)

lemma de_option_u64_ser [de_simps]: "de_option de_u64 (ser_option ser_u64 x) = Inr x"
  by (rule de_option_ser) (simp add: ser_u64_def)

lemma optional_object_Ok_iff [de_simps]:
  "deserialize_optional_object v = Inr x \<longleftrightarrow>
     (v = JNull \<and> x = None) \<or> (x = Some v \<and> (\<exists>m. v = JObject m))"
  by (cases v) (auto simp: deserialize_optional_object_def de_option_def de_value_def simp del: res_bind_Ok_iff)

lemma de_success_Ok_iff [de_simps]: "de_success v = Inr u \<longleftrightarrow> v = JBool True"
  by (auto simp: de_success_def)

lemma de_failure_Ok_iff [de_simps]: "de_failure v = Inr u \<longleftrightarrow> v = JBool False"
  by (auto simp: de_failure_def)

lemma de_version_one_ser [de_simps]: "de_version_one (ser_u64 WIRE_PROTOCOL_VERSION) = Inr u"
  by (simp add: de_version_one_def de_u32_def WIRE_PROTOCOL_VERSION_def U32_MAX_def)

lemma de_method_ser [de_simps]: "de_method nm (JString nm) = Inr u"
  by (simp add: de_method_def de_enum_def)

text \<open>The variant names of each enum are distinct, so every variant is read back.\<close>

lemma enum_ser [de_simps]:
  "de_worker_role (JString (worker_role_name r)) = Inr r"
  "de_applicability_outcome (JString (applicability_outcome_name d)) = Inr d"
  "de_evaluation_verdict (JString (evaluation_verdict_name j)) = Inr j"
  "de_worker_failure_code (JString (worker_failure_code_name c)) = Inr c"
  "de_stream_action (JString (stream_action_name a)) = Inr a"
  "de_enum capability_name all_capabilities (JString (capability_name k)) = Inr k"
  by (cases r, simp_all add: de_worker_role_def de_enum_def)
    (cases d, simp_all add: de_applicability_outcome_def de_enum_def,
     cases j, simp_all add: de_evaluation_verdict_def de_enum_def,
     cases c, simp_all add: de_worker_failure_code_def de_enum_def,
     cases a, simp_all add: de_stream_action_def de_enum_def,
     cases k, simp_all add: all_capabilities_def de_enum_def)

end
