(* ===== verification/Wire_Codecs.thy ===== *)
theory Wire_Codecs
  imports Wire_Laws
begin

text \<open>
  Every message type of the protocol is an instance of the wire contracts.  The nested parts come
  first: package metadata, capability and version lists, manifest references and failures.
\<close>

section \<open>Nested parts\<close>

lemma btree_set_set [simp]: "set (btree_set xs) = set xs"
  by (simp add: btree_set_def)

lemma btree_set_sorted [simp]: "sorted_wrt (<) (btree_set xs)"
  by (simp add: btree_set_def strict_sorted_iff)

lemma btree_set_id: "sorted_wrt (<) xs \<Longrightarrow> btree_set xs = xs"
  by (simp add: btree_set_def strict_sorted_iff sorted_sort_id distinct_remdups_id)

lemma btree_set_length: "length (btree_set xs) = length xs \<longleftrightarrow> distinct xs"
  by (simp add: btree_set_def)

lemma de_sdk_metadata_ser: "sdk_valid s \<Longrightarrow> de_sdk_metadata (sdk_metadata_value s) = Inr s"
  by (simp add: de_sdk_metadata_def sdk_metadata_value_def de_struct_ser sdk_valid_def
      sdk_metadata_new_def de_simps)

lemma de_sdk_metadata_valid: "de_sdk_metadata v = Inr s \<Longrightarrow> sdk_valid s"
  by (auto simp: de_sdk_metadata_def sdk_metadata_new_def sdk_valid_def de_simps split: if_splits)

lemma de_option_sdk_ser [de_simps]:
  "(case x of None \<Rightarrow> True | Some s \<Rightarrow> sdk_valid s)
   \<Longrightarrow> de_option de_sdk_metadata (ser_option sdk_metadata_value x) = Inr x"
  by (rule de_option_ser) (simp_all add: de_sdk_metadata_ser, simp add: sdk_metadata_value_def ser_object_def)

lemma de_option_sdk_valid:
  "de_option de_sdk_metadata v = Inr x \<Longrightarrow> case x of None \<Rightarrow> True | Some s \<Rightarrow> sdk_valid s"
  using de_sdk_metadata_valid by (auto simp: de_option_Ok_iff)

lemma de_capabilities_ser [de_simps]:
  "sorted_wrt (<) cs \<Longrightarrow> de_capabilities (JArray (map (\<lambda>c. JString (capability_name c)) cs)) = Inr cs"
  by (simp add: de_capabilities_def collect_results_inverse de_simps btree_set_id Let_def)

lemma de_capabilities_valid: "de_capabilities v = Inr cs \<Longrightarrow> sorted_wrt (<) cs"
  by (auto simp: de_capabilities_def Let_def split: if_splits)

lemma de_protocol_offers_ser [de_simps]:
  "offers_valid vs \<Longrightarrow> de_protocol_offers (JArray (map ser_u64 vs)) = Inr vs"
  by (simp add: de_protocol_offers_def collect_results_inverse de_u32_ser offers_valid_def
      list_all_iff btree_set_length)

lemma de_protocol_offers_valid: "de_protocol_offers v = Inr vs \<Longrightarrow> offers_valid vs"
  by (auto simp: de_protocol_offers_def offers_valid_def de_vec_Ok_iff btree_set_length de_u32_def
      split: if_splits elim!: collect_results_all)

lemma de_manifest_reference_ser [de_simps]:
  "m \<noteq> [] \<Longrightarrow> de_manifest_reference (manifest_reference_value m) = Inr m"
  by (simp add: de_manifest_reference_def manifest_reference_value_def de_struct_ser de_simps)

lemma de_manifest_reference_valid: "de_manifest_reference v = Inr m \<Longrightarrow> m \<noteq> []"
  by (auto simp: de_manifest_reference_def de_simps)

lemma de_worker_failure_ser [de_simps]:
  "worker_failure_valid f \<Longrightarrow> de_worker_failure (worker_failure_value f) = Inr f"
  by (cases "fl_details f")
    (auto simp: de_worker_failure_def worker_failure_value_def de_struct_ser ser_skip_def
      worker_failure_valid_def de_simps)

lemma de_worker_failure_valid: "de_worker_failure v = Inr f \<Longrightarrow> worker_failure_valid f"
  by (auto simp: de_worker_failure_def worker_failure_valid_def de_simps split: option.splits)

lemmas part_valid = de_option_sdk_valid de_capabilities_valid de_protocol_offers_valid
  de_manifest_reference_valid de_worker_failure_valid

section \<open>Requests\<close>

interpretation hello_request: wire_message hello_request_value hello_request_from hello_request_valid
  by unfold_locales
    (auto simp: hello_request_value_def hello_request_from_def hello_request_valid_def
      de_struct_ser de_simps dest: part_valid)

interpretation materialize_request: wire_message materialize_request_value materialize_request_from materialize_request_valid
  by unfold_locales
    (auto simp: materialize_request_value_def materialize_request_from_def materialize_request_valid_def
      de_struct_ser de_simps dest: part_valid)

interpretation check_applicability_request: wire_message check_applicability_request_value check_applicability_request_from check_applicability_request_valid
  by unfold_locales
    (auto simp: check_applicability_request_value_def check_applicability_request_from_def check_applicability_request_valid_def
      de_struct_ser ser_skip_def de_simps dest: part_valid split: option.splits)

interpretation prepare_request: wire_message prepare_request_value prepare_request_from prepare_request_valid
  by unfold_locales
    (auto simp: prepare_request_value_def prepare_request_from_def prepare_request_valid_def
      de_struct_ser ser_skip_def de_simps dest: part_valid split: option.splits)

interpretation execute_request: wire_message execute_request_value execute_request_from execute_request_valid
  by unfold_locales
    (auto simp: execute_request_value_def execute_request_from_def execute_request_valid_def
      de_struct_ser ser_skip_def de_simps dest: part_valid split: option.splits)

interpretation execute_buffered_request: wire_message execute_buffered_request_value execute_buffered_request_from execute_buffered_request_valid
  by unfold_locales
    (auto simp: execute_buffered_request_value_def execute_buffered_request_from_def execute_buffered_request_valid_def
      de_struct_ser de_simps dest: part_valid)

interpretation reset_request: wire_message reset_request_value reset_request_from reset_request_valid
  by unfold_locales
    (auto simp: reset_request_value_def reset_request_from_def reset_request_valid_def
      de_struct_ser de_simps dest: part_valid)

interpretation evaluate_request: wire_message evaluate_request_value evaluate_request_from evaluate_request_valid
  by unfold_locales
    (auto simp: evaluate_request_value_def evaluate_request_from_def evaluate_request_valid_def
      de_struct_ser ser_skip_def de_simps dest: part_valid split: option.splits)

interpretation shutdown_request: wire_message shutdown_request_value shutdown_request_from shutdown_request_valid
  by unfold_locales
    (auto simp: shutdown_request_value_def shutdown_request_from_def shutdown_request_valid_def
      de_struct_ser de_simps dest: part_valid)

interpretation worker_failure_response: wire_message worker_failure_response_value worker_failure_response_from worker_failure_response_valid
  by unfold_locales
    (auto simp: worker_failure_response_value_def worker_failure_response_from_def worker_failure_response_valid_def
      de_struct_ser de_simps dest: part_valid)

interpretation prepare_problem_request: wire_message prepare_problem_request_value prepare_problem_request_from prepare_problem_request_valid
  by unfold_locales
    (auto simp: prepare_problem_request_value_def prepare_problem_request_from_def prepare_problem_request_valid_def
      de_struct_ser de_simps dest: part_valid)

interpretation execute_stream_request: wire_message execute_stream_request_value execute_stream_request_from execute_stream_request_valid
  by unfold_locales
    (auto simp: execute_stream_request_value_def execute_stream_request_from_def execute_stream_request_valid_def
      de_struct_ser de_simps dest: part_valid)

interpretation stream_decision: wire_message stream_decision_value stream_decision_from stream_decision_valid
  by unfold_locales
    (auto simp: stream_decision_value_def stream_decision_from_def stream_decision_valid_def
      de_struct_ser ser_skip_def de_simps dest: part_valid split: option.splits)

section \<open>Responses\<close>

text \<open>
  The envelope of a written response, and of a value a response was read from.  By position the
  envelope accepts at most two values, the identifier and the outcome, so that a response whose first
  fields are these two reads the same identifier.
\<close>

lemma envelope_ser:
  assumes "distinct (map fst members)" "map_of members ''id'' = Some (JString i)" "i \<noteq> []"
    and "map_of members ''ok'' = Some (JBool b)"
  shows "response_envelope_from (ser_object members) = Inr \<lparr>env_id = i, env_ok = b\<rparr>"
proof -
  have "de_struct False [''id'', ''ok''] (ser_object members) = Inr (map_of members)"
    using map_of_ord_extend [OF assms(1), of "[]"] by (simp add: ser_object_def)
  with assms show ?thesis by (simp add: response_envelope_from_def de_field_def de_request_id_def
      request_id_from_str_def custom_def)
qed

lemma envelope_same_id:
  assumes "de_struct True (''id'' # ''ok'' # names) v = Inr ms" "ms ''id'' = Some (JString i)"
    and "response_envelope_from v = Inr e"
  shows "i = env_id e"
proof (cases v)
  case (JArray vs)
  with assms show ?thesis by (cases vs) (auto simp: response_envelope_from_def de_simps split: if_splits)
qed (use assms in \<open>auto simp: response_envelope_from_def de_simps split: if_splits\<close>)

lemmas envelope_laws = response_envelope_from_def de_struct_ser de_simps

interpretation hello_response: wire_message hello_response_value hello_response_from hello_response_valid
  by unfold_locales
    (auto simp: hello_response_value_def hello_response_from_def hello_response_valid_def
      de_struct_ser de_simps dest: part_valid)

interpretation hello_response_answer: wire_response hello_response_value hello_response_from hello_response_valid hr_id
  by unfold_locales
    (auto simp: hello_response_value_def hello_response_from_def hello_response_valid_def de_simps
      intro!: envelope_ser dest: envelope_same_id)

interpretation check_applicability_response: wire_message check_applicability_response_value check_applicability_response_from check_applicability_response_valid
  by unfold_locales
    (auto simp: check_applicability_response_value_def check_applicability_response_from_def check_applicability_response_valid_def
      de_struct_ser ser_skip_def de_simps dest: part_valid split: option.splits)

interpretation check_applicability_response_answer: wire_response check_applicability_response_value check_applicability_response_from check_applicability_response_valid car_id
  by unfold_locales
    (auto simp: check_applicability_response_value_def check_applicability_response_from_def check_applicability_response_valid_def de_simps
      ser_skip_def intro!: envelope_ser dest: envelope_same_id split: option.splits)

interpretation execute_buffered_response: wire_message execute_buffered_response_value execute_buffered_response_from execute_buffered_response_valid
  by unfold_locales
    (auto simp: execute_buffered_response_value_def execute_buffered_response_from_def execute_buffered_response_valid_def
      de_struct_ser de_simps dest: part_valid)

interpretation execute_buffered_response_answer: wire_response execute_buffered_response_value execute_buffered_response_from execute_buffered_response_valid xbr_id
  by unfold_locales
    (auto simp: execute_buffered_response_value_def execute_buffered_response_from_def execute_buffered_response_valid_def de_simps
      intro!: envelope_ser dest: envelope_same_id)

interpretation materialize_response: wire_message materialize_response_value materialize_response_from materialize_response_valid
  by unfold_locales
    (auto simp: materialize_response_value_def materialize_response_from_def materialize_response_valid_def
      de_struct_ser de_simps dest: part_valid)

interpretation materialize_response_answer: wire_response materialize_response_value materialize_response_from materialize_response_valid mr_id
  by unfold_locales
    (auto simp: materialize_response_value_def materialize_response_from_def materialize_response_valid_def de_simps
      intro!: envelope_ser dest: envelope_same_id)

interpretation acknowledgement: wire_message acknowledgement_value acknowledgement_from acknowledgement_valid
  by unfold_locales
    (auto simp: acknowledgement_value_def acknowledgement_from_def acknowledgement_valid_def
      de_struct_ser de_simps dest: part_valid)

interpretation acknowledgement_answer: wire_response acknowledgement_value acknowledgement_from acknowledgement_valid ack_id
  by unfold_locales
    (auto simp: acknowledgement_value_def acknowledgement_from_def acknowledgement_valid_def de_simps
      intro!: envelope_ser dest: envelope_same_id)

interpretation evaluate_response: wire_message evaluate_response_value evaluate_response_from evaluate_response_valid
  by unfold_locales
    (auto simp: evaluate_response_value_def evaluate_response_from_def evaluate_response_valid_def
      de_struct_ser de_simps dest: part_valid)

interpretation evaluate_response_answer: wire_response evaluate_response_value evaluate_response_from evaluate_response_valid er_id
  by unfold_locales
    (auto simp: evaluate_response_value_def evaluate_response_from_def evaluate_response_valid_def de_simps
      intro!: envelope_ser dest: envelope_same_id)

interpretation execute_response: wire_message execute_response_value execute_response_from execute_response_valid
proof unfold_locales
  show "execute_response_from (execute_response_value m) = Inr m" if "execute_response_valid m" for m
    using that by (cases "xr_observation_control m")
      (auto simp: execute_response_value_def execute_response_from_def execute_response_valid_def
        de_struct_ser ser_skip_def de_simps)
  show "execute_response_valid m" if "execute_response_from v = Inr m" for v m
    using that by (auto simp: execute_response_from_def execute_response_valid_def de_simps dest: part_valid)
qed

text \<open>By position the identifier is the second field: then the outcome lies beyond the envelope.\<close>

lemma execute_response_same_id:
  assumes "execute_response_from v = Inr m" "response_envelope_from v = Inr e"
  shows "xr_id m = env_id e"
proof (cases v)
  case (JArray vs)
  with assms(2) have "length vs \<le> 2"
    by (auto simp: response_envelope_from_def split: if_splits)
  then have "map_of (zip [''observation_control'', ''id'', ''ok'', ''implementation_time_ns'', ''result'', ''statistics''] vs)
      ''ok'' = None"
    by (cases vs rule: remdups_adj.cases) auto
  with assms(1) JArray show ?thesis by (auto simp: execute_response_from_def split: if_splits)
next
  case (JObject ms)
  with assms show ?thesis
    by (auto simp: execute_response_from_def response_envelope_from_def de_simps split: if_splits)
qed (use assms in \<open>auto simp: execute_response_from_def\<close>)

interpretation execute_response_answer: wire_response execute_response_value execute_response_from execute_response_valid xr_id
proof unfold_locales
  show "response_envelope_from (execute_response_value m) = Inr \<lparr>env_id = xr_id m, env_ok = True\<rparr>"
    if "execute_response_valid m" for m
    using that unfolding execute_response_value_def
    by (cases "xr_observation_control m") (auto simp: execute_response_valid_def ser_skip_def intro!: envelope_ser)
  show "xr_id m = env_id e" if "execute_response_from v = Inr m" "response_envelope_from v = Inr e" for v m e
    using that by (rule execute_response_same_id)
qed

interpretation execute_stream_response: wire_message execute_stream_response_value execute_stream_response_from execute_stream_response_valid
  by unfold_locales
    (auto simp: execute_stream_response_value_def execute_stream_response_from_def execute_stream_response_valid_def
      de_struct_ser de_simps dest: part_valid)

interpretation execute_stream_response_answer: wire_response execute_stream_response_value execute_stream_response_from execute_stream_response_valid xsr_id
  by unfold_locales
    (auto simp: execute_stream_response_value_def execute_stream_response_from_def execute_stream_response_valid_def de_simps
      intro!: envelope_ser dest: envelope_same_id)

text \<open>
  The three variants of a managed output are told apart by their fields, so the order in which they
  are tried does not matter to a written one.
\<close>

lemma or_else_Ok: "or_else r s = Inr x \<longleftrightarrow> r = Inr x \<or> (\<exists>e. r = Inl e) \<and> s = Inr x"
  by (cases r) (auto simp: or_else_def)

lemma de_untagged_missing:
  "distinct (map fst members) \<Longrightarrow> de_untagged names (ser_object members) = Inr ms \<Longrightarrow> ms = map_of members"
  using map_of_ord_extend [of members "[]"] by (auto simp: ser_object_def split: if_splits)

interpretation managed_output: wire_message managed_output_value managed_output_from managed_output_valid
proof unfold_locales
  show "managed_output_from (managed_output_value m) = Inr m" if "managed_output_valid m" for m
  proof (cases m)
    case (ManagedExecute i draft time_ns statistics control)
    with that have "managed_execute_from (managed_output_value m) = Inr m"
      by (cases control) (auto simp: managed_execute_from_def de_struct_ser ser_skip_def de_simps)
    then show ?thesis by (simp add: managed_output_from_def or_else_def)
  next
    case (ManagedEvaluate i draft d)
    with that have "managed_evaluate_from (managed_output_value m) = Inr m"
      by (auto simp: managed_evaluate_from_def de_struct_ser de_simps)
    moreover from ManagedEvaluate have "managed_execute_from (managed_output_value m) \<noteq> Inr x" for x
      by (auto simp: managed_execute_from_def dest!: de_untagged_missing [rotated])
    ultimately show ?thesis
      by (cases "managed_execute_from (managed_output_value m)") (auto simp: managed_output_from_def or_else_def)
  next
    case (ManagedMaterialize i draft)
    with that have "managed_materialize_from (managed_output_value m) = Inr m"
      by (auto simp: managed_materialize_from_def de_struct_ser de_simps)
    moreover from ManagedMaterialize have "managed_execute_from (managed_output_value m) \<noteq> Inr x"
        "managed_evaluate_from (managed_output_value m) \<noteq> Inr x" for x
      by (auto simp: managed_execute_from_def managed_evaluate_from_def dest!: de_untagged_missing [rotated])
    ultimately show ?thesis
      by (cases "managed_execute_from (managed_output_value m)"; cases "managed_evaluate_from (managed_output_value m)")
        (auto simp: managed_output_from_def or_else_def)
  qed
  show "managed_output_valid m" if "managed_output_from v = Inr m" for v m
    using that by (auto simp: managed_output_from_def or_else_Ok managed_execute_from_def
        managed_evaluate_from_def managed_materialize_from_def de_simps)
qed

lemma managed_output_same_id:
  assumes "managed_output_from v = Inr m" "response_envelope_from v = Inr e"
  shows "managed_output_id m = env_id e"
proof (cases v)
  case (JObject ms)
  with assms show ?thesis
    by (auto simp: managed_output_from_def or_else_Ok managed_execute_from_def managed_evaluate_from_def
        managed_materialize_from_def response_envelope_from_def de_simps split: if_splits)
qed (use assms in \<open>auto simp: managed_output_from_def or_else_Ok managed_execute_from_def
    managed_evaluate_from_def managed_materialize_from_def\<close>)

interpretation managed_output_answer:
  wire_response managed_output_value managed_output_from managed_output_valid managed_output_id
proof unfold_locales
  show "response_envelope_from (managed_output_value m) = Inr \<lparr>env_id = managed_output_id m, env_ok = True\<rparr>"
    if "managed_output_valid m" for m
    using that by (cases m) (auto simp: ser_skip_def intro!: envelope_ser split: option.split)
  show "managed_output_id m = env_id e" if "managed_output_from v = Inr m" "response_envelope_from v = Inr e" for v m e
    using that by (rule managed_output_same_id)
qed

section \<open>Checkpoints\<close>

lemma de_work_ser: "de_map de_u64 (JObject (map (\<lambda>(k, n). (k, ser_u64 n)) work)) = Inr work"
proof -
  have "(\<lambda>(k, v). res_bind (de_u64 v) (\<lambda>x. Inr (k, x))) ((\<lambda>(k, n). (k, ser_u64 n)) kn)
      = (Inr kn :: (string \<times> nat, serde_error) result)" for kn
    by (cases kn) simp
  then show ?thesis by (simp add: collect_results_inverse)
qed

interpretation stream_checkpoint: wire_message stream_checkpoint_value stream_checkpoint_from stream_checkpoint_valid
proof unfold_locales
  show "stream_checkpoint_from (stream_checkpoint_value m) = Inr m" if "stream_checkpoint_valid m" for m
  proof -
    have "unchecked_checkpoint_from (stream_checkpoint_value m) = Inr m"
      using that by (cases "sc_manifest m"; cases "sc_draft m")
        (auto simp: unchecked_checkpoint_from_def stream_checkpoint_value_def stream_checkpoint_valid_def
          de_struct_ser ser_skip_def de_work_ser de_simps simp del: de_map.simps)
    with that show ?thesis
      by (auto simp: stream_checkpoint_from_def checkpoint_try_from_def stream_checkpoint_valid_def
          list_ex_iff list_all_iff custom_def not_less)
  qed
  show "stream_checkpoint_valid m" if "stream_checkpoint_from v = Inr m" for v m
    using that by (auto simp: stream_checkpoint_from_def checkpoint_try_from_def unchecked_checkpoint_from_def
        stream_checkpoint_valid_def list_ex_iff list_all_iff not_less de_simps split: if_splits)
qed

end
