(* ===== verification/Wire_Session.thy ===== *)
theory Wire_Session
  imports Wire_Codecs
begin

text \<open>
  The session rules of \<open>protocol/messages.rs\<close>: the serial request tracker, the handshake, and the
  correlated decoding of operation responses.
\<close>

section \<open>Requests\<close>

record request_tracker =
  rt_next_id :: u64
  rt_pending :: "request_id option"

datatype request_tracker_error =
    RequestAlreadyPending request_id
  | RequestIdExhausted
  | TrackerMismatchedRequestId request_id request_id
  | TrackerExtraResponse request_id

definition tracker_new :: request_tracker where
  "tracker_new = \<lparr>rt_next_id = 0, rt_pending = None\<rparr>"

definition begin_request ::
    "request_tracker \<Rightarrow> (request_id, request_tracker_error) result \<times> request_tracker" where
  "begin_request t =
     (case rt_pending t of
        Some i \<Rightarrow> (Inl (RequestAlreadyPending i), t)
      | None \<Rightarrow>
          (case checked_add (rt_next_id t) 1 of
             None \<Rightarrow> (Inl RequestIdExhausted, t)
           | Some n \<Rightarrow>
               let i = dec_string (rt_next_id t)
               in (Inr i, \<lparr>rt_next_id = n, rt_pending = Some i\<rparr>)))"

definition complete_response ::
    "request_tracker \<Rightarrow> request_id \<Rightarrow> (unit, request_tracker_error) result \<times> request_tracker" where
  "complete_response t response_id =
     (case rt_pending t of
        None \<Rightarrow> (Inl (TrackerExtraResponse response_id), t)
      | Some expected \<Rightarrow>
          if expected \<noteq> response_id then (Inl (TrackerMismatchedRequestId expected response_id), t)
          else (Inr (), t\<lparr>rt_pending := None\<rparr>))"

section \<open>The handshake\<close>

datatype handshake_error =
    NoCommonProtocol "nat list" "nat list"
  | HandshakeMismatchedRequestId request_id request_id
  | ProtocolMismatch nat nat
  | WorkerIdentityMismatch worker_identity worker_identity
  | MissingCapability capability
  | ReservedCapability capability
  | CapabilityRoleMismatch worker_role capability

record negotiated_session =
  ns_role :: worker_role
  ns_protocol :: nat
  ns_worker_id :: worker_identity
  ns_sdk :: "sdk_metadata option"
  ns_selected_capabilities :: "capability list"
  ns_reported_capabilities :: "capability list"

definition negotiate_protocol :: "nat list \<Rightarrow> (nat, handshake_error) result" where
  "negotiate_protocol offered =
     (if WIRE_PROTOCOL_VERSION \<in> set offered then Inr WIRE_PROTOCOL_VERSION
      else Inl (NoCommonProtocol offered [WIRE_PROTOCOL_VERSION]))"

definition hello_response_protocol :: "hello_response \<Rightarrow> nat" where
  "hello_response_protocol m = WIRE_PROTOCOL_VERSION"

text \<open>The predicates of the two \<open>find\<close> calls over the selected capabilities.\<close>

fun wrong_role :: "worker_role \<Rightarrow> capability \<Rightarrow> bool" where
  "wrong_role r ManagedOutputsCap = False"
| "wrong_role r ProblemPreparationCap = (\<not> (r = ImplementationRole \<or> r = ProblemEvaluator))"
| "wrong_role r ProblemSemanticsCap = (r \<noteq> ProblemEvaluator)"
| "wrong_role r c = (r \<noteq> ImplementationRole)"

definition reserved :: "capability \<Rightarrow> bool" where
  "reserved c \<longleftrightarrow> \<not> (c = OneShotCap \<or> c = ApplicabilityCap \<or> c = ProblemSemanticsCap
     \<or> c = ProblemPreparationCap \<or> c = BufferedProfileCap \<or> c = FreshSequenceCap
     \<or> c = ManagedOutputsCap \<or> c = StreamingProfileCap)"

definition validate_hello_response ::
    "hello_request \<Rightarrow> hello_response \<Rightarrow> capability list \<Rightarrow> (negotiated_session, handshake_error) result" where
  "validate_hello_response request response selected =
     (if hr_id response \<noteq> hq_id request
      then Inl (HandshakeMismatchedRequestId (hq_id request) (hr_id response))
      else res_bind (negotiate_protocol (hq_protocols request)) (\<lambda>protocol.
        if hello_response_protocol response \<noteq> protocol
        then Inl (ProtocolMismatch protocol (hello_response_protocol response))
        else if hr_worker_id response \<noteq> hq_worker_id request
        then Inl (WorkerIdentityMismatch (hq_worker_id request) (hr_worker_id response))
        else case find (wrong_role (hq_role request)) selected of
          Some c \<Rightarrow> Inl (CapabilityRoleMismatch (hq_role request) c)
        | None \<Rightarrow> (case find reserved selected of
            Some c \<Rightarrow> Inl (ReservedCapability c)
          | None \<Rightarrow>
              let chosen = btree_set selected
              in case find (\<lambda>c. c \<notin> set (hr_capabilities response)) chosen of
                Some c \<Rightarrow> Inl (MissingCapability c)
              | None \<Rightarrow> Inr \<lparr>ns_role = hq_role request, ns_protocol = protocol,
                  ns_worker_id = hr_worker_id response, ns_sdk = hr_sdk response,
                  ns_selected_capabilities = chosen,
                  ns_reported_capabilities = hr_capabilities response\<rparr>)))"

section \<open>Operation responses\<close>

datatype 'r operation_response = OperationSuccess 'r | OperationFailure worker_failure

text \<open>\<open>DebugAssertion\<close> is the panic of the \<open>debug_assert_eq!\<close> on the two identifiers.\<close>

datatype operation_response_error =
    MessageError message_decode_error
  | RequestError request_tracker_error
  | DebugAssertion

definition decode_operation_response ::
    "'r decoder \<Rightarrow> ('r \<Rightarrow> request_id) \<Rightarrow> json \<Rightarrow> request_tracker
     \<Rightarrow> ('r operation_response, operation_response_error) result \<times> request_tracker" where
  "decode_operation_response from_value answer_id v requests =
     (case response_envelope_from v of
        Inl e \<Rightarrow> (Inl (MessageError (InvalidMessage e)), requests)
      | Inr envelope \<Rightarrow>
          (case complete_response requests (env_id envelope) of
             (Inl e, t) \<Rightarrow> (Inl (RequestError e), t)
           | (Inr _, t) \<Rightarrow>
               if env_ok envelope then
                 (case decode_message from_value v of
                    Inl e \<Rightarrow> (Inl (MessageError e), t)
                  | Inr response \<Rightarrow>
                      if answer_id response \<noteq> env_id envelope then (Inl DebugAssertion, t)
                      else (Inr (OperationSuccess response), t))
               else
                 (case decode_message worker_failure_response_from v of
                    Inl e \<Rightarrow> (Inl (MessageError e), t)
                  | Inr response \<Rightarrow> (Inr (OperationFailure (wf_error response)), t))))"

section \<open>Serial requests\<close>

text \<open>A client of the tracker: any sequence of the two calls, with the identifiers issued and answered.\<close>

datatype tracker_call = BeginCall | CompleteCall request_id

fun tracker_run ::
    "tracker_call list \<Rightarrow> request_tracker \<Rightarrow> request_id list \<times> request_id list \<times> request_tracker" where
  "tracker_run [] t = ([], [], t)"
| "tracker_run (BeginCall # calls) t =
     (case begin_request t of (r, t') \<Rightarrow>
        (case tracker_run calls t' of (issued, answered, t'') \<Rightarrow>
           ((case r of Inr i \<Rightarrow> i # issued | Inl _ \<Rightarrow> issued), answered, t'')))"
| "tracker_run (CompleteCall i # calls) t =
     (case complete_response t i of (r, t') \<Rightarrow>
        (case tracker_run calls t' of (issued, answered, t'') \<Rightarrow>
           (issued, (case r of Inr _ \<Rightarrow> i # answered | Inl _ \<Rightarrow> answered), t'')))"

definition tracker_wf :: "request_tracker \<Rightarrow> bool" where
  "tracker_wf t \<longleftrightarrow> rt_next_id t \<le> U64_MAX
     \<and> (case rt_pending t of None \<Rightarrow> True | Some i \<Rightarrow> 0 < rt_next_id t \<and> i = dec_string (rt_next_id t - 1))"

text \<open>The number of requests that have been answered.\<close>

definition tracker_answered :: "request_tracker \<Rightarrow> nat" where
  "tracker_answered t = (case rt_pending t of None \<Rightarrow> rt_next_id t | Some _ \<Rightarrow> rt_next_id t - 1)"

lemma begin_request_cases:
  assumes "tracker_wf t" "begin_request t = (r, t')"
  shows "tracker_wf t' \<and> tracker_answered t' = tracker_answered t
    \<and> (case r of
         Inl e \<Rightarrow> t' = t
       | Inr i \<Rightarrow> i = dec_string (rt_next_id t) \<and> rt_next_id t' = Suc (rt_next_id t))"
  using assms by (auto simp: begin_request_def tracker_wf_def tracker_answered_def checked_add_def Let_def
      split: option.splits if_splits)

lemma complete_response_cases:
  assumes "tracker_wf t" "complete_response t i = (r, t')"
  shows "tracker_wf t' \<and> rt_next_id t' = rt_next_id t
    \<and> (case r of
         Inl e \<Rightarrow> t' = t
       | Inr _ \<Rightarrow> i = dec_string (tracker_answered t) \<and> tracker_answered t' = Suc (tracker_answered t))"
  using assms by (auto simp: complete_response_def tracker_wf_def tracker_answered_def
      split: option.splits if_splits)

lemma tracker_run_trace:
  assumes "tracker_wf t" "tracker_run calls t = (issued, answered, t')"
  shows "tracker_wf t' \<and> rt_next_id t \<le> rt_next_id t' \<and> tracker_answered t \<le> tracker_answered t'
    \<and> issued = map dec_string [rt_next_id t..<rt_next_id t']
    \<and> answered = map dec_string [tracker_answered t..<tracker_answered t']"
  using assms
proof (induction calls t arbitrary: issued answered rule: tracker_run.induct)
  case (2 calls t)
  obtain r u where r: "begin_request t = (r, u)" by (cases "begin_request t")
  obtain iss ans where run: "tracker_run calls u = (iss, ans, t')"
    using "2.prems"(2) r by (auto split: prod.splits)
  note step = begin_request_cases [OF "2.prems"(1) r]
  from "2.IH" [OF r [symmetric]] step run have IH: "tracker_wf t'" "rt_next_id u \<le> rt_next_id t'"
      "tracker_answered u \<le> tracker_answered t'" "iss = map dec_string [rt_next_id u..<rt_next_id t']"
      "ans = map dec_string [tracker_answered u..<tracker_answered t']"
    by auto
  show ?case using IH step "2.prems"(2) r run
    by (cases r) (auto simp: upt_conv_Cons)
next
  case (3 i calls t)
  obtain r u where r: "complete_response t i = (r, u)" by (cases "complete_response t i")
  obtain iss ans where run: "tracker_run calls u = (iss, ans, t')"
    using "3.prems"(2) r by (auto split: prod.splits)
  note step = complete_response_cases [OF "3.prems"(1) r]
  from "3.IH" [OF r [symmetric]] step run have IH: "tracker_wf t'" "rt_next_id u \<le> rt_next_id t'"
      "tracker_answered u \<le> tracker_answered t'" "iss = map dec_string [rt_next_id u..<rt_next_id t']"
      "ans = map dec_string [tracker_answered u..<tracker_answered t']"
    by auto
  show ?case using IH step "3.prems"(2) r run
    by (cases r) (auto simp: upt_conv_Cons)
qed auto

section \<open>Responses to operations\<close>

context wire_response
begin

lemma no_debug_panic: "fst (decode_operation_response from_value answer_id v requests) \<noteq> Inl DebugAssertion"
  using same_id
  by (auto simp: decode_operation_response_def decode_message_def complete_response_def
      split: sum.splits option.splits if_splits)

lemma answer_accepted:
  assumes "valid m" "rt_pending requests = Some (answer_id m)"
  shows "decode_operation_response from_value answer_id (to_value m) requests
    = (Inr (OperationSuccess m), requests\<lparr>rt_pending := None\<rparr>)"
  using envelope [OF assms(1)] read_back [OF assms(1)] assms(2)
  by (simp add: decode_operation_response_def decode_message_def complete_response_def)

end

lemma envelope_failure:
  "worker_failure_response_valid m
   \<Longrightarrow> response_envelope_from (worker_failure_response_value m) = Inr \<lparr>env_id = wf_id m, env_ok = False\<rparr>"
  by (auto simp: worker_failure_response_value_def worker_failure_response_valid_def intro!: envelope_ser)

lemma failure_accepted:
  assumes "worker_failure_response_valid m" "rt_pending requests = Some (wf_id m)"
  shows "decode_operation_response from_value answer_id (worker_failure_response_value m) requests
    = (Inr (OperationFailure (wf_error m)), requests\<lparr>rt_pending := None\<rparr>)"
  using envelope_failure [OF assms(1)] worker_failure_response.read_back [OF assms(1)] assms(2)
  by (simp add: decode_operation_response_def decode_message_def complete_response_def)

section \<open>Properties\<close>

text \<open>
  C37 (messages_roundtrip): a message of any type is read back from the value it is written as
  exactly when it satisfies the invariant of its type.
\<close>

theorem messages_roundtrip:
  "(decode_message hello_request_from (hello_request_value x0) = Inr x0 \<longleftrightarrow> hello_request_valid x0)
   \<and> (decode_message hello_response_from (hello_response_value x1) = Inr x1 \<longleftrightarrow> hello_response_valid x1)
   \<and> (decode_message materialize_request_from (materialize_request_value x2) = Inr x2 \<longleftrightarrow> materialize_request_valid x2)
   \<and> (decode_message check_applicability_request_from (check_applicability_request_value x3) = Inr x3 \<longleftrightarrow> check_applicability_request_valid x3)
   \<and> (decode_message check_applicability_response_from (check_applicability_response_value x4) = Inr x4 \<longleftrightarrow> check_applicability_response_valid x4)
   \<and> (decode_message prepare_request_from (prepare_request_value x5) = Inr x5 \<longleftrightarrow> prepare_request_valid x5)
   \<and> (decode_message execute_request_from (execute_request_value x6) = Inr x6 \<longleftrightarrow> execute_request_valid x6)
   \<and> (decode_message execute_buffered_request_from (execute_buffered_request_value x7) = Inr x7 \<longleftrightarrow> execute_buffered_request_valid x7)
   \<and> (decode_message execute_buffered_response_from (execute_buffered_response_value x8) = Inr x8 \<longleftrightarrow> execute_buffered_response_valid x8)
   \<and> (decode_message reset_request_from (reset_request_value x9) = Inr x9 \<longleftrightarrow> reset_request_valid x9)
   \<and> (decode_message evaluate_request_from (evaluate_request_value x10) = Inr x10 \<longleftrightarrow> evaluate_request_valid x10)
   \<and> (decode_message shutdown_request_from (shutdown_request_value x11) = Inr x11 \<longleftrightarrow> shutdown_request_valid x11)
   \<and> (decode_message materialize_response_from (materialize_response_value x12) = Inr x12 \<longleftrightarrow> materialize_response_valid x12)
   \<and> (decode_message acknowledgement_from (acknowledgement_value x13) = Inr x13 \<longleftrightarrow> acknowledgement_valid x13)
   \<and> (decode_message evaluate_response_from (evaluate_response_value x14) = Inr x14 \<longleftrightarrow> evaluate_response_valid x14)
   \<and> (decode_message execute_response_from (execute_response_value x15) = Inr x15 \<longleftrightarrow> execute_response_valid x15)
   \<and> (decode_message worker_failure_response_from (worker_failure_response_value x16) = Inr x16 \<longleftrightarrow> worker_failure_response_valid x16)
   \<and> (decode_message prepare_problem_request_from (prepare_problem_request_value x17) = Inr x17 \<longleftrightarrow> prepare_problem_request_valid x17)
   \<and> (decode_message execute_stream_request_from (execute_stream_request_value x18) = Inr x18 \<longleftrightarrow> execute_stream_request_valid x18)
   \<and> (decode_message stream_decision_from (stream_decision_value x19) = Inr x19 \<longleftrightarrow> stream_decision_valid x19)
   \<and> (decode_message execute_stream_response_from (execute_stream_response_value x20) = Inr x20 \<longleftrightarrow> execute_stream_response_valid x20)
   \<and> (decode_message managed_output_from (managed_output_value x21) = Inr x21 \<longleftrightarrow> managed_output_valid x21)
   \<and> (decode_message stream_checkpoint_from (stream_checkpoint_value x22) = Inr x22 \<longleftrightarrow> stream_checkpoint_valid x22)"
  by (intro conjI)
    (rule hello_request.decode_exact hello_response.decode_exact materialize_request.decode_exact check_applicability_request.decode_exact check_applicability_response.decode_exact prepare_request.decode_exact execute_request.decode_exact execute_buffered_request.decode_exact execute_buffered_response.decode_exact reset_request.decode_exact evaluate_request.decode_exact shutdown_request.decode_exact materialize_response.decode_exact acknowledgement.decode_exact evaluate_response.decode_exact execute_response.decode_exact worker_failure_response.decode_exact prepare_problem_request.decode_exact execute_stream_request.decode_exact stream_decision.decode_exact execute_stream_response.decode_exact managed_output.decode_exact stream_checkpoint.decode_exact)+

text \<open>
  C38 (decoded_messages_valid): whatever value a worker sends, a decoder returns only messages that
  satisfy the invariant of their type: nonempty identifiers and paths, integers within the safe
  range, object parameters, distinct offers, capabilities in order and without repetition, and a
  checkpoint with exactly one snapshot reference.
\<close>

theorem decoded_messages_valid:
  "(case decode_message hello_request_from v of Inl _ \<Rightarrow> True | Inr m \<Rightarrow> hello_request_valid m)
   \<and> (case decode_message hello_response_from v of Inl _ \<Rightarrow> True | Inr m \<Rightarrow> hello_response_valid m)
   \<and> (case decode_message materialize_request_from v of Inl _ \<Rightarrow> True | Inr m \<Rightarrow> materialize_request_valid m)
   \<and> (case decode_message check_applicability_request_from v of Inl _ \<Rightarrow> True | Inr m \<Rightarrow> check_applicability_request_valid m)
   \<and> (case decode_message check_applicability_response_from v of Inl _ \<Rightarrow> True | Inr m \<Rightarrow> check_applicability_response_valid m)
   \<and> (case decode_message prepare_request_from v of Inl _ \<Rightarrow> True | Inr m \<Rightarrow> prepare_request_valid m)
   \<and> (case decode_message execute_request_from v of Inl _ \<Rightarrow> True | Inr m \<Rightarrow> execute_request_valid m)
   \<and> (case decode_message execute_buffered_request_from v of Inl _ \<Rightarrow> True | Inr m \<Rightarrow> execute_buffered_request_valid m)
   \<and> (case decode_message execute_buffered_response_from v of Inl _ \<Rightarrow> True | Inr m \<Rightarrow> execute_buffered_response_valid m)
   \<and> (case decode_message reset_request_from v of Inl _ \<Rightarrow> True | Inr m \<Rightarrow> reset_request_valid m)
   \<and> (case decode_message evaluate_request_from v of Inl _ \<Rightarrow> True | Inr m \<Rightarrow> evaluate_request_valid m)
   \<and> (case decode_message shutdown_request_from v of Inl _ \<Rightarrow> True | Inr m \<Rightarrow> shutdown_request_valid m)
   \<and> (case decode_message materialize_response_from v of Inl _ \<Rightarrow> True | Inr m \<Rightarrow> materialize_response_valid m)
   \<and> (case decode_message acknowledgement_from v of Inl _ \<Rightarrow> True | Inr m \<Rightarrow> acknowledgement_valid m)
   \<and> (case decode_message evaluate_response_from v of Inl _ \<Rightarrow> True | Inr m \<Rightarrow> evaluate_response_valid m)
   \<and> (case decode_message execute_response_from v of Inl _ \<Rightarrow> True | Inr m \<Rightarrow> execute_response_valid m)
   \<and> (case decode_message worker_failure_response_from v of Inl _ \<Rightarrow> True | Inr m \<Rightarrow> worker_failure_response_valid m)
   \<and> (case decode_message prepare_problem_request_from v of Inl _ \<Rightarrow> True | Inr m \<Rightarrow> prepare_problem_request_valid m)
   \<and> (case decode_message execute_stream_request_from v of Inl _ \<Rightarrow> True | Inr m \<Rightarrow> execute_stream_request_valid m)
   \<and> (case decode_message stream_decision_from v of Inl _ \<Rightarrow> True | Inr m \<Rightarrow> stream_decision_valid m)
   \<and> (case decode_message execute_stream_response_from v of Inl _ \<Rightarrow> True | Inr m \<Rightarrow> execute_stream_response_valid m)
   \<and> (case decode_message managed_output_from v of Inl _ \<Rightarrow> True | Inr m \<Rightarrow> managed_output_valid m)
   \<and> (case decode_message stream_checkpoint_from v of Inl _ \<Rightarrow> True | Inr m \<Rightarrow> stream_checkpoint_valid m)"
  using hello_request.decode_valid [of v] hello_response.decode_valid [of v] materialize_request.decode_valid [of v] check_applicability_request.decode_valid [of v] check_applicability_response.decode_valid [of v] prepare_request.decode_valid [of v] execute_request.decode_valid [of v] execute_buffered_request.decode_valid [of v] execute_buffered_response.decode_valid [of v] reset_request.decode_valid [of v] evaluate_request.decode_valid [of v] shutdown_request.decode_valid [of v] materialize_response.decode_valid [of v] acknowledgement.decode_valid [of v] evaluate_response.decode_valid [of v] execute_response.decode_valid [of v] worker_failure_response.decode_valid [of v] prepare_problem_request.decode_valid [of v] execute_stream_request.decode_valid [of v] stream_decision.decode_valid [of v] execute_stream_response.decode_valid [of v] managed_output.decode_valid [of v] stream_checkpoint.decode_valid [of v]
  by (intro conjI) (auto split: sum.split)

text \<open>
  The debug assertion on a decoded response never fails: for every
  response type and every value, the response carries the identifier its envelope was correlated by.
\<close>

theorem response_identifiers_agree:
  "fst (decode_operation_response hello_response_from hr_id v requests) \<noteq> Inl DebugAssertion
   \<and> fst (decode_operation_response check_applicability_response_from car_id v requests) \<noteq> Inl DebugAssertion
   \<and> fst (decode_operation_response execute_buffered_response_from xbr_id v requests) \<noteq> Inl DebugAssertion
   \<and> fst (decode_operation_response materialize_response_from mr_id v requests) \<noteq> Inl DebugAssertion
   \<and> fst (decode_operation_response acknowledgement_from ack_id v requests) \<noteq> Inl DebugAssertion
   \<and> fst (decode_operation_response evaluate_response_from er_id v requests) \<noteq> Inl DebugAssertion
   \<and> fst (decode_operation_response execute_response_from xr_id v requests) \<noteq> Inl DebugAssertion
   \<and> fst (decode_operation_response execute_stream_response_from xsr_id v requests) \<noteq> Inl DebugAssertion
   \<and> fst (decode_operation_response managed_output_from managed_output_id v requests) \<noteq> Inl DebugAssertion"
  by (intro conjI)
    (rule hello_response_answer.no_debug_panic check_applicability_response_answer.no_debug_panic execute_buffered_response_answer.no_debug_panic materialize_response_answer.no_debug_panic acknowledgement_answer.no_debug_panic evaluate_response_answer.no_debug_panic execute_response_answer.no_debug_panic execute_stream_response_answer.no_debug_panic managed_output_answer.no_debug_panic)+

text \<open>
  For any sequence of calls on a tracker, the identifiers it issues are the
  decimal numbers from zero on, the answers it accepts are those identifiers in the same order, each
  at most once, and at most the last one is outstanding.
\<close>

theorem requests_serial:
  "case tracker_run calls tracker_new of (issued, answered, t) \<Rightarrow>
     issued = map dec_string [0..<rt_next_id t] \<and> distinct issued \<and> rt_next_id t \<le> U64_MAX
     \<and> (case rt_pending t of
          None \<Rightarrow> answered = issued
        | Some i \<Rightarrow> issued = answered @ [i])"
proof -
  obtain issued answered t where run: "tracker_run calls tracker_new = (issued, answered, t)"
    by (cases "tracker_run calls tracker_new") auto
  have "tracker_wf tracker_new" by (simp add: tracker_wf_def tracker_new_def)
  from tracker_run_trace [OF this run] have trace: "tracker_wf t"
      "issued = map dec_string [0..<rt_next_id t]" "answered = map dec_string [0..<tracker_answered t]"
    by (auto simp: tracker_new_def tracker_answered_def)
  have "distinct (map dec_string [0..<n])" for n by (simp add: distinct_map inj_on_def)
  moreover have "case rt_pending t of None \<Rightarrow> answered = issued | Some i \<Rightarrow> issued = answered @ [i]"
  proof (cases "rt_pending t")
    case None
    with trace show ?thesis by (simp add: tracker_answered_def)
  next
    case (Some i)
    with trace(1) obtain n where "rt_next_id t = Suc n" "i = dec_string n"
      by (cases "rt_next_id t") (auto simp: tracker_wf_def)
    with Some trace show ?thesis by (simp add: tracker_answered_def)
  qed
  ultimately show ?thesis using run trace(1,2) by (auto simp: tracker_wf_def)
qed

text \<open>
  A hello response is accepted exactly when it answers the request, version 1
  was offered, the worker reproduces its identity, and every selected capability fits the role and
  was reported; the session then holds the selected capabilities in order, without repetition.  The
  errors for a protocol mismatch and a reserved capability are never reported.
\<close>

theorem handshake_exact:
  "(validate_hello_response request response selected = Inr s \<longleftrightarrow>
      hr_id response = hq_id request \<and> WIRE_PROTOCOL_VERSION \<in> set (hq_protocols request)
      \<and> hr_worker_id response = hq_worker_id request
      \<and> list_all (\<lambda>c. \<not> wrong_role (hq_role request) c) selected
      \<and> set selected \<subseteq> set (hr_capabilities response)
      \<and> s = \<lparr>ns_role = hq_role request, ns_protocol = WIRE_PROTOCOL_VERSION,
          ns_worker_id = hr_worker_id response, ns_sdk = hr_sdk response,
          ns_selected_capabilities = btree_set selected,
          ns_reported_capabilities = hr_capabilities response\<rparr>)
   \<and> validate_hello_response request response selected \<noteq> Inl (ProtocolMismatch p q)
   \<and> validate_hello_response request response selected \<noteq> Inl (ReservedCapability c)"
proof -
  have none: "find reserved xs = None" for xs
    using capability.exhaust by (auto simp: find_None_iff reserved_def)
  have fits: "list_all (\<lambda>c. \<not> P c) xs \<longleftrightarrow> find P xs = None" for P and xs :: "capability list"
    by (auto simp: find_None_iff list_all_iff)
  have reported: "set xs \<subseteq> set ys \<longleftrightarrow> find (\<lambda>c. c \<notin> set ys) (btree_set xs) = None" for xs ys :: "capability list"
    by (auto simp: find_None_iff)
  show ?thesis
    by (auto simp: validate_hello_response_def negotiate_protocol_def hello_response_protocol_def none
        Let_def fits reported split: option.splits)
qed

section \<open>Messages across the wire\<close>

text \<open>
  What the serializer and the parser, code outside the repository, document: canonical text is UTF-8
  without a byte-order mark or a line break, and parsing the text of a canonical value yields it.
\<close>

definition wire_text :: "externals \<Rightarrow> bool" where
  "wire_text X \<longleftrightarrow> (\<forall>v s. canonicalizer X v = Some s \<longrightarrow> json_wf v \<longrightarrow> normalize_value v = Inr v \<longrightarrow>
     newline \<notin> set s \<and> map byte_of (take 3 s) \<noteq> [239, 187, 191]
     \<and> utf8_invalid_at 0 (map byte_of s) = None \<and> parse_unique_json (parse_json X) s = Inr v)"

lemma encode_message_Ok_iff:
  "encode_message X to_value m = Inr bytes \<longleftrightarrow>
     (\<exists>s. canonicalizer X (to_value m) = Some s \<and> length s < MAX_LINE_BYTES \<and> bytes = s @ [newline])"
  by (auto simp: encode_message_def split: option.splits if_splits)

lemma read_encoded_line:
  assumes "stream_ok reader" "stream_bytes reader = (s @ [newline]) @ rest"
    and "newline \<notin> set s" "length s < MAX_LINE_BYTES"
  shows "fst (read_line reader) = Inr (Some s)" "stream_ok (snd (read_line reader))"
    "stream_bytes (snd (read_line reader)) = rest"
proof -
  have "position (\<lambda>byte. byte = newline) s = None" using assms(3) by (auto simp: position_None_iff)
  from line_spec_newline [OF _ this, of "[newline]" 0 rest] assms(2,4)
  have "line_spec (stream_bytes reader) = (Inr (Some s), Some rest)" by simp
  with read_line_loop_spec [OF assms(1), of "[]"]
  show "fst (read_line reader) = Inr (Some s)" "stream_ok (snd (read_line reader))"
    "stream_bytes (snd (read_line reader)) = rest"
    by (simp_all add: read_line_def MAX_LINE_BYTES_def)
qed


definition example_text :: string where
  "example_text = [CHR 0x7B, CHR 0x22, CHR ''i'', CHR ''d'', CHR 0x22, CHR 0x3A, CHR 0x22, CHR ''0'', CHR 0x22,
     CHR 0x2C, CHR 0x22, CHR ''o'', CHR ''k'', CHR 0x22, CHR 0x3A, CHR ''t'', CHR ''r'', CHR ''u'', CHR ''e'',
     CHR 0x7D]"

definition example_wire :: externals where
  "example_wire =
     \<lparr>sha256 = (\<lambda>_. replicate 32 (CHR ''0'')),
      canonicalizer = (\<lambda>v. if v = JObject [(''id'', JString ''0''), (''ok'', JBool True)] then Some example_text else None),
      parse_json = (\<lambda>s. if s = example_text
        then (VisitMap [(''id'', VisitStr ''0''), (''ok'', VisitBool True)] True, True) else (VisitFail, False)),
      json_text = (\<lambda>_. []), sqlite_object = (\<lambda>_. False)\<rparr>"

lemma example_utf8: "utf8_invalid_at 0 (map byte_of example_text) = None"
  by code_simp

lemma example_wire_text: "wire_text example_wire"
  using example_utf8
  by (auto simp: wire_text_def example_wire_def parse_unique_json_def example_text_def byte_of_def split: if_splits)

lemma example_ack_value: "acknowledgement_value \<lparr>ack_id = ''0''\<rparr> = JObject [(''id'', JString ''0''), (''ok'', JBool True)]"
  by (simp add: acknowledgement_value_def ser_object_def ord_extend_def)


end
