(* ===== verification/Redaction.thy ===== *)
theory Redaction
  imports Canonical_Json
begin

text \<open>
  Secret filtering (\<open>runtime/redaction.rs\<close>).  Every byte inside an occurrence of a secret is hidden,
  and a maximal run of hidden bytes is written as one marker.  \<open>None\<close> is the panic of
  \<open>slice::windows\<close> on an empty secret.
\<close>

type_synonym redactor = "string list"

definition REDACTED :: string where
  "REDACTED = ''[REDACTED]''"

definition redactor_is_empty :: "redactor \<Rightarrow> bool" where
  "redactor_is_empty secrets \<longleftrightarrow> secrets = []"

definition redactor_add :: "redactor \<Rightarrow> string \<Rightarrow> redactor" where
  "redactor_add secrets secret = secrets @ [secret]"

definition redactor_lookahead :: "redactor \<Rightarrow> nat" where
  "redactor_lookahead secrets = fold (\<lambda>s n. max n (length s)) secrets 0"

text \<open>\<open>bytes.windows(n).enumerate()\<close> and \<open>hidden[start..start + n].fill(true)\<close>.\<close>

definition windows :: "nat \<Rightarrow> 'a list \<Rightarrow> (nat \<times> 'a list) list" where
  "windows n bytes = map (\<lambda>start. (start, take n (drop start bytes))) [0..<Suc (length bytes) - n]"

definition fill_true :: "nat \<Rightarrow> nat \<Rightarrow> bool list \<Rightarrow> bool list" where
  "fill_true start n hidden = take start hidden @ replicate n True @ drop (start + n) hidden"

fun mark_window :: "string \<Rightarrow> nat \<times> string \<Rightarrow> bool list \<Rightarrow> bool list" where
  "mark_window secret (start, window) hidden =
     (if window = secret then fill_true start (length secret) hidden else hidden)"

definition mark_secret :: "string \<Rightarrow> string \<Rightarrow> bool list \<Rightarrow> bool list" where
  "mark_secret bytes secret hidden = fold (mark_window secret) (windows (length secret) bytes) hidden"

definition mark_hidden :: "redactor \<Rightarrow> string \<Rightarrow> bool list" where
  "mark_hidden secrets bytes =
     fold (mark_secret bytes) secrets (replicate (length bytes) False)"

fun emit :: "bool \<Rightarrow> (char \<times> bool) list \<Rightarrow> string" where
  "emit previous [] = []"
| "emit previous ((byte, hide) # rest) =
     (if hide \<and> \<not> previous then REDACTED @ emit hide rest
      else if \<not> hide then byte # emit hide rest
      else emit hide rest)"

definition redactor_prefix :: "redactor \<Rightarrow> string \<Rightarrow> nat \<Rightarrow> string option" where
  "redactor_prefix secrets bytes limit =
     (if redactor_is_empty secrets then Some (take (min limit (length bytes)) bytes)
      else if [] \<in> set secrets then None
      else Some (emit False (take limit (zip bytes (mark_hidden secrets bytes)))))"

definition redactor_bytes :: "redactor \<Rightarrow> string \<Rightarrow> string option" where
  "redactor_bytes secrets bytes = redactor_prefix secrets bytes (length bytes)"

section \<open>Which bytes are hidden\<close>

text \<open>Byte \<open>i\<close> lies inside an occurrence of the secret.\<close>

definition covered :: "string \<Rightarrow> string \<Rightarrow> nat \<Rightarrow> bool" where
  "covered bytes secret i \<longleftrightarrow>
     (\<exists>start. start \<le> i \<and> i < start + length secret \<and> take (length secret) (drop start bytes) = secret)"

lemma length_fill_true [simp]: "start + n \<le> length hidden \<Longrightarrow> length (fill_true start n hidden) = length hidden"
  by (simp add: fill_true_def)

lemma nth_fill_true:
  "start + n \<le> length hidden \<Longrightarrow> i < length hidden
   \<Longrightarrow> fill_true start n hidden ! i \<longleftrightarrow> hidden ! i \<or> (start \<le> i \<and> i < start + n)"
  by (auto simp: fill_true_def nth_append)

lemma fold_marks:
  assumes "\<And>start window. (start, window) \<in> set ws \<Longrightarrow> start + length secret \<le> length hidden"
  shows "length (fold (mark_window secret) ws hidden) = length hidden"
    and "i < length hidden \<Longrightarrow> fold (mark_window secret) ws hidden ! i
      \<longleftrightarrow> hidden ! i \<or> (\<exists>start. (start, secret) \<in> set ws \<and> start \<le> i \<and> i < start + length secret)"
proof -
  have "length (fold (mark_window secret) ws hidden) = length hidden
    \<and> (i < length hidden \<longrightarrow> fold (mark_window secret) ws hidden ! i
      \<longleftrightarrow> hidden ! i \<or> (\<exists>start. (start, secret) \<in> set ws \<and> start \<le> i \<and> i < start + length secret))"
    using assms
  proof (induction ws arbitrary: hidden)
    case (Cons w ws)
    obtain start window where w: "w = (start, window)" by (cases w)
    let ?h = "mark_window secret w hidden"
    from Cons.prems [of start window] w have fits: "start + length secret \<le> length hidden" by simp
    then have len: "length ?h = length hidden" by (simp add: w)
    from fits have at: "i < length hidden \<Longrightarrow> ?h ! i \<longleftrightarrow> hidden ! i \<or> (window = secret \<and> start \<le> i \<and> i < start + length secret)"
      using nth_fill_true [of start "length secret" hidden i] by (simp add: w)
    have "length (fold (mark_window secret) ws ?h) = length ?h
      \<and> (i < length ?h \<longrightarrow> fold (mark_window secret) ws ?h ! i
        \<longleftrightarrow> ?h ! i \<or> (\<exists>start. (start, secret) \<in> set ws \<and> start \<le> i \<and> i < start + length secret))"
      using Cons.prems len by (intro Cons.IH) auto
    with len at show ?case by (auto simp: w)
  qed simp
  then show "length (fold (mark_window secret) ws hidden) = length hidden"
    and "i < length hidden \<Longrightarrow> fold (mark_window secret) ws hidden ! i
      \<longleftrightarrow> hidden ! i \<or> (\<exists>start. (start, secret) \<in> set ws \<and> start \<le> i \<and> i < start + length secret)"
    by blast+
qed

lemma windows_iff:
  "0 < n \<Longrightarrow> (start, window) \<in> set (windows n bytes)
     \<longleftrightarrow> start + n \<le> length bytes \<and> window = take n (drop start bytes)"
  by (auto simp: windows_def)

lemma covered_occurrence:
  "secret \<noteq> [] \<Longrightarrow> take (length secret) (drop start bytes) = secret \<Longrightarrow> start + length secret \<le> length bytes"
proof -
  assume "secret \<noteq> []" "take (length secret) (drop start bytes) = secret"
  then have "min (length bytes - start) (length secret) = length secret" "0 < length secret"
    by (metis length_drop length_take min.commute, simp)
  then show ?thesis by linarith
qed

lemma mark_secret_nth:
  assumes "secret \<noteq> []" "length hidden = length bytes"
  shows "length (mark_secret bytes secret hidden) = length bytes"
    and "i < length bytes \<Longrightarrow> mark_secret bytes secret hidden ! i \<longleftrightarrow> hidden ! i \<or> covered bytes secret i"
proof -
  have pos: "0 < length secret" using assms(1) by simp
  note marks = fold_marks [of "windows (length secret) bytes" secret hidden]
  show "length (mark_secret bytes secret hidden) = length bytes"
    using marks(1) assms(2) by (simp add: mark_secret_def windows_iff [OF pos])
  show "i < length bytes \<Longrightarrow> mark_secret bytes secret hidden ! i \<longleftrightarrow> hidden ! i \<or> covered bytes secret i"
    using marks(2) [of i] assms covered_occurrence [OF assms(1)]
    by (auto simp: mark_secret_def covered_def windows_iff [OF pos])
qed

lemma mark_hidden_nth:
  assumes "[] \<notin> set secrets"
  shows "length (mark_hidden secrets bytes) = length bytes
    \<and> (\<forall>i < length bytes. mark_hidden secrets bytes ! i \<longleftrightarrow> (\<exists>secret \<in> set secrets. covered bytes secret i))"
proof -
  have "length (fold (mark_secret bytes) secrets hidden) = length bytes
    \<and> (\<forall>i < length bytes. fold (mark_secret bytes) secrets hidden ! i
         \<longleftrightarrow> hidden ! i \<or> (\<exists>secret \<in> set secrets. covered bytes secret i))"
    if "length hidden = length bytes" for hidden
    using that assms
  proof (induction secrets arbitrary: hidden)
    case (Cons s secrets)
    from Cons.prems have "s \<noteq> []" by auto
    from mark_secret_nth [OF this Cons.prems(1)] Cons.IH [of "mark_secret bytes s hidden"] Cons.prems(2)
    show ?case by auto
  qed simp
  from this [of "replicate (length bytes) False"] show ?thesis by (simp add: mark_hidden_def)
qed

section \<open>What is written\<close>

lemma emit_closed_form:
  "emit previous xs = concat (map (\<lambda>i. if snd (xs ! i)
      then (if (if i = 0 then previous else snd (xs ! (i - 1))) then [] else REDACTED)
      else [fst (xs ! i)]) [0..<length xs])"
proof (induction previous xs rule: emit.induct)
  case (2 previous byte hide rest)
  have up: "[0..<length ((byte, hide) # rest)] = 0 # map Suc [0..<length rest]"
    by (simp add: map_Suc_upt upt_conv_Cons del: upt_Suc)
  have "(\<lambda>i. if snd (((byte, hide) # rest) ! Suc i)
        then if if Suc i = 0 then previous else snd (((byte, hide) # rest) ! (Suc i - 1)) then [] else REDACTED
        else [fst (((byte, hide) # rest) ! Suc i)])
      = (\<lambda>i. if snd (rest ! i) then if if i = 0 then hide else snd (rest ! (i - 1)) then [] else REDACTED
        else [fst (rest ! i)])"
    by (auto simp: fun_eq_iff nth_Cons split: nat.split)
  with 2 show ?case unfolding up by (simp add: o_def)
qed simp

lemma redactor_prefix_closed_form:
  assumes "[] \<notin> set secrets"
  shows "redactor_prefix secrets bytes limit = Some (concat (map (\<lambda>i.
      if list_ex (\<lambda>secret. covered bytes secret i) secrets
      then (if 0 < i \<and> list_ex (\<lambda>secret. covered bytes secret (i - 1)) secrets then [] else REDACTED)
      else [bytes ! i]) [0..<min limit (length bytes)]))"
proof (cases "secrets = []")
  case True
  have "concat (map (\<lambda>i. [bytes ! i]) [0..<n]) = take n bytes" if "n \<le> length bytes" for n
    using that by (induction n) (simp_all add: take_Suc_conv_app_nth)
  with True show ?thesis by (simp add: redactor_prefix_def redactor_is_empty_def)
next
  case False
  let ?xs = "take limit (zip bytes (mark_hidden secrets bytes))"
  note marks = mark_hidden_nth [OF assms, of bytes]
  have len: "length ?xs = min limit (length bytes)" using marks by simp
  have at: "fst (?xs ! i) = bytes ! i" "snd (?xs ! i) \<longleftrightarrow> list_ex (\<lambda>secret. covered bytes secret i) secrets"
    if "i < min limit (length bytes)" for i
    using that marks by (auto simp: list_ex_iff)
  have "emit False ?xs = concat (map (\<lambda>i.
      if list_ex (\<lambda>secret. covered bytes secret i) secrets
      then (if 0 < i \<and> list_ex (\<lambda>secret. covered bytes secret (i - 1)) secrets then [] else REDACTED)
      else [bytes ! i]) [0..<min limit (length bytes)])"
    unfolding emit_closed_form len
  proof (intro arg_cong [where f = concat] map_cong refl)
    fix i assume "i \<in> set [0..<min limit (length bytes)]"
    then have "i < min limit (length bytes)" "i - 1 < min limit (length bytes)" by auto
    with at show "(if snd (?xs ! i) then if if i = 0 then False else snd (?xs ! (i - 1)) then [] else REDACTED else [fst (?xs ! i)])
      = (if list_ex (\<lambda>secret. covered bytes secret i) secrets
         then (if 0 < i \<and> list_ex (\<lambda>secret. covered bytes secret (i - 1)) secrets then [] else REDACTED)
         else [bytes ! i])"
      by (simp only: at) auto
  qed
  with False assms show ?thesis by (simp add: redactor_prefix_def redactor_is_empty_def)
qed

text \<open>
  C40 (redaction_exact): with nonempty secrets, redacting never panics, and what it writes is
  determined byte by byte: a byte outside every occurrence of every secret is kept, and a byte inside
  one is dropped, the first of each run of dropped bytes being replaced by the marker.  Overlapping
  occurrences are found in the original bytes, so none exposes a part of another.
\<close>

theorem redaction_exact:
  assumes "[] \<notin> set secrets"
  shows "redactor_prefix secrets bytes limit = Some (concat (map (\<lambda>i.
      if list_ex (\<lambda>secret. covered bytes secret i) secrets
      then (if 0 < i \<and> list_ex (\<lambda>secret. covered bytes secret (i - 1)) secrets then [] else REDACTED)
      else [bytes ! i]) [0..<min limit (length bytes)]))"
  using assms by (rule redactor_prefix_closed_form)

theorem redaction_exact_witness:
  "concat (map (\<lambda>i. if list_ex (\<lambda>secret. covered ''xababcy'' secret i) [''abab'', ''babc'']
      then (if 0 < i \<and> list_ex (\<lambda>secret. covered ''xababcy'' secret (i - 1)) [''abab'', ''babc''] then [] else REDACTED)
      else [''xababcy'' ! i]) [0..<min 7 (length ''xababcy'')]) = ''x[REDACTED]y''"
proof -
  have "redactor_prefix [''abab'', ''babc''] ''xababcy'' 7 = Some ''x[REDACTED]y''" by code_simp
  moreover have "[] \<notin> set [''abab'', ''babc'']" by simp
  ultimately show ?thesis using redaction_exact [of "[''abab'', ''babc'']" "''xababcy''" 7] by simp
qed

end
