(* ===== verification/Redaction_Text.thy ===== *)
theory Redaction_Text
  imports Redaction Wire_Framing
begin

text \<open>
  Redaction of text and of message values (\<open>Redactor::text\<close> and \<open>Redactor::value\<close>).  Both rebuild a
  \<open>String\<close> from the filtered bytes and panic when these are not UTF-8; they never are, because an
  occurrence of one UTF-8 string in another begins and ends between characters.
\<close>

definition utf8_valid :: "string \<Rightarrow> bool" where
  "utf8_valid s \<longleftrightarrow> utf8_invalid_at 0 (map byte_of s) = None"

definition redactor_text :: "redactor \<Rightarrow> string \<Rightarrow> string option" where
  "redactor_text secrets t =
     Option.bind (redactor_bytes secrets t) (\<lambda>bytes. if utf8_valid bytes then Some bytes else None)"

text \<open>Redacted keys may coincide: collecting keeps the last.\<close>

fun redact_value :: "redactor \<Rightarrow> json \<Rightarrow> json option"
and redact_items :: "redactor \<Rightarrow> json list \<Rightarrow> json list option"
and redact_members :: "redactor \<Rightarrow> json_map \<Rightarrow> json_map option" where
  "redact_value secrets (JString t) = map_option JString (redactor_text secrets t)"
| "redact_value secrets (JArray items) = map_option JArray (redact_items secrets items)"
| "redact_value secrets (JObject members) =
     map_option (\<lambda>ms. JObject (ord_extend [] ms)) (redact_members secrets members)"
| "redact_value secrets v = Some v"
| "redact_items secrets [] = Some []"
| "redact_items secrets (v # vs) =
     Option.bind (redact_value secrets v) (\<lambda>w. map_option ((#) w) (redact_items secrets vs))"
| "redact_members secrets [] = Some []"
| "redact_members secrets ((k, v) # ms) =
     Option.bind (redact_value secrets v) (\<lambda>w. Option.bind (redactor_text secrets k) (\<lambda>l.
       map_option ((#) (l, w)) (redact_members secrets ms)))"

definition redactor_value :: "redactor \<Rightarrow> json \<Rightarrow> json option" where
  "redactor_value secrets v = (if redactor_is_empty secrets then Some v else redact_value secrets v)"

section \<open>Characters of UTF-8 text\<close>

lemma utf8_invalid_at_offset: "utf8_invalid_at off bs = None \<longleftrightarrow> utf8_invalid_at 0 bs = None"
proof (induction "length bs" arbitrary: off bs rule: less_induct)
  case less
  note unfold = utf8_invalid_at.simps [of _ bs]
  show ?case
  proof (cases "utf8_seq_len bs")
    case None
    then show ?thesis by (simp add: unfold)
  next
    case (Some n)
    show ?thesis
    proof (cases "bs = []")
      case False
      with utf8_seq_len_bounds [OF Some] have "length (drop n bs) < length bs" by (cases bs) auto
      from less [OF this, of "off + n"] less [OF this, of n] Some False show ?thesis by (simp add: unfold)
    qed (simp add: utf8_invalid_at.simps [of _ "[]"])
  qed
qed

lemma utf8_valid_step:
  "utf8_valid s \<longleftrightarrow> s = [] \<or> (\<exists>n. utf8_seq_len (map byte_of s) = Some n \<and> utf8_valid (drop n s))"
proof (cases "s = []")
  case True
  then show ?thesis by (simp add: utf8_valid_def utf8_invalid_at.simps [of _ "[]"])
next
  case False
  then show ?thesis
    using utf8_invalid_at_offset
    by (simp add: utf8_valid_def utf8_invalid_at.simps [of 0 "map byte_of s"] drop_map split: option.split)
qed

lemma utf8_seq_len_append: "utf8_seq_len xs = Some n \<Longrightarrow> utf8_seq_len (xs @ ys) = Some n"
  by (cases xs rule: utf8_seq_len.cases) (auto split: if_splits list.splits)

lemma utf8_seq_len_cont:
  assumes "utf8_seq_len bs = Some n"
  shows "\<not> cont_byte (bs ! 0)" "0 < i \<Longrightarrow> i < n \<Longrightarrow> cont_byte (bs ! i)"
  using assms by (cases bs rule: utf8_seq_len.cases; auto simp: cont_byte_def nth_Cons split: if_splits list.splits nat.splits)+

lemma utf8_valid_Nil [simp]: "utf8_valid []"
  using utf8_valid_step [of "[]"] by simp

lemma utf8_valid_induct [consumes 1, case_names Nil Char]:
  assumes "utf8_valid s" "P []"
    and "\<And>c s. utf8_seq_len (map byte_of (c @ s)) = Some (length c) \<Longrightarrow> c \<noteq> [] \<Longrightarrow> utf8_valid s \<Longrightarrow> P s \<Longrightarrow> P (c @ s)"
  shows "P s"
  using assms(1)
proof (induction "length s" arbitrary: s rule: less_induct)
  case less
  show ?case
  proof (cases "s = []")
    case False
    with less.prems utf8_valid_step [of s] obtain n where n: "utf8_seq_len (map byte_of s) = Some n" "utf8_valid (drop n s)"
      by blast
    with utf8_seq_len_bounds [OF n(1)] have b: "1 \<le> n" "n \<le> length s" by auto
    have "P (take n s @ drop n s)"
      using n b less.hyps [of "drop n s"] by (intro assms(3)) auto
    then show ?thesis by simp
  qed (simp add: assms(2))
qed

lemma utf8_valid_Char:
  "utf8_seq_len (map byte_of c) = Some (length c) \<Longrightarrow> utf8_valid s \<Longrightarrow> utf8_valid (c @ s)"
  using utf8_seq_len_append [of "map byte_of c" "length c" "map byte_of s"] utf8_valid_step [of "c @ s"] by simp

lemma utf8_valid_append: "utf8_valid s \<Longrightarrow> utf8_valid t \<Longrightarrow> utf8_valid (s @ t)"
proof (induction s rule: utf8_valid_induct)
  case (Char c s)
  then have "utf8_seq_len (map byte_of (c @ s @ t)) = Some (length c)"
    using utf8_seq_len_append [of "map byte_of (c @ s)" "length c" "map byte_of t"] by simp
  with Char utf8_valid_step [of "c @ s @ t"] show ?case by simp
qed simp

section \<open>Occurrences are aligned\<close>

lemma utf8_valid_first: "utf8_valid s \<Longrightarrow> s \<noteq> [] \<Longrightarrow> \<not> cont_byte (byte_of (s ! 0))"
  using utf8_valid_step [of s] utf8_seq_len_cont(1) [of "map byte_of s"] by (cases s) auto

lemma utf8_valid_drop:
  "utf8_valid t \<Longrightarrow> p < length t \<Longrightarrow> \<not> cont_byte (byte_of (t ! p)) \<Longrightarrow> utf8_valid (drop p t)"
proof (induction t arbitrary: p rule: utf8_valid_induct)
  case (Char c s)
  show ?case
  proof (cases "p < length c")
    case True
    with utf8_seq_len_cont(2) [OF Char(1), of p] Char.prems have "p = 0" by (cases "p = 0") (auto simp: nth_append)
    with Char show ?thesis using utf8_valid_step [of "c @ s"] by simp
  next
    case False
    with Char.IH [of "p - length c"] Char.prems show ?thesis by (simp add: nth_append)
  qed
qed simp

lemma utf8_valid_rest: "utf8_valid u \<Longrightarrow> utf8_valid (u @ b) \<Longrightarrow> utf8_valid b"
proof (induction u rule: utf8_valid_induct)
  case (Char c s)
  then have "utf8_seq_len (map byte_of (c @ s @ b)) = Some (length c)"
    using utf8_seq_len_append [of "map byte_of (c @ s)" "length c" "map byte_of b"] by simp
  with Char utf8_valid_step [of "c @ s @ b"] show ?case by simp
qed simp

lemma occurrence_aligned:
  assumes "utf8_valid t" "utf8_valid secret" "secret \<noteq> []" "take (length secret) (drop start t) = secret"
  shows "utf8_valid (drop start t)" "utf8_valid (drop (start + length secret) t)"
proof -
  have split: "drop start t = secret @ drop (start + length secret) t"
    using assms(4) append_take_drop_id [of "length secret" "drop start t"] by (simp add: add.commute)
  with assms(3) have "start < length t" "t ! start = secret ! 0"
    by (cases "start < length t"; force simp: nth_append dest: arg_cong [where f = "\<lambda>l. l ! 0"])+
  with assms utf8_valid_first [OF assms(2,3)] show "utf8_valid (drop start t)" by (intro utf8_valid_drop) auto
  with split utf8_valid_rest [OF assms(2)] show "utf8_valid (drop (start + length secret) t)" by metis
qed

lemma aligned_outside_char:
  assumes "drop p t = c @ s" "utf8_seq_len (map byte_of (c @ s)) = Some (length c)"
    and "utf8_valid (drop q t)" "p < q" "q < p + length c"
  shows False
proof -
  have "drop q t = drop (q - p) (c @ s)" using assms(1,4) by (metis drop_drop le_add_diff_inverse2 less_imp_le)
  with assms(4,5) have "drop q t \<noteq> []" "drop q t ! 0 = (c @ s) ! (q - p)" by (auto simp: nth_append)
  moreover have "cont_byte (byte_of ((c @ s) ! (q - p)))"
    using utf8_seq_len_cont(2) [OF assms(2), of "q - p"] assms(4,5) by (auto simp: nth_append)
  ultimately show False using utf8_valid_first [OF assms(3)] by simp
qed

lemma covered_char:
  assumes "utf8_valid t" "utf8_valid secret" "secret \<noteq> []"
    and "drop p t = c @ s" "utf8_seq_len (map byte_of (c @ s)) = Some (length c)"
    and "p \<le> i" "i < p + length c" "p \<le> j" "j < p + length c" "covered t secret i"
  shows "covered t secret j"
proof -
  from assms(10) obtain start where start: "start \<le> i" "i < start + length secret"
    "take (length secret) (drop start t) = secret" by (auto simp: covered_def)
  note aligned = occurrence_aligned [OF assms(1-3) start(3)]
  have "start \<le> p" using aligned_outside_char [OF assms(4,5) aligned(1)] start assms(6-9) by force
  moreover have "p + length c \<le> start + length secret"
    using aligned_outside_char [OF assms(4,5) aligned(2)] start assms(6-9) by force
  ultimately have "start \<le> j" "j < start + length secret" using assms(8,9) by linarith+
  with start(3) show ?thesis unfolding covered_def by blast
qed

section \<open>Redacted text is text\<close>

lemma utf8_valid_REDACTED: "utf8_valid REDACTED"
  unfolding utf8_valid_def REDACTED_def by code_simp

definition redacted_at :: "redactor \<Rightarrow> string \<Rightarrow> nat \<Rightarrow> string" where
  "redacted_at secrets t i =
     (if list_ex (\<lambda>secret. covered t secret i) secrets
      then (if 0 < i \<and> list_ex (\<lambda>secret. covered t secret (i - 1)) secrets then [] else REDACTED)
      else [t ! i])"

lemma redacted_char:
  assumes "utf8_valid t" "list_all (\<lambda>secret. secret \<noteq> [] \<and> utf8_valid secret) secrets"
    and "drop p t = c @ s" "utf8_seq_len (map byte_of (c @ s)) = Some (length c)" "c \<noteq> []"
  shows "concat (map (redacted_at secrets t) [p..<p + length c]) \<in> {c, REDACTED, []}"
proof -
  let ?h = "\<lambda>i. list_ex (\<lambda>secret. covered t secret i) secrets"
  have same: "?h i \<longleftrightarrow> ?h p" if "p \<le> i" "i < p + length c" for i
    using covered_char [OF assms(1) _ _ assms(3,4)] that assms(2,5)
    by (simp add: list_ex_iff list_all_iff) (metis le_refl length_greater_0_conv less_add_same_cancel1)
  show ?thesis
  proof (cases "?h p")
    case True
    have up: "[p..<p + length c] = p # [Suc p..<p + length c]" using assms(5) by (simp add: upt_conv_Cons)
    have "redacted_at secrets t i = []" if "i \<in> set [Suc p..<p + length c]" for i
    proof -
      from that have i: "p \<le> i" "i < p + length c" "p \<le> i - 1" "i - 1 < p + length c" "0 < i" by auto
      with True same [OF i(1,2)] same [OF i(3,4)] show ?thesis by (simp add: redacted_at_def)
    qed
    then have "concat (map (redacted_at secrets t) [Suc p..<p + length c]) = []" by simp
    with True show ?thesis unfolding up by (simp add: redacted_at_def)
  next
    case False
    have "map (redacted_at secrets t) [p..<p + length c] = map (\<lambda>i. [t ! i]) [p..<p + length c]"
      using False same by (intro map_cong) (auto simp: redacted_at_def)
    also have "\<dots> = map (\<lambda>x. [x]) c"
    proof (rule nth_equalityI)
      fix i assume "i < length (map (\<lambda>i. [t ! i]) [p..<p + length c])"
      then have "i < length c" by simp
      moreover have "t ! (p + i) = drop p t ! i" if "i < length c"
        using arg_cong [OF assms(3), of length] that by (intro nth_drop [symmetric]) auto
      ultimately show "map (\<lambda>i. [t ! i]) [p..<p + length c] ! i = map (\<lambda>x. [x]) c ! i"
        using assms(3) by (simp add: nth_append)
    qed simp
    finally show ?thesis by simp
  qed
qed

lemma utf8_seq_len_take: "utf8_seq_len xs = Some n \<Longrightarrow> utf8_seq_len (take n xs) = Some n"
  by (cases xs rule: utf8_seq_len.cases)
    (auto simp: numeral_2_eq_2 numeral_3_eq_3 numeral_eq_Suc split: if_splits list.splits)

lemma utf8_valid_chars:
  assumes "utf8_seq_len (map byte_of (c @ s)) = Some (length c)" "utf8_valid x"
  shows "utf8_valid (c @ x)"
proof (rule utf8_valid_Char [OF _ assms(2)])
  show "utf8_seq_len (map byte_of c) = Some (length c)"
    using utf8_seq_len_take [OF assms(1)] by (simp add: take_map)
qed

lemma redacted_valid:
  assumes "utf8_valid t" "list_all (\<lambda>secret. secret \<noteq> [] \<and> utf8_valid secret) secrets"
  shows "utf8_valid r \<Longrightarrow> drop p t = r \<Longrightarrow> p \<le> length t
    \<Longrightarrow> utf8_valid (concat (map (redacted_at secrets t) [p..<length t]))"
proof (induction r arbitrary: p rule: utf8_valid_induct)
  case Nil
  then show ?case by simp
next
  case (Char c s)
  have len: "p + length c \<le> length t" using arg_cong [OF Char.prems(1), of length] Char.prems(2) by simp
  have "drop (p + length c) t = s" using Char.prems(1) by (metis append_eq_conv_conj drop_drop add.commute)
  from Char.IH [OF this len] have rest: "utf8_valid (concat (map (redacted_at secrets t) [p + length c..<length t]))" .
  have "[p..<length t] = [p..<p + length c] @ [p + length c..<length t]"
    using len by (metis le_add1 le_add_diff_inverse upt_add_eq_append)
  moreover have "concat (map (redacted_at secrets t) [p..<p + length c]) \<in> {c, REDACTED, []}"
    by (rule redacted_char [OF assms Char.prems(1) Char.hyps(1,2)])
  then consider "concat (map (redacted_at secrets t) [p..<p + length c]) = c"
    | "concat (map (redacted_at secrets t) [p..<p + length c]) = REDACTED"
    | "concat (map (redacted_at secrets t) [p..<p + length c]) = []" by blast
  then have "utf8_valid (concat (map (redacted_at secrets t) [p..<p + length c])
      @ concat (map (redacted_at secrets t) [p + length c..<length t]))"
    using utf8_valid_chars [OF Char.hyps(1) rest] utf8_valid_append [OF utf8_valid_REDACTED rest] rest
    by cases (simp_all del: concat_eq_Nil_conv)
  ultimately show ?case by simp
qed

lemma redactor_text_total:
  assumes "utf8_valid t" "list_all (\<lambda>secret. secret \<noteq> [] \<and> utf8_valid secret) secrets"
  shows "\<exists>u. redactor_text secrets t = Some u \<and> utf8_valid u"
proof -
  have "[] \<notin> set secrets" using assms(2) by (auto simp: list_all_iff)
  from redactor_prefix_closed_form [OF this, of t "length t"]
  have "redactor_bytes secrets t = Some (concat (map (redacted_at secrets t) [0..<length t]))"
    by (simp add: redactor_bytes_def redacted_at_def [abs_def])
  with redacted_valid [OF assms, of t 0] assms(1) show ?thesis by (simp add: redactor_text_def)
qed

text \<open>Every string of a parsed value, key or member, is UTF-8.\<close>

fun json_utf8 :: "json \<Rightarrow> bool" where
  "json_utf8 (JString s) = utf8_valid s"
| "json_utf8 (JArray vs) = list_all json_utf8 vs"
| "json_utf8 (JObject m) = list_all (\<lambda>kv. utf8_valid (fst kv) \<and> json_utf8 (snd kv)) m"
| "json_utf8 _ = True"

lemma redact_total:
  assumes "list_all (\<lambda>secret. secret \<noteq> [] \<and> utf8_valid secret) secrets"
  shows "json_utf8 v \<Longrightarrow> redact_value secrets v \<noteq> None"
    and "list_all json_utf8 vs \<Longrightarrow> redact_items secrets vs \<noteq> None"
    and "list_all (\<lambda>kv. utf8_valid (fst kv) \<and> json_utf8 (snd kv)) m \<Longrightarrow> redact_members secrets m \<noteq> None"
  using assms
proof (induction secrets v and secrets vs and secrets m rule: redact_value_redact_items_redact_members.induct)
  case (1 secrets t)
  then show ?case using redactor_text_total [of t secrets] by auto
next
  case (8 secrets k v ms)
  then show ?case using redactor_text_total [of k secrets] by auto
qed auto

text \<open>
  For nonempty UTF-8 secrets, redacting a UTF-8 text or a value whose strings
  are UTF-8 always succeeds: neither the empty-window panic nor the \<open>expect\<close> on the rebuilt string
  is reached.
\<close>

theorem redaction_total:
  assumes "list_all (\<lambda>secret. secret \<noteq> [] \<and> utf8_valid secret) secrets"
    and "utf8_valid t" "json_utf8 v"
  shows "redactor_text secrets t \<noteq> None \<and> redactor_value secrets v \<noteq> None"
  using redactor_text_total [OF assms(2,1)] redact_total(1) [OF assms(1,3)] by (auto simp: redactor_value_def)

theorem redaction_total_witness:
  "redactor_value [''key'', [CHR 0xC3, CHR 0xA9]] (JObject [(''mykey'', JString [CHR 0xC3, CHR 0xA9, CHR 0x78])]) \<noteq> None"
proof -
  have "utf8_valid ''key''" "utf8_valid [CHR 0xC3, CHR 0xA9]" "utf8_valid ''mykey''"
    "utf8_valid [CHR 0xC3, CHR 0xA9, CHR 0x78]"
    unfolding utf8_valid_def by code_simp+
  with redaction_total [of "[''key'', [CHR 0xC3, CHR 0xA9]]" "''mykey''"
      "JObject [(''mykey'', JString [CHR 0xC3, CHR 0xA9, CHR 0x78])]"]
  show ?thesis by simp
qed

end
