(* ===== verification/Worker_Session.thy ===== *)
theory Worker_Session
  imports Wire_Session Redaction_Text
begin

text \<open>
  The worker session (\<open>runtime/worker_session.rs\<close>): one negotiated worker process that executes
  serial typed requests.  The state is what the session keeps; the process, the protocol thread and
  the clock are the environment of a call, which supplies the reply that arrives, the time that has
  passed at every reading of the clock, whether the private directory still passes its check, and the
  result of finalizing managed outputs.  A panic is the error \<open>SessionPanic\<close>.
\<close>

section \<open>State\<close>

datatype worker_phase =
    HelloPhase | MaterializePhase | CheckApplicabilityPhase | PreparePhase | ExecutePhase
  | ResetPhase | EvaluatePhase | ShutdownPhase

type_synonym duration = nat
type_synonym instant = nat

record phase_timeouts =
  pt_hello :: duration
  pt_materialize :: duration
  pt_prepare :: duration
  pt_execute :: duration
  pt_reset :: duration
  pt_evaluate :: duration
  pt_shutdown :: duration

definition default_timeouts :: phase_timeouts where
  "default_timeouts = (let limit = 10 * 1000000000 in
     \<lparr>pt_hello = limit, pt_materialize = limit, pt_prepare = limit, pt_execute = limit,
      pt_reset = limit, pt_evaluate = limit, pt_shutdown = limit\<rparr>)"

record stream_state =
  st_root :: string
  st_bound :: u64
  st_bytes :: u64
  st_count :: u64
  st_awaiting :: bool
  st_stopped :: bool

text \<open>\<open>ws_process\<close> and \<open>ws_sender\<close>: the session owns its process and the channel to the protocol thread.\<close>

record worker_session =
  ws_problem_dir :: "string option"
  ws_stream :: "stream_state option"
  ws_redactor :: redactor
  ws_role :: worker_role
  ws_negotiated :: "negotiated_session option"
  ws_requests :: request_tracker
  ws_timeouts :: phase_timeouts
  ws_scientific_deadline :: "instant option"
  ws_process :: bool
  ws_sender :: bool
  ws_usable :: bool

text \<open>The text of an \<open>io::Error\<close> is not modelled.\<close>

datatype worker_session_error =
    StreamProtocol
  | ManagedOutput
  | ObservationControlMismatch
  | ControlEnforcementLost string
  | RedactedProtocolRead worker_phase
  | StartProtocolThread
  | Handshake handshake_error
  | Request worker_phase request_tracker_error
  | Encode worker_phase message_encode_error
  | ProtocolWrite worker_phase
  | ProtocolRead worker_phase frame_error
  | ProtocolClosed worker_phase
  | ProtocolThreadStopped worker_phase
  | Response worker_phase operation_response_error
  | WorkerFailed worker_phase worker_failure
  | ScientificTimeout worker_phase
  | PhaseTimeout worker_phase duration
  | InvalidRole worker_phase worker_role
  | CapabilityNotSelected worker_phase capability
  | ProcessError worker_phase
  | UnsuccessfulExit worker_phase
  | SessionUnusable
  | SessionPanic string

type_synonym 'a session_result = "('a, worker_session_error) result \<times> worker_session"

text \<open>A call that returns by \<open>?\<close> on an error, with the session as it is then.\<close>

fun sbind :: "'a session_result \<Rightarrow> ('a \<Rightarrow> worker_session \<Rightarrow> 'b session_result) \<Rightarrow> 'b session_result" where
  "sbind (Inl e, s) f = (Inl e, s)"
| "sbind (Inr x, s) f = f x s"

text \<open>What arrives on the reply channel before the limit.\<close>

datatype protocol_reply =
    Frame json
  | Closed
  | WriteFailed
  | ReadFailed frame_error
  | NoReply
  | Disconnected

text \<open>
  \<open>env_started\<close> is the instant the call starts; \<open>env_encoded\<close>, \<open>env_finalized\<close> and \<open>env_decoded\<close>
  are the readings of \<open>started.elapsed()\<close> after encoding, after a failed finalization and after
  decoding.  \<open>env_private\<close> and \<open>env_private_after\<close> say whether the private directory, if there is
  one, passes its check.
\<close>

record session_env =
  env_private :: bool
  env_started :: instant
  env_encoded :: duration
  env_send :: bool
  env_reply :: protocol_reply
  env_finalize :: "json \<Rightarrow> json \<Rightarrow> json option"
  env_finalized :: duration
  env_decoded :: duration
  env_private_after :: bool

section \<open>Discarding\<close>

definition stop_protocol_io :: "worker_session \<Rightarrow> worker_session" where
  "stop_protocol_io s = s\<lparr>ws_sender := False\<rparr>"

definition discard :: "worker_session \<Rightarrow> worker_session" where
  "discard s =
     (if \<not> ws_usable s \<and> \<not> ws_process s then s
      else (stop_protocol_io (s\<lparr>ws_usable := False\<rparr>))\<lparr>ws_process := False\<rparr>)"

text \<open>Termination of the process is attempted first; its result is ignored.\<close>

definition discard_after_timeout :: "worker_session \<Rightarrow> worker_session" where
  "discard_after_timeout s = discard s"

definition ensure_usable :: "worker_session \<Rightarrow> (unit, worker_session_error) result" where
  "ensure_usable s = (if ws_usable s then Inr () else Inl SessionUnusable)"

definition require_role ::
    "worker_phase \<Rightarrow> worker_role \<Rightarrow> worker_session \<Rightarrow> (unit, worker_session_error) result" where
  "require_role phase expected s =
     res_bind (ensure_usable s) (\<lambda>_.
       if ws_role s = expected then Inr () else Inl (InvalidRole phase (ws_role s)))"

definition verify_controls :: "bool \<Rightarrow> worker_session \<Rightarrow> unit session_result" where
  "verify_controls private s =
     (if ws_process s \<and> \<not> private
      then (Inl (ControlEnforcementLost ''private_working_directory''), discard s)
      else (Inr (), s))"

definition session_begin_request :: "worker_phase \<Rightarrow> worker_session \<Rightarrow> request_id session_result" where
  "session_begin_request phase s =
     (case ensure_usable s of
        Inl e \<Rightarrow> (Inl e, s)
      | Inr _ \<Rightarrow>
          (case begin_request (ws_requests s) of
             (r, t) \<Rightarrow> (map_err (Request phase) r, s\<lparr>ws_requests := t\<rparr>)))"

text \<open>\<open>negotiated()\<close>: the capabilities selected, or the panic of its \<open>expect\<close>.\<close>

definition selects :: "worker_session \<Rightarrow> capability \<Rightarrow> bool option" where
  "selects s c = map_option (\<lambda>n. c \<in> set (ns_selected_capabilities n)) (ws_negotiated s)"

definition require_capability ::
    "worker_phase \<Rightarrow> capability \<Rightarrow> worker_session \<Rightarrow> (unit, worker_session_error) result" where
  "require_capability phase c s =
     (case selects s c of
        None \<Rightarrow> Inl (SessionPanic ''a public worker session has completed its handshake'')
      | Some True \<Rightarrow> Inr ()
      | Some False \<Rightarrow> Inl (CapabilityNotSelected phase c))"

section \<open>Exchanges\<close>

text \<open>The limit of an exchange and the error when it passes.\<close>

definition exchange_limit :: "instant option \<Rightarrow> instant \<Rightarrow> duration \<Rightarrow> duration" where
  "exchange_limit deadline started timeout =
     (case deadline of None \<Rightarrow> timeout | Some d \<Rightarrow> min timeout (d - started))"

definition timeout_error :: "instant option \<Rightarrow> instant \<Rightarrow> worker_phase \<Rightarrow> duration \<Rightarrow> worker_session_error" where
  "timeout_error deadline started phase timeout =
     (if (case deadline of None \<Rightarrow> False | Some d \<Rightarrow> d - started \<le> timeout)
      then ScientificTimeout phase else PhaseTimeout phase timeout)"

text \<open>The reply of the protocol thread, or the error and whether a timeout or a failure caused it.\<close>

definition receive ::
    "worker_phase \<Rightarrow> worker_session_error \<Rightarrow> protocol_reply \<Rightarrow> worker_session \<Rightarrow> json session_result" where
  "receive phase timed_out reply s =
     (case reply of
        Frame v \<Rightarrow> (Inr v, s)
      | Closed \<Rightarrow> (Inl (ProtocolClosed phase), discard s)
      | WriteFailed \<Rightarrow> (Inl (ProtocolWrite phase), discard s)
      | ReadFailed e \<Rightarrow>
          (Inl (if redactor_is_empty (ws_redactor s) then ProtocolRead phase e else RedactedProtocolRead phase),
           discard s)
      | NoReply \<Rightarrow> (Inl timed_out, discard_after_timeout s)
      | Disconnected \<Rightarrow> (Inl (ProtocolThreadStopped phase), discard s))"

text \<open>A managed output is finalized in place; \<open>request\<close> is the request as it was encoded.\<close>

definition finalize_managed ::
    "session_env \<Rightarrow> duration \<Rightarrow> worker_session_error \<Rightarrow> json \<Rightarrow> json \<Rightarrow> worker_session \<Rightarrow> json session_result" where
  "finalize_managed E limit timed_out request v s =
     (if value_get v ''draft'' = None then (Inr v, s)
      else if \<not> (case ws_negotiated s of
               None \<Rightarrow> False | Some n \<Rightarrow> ManagedOutputsCap \<in> set (ns_selected_capabilities n))
      then (Inl ManagedOutput, discard s)
      else case managed_output_from v of
        Inl _ \<Rightarrow> (Inl ManagedOutput, discard s)
      | Inr managed \<Rightarrow>
          if Option.bind (value_get request ''method'') as_str \<noteq> Some (managed_output_method managed)
          then (Inl ManagedOutput, discard s)
          else (case env_finalize E request v of
              Some w \<Rightarrow> (Inr w, s)
            | None \<Rightarrow>
                if env_finalized E \<ge> limit then (Inl timed_out, discard_after_timeout s)
                else (Inl ManagedOutput, discard s)))"

text \<open>
  Between the check of the limit and the send, the clock is read once more only to shorten the wait.
  The request is re-read from its own canonical text, which yields the value it was encoded from.
\<close>

definition exchange ::
    "externals \<Rightarrow> session_env \<Rightarrow> worker_phase \<Rightarrow> ('q \<Rightarrow> json) \<Rightarrow> 'r decoder \<Rightarrow> ('r \<Rightarrow> request_id)
     \<Rightarrow> 'q \<Rightarrow> duration \<Rightarrow> worker_session \<Rightarrow> 'r session_result" where
  "exchange X E phase to_value from_value answer_id request timeout s =
     sbind (verify_controls (env_private E) s) (\<lambda>_ s.
      let limit = exchange_limit (ws_scientific_deadline s) (env_started E) timeout;
          timed_out = timeout_error (ws_scientific_deadline s) (env_started E) phase timeout
      in if limit = 0 then (Inl timed_out, discard_after_timeout s)
      else case encode_message X to_value request of
        Inl e \<Rightarrow> (Inl (Encode phase e), discard s)
      | Inr encoded \<Rightarrow>
          if env_encoded E \<ge> limit then (Inl timed_out, discard_after_timeout s)
          else if \<not> ws_sender s
          then (Inl (SessionPanic ''a usable session owns its protocol sender''), s)
          else if \<not> env_send E then (Inl (ProtocolThreadStopped phase), discard s)
          else sbind (receive phase timed_out (env_reply E) s) (\<lambda>v s.
            case redactor_value (ws_redactor s) v of
              None \<Rightarrow> (Inl (SessionPanic ''UTF-8 secret replacement''), s)
            | Some v \<Rightarrow>
                sbind (finalize_managed E limit timed_out (to_value request) v s) (\<lambda>v s.
                  case decode_operation_response from_value answer_id v (ws_requests s) of (decoded, requests) \<Rightarrow>
                  let s = s\<lparr>ws_requests := requests\<rparr>
                  in if env_decoded E \<ge> limit then (Inl timed_out, discard_after_timeout s)
                  else sbind (verify_controls (env_private_after E) s) (\<lambda>_ s.
                    case decoded of
                      Inr (OperationSuccess r) \<Rightarrow> (Inr r, s)
                    | Inr (OperationFailure f) \<Rightarrow> (Inl (WorkerFailed phase f), s)
                    | Inl e \<Rightarrow> (Inl (Response phase e), discard s)))))"

section \<open>Operations\<close>

text \<open>Capabilities a worker reports are selected on top of those the plan asks for.\<close>

definition select_reported :: "worker_role \<Rightarrow> capability list \<Rightarrow> capability list \<Rightarrow> capability list" where
  "select_reported role reported selected =
     (let selected = (if role = ProblemEvaluator \<and> ProblemSemanticsCap \<in> set reported
            then selected @ [ProblemSemanticsCap] else selected);
          selected = (if ManagedOutputsCap \<in> set reported then selected @ [ManagedOutputsCap] else selected)
      in if ProblemPreparationCap \<in> set reported \<and> ProblemPreparationCap \<notin> set selected
         then selected @ [ProblemPreparationCap] else selected)"

definition session_new ::
    "redactor \<Rightarrow> worker_role \<Rightarrow> phase_timeouts \<Rightarrow> instant option \<Rightarrow> worker_session" where
  "session_new redactor role timeouts deadline =
     \<lparr>ws_problem_dir = None, ws_stream = None, ws_redactor = redactor, ws_role = role,
      ws_negotiated = None, ws_requests = tracker_new, ws_timeouts = timeouts,
      ws_scientific_deadline = deadline, ws_process = True, ws_sender = True, ws_usable = True\<rparr>"

definition connect_with_deadline ::
    "externals \<Rightarrow> session_env \<Rightarrow> bool \<Rightarrow> redactor \<Rightarrow> worker_role \<Rightarrow> worker_identity \<Rightarrow> capability list
     \<Rightarrow> phase_timeouts \<Rightarrow> instant option \<Rightarrow> (worker_session, worker_session_error) result" where
  "connect_with_deadline X E thread_started redactor role worker_id selected timeouts deadline =
     (if \<not> thread_started then Inl StartProtocolThread
      else case sbind (session_begin_request HelloPhase (session_new redactor role timeouts deadline)) (\<lambda>i s.
          let request = hello_request_new i role worker_id
          in sbind (exchange X E HelloPhase hello_request_value hello_response_from hr_id request
              (pt_hello (ws_timeouts s)) s) (\<lambda>response s.
            case validate_hello_response request response
                (select_reported role (hr_capabilities response) selected) of
              Inr negotiated \<Rightarrow> (Inr (), s\<lparr>ws_negotiated := Some negotiated\<rparr>)
            | Inl e \<Rightarrow> (Inl (Handshake e), discard s))) of
        (Inl e, _) \<Rightarrow> Inl e
      | (Inr _, s) \<Rightarrow> Inr s)"

definition set_problem_directory :: "string option \<Rightarrow> worker_session \<Rightarrow> unit session_result" where
  "set_problem_directory directory s =
     (if directory = None then (Inr (), s\<lparr>ws_problem_dir := directory\<rparr>)
      else case require_capability (if ws_role s = ProblemEvaluator then EvaluatePhase else PreparePhase)
          ProblemPreparationCap s of
        Inl e \<Rightarrow> (Inl e, s)
      | Inr _ \<Rightarrow> (Inr (), s\<lparr>ws_problem_dir := directory\<rparr>))"

definition set_scientific_deadline :: "instant option \<Rightarrow> worker_session \<Rightarrow> worker_session" where
  "set_scientific_deadline deadline s = s\<lparr>ws_scientific_deadline := deadline\<rparr>"

text \<open>The guards of an operation: its role, then the capability it needs, then the next request.\<close>

definition guarded ::
    "worker_phase \<Rightarrow> worker_role \<Rightarrow> capability option \<Rightarrow> worker_session \<Rightarrow> request_id session_result" where
  "guarded phase role needed s =
     sbind (require_role phase role s, s) (\<lambda>_ s.
     sbind (case needed of None \<Rightarrow> Inr () | Some c \<Rightarrow> require_capability phase c s, s) (\<lambda>_ s.
     session_begin_request phase s))"

definition materialize ::
    "externals \<Rightarrow> session_env \<Rightarrow> string \<Rightarrow> json \<Rightarrow> u64 \<Rightarrow> string \<Rightarrow> worker_session
     \<Rightarrow> materialize_response session_result" where
  "materialize X E source_dir parameters seed output_dir s =
     sbind (guarded MaterializePhase DatasetMaterializer None s) (\<lambda>i s.
     exchange X E MaterializePhase materialize_request_value materialize_response_from mr_id
       \<lparr>mq_id = i, mq_source_dir = source_dir, mq_dataset_parameters = parameters,
        mq_dataset_seed = seed, mq_output_dir = output_dir\<rparr> (pt_materialize (ws_timeouts s)) s)"

definition prepare_problem ::
    "externals \<Rightarrow> session_env \<Rightarrow> string \<Rightarrow> string \<Rightarrow> json \<Rightarrow> string \<Rightarrow> worker_session
     \<Rightarrow> materialize_response session_result" where
  "prepare_problem X E dataset_dir contract parameters output_dir s =
     sbind (guarded MaterializePhase ProblemPreparer None s) (\<lambda>i s.
     exchange X E MaterializePhase prepare_problem_request_value materialize_response_from mr_id
       \<lparr>ppq_id = i, ppq_dataset_dir = dataset_dir, ppq_problem_contract_id = contract,
        ppq_problem_parameters = parameters, ppq_output_dir = output_dir\<rparr>
       (pt_materialize (ws_timeouts s)) s)"

definition check_applicability ::
    "externals \<Rightarrow> session_env \<Rightarrow> string \<Rightarrow> string \<Rightarrow> string \<Rightarrow> json \<Rightarrow> json \<Rightarrow> worker_session
     \<Rightarrow> (check_applicability_request \<times> check_applicability_response) session_result" where
  "check_applicability X E dataset_dir dataset_manifest contract problem implementation s =
     sbind (guarded CheckApplicabilityPhase ImplementationRole (Some ApplicabilityCap) s) (\<lambda>i s.
     let request = (check_applicability_request_new i dataset_dir dataset_manifest contract problem implementation)
           \<lparr>caq_problem_dir := ws_problem_dir s\<rparr>
     in sbind (exchange X E CheckApplicabilityPhase check_applicability_request_value
         check_applicability_response_from car_id request (pt_prepare (ws_timeouts s)) s) (\<lambda>response s.
       (Inr (request, response), s)))"

definition prepare ::
    "externals \<Rightarrow> session_env \<Rightarrow> string \<Rightarrow> string \<Rightarrow> json \<Rightarrow> json \<Rightarrow> u64 \<Rightarrow> worker_session
     \<Rightarrow> acknowledgement session_result" where
  "prepare X E dataset_dir contract problem implementation seed s =
     sbind (guarded PreparePhase ImplementationRole None s) (\<lambda>i s.
     exchange X E PreparePhase prepare_request_value acknowledgement_from ack_id
       ((prepare_request_new i dataset_dir contract problem implementation seed)\<lparr>pq_problem_dir := ws_problem_dir s\<rparr>)
       (pt_prepare (ws_timeouts s)) s)"

definition control_matches :: "json option \<Rightarrow> json option \<Rightarrow> bool" where
  "control_matches expected actual =
     (case (expected, actual) of
        (None, None) \<Rightarrow> True
      | (Some e, Some a) \<Rightarrow>
          (case (normalize_value e, normalize_value a) of (Inr e, Inr a) \<Rightarrow> e = a | _ \<Rightarrow> False)
      | _ \<Rightarrow> False)"

definition execute_control ::
    "externals \<Rightarrow> session_env \<Rightarrow> string \<Rightarrow> json option \<Rightarrow> worker_session \<Rightarrow> execute_response session_result" where
  "execute_control X E result_dir control s =
     sbind (guarded ExecutePhase ImplementationRole
         (Some (if control \<noteq> None then FreshSequenceCap else OneShotCap)) s) (\<lambda>i s.
     let request = (case control of
           None \<Rightarrow> execute_request_new i result_dir
         | Some c \<Rightarrow> with_observation_control (execute_request_new i result_dir) c)
     in sbind (exchange X E ExecutePhase execute_request_value execute_response_from xr_id request
         (pt_execute (ws_timeouts s)) s) (\<lambda>response s.
       if control_matches control (xr_observation_control response) then (Inr response, s)
       else (Inl ObservationControlMismatch, discard s)))"

definition execute_buffered ::
    "externals \<Rightarrow> session_env \<Rightarrow> string \<Rightarrow> json \<Rightarrow> worker_session \<Rightarrow> execute_buffered_response session_result" where
  "execute_buffered X E result_root profile s =
     sbind (guarded ExecutePhase ImplementationRole (Some BufferedProfileCap) s) (\<lambda>i s.
     exchange X E ExecutePhase execute_buffered_request_value execute_buffered_response_from xbr_id
       \<lparr>xbq_id = i, xbq_result_root = result_root, xbq_profile = profile\<rparr> (pt_execute (ws_timeouts s)) s)"

definition reset :: "externals \<Rightarrow> session_env \<Rightarrow> worker_session \<Rightarrow> acknowledgement session_result" where
  "reset X E s =
     sbind (guarded ResetPhase ImplementationRole None s) (\<lambda>i s.
     case exchange X E ResetPhase reset_request_value acknowledgement_from ack_id \<lparr>rq_id = i\<rparr>
         (pt_reset (ws_timeouts s)) s of
       (Inl e, s) \<Rightarrow> (Inl e, discard s)
     | (Inr r, s) \<Rightarrow> (Inr r, s))"

definition evaluate ::
    "externals \<Rightarrow> session_env \<Rightarrow> string \<Rightarrow> string \<Rightarrow> json \<Rightarrow> json \<Rightarrow> string \<Rightarrow> string \<Rightarrow> worker_session
     \<Rightarrow> evaluate_response session_result" where
  "evaluate X E dataset_dir contract problem semantics result_dir metrics s =
     sbind (guarded EvaluatePhase ProblemEvaluator None s) (\<lambda>i s.
     let request = (evaluate_request_new i dataset_dir contract problem result_dir metrics)
           \<lparr>eq_problem_dir := ws_problem_dir s\<rparr>
     in case selects s ProblemSemanticsCap of
          None \<Rightarrow> (Inl (SessionPanic ''a public worker session has completed its handshake''), s)
        | Some given \<Rightarrow>
            exchange X E EvaluatePhase evaluate_request_value evaluate_response_from er_id
              (if given then with_problem_semantics request semantics else request)
              (pt_evaluate (ws_timeouts s)) s)"

text \<open>
  Shutdown consumes the session.  The environment supplies whether polling the process fails, whether
  it has exited before the limit, and the outcome of waiting for it.
\<close>

datatype exit_poll = Exited | StillRunning | PollFailed

definition shutdown ::
    "externals \<Rightarrow> session_env \<Rightarrow> exit_poll \<Rightarrow> bool \<Rightarrow> bool option \<Rightarrow> worker_session
     \<Rightarrow> (unit, worker_session_error) result" where
  "shutdown X E poll private waited s =
     fst (sbind (ensure_usable s, s) (\<lambda>_ s.
     sbind (session_begin_request ShutdownPhase s) (\<lambda>i s.
     sbind (exchange X E ShutdownPhase shutdown_request_value acknowledgement_from ack_id \<lparr>sq_id = i\<rparr>
         (pt_shutdown (ws_timeouts s)) s) (\<lambda>_ s.
     let s = stop_protocol_io s
     in if \<not> ws_process s then (Inl (SessionPanic ''a usable session owns its worker process''), s)
     else case poll of
       PollFailed \<Rightarrow> (Inl (ProcessError ShutdownPhase), s)
     | StillRunning \<Rightarrow>
         (Inl (PhaseTimeout ShutdownPhase (pt_shutdown (ws_timeouts s))), discard_after_timeout s)
     | Exited \<Rightarrow>
         sbind (verify_controls private s) (\<lambda>_ s.
         if \<not> ws_process s then (Inl (SessionPanic ''a usable session owns its worker process''), s)
         else case waited of
           None \<Rightarrow> (Inl (ProcessError ShutdownPhase), s\<lparr>ws_process := False\<rparr>)
         | Some ok \<Rightarrow>
             if ok then (Inr (), s\<lparr>ws_process := False\<rparr>)
             else (Inl (UnsuccessfulExit ShutdownPhase), s\<lparr>ws_process := False\<rparr>))))))"

end
