(* ===== verification/Worker_Stream.thy ===== *)
theory Worker_Stream
  imports Worker_Session Schema_Catalog
begin

text \<open>
  Streaming executions (\<open>runtime/worker_session/streaming.rs\<close>): one request stays pending while the
  worker sends checkpoints and the session answers each with a decision.  Message texts are not
  modelled.  The directory checks of a draft and its path arithmetic belong to the environment.
\<close>

datatype stream_message = CheckpointMessage stream_checkpoint | FinishedMessage execute_stream_response

record stream_env = session_env +
  senv_snapshot :: "string \<Rightarrow> u64 \<Rightarrow> (string \<times> string) option"
  senv_relative :: "string \<Rightarrow> string option"

definition stream_error :: "worker_session \<Rightarrow> 'a session_result" where
  "stream_error s = (Inl StreamProtocol, discard s)"

text \<open>\<open>value[key]\<close> on any value, and \<open>as_u64().unwrap_or(0)\<close>.\<close>

definition value_index :: "json \<Rightarrow> string \<Rightarrow> json" where
  "value_index v k = (case value_get v k of None \<Rightarrow> JNull | Some w \<Rightarrow> w)"

definition u64_or_zero :: "json \<Rightarrow> u64" where
  "u64_or_zero v = (case v of JNumber n \<Rightarrow> (case number_as_u64 n of Some k \<Rightarrow> k | None \<Rightarrow> 0) | _ \<Rightarrow> 0)"

definition is_windows_drive_path :: "string \<Rightarrow> bool" where
  "is_windows_drive_path v =
     (case v of a # b # c # _ \<Rightarrow>
        (65 \<le> byte_of a \<and> byte_of a \<le> 90 \<or> 97 \<le> byte_of a \<and> byte_of a \<le> 122)
        \<and> b = CHR '':'' \<and> c = CHR ''/''
      | _ \<Rightarrow> False)"

definition validate_relative_path :: "string \<Rightarrow> bool" where
  "validate_relative_path v \<longleftrightarrow> \<not> (v = [] \<or> hd v = CHR ''/'' \<or> last v = CHR ''/''
     \<or> list_ex (\<lambda>i. take 2 (drop i v) = ''//'') [0..<length v]
     \<or> CHR 0x5C \<in> set v
     \<or> is_windows_drive_path v
     \<or> list_ex (\<lambda>c. c = [] \<or> c = ''.'' \<or> c = ''..'') (str_split (CHR ''/'') v))"

definition DRAFT_OVERHEAD :: u64 where
  "DRAFT_OVERHEAD = 16"

text \<open>What a checkpoint must satisfy before its snapshot is looked at.\<close>

definition checkpoint_unexpected :: "stream_state \<Rightarrow> request_id \<Rightarrow> stream_checkpoint \<Rightarrow> bool" where
  "checkpoint_unexpected st pending c \<longleftrightarrow> st_stopped st
     \<or> sc_id c \<noteq> pending
     \<or> sc_sequence c \<noteq> st_count st
     \<or> st_count st \<ge> st_bound st
     \<or> list_ex (\<lambda>kn. snd kn > MAX_SAFE_INTEGER) (sc_work c)
     \<or> (sc_manifest c \<noteq> None) = (sc_draft c \<noteq> None)"

text \<open>A draft is finalized and replaced by the manifest it yields; \<open>StreamProtocol\<close> by \<open>?\<close> keeps the session.\<close>

definition finalize_draft ::
    "stream_env \<Rightarrow> duration \<Rightarrow> worker_session_error \<Rightarrow> stream_state \<Rightarrow> stream_checkpoint \<Rightarrow> json
     \<Rightarrow> worker_session \<Rightarrow> json session_result" where
  "finalize_draft E limit timed_out st c v s =
     (case sc_draft c of
        None \<Rightarrow> (Inr v, s)
      | Some draft \<Rightarrow>
          (case selects s ManagedOutputsCap of
             None \<Rightarrow> (Inl (SessionPanic ''a public worker session has completed its handshake''), s)
           | Some False \<Rightarrow> stream_error s
           | Some True \<Rightarrow>
               (case senv_snapshot E draft (saturating_add (st_bytes st) DRAFT_OVERHEAD) of
                  None \<Rightarrow> stream_error s
                | Some (directory, nm) \<Rightarrow>
                    let managed = ser_object [(''id'', JString (sc_id c)), (''ok'', JBool True), (''draft'', JString nm)];
                        request = ser_object [(''id'', JString (sc_id c)), (''method'', JString ''execute''),
                          (''result_dir'', JString directory)]
                    in (case env_finalize E request managed of
                      None \<Rightarrow>
                        if env_finalized E \<ge> limit then (Inl timed_out, discard_after_timeout s) else stream_error s
                    | Some _ \<Rightarrow>
                        (case senv_relative E draft of
                           None \<Rightarrow> (Inl StreamProtocol, s)
                         | Some manifest \<Rightarrow>
                             (case v of
                                JObject m \<Rightarrow>
                                  (Inr (JObject (ord_insert ''manifest'' (JString manifest)
                                    (filter (\<lambda>kv. fst kv \<noteq> ''draft'') m))), s)
                              | _ \<Rightarrow> (Inl (SessionPanic ''checkpoint''), s)))))))"

definition accept_checkpoint ::
    "stream_env \<Rightarrow> duration \<Rightarrow> worker_session_error \<Rightarrow> json \<Rightarrow> worker_session \<Rightarrow> stream_message session_result" where
  "accept_checkpoint E limit timed_out v s =
     (case decode_message stream_checkpoint_from v of
        Inl _ \<Rightarrow> stream_error s
      | Inr c \<Rightarrow>
          (case ws_stream s of
             None \<Rightarrow> (Inl (SessionPanic ''active stream''), s)
           | Some st \<Rightarrow>
               if st_stopped st then stream_error s
               else (case rt_pending (ws_requests s) of
                 None \<Rightarrow> (Inl (SessionPanic ''pending stream''), s)
               | Some pending \<Rightarrow>
                   if checkpoint_unexpected st pending c then stream_error s
                   else sbind (finalize_draft E limit timed_out st c v s) (\<lambda>v s.
                     case stream_checkpoint_from v of
                       Inl _ \<Rightarrow> (Inl (SessionPanic ''finalized checkpoint''), s)
                     | Inr c \<Rightarrow>
                         (case sc_manifest c of
                            None \<Rightarrow> (Inl (SessionPanic ''manifest''), s)
                          | Some manifest \<Rightarrow>
                              if \<not> validate_relative_path manifest then stream_error s
                              else if env_decoded E \<ge> limit then (Inl timed_out, discard_after_timeout s)
                              else (Inr (CheckpointMessage c),
                                s\<lparr>ws_stream := Some (st\<lparr>st_count := st_count st + 1, st_awaiting := True\<rparr>)\<rparr>))))))"

definition finish_stream ::
    "stream_env \<Rightarrow> json \<Rightarrow> worker_session \<Rightarrow> stream_message session_result" where
  "finish_stream E v s =
     (case decode_operation_response execute_stream_response_from xsr_id v (ws_requests s) of
        (response, requests) \<Rightarrow>
          let s = s\<lparr>ws_requests := requests\<rparr>
          in (case ws_stream s of
                None \<Rightarrow> (Inl (SessionPanic ''active stream''), s)
              | Some st \<Rightarrow>
                  (case response of
                     Inr (OperationSuccess r) \<Rightarrow>
                       if xsr_checkpoint_count r = st_count st
                       then sbind (verify_controls (env_private_after E) s) (\<lambda>_ s.
                         (Inr (FinishedMessage r), s\<lparr>ws_stream := None\<rparr>))
                       else stream_error s
                   | Inr (OperationFailure f) \<Rightarrow> (Inl (WorkerFailed ExecutePhase f), discard s)
                   | Inl e \<Rightarrow> (Inl (Response ExecutePhase e), discard s))))"

definition stream_frame ::
    "stream_env \<Rightarrow> bool \<Rightarrow> worker_session \<Rightarrow> stream_message session_result" where
  "stream_frame E stopping s =
     sbind (ensure_usable s, s) (\<lambda>_ s.
     sbind (verify_controls (env_private E) s) (\<lambda>_ s.
     let timeout = (if stopping then pt_shutdown (ws_timeouts s) else pt_execute (ws_timeouts s));
         deadline = (if stopping then None else ws_scientific_deadline s);
         limit = exchange_limit deadline (env_started E) timeout;
         timed_out = timeout_error deadline (env_started E) ExecutePhase timeout
     in if limit = 0 then (Inl timed_out, discard_after_timeout s)
     else if \<not> ws_sender s then (Inl (SessionPanic ''usable session''), s)
     else if \<not> env_send E then (Inl (ProtocolThreadStopped ExecutePhase), discard s)
     else sbind (receive ExecutePhase timed_out (env_reply E) s) (\<lambda>v s.
       case redactor_value (ws_redactor s) v of
         None \<Rightarrow> (Inl (SessionPanic ''UTF-8 secret replacement''), s)
       | Some v \<Rightarrow>
           if value_get v ''event'' = None then finish_stream E v s
           else accept_checkpoint E limit timed_out v s)))"

definition start_stream ::
    "externals \<Rightarrow> stream_env \<Rightarrow> string \<Rightarrow> json \<Rightarrow> worker_session \<Rightarrow> stream_message session_result" where
  "start_stream X E result_root profile s =
     sbind (guarded ExecutePhase ImplementationRole (Some StreamingProfileCap) s) (\<lambda>i s.
     let s = s\<lparr>ws_stream := Some \<lparr>st_root = result_root,
           st_bound = u64_or_zero (value_index (value_index profile ''policy'') ''max-observations''),
           st_bytes = u64_or_zero (value_index (value_index profile ''policy'') ''max-checkpoint-bytes''),
           st_count = 0, st_awaiting = False, st_stopped = False\<rparr>\<rparr>
     in case encode_message X execute_stream_request_value
            \<lparr>xsq_id = i, xsq_result_root = result_root, xsq_profile = profile\<rparr> of
          Inl e \<Rightarrow> (Inl (Encode ExecutePhase e), s)
        | Inr encoded \<Rightarrow> stream_frame E False s)"

definition decide_stream ::
    "externals \<Rightarrow> stream_env \<Rightarrow> stream_action \<Rightarrow> string option \<Rightarrow> worker_session \<Rightarrow> stream_message session_result" where
  "decide_stream X E action reason s =
     (case ws_stream s of
        None \<Rightarrow> (Inl StreamProtocol, s)
      | Some st \<Rightarrow>
          if \<not> st_awaiting st \<or> st_stopped st then stream_error s
          else (case rt_pending (ws_requests s) of
            None \<Rightarrow> (Inl (SessionPanic ''active stream request''), s)
          | Some i \<Rightarrow>
              if st_count st = 0 then (Inl (SessionPanic ''attempt to subtract with overflow''), s)
              else
                let s = s\<lparr>ws_stream := Some (st\<lparr>st_awaiting := False, st_stopped := (action = StopStream)\<rparr>)\<rparr>
                in (case encode_message X stream_decision_value
                       \<lparr>sd_id = i, sd_sequence = st_count st - 1, sd_action = action, sd_reason = reason\<rparr> of
                      Inl e \<Rightarrow> (Inl (Encode ExecutePhase e), s)
                    | Inr encoded \<Rightarrow> stream_frame E (action = StopStream) s)))"

end
