(* ===== verification/Worker_Laws.thy ===== *)
theory Worker_Laws
  imports Worker_Stream
begin

text \<open>
  The contract of a worker session over any sequence of calls: a usable session owns its process and
  channel, has at most one pending request, and has one exactly while a stream is active; a discarded
  session stays discarded; and no call panics.
\<close>

section \<open>The invariant\<close>

definition secrets_wf :: "redactor \<Rightarrow> bool" where
  "secrets_wf secrets \<longleftrightarrow> list_all (\<lambda>secret. secret \<noteq> [] \<and> utf8_valid secret) secrets"

text \<open>The part that holds during the handshake as well.\<close>

definition session_live :: "worker_session \<Rightarrow> bool" where
  "session_live s \<longleftrightarrow> tracker_wf (ws_requests s) \<and> secrets_wf (ws_redactor s)
     \<and> (ws_usable s \<longrightarrow> ws_process s \<and> ws_sender s)"

definition stream_wf :: "worker_session \<Rightarrow> bool" where
  "stream_wf s \<longleftrightarrow> (case ws_stream s of
       None \<Rightarrow> True
     | Some st \<Rightarrow> st_count st \<le> st_bound st
         \<and> (st_awaiting st \<longrightarrow> 0 < st_count st \<and> rt_pending (ws_requests s) \<noteq> None))"

definition session_wf :: "worker_session \<Rightarrow> bool" where
  "session_wf s \<longleftrightarrow> session_live s \<and> stream_wf s \<and> ws_negotiated s \<noteq> None
     \<and> (ws_usable s \<longrightarrow> (rt_pending (ws_requests s) \<noteq> None) = (ws_stream s \<noteq> None))"

text \<open>The strings of a frame are UTF-8: the frame reader has checked the line.\<close>

definition reply_wf :: "protocol_reply \<Rightarrow> bool" where
  "reply_wf reply = (case reply of Frame v \<Rightarrow> json_utf8 v | _ \<Rightarrow> True)"

section \<open>Discarding\<close>

text \<open>A failed call that discarded the session, possibly after the pending request was answered.\<close>

definition fails_closed :: "worker_session \<Rightarrow> 'a session_result \<Rightarrow> bool" where
  "fails_closed s x \<longleftrightarrow> (\<exists>e t. x = (Inl e, discard (s\<lparr>ws_requests := t\<rparr>)) \<and> (\<forall>m. e \<noteq> SessionPanic m)
     \<and> (t = ws_requests s \<or> t = (ws_requests s)\<lparr>rt_pending := None\<rparr>))"

lemma fails_closedI: "(\<And>m. e \<noteq> SessionPanic m) \<Longrightarrow> fails_closed s (Inl e, discard s)"
  unfolding fails_closed_def by (intro exI [of _ e] exI [of _ "ws_requests s"]) simp

lemma fails_closed_answered:
  "(\<And>m. e \<noteq> SessionPanic m) \<Longrightarrow> fails_closed s (Inl e, discard (s\<lparr>ws_requests := (ws_requests s)\<lparr>rt_pending := None\<rparr>\<rparr>))"
  unfolding fails_closed_def by (intro exI [of _ e] exI [of _ "(ws_requests s)\<lparr>rt_pending := None\<rparr>"]) simp

lemma fails_closed_sbind: "fails_closed s (Inl e, s') \<Longrightarrow> fails_closed s (sbind (Inl e, s') f)"
  by (simp add: fails_closed_def)

lemma discard_usable [simp]: "\<not> ws_usable (discard s)"
  by (simp add: discard_def stop_protocol_io_def)

lemma discard_keeps [simp]:
  "ws_requests (discard s) = ws_requests s" "ws_stream (discard s) = ws_stream s"
  "ws_negotiated (discard s) = ws_negotiated s" "ws_redactor (discard s) = ws_redactor s"
  "ws_role (discard s) = ws_role s" "ws_timeouts (discard s) = ws_timeouts s"
  by (simp_all add: discard_def stop_protocol_io_def)

lemma tracker_wf_None [simp]: "tracker_wf t \<Longrightarrow> tracker_wf (t\<lparr>rt_pending := None\<rparr>)"
  by (simp add: tracker_wf_def)

section \<open>Exchanges\<close>

text \<open>The outcomes of a decoded response, by what it leaves of the pending request.\<close>

lemma decode_operation_cases:
  assumes "decode_operation_response from_value answer_id v t = (r, t')"
  shows "t' = t \<and> (\<exists>e. r = Inl e) \<or> t' = t\<lparr>rt_pending := None\<rparr> \<and> rt_pending t \<noteq> None"
  using assms
  by (auto simp: decode_operation_response_def complete_response_def
      split: sum.splits option.splits if_splits)

lemma verify_controls_cases:
  "verify_controls p s = (Inr (), s) \<or> (\<exists>e. verify_controls p s = (Inl e, discard s) \<and> (\<forall>m. e \<noteq> SessionPanic m))"
  by (simp add: verify_controls_def)

lemma receive_cases:
  assumes "\<And>m. timed_out \<noteq> SessionPanic m"
  shows "(\<exists>v. reply = Frame v \<and> receive phase timed_out reply s = (Inr v, s))
    \<or> (\<exists>e. receive phase timed_out reply s = (Inl e, discard s) \<and> (\<forall>m. e \<noteq> SessionPanic m))"
  using assms by (cases reply) (auto simp: receive_def discard_after_timeout_def)

lemma finalize_managed_cases:
  assumes "\<And>m. timed_out \<noteq> SessionPanic m"
  shows "(\<exists>w. finalize_managed E limit timed_out request v s = (Inr w, s))
    \<or> (\<exists>e. finalize_managed E limit timed_out request v s = (Inl e, discard s) \<and> (\<forall>m. e \<noteq> SessionPanic m))"
  using assms by (auto simp: finalize_managed_def discard_after_timeout_def split: sum.split option.split)

lemma timeout_error_no_panic [simp]: "timeout_error deadline started phase timeout \<noteq> SessionPanic m"
  by (simp add: timeout_error_def)

lemma redactor_value_total:
  "secrets_wf secrets \<Longrightarrow> json_utf8 v \<Longrightarrow> \<exists>w. redactor_value secrets v = Some w"
  using redact_total(1) [of secrets v] by (auto simp: secrets_wf_def redactor_value_def)

text \<open>
  An exchange either answers the pending request, with a response or the worker's own failure, and
  changes nothing else of the session, or it fails and discards the session.
\<close>

definition answered :: "worker_phase \<Rightarrow> worker_session \<Rightarrow> 'a session_result \<Rightarrow> bool" where
  "answered phase s x \<longleftrightarrow> snd x = s\<lparr>ws_requests := (ws_requests s)\<lparr>rt_pending := None\<rparr>\<rparr>
     \<and> rt_pending (ws_requests s) \<noteq> None
     \<and> (case fst x of Inr _ \<Rightarrow> True | Inl e \<Rightarrow> \<exists>f. e = WorkerFailed phase f)"

lemma conclude_exchange:
  fixes from_value :: "'r decoder"
  assumes "decode_operation_response from_value answer_id v (ws_requests s) = (decoded, requests)"
  shows "let s1 = s\<lparr>ws_requests := requests\<rparr>;
      x = sbind (verify_controls ok s1) (\<lambda>_ s. case decoded of
          Inr (OperationSuccess r) \<Rightarrow> (Inr r, s)
        | Inr (OperationFailure f) \<Rightarrow> (Inl (WorkerFailed phase f), s)
        | Inl e \<Rightarrow> (Inl (Response phase e), discard s))
      in answered phase s x \<or> fails_closed s x"
proof -
  let ?s = "s\<lparr>ws_requests := requests\<rparr>"
  have closed: "fails_closed s ((Inl e, discard ?s) :: 'r session_result)" if "\<And>m. e \<noteq> SessionPanic m" for e
    using decode_operation_cases [OF assms] that fails_closedI [of e s] fails_closed_answered [of e s] by auto
  show ?thesis
  proof (cases "verify_controls ok ?s = (Inr (), ?s)")
    case True
    with decode_operation_cases [OF assms] closed show ?thesis
      by (auto simp: answered_def split: sum.split operation_response.split)
  next
    case False
    with verify_controls_cases [of ok ?s] closed show ?thesis by (auto simp: Let_def)
  qed
qed

lemma exchange_outcome:
  fixes from_value :: "'r decoder"
  assumes "session_live s" "ws_usable s" "reply_wf (env_reply E)"
  shows "answered phase s (exchange X E phase to_value from_value answer_id request timeout s)
    \<or> fails_closed s (exchange X E phase to_value from_value answer_id request timeout s)"
proof -
  let ?limit = "exchange_limit (ws_scientific_deadline s) (env_started E) timeout"
  let ?timed_out = "timeout_error (ws_scientific_deadline s) (env_started E) phase timeout"
  note R = receive_cases [of ?timed_out "env_reply E" phase s, OF timeout_error_no_panic]
  show ?thesis
  proof (cases "verify_controls (env_private E) s = (Inr (), s)")
    case False
    with verify_controls_cases [of "env_private E" s] show ?thesis
      by (intro disjI2) (auto simp: exchange_def intro!: fails_closedI)
  next
    case ctl: True
    show ?thesis
    proof (cases "?limit = 0 \<or> (\<exists>e. encode_message X to_value request = Inl e) \<or> env_encoded E \<ge> ?limit \<or> \<not> env_send E
        \<or> \<not> (\<exists>v. env_reply E = Frame v)")
      case True
      with R assms(1,2) ctl show ?thesis
        by (intro disjI2) (auto simp: exchange_def Let_def discard_after_timeout_def session_live_def
            intro!: fails_closedI split: sum.split)
    next
      case False
      then obtain encoded v where ok: "?limit \<noteq> 0" "encode_message X to_value request = Inr encoded"
        "\<not> env_encoded E \<ge> ?limit" "env_send E" "env_reply E = Frame v"
        by (cases "encode_message X to_value request") auto
      from assms ok(5) obtain w where w: "redactor_value (ws_redactor s) v = Some w"
        using redactor_value_total [of "ws_redactor s" v] by (auto simp: session_live_def reply_wf_def)
      have sender: "ws_sender s" using assms by (simp add: session_live_def)
      note F = finalize_managed_cases [of ?timed_out E ?limit "to_value request" w s, OF timeout_error_no_panic]
      show ?thesis
      proof (cases "\<exists>u. finalize_managed E ?limit ?timed_out (to_value request) w s = (Inr u, s)")
        case False
        with F ok ctl w sender show ?thesis
          by (intro disjI2) (auto simp: exchange_def Let_def receive_def intro!: fails_closedI)
      next
        case True
        then obtain u where u: "finalize_managed E ?limit ?timed_out (to_value request) w s = (Inr u, s)" by blast
        obtain decoded requests where d: "decode_operation_response from_value answer_id u (ws_requests s) = (decoded, requests)"
          by (cases "decode_operation_response from_value answer_id u (ws_requests s)")
        have late: "fails_closed s ((Inl ?timed_out, discard (s\<lparr>ws_requests := requests\<rparr>)) :: 'r session_result)"
          using decode_operation_cases [OF d] fails_closedI [of ?timed_out s] fails_closed_answered [of ?timed_out s] by auto
        from conclude_exchange [OF d, of "env_private_after E" phase] late ok ctl w sender u d show ?thesis
          by (simp add: exchange_def Let_def receive_def discard_after_timeout_def)
      qed
    qed
  qed
qed

section \<open>Operations\<close>

text \<open>
  The contract of an operation: it keeps the invariant, does not panic, and fails on a discarded
  session without reviving it.
\<close>

locale session_operation =
  fixes call :: "'e session_env_scheme \<Rightarrow> worker_session \<Rightarrow> 'a session_result"
    and permitted :: "'e session_env_scheme \<Rightarrow> bool"
  assumes keeps_wf: "permitted E \<Longrightarrow> session_wf s \<Longrightarrow> session_wf (snd (call E s))"
    and no_panic: "permitted E \<Longrightarrow> session_wf s \<Longrightarrow> fst (call E s) \<noteq> Inl (SessionPanic m)"
    and stays_discarded: "session_wf s \<Longrightarrow> \<not> ws_usable s \<Longrightarrow> \<not> ws_usable (snd (call E s))"
    and fails_discarded: "session_wf s \<Longrightarrow> \<not> ws_usable s \<Longrightarrow> \<exists>e. fst (call E s) = Inl e"
begin

lemma success_from_usable: "permitted E \<Longrightarrow> session_wf s \<Longrightarrow> fst (call E s) = Inr x \<Longrightarrow> ws_usable s"
  by (metis Inr_Inl_False fails_discarded)

lemma usable_before: "session_wf s \<Longrightarrow> ws_usable (snd (call E s)) \<Longrightarrow> ws_usable s"
  using stays_discarded by blast

end

text \<open>Between the guards of an operation and its answer.\<close>

definition busy :: "worker_session \<Rightarrow> bool" where
  "busy s \<longleftrightarrow> session_live s \<and> ws_usable s \<and> ws_negotiated s \<noteq> None \<and> ws_stream s = None
     \<and> rt_pending (ws_requests s) \<noteq> None"

definition closes :: "'a session_result \<Rightarrow> bool" where
  "closes x \<longleftrightarrow> session_wf (snd x) \<and> (\<forall>m. fst x \<noteq> Inl (SessionPanic m))"

lemma begin_request_Ok:
  "begin_request t = (Inr i, t') \<Longrightarrow> tracker_wf t \<Longrightarrow> tracker_wf t' \<and> rt_pending t = None \<and> rt_pending t' = Some i"
  using begin_request_cases [of t "Inr i" t']
  by (auto simp: begin_request_def Let_def split: option.splits)

lemma begin_request_Err: "begin_request t = (Inl e, t') \<Longrightarrow> t' = t"
  by (auto simp: begin_request_def Let_def split: option.splits)

lemma guarded_cases:
  assumes "session_wf s"
  shows "(\<exists>e. guarded phase role needed s = (Inl e, s) \<and> (\<forall>m. e \<noteq> SessionPanic m))
    \<or> (\<exists>i s'. guarded phase role needed s = (Inr i, s') \<and> ws_usable s \<and> busy s')"
proof (cases "ws_usable s \<and> ws_role s = role \<and> (case needed of None \<Rightarrow> True | Some c \<Rightarrow> selects s c = Some True)")
  case False
  with assms show ?thesis
    by (auto simp: guarded_def require_role_def ensure_usable_def require_capability_def session_wf_def selects_def
        split: option.splits bool.splits)
next
  case True
  then have eq: "guarded phase role needed s = session_begin_request phase s"
    by (auto simp: guarded_def require_role_def ensure_usable_def require_capability_def split: option.splits)
  obtain r t where r: "begin_request (ws_requests s) = (r, t)" by (cases "begin_request (ws_requests s)")
  from True assms have wf: "tracker_wf (ws_requests s)" by (simp add: session_wf_def session_live_def)
  show ?thesis
  proof (cases r)
    case (Inl e)
    with r begin_request_Err [of "ws_requests s" e t] True show ?thesis
      by (simp add: eq session_begin_request_def ensure_usable_def)
  next
    case (Inr i)
    with r begin_request_Ok [of "ws_requests s" i t] wf True assms show ?thesis
      by (auto simp: eq session_begin_request_def ensure_usable_def busy_def session_wf_def session_live_def)
  qed
qed

lemma guarded_then:
  assumes "session_wf s" "\<And>i s'. busy s' \<Longrightarrow> closes (f i s')"
  shows "closes (sbind (guarded phase role needed s) f)"
  using guarded_cases [OF assms(1), of phase role needed] assms by (auto simp: closes_def)

lemma guarded_discarded:
  assumes "session_wf s" "\<not> ws_usable s"
  obtains e where "sbind (guarded phase role needed s) f = (Inl e, s)"
  using guarded_cases [OF assms(1), of phase role needed] assms(2) by auto

lemma closes_failed: "fails_closed s x \<Longrightarrow> busy s \<Longrightarrow> closes x"
  by (auto simp: fails_closed_def closes_def busy_def session_wf_def session_live_def stream_wf_def)

lemma closes_answered: "answered phase s x \<Longrightarrow> busy s \<Longrightarrow> closes x"
  by (cases x) (auto simp: answered_def closes_def busy_def session_wf_def session_live_def stream_wf_def split: sum.splits)

lemma exchange_closes:
  assumes "busy s" "reply_wf (env_reply E)"
  shows "closes (exchange X E phase to_value from_value answer_id request timeout s)"
proof -
  have "session_live s" "ws_usable s" using assms(1) by (auto simp: busy_def)
  from exchange_outcome [OF this assms(2)] show ?thesis
    by (rule disjE) (erule closes_answered closes_failed, rule assms(1))+
qed

lemma closes_discard: "closes x \<Longrightarrow> session_wf (discard (snd x))"
  by (auto simp: closes_def session_wf_def session_live_def stream_wf_def split: option.splits)

lemma closes_sbind:
  "closes x \<Longrightarrow> (\<And>y s. closes (Inr y, s) \<Longrightarrow> closes (f y s)) \<Longrightarrow> closes (sbind x f)"
  by (cases x; cases "fst x") (auto simp: closes_def)

lemma evaluate_closes:
  assumes "busy s" "reply_wf (env_reply E)"
  shows "closes (case selects s c of None \<Rightarrow> (Inl (SessionPanic m), s) | Some given \<Rightarrow>
      exchange X E phase to_value from_value answer_id (request given) timeout s)"
  using exchange_closes [OF assms] assms(1) by (auto simp: selects_def busy_def)

lemma applicability_closes:
  assumes "busy s" "reply_wf (env_reply E)"
  shows "closes (sbind (exchange X E phase to_value from_value answer_id request timeout s) (\<lambda>response s. (Inr (request, response), s)))"
  by (rule closes_sbind [OF exchange_closes [OF assms]]) (simp add: closes_def)

lemma execute_closes:
  assumes "busy s" "reply_wf (env_reply E)"
  shows "closes (sbind (exchange X E phase to_value from_value answer_id request timeout s) (\<lambda>response s.
      if matches response then (Inr response, s) else (Inl ObservationControlMismatch, discard s)))"
  by (rule closes_sbind [OF exchange_closes [OF assms]])
    (use closes_discard in \<open>fastforce simp: closes_def\<close>)

lemma reset_closes:
  assumes "busy s" "reply_wf (env_reply E)"
  shows "closes (case exchange X E phase to_value from_value answer_id request timeout s of
      (Inl e, s) \<Rightarrow> (Inl e, discard s) | (Inr r, s) \<Rightarrow> (Inr r, s))"
proof -
  note x = exchange_closes [OF assms, of X phase to_value from_value answer_id request timeout]
  from x closes_discard [OF x] show ?thesis by (auto simp: closes_def split: prod.split sum.split)
qed

lemmas body_closes = exchange_closes applicability_closes execute_closes reset_closes evaluate_closes

text \<open>Operations of one exchange satisfy the contract when their body does.\<close>

lemma session_operationI:
  assumes "\<And>E s. call E s = sbind (guarded phase role needed s) (body E)"
    and "\<And>E i s. reply_wf (env_reply E) \<Longrightarrow> busy s \<Longrightarrow> closes (body E i s)"
  shows "session_operation call (\<lambda>E. reply_wf (env_reply E))"
proof
  fix E s m
  assume wf: "session_wf s"
  show "session_wf (snd (call E s))" if "reply_wf (env_reply E)"
    using guarded_then [OF wf, of "body E" phase role needed] assms(2) [OF that] by (simp add: assms(1) closes_def)
  show "fst (call E s) \<noteq> Inl (SessionPanic m)" if "reply_wf (env_reply E)"
    using guarded_then [OF wf, of "body E" phase role needed] assms(2) [OF that] by (simp add: assms(1) closes_def)
  assume off: "\<not> ws_usable s"
  obtain e where "call E s = (Inl e, s)" unfolding assms(1) by (rule guarded_discarded [OF wf off])
  with off show "\<not> ws_usable (snd (call E s))" "\<exists>e. fst (call E s) = Inl e" by simp_all
qed

interpretation materialize: session_operation "\<lambda>E. materialize X E a p n b" "\<lambda>E. reply_wf (env_reply E)" for X a p n b
  by (rule session_operationI, rule materialize_def) (rule body_closes)

interpretation prepare_problem: session_operation "\<lambda>E. prepare_problem X E a b p c" "\<lambda>E. reply_wf (env_reply E)" for X a b p c
  by (rule session_operationI, rule prepare_problem_def) (rule body_closes)

interpretation check_applicability: session_operation "\<lambda>E. check_applicability X E a b c p q" "\<lambda>E. reply_wf (env_reply E)"
  for X a b c p q
  by (rule session_operationI, rule check_applicability_def) (simp only: Let_def, rule body_closes)

interpretation prepare: session_operation "\<lambda>E. prepare X E a b p q n" "\<lambda>E. reply_wf (env_reply E)" for X a b p q n
  by (rule session_operationI, rule prepare_def) (rule body_closes)

interpretation execute_control: session_operation "\<lambda>E. execute_control X E a control" "\<lambda>E. reply_wf (env_reply E)" for X a control
  by (rule session_operationI, rule execute_control_def) (simp only: Let_def, rule body_closes)

interpretation execute_buffered: session_operation "\<lambda>E. execute_buffered X E a p" "\<lambda>E. reply_wf (env_reply E)" for X a p
  by (rule session_operationI, rule execute_buffered_def) (rule body_closes)

interpretation reset: session_operation "\<lambda>E. reset X E" "\<lambda>E. reply_wf (env_reply E)" for X
  by (rule session_operationI, rule reset_def) (rule body_closes)

interpretation evaluate: session_operation "\<lambda>E. evaluate X E a b p q c d" "\<lambda>E. reply_wf (env_reply E)" for X a b p q c d
  by (rule session_operationI, rule evaluate_def) (simp only: Let_def, rule body_closes)

end
