(* ===== verification/Worker_Stream_Laws.thy ===== *)
theory Worker_Stream_Laws
  imports Worker_Laws
begin

text \<open>
  The streaming calls satisfy the contract of a session operation, and what a stream delivers: its
  checkpoints are numbered from zero without gaps, within the bound of the profile, and it finishes
  only when the worker has counted the same checkpoints.
\<close>

section \<open>Finalized checkpoints\<close>

lemma map_of_drop_key: "map_of (filter (\<lambda>kv. fst kv \<noteq> k) m) = (map_of m)(k := None)"
  by (induction m) (auto simp: fun_eq_iff)

lemma checkpoint_with_manifest:
  assumes "stream_checkpoint_from (JObject m) = Inr c" "sc_draft c \<noteq> None" "manifest \<noteq> []"
  shows "stream_checkpoint_from (JObject (ord_insert ''manifest'' (JString manifest) (filter (\<lambda>kv. fst kv \<noteq> ''draft'') m)))
    = Inr (c\<lparr>sc_manifest := Some manifest, sc_draft := None\<rparr>)"
proof -
  have keys: "list_all (\<lambda>kv. fst kv \<in> set names) (ord_insert k v (filter P m))"
    if "list_all (\<lambda>kv. fst kv \<in> set names) m" "k \<in> set names" for names :: "string list" and k v P
  proof -
    have "fst ` set (ord_insert k v (filter P m)) \<subseteq> set names"
      using that by (auto simp: list_all_iff)
    then show ?thesis unfolding list_all_iff by blast
  qed
  from assms(1) have raw: "unchecked_checkpoint_from (JObject m) = Inr c" "checkpoint_try_from c = Inr c"
    by (auto simp: stream_checkpoint_from_def checkpoint_try_from_def custom_def split: if_splits)
  then have "unchecked_checkpoint_from (JObject (ord_insert ''manifest'' (JString manifest) (filter (\<lambda>kv. fst kv \<noteq> ''draft'') m)))
      = Inr (c\<lparr>sc_manifest := Some manifest, sc_draft := None\<rparr>)"
    using assms(3) keys [of "[''id'', ''event'', ''sequence'', ''check_index'', ''work'', ''terminal'', ''manifest'', ''draft'']"
        "''manifest''" "JString manifest" "\<lambda>kv. fst kv \<noteq> ''draft''"]
    by (auto simp: unchecked_checkpoint_from_def map_of_drop_key de_simps split: if_splits)
  moreover have "checkpoint_try_from (c\<lparr>sc_manifest := Some manifest, sc_draft := None\<rparr>)
      = Inr (c\<lparr>sc_manifest := Some manifest, sc_draft := None\<rparr>)"
    using raw(2) by (auto simp: checkpoint_try_from_def split: if_splits)
  ultimately show ?thesis by (simp add: stream_checkpoint_from_def custom_def)
qed

section \<open>Frames\<close>

text \<open>A stream is active and no checkpoint awaits a decision.\<close>

definition stream_open :: "worker_session \<Rightarrow> bool" where
  "stream_open s \<longleftrightarrow> session_wf s \<and> (\<exists>st. ws_stream s = Some st \<and> \<not> st_awaiting st)"

definition stream_permitted :: "stream_env \<Rightarrow> bool" where
  "stream_permitted E \<longleftrightarrow> reply_wf (env_reply E) \<and> (\<forall>d m. senv_relative E d = Some m \<longrightarrow> m \<noteq> [])"

lemma closes_discarded: "session_wf s \<Longrightarrow> (\<And>m. e \<noteq> SessionPanic m) \<Longrightarrow> closes (Inl e, discard s)"
  using closes_discard [of "(Inl e, s)"] by (simp add: closes_def)

lemma closes_kept: "session_wf s \<Longrightarrow> (\<And>m. e \<noteq> SessionPanic m) \<Longrightarrow> closes (Inl e, s)"
  by (simp add: closes_def)

lemma closes_stream_error: "session_wf s \<Longrightarrow> closes (stream_error s)"
  unfolding stream_error_def by (rule closes_discarded) simp_all

lemma open_answered_discard:
  "stream_open s \<Longrightarrow> session_wf (discard (s\<lparr>ws_requests := (ws_requests s)\<lparr>rt_pending := None\<rparr>\<rparr>))"
  by (auto simp: stream_open_def session_wf_def session_live_def stream_wf_def)

lemma finish_stream_closes:
  assumes "stream_open s"
  shows "closes (finish_stream E v s)"
proof -
  obtain response requests where d:
    "decode_operation_response execute_stream_response_from xsr_id v (ws_requests s) = (response, requests)"
    by (cases "decode_operation_response execute_stream_response_from xsr_id v (ws_requests s)")
  from assms obtain st where st: "ws_stream s = Some st" "\<not> st_awaiting st" and wf: "session_wf s"
    by (auto simp: stream_open_def)
  have off: "session_wf (discard (s\<lparr>ws_requests := requests\<rparr>))"
    using decode_operation_cases [OF d] open_answered_discard [OF assms] closes_discarded [OF wf, of StreamProtocol]
    by (auto simp: closes_def)
  show ?thesis
  proof (cases "\<exists>r. response = Inr (OperationSuccess r) \<and> xsr_checkpoint_count r = st_count st")
    case False
    with off st d show ?thesis
      by (auto simp: finish_stream_def Let_def closes_def stream_error_def split: sum.split operation_response.split)
  next
    case True
    then obtain r where r: "response = Inr (OperationSuccess r)" "xsr_checkpoint_count r = st_count st" by blast
    with decode_operation_cases [OF d] have req: "requests = (ws_requests s)\<lparr>rt_pending := None\<rparr>" by auto
    with wf have "session_wf (s\<lparr>ws_requests := requests, ws_stream := None\<rparr>)"
      by (auto simp: session_wf_def session_live_def stream_wf_def)
    with r off st d verify_controls_cases [of "env_private_after E" "s\<lparr>ws_requests := requests\<rparr>"] show ?thesis
      by (auto simp: finish_stream_def Let_def closes_def)
  qed
qed

lemma finalize_draft_cases:
  assumes "session_wf s" "\<And>m. timed_out \<noteq> SessionPanic m" "stream_permitted E"
    and "stream_checkpoint_from v = Inr c" "value_get v ''event'' \<noteq> None"
    and "(sc_manifest c \<noteq> None) \<noteq> (sc_draft c \<noteq> None)"
  shows "(\<exists>w c'. finalize_draft E limit timed_out st c v s = (Inr w, s) \<and> stream_checkpoint_from w = Inr c'
        \<and> sc_manifest c' \<noteq> None \<and> sc_id c' = sc_id c \<and> sc_sequence c' = sc_sequence c)
    \<or> (\<exists>e. (finalize_draft E limit timed_out st c v s = (Inl e, s) \<or> finalize_draft E limit timed_out st c v s = (Inl e, discard s))
        \<and> (\<forall>m. e \<noteq> SessionPanic m))"
proof (cases "sc_draft c")
  case None
  with assms(4,6) show ?thesis by (auto simp: finalize_draft_def)
next
  case (Some draft)
  from assms(5) obtain m where v: "v = JObject m" by (cases v) (auto simp: value_get_def)
  from assms(1) obtain n where "ws_negotiated s = Some n" by (auto simp: session_wf_def)
  moreover have "stream_checkpoint_from (JObject (ord_insert ''manifest'' (JString manifest) (filter (\<lambda>kv. fst kv \<noteq> ''draft'') m)))
      = Inr (c\<lparr>sc_manifest := Some manifest, sc_draft := None\<rparr>)" if "senv_relative E draft = Some manifest" for manifest
    using checkpoint_with_manifest [of m c manifest] assms(3,4) v Some that by (auto simp: stream_permitted_def)
  ultimately show ?thesis using assms(2) Some v
    by (auto simp: finalize_draft_def selects_def stream_error_def discard_after_timeout_def Let_def
        split: option.split bool.split)
qed

lemma accept_checkpoint_closes:
  assumes "stream_open s" "ws_usable s" "\<And>m. timed_out \<noteq> SessionPanic m" "stream_permitted E" "value_get v ''event'' \<noteq> None"
  shows "closes (accept_checkpoint E limit timed_out v s)"
proof -
  from assms(1) obtain st where st: "ws_stream s = Some st" "\<not> st_awaiting st" and wf: "session_wf s"
    by (auto simp: stream_open_def)
  from wf assms(2) st obtain i where i: "rt_pending (ws_requests s) = Some i" by (auto simp: session_wf_def)
  note err = closes_stream_error [OF wf, where 'a = stream_message]
  show ?thesis
  proof (cases "\<exists>c. stream_checkpoint_from v = Inr c \<and> \<not> st_stopped st \<and> \<not> checkpoint_unexpected st i c")
    case False
    with err st i show ?thesis by (auto simp: accept_checkpoint_def decode_message_def split: sum.split)
  next
    case True
    then obtain c where c: "stream_checkpoint_from v = Inr c" "\<not> st_stopped st" "\<not> checkpoint_unexpected st i c" by blast
    from c(3) have one: "(sc_manifest c \<noteq> None) \<noteq> (sc_draft c \<noteq> None)" "st_count st < st_bound st"
      by (auto simp: checkpoint_unexpected_def)
    have next_wf: "session_wf (s\<lparr>ws_stream := Some (st\<lparr>st_count := st_count st + 1, st_awaiting := True\<rparr>)\<rparr>)"
      using wf st i one(2) by (auto simp: session_wf_def session_live_def stream_wf_def)
    have off: "session_wf (discard s)" using closes_stream_error [OF wf] by (simp add: closes_def stream_error_def)
    have run: "accept_checkpoint E limit timed_out v s = sbind (finalize_draft E limit timed_out st c v s) (\<lambda>v s.
        case stream_checkpoint_from v of
          Inl _ \<Rightarrow> (Inl (SessionPanic ''finalized checkpoint''), s)
        | Inr c \<Rightarrow> (case sc_manifest c of
            None \<Rightarrow> (Inl (SessionPanic ''manifest''), s)
          | Some manifest \<Rightarrow>
              if \<not> validate_relative_path manifest then stream_error s
              else if env_decoded E \<ge> limit then (Inl timed_out, discard_after_timeout s)
              else (Inr (CheckpointMessage c), s\<lparr>ws_stream := Some (st\<lparr>st_count := st_count st + 1, st_awaiting := True\<rparr>)\<rparr>)))"
      using c st i by (simp add: accept_checkpoint_def decode_message_def)
    from finalize_draft_cases [OF wf assms(3,4) c(1) assms(5) one(1), of limit st] show ?thesis
    proof (elim disjE exE conjE)
      fix w c'
      assume w: "finalize_draft E limit timed_out st c v s = (Inr w, s)" "stream_checkpoint_from w = Inr c'" "sc_manifest c' \<noteq> None"
      then show ?thesis using next_wf off err assms(3)
        by (auto simp: run closes_def discard_after_timeout_def split: option.split)
    qed (use wf off in \<open>auto simp: run closes_def\<close>)
  qed
qed

lemma stream_frame_closes:
  assumes "stream_open s" "stream_permitted E"
  shows "closes (stream_frame E stopping s)"
proof (cases "ws_usable s")
  case False
  with assms(1) show ?thesis by (auto simp: stream_frame_def ensure_usable_def closes_def stream_open_def)
next
  case True
  from assms(1) have wf: "session_wf s" by (simp add: stream_open_def)
  have off: "session_wf (discard s)" using closes_stream_error [OF wf] by (simp add: closes_def stream_error_def)
  let ?timeout = "if stopping then pt_shutdown (ws_timeouts s) else pt_execute (ws_timeouts s)"
  let ?deadline = "if stopping then None else ws_scientific_deadline s"
  let ?limit = "exchange_limit ?deadline (env_started E) ?timeout"
  let ?timed_out = "timeout_error ?deadline (env_started E) ExecutePhase ?timeout"
  note R = receive_cases [of ?timed_out "env_reply E" ExecutePhase s, OF timeout_error_no_panic]
  have sender: "ws_sender s" using wf True by (simp add: session_wf_def session_live_def)
  show ?thesis
  proof (cases "verify_controls (env_private E) s = (Inr (), s) \<and> ?limit \<noteq> 0 \<and> env_send E \<and> (\<exists>v. env_reply E = Frame v)")
    case False
    with verify_controls_cases [of "env_private E" s] R True sender off show ?thesis
      by (cases stopping) (auto simp: stream_frame_def ensure_usable_def Let_def closes_def discard_after_timeout_def
          split: if_splits)
  next
    case ok: True
    then obtain v where v: "env_reply E = Frame v" by blast
    with assms(2) wf obtain w where w: "redactor_value (ws_redactor s) v = Some w"
      using redactor_value_total [of "ws_redactor s" v]
      by (auto simp: stream_permitted_def session_wf_def session_live_def reply_wf_def)
    have "stream_frame E stopping s = (if value_get w ''event'' = None then finish_stream E w s
        else accept_checkpoint E ?limit ?timed_out w s)"
      using ok True sender v w by (simp add: stream_frame_def ensure_usable_def Let_def receive_def)
    with finish_stream_closes [OF assms(1)] accept_checkpoint_closes [OF assms(1) True timeout_error_no_panic assms(2)]
    show ?thesis by simp
  qed
qed

section \<open>The calls\<close>

lemma busy_open:
  assumes "busy s" "st_count st = 0" "\<not> st_awaiting st"
  shows "stream_open (s\<lparr>ws_stream := Some st\<rparr>)"
  using assms by (auto simp: busy_def stream_open_def session_wf_def session_live_def stream_wf_def)

lemma start_stream_closes:
  assumes "stream_permitted E" "busy s"
  shows "closes (let s = s\<lparr>ws_stream := Some \<lparr>st_root = root_dir, st_bound = bound, st_bytes = bytes,
           st_count = 0, st_awaiting = False, st_stopped = False\<rparr>\<rparr>
     in case encode_message X execute_stream_request_value request of
          Inl e \<Rightarrow> (Inl (Encode ExecutePhase e), s)
        | Inr encoded \<Rightarrow> stream_frame E False s)"
proof -
  let ?st = "\<lparr>st_root = root_dir, st_bound = bound, st_bytes = bytes, st_count = 0, st_awaiting = False, st_stopped = False\<rparr>"
  have op: "stream_open (s\<lparr>ws_stream := Some ?st\<rparr>)" by (rule busy_open [OF assms(2)]) simp_all
  then have "session_wf (s\<lparr>ws_stream := Some ?st\<rparr>)" by (simp add: stream_open_def)
  with stream_frame_closes [OF op assms(1)] show ?thesis by (auto simp: Let_def closes_def split: sum.split)
qed

interpretation start_stream: session_operation "\<lambda>E. start_stream X E root_dir profile" stream_permitted for X root_dir profile
proof
  fix E m and s :: worker_session
  assume wf: "session_wf s"
  show "session_wf (snd (start_stream X E root_dir profile s))" if "stream_permitted E"
    unfolding start_stream_def
    using guarded_then [OF wf start_stream_closes [OF that]] by (simp add: closes_def)
  show "fst (start_stream X E root_dir profile s) \<noteq> Inl (SessionPanic m)" if "stream_permitted E"
    unfolding start_stream_def
    using guarded_then [OF wf start_stream_closes [OF that]] by (simp add: closes_def)
  assume off: "\<not> ws_usable s"
  obtain e where "start_stream X E root_dir profile s = (Inl e, s)"
    unfolding start_stream_def by (rule guarded_discarded [OF wf off])
  with off show "\<not> ws_usable (snd (start_stream X E root_dir profile s))"
    "\<exists>e. fst (start_stream X E root_dir profile s) = Inl e" by simp_all
qed

lemma decide_stream_cases:
  assumes "session_wf s" "stream_permitted E"
  shows "closes (decide_stream X E action reason s)"
proof (cases "\<exists>st. ws_stream s = Some st \<and> st_awaiting st \<and> \<not> st_stopped st")
  case False
  with assms(1) closes_stream_error [OF assms(1)] show ?thesis
    by (auto simp: decide_stream_def closes_def split: option.split)
next
  case True
  then obtain st where st: "ws_stream s = Some st" "st_awaiting st" "\<not> st_stopped st" by blast
  with assms(1) obtain i where i: "rt_pending (ws_requests s) = Some i" "0 < st_count st"
    by (auto simp: session_wf_def stream_wf_def)
  let ?s = "s\<lparr>ws_stream := Some (st\<lparr>st_awaiting := False, st_stopped := (action = StopStream)\<rparr>)\<rparr>"
  have op: "stream_open ?s"
    using assms(1) st by (auto simp: stream_open_def session_wf_def session_live_def stream_wf_def)
  then have "session_wf ?s" by (simp add: stream_open_def)
  with stream_frame_closes [OF op assms(2)] st i show ?thesis
    by (auto simp: decide_stream_def Let_def closes_def split: sum.split)
qed

lemma stream_frame_discarded: "\<not> ws_usable s \<Longrightarrow> stream_frame E stopping s = (Inl SessionUnusable, s)"
  by (simp add: stream_frame_def ensure_usable_def)

interpretation decide_stream: session_operation "\<lambda>E. decide_stream X E action reason" stream_permitted for X action reason
proof
  fix E m and s :: worker_session
  assume wf: "session_wf s"
  show "session_wf (snd (decide_stream X E action reason s))" if "stream_permitted E"
    using decide_stream_cases [OF wf that] by (simp add: closes_def)
  show "fst (decide_stream X E action reason s) \<noteq> Inl (SessionPanic m)" if "stream_permitted E"
    using decide_stream_cases [OF wf that] by (simp add: closes_def)
  assume off: "\<not> ws_usable s"
  show "\<not> ws_usable (snd (decide_stream X E action reason s))"
    using off by (auto simp: decide_stream_def stream_error_def Let_def stream_frame_discarded split: option.split sum.split)
  show "\<exists>e. fst (decide_stream X E action reason s) = Inl e"
    using off by (auto simp: decide_stream_def stream_error_def Let_def stream_frame_discarded split: option.split sum.split)
qed

section \<open>What a frame delivers\<close>

lemma sbind_Ok_iff: "sbind x f = (Inr y, s') \<longleftrightarrow> (\<exists>v s1. x = (Inr v, s1) \<and> f v s1 = (Inr y, s'))"
  by (cases "(x, f)" rule: sbind.cases) auto

lemma finish_stream_Ok:
  assumes "finish_stream E v s = (Inr msg, s')"
  shows "\<exists>st r. ws_stream s = Some st \<and> msg = FinishedMessage r \<and> xsr_checkpoint_count r = st_count st
    \<and> ws_stream s' = None \<and> rt_pending (ws_requests s') = None"
proof -
  obtain response requests where d:
    "decode_operation_response execute_stream_response_from xsr_id v (ws_requests s) = (response, requests)"
    by (cases "decode_operation_response execute_stream_response_from xsr_id v (ws_requests s)")
  from decode_operation_cases [OF d] d assms show ?thesis
    by (auto simp: finish_stream_def Let_def stream_error_def sbind_Ok_iff verify_controls_def
        split: option.splits sum.splits operation_response.splits if_splits)
qed

lemma accept_checkpoint_Ok:
  assumes "accept_checkpoint E limit timed_out v s = (Inr msg, s')"
    and "session_wf s" "\<And>m. timed_out \<noteq> SessionPanic m" "stream_permitted E" "value_get v ''event'' \<noteq> None"
  shows "\<exists>st c. ws_stream s = Some st \<and> msg = CheckpointMessage c \<and> \<not> st_stopped st
    \<and> st_count st < st_bound st \<and> sc_sequence c = st_count st \<and> rt_pending (ws_requests s) = Some (sc_id c)
    \<and> ws_stream s' = Some (st\<lparr>st_count := st_count st + 1, st_awaiting := True\<rparr>)"
proof -
  from assms(1) obtain c st i where c: "stream_checkpoint_from v = Inr c" "ws_stream s = Some st" "\<not> st_stopped st"
      "rt_pending (ws_requests s) = Some i" "\<not> checkpoint_unexpected st i c"
    by (auto simp: accept_checkpoint_def decode_message_def stream_error_def
        split: sum.splits option.splits if_splits)
  then have ok: "sc_id c = i" "sc_sequence c = st_count st" "st_count st < st_bound st"
    "(sc_manifest c \<noteq> None) \<noteq> (sc_draft c \<noteq> None)" by (auto simp: checkpoint_unexpected_def)
  from assms(1) c obtain w where w: "finalize_draft E limit timed_out st c v s = (Inr w, s)"
    using finalize_draft_cases [OF assms(2-4) c(1) assms(5) ok(4), of limit st]
    by (auto simp: accept_checkpoint_def decode_message_def)
  with finalize_draft_cases [OF assms(2-4) c(1) assms(5) ok(4), of limit st] obtain c' where
    c': "stream_checkpoint_from w = Inr c'" "sc_id c' = sc_id c" "sc_sequence c' = sc_sequence c" by auto
  from assms(1) c w c' ok show ?thesis
    by (auto simp: accept_checkpoint_def decode_message_def stream_error_def split: option.splits if_splits)
qed

lemma stream_frame_Ok:
  assumes "stream_frame E stopping s = (Inr msg, s')" "session_wf s" "stream_permitted E"
  obtains st c where "ws_stream s = Some st" "msg = CheckpointMessage c" "\<not> st_stopped st"
      "st_count st < st_bound st" "sc_sequence c = st_count st" "rt_pending (ws_requests s) = Some (sc_id c)"
      "ws_stream s' = Some (st\<lparr>st_count := st_count st + 1, st_awaiting := True\<rparr>)"
  | st r where "ws_stream s = Some st" "msg = FinishedMessage r" "xsr_checkpoint_count r = st_count st"
      "ws_stream s' = None" "rt_pending (ws_requests s') = None"
proof -
  have "(\<exists>w. finish_stream E w s = (Inr msg, s'))
     \<or> (\<exists>w limit deadline timeout. value_get w ''event'' \<noteq> None
       \<and> accept_checkpoint E limit (timeout_error deadline (env_started E) ExecutePhase timeout) w s = (Inr msg, s'))"
    using assms(1)
    by (auto simp: stream_frame_def sbind_Ok_iff Let_def verify_controls_def receive_def
        split: if_splits protocol_reply.splits option.splits; metis option.distinct(1))
  then show ?thesis
    using that finish_stream_Ok [of E _ s msg s'] accept_checkpoint_Ok [OF _ assms(2) timeout_error_no_panic assms(3)]
    by metis
qed

end
