(* ===== verification/Worker_Contracts.thy ===== *)
theory Worker_Contracts
  imports Worker_Stream_Laws
begin

text \<open>
  The worker session as a transition system: one step per call of its public interface, in any
  environment, from a session that completed its handshake.
\<close>

section \<open>Reachable sessions\<close>

inductive session_step :: "externals \<Rightarrow> worker_session \<Rightarrow> worker_session \<Rightarrow> bool" for X where
  step_directory: "session_step X s (snd (set_problem_directory directory s))"
| step_deadline: "session_step X s (set_scientific_deadline deadline s)"
| step_materialize: "reply_wf (env_reply E) \<Longrightarrow> session_step X s (snd (materialize X E a p n b s))"
| step_prepare_problem: "reply_wf (env_reply E) \<Longrightarrow> session_step X s (snd (prepare_problem X E a b p c s))"
| step_check: "reply_wf (env_reply E) \<Longrightarrow> session_step X s (snd (check_applicability X E a b c p q s))"
| step_prepare: "reply_wf (env_reply E) \<Longrightarrow> session_step X s (snd (prepare X E a b p q n s))"
| step_execute: "reply_wf (env_reply E) \<Longrightarrow> session_step X s (snd (execute_control X E a control s))"
| step_buffered: "reply_wf (env_reply E) \<Longrightarrow> session_step X s (snd (execute_buffered X E a p s))"
| step_reset: "reply_wf (env_reply E) \<Longrightarrow> session_step X s (snd (reset X E s))"
| step_evaluate: "reply_wf (env_reply E) \<Longrightarrow> session_step X s (snd (evaluate X E a b p q c d s))"
| step_start: "stream_permitted F \<Longrightarrow> session_step X s (snd (start_stream X F a p s))"
| step_decide: "stream_permitted F \<Longrightarrow> session_step X s (snd (decide_stream X F action reason s))"

inductive session_reachable :: "externals \<Rightarrow> worker_session \<Rightarrow> bool" for X where
  reachable_connect:
    "secrets_wf redactor \<Longrightarrow> reply_wf (env_reply E)
     \<Longrightarrow> connect_with_deadline X E started redactor role worker selected timeouts deadline = Inr s
     \<Longrightarrow> session_reachable X s"
| reachable_step: "session_reachable X s \<Longrightarrow> session_step X s s' \<Longrightarrow> session_reachable X s'"

lemma set_problem_directory_wf:
  "session_wf s \<Longrightarrow> session_wf (snd (set_problem_directory directory s))
     \<and> ws_usable (snd (set_problem_directory directory s)) = ws_usable s
     \<and> fst (set_problem_directory directory s) \<noteq> Inl (SessionPanic m)"
  by (auto simp: set_problem_directory_def require_capability_def selects_def session_wf_def session_live_def
      stream_wf_def split: option.splits bool.splits)

lemma set_scientific_deadline_wf:
  "session_wf s \<Longrightarrow> session_wf (set_scientific_deadline deadline s)"
  "ws_usable (set_scientific_deadline deadline s) = ws_usable s"
  by (auto simp: set_scientific_deadline_def session_wf_def session_live_def stream_wf_def split: option.splits)

lemmas keeps_wf = materialize.keeps_wf prepare_problem.keeps_wf check_applicability.keeps_wf prepare.keeps_wf
  execute_control.keeps_wf execute_buffered.keeps_wf reset.keeps_wf evaluate.keeps_wf
  start_stream.keeps_wf decide_stream.keeps_wf

lemmas stays_discarded = materialize.stays_discarded prepare_problem.stays_discarded
  check_applicability.stays_discarded prepare.stays_discarded execute_control.stays_discarded
  execute_buffered.stays_discarded reset.stays_discarded evaluate.stays_discarded
  start_stream.stays_discarded decide_stream.stays_discarded

lemma session_step_wf:
  assumes "session_step X s s'" "session_wf s"
  shows "session_wf s'" "ws_usable s' \<Longrightarrow> ws_usable s"
  using assms
  by (induction rule: session_step.induct) (use set_problem_directory_wf set_scientific_deadline_wf in \<open>auto intro: keeps_wf dest: stays_discarded\<close>)+

lemma connect_wf:
  assumes "connect_with_deadline X E started redactor role worker selected timeouts deadline = Inr s"
    and "secrets_wf redactor" "reply_wf (env_reply E)"
  shows "session_wf s \<and> ws_usable s \<and> ws_stream s = None \<and> rt_pending (ws_requests s) = None"
proof -
  let ?s = "(session_new redactor role timeouts deadline)\<lparr>ws_requests := \<lparr>rt_next_id = 1, rt_pending = Some (dec_string 0)\<rparr>\<rparr>"
  let ?x = "exchange X E HelloPhase hello_request_value hello_response_from hr_id
      (hello_request_new (dec_string 0) role worker) (pt_hello timeouts) ?s"
  have live: "session_live ?s" "ws_usable ?s"
    using assms(2) by (auto simp: session_live_def session_new_def tracker_wf_def U64_MAX_def)
  have beg: "session_begin_request HelloPhase (session_new redactor role timeouts deadline) = (Inr (dec_string 0), ?s)"
    by (simp add: session_begin_request_def ensure_usable_def session_new_def begin_request_def tracker_new_def
        checked_add_def U64_MAX_def Let_def)
  have to: "ws_timeouts (session_new redactor role timeouts deadline) = timeouts" by (simp add: session_new_def)
  from assms(1) beg obtain response s1 n where x: "?x = (Inr response, s1)" and s: "s = s1\<lparr>ws_negotiated := Some n\<rparr>"
    by (cases ?x; cases "fst ?x") (auto simp: connect_with_deadline_def Let_def to split: if_splits sum.splits)
  from exchange_outcome [OF live assms(3), of HelloPhase X hello_request_value hello_response_from hr_id
      "hello_request_new (dec_string 0) role worker" "pt_hello timeouts"] x
  have "s1 = ?s\<lparr>ws_requests := (ws_requests ?s)\<lparr>rt_pending := None\<rparr>\<rparr>"
    by (auto simp: answered_def fails_closed_def)
  with s live show ?thesis
    by (auto simp: session_wf_def session_live_def stream_wf_def session_new_def tracker_wf_def)
qed

lemma session_reachable_wf: "session_reachable X s \<Longrightarrow> session_wf s"
  by (induction rule: session_reachable.induct) (use connect_wf session_step_wf(1) in blast)+

section \<open>Cooperative environments\<close>

text \<open>The worker answers with the value in time, and the private directory stays private.\<close>

definition cooperative :: "session_env \<Rightarrow> duration \<Rightarrow> json \<Rightarrow> worker_session \<Rightarrow> bool" where
  "cooperative E timeout v s \<longleftrightarrow>
     (let limit = exchange_limit (ws_scientific_deadline s) (env_started E) timeout
      in env_private E \<and> env_private_after E \<and> env_encoded E < limit \<and> env_decoded E < limit
         \<and> env_send E \<and> env_reply E = Frame v)"

context wire_response
begin

lemma exchange_success:
  assumes "cooperative E timeout (to_value m) s" "valid m" "value_get (to_value m) ''draft'' = None"
    and "ws_sender s" "ws_redactor s = []" "rt_pending (ws_requests s) = Some (answer_id m)"
    and "encode_message X q_value request = Inr encoded"
  shows "exchange X E phase q_value from_value answer_id request timeout s
    = (Inr m, s\<lparr>ws_requests := (ws_requests s)\<lparr>rt_pending := None\<rparr>\<rparr>)"
  using assms answer_accepted [OF assms(2,6)]
  by (simp add: exchange_def cooperative_def Let_def verify_controls_def receive_def redactor_value_def
      redactor_is_empty_def finalize_managed_def)

end

lemma guarded_success:
  assumes "ws_usable s" "ws_role s = role" "rt_pending (ws_requests s) = None" "rt_next_id (ws_requests s) < U64_MAX"
  shows "guarded phase role None s = (Inr (dec_string (rt_next_id (ws_requests s))),
    s\<lparr>ws_requests := \<lparr>rt_next_id = rt_next_id (ws_requests s) + 1,
      rt_pending = Some (dec_string (rt_next_id (ws_requests s)))\<rparr>\<rparr>)"
  using assms by (simp add: guarded_def require_role_def ensure_usable_def session_begin_request_def
      begin_request_def checked_add_def Let_def)

section \<open>Properties\<close>

text \<open>
  C32 (session_invariant): after any sequence of calls, a usable session owns its process and its
  channel, a request is pending exactly while a stream is active, and an active stream has delivered
  at most as many checkpoints as the profile allows.
\<close>

theorem session_invariant:
  assumes "session_reachable X s"
  shows "(ws_usable s \<longrightarrow> ws_process s \<and> ws_sender s
      \<and> (rt_pending (ws_requests s) \<noteq> None) = (ws_stream s \<noteq> None))
    \<and> (case ws_stream s of None \<Rightarrow> True | Some st \<Rightarrow> st_count st \<le> st_bound st)"
  using session_reachable_wf [OF assms]
  by (auto simp: session_wf_def session_live_def stream_wf_def split: option.splits)


text \<open>
  A session that was discarded is never used again: every later
  session is discarded as well, and every call on it fails.
\<close>

theorem discarded_session_final:
  assumes "session_reachable X s" "\<not> ws_usable s" "(session_step X)\<^sup>*\<^sup>* s s'"
  shows "\<not> ws_usable s' \<and> \<not> is_ok (fst (prepare X E a b p q n s')) \<and> \<not> is_ok (fst (execute_control X E a control s'))
    \<and> \<not> is_ok (fst (reset X E s')) \<and> \<not> is_ok (fst (evaluate X E a b p q c d s'))
    \<and> \<not> is_ok (fst (start_stream X F a p s')) \<and> \<not> is_ok (fst (decide_stream X F action reason s'))"
proof -
  from assms(3,1,2) have s': "session_reachable X s' \<and> \<not> ws_usable s'"
    by (induction rule: rtranclp_induct)
      (auto intro: reachable_step dest: session_step_wf(2) session_reachable_wf)
  then have wf: "session_wf s'" using session_reachable_wf by blast
  note fails = prepare.fails_discarded [OF wf, of X E a b p q n] execute_control.fails_discarded [OF wf, of X E a control]
    reset.fails_discarded [OF wf, of X E] evaluate.fails_discarded [OF wf, of X E a b p q c d]
    start_stream.fails_discarded [OF wf, of X F a p] decide_stream.fails_discarded [OF wf, of X F action reason]
  show ?thesis using s' fails by (auto simp: is_ok_iff)
qed


text \<open>
  C35 (stream_numbering): a decision is answered by a checkpoint only if it was to continue, fewer
  checkpoints than the bound had arrived, and the checkpoint carries the next sequence number and the
  pending identifier; it is answered by the end of the stream only if the worker counted exactly the
  checkpoints that arrived, and then no request is pending.
\<close>

theorem stream_numbering:
  assumes "session_reachable X s" "stream_permitted F"
  shows "(decide_stream X F action reason s = (Inr (CheckpointMessage ck), s') \<longrightarrow>
      (\<exists>st. ws_stream s = Some st \<and> action = ContinueStream \<and> st_count st < st_bound st
         \<and> sc_sequence ck = st_count st \<and> Some (sc_id ck) = rt_pending (ws_requests s)
         \<and> ws_stream s' = Some (st\<lparr>st_count := st_count st + 1, st_awaiting := True, st_stopped := False\<rparr>)))
    \<and> (decide_stream X F action reason s = (Inr (FinishedMessage r), s') \<longrightarrow>
      (\<exists>st. ws_stream s = Some st \<and> xsr_checkpoint_count r = st_count st)
      \<and> ws_stream s' = None \<and> rt_pending (ws_requests s') = None)"
proof -
  note wf = session_reachable_wf [OF assms(1)]
  have run: "\<exists>st e. ws_stream s = Some st \<and> stream_frame F (action = StopStream) (s\<lparr>ws_stream := Some e\<rparr>) = (Inr msg, s')
      \<and> e = st\<lparr>st_awaiting := False, st_stopped := (action = StopStream)\<rparr>
      \<and> session_wf (s\<lparr>ws_stream := Some e\<rparr>)"
    if "decide_stream X F action reason s = (Inr msg, s')" for msg
    using that wf
    by (auto simp: decide_stream_def stream_error_def Let_def session_wf_def session_live_def stream_wf_def
        split: option.splits if_splits sum.splits)
  have cont: "action = ContinueStream" if "action \<noteq> StopStream" using that by (cases action) auto
  show ?thesis
  proof (intro conjI impI)
    assume "decide_stream X F action reason s = (Inr (CheckpointMessage ck), s')"
    from run [OF this] obtain st e where e: "ws_stream s = Some st" "e = st\<lparr>st_awaiting := False, st_stopped := (action = StopStream)\<rparr>"
      "stream_frame F (action = StopStream) (s\<lparr>ws_stream := Some e\<rparr>) = (Inr (CheckpointMessage ck), s')"
      "session_wf (s\<lparr>ws_stream := Some e\<rparr>)" by blast
    from stream_frame_Ok [OF e(3,4) assms(2)] e(1,2) cont
    show "\<exists>st. ws_stream s = Some st \<and> action = ContinueStream \<and> st_count st < st_bound st
         \<and> sc_sequence ck = st_count st \<and> Some (sc_id ck) = rt_pending (ws_requests s)
         \<and> ws_stream s' = Some (st\<lparr>st_count := st_count st + 1, st_awaiting := True, st_stopped := False\<rparr>)"
      by cases auto
  next
    assume "decide_stream X F action reason s = (Inr (FinishedMessage r), s')"
    from run [OF this] obtain st e where e: "ws_stream s = Some st" "e = st\<lparr>st_awaiting := False, st_stopped := (action = StopStream)\<rparr>"
      "stream_frame F (action = StopStream) (s\<lparr>ws_stream := Some e\<rparr>) = (Inr (FinishedMessage r), s')"
      "session_wf (s\<lparr>ws_stream := Some e\<rparr>)" by blast
    from stream_frame_Ok [OF e(3,4) assms(2)] e(1,2)
    show "\<exists>st. ws_stream s = Some st \<and> xsr_checkpoint_count r = st_count st"
      "ws_stream s' = None" "rt_pending (ws_requests s') = None"
      by (cases; auto)+
  qed
qed

end
