(* ===== verification/Worker_Demo.thy ===== *)
theory Worker_Demo
  imports Worker_Contracts
begin

text \<open>
  A concrete session that the witnesses evaluate: an implementation worker is connected, acknowledges
  a preparation, and runs a stream of one checkpoint.  The serializer is a concrete function.
\<close>

definition demo_externals :: externals where
  "demo_externals = \<lparr>sha256 = (\<lambda>_. []), canonicalizer = (\<lambda>_. Some ''x''), parse_json = (\<lambda>_. (VisitFail, False)),
     json_text = (\<lambda>_. []), sqlite_object = (\<lambda>_. False)\<rparr>"

definition demo_worker :: worker_identity where
  "demo_worker = RESOLVED_WORKER_PREFIX @ replicate 64 (CHR ''a'')"

definition demo_env :: "json \<Rightarrow> session_env" where
  "demo_env v = \<lparr>env_private = True, env_started = 0, env_encoded = 1, env_send = True, env_reply = Frame v,
     env_finalize = (\<lambda>_ _. None), env_finalized = 0, env_decoded = 2, env_private_after = True\<rparr>"

definition demo_stream_env :: "json \<Rightarrow> stream_env" where
  "demo_stream_env v = session_env.extend (demo_env v)
     \<lparr>senv_snapshot = (\<lambda>_ _. None), senv_relative = (\<lambda>_. None)\<rparr>"

definition demo_hello :: hello_response where
  "demo_hello = hello_response_new ''0'' demo_worker None [OneShotCap, StreamingProfileCap]"

definition demo_session :: worker_session where
  "demo_session = (session_new [] ImplementationRole default_timeouts None)
     \<lparr>ws_requests := \<lparr>rt_next_id = 1, rt_pending = None\<rparr>,
      ws_negotiated := Some \<lparr>ns_role = ImplementationRole, ns_protocol = 1, ns_worker_id = demo_worker, ns_sdk = None,
        ns_selected_capabilities = [OneShotCap, StreamingProfileCap],
        ns_reported_capabilities = [OneShotCap, StreamingProfileCap]\<rparr>\<rparr>"

lemma demo_capabilities: "btree_set [OneShotCap, StreamingProfileCap] = [OneShotCap, StreamingProfileCap]"
  by (simp add: btree_set_id less_capability_def)

lemma demo_worker_valid: "worker_identity_valid demo_worker"
proof -
  have "is_lower_hex (CHR ''a'')" by code_simp
  then have "list_all is_lower_hex (replicate 64 (CHR ''a''))" by (simp add: list_all_iff)
  moreover have "str_strip_prefix RESOLVED_WORKER_PREFIX demo_worker = Some (replicate 64 (CHR ''a''))"
    by (simp add: str_strip_prefix_Some_iff demo_worker_def)
  ultimately show ?thesis by (simp add: worker_identity_valid_def worker_identity_from_str_def)
qed

lemma dec_string_small [simp]: "dec_string 0 = ''0''" "dec_string (Suc 0) = ''1''"
  by (code_simp, code_simp)

lemma demo_encode: "encode_message demo_externals f m = Inr ''x\<newline>''"
  by (simp add: encode_message_def demo_externals_def MAX_LINE_BYTES_def)

lemma demo_hello_valid: "hello_response_valid demo_hello"
  using demo_worker_valid demo_capabilities
  by (simp add: hello_response_valid_def demo_hello_def hello_response_new_def less_capability_def)

lemma demo_connect:
  "connect_with_deadline demo_externals (demo_env (hello_response_value demo_hello)) True [] ImplementationRole demo_worker
     [OneShotCap, StreamingProfileCap] default_timeouts None = Inr demo_session"
proof -
  let ?s = "(session_new [] ImplementationRole default_timeouts None)\<lparr>ws_requests := \<lparr>rt_next_id = 1, rt_pending = Some ''0''\<rparr>\<rparr>"
  let ?q = "hello_request_new ''0'' ImplementationRole demo_worker"
  have beg: "session_begin_request HelloPhase (session_new [] ImplementationRole default_timeouts None) = (Inr ''0'', ?s)"
    by (simp add: session_begin_request_def ensure_usable_def session_new_def begin_request_def tracker_new_def
        checked_add_def U64_MAX_def Let_def)
  have x: "exchange demo_externals (demo_env (hello_response_value demo_hello)) HelloPhase hello_request_value hello_response_from hr_id
      ?q (pt_hello (ws_timeouts ?s)) ?s
    = (Inr demo_hello, ?s\<lparr>ws_requests := (ws_requests ?s)\<lparr>rt_pending := None\<rparr>\<rparr>)"
    by (rule hello_response_answer.exchange_success [OF _ demo_hello_valid _ _ _ _ demo_encode])
      (simp_all add: cooperative_def demo_env_def session_new_def default_timeouts_def exchange_limit_def Let_def
        demo_hello_def hello_response_new_def value_get_def hello_response_value_def ser_object_def ord_extend_def)
  have v: "validate_hello_response ?q demo_hello
      (select_reported ImplementationRole (hr_capabilities demo_hello) [OneShotCap, StreamingProfileCap])
    = Inr \<lparr>ns_role = ImplementationRole, ns_protocol = 1, ns_worker_id = demo_worker, ns_sdk = None,
        ns_selected_capabilities = [OneShotCap, StreamingProfileCap],
        ns_reported_capabilities = [OneShotCap, StreamingProfileCap]\<rparr>"
    using demo_capabilities
    by (simp add: validate_hello_response_def hello_request_new_def demo_hello_def hello_response_new_def
        select_reported_def negotiate_protocol_def hello_response_protocol_def reserved_def Let_def
        WIRE_PROTOCOL_VERSION_def)
  show ?thesis
    by (simp only: connect_with_deadline_def beg sbind.simps Let_def x v sum.case prod.case not_True_eq_False if_False)
      (simp add: demo_session_def session_new_def)
qed

lemma demo_utf8:
  "utf8_valid ''0''" "utf8_valid ''1''" "utf8_valid ''id''" "utf8_valid ''ok''" "utf8_valid demo_worker" "utf8_valid ''protocol''"
  "utf8_valid ''worker_id''" "utf8_valid ''sdk''" "utf8_valid ''capabilities''" "utf8_valid ''one_shot''" "utf8_valid ''streaming_profile''"
  unfolding utf8_valid_def by code_simp+

lemma demo_reachable: "session_reachable demo_externals demo_session"
proof (rule reachable_connect [OF _ _ demo_connect])
  show "secrets_wf []" by (simp add: secrets_wf_def)
  show "reply_wf (env_reply (demo_env (hello_response_value demo_hello)))"
    using demo_utf8 demo_capabilities
    by (simp add: reply_wf_def demo_env_def hello_response_value_def demo_hello_def hello_response_new_def
        ser_object_def ord_extend_def ser_option_def ser_u64_def)
qed

section \<open>Witnesses\<close>

lemma demo_ack_wf: "reply_wf (env_reply (demo_env (acknowledgement_value \<lparr>ack_id = ''1''\<rparr>)))"
  using demo_utf8 by (simp add: reply_wf_def demo_env_def acknowledgement_value_def ser_object_def ord_extend_def)

theorem session_invariant_witness: "ws_process demo_session \<and> rt_pending (ws_requests demo_session) = None"
  using session_invariant [OF demo_reachable] by (simp add: demo_session_def session_new_def)

lemma demo_permitted: "reply_wf (Frame v) \<Longrightarrow> stream_permitted (demo_stream_env v)"
  by (simp add: stream_permitted_def demo_stream_env_def demo_env_def session_env.defs)

lemma demo_stream_reply: "env_reply (demo_stream_env v) = Frame v"
  by (simp add: demo_stream_env_def demo_env_def session_env.defs)



text \<open>The worker closes its stream during a preparation.\<close>

definition demo_closed :: worker_session where
  "demo_closed = snd (prepare demo_externals ((demo_env JNull)\<lparr>env_reply := Closed\<rparr>) ''d'' ''c'' (JObject []) (JObject []) 7 demo_session)"

lemma demo_closed_reachable: "session_reachable demo_externals demo_closed"
  unfolding demo_closed_def
  by (rule reachable_step [OF demo_reachable step_prepare]) (simp add: reply_wf_def)

lemma demo_closed_unusable: "\<not> ws_usable demo_closed"
  by (simp add: demo_closed_def prepare_def guarded_success demo_session_def session_new_def U64_MAX_def exchange_def
      demo_encode verify_controls_def demo_env_def exchange_limit_def default_timeouts_def receive_def Let_def)

theorem discarded_session_final_witness:
  "\<not> is_ok (fst (reset demo_externals (demo_env JNull) demo_closed))"
  using discarded_session_final [OF demo_closed_reachable demo_closed_unusable rtranclp.rtrancl_refl] by blast

text \<open>A stream that has delivered one checkpoint and then ends.\<close>

definition demo_checkpoint :: stream_checkpoint where
  "demo_checkpoint = stream_checkpoint_new ''1'' 0 5 [(''steps'', 5)] False ''checkpoints/0/result.json''"

definition demo_profile :: json where
  "demo_profile = JObject [(''policy'', JObject [(''max-checkpoint-bytes'', JNumber (PosInt 100)),
     (''max-observations'', JNumber (PosInt 3))])]"

definition demo_streaming :: worker_session where
  "demo_streaming = demo_session\<lparr>ws_requests := \<lparr>rt_next_id = 2, rt_pending = Some ''1''\<rparr>,
     ws_stream := Some \<lparr>st_root = ''out'', st_bound = 3, st_bytes = 100, st_count = 1, st_awaiting = True, st_stopped = False\<rparr>\<rparr>"

lemma demo_checkpoint_from: "stream_checkpoint_from (stream_checkpoint_value demo_checkpoint) = Inr demo_checkpoint"
  by (rule stream_checkpoint.read_back)
    (simp add: stream_checkpoint_valid_def demo_checkpoint_def stream_checkpoint_new_def MAX_SAFE_INTEGER_def)

lemma demo_path: "validate_relative_path ''checkpoints/0/result.json''"
  by code_simp

lemma demo_start:
  "start_stream demo_externals (demo_stream_env (stream_checkpoint_value demo_checkpoint)) ''out'' demo_profile demo_session
   = (Inr (CheckpointMessage demo_checkpoint), demo_streaming)"
proof -
  have event: "value_get (stream_checkpoint_value demo_checkpoint) ''event'' = Some (JString ''checkpoint'')"
    by (simp add: value_get_def stream_checkpoint_value_def ser_object_def ord_extend_def ser_skip_def
        demo_checkpoint_def stream_checkpoint_new_def)
  have g: "guarded ExecutePhase ImplementationRole (Some StreamingProfileCap) demo_session
      = (Inr ''1'', demo_session\<lparr>ws_requests := \<lparr>rt_next_id = 2, rt_pending = Some ''1''\<rparr>\<rparr>)"
    by (simp add: guarded_def require_role_def ensure_usable_def require_capability_def selects_def session_begin_request_def
        begin_request_def checked_add_def U64_MAX_def Let_def demo_session_def session_new_def)
  have bound: "u64_or_zero (value_index (value_index demo_profile ''policy'') ''max-observations'') = 3"
    "u64_or_zero (value_index (value_index demo_profile ''policy'') ''max-checkpoint-bytes'') = 100"
    by (simp_all add: u64_or_zero_def value_index_def value_get_def demo_profile_def number_as_u64_def)
  have c: "sc_id demo_checkpoint = ''1''" "sc_sequence demo_checkpoint = 0" "sc_draft demo_checkpoint = None"
    "sc_manifest demo_checkpoint = Some ''checkpoints/0/result.json''" "sc_work demo_checkpoint = [(''steps'', 5)]"
    by (simp_all add: demo_checkpoint_def stream_checkpoint_new_def)
  show ?thesis
    unfolding start_stream_def g sbind.simps Let_def demo_encode sum.case bound
    by (simp add: stream_frame_def ensure_usable_def verify_controls_def Let_def receive_def demo_stream_env_def demo_env_def
        session_env.defs redactor_value_def redactor_is_empty_def event accept_checkpoint_def decode_message_def
        demo_checkpoint_from checkpoint_unexpected_def finalize_draft_def c demo_path demo_session_def session_new_def
        default_timeouts_def exchange_limit_def MAX_SAFE_INTEGER_def demo_streaming_def)
qed

lemma demo_streaming_reachable: "session_reachable demo_externals demo_streaming"
proof -
  have "utf8_valid ''event''" "utf8_valid ''checkpoint''" "utf8_valid ''sequence''" "utf8_valid ''check_index''" "utf8_valid ''work''"
    "utf8_valid ''terminal''" "utf8_valid ''manifest''" "utf8_valid ''steps''" "utf8_valid ''checkpoints/0/result.json''"
    unfolding utf8_valid_def by code_simp+
  with demo_utf8 have "reply_wf (Frame (stream_checkpoint_value demo_checkpoint))"
    by (simp add: reply_wf_def stream_checkpoint_value_def ser_object_def ord_extend_def ser_skip_def ser_u64_def
        demo_checkpoint_def stream_checkpoint_new_def)
  from reachable_step [OF demo_reachable step_start [OF demo_permitted [OF this]]] demo_start show ?thesis
    by (metis snd_conv)
qed

definition demo_finished :: execute_stream_response where
  "demo_finished = \<lparr>xsr_id = ''1'', xsr_checkpoint_count = 1\<rparr>"

lemma demo_decide:
  "decide_stream demo_externals (demo_stream_env (execute_stream_response_value demo_finished)) StopStream (Some ''done'') demo_streaming
   = (Inr (FinishedMessage demo_finished), demo_session\<lparr>ws_requests := \<lparr>rt_next_id = 2, rt_pending = None\<rparr>\<rparr>)"
proof -
  have valid: "execute_stream_response_valid demo_finished"
    by (simp add: execute_stream_response_valid_def demo_finished_def MAX_SAFE_INTEGER_def)
  have event: "value_get (execute_stream_response_value demo_finished) ''event'' = None"
    by (simp add: value_get_def execute_stream_response_value_def ser_object_def ord_extend_def)
  have d: "decode_operation_response execute_stream_response_from xsr_id (execute_stream_response_value demo_finished)
      \<lparr>rt_next_id = 2, rt_pending = Some ''1''\<rparr>
    = (Inr (OperationSuccess demo_finished), \<lparr>rt_next_id = 2, rt_pending = None\<rparr>)"
    using execute_stream_response_answer.answer_accepted [OF valid, of "\<lparr>rt_next_id = 2, rt_pending = Some ''1''\<rparr>"]
    by (simp add: demo_finished_def)
  show ?thesis
    by (simp add: decide_stream_def demo_streaming_def demo_encode Let_def stream_frame_def ensure_usable_def verify_controls_def
        receive_def demo_stream_env_def demo_env_def session_env.defs redactor_value_def redactor_is_empty_def event
        finish_stream_def d demo_session_def session_new_def default_timeouts_def exchange_limit_def)
      (simp add: demo_finished_def)
qed

theorem stream_numbering_witness:
  "xsr_checkpoint_count demo_finished = 1
   \<and> rt_pending (ws_requests (snd (decide_stream demo_externals
        (demo_stream_env (execute_stream_response_value demo_finished)) StopStream (Some ''done'') demo_streaming))) = None"
proof -
  have "utf8_valid ''checkpoint_count''" unfolding utf8_valid_def by code_simp
  with demo_utf8 have "reply_wf (Frame (execute_stream_response_value demo_finished))"
    by (simp add: reply_wf_def execute_stream_response_value_def ser_object_def ord_extend_def ser_u64_def demo_finished_def)
  note ok = stream_numbering [OF demo_streaming_reachable demo_permitted [OF this], THEN conjunct2, THEN mp, OF demo_decide]
  from ok have "xsr_checkpoint_count demo_finished = 1" by (auto simp: demo_streaming_def)
  with ok show ?thesis by (simp add: demo_decide)
qed

end
