(* ===== verification/Worker_Reuse.thy ===== *)
theory Worker_Reuse
  imports Worker_Demo Manifest_Model Run_Records
begin

text \<open>
  Worker reuse (\<open>runtime/worker_reuse.rs\<close>): the serial owner of at most one reusable process.  The
  callbacks of a slot are functions on the session; each reset has its environment and the outcome of
  clearing the private directory, numbered by the reset: zero before a reused slot, then one after
  each warm-up.
\<close>

record reuse_key =
  rk_selected_capabilities :: "capability list"
  rk_role :: worker_role
  rk_definition :: digest
  rk_resolved :: resolved_worker
  rk_policy :: execution_policy

type_synonym reusable_worker = "(reuse_key \<times> digest option \<times> worker_session) option"

datatype 'e worker_reuse_error =
    InvalidPolicy
  | MissingPrivateDirectory
  | Cleanup
  | SessionError worker_session_error
  | WarmupError u64 'e
  | LaunchError 'e
  | SlotError 'e

datatype cleanup = Cleared | NoPrivateDirectory | CleanupFailed

definition reset_and_clear ::
    "externals \<Rightarrow> session_env \<times> cleanup \<Rightarrow> worker_session
     \<Rightarrow> (unit, 'e worker_reuse_error) result \<times> worker_session" where
  "reset_and_clear X env s =
     (case reset X (fst env) (set_scientific_deadline None s) of
        (Inl e, s) \<Rightarrow> (Inl (SessionError e), s)
      | (Inr _, s) \<Rightarrow>
          (case snd env of
             Cleared \<Rightarrow> (Inr (), s)
           | NoPrivateDirectory \<Rightarrow> (Inl MissingPrivateDirectory, s)
           | CleanupFailed \<Rightarrow> (Inl Cleanup, s)))"

fun run_warmups ::
    "externals \<Rightarrow> (nat \<Rightarrow> session_env \<times> cleanup) \<Rightarrow> (worker_session \<Rightarrow> u64 \<Rightarrow> (unit, 'e) result \<times> worker_session)
     \<Rightarrow> u64 list \<Rightarrow> worker_session \<Rightarrow> (worker_session, 'e worker_reuse_error) result" where
  "run_warmups X envs warmup [] s = Inr s"
| "run_warmups X envs warmup (i # rest) s =
     (case warmup s i of
        (Inl e, _) \<Rightarrow> Inl (WarmupError i e)
      | (Inr _, s) \<Rightarrow>
          (case reset_and_clear X (envs (i + 1)) s of
             (Inl e, _) \<Rightarrow> Inl e
           | (Inr _, s) \<Rightarrow> run_warmups X envs warmup rest s))"

definition invalid_policy :: "reuse_key \<Rightarrow> bool" where
  "invalid_policy key \<longleftrightarrow> rk_role key \<noteq> ImplementationRole
     \<or> (epr_warmup_runs (rk_policy key) > 0 \<and> \<not> epr_worker_reuse (rk_policy key))
     \<or> (epr_timing_scope (rk_policy key) = ColdEndToEnd
        \<and> (epr_worker_reuse (rk_policy key) \<or> epr_warmup_runs (rk_policy key) > 0))"

text \<open>The session a slot starts with, and whether its warm-ups are due.\<close>

definition obtain_session ::
    "externals \<Rightarrow> session_env \<times> cleanup \<Rightarrow> reuse_key \<Rightarrow> digest option \<Rightarrow> (worker_session, 'e) result
     \<Rightarrow> reusable_worker \<Rightarrow> (worker_session \<times> bool, 'e worker_reuse_error) result" where
  "obtain_session X env key specification launch previous =
     (case previous of
        Some (previous_key, previous_specification, s) \<Rightarrow>
          if epr_worker_reuse (rk_policy key) \<and> previous_key = key \<and> ws_usable s
          then (case reset_and_clear X env s of
              (Inl e, _) \<Rightarrow> Inl e
            | (Inr _, s) \<Rightarrow> Inr (s, previous_specification \<noteq> specification))
          else res_bind (map_err LaunchError launch) (\<lambda>s. Inr (s, True))
      | None \<Rightarrow> res_bind (map_err LaunchError launch) (\<lambda>s. Inr (s, True)))"

definition run_slot_scoped ::
    "externals \<Rightarrow> (nat \<Rightarrow> session_env \<times> cleanup) \<Rightarrow> reuse_key \<Rightarrow> digest option \<Rightarrow> (worker_session, 'e) result
     \<Rightarrow> (worker_session \<Rightarrow> u64 \<Rightarrow> (unit, 'e) result \<times> worker_session)
     \<Rightarrow> (worker_session \<Rightarrow> ('t, 'e) result \<times> worker_session)
     \<Rightarrow> reusable_worker \<Rightarrow> ('t, 'e worker_reuse_error) result \<times> reusable_worker" where
  "run_slot_scoped X envs key specification launch warmup measured retained =
     (if invalid_policy key then (Inl InvalidPolicy, retained)
      else case obtain_session X (envs 0) key specification launch retained of
        Inl e \<Rightarrow> (Inl e, None)
      | Inr (s, needs_warmups) \<Rightarrow>
          (case run_warmups X envs warmup (if needs_warmups then [0..<epr_warmup_runs (rk_policy key)] else []) s of
             Inl e \<Rightarrow> (Inl e, None)
           | Inr s \<Rightarrow>
               (case measured s of
                  (Inl e, _) \<Rightarrow> (Inl (SlotError e), None)
                | (Inr output, s) \<Rightarrow>
                    (Inr output, if epr_worker_reuse (rk_policy key) \<and> ws_usable s then Some (key, specification, s) else None))))"

definition reusable_discard :: "reusable_worker \<Rightarrow> reusable_worker" where
  "reusable_discard retained = None"

section \<open>Contracts\<close>

text \<open>What a retained worker always satisfies.\<close>

definition retained_wf :: "reusable_worker \<Rightarrow> bool" where
  "retained_wf retained = (case retained of
       None \<Rightarrow> True
     | Some (key, _, s) \<Rightarrow> ws_usable s \<and> epr_worker_reuse (rk_policy key) \<and> \<not> invalid_policy key)"


text \<open>
  A slot timed from a cold start is measured on the session its own
  launch returned, with no warm-up and no reset before it, and leaves no worker behind.
\<close>

theorem cold_slots_use_fresh_workers:
  assumes "retained_wf retained" "epr_timing_scope (rk_policy key) = ColdEndToEnd"
    and "run_slot_scoped X envs key specification launch warmup measured retained = (Inr output, retained')"
  shows "retained' = None \<and> (\<exists>s. launch = Inr s \<and> fst (measured s) = Inr output)"
  using assms
  by (auto simp: run_slot_scoped_def invalid_policy_def obtain_session_def split: if_splits sum.splits prod.splits option.splits)

section \<open>Witnesses\<close>

definition demo_key :: "bool \<Rightarrow> timing_scope \<Rightarrow> reuse_key" where
  "demo_key reuse scope =
     \<lparr>rk_selected_capabilities = [OneShotCap], rk_role = ImplementationRole, rk_definition = [],
      rk_resolved = \<lparr>rw_source_bundle = None, rw_environment = [], rw_launch = []\<rparr>,
      rk_policy = \<lparr>epr_name = ''local'', epr_cpus = None, epr_threads = None, epr_memory = None, epr_network = False,
        epr_worker_reuse = reuse, epr_warmup_runs = 0, epr_timeout = None, epr_timing_scope = scope,
        epr_primary_time = TimedWallTime, epr_run_order = Sequential, epr_max_concurrency = 1,
        epr_enforcement = BestEffortEnforcement\<rparr>\<rparr>"

definition demo_measured :: "worker_session \<Rightarrow> (nat, nat) result \<times> worker_session" where
  "demo_measured s = (Inr (rt_next_id (ws_requests s)), s)"

lemma demo_facts: "ws_usable demo_session" "rt_next_id (ws_requests demo_session) = 1"
  by (simp_all add: demo_session_def session_new_def)


theorem cold_slots_use_fresh_workers_witness:
  "\<exists>s. (Inr demo_session :: (worker_session, nat) result) = Inr s \<and> fst (demo_measured s) = Inr 1"
proof -
  have run: "run_slot_scoped demo_externals (\<lambda>_. (demo_env JNull, Cleared)) (demo_key False ColdEndToEnd) None (Inr demo_session)
      (\<lambda>s _. (Inr (), s)) demo_measured (Some (demo_key True ExecuteOnly, None, demo_session)) = (Inr 1, None)"
    by (simp add: run_slot_scoped_def invalid_policy_def obtain_session_def demo_key_def demo_measured_def demo_facts)
  have wf: "retained_wf (Some (demo_key True ExecuteOnly, None, demo_session))"
    by (simp add: retained_wf_def invalid_policy_def demo_key_def demo_facts)
  have cold: "epr_timing_scope (rk_policy (demo_key False ColdEndToEnd)) = ColdEndToEnd" by (simp add: demo_key_def)
  show ?thesis using cold_slots_use_fresh_workers [OF wf cold run] by (rule conjunct2)
qed

end
