(* ===== verification/Buffer_Records.thy ===== *)
theory Buffer_Records
  imports Serde_Derive Run_Records Manifest_Model Schema_Catalog
begin

text \<open>
  The records of a buffered profile (\<open>core/profile.rs\<close>): the trace points and the manifest a worker
  leaves behind, with their derived readers and writers, and the selected profile both sides share.
  A work map is a \<open>BTreeMap\<close>: an association list in key order.
\<close>

type_synonym work_counts = "(string \<times> u64) list"

record selected_buffered_profile =
  sb_policy :: profile_policy
  sb_instrumented_scope :: string
  sb_scope :: instrumented_scope
  sb_instrumentation :: json
  sb_check_schedule :: check_schedule

record trace_point =
  tp_check_index :: u64
  tp_work :: work_counts
  tp_metrics :: json
  tp_time_ns :: u64
  tp_terminal :: bool

record buffered_snapshot =
  bs_ordinal :: u64
  bs_trace_index :: u64
  bs_thresholds :: "f64 list"
  bs_manifest :: string

record buffer_file =
  bf_path :: string
  bf_sha256 :: string
  bf_size :: u64

record buffered_manifest =
  bm_schema_version :: nat
  bm_complete :: bool
  bm_clock :: string
  bm_scope :: string
  bm_total_ns :: u64
  bm_stop_reason :: stop_reason
  bm_trace :: string
  bm_snapshots :: "buffered_snapshot list"
  bm_files :: "buffer_file list"

section \<open>Writers\<close>

definition work_json :: "work_counts \<Rightarrow> json" where
  "work_json work = JObject (map (\<lambda>(k, n). (k, ser_u64 n)) work)"

definition trace_point_json :: "trace_point \<Rightarrow> json" where
  "trace_point_json p = ser_object
     [(''check_index'', ser_u64 (tp_check_index p)), (''work'', work_json (tp_work p)),
      (''provisional_metrics'', tp_metrics p), (''instrumented_time_ns'', ser_u64 (tp_time_ns p)),
      (''terminal'', JBool (tp_terminal p))]"

definition snapshot_json :: "buffered_snapshot \<Rightarrow> json" where
  "snapshot_json s = ser_object
     [(''capture_ordinal'', ser_u64 (bs_ordinal s)), (''trace_index'', ser_u64 (bs_trace_index s)),
      (''thresholds'', JArray (map f64_json (bs_thresholds s))), (''manifest'', JString (bs_manifest s))]"

definition buffer_file_json :: "buffer_file \<Rightarrow> json" where
  "buffer_file_json f = ser_object
     [(''path'', JString (bf_path f)), (''sha256'', JString (bf_sha256 f)), (''size_bytes'', ser_u64 (bf_size f))]"

definition buffered_manifest_json :: "buffered_manifest \<Rightarrow> json" where
  "buffered_manifest_json m = ser_object
     [(''schema_version'', ser_u64 (bm_schema_version m)), (''complete'', JBool (bm_complete m)),
      (''clock'', JString (bm_clock m)), (''instrumented_scope'', JString (bm_scope m)),
      (''instrumented_total_time_ns'', ser_u64 (bm_total_ns m)),
      (''stop_reason'', JString (stop_reason_name (bm_stop_reason m))), (''trace'', JString (bm_trace m)),
      (''snapshots'', JArray (map snapshot_json (bm_snapshots m))),
      (''files'', JArray (map buffer_file_json (bm_files m)))]"

section \<open>Readers\<close>

text \<open>\<open>Value::as_f64\<close>, and the \<open>f64\<close> reader, which accepts the same numbers.\<close>

fun value_as_f64 :: "json \<Rightarrow> f64 option" where
  "value_as_f64 (JNumber (PosInt n)) = Some (f64_of_u64 n)"
| "value_as_f64 (JNumber (NegInt i)) = Some (f64_of_i64 i)"
| "value_as_f64 (JNumber (Float x)) = Some x"
| "value_as_f64 _ = None"

definition de_f64_value :: "f64 decoder" where
  "de_f64_value v = ok_or (value_as_f64 v) SerdeError"

definition stop_reason_table :: "(string \<times> stop_reason) list" where
  "stop_reason_table = map (\<lambda>r. (stop_reason_name r, r))
     [TargetReached, FixedCount, TraceLimit, ObservationLimit, ByteLimit, ActiveTimeLimitStop,
      ImplementationStopped]"

definition trace_point_from :: "trace_point decoder" where
  "trace_point_from v =
     res_bind (de_struct True [''check_index'', ''work'', ''provisional_metrics'', ''instrumented_time_ns'',
         ''terminal''] v) (\<lambda>ms.
     res_bind (de_field ms ''check_index'' Serde_Derive.de_u64) (\<lambda>check_index.
     res_bind (de_field ms ''work'' (de_map Serde_Derive.de_u64)) (\<lambda>work.
     res_bind (de_field ms ''provisional_metrics'' de_value) (\<lambda>metrics.
     res_bind (de_field ms ''instrumented_time_ns'' Serde_Derive.de_u64) (\<lambda>time_ns.
     res_bind (de_field ms ''terminal'' de_bool) (\<lambda>terminal.
     Inr \<lparr>tp_check_index = check_index, tp_work = work, tp_metrics = metrics, tp_time_ns = time_ns,
       tp_terminal = terminal\<rparr>))))))"

definition snapshot_from :: "buffered_snapshot decoder" where
  "snapshot_from v =
     res_bind (de_struct True [''capture_ordinal'', ''trace_index'', ''thresholds'', ''manifest''] v) (\<lambda>ms.
     res_bind (de_field ms ''capture_ordinal'' Serde_Derive.de_u64) (\<lambda>ordinal.
     res_bind (de_field ms ''trace_index'' Serde_Derive.de_u64) (\<lambda>trace_index.
     res_bind (de_field ms ''thresholds'' (de_vec de_f64_value)) (\<lambda>thresholds.
     res_bind (de_field ms ''manifest'' Serde_Derive.de_string) (\<lambda>manifest.
     Inr \<lparr>bs_ordinal = ordinal, bs_trace_index = trace_index, bs_thresholds = thresholds,
       bs_manifest = manifest\<rparr>)))))"

definition buffer_file_from :: "buffer_file decoder" where
  "buffer_file_from v =
     res_bind (de_struct True [''path'', ''sha256'', ''size_bytes''] v) (\<lambda>ms.
     res_bind (de_field ms ''path'' Serde_Derive.de_string) (\<lambda>path.
     res_bind (de_field ms ''sha256'' Serde_Derive.de_string) (\<lambda>sha.
     res_bind (de_field ms ''size_bytes'' Serde_Derive.de_u64) (\<lambda>size_bytes.
     Inr \<lparr>bf_path = path, bf_sha256 = sha, bf_size = size_bytes\<rparr>))))"

definition buffered_manifest_from :: "buffered_manifest decoder" where
  "buffered_manifest_from v =
     res_bind (de_struct True [''schema_version'', ''complete'', ''clock'', ''instrumented_scope'',
         ''instrumented_total_time_ns'', ''stop_reason'', ''trace'', ''snapshots'', ''files''] v) (\<lambda>ms.
     res_bind (de_field ms ''schema_version'' de_u32) (\<lambda>version.
     res_bind (de_field ms ''complete'' de_bool) (\<lambda>complete.
     res_bind (de_field ms ''clock'' Serde_Derive.de_string) (\<lambda>clock.
     res_bind (de_field ms ''instrumented_scope'' Serde_Derive.de_string) (\<lambda>scope.
     res_bind (de_field ms ''instrumented_total_time_ns'' Serde_Derive.de_u64) (\<lambda>total_ns.
     res_bind (de_field ms ''stop_reason'' (de_variant stop_reason_table)) (\<lambda>reason.
     res_bind (de_field ms ''trace'' Serde_Derive.de_string) (\<lambda>trace.
     res_bind (de_field ms ''snapshots'' (de_vec snapshot_from)) (\<lambda>snapshots.
     res_bind (de_field ms ''files'' (de_vec buffer_file_from)) (\<lambda>files.
     Inr \<lparr>bm_schema_version = version, bm_complete = complete, bm_clock = clock, bm_scope = scope,
       bm_total_ns = total_ns, bm_stop_reason = reason, bm_trace = trace, bm_snapshots = snapshots,
       bm_files = files\<rparr>))))))))))"

section \<open>Canonical text\<close>

datatype canonical_failure = NotCanonical canonical_violation | NotSerialized

text \<open>\<open>CanonicalValue::try_from(value)?.to_canonical_bytes()?\<close>\<close>

definition json_bytes :: "externals \<Rightarrow> json \<Rightarrow> (string, canonical_failure) result" where
  "json_bytes X value =
     res_bind (map_err NotCanonical (normalize_value value)) (\<lambda>v. ok_or (canonicalizer X v) NotSerialized)"

text \<open>The buffer file entry of some bytes.\<close>

definition buffer_file_of :: "externals \<Rightarrow> string \<Rightarrow> string \<Rightarrow> buffer_file" where
  "buffer_file_of X path data = \<lparr>bf_path = path, bf_sha256 = hex (sha256 X data), bf_size = length data\<rparr>"

end
