(* ===== verification/Buffer_Recorder.thy ===== *)
theory Buffer_Recorder
  imports Buffer_Records
begin

text \<open>
  The collector of a buffered profile (\<open>BufferedTrace\<close> in \<open>runtime/buffered.rs\<close>): a worker reports
  its progress, and the collector decides which checks are recorded, which are captured as snapshots and
  when the execution stops.  The clock readings and the results of the two callbacks of a check are the
  fields of \<open>check_env\<close>; a callback that is never run has a result nothing reads.
\<close>

section \<open>State\<close>

record progress =
  pr_check_index :: u64
  pr_work :: work_counts

datatype decision = ContinueRecording | StopRecording stop_reason

record buffered_trace =
  bt_profile :: selected_buffered_profile
  bt_points :: "trace_point list"
  bt_snapshots :: "(buffered_snapshot \<times> string) list"
  bt_trace_bytes :: u64
  bt_snapshot_bytes :: u64
  bt_reached :: "f64 list"
  bt_stopped :: "stop_reason option"
  bt_finished :: bool
  bt_total :: u64
  bt_adopted :: "string option"

datatype buffer_violation =
    RecordingAfterStop | UnsafeProgress | ProgressNotMonotone | CheckSkipped | MetricsNotObject
  | ClockNotMonotone | TargetNotNumeric | SnapshotNotObject | AlreadyFinished | TerminalWorkChanged
  | InvalidTotal | CombinedNativeBuffer | NotFinished | InvalidSchedule | PolicyViolation policy_error
  | ActiveTimeViolation duration_error

datatype exceeded_bound =
    CheckExceedsBytes | SnapshotExceedsObservations | TerminalSnapshotSize | TerminalSnapshotCount | CompletedBufferSize

datatype buffer_error =
    BufferInvalid buffer_violation
  | BufferLimit exceeded_bound
  | BufferText canonical_failure
  | CallbackFailed
  | BufferPanic string

record check_env =
  ce_first :: u64
  ce_metrics :: "json option"
  ce_second :: u64
  ce_snapshot :: "json option"

definition with_clock :: "selected_buffered_profile \<Rightarrow> (buffered_trace, buffer_error) result" where
  "with_clock profile =
     res_bind (map_err (\<lambda>e. BufferInvalid (PolicyViolation e)) (validate_policy (sb_policy profile))) (\<lambda>_.
     res_bind (map_err (\<lambda>e. BufferInvalid (PolicyViolation e)) (validate_buffered (sb_policy profile))) (\<lambda>_.
     res_bind (ensure (schedule_valid (sb_check_schedule profile)) (BufferInvalid InvalidSchedule)) (\<lambda>_.
     Inr \<lparr>bt_profile = profile, bt_points = [], bt_snapshots = [], bt_trace_bytes = 0, bt_snapshot_bytes = 0,
       bt_reached = [], bt_stopped = None, bt_finished = False, bt_total = 0, bt_adopted = None\<rparr>)))"

definition last_point :: "buffered_trace \<Rightarrow> trace_point option" where
  "last_point tr = (if bt_points tr = [] then None else Some (last (bt_points tr)))"

section \<open>Admission of a check\<close>

text \<open>\<open>old.iter().any(|(k, v)| new.get(k).is_none_or(|n| n < v))\<close>\<close>

definition work_regresses :: "work_counts \<Rightarrow> work_counts \<Rightarrow> bool" where
  "work_regresses before after \<longleftrightarrow>
     list_ex (\<lambda>(k, v). case map_of after k of None \<Rightarrow> True | Some n \<Rightarrow> n < v) before"

definition expected_check :: "buffered_trace \<Rightarrow> u64 option" where
  "expected_check tr =
     next_after (sb_check_schedule (bt_profile tr)) (map_option tp_check_index (last_point tr))"

definition admit_check :: "progress \<Rightarrow> buffered_trace \<Rightarrow> (unit, buffer_error) result" where
  "admit_check progress tr =
     (if bt_finished tr \<or> bt_stopped tr \<noteq> None \<or> bt_adopted tr \<noteq> None
      then Inl (BufferInvalid RecordingAfterStop)
      else if pr_check_index progress > MAX_SAFE_INTEGER
          \<or> list_ex (\<lambda>(_, v). v > MAX_SAFE_INTEGER) (pr_work progress)
      then Inl (BufferInvalid UnsafeProgress)
      else if (case last_point tr of None \<Rightarrow> False
          | Some p \<Rightarrow> pr_check_index progress \<le> tp_check_index p \<or> work_regresses (tp_work p) (pr_work progress))
      then Inl (BufferInvalid ProgressNotMonotone)
      else if (case expected_check tr of None \<Rightarrow> False | Some n \<Rightarrow> pr_check_index progress > n)
      then Inl (BufferInvalid CheckSkipped)
      else Inr ())"

text \<open>The finite number a metrics object holds under a name.\<close>

definition finite_metric :: "json \<Rightarrow> string \<Rightarrow> f64 option" where
  "finite_metric metrics name = opt_filter f64_is_finite (Option.bind (value_get metrics name) value_as_f64)"

definition target_value :: "profile_policy \<Rightarrow> json \<Rightarrow> (f64 option, buffer_error) result" where
  "target_value policy metrics =
     (case pp_metric policy of
        None \<Rightarrow> Inr None
      | Some m \<Rightarrow>
          res_bind (ok_or (finite_metric metrics m) (BufferInvalid TargetNotNumeric)) (\<lambda>v. Inr (Some v)))"

definition crossed_thresholds :: "buffered_trace \<Rightarrow> f64 option \<Rightarrow> f64 list" where
  "crossed_thresholds tr target =
     filter (\<lambda>t. \<not> list_ex (f64_eq t) (bt_reached tr)
         \<and> (case target of None \<Rightarrow> False | Some v \<Rightarrow> reaches (sb_policy (bt_profile tr)) v t))
       (thresholds (sb_policy (bt_profile tr)))"

definition stop_reason_of :: "profile_policy \<Rightarrow> f64 option \<Rightarrow> bool \<Rightarrow> u64 \<Rightarrow> u64 \<Rightarrow> nat \<Rightarrow> stop_reason option" where
  "stop_reason_of policy target terminal elapsed active points =
     (if (case (target, pp_threshold policy) of (Some v, Some t) \<Rightarrow> reaches policy v t | _ \<Rightarrow> False)
      then Some TargetReached
      else if terminal then Some ImplementationStopped
      else if elapsed \<ge> active then Some ActiveTimeLimitStop
      else if points + 1 \<ge> pp_max_trace_points policy then Some TraceLimit
      else None)"

text \<open>Whether the check is captured, and its stop reason once the observation bound is applied.\<close>

definition capture_decision ::
    "buffered_trace \<Rightarrow> f64 list \<Rightarrow> stop_reason option \<Rightarrow> bool \<times> stop_reason option" where
  "capture_decision tr crossed reason =
     (let policy = sb_policy (bt_profile tr);
          capture = (pp_metric policy = None \<or> crossed \<noteq> [] \<or> reason \<noteq> None)
      in (capture,
          if capture \<and> length (bt_snapshots tr) + 1 \<ge> pp_max_observations policy \<and> reason = None
          then Some (if pp_metric policy = None then FixedCount else ObservationLimit)
          else reason))"

section \<open>Byte accounting\<close>

definition manifest_of :: "buffered_trace \<Rightarrow> u64 \<Rightarrow> stop_reason \<Rightarrow> buffer_file list \<Rightarrow> buffered_manifest" where
  "manifest_of tr total_ns reason files =
     \<lparr>bm_schema_version = 1, bm_complete = True, bm_clock = ''monotonic_ns'',
      bm_scope = sb_instrumented_scope (bt_profile tr), bm_total_ns = total_ns, bm_stop_reason = reason,
      bm_trace = ''trace.jsonl'', bm_snapshots = map fst (bt_snapshots tr), bm_files = files\<rparr>"

definition zero_sha :: string where
  "zero_sha = replicate 64 (CHR ''0'')"

definition snapshot_path :: "nat \<Rightarrow> string" where
  "snapshot_path ordinal = ''snapshots/'' @ dec_string ordinal @ ''/result.json''"

definition estimated_manifest :: "buffered_trace \<Rightarrow> u64 \<Rightarrow> string option \<Rightarrow> buffered_manifest" where
  "estimated_manifest tr extra_trace extra_snapshot =
     (let files = \<lparr>bf_path = ''trace.jsonl'', bf_sha256 = zero_sha, bf_size = bt_trace_bytes tr + extra_trace\<rparr>
            # map (\<lambda>(s, b). \<lparr>bf_path = bs_manifest s, bf_sha256 = zero_sha, bf_size = length b\<rparr>) (bt_snapshots tr);
          m = manifest_of tr MAX_SAFE_INTEGER ImplementationStopped files;
          ordinal = length (bt_snapshots tr)
      in case extra_snapshot of
           None \<Rightarrow> m
         | Some data \<Rightarrow>
             m\<lparr>bm_files := bm_files m
                 @ [\<lparr>bf_path = snapshot_path ordinal, bf_sha256 = zero_sha, bf_size = length data\<rparr>],
               bm_snapshots := bm_snapshots m
                 @ [\<lparr>bs_ordinal = ordinal, bs_trace_index = length (bt_points tr),
                     bs_thresholds = thresholds (sb_policy (bt_profile tr)), bs_manifest = snapshot_path ordinal\<rparr>]\<rparr>)"

definition buffer_bytes :: "externals \<Rightarrow> json \<Rightarrow> (string, buffer_error) result" where
  "buffer_bytes X v = map_err BufferText (json_bytes X v)"

definition estimated_bytes :: "externals \<Rightarrow> buffered_trace \<Rightarrow> u64 \<Rightarrow> string option \<Rightarrow> (u64, buffer_error) result" where
  "estimated_bytes X tr extra_trace extra_snapshot =
     res_bind (buffer_bytes X (buffered_manifest_json (estimated_manifest tr extra_trace extra_snapshot))) (\<lambda>text.
     Inr (bt_trace_bytes tr + extra_trace + bt_snapshot_bytes tr
       + (case extra_snapshot of None \<Rightarrow> 0 | Some data \<Rightarrow> length data) + length text))"

text \<open>A regular check that would leave too little for the terminal one becomes the terminal one.\<close>

definition byte_limited ::
    "externals \<Rightarrow> buffered_trace \<Rightarrow> string option \<Rightarrow> trace_point \<times> string \<times> stop_reason option
     \<Rightarrow> (trace_point \<times> string \<times> stop_reason option, buffer_error) result" where
  "byte_limited X tr captured = (\<lambda>(point, encoded, reason).
     if reason \<noteq> None then Inr (point, encoded, reason)
     else res_bind (estimated_bytes X tr (length encoded + 1) captured) (\<lambda>size_bytes.
       if size_bytes > pp_max_buffer_bytes (sb_policy (bt_profile tr)) - pp_terminal_reserve_bytes (sb_policy (bt_profile tr))
       then res_bind (buffer_bytes X (trace_point_json (point\<lparr>tp_terminal := True\<rparr>))) (\<lambda>encoded.
         Inr (point\<lparr>tp_terminal := True\<rparr>, encoded, Some ByteLimit))
       else Inr (point, encoded, reason)))"

definition snapshot_document :: "json \<Rightarrow> json" where
  "snapshot_document data =
     ser_object [(''schema_version'', ser_u64 1), (''data'', data), (''files'', JArray [])]"

text \<open>The captured document; \<open>expect("encoded result")\<close> is the panic.\<close>

definition capture_snapshot :: "externals \<Rightarrow> check_env \<Rightarrow> (string, buffer_error) result" where
  "capture_snapshot X E =
     res_bind (ok_or (ce_snapshot E) CallbackFailed) (\<lambda>data.
     res_bind (buffer_bytes X (snapshot_document data)) (\<lambda>text.
     (case canonical_from_slice (parse_json X) text of
        Inl _ \<Rightarrow> Inl (BufferPanic ''encoded result'')
      | Inr v \<Rightarrow>
          if (case value_get v ''data'' of None \<Rightarrow> False | Some d \<Rightarrow> is_object d) then Inr text
          else Inl (BufferInvalid SnapshotNotObject))))"

section \<open>Recording\<close>

record recorded_check =
  rc_point :: trace_point
  rc_encoded :: string
  rc_captured :: "string option"
  rc_crossed :: "f64 list"
  rc_reason :: "stop_reason option"

definition encode_check ::
    "externals \<Rightarrow> check_env \<Rightarrow> buffered_trace \<Rightarrow> trace_point \<Rightarrow> f64 list \<Rightarrow> bool \<times> stop_reason option
     \<Rightarrow> (recorded_check, buffer_error) result" where
  "encode_check X E tr point crossed = (\<lambda>(capture, reason).
     res_bind (buffer_bytes X (trace_point_json (point\<lparr>tp_terminal := (reason \<noteq> None)\<rparr>))) (\<lambda>encoded.
     res_bind (byte_limited X tr None (point\<lparr>tp_terminal := (reason \<noteq> None)\<rparr>, encoded, reason)) (\<lambda>(point, encoded, reason).
     res_bind (if capture \<or> reason \<noteq> None then res_bind (capture_snapshot X E) (\<lambda>d. Inr (Some d)) else Inr None) (\<lambda>captured.
     res_bind (byte_limited X tr captured (point, encoded, reason)) (\<lambda>(point, encoded, reason).
     res_bind (estimated_bytes X tr (length encoded + 1) captured) (\<lambda>size_bytes.
     if size_bytes > pp_max_buffer_bytes (sb_policy (bt_profile tr)) then Inl (BufferLimit CheckExceedsBytes)
     else Inr \<lparr>rc_point = point, rc_encoded = encoded, rc_captured = captured, rc_crossed = crossed,
       rc_reason = reason\<rparr>))))))"

definition measure_check ::
    "externals \<Rightarrow> check_env \<Rightarrow> progress \<Rightarrow> bool \<Rightarrow> u64 \<Rightarrow> buffered_trace \<Rightarrow> (recorded_check, buffer_error) result" where
  "measure_check X E progress terminal active tr =
     res_bind (ok_or (ce_metrics E) CallbackFailed) (\<lambda>metrics.
     res_bind (ensure (is_object metrics) (BufferInvalid MetricsNotObject)) (\<lambda>_.
     res_bind (map_err (\<lambda>e. BufferText (NotCanonical e)) (normalize_value metrics)) (\<lambda>_.
     if ce_second E > MAX_SAFE_INTEGER
       \<or> (case last_point tr of None \<Rightarrow> False | Some p \<Rightarrow> ce_second E < tp_time_ns p)
     then Inl (BufferInvalid ClockNotMonotone)
     else res_bind (target_value (sb_policy (bt_profile tr)) metrics) (\<lambda>target.
       let crossed = crossed_thresholds tr target;
           reason = stop_reason_of (sb_policy (bt_profile tr)) target terminal (ce_second E) active (length (bt_points tr))
       in encode_check X E tr
            \<lparr>tp_check_index = pr_check_index progress, tp_work = pr_work progress, tp_metrics = metrics,
             tp_time_ns = ce_second E, tp_terminal = False\<rparr>
            crossed (capture_decision tr crossed reason)))))"

text \<open>What a check records, or \<open>None\<close> when it is not due.\<close>

definition evaluate_check ::
    "externals \<Rightarrow> check_env \<Rightarrow> progress \<Rightarrow> bool \<Rightarrow> buffered_trace \<Rightarrow> (recorded_check option, buffer_error) result" where
  "evaluate_check X E progress terminal tr =
     res_bind (admit_check progress tr) (\<lambda>_.
     res_bind (map_err (\<lambda>e. BufferInvalid (ActiveTimeViolation e)) (active_time_ns (sb_policy (bt_profile tr)))) (\<lambda>active.
     if \<not> terminal \<and> \<not> ce_first E \<ge> active \<and> expected_check tr \<noteq> Some (pr_check_index progress)
     then Inr None
     else res_bind (measure_check X E progress terminal active tr) (\<lambda>c. Inr (Some c))))"

definition add_snapshot :: "nat \<Rightarrow> f64 list \<Rightarrow> string \<Rightarrow> buffered_trace \<Rightarrow> buffered_trace" where
  "add_snapshot trace_index claimed data tr =
     (let ordinal = length (bt_snapshots tr)
      in tr\<lparr>bt_snapshot_bytes := bt_snapshot_bytes tr + length data,
           bt_snapshots := bt_snapshots tr
             @ [(\<lparr>bs_ordinal = ordinal, bs_trace_index = trace_index, bs_thresholds = claimed,
                  bs_manifest = snapshot_path ordinal\<rparr>, data)]\<rparr>)"

definition commit_check :: "recorded_check \<Rightarrow> buffered_trace \<Rightarrow> (decision, buffer_error) result \<times> buffered_trace" where
  "commit_check c tr =
     (let tr = tr\<lparr>bt_trace_bytes := bt_trace_bytes tr + length (rc_encoded c) + 1, bt_points := bt_points tr @ [rc_point c]\<rparr>;
          conclude = (\<lambda>tr. (Inr (case rc_reason c of None \<Rightarrow> ContinueRecording | Some r \<Rightarrow> StopRecording r),
            tr\<lparr>bt_reached := bt_reached tr @ rc_crossed c, bt_stopped := rc_reason c\<rparr>))
      in case rc_captured c of
           None \<Rightarrow> conclude tr
         | Some data \<Rightarrow>
             if length (bt_snapshots tr) \<ge> pp_max_observations (sb_policy (bt_profile tr))
             then (Inl (BufferLimit SnapshotExceedsObservations), tr)
             else conclude (add_snapshot (length (bt_points tr) - 1) (rc_crossed c) data tr))"

definition check ::
    "externals \<Rightarrow> check_env \<Rightarrow> progress \<Rightarrow> bool \<Rightarrow> buffered_trace \<Rightarrow> (decision, buffer_error) result \<times> buffered_trace" where
  "check X E progress terminal tr =
     (case evaluate_check X E progress terminal tr of
        Inl e \<Rightarrow> (Inl e, tr)
      | Inr None \<Rightarrow> (Inr ContinueRecording, tr)
      | Inr (Some c) \<Rightarrow> commit_check c tr)"

text \<open>\<open>observe\<close> and \<open>record\<close> differ only in where the metrics come from.\<close>

definition observe ::
    "externals \<Rightarrow> check_env \<Rightarrow> progress \<Rightarrow> buffered_trace \<Rightarrow> (decision, buffer_error) result \<times> buffered_trace" where
  "observe X E progress tr = check X E progress False tr"

definition record_metrics ::
    "externals \<Rightarrow> check_env \<Rightarrow> progress \<Rightarrow> json \<Rightarrow> buffered_trace \<Rightarrow> (decision, buffer_error) result \<times> buffered_trace" where
  "record_metrics X E progress metrics tr = check X (E\<lparr>ce_metrics := Some metrics\<rparr>) progress False tr"

section \<open>Finishing and writing\<close>

text \<open>The terminal check repeats the index of the last recorded one: only its snapshot may be missing.\<close>

definition finish_last ::
    "externals \<Rightarrow> check_env \<Rightarrow> progress \<Rightarrow> trace_point \<Rightarrow> buffered_trace \<Rightarrow> (unit, buffer_error) result \<times> buffered_trace" where
  "finish_last X E progress point tr =
     (let settle = (\<lambda>tr. (Inr (), tr\<lparr>bt_points := butlast (bt_points tr) @ [(last (bt_points tr))\<lparr>tp_terminal := True\<rparr>]\<rparr>))
      in if tp_work point \<noteq> pr_work progress then (Inl (BufferInvalid TerminalWorkChanged), tr)
         else if bt_snapshots tr = [] \<or> bs_trace_index (fst (last (bt_snapshots tr))) \<noteq> length (bt_points tr) - 1
         then (case res_bind (ok_or (ce_snapshot E) CallbackFailed) (\<lambda>d. buffer_bytes X (snapshot_document d)) of
             Inl e \<Rightarrow> (Inl e, tr)
           | Inr data \<Rightarrow>
               (case estimated_bytes X tr 0 (Some data) of
                  Inl e \<Rightarrow> (Inl e, tr)
                | Inr size_bytes \<Rightarrow>
                    if size_bytes > pp_max_buffer_bytes (sb_policy (bt_profile tr))
                    then (Inl (BufferLimit TerminalSnapshotSize), tr)
                    else if length (bt_snapshots tr) \<ge> pp_max_observations (sb_policy (bt_profile tr))
                    then (Inl (BufferLimit TerminalSnapshotCount), tr)
                    else settle (add_snapshot (length (bt_points tr) - 1) [] data tr)))
         else settle tr)"

definition conclude_finish :: "u64 \<Rightarrow> buffered_trace \<Rightarrow> (unit, buffer_error) result \<times> buffered_trace" where
  "conclude_finish total_ns tr =
     (let tr = tr\<lparr>bt_stopped := Some (case bt_stopped tr of None \<Rightarrow> ImplementationStopped | Some r \<Rightarrow> r), bt_total := total_ns\<rparr>
      in case last_point tr of
           None \<Rightarrow> (Inl (if total_ns > MAX_SAFE_INTEGER then BufferInvalid InvalidTotal else BufferPanic ''terminal check''), tr)
         | Some p \<Rightarrow>
             if total_ns > MAX_SAFE_INTEGER \<or> total_ns < tp_time_ns p then (Inl (BufferInvalid InvalidTotal), tr)
             else (Inr (), tr\<lparr>bt_finished := True\<rparr>))"

definition finish ::
    "externals \<Rightarrow> check_env \<Rightarrow> u64 \<Rightarrow> progress \<Rightarrow> buffered_trace \<Rightarrow> (unit, buffer_error) result \<times> buffered_trace" where
  "finish X E total_ns progress tr =
     (if bt_finished tr \<or> bt_adopted tr \<noteq> None then (Inl (BufferInvalid AlreadyFinished), tr)
      else
        (case (case last_point tr of
             Some p \<Rightarrow>
               if tp_check_index p = pr_check_index progress then finish_last X E progress p tr
               else (case check X E progress True tr of (Inl e, tr) \<Rightarrow> (Inl e, tr) | (Inr _, tr) \<Rightarrow> (Inr (), tr))
           | None \<Rightarrow> (case check X E progress True tr of (Inl e, tr) \<Rightarrow> (Inl e, tr) | (Inr _, tr) \<Rightarrow> (Inr (), tr))) of
           (Inl e, tr) \<Rightarrow> (Inl e, tr)
         | (Inr _, tr) \<Rightarrow> conclude_finish total_ns tr))"

text \<open>The manifest a finished trace returns, and the files written below its directory, in order.\<close>

definition trace_text :: "externals \<Rightarrow> trace_point list \<Rightarrow> (string, buffer_error) result" where
  "trace_text X points =
     res_bind (collect_results (\<lambda>p. buffer_bytes X (trace_point_json p)) points) (\<lambda>lines.
     Inr (concat (map (\<lambda>line. line @ [CHR 0x0A]) lines)))"

definition write_buffer :: "externals \<Rightarrow> buffered_trace \<Rightarrow> (string \<times> (string \<times> string) list, buffer_error) result" where
  "write_buffer X tr =
     (if \<not> bt_finished tr then Inl (BufferInvalid NotFinished)
      else case bt_adopted tr of
        Some manifest \<Rightarrow> Inr (manifest, [])
      | None \<Rightarrow>
          res_bind (trace_text X (bt_points tr)) (\<lambda>trace.
          let stored = map (\<lambda>(s, data). (bs_manifest s, data)) (bt_snapshots tr);
              files = map (\<lambda>(path, data). buffer_file_of X path data) ((''trace.jsonl'', trace) # stored)
          in res_bind (ok_or (bt_stopped tr) (BufferPanic ''finished stop reason'')) (\<lambda>reason.
          res_bind (buffer_bytes X (buffered_manifest_json (manifest_of tr (bt_total tr) reason files))) (\<lambda>data.
          if length trace + bt_snapshot_bytes tr + length data > pp_max_buffer_bytes (sb_policy (bt_profile tr))
          then Inl (BufferLimit CompletedBufferSize)
          else Inr (''buffer.json'', (''trace.jsonl'', trace) # stored @ [(''buffer.json'', data)])))))"

end
