(* ===== verification/Buffer_Validation.thy ===== *)
theory Buffer_Validation
  imports Buffer_Recorder
begin

text \<open>
  The executor's check of a completed buffer (\<open>validate_buffer\<close> in \<open>runtime/buffered.rs\<close>).  The result
  directory is a tree of files; reading it cannot fail for other reasons than its shape.  The hash of the
  whole tree, taken before and after, is an argument.  A message is a constructor of \<open>buffer_rejection\<close>.
\<close>

section \<open>The result directory\<close>

datatype fs_entry = FsFile string | FsDir "(string \<times> fs_entry) list" | FsOther

datatype buffer_rejection =
    RejectedPolicy policy_error
  | RejectedActiveTime duration_error
  | UnsafeBufferPath
  | SpecialEntry
  | SizeOverflow
  | BufferTooLarge
  | TreeNotHashed
  | UnreadableFile
  | NotCanonicalText
  | UnexpectedShape
  | InvalidHeader
  | InvalidFileEntry
  | FileHashMismatch
  | UndeclaredFiles
  | TraceNotDeclared
  | IncompleteTrace
  | TracePointBound
  | TerminalCheckMisplaced
  | InvalidTracePoint
  | TraceNotMonotone
  | TraceTargetNotNumeric
  | ContinuedAfterStop
  | SnapshotCount
  | UnsavedIterate
  | InvalidSnapshot
  | InvalidThresholdClaim
  | TerminalSnapshotMissing
  | CrossingNotSaved
  | UnsubstantiatedStop stop_reason
  | ReserveConsumed
  | BufferChanged
  | RejectedText canonical_failure
  | ValidationPanic string

text \<open>\<open>safe_path\<close>: normalized and relative.\<close>

definition safe_path :: "string \<Rightarrow> bool" where
  "safe_path path \<longleftrightarrow> \<not> (path = [] \<or> hd path = CHR ''/''
     \<or> CHR 0x5C \<in> set path \<or> CHR 0x00 \<in> set path
     \<or> list_ex (\<lambda>p. p = [] \<or> p = ''.'' \<or> p = ''..'' \<or> CHR '':'' \<in> set p) (str_split (CHR ''/'') path))"

text \<open>The sizes of the regular files below a directory, by relative path.\<close>

fun inventory_files ::
    "string \<Rightarrow> (string \<times> fs_entry) list \<Rightarrow> (string \<times> nat) list \<Rightarrow> ((string \<times> nat) list, buffer_rejection) result" where
  "inventory_files dir [] files = Inr files"
| "inventory_files dir ((name, entry) # rest) files =
     (if \<not> safe_path (dir @ name) then Inl UnsafeBufferPath
      else case entry of
        FsDir es \<Rightarrow> res_bind (inventory_files (dir @ name @ ''/'') es files) (\<lambda>files. inventory_files dir rest files)
      | FsFile data \<Rightarrow> inventory_files dir rest (ord_insert (dir @ name) (length data) files)
      | FsOther \<Rightarrow> Inl SpecialEntry)"

fun checked_total :: "nat \<Rightarrow> nat list \<Rightarrow> nat option" where
  "checked_total acc [] = Some acc"
| "checked_total acc (n # ns) = Option.bind (checked_add acc n) (\<lambda>s. checked_total s ns)"

text \<open>Path resolution by the operating system: empty and dot components stay in their directory.\<close>

fun resolve_path :: "fs_entry \<Rightarrow> string list \<Rightarrow> fs_entry option" where
  "resolve_path entry [] = Some entry"
| "resolve_path (FsDir es) (c # cs) =
     (if c = [] \<or> c = ''.'' then resolve_path (FsDir es) cs
      else Option.bind (map_of es c) (\<lambda>e. resolve_path e cs))"
| "resolve_path _ (c # cs) = None"

definition read_buffer_file :: "(string \<times> fs_entry) list \<Rightarrow> string \<Rightarrow> (string, buffer_rejection) result" where
  "read_buffer_file tree path =
     (case resolve_path (FsDir tree) (str_split (CHR ''/'') path) of
        Some (FsFile data) \<Rightarrow> Inr data
      | _ \<Rightarrow> Inl UnreadableFile)"

text \<open>\<open>Path::components\<close>: what two paths are compared by.\<close>

definition path_components :: "string \<Rightarrow> string list" where
  "path_components path =
     (case str_split (CHR ''/'') path of
        [] \<Rightarrow> []
      | c # cs \<Rightarrow>
          (if c = [] \<and> path \<noteq> [] then [''/''] else if c = [] then [] else [c])
          @ filter (\<lambda>p. p \<noteq> [] \<and> p \<noteq> ''.'') cs)"

definition path_eq :: "string \<Rightarrow> string \<Rightarrow> bool" where
  "path_eq p q \<longleftrightarrow> path_components p = path_components q"

definition starts_with :: "string \<Rightarrow> string list \<Rightarrow> bool" where
  "starts_with path parent \<longleftrightarrow> take (length parent) (path_components path) = parent"

section \<open>Files and header\<close>

definition header_invalid :: "selected_buffered_profile \<Rightarrow> buffered_manifest \<Rightarrow> bool" where
  "header_invalid profile m \<longleftrightarrow> bm_schema_version m \<noteq> 1 \<or> \<not> bm_complete m \<or> bm_clock m \<noteq> ''monotonic_ns''
     \<or> bm_scope m \<noteq> sb_instrumented_scope profile \<or> bm_total_ns m > MAX_SAFE_INTEGER"

text \<open>Every declared file is there, once, with its size and hash; the result is the declared paths.\<close>

fun declare_files ::
    "externals \<Rightarrow> (string \<times> fs_entry) list \<Rightarrow> (string \<times> nat) list \<Rightarrow> buffer_file list \<Rightarrow> string list
     \<Rightarrow> (string list, buffer_rejection) result" where
  "declare_files X tree actual [] declared = Inr declared"
| "declare_files X tree actual (f # fs) declared =
     (if \<not> safe_path (bf_path f) then Inl UnsafeBufferPath
      else if bf_path f \<in> set declared \<or> map_of actual (bf_path f) \<noteq> Some (bf_size f) then Inl InvalidFileEntry
      else res_bind (read_buffer_file tree (bf_path f)) (\<lambda>data.
        if bf_sha256 (buffer_file_of X (bf_path f) data) \<noteq> bf_sha256 f then Inl FileHashMismatch
        else declare_files X tree actual fs (declared @ [bf_path f])))"

definition is_declared :: "string list \<Rightarrow> string \<Rightarrow> bool" where
  "is_declared declared path \<longleftrightarrow> list_ex (path_eq path) declared"

section \<open>The trace\<close>

definition trace_lines :: "string \<Rightarrow> string list" where
  "trace_lines trace = filter (\<lambda>l. l \<noteq> []) (str_split (CHR 0x0A) trace)"

fun parse_points ::
    "externals \<Rightarrow> nat \<Rightarrow> string list \<Rightarrow> trace_point list \<Rightarrow> (trace_point list, buffer_rejection) result" where
  "parse_points X bound [] points = Inr points"
| "parse_points X bound (line # lines) points =
     res_bind (map_err (\<lambda>_. NotCanonicalText) (canonical_from_slice (parse_json X) line)) (\<lambda>v.
     res_bind (map_err (\<lambda>_. UnexpectedShape) (trace_point_from v)) (\<lambda>p.
     if length points + 1 > bound then Inl TracePointBound
     else parse_points X bound lines (points @ [p])))"

definition point_metric :: "profile_policy \<Rightarrow> trace_point \<Rightarrow> f64 option" where
  "point_metric policy p =
     Option.bind (pp_metric policy) (\<lambda>m. Option.bind (value_get (tp_metrics p) m) value_as_f64)"

definition point_reaches :: "profile_policy \<Rightarrow> trace_point \<Rightarrow> f64 \<Rightarrow> bool" where
  "point_reaches policy p t \<longleftrightarrow> (case point_metric policy p of None \<Rightarrow> False | Some v \<Rightarrow> reaches policy v t)"

definition point_invalid :: "buffered_manifest \<Rightarrow> u64 option \<Rightarrow> trace_point \<Rightarrow> bool" where
  "point_invalid m expected p \<longleftrightarrow>
     tp_check_index p > MAX_SAFE_INTEGER
     \<or> tp_time_ns p > bm_total_ns m
     \<or> \<not> is_object (tp_metrics p)
     \<or> (\<not> tp_terminal p \<and> Some (tp_check_index p) \<noteq> expected)
     \<or> (tp_terminal p \<and> (case expected of None \<Rightarrow> False | Some n \<Rightarrow> tp_check_index p > n))
     \<or> list_ex (\<lambda>(_, v). v > MAX_SAFE_INTEGER) (tp_work p)"

definition point_regresses :: "trace_point \<Rightarrow> trace_point \<Rightarrow> bool" where
  "point_regresses before p \<longleftrightarrow>
     tp_check_index p \<le> tp_check_index before \<or> tp_time_ns p < tp_time_ns before
     \<or> work_regresses (tp_work before) (tp_work p)"

definition point_should_stop :: "profile_policy \<Rightarrow> u64 \<Rightarrow> trace_point \<Rightarrow> bool" where
  "point_should_stop policy active p \<longleftrightarrow>
     tp_time_ns p \<ge> active
     \<or> (case pp_threshold policy of None \<Rightarrow> False | Some t \<Rightarrow> point_reaches policy p t)"

fun check_points ::
    "selected_buffered_profile \<Rightarrow> buffered_manifest \<Rightarrow> trace_point option \<Rightarrow> u64 option \<Rightarrow> trace_point list
     \<Rightarrow> (unit, buffer_rejection) result" where
  "check_points profile m before expected [] = Inr ()"
| "check_points profile m before expected (p # ps) =
     (if point_invalid m expected p then Inl InvalidTracePoint
      else if (case before of None \<Rightarrow> False | Some b \<Rightarrow> point_regresses b p) then Inl TraceNotMonotone
      else if (case pp_metric (sb_policy profile) of None \<Rightarrow> False
          | Some name \<Rightarrow> finite_metric (tp_metrics p) name = None)
      then Inl TraceTargetNotNumeric
      else res_bind (if tp_terminal p then Inr ()
          else res_bind (map_err RejectedActiveTime (active_time_ns (sb_policy profile))) (\<lambda>active.
            ensure (\<not> point_should_stop (sb_policy profile) active p) ContinuedAfterStop)) (\<lambda>_.
        check_points profile m (Some p) (next_after (sb_check_schedule profile) (Some (tp_check_index p))) ps))"

section \<open>Snapshots and thresholds\<close>

fun check_claims ::
    "profile_policy \<Rightarrow> trace_point list \<Rightarrow> nat \<Rightarrow> f64 list \<Rightarrow> f64 list \<Rightarrow> (f64 list, buffer_rejection) result" where
  "check_claims policy points i [] claimed = Inr claimed"
| "check_claims policy points i (t # ts) claimed =
     (if \<not> list_ex (f64_eq t) (thresholds policy) \<or> list_ex (f64_eq t) claimed
         \<or> \<not> point_reaches policy (points ! i) t
         \<or> list_ex (\<lambda>p. point_reaches policy p t) (take i points)
      then Inl InvalidThresholdClaim
      else check_claims policy points i ts (claimed @ [t]))"

fun check_snapshots ::
    "profile_policy \<Rightarrow> trace_point list \<Rightarrow> string list \<Rightarrow> nat \<Rightarrow> nat list \<Rightarrow> buffered_snapshot option
     \<Rightarrow> f64 list \<Rightarrow> buffered_snapshot list \<Rightarrow> (f64 list, buffer_rejection) result" where
  "check_snapshots policy points declared i seen before claimed [] = Inr claimed"
| "check_snapshots policy points declared i seen before claimed (s # ss) =
     (if bs_ordinal s \<noteq> i \<or> bs_trace_index s \<ge> length points \<or> bs_trace_index s \<in> set seen
         \<or> \<not> is_declared declared (bs_manifest s)
         \<or> (case before of None \<Rightarrow> False | Some b \<Rightarrow> bs_trace_index s \<le> bs_trace_index b)
      then Inl InvalidSnapshot
      else res_bind (check_claims policy points (bs_trace_index s) (bs_thresholds s) claimed) (\<lambda>claimed.
        check_snapshots policy points declared (i + 1) (bs_trace_index s # seen) (Some s) claimed ss))"

definition stop_substantiated ::
    "profile_policy \<Rightarrow> trace_point list \<Rightarrow> buffered_manifest \<Rightarrow> (unit, buffer_rejection) result" where
  "stop_substantiated policy points m =
     (case bm_stop_reason m of
        TargetReached \<Rightarrow>
          ensure (case pp_threshold policy of None \<Rightarrow> False | Some t \<Rightarrow> point_reaches policy (last points) t)
            (UnsubstantiatedStop TargetReached)
      | FixedCount \<Rightarrow>
          ensure (pp_metric policy = None \<and> length (bm_snapshots m) = pp_max_observations policy)
            (UnsubstantiatedStop FixedCount)
      | TraceLimit \<Rightarrow> ensure (length points = pp_max_trace_points policy) (UnsubstantiatedStop TraceLimit)
      | ObservationLimit \<Rightarrow>
          ensure (length (bm_snapshots m) = pp_max_observations policy) (UnsubstantiatedStop ObservationLimit)
      | ActiveTimeLimitStop \<Rightarrow>
          res_bind (map_err RejectedActiveTime (active_time_ns policy)) (\<lambda>active.
          ensure (tp_time_ns (last points) \<ge> active) (UnsubstantiatedStop ActiveTimeLimitStop))
      | _ \<Rightarrow> Inr ())"

section \<open>The terminal reserve\<close>

text \<open>\<open>s.manifest.parent().expect("snapshot parent")\<close>\<close>

definition parent_components :: "string \<Rightarrow> (string list, buffer_rejection) result" where
  "parent_components path =
     (if path_components path = [] \<or> path_components path = [''/''] then Inl (ValidationPanic ''snapshot parent'')
      else Inr (butlast (path_components path)))"

text \<open>The manifest a worker would have had to write had it stopped after the point \<open>index\<close>.\<close>

definition prefix_manifest :: "buffered_manifest \<Rightarrow> nat \<Rightarrow> nat \<Rightarrow> (buffered_manifest, buffer_rejection) result" where
  "prefix_manifest m index trace_bytes =
     (let snapshots = filter (\<lambda>s. bs_trace_index s \<le> index) (bm_snapshots m)
      in res_bind (collect_results (\<lambda>s. parent_components (bs_manifest s)) snapshots) (\<lambda>parents.
         Inr (m\<lparr>bm_snapshots := snapshots,
           bm_files := map (\<lambda>f. if path_eq (bf_path f) (bm_trace m) then f\<lparr>bf_size := trace_bytes\<rparr> else f)
             (filter (\<lambda>f. path_eq (bf_path f) (bm_trace m) \<or> list_ex (starts_with (bf_path f)) parents) (bm_files m)),
           bm_total_ns := MAX_SAFE_INTEGER, bm_stop_reason := ImplementationStopped\<rparr>)))"

fun check_reserve ::
    "externals \<Rightarrow> profile_policy \<Rightarrow> buffered_manifest \<Rightarrow> nat \<Rightarrow> nat \<Rightarrow> string list \<Rightarrow> (unit, buffer_rejection) result" where
  "check_reserve X policy m index trace_bytes [] = Inr ()"
| "check_reserve X policy m index trace_bytes (line # lines) =
     (let trace_bytes = trace_bytes + length line + 1
      in res_bind (prefix_manifest m index trace_bytes) (\<lambda>p.
         res_bind (map_err RejectedText (json_bytes X (buffered_manifest_json p))) (\<lambda>text.
         if sum_list (map bf_size (bm_files p)) + length text > pp_max_buffer_bytes policy - pp_terminal_reserve_bytes policy
         then Inl ReserveConsumed
         else check_reserve X policy m (index + 1) trace_bytes lines)))"

section \<open>The whole check\<close>

definition check_inventory ::
    "selected_buffered_profile \<Rightarrow> (string \<times> fs_entry) list \<Rightarrow> ((string \<times> nat) list, buffer_rejection) result" where
  "check_inventory profile tree =
     res_bind (map_err RejectedPolicy (validate_policy (sb_policy profile))) (\<lambda>_.
     res_bind (map_err RejectedPolicy (validate_buffered (sb_policy profile))) (\<lambda>_.
     res_bind (inventory_files [] tree []) (\<lambda>actual.
     res_bind (ok_or (checked_total 0 (map snd actual)) SizeOverflow) (\<lambda>size_bytes.
     if size_bytes > pp_max_buffer_bytes (sb_policy profile) then Inl BufferTooLarge else Inr actual))))"

definition read_manifest ::
    "externals \<Rightarrow> (string \<times> fs_entry) list \<Rightarrow> string \<Rightarrow> selected_buffered_profile
     \<Rightarrow> (buffered_manifest, buffer_rejection) result" where
  "read_manifest X tree path profile =
     res_bind (ensure (safe_path path) UnsafeBufferPath) (\<lambda>_.
     res_bind (read_buffer_file tree path) (\<lambda>data.
     res_bind (map_err (\<lambda>_. NotCanonicalText) (canonical_from_slice (parse_json X) data)) (\<lambda>v.
     res_bind (map_err (\<lambda>_. UnexpectedShape) (buffered_manifest_from v)) (\<lambda>m.
     if header_invalid profile m then Inl InvalidHeader else Inr m))))"

definition read_trace ::
    "externals \<Rightarrow> (string \<times> fs_entry) list \<Rightarrow> (string \<times> nat) list \<Rightarrow> selected_buffered_profile
     \<Rightarrow> buffered_manifest \<Rightarrow> (string list \<times> string list \<times> trace_point list, buffer_rejection) result" where
  "read_trace X tree actual profile m =
     res_bind (declare_files X tree actual (bm_files m) []) (\<lambda>declared.
     if set declared \<noteq> set (map fst actual) then Inl UndeclaredFiles
     else if \<not> is_declared declared (bm_trace m) then Inl TraceNotDeclared
     else res_bind (read_buffer_file tree (bm_trace m)) (\<lambda>trace.
       if trace = [] \<or> last trace \<noteq> CHR 0x0A then Inl IncompleteTrace
       else res_bind (parse_points X (pp_max_trace_points (sb_policy profile)) (trace_lines trace) []) (\<lambda>points.
         Inr (declared, trace_lines trace, points))))"

definition check_trace ::
    "selected_buffered_profile \<Rightarrow> buffered_manifest \<Rightarrow> trace_point list \<Rightarrow> (unit, buffer_rejection) result" where
  "check_trace profile m points =
     (if points = [] \<or> \<not> tp_terminal (last points) \<or> list_ex tp_terminal (butlast points) then Inl TerminalCheckMisplaced
      else check_points profile m None (next_after (sb_check_schedule profile) None) points)"

definition check_captures ::
    "selected_buffered_profile \<Rightarrow> buffered_manifest \<Rightarrow> string list \<Rightarrow> trace_point list
     \<Rightarrow> (unit, buffer_rejection) result" where
  "check_captures profile m declared points =
     (let policy = sb_policy profile
      in if bm_snapshots m = [] \<or> length (bm_snapshots m) > pp_max_observations policy then Inl SnapshotCount
         else if pp_metric policy = None \<and> length (bm_snapshots m) \<noteq> length points then Inl UnsavedIterate
         else res_bind (check_snapshots policy points declared 0 [] None [] (bm_snapshots m)) (\<lambda>claimed.
           if bs_trace_index (last (bm_snapshots m)) \<noteq> length points - 1 then Inl TerminalSnapshotMissing
           else if list_ex (\<lambda>t. list_ex (\<lambda>p. point_reaches policy p t) points \<and> \<not> list_ex (f64_eq t) claimed)
               (thresholds policy)
           then Inl CrossingNotSaved
           else stop_substantiated policy points m))"

definition validate_buffer ::
    "externals \<Rightarrow> string option \<Rightarrow> string option \<Rightarrow> (string \<times> fs_entry) list \<Rightarrow> string \<Rightarrow> selected_buffered_profile
     \<Rightarrow> (buffered_manifest \<times> trace_point list, buffer_rejection) result" where
  "validate_buffer X hash_before hash_after tree path profile =
     res_bind (check_inventory profile tree) (\<lambda>actual.
     res_bind (ok_or hash_before TreeNotHashed) (\<lambda>inventory.
     res_bind (read_manifest X tree path profile) (\<lambda>m.
     res_bind (read_trace X tree (filter (\<lambda>(p, _). p \<noteq> path) actual) profile m) (\<lambda>(declared, lines, points).
     res_bind (check_trace profile m points) (\<lambda>_.
     res_bind (check_captures profile m declared points) (\<lambda>_.
     res_bind (check_reserve X (sb_policy profile) m 0 0 (take (length points - 1) lines)) (\<lambda>_.
     res_bind (ok_or hash_after TreeNotHashed) (\<lambda>again.
     if again \<noteq> inventory then Inl BufferChanged else Inr (m, points)))))))))"

text \<open>\<open>adopt_buffer\<close>: native code wrote the same contract below the collector's directory.\<close>

definition adopt_buffer ::
    "externals \<Rightarrow> string option \<Rightarrow> string option \<Rightarrow> (string \<times> fs_entry) list \<Rightarrow> string \<Rightarrow> buffered_trace
     \<Rightarrow> (unit, buffer_error + buffer_rejection) result \<times> buffered_trace" where
  "adopt_buffer X hash_before hash_after tree path tr =
     (if bt_points tr \<noteq> [] \<or> bt_finished tr then (Inl (Inl (BufferInvalid CombinedNativeBuffer)), tr)
      else case validate_buffer X hash_before hash_after tree path (bt_profile tr) of
        Inl e \<Rightarrow> (Inl (Inr e), tr)
      | Inr _ \<Rightarrow> (Inr (), tr\<lparr>bt_adopted := Some path, bt_finished := True\<rparr>))"

end
