(* ===== verification/Buffer_Text.thy ===== *)
theory Buffer_Text
  imports Buffer_Validation
begin

text \<open>
  The text of the buffer records: what is written is read back, up to the canonical form of its numbers,
  and how long it is.  The serializer and the parser are outside the repository; \<open>rfc8785\<close> states what
  their standard documents.
\<close>

section \<open>The serializer and the parser\<close>

definition text_len :: "externals \<Rightarrow> json \<Rightarrow> nat" where
  "text_len X v = (case canonicalizer X v of None \<Rightarrow> 0 | Some s \<Rightarrow> length s)"

lemma normalized_domain: "normalize_value v = Inr w \<Longrightarrow> json_wf v \<Longrightarrow> canonical_domain w \<and> json_wf w"
  using normalize_value_sound normalize_value_wf by blast

text \<open>
  Canonical values have a text without a line break, from which they are parsed again, and the text of
  arrays, objects, natural numbers and hexadecimal strings is laid out without any other character.
\<close>

definition rfc8785 :: "externals \<Rightarrow> bool" where
  "rfc8785 X \<longleftrightarrow>
     (\<forall>v. canonical_domain v \<longrightarrow> json_wf v \<longrightarrow>
        (\<exists>s. canonicalizer X v = Some s \<and> s \<noteq> [] \<and> CHR 0x0A \<notin> set s
          \<and> canonical_from_slice (parse_json X) s = Inr v))
     \<and> (\<forall>vs. canonical_domain (JArray vs) \<longrightarrow> json_wf (JArray vs) \<longrightarrow>
        text_len X (JArray vs) = (if vs = [] then 2 else 1 + sum_list (map (\<lambda>v. text_len X v + 1) vs)))
     \<and> (\<forall>m. canonical_domain (JObject m) \<longrightarrow> json_wf (JObject m) \<longrightarrow>
        text_len X (JObject m)
          = (if m = [] then 2 else 1 + sum_list (map (\<lambda>(k, v). text_len X (JString k) + text_len X v + 2) m)))
     \<and> (\<forall>n \<le> MAX_SAFE_INTEGER. text_len X (JNumber (PosInt n)) = length (dec_string n))
     \<and> (\<forall>s. list_all is_lower_hex s \<longrightarrow> text_len X (JString s) = length s + 2)"

lemma rfc8785_text:
  assumes "rfc8785 X" "canonical_domain v" "json_wf v"
  obtains s where "canonicalizer X v = Some s" "s \<noteq> []" "CHR 0x0A \<notin> set s"
    "canonical_from_slice (parse_json X) s = Inr v" "length s = text_len X v"
proof -
  from assms obtain s where "canonicalizer X v = Some s" "s \<noteq> []" "CHR 0x0A \<notin> set s"
    "canonical_from_slice (parse_json X) s = Inr v" unfolding rfc8785_def by blast
  with that show thesis by (simp add: text_len_def)
qed

lemma json_bytes_Ok:
  assumes "rfc8785 X" "json_wf v" "json_bytes X v = Inr s"
  obtains w where "normalize_value v = Inr w" "json_wf w" "canonical_domain w" "s \<noteq> []" "CHR 0x0A \<notin> set s"
    "canonical_from_slice (parse_json X) s = Inr w" "length s = text_len X w"
proof -
  from assms(3) obtain w where w: "normalize_value v = Inr w" "canonicalizer X w = Some s"
    by (auto simp: json_bytes_def)
  from normalized_domain [OF w(1) assms(2)] have "canonical_domain w" "json_wf w" by blast+
  from rfc8785_text [OF assms(1) this] w(2) obtain "s \<noteq> []" "CHR 0x0A \<notin> set s"
    "canonical_from_slice (parse_json X) s = Inr w" "length s = text_len X w" by auto
  with w \<open>json_wf w\<close> \<open>canonical_domain w\<close> that show thesis by blast
qed

lemma json_bytes_total:
  assumes "rfc8785 X" "json_wf v" "normalize_value v = Inr w"
  obtains s where "json_bytes X v = Inr s" "length s = text_len X w"
proof -
  from normalized_domain [OF assms(3,2)] have "canonical_domain w" "json_wf w" by blast+
  from rfc8785_text [OF assms(1) this] obtain s where "canonicalizer X w = Some s" "length s = text_len X w" by auto
  with assms(3) that show thesis by (simp add: json_bytes_def)
qed

section \<open>Normalized members\<close>

abbreviation norm_entries :: "json_map \<Rightarrow> json_map \<Rightarrow> bool" where
  "norm_entries \<equiv> list_all2 (\<lambda>a b. fst a = fst b \<and> normalize_value (snd a) = Inr (snd b))"

lemma norm_entries_unique: "norm_entries m n \<Longrightarrow> norm_entries m n' \<Longrightarrow> n = n'"
proof (induction m n arbitrary: n' rule: list_all2_induct)
  case (Cons a m b n)
  from Cons.prems obtain b' n'' where n': "n' = b' # n''" "fst a = fst b'" "normalize_value (snd a) = Inr (snd b')"
    "norm_entries m n''" by (auto simp: list_all2_Cons1)
  from Cons.hyps n'(2,3) have "b = b'" by (simp add: prod_eq_iff)
  with Cons.IH n' show ?case by simp
qed simp

lemma norm_entries_mem: "norm_entries m n \<Longrightarrow> kv \<in> set m \<Longrightarrow> \<exists>u. normalize_value (snd kv) = Inr u"
  by (induction m n rule: list_all2_induct) auto

lemma norm_entries_insert:
  "norm_entries m n \<Longrightarrow> normalize_value v = Inr w \<Longrightarrow> norm_entries (ord_insert k v m) (ord_insert k w n)"
proof (induction m n rule: list_all2_induct)
  case (Cons a m b n)
  then show ?case by (cases a; cases b) simp
qed simp

lemma norm_entries_extend:
  "norm_entries kvs kws \<Longrightarrow> norm_entries m n \<Longrightarrow> norm_entries (ord_extend m kvs) (ord_extend n kws)"
proof (induction kvs kws arbitrary: m n rule: list_all2_induct)
  case (Cons a kvs b kws)
  then show ?case
    using norm_entries_insert [OF Cons.prems, of "snd a" "snd b" "fst a"]
    by (simp add: ord_extend_def case_prod_beta)
qed (simp add: ord_extend_def)

lemma mset_ord_insert: "k \<notin> fst ` set m \<Longrightarrow> mset (ord_insert k v m) = add_mset (k, v) (mset m)"
  by (induction k v m rule: ord_insert.induct) auto

lemma mset_ord_extend:
  "distinct (map fst kvs) \<Longrightarrow> fst ` set kvs \<inter> fst ` set m = {} \<Longrightarrow> mset (ord_extend m kvs) = mset m + mset kvs"
proof (induction kvs arbitrary: m)
  case (Cons kv kvs)
  obtain k v where kv: "kv = (k, v)" by (cases kv)
  with Cons.prems have "k \<notin> fst ` set m" "k \<notin> fst ` set kvs" by auto
  with Cons.IH [of "ord_insert k v m"] Cons.prems kv show ?case
    by (auto simp: ord_extend_def mset_ord_insert)
qed (simp add: ord_extend_def)

lemma normalize_ser_object:
  assumes "distinct (map fst members)"
  shows "normalize_value (ser_object members) = Inr w
    \<longleftrightarrow> (\<exists>members'. norm_entries members members' \<and> w = ser_object members')"
proof
  assume "normalize_value (ser_object members) = Inr w"
  then obtain n where n: "norm_entries (ord_extend [] members) n" "w = JObject n"
    by (auto simp: ser_object_def collect_entries_Ok_iff)
  have "mset (ord_extend [] members) = mset members" using mset_ord_extend [OF assms, of "[]"] by simp
  then have set_eq: "set (ord_extend [] members) = set members" by (rule mset_eq_setD)
  have "\<forall>kv \<in> set members. \<exists>u. normalize_value (snd kv) = Inr u"
    by (intro ballI norm_entries_mem [OF n(1)]) (simp add: set_eq)
  from bchoice [OF this] obtain f where f: "\<forall>kv \<in> set members. normalize_value (snd kv) = Inr (f kv)" ..
  define members' where "members' = map (\<lambda>kv. (fst kv, f kv)) members"
  from f have rel: "norm_entries members members'"
    unfolding members'_def by (simp add: list.rel_map list.rel_refl_strong)
  from norm_entries_extend [OF rel, of "[]" "[]"] have "norm_entries (ord_extend [] members) (ord_extend [] members')" by simp
  with n(1) have "n = ord_extend [] members'" by (rule norm_entries_unique)
  with rel n(2) show "\<exists>members'. norm_entries members members' \<and> w = ser_object members'"
    by (auto simp: ser_object_def)
next
  assume "\<exists>members'. norm_entries members members' \<and> w = ser_object members'"
  then show "normalize_value (ser_object members) = Inr w"
    using norm_entries_extend [of members _ "[]" "[]"] by (auto simp: ser_object_def collect_entries_Ok_iff)
qed

lemma norm_entries_keys: "norm_entries m n \<Longrightarrow> map fst n = map fst m"
  by (induction m n rule: list_all2_induct) auto

lemma sum_list_mset: "sum_list (map f xs) = (\<Sum>x\<in>#mset xs. f x)" for f :: "'a \<Rightarrow> nat"
  by (induction xs) auto

lemma text_len_object:
  assumes "rfc8785 X" "distinct (map fst members)" "members \<noteq> []"
    and "list_all (\<lambda>kv. canonical_domain (snd kv) \<and> json_wf (snd kv)) members"
  shows "text_len X (ser_object members)
    = 1 + sum_list (map (\<lambda>(k, v). text_len X (JString k) + text_len X v + 2) members)"
proof -
  let ?m = "ord_extend [] members"
  let ?f = "\<lambda>(k, v). text_len X (JString k) + text_len X v + 2"
  have ms: "mset ?m = mset members" using mset_ord_extend [OF assms(2), of "[]"] by simp
  then have "set ?m = set members" "?m \<noteq> []" using assms(3) by (auto dest: mset_eq_setD)
  with assms(4) have "canonical_domain (JObject ?m)" "json_wf (JObject ?m)"
    by (auto simp: list_all_iff keys_sorted_ord_extend)
  with assms(1) \<open>?m \<noteq> []\<close> have "text_len X (JObject ?m) = 1 + sum_list (map ?f ?m)"
    by (simp add: rfc8785_def)
  moreover have "sum_list (map ?f ?m) = sum_list (map ?f members)"
    using sum_list_mset [of ?f ?m] sum_list_mset [of ?f members] ms by simp
  ultimately show ?thesis by (simp add: ser_object_def)
qed

lemma norm_ser_u64: "normalize_value (ser_u64 n) = Inr v \<longleftrightarrow> n \<le> MAX_SAFE_INTEGER \<and> v = ser_u64 n"
proof -
  have "normalize_number (PosInt n) = (if n \<le> MAX_SAFE_INTEGER then Inr (PosInt n) else Inl (IntegerOutOfRange (PosInt n)))"
    by (simp add: normalize_number_def number_as_i64_def number_as_u64_def safe_int_def)
  then show ?thesis by (auto simp: ser_u64_def)
qed

lemma norm_JString: "normalize_value (JString s) = Inr v \<longleftrightarrow> v = JString s"
  by auto

lemma norm_JBool: "normalize_value (JBool b) = Inr v \<longleftrightarrow> v = JBool b"
  by auto

lemma norm_work: "normalize_value (work_json work) = Inr v
    \<longleftrightarrow> list_all (\<lambda>(_, n). n \<le> MAX_SAFE_INTEGER) work \<and> v = work_json work"
proof -
  have "norm_entries (map (\<lambda>(k, n). (k, ser_u64 n)) work) es
      \<longleftrightarrow> list_all (\<lambda>(_, n). n \<le> MAX_SAFE_INTEGER) work \<and> es = map (\<lambda>(k, n). (k, ser_u64 n)) work" for es
  proof (induction work arbitrary: es)
    case (Cons kn work)
    then show ?case by (cases kn; cases es) (auto simp: norm_ser_u64)
  qed auto
  then show ?thesis by (auto simp: work_json_def collect_entries_Ok_iff)
qed

lemma de_work: "de_map Serde_Derive.de_u64 (work_json work) = Inr work"
  unfolding work_json_def by (induction work) auto

section \<open>Numbers\<close>

lemma f64_of_u64_safe: "n \<le> MAX_SAFE_INTEGER \<Longrightarrow> f64_of_u64 n = F64 (of_nat n)"
proof -
  assume "n \<le> MAX_SAFE_INTEGER"
  then have "n < 2 ^ (53 + 0)" by (simp add: MAX_SAFE_INTEGER_def)
  moreover have "[0..<12] = 0 # [1..<12]" by (simp add: upt_conv_Cons)
  ultimately show ?thesis by (simp add: f64_of_u64_def round_at_def)
qed

lemma f64_of_i64_safe: "safe_int i \<Longrightarrow> f64_of_i64 i = F64 (of_int i)"
  using f64_of_u64_safe [of "nat (- i)"] f64_of_u64_safe [of "nat i"]
  by (auto simp: safe_int_def f64_of_i64_def)

text \<open>The finite number a value denotes; normalization keeps it.\<close>

lemma value_as_f64_acceptable:
  "acceptable_number n \<Longrightarrow> \<exists>x. value_as_f64 (JNumber n) = Some x \<and> f64_is_finite x \<and> f64_rat x = number_rat n"
  by (cases n) (auto simp: acceptable_number_def number_rat_def safe_int_abs f64_of_u64_safe f64_of_i64_safe)

lemma canonical_acceptable: "canonical_number n \<Longrightarrow> acceptable_number n"
  using normalize_number_Ok normalize_number_fixed by blast

definition same_number :: "f64 option \<Rightarrow> f64 option \<Rightarrow> bool" where
  "same_number a b \<longleftrightarrow> rel_option (\<lambda>x y. f64_is_finite x \<and> f64_is_finite y \<and> f64_rat x = f64_rat y) a b"

lemma value_as_f64_norm:
  assumes "normalize_value v = Inr w"
  shows "same_number (value_as_f64 v) (value_as_f64 w)"
proof (cases v)
  case (JNumber n)
  with assms obtain n' where w: "w = JNumber n'" and n': "normalize_number n = Inr n'" by auto
  from normalize_number_Ok [OF n'] value_as_f64_acceptable [of n] value_as_f64_acceptable [of n'] canonical_acceptable [of n']
  show ?thesis unfolding JNumber w same_number_def by auto
qed (use assms in \<open>auto simp: same_number_def\<close>)

lemma value_get_norm:
  assumes "normalize_value v = Inr w"
  shows "rel_option (\<lambda>a b. normalize_value a = Inr b) (value_get v k) (value_get w k)"
proof (cases v)
  case (JObject m)
  with assms obtain n where w: "w = JObject n" and n: "norm_entries m n" by (auto simp: collect_entries_Ok_iff)
  from n have "rel_option (\<lambda>a b. normalize_value a = Inr b) (map_of m k) (map_of n k)"
    by (induction m n rule: list_all2_induct) (auto split: prod.splits)
  with JObject w show ?thesis by (simp add: value_get_def)
qed (use assms in \<open>auto simp: value_get_def\<close>)

lemma metric_norm:
  assumes "normalize_value v = Inr w"
  shows "same_number (Option.bind (value_get v k) value_as_f64) (Option.bind (value_get w k) value_as_f64)"
  using value_get_norm [OF assms, of k]
  by (cases "value_get v k"; cases "value_get w k") (auto simp: same_number_def dest: value_as_f64_norm)

lemma finite_metric_eq:
  assumes "normalize_value v = Inr w"
  shows "finite_metric v k = Option.bind (value_get v k) value_as_f64"
    and "finite_metric w k = Option.bind (value_get w k) value_as_f64"
  using metric_norm [OF assms, of k]
  by (auto simp: finite_metric_def same_number_def split: option.splits elim!: option.rel_cases)

lemma reaches_cong:
  assumes "f64_is_finite v" "f64_is_finite v'" "f64_rat v = f64_rat v'"
    and "f64_is_finite t" "f64_is_finite t'" "f64_rat t = f64_rat t'"
  shows "reaches p v t = reaches p v' t'"
  using assms by (auto simp: reaches_def f64_ge_def f64_le_finite split: option.splits direction.splits)

section \<open>Reading back\<close>

definition canon_f64 :: "f64 \<Rightarrow> f64" where
  "canon_f64 x = F64 (f64_rat x)"

lemma canon_f64_simps [simp]: "f64_is_finite (canon_f64 x)" "f64_rat (canon_f64 x) = f64_rat x"
  by (simp_all add: canon_f64_def)

lemma norm_f64:
  assumes "normalize_value (f64_json x) = Inr w" "f64_is_finite x"
  shows "de_f64_value w = Inr (canon_f64 x)" "normalize_value (f64_json (canon_f64 x)) = Inr w"
proof -
  from assms obtain n where w: "w = JNumber n" and n: "normalize_f64 x = Inr n"
    by (auto simp: f64_json_def normalize_number_def number_as_i64_def number_as_u64_def)
  have "normalize_f64 (canon_f64 x) = normalize_f64 x"
    using assms(2) by (cases x) (auto simp: normalize_f64_def canon_f64_def f64_is_integral_def f64_as_i64_def)
  with n w show "normalize_value (f64_json (canon_f64 x)) = Inr w"
    by (simp add: f64_json_def normalize_number_def number_as_i64_def number_as_u64_def)
  note ok = normalize_f64_Ok [OF n]
  show "de_f64_value w = Inr (canon_f64 x)"
  proof (cases n)
    case (PosInt k)
    with ok w show ?thesis
      by (simp add: de_f64_value_def canonical_number_def f64_of_u64_safe canon_f64_def number_rat_def)
  next
    case (NegInt i)
    with ok w show ?thesis
      by (simp add: de_f64_value_def canonical_number_def f64_of_i64_safe canon_f64_def number_rat_def)
  next
    case (Float y)
    with n have "y = x" "\<not> f64_is_integral x" by (auto simp: normalize_f64_def number_from_i64_def split: if_splits)
    with assms(2) have "x = F64 (f64_rat x)" by (cases x) (auto simp: f64_is_integral_def)
    with Float w \<open>y = x\<close> show ?thesis by (simp add: de_f64_value_def canon_f64_def)
  qed
qed

lemma norm_array:
  assumes "normalize_value (JArray (map f xs)) = Inr v"
    and "\<And>x w. x \<in> set xs \<Longrightarrow> normalize_value (f x) = Inr w \<Longrightarrow> d w = Inr (g x)"
  shows "de_vec d v = Inr (map g xs)"
proof -
  from assms(1) obtain ws where v: "v = JArray ws" and ws: "list_all2 (\<lambda>x w. normalize_value x = Inr w) (map f xs) ws"
    by (auto simp: collect_results_Ok_iff)
  from ws assms(2) have "collect_results d ws = Inr (map g xs)"
    by (auto simp: collect_results_Ok_iff list_all2_conv_all_nth)
  with v show ?thesis by simp
qed

definition canon_json :: "json \<Rightarrow> json" where
  "canon_json v = (case normalize_value v of Inl _ \<Rightarrow> v | Inr w \<Rightarrow> w)"

definition canon_point :: "trace_point \<Rightarrow> trace_point" where
  "canon_point p = p\<lparr>tp_metrics := canon_json (tp_metrics p)\<rparr>"

definition canon_snapshot :: "buffered_snapshot \<Rightarrow> buffered_snapshot" where
  "canon_snapshot s = s\<lparr>bs_thresholds := map canon_f64 (bs_thresholds s)\<rparr>"

definition canon_manifest :: "buffered_manifest \<Rightarrow> buffered_manifest" where
  "canon_manifest m = m\<lparr>bm_snapshots := map canon_snapshot (bm_snapshots m)\<rparr>"

lemmas norm_simps = norm_ser_u64 norm_JString norm_JBool norm_work

lemma trace_point_read:
  assumes "normalize_value (trace_point_json p) = Inr w"
  shows "trace_point_from w = Inr (canon_point p)"
proof -
  have "distinct [''check_index'', ''work'', ''provisional_metrics'', ''instrumented_time_ns'', ''terminal'']" by simp
  with assms obtain metrics where "normalize_value (tp_metrics p) = Inr metrics"
    and w: "w = ser_object [(''check_index'', ser_u64 (tp_check_index p)), (''work'', work_json (tp_work p)),
      (''provisional_metrics'', metrics), (''instrumented_time_ns'', ser_u64 (tp_time_ns p)),
      (''terminal'', JBool (tp_terminal p))]"
    by (auto simp: trace_point_json_def normalize_ser_object list_all2_Cons1 norm_simps prod_eq_iff)
  then show ?thesis
    by (simp add: trace_point_from_def de_struct_ser canon_point_def canon_json_def de_work)
qed

lemma snapshot_read:
  assumes "normalize_value (snapshot_json s) = Inr w" "list_all f64_is_finite (bs_thresholds s)"
  shows "snapshot_from w = Inr (canon_snapshot s)"
proof -
  from assms(1) obtain ts where ts: "normalize_value (JArray (map f64_json (bs_thresholds s))) = Inr ts"
    and w: "w = ser_object [(''capture_ordinal'', ser_u64 (bs_ordinal s)), (''trace_index'', ser_u64 (bs_trace_index s)),
      (''thresholds'', ts), (''manifest'', JString (bs_manifest s))]"
    by (auto simp: snapshot_json_def normalize_ser_object list_all2_Cons1 norm_simps prod_eq_iff simp del: normalize_value.simps)
  have "de_vec de_f64_value ts = Inr (map canon_f64 (bs_thresholds s))"
    by (rule norm_array [OF ts]) (use assms(2) norm_f64(1) in \<open>auto simp: list_all_iff\<close>)
  with w show ?thesis
    by (simp add: snapshot_from_def de_struct_ser canon_snapshot_def)
qed

lemma buffer_file_read:
  assumes "normalize_value (buffer_file_json f) = Inr w"
  shows "buffer_file_from w = Inr f"
proof -
  from assms have "w = ser_object [(''path'', JString (bf_path f)), (''sha256'', JString (bf_sha256 f)),
      (''size_bytes'', ser_u64 (bf_size f))]"
    by (auto simp: buffer_file_json_def normalize_ser_object list_all2_Cons1 norm_simps prod_eq_iff)
  then show ?thesis by (simp add: buffer_file_from_def de_struct_ser)
qed

lemma stop_reason_read: "map_of stop_reason_table (stop_reason_name r) = Some r"
  by (cases r) (simp_all add: stop_reason_table_def stop_reason_name_def)

lemma manifest_read:
  assumes "normalize_value (buffered_manifest_json m) = Inr w" "bm_schema_version m \<le> U32_MAX"
    and "list_all (\<lambda>s. list_all f64_is_finite (bs_thresholds s)) (bm_snapshots m)"
  shows "buffered_manifest_from w = Inr (canon_manifest m)"
proof -
  from assms(1) obtain ss fs where ss: "normalize_value (JArray (map snapshot_json (bm_snapshots m))) = Inr ss"
    and fs: "normalize_value (JArray (map buffer_file_json (bm_files m))) = Inr fs"
    and w: "w = ser_object
     [(''schema_version'', ser_u64 (bm_schema_version m)), (''complete'', JBool (bm_complete m)),
      (''clock'', JString (bm_clock m)), (''instrumented_scope'', JString (bm_scope m)),
      (''instrumented_total_time_ns'', ser_u64 (bm_total_ns m)),
      (''stop_reason'', JString (stop_reason_name (bm_stop_reason m))), (''trace'', JString (bm_trace m)),
      (''snapshots'', ss), (''files'', fs)]"
    by (auto simp: buffered_manifest_json_def normalize_ser_object list_all2_Cons1 norm_simps prod_eq_iff simp del: normalize_value.simps)
  have "de_vec snapshot_from ss = Inr (map canon_snapshot (bm_snapshots m))"
    by (rule norm_array [OF ss]) (use assms(3) snapshot_read in \<open>auto simp: list_all_iff\<close>)
  moreover have "de_vec buffer_file_from fs = Inr (map id (bm_files m))"
    by (rule norm_array [OF fs]) (simp add: buffer_file_read)
  ultimately show ?thesis using assms(2)
    by (simp add: w buffered_manifest_from_def de_struct_ser canon_manifest_def stop_reason_read de_u32_ser)
qed

end
