(* ===== verification/Buffer_Sizes.thy ===== *)
theory Buffer_Sizes
  imports Buffer_Text
begin

text \<open>
  How the text of a manifest compares with that of another: fewer snapshots, fewer claimed thresholds and
  other hashes of the same width never make it longer.
\<close>

text \<open>Whenever the second value has a canonical text, so does the first, and it is not longer.\<close>

definition no_longer :: "externals \<Rightarrow> json \<Rightarrow> json \<Rightarrow> bool" where
  "no_longer X v v' \<longleftrightarrow> json_wf v \<and> json_wf v'
     \<and> (\<forall>w'. normalize_value v' = Inr w' \<longrightarrow> (\<exists>w. normalize_value v = Inr w \<and> text_len X w \<le> text_len X w'))"

lemma no_longer_refl: "json_wf v \<Longrightarrow> no_longer X v v"
  by (auto simp: no_longer_def)

lemma no_longer_eq: "normalize_value v = normalize_value v' \<Longrightarrow> json_wf v \<Longrightarrow> json_wf v' \<Longrightarrow> no_longer X v v'"
  by (auto simp: no_longer_def)

lemma no_longer_trans: "no_longer X u v \<Longrightarrow> no_longer X v w \<Longrightarrow> no_longer X u w"
  unfolding no_longer_def by (meson order_trans)

lemma no_longer_hex:
  assumes "rfc8785 X" "list_all is_lower_hex s" "list_all is_lower_hex t" "length s = length t"
  shows "no_longer X (JString s) (JString t)"
  using assms by (auto simp: no_longer_def rfc8785_def)

lemma norm_wf_domain:
  assumes "normalize_value v = Inr w" "json_wf v"
  shows "canonical_domain w" "json_wf w"
  using assms normalized_domain by blast+

lemma norm_array_iff:
  "normalize_value (JArray vs) = Inr w \<longleftrightarrow> (\<exists>ws. w = JArray ws \<and> list_all2 (\<lambda>v w. normalize_value v = Inr w) vs ws)"
  by (auto simp: collect_results_Ok_iff)

lemma text_len_array:
  assumes "rfc8785 X" "normalize_value (JArray vs) = Inr (JArray ws)" "json_wf (JArray vs)"
  shows "text_len X (JArray ws) = (if ws = [] then 2 else 1 + sum_list (map (\<lambda>v. text_len X v + 1) ws))"
  using assms norm_wf_domain [OF assms(2,3)] unfolding rfc8785_def by blast

lemma array_wf: "json_wf (JArray vs) = list_all json_wf vs"
  by simp

text \<open>A sublist, element by element no longer.\<close>

lemma list_all2_norm_no_longer:
  assumes "list_all2 (no_longer X) vs vs'" "list_all2 (\<lambda>v w. normalize_value v = Inr w) vs' ws'"
  shows "\<exists>ws. list_all2 (\<lambda>v w. normalize_value v = Inr w) vs ws \<and> length ws = length ws'
    \<and> sum_list (map (\<lambda>v. text_len X v + 1) ws) \<le> sum_list (map (\<lambda>v. text_len X v + 1) ws')"
  using assms
proof (induction vs vs' arbitrary: ws' rule: list_all2_induct)
  case (Cons v vs v' vs')
  then obtain w' ws'' where ws': "ws' = w' # ws''" "normalize_value v' = Inr w'"
    "list_all2 (\<lambda>v w. normalize_value v = Inr w) vs' ws''" by (auto simp: list_all2_Cons1)
  from Cons.IH [OF ws'(3)] obtain ws where ws: "list_all2 (\<lambda>v w. normalize_value v = Inr w) vs ws"
    "length ws = length ws''" "sum_list (map (\<lambda>v. text_len X v + 1) ws) \<le> sum_list (map (\<lambda>v. text_len X v + 1) ws'')"
    by blast
  from Cons.hyps(1) ws'(2) obtain w where "normalize_value v = Inr w" "text_len X w \<le> text_len X w'"
    unfolding no_longer_def by blast
  with ws ws'(1) show ?case by (intro exI [of _ "w # ws"]) auto
qed auto

lemma no_longer_array:
  assumes "rfc8785 X" "list_all2 (no_longer X) vs vs'"
  shows "no_longer X (JArray vs) (JArray vs')"
  unfolding no_longer_def
proof (intro conjI allI impI)
  show wf: "json_wf (JArray vs)" "json_wf (JArray vs')"
    using assms(2) by (auto simp: no_longer_def list_all_length list_all2_conv_all_nth)
  fix w' assume norm: "normalize_value (JArray vs') = Inr w'"
  then obtain ws' where w': "w' = JArray ws'" "list_all2 (\<lambda>v w. normalize_value v = Inr w) vs' ws'"
    by (auto simp: norm_array_iff simp del: normalize_value.simps)
  from list_all2_norm_no_longer [OF assms(2) w'(2)] obtain ws where ws:
    "list_all2 (\<lambda>v w. normalize_value v = Inr w) vs ws" "length ws = length ws'"
    "sum_list (map (\<lambda>v. text_len X v + 1) ws) \<le> sum_list (map (\<lambda>v. text_len X v + 1) ws')" by blast
  then have n: "normalize_value (JArray vs) = Inr (JArray ws)" by (simp add: collect_results_Ok_iff)
  have "text_len X (JArray ws) \<le> text_len X (JArray ws')"
    using text_len_array [OF assms(1) n wf(1)] text_len_array [OF assms(1) _ wf(2), of ws'] norm w'(1) ws(2,3) by auto
  with n w'(1) show "\<exists>w. normalize_value (JArray vs) = Inr w \<and> text_len X w \<le> text_len X w'" by blast
qed

lemma no_longer_filter:
  assumes "rfc8785 X" "\<And>x. json_wf (f x)"
  shows "no_longer X (JArray (map f (filter P xs))) (JArray (map f xs))"
  unfolding no_longer_def
proof (intro conjI allI impI)
  show wf: "json_wf (JArray (map f (filter P xs)))" "json_wf (JArray (map f xs))" using assms(2) by (auto simp: list_all_iff)
  fix w' assume norm: "normalize_value (JArray (map f xs)) = Inr w'"
  then obtain ws' where w': "w' = JArray ws'" "list_all2 (\<lambda>x w. normalize_value (f x) = Inr w) xs ws'"
    by (auto simp: norm_array_iff list.rel_map simp del: normalize_value.simps)
  from w'(2) have "\<exists>ws. list_all2 (\<lambda>x w. normalize_value (f x) = Inr w) (filter P xs) ws
    \<and> sum_list (map (\<lambda>v. text_len X v + 1) ws) \<le> sum_list (map (\<lambda>v. text_len X v + 1) ws') \<and> (ws' = [] \<longrightarrow> ws = [])"
  proof (induction xs ws' rule: list_all2_induct)
    case (Cons x xs w ws')
    then obtain ws where "list_all2 (\<lambda>x w. normalize_value (f x) = Inr w) (filter P xs) ws"
      "sum_list (map (\<lambda>v. text_len X v + 1) ws) \<le> sum_list (map (\<lambda>v. text_len X v + 1) ws')" by blast
    with Cons.hyps(1) show ?case
      by (intro exI [of _ "if P x then w # ws else ws"]) auto
  qed simp
  then obtain ws where ws: "list_all2 (\<lambda>x w. normalize_value (f x) = Inr w) (filter P xs) ws"
    "sum_list (map (\<lambda>v. text_len X v + 1) ws) \<le> sum_list (map (\<lambda>v. text_len X v + 1) ws')" "ws' = [] \<longrightarrow> ws = []" by blast
  then have n: "normalize_value (JArray (map f (filter P xs))) = Inr (JArray ws)"
    by (simp add: collect_results_Ok_iff list.rel_map)
  have "2 \<le> 1 + sum_list (map (\<lambda>v. text_len X v + 1) ws')" if "ws' \<noteq> []"
    using that by (cases ws') auto
  then have "text_len X (JArray ws) \<le> text_len X (JArray ws')"
    using text_len_array [OF assms(1) n wf(1)] text_len_array [OF assms(1) _ wf(2), of ws'] norm w'(1) ws(2,3) by auto
  with n w'(1) show "\<exists>w. normalize_value (JArray (map f (filter P xs))) = Inr w \<and> text_len X w \<le> text_len X w'" by blast
qed

text \<open>Objects with the same keys.\<close>

lemma no_longer_object:
  assumes "rfc8785 X" "list_all2 (\<lambda>a b. fst a = fst b \<and> no_longer X (snd a) (snd b)) ms ms'"
    and "distinct (map fst ms')" "ms' \<noteq> []"
  shows "no_longer X (ser_object ms) (ser_object ms')"
  unfolding no_longer_def
proof (intro conjI allI impI)
  have keys: "map fst ms = map fst ms'" using assms(2) by (induction rule: list_all2_induct) auto
  have wfs: "list_all (\<lambda>kv. json_wf (snd kv)) ms" "list_all (\<lambda>kv. json_wf (snd kv)) ms'"
    using assms(2) by (auto simp: no_longer_def list_all_length list_all2_conv_all_nth)
  then show "json_wf (ser_object ms)" "json_wf (ser_object ms')" by (auto intro: ser_object_wf)
  let ?f = "\<lambda>(k, v). text_len X (JString k) + text_len X v + 2"
  fix w' assume "normalize_value (ser_object ms') = Inr w'"
  then obtain ns' where ns': "norm_entries ms' ns'" "w' = ser_object ns'"
    using normalize_ser_object [OF assms(3)] by auto
  from assms(2) ns'(1) have "\<exists>ns. norm_entries ms ns \<and> sum_list (map ?f ns) \<le> sum_list (map ?f ns')"
  proof (induction ms ms' arbitrary: ns' rule: list_all2_induct)
    case (Cons a ms b ms')
    from Cons.prems obtain c ns'' where c: "ns' = c # ns''" "fst b = fst c" "normalize_value (snd b) = Inr (snd c)"
      "norm_entries ms' ns''" by (auto simp: list_all2_Cons1)
    from Cons.IH [OF c(4)] obtain ns where ns: "norm_entries ms ns" "sum_list (map ?f ns) \<le> sum_list (map ?f ns'')" by blast
    from Cons.hyps(1) c(3) obtain w where "normalize_value (snd a) = Inr w" "text_len X w \<le> text_len X (snd c)"
      unfolding no_longer_def by blast
    with ns c(1,2) Cons.hyps(1) show ?case
      by (cases c) (auto intro!: exI [of _ "(fst a, w) # ns"])
  qed auto
  then obtain ns where ns: "norm_entries ms ns" "sum_list (map ?f ns) \<le> sum_list (map ?f ns')" by blast
  have domain: "list_all (\<lambda>kv. canonical_domain (snd kv) \<and> json_wf (snd kv)) es'"
    if "norm_entries es es'" "list_all (\<lambda>kv. json_wf (snd kv)) es" for es es'
    using that by (induction es es' rule: list_all2_induct) (auto dest: norm_wf_domain)
  have len: "text_len X (ser_object ns) \<le> text_len X (ser_object ns')"
  proof -
    have "distinct (map fst ns)" "distinct (map fst ns')" "ns \<noteq> []" "ns' \<noteq> []"
      using norm_entries_keys [OF ns(1)] norm_entries_keys [OF ns'(1)] keys assms(3,4)
      by (auto dest!: arg_cong [where f = length])
    with text_len_object [OF assms(1)] domain [OF ns(1) wfs(1)] domain [OF ns'(1) wfs(2)] ns(2) show ?thesis by simp
  qed
  have "normalize_value (ser_object ms) = Inr (ser_object ns)"
    using ns(1) normalize_ser_object [of ms] keys assms(3) by auto
  with len ns'(2) show "\<exists>w. normalize_value (ser_object ms) = Inr w \<and> text_len X w \<le> text_len X w'" by blast
qed

lemma no_longer_bytes:
  assumes "rfc8785 X" "no_longer X v v'" "json_bytes X v' = Inr s'"
  obtains s where "json_bytes X v = Inr s" "length s \<le> length s'"
proof -
  from json_bytes_Ok [OF assms(1) _ assms(3)] assms(2) obtain w' where "normalize_value v' = Inr w'"
    "length s' = text_len X w'" by (auto simp: no_longer_def)
  moreover from this assms(2) obtain w where "normalize_value v = Inr w" "text_len X w \<le> text_len X w'"
    unfolding no_longer_def by blast
  ultimately show thesis
    using json_bytes_total [OF assms(1)] assms(2) that unfolding no_longer_def by (metis (no_types, lifting))
qed

section \<open>Manifests\<close>

definition snap_fits :: "externals \<Rightarrow> buffered_snapshot \<Rightarrow> buffered_snapshot \<Rightarrow> bool" where
  "snap_fits X s s' \<longleftrightarrow> bs_ordinal s = bs_ordinal s' \<and> bs_trace_index s = bs_trace_index s' \<and> bs_manifest s = bs_manifest s'
     \<and> no_longer X (JArray (map f64_json (bs_thresholds s))) (JArray (map f64_json (bs_thresholds s')))"

definition file_fits :: "buffer_file \<Rightarrow> buffer_file \<Rightarrow> bool" where
  "file_fits f f' \<longleftrightarrow> bf_path f = bf_path f' \<and> bf_size f = bf_size f'
     \<and> list_all is_lower_hex (bf_sha256 f) \<and> list_all is_lower_hex (bf_sha256 f') \<and> length (bf_sha256 f) = length (bf_sha256 f')"

lemma f64_json_wf [simp]: "json_wf (f64_json x)"
  by (simp add: f64_json_def)

lemma ser_u64_wf [simp]: "json_wf (ser_u64 n)"
  by (simp add: ser_u64_def)

lemma snap_fits_refl: "snap_fits X s s"
  by (simp add: snap_fits_def no_longer_refl list_all_iff)

lemma snap_fits_filter: "rfc8785 X \<Longrightarrow> snap_fits X (s\<lparr>bs_thresholds := filter Q (bs_thresholds s)\<rparr>) s"
  by (simp add: snap_fits_def no_longer_filter)

lemma snap_fits_canon:
  assumes "list_all f64_is_finite (bs_thresholds s)"
  shows "snap_fits X (canon_snapshot s) s"
proof -
  have "normalize_value (f64_json (canon_f64 x)) = normalize_value (f64_json x)" if "f64_is_finite x" for x
    using that by (cases x)
      (auto simp: f64_json_def canon_f64_def normalize_number_def number_as_i64_def number_as_u64_def normalize_f64_def
        f64_is_integral_def f64_as_i64_def)
  then have "list_all f64_is_finite ts \<Longrightarrow> collect_results normalize_value (map f64_json (map canon_f64 ts))
      = collect_results normalize_value (map f64_json ts)" for ts
    by (induction ts) (auto simp del: normalize_value.simps)
  from this [OF assms] have "collect_results normalize_value (map f64_json (map canon_f64 (bs_thresholds s)))
      = collect_results normalize_value (map f64_json (bs_thresholds s))" .
  then show ?thesis
    by (auto simp: snap_fits_def canon_snapshot_def list_all_iff intro!: no_longer_eq)
qed

lemma snapshot_no_longer: "rfc8785 X \<Longrightarrow> snap_fits X s s' \<Longrightarrow> no_longer X (snapshot_json s) (snapshot_json s')"
  unfolding snapshot_json_def
  by (rule no_longer_object) (auto simp: snap_fits_def no_longer_refl)

lemma file_no_longer: "rfc8785 X \<Longrightarrow> file_fits f f' \<Longrightarrow> no_longer X (buffer_file_json f) (buffer_file_json f')"
  unfolding buffer_file_json_def
  by (rule no_longer_object) (auto simp: file_fits_def no_longer_refl no_longer_hex)

lemma manifest_no_longer:
  assumes "rfc8785 X" "list_all2 (snap_fits X) (bm_snapshots m) (bm_snapshots m')" "list_all2 file_fits (bm_files m) (bm_files m')"
    and "m' = m\<lparr>bm_snapshots := bm_snapshots m', bm_files := bm_files m'\<rparr>"
  shows "no_longer X (buffered_manifest_json m) (buffered_manifest_json m')"
proof -
  have "no_longer X (JArray (map snapshot_json (bm_snapshots m))) (JArray (map snapshot_json (bm_snapshots m')))"
    by (rule no_longer_array [OF assms(1)])
      (use assms(2) snapshot_no_longer [OF assms(1)] in \<open>auto simp: list.rel_map elim: list_all2_mono\<close>)
  moreover have "no_longer X (JArray (map buffer_file_json (bm_files m))) (JArray (map buffer_file_json (bm_files m')))"
    by (rule no_longer_array [OF assms(1)])
      (use assms(3) file_no_longer [OF assms(1)] in \<open>auto simp: list.rel_map elim: list_all2_mono\<close>)
  moreover have "bm_schema_version m' = bm_schema_version m" "bm_complete m' = bm_complete m" "bm_clock m' = bm_clock m"
    "bm_scope m' = bm_scope m" "bm_total_ns m' = bm_total_ns m" "bm_stop_reason m' = bm_stop_reason m" "bm_trace m' = bm_trace m"
    by (subst assms(4), simp)+
  ultimately show ?thesis
    unfolding buffered_manifest_json_def
    by (intro no_longer_object [OF assms(1)]) (simp_all add: no_longer_refl del: json_wf.simps(1))
qed

end
