(* ===== verification/Buffer_Invariant.thy ===== *)
theory Buffer_Invariant
  imports Buffer_Sizes
begin

text \<open>
  What a collector keeps over any sequence of its calls: the recorded trace obeys the check schedule, the
  snapshots claim exactly the first crossing of every threshold, the stop reason is substantiated, and
  every regular check left the terminal reserve untouched.
\<close>

section \<open>Profiles\<close>

definition profile_valid :: "selected_buffered_profile \<Rightarrow> bool" where
  "profile_valid profile \<longleftrightarrow> validate_policy (sb_policy profile) = Inr ()
     \<and> validate_buffered (sb_policy profile) = Inr () \<and> schedule_valid (sb_check_schedule profile)"

lemma valid_target:
  assumes "validate_policy p = Inr ()"
  shows "pp_threshold p = None \<and> thresholds p = [] \<and> pp_metric p = None
    \<or> (\<exists>t. pp_threshold p = Some t \<and> f64_is_finite t \<and> pp_metric p \<noteq> None \<and> thresholds_ok p t)"
  using assms by (auto simp: validate_policy_def validate_target_def thresholds_def split: option.splits if_splits)

lemma distinct_thresholds:
  assumes "list_all (\<lambda>(a, b). \<not> f64_eq a b \<and> reaches p b a) (windows2 ts)" "list_all f64_is_finite ts"
  shows "sorted_wrt (\<lambda>a b. \<not> f64_eq a b) ts"
proof -
  have "sorted_wrt (\<lambda>a b. \<not> f64_eq a b \<and> reaches p b a) ts"
    using assms
  proof (induction ts)
    case (Cons a ts)
    show ?case
    proof (cases ts)
      case (Cons b bs)
      have w: "windows2 (a # ts) = (a, b) # windows2 ts" by (simp add: windows2_def Cons)
      with Cons.IH Cons.prems have IH: "sorted_wrt (\<lambda>a b. \<not> f64_eq a b \<and> reaches p b a) ts" by simp
      have step: "\<not> f64_eq a c \<and> reaches p c a" if "c \<in> set ts" for c
      proof (cases "c = b")
        case True
        with Cons.prems(1) w show ?thesis by simp
      next
        case False
        with that IH local.Cons have "\<not> f64_eq b c" "reaches p c b" by auto
        moreover have "\<not> f64_eq a b" "reaches p b a" "f64_is_finite a" "f64_is_finite b" "f64_is_finite c"
          using Cons.prems w local.Cons that by (auto simp: list_all_iff)
        ultimately show ?thesis
          by (auto simp: reaches_def f64_ge_def f64_le_finite f64_eq_finite split: option.splits direction.splits)
      qed
      with IH show ?thesis by simp
    qed simp
  qed simp
  then show ?thesis by (rule sorted_wrt_mono_rel [rotated]) simp
qed

lemma valid_thresholds:
  assumes "validate_policy p = Inr ()"
  shows "list_all f64_is_finite (thresholds p)" "sorted_wrt (\<lambda>a b. \<not> f64_eq a b) (thresholds p)"
proof -
  show "list_all f64_is_finite (thresholds p)"
    using valid_target [OF assms] by (auto simp: thresholds_ok_def list_all_iff list_ex_iff)
  with valid_target [OF assms] distinct_thresholds [of p "thresholds p"]
  show "sorted_wrt (\<lambda>a b. \<not> f64_eq a b) (thresholds p)"
    by (auto simp: thresholds_ok_def list_all_iff list_ex_iff)
qed

section \<open>Recorded points\<close>

fun chain :: "('a option \<Rightarrow> 'a \<Rightarrow> bool) \<Rightarrow> 'a option \<Rightarrow> 'a list \<Rightarrow> bool" where
  "chain R before [] = True"
| "chain R before (x # xs) = (R before x \<and> chain R (Some x) xs)"

lemma chain_snoc:
  "chain R before (xs @ [x]) \<longleftrightarrow> chain R before xs \<and> R (if xs = [] then before else Some (last xs)) x"
  by (induction xs arbitrary: before) auto

lemma chain_map:
  assumes "chain R before xs" "\<And>b x. R b x \<Longrightarrow> S (map_option f b) (f x)"
  shows "chain S (map_option f before) (map f xs)"
  using assms(1) by (induction xs arbitrary: before) (fastforce dest: assms(2))+

lemma chain_weaken: "chain R before xs \<Longrightarrow> (\<And>b x. x \<in> set xs \<Longrightarrow> R b x \<Longrightarrow> S b x) \<Longrightarrow> chain S before xs"
  by (induction xs arbitrary: before) auto

lemma chain_mem: "chain R before xs \<Longrightarrow> x \<in> set xs \<Longrightarrow> \<exists>b. R b x"
  by (induction xs arbitrary: before) auto

definition point_expected :: "selected_buffered_profile \<Rightarrow> trace_point option \<Rightarrow> trace_point \<Rightarrow> bool" where
  "point_expected P before p =
     (case next_after (sb_check_schedule P) (map_option tp_check_index before) of
        None \<Rightarrow> tp_terminal p
      | Some n \<Rightarrow> if tp_terminal p then tp_check_index p \<le> n else tp_check_index p = n)"

definition metrics_ok :: "profile_policy \<Rightarrow> json \<Rightarrow> bool" where
  "metrics_ok policy v \<longleftrightarrow> is_object v \<and> json_wf v \<and> (\<exists>w. normalize_value v = Inr w)
     \<and> (case pp_metric policy of None \<Rightarrow> True | Some m \<Rightarrow> finite_metric v m \<noteq> None)"

definition point_ok :: "selected_buffered_profile \<Rightarrow> trace_point option \<Rightarrow> trace_point \<Rightarrow> bool" where
  "point_ok P before p \<longleftrightarrow> tp_check_index p \<le> MAX_SAFE_INTEGER \<and> metrics_ok (sb_policy P) (tp_metrics p)
     \<and> keys_sorted (tp_work p) \<and> list_all (\<lambda>(_, v). v \<le> MAX_SAFE_INTEGER) (tp_work p)
     \<and> point_expected P before p
     \<and> (case before of None \<Rightarrow> True | Some b \<Rightarrow> \<not> point_regresses b p)
     \<and> (tp_terminal p \<or> (\<forall>active. active_time_ns (sb_policy P) = Inr active \<longrightarrow> \<not> point_should_stop (sb_policy P) active p))"

lemma work_json_wf: "keys_sorted work \<Longrightarrow> json_wf (work_json work)"
  by (auto simp: work_json_def keys_sorted_def ser_u64_def list_all_iff comp_def case_prod_beta)

lemma trace_point_wf: "json_wf (tp_metrics p) \<Longrightarrow> keys_sorted (tp_work p) \<Longrightarrow> json_wf (trace_point_json p)"
  unfolding trace_point_json_def by (rule ser_object_wf) (simp add: work_json_wf ser_u64_def)

section \<open>Byte accounting\<close>

definition point_len :: "externals \<Rightarrow> trace_point \<Rightarrow> nat" where
  "point_len X p = (case json_bytes X (trace_point_json p) of Inr s \<Rightarrow> length s | Inl _ \<Rightarrow> 0)"

definition points_len :: "externals \<Rightarrow> trace_point list \<Rightarrow> nat" where
  "points_len X ps = sum_list (map (\<lambda>p. point_len X p + 1) ps)"

type_synonym snapshots = "(buffered_snapshot \<times> string) list"

definition snapshots_upto :: "nat \<Rightarrow> snapshots \<Rightarrow> snapshots" where
  "snapshots_upto i snaps = filter (\<lambda>s. bs_trace_index (fst s) \<le> i) snaps"

text \<open>The manifest of an execution that had stopped after the point \<open>i\<close>, before its hashes are known.\<close>

definition stopped_manifest :: "selected_buffered_profile \<Rightarrow> nat \<Rightarrow> snapshots \<Rightarrow> buffered_manifest" where
  "stopped_manifest P trace_bytes snaps =
     \<lparr>bm_schema_version = 1, bm_complete = True, bm_clock = ''monotonic_ns'', bm_scope = sb_instrumented_scope P,
      bm_total_ns = MAX_SAFE_INTEGER, bm_stop_reason = ImplementationStopped, bm_trace = ''trace.jsonl'',
      bm_snapshots = map fst snaps,
      bm_files = \<lparr>bf_path = ''trace.jsonl'', bf_sha256 = zero_sha, bf_size = trace_bytes\<rparr>
        # map (\<lambda>(s, b). \<lparr>bf_path = bs_manifest s, bf_sha256 = zero_sha, bf_size = length b\<rparr>) snaps\<rparr>"

definition data_len :: "snapshots \<Rightarrow> nat" where
  "data_len snaps = sum_list (map (\<lambda>s. length (snd s)) snaps)"

definition reserve_kept :: "externals \<Rightarrow> selected_buffered_profile \<Rightarrow> trace_point list \<Rightarrow> snapshots \<Rightarrow> nat \<Rightarrow> bool" where
  "reserve_kept X P points snaps i \<longleftrightarrow>
     (\<exists>text. json_bytes X (buffered_manifest_json
          (stopped_manifest P (points_len X (take (i + 1) points)) (snapshots_upto i snaps))) = Inr text
        \<and> points_len X (take (i + 1) points) + data_len (snapshots_upto i snaps) + length text
          \<le> pp_max_buffer_bytes (sb_policy P) - pp_terminal_reserve_bytes (sb_policy P))"

section \<open>The invariant\<close>

definition trace_ok :: "buffered_trace \<Rightarrow> bool" where
  "trace_ok tr \<longleftrightarrow> chain (point_ok (bt_profile tr)) None (bt_points tr)
     \<and> list_all (\<lambda>p. \<not> tp_terminal p) (butlast (bt_points tr))
     \<and> (bt_points tr \<noteq> [] \<and> tp_terminal (last (bt_points tr)) \<longleftrightarrow> bt_stopped tr \<noteq> None)
     \<and> length (bt_points tr) \<le> pp_max_trace_points (sb_policy (bt_profile tr))
     \<and> (bt_stopped tr = None \<longrightarrow> length (bt_points tr) < pp_max_trace_points (sb_policy (bt_profile tr)))"

definition captures_ok :: "buffered_trace \<Rightarrow> bool" where
  "captures_ok tr \<longleftrightarrow>
     (let snaps = map fst (bt_snapshots tr); n = length (bt_points tr); policy = sb_policy (bt_profile tr)
      in (\<forall>i < length snaps. bs_ordinal (snaps ! i) = i \<and> bs_manifest (snaps ! i) = snapshot_path i)
         \<and> sorted_wrt (<) (map bs_trace_index snaps) \<and> list_all (\<lambda>s. bs_trace_index s < n) snaps
         \<and> (pp_metric policy = None \<longrightarrow> map bs_trace_index snaps = [0..<n])
         \<and> (bt_stopped tr \<noteq> None \<longrightarrow> snaps \<noteq> [] \<and> bs_trace_index (last snaps) = n - 1)
         \<and> length snaps \<le> pp_max_observations policy
         \<and> (bt_stopped tr = None \<longrightarrow> length snaps < pp_max_observations policy))"

definition first_crossing :: "profile_policy \<Rightarrow> trace_point list \<Rightarrow> nat \<Rightarrow> f64 \<Rightarrow> bool" where
  "first_crossing policy points i t \<longleftrightarrow> i < length points \<and> point_reaches policy (points ! i) t
     \<and> \<not> list_ex (\<lambda>p. point_reaches policy p t) (take i points)"

definition claims_ok :: "buffered_trace \<Rightarrow> bool" where
  "claims_ok tr \<longleftrightarrow>
     (let snaps = map fst (bt_snapshots tr); policy = sb_policy (bt_profile tr)
      in bt_reached tr = concat (map bs_thresholds snaps)
         \<and> list_all (\<lambda>s. list_all (\<lambda>t. t \<in> set (thresholds policy)
             \<and> first_crossing policy (bt_points tr) (bs_trace_index s) t) (bs_thresholds s)) snaps
         \<and> sorted_wrt (\<lambda>a b. \<not> f64_eq a b) (bt_reached tr)
         \<and> (\<forall>t \<in> set (thresholds policy). \<forall>p \<in> set (bt_points tr). point_reaches policy p t
             \<longrightarrow> t \<in> set (bt_reached tr)))"

definition reason_ok :: "profile_policy \<Rightarrow> trace_point list \<Rightarrow> nat \<Rightarrow> stop_reason \<Rightarrow> bool" where
  "reason_ok policy points observations r = (case r of
       TargetReached \<Rightarrow> (case pp_threshold policy of None \<Rightarrow> False | Some t \<Rightarrow> point_reaches policy (last points) t)
     | FixedCount \<Rightarrow> pp_metric policy = None \<and> observations = pp_max_observations policy
     | TraceLimit \<Rightarrow> length points = pp_max_trace_points policy
     | ObservationLimit \<Rightarrow> observations = pp_max_observations policy
     | ActiveTimeLimitStop \<Rightarrow> (\<forall>active. active_time_ns policy = Inr active \<longrightarrow> tp_time_ns (last points) \<ge> active)
     | _ \<Rightarrow> True)"

definition bytes_ok :: "externals \<Rightarrow> buffered_trace \<Rightarrow> bool" where
  "bytes_ok X tr \<longleftrightarrow> bt_snapshot_bytes tr = data_len (bt_snapshots tr)
     \<and> (bt_stopped tr = None \<longrightarrow> bt_trace_bytes tr = points_len X (bt_points tr))
     \<and> (\<forall>i < length (bt_points tr). \<not> tp_terminal (bt_points tr ! i)
         \<longrightarrow> reserve_kept X (bt_profile tr) (bt_points tr) (bt_snapshots tr) i)"

definition finish_ok :: "buffered_trace \<Rightarrow> bool" where
  "finish_ok tr \<longleftrightarrow> bt_adopted tr = None
     \<and> (bt_finished tr \<longrightarrow> bt_stopped tr \<noteq> None \<and> tp_time_ns (last (bt_points tr)) \<le> bt_total tr
         \<and> bt_total tr \<le> MAX_SAFE_INTEGER)"

definition recorder_ok :: "externals \<Rightarrow> buffered_trace \<Rightarrow> bool" where
  "recorder_ok X tr \<longleftrightarrow> profile_valid (bt_profile tr) \<and> trace_ok tr \<and> captures_ok tr \<and> claims_ok tr
     \<and> bytes_ok X tr \<and> finish_ok tr
     \<and> (case bt_stopped tr of None \<Rightarrow> True
        | Some r \<Rightarrow> reason_ok (sb_policy (bt_profile tr)) (bt_points tr) (length (bt_snapshots tr)) r)"

section \<open>Reachable collectors\<close>

text \<open>
  The calls a worker makes.  Within one check the clock does not run backwards; the callbacks return
  well-formed values, and a work map is in key order.
\<close>

definition check_env_ok :: "check_env \<Rightarrow> bool" where
  "check_env_ok E \<longleftrightarrow> ce_first E \<le> ce_second E
     \<and> (case ce_metrics E of None \<Rightarrow> True | Some v \<Rightarrow> json_wf v)
     \<and> (case ce_snapshot E of None \<Rightarrow> True | Some v \<Rightarrow> json_wf v)"

inductive recorded :: "externals \<Rightarrow> selected_buffered_profile \<Rightarrow> buffered_trace \<Rightarrow> bool" for X P where
  recorded_new: "with_clock P = Inr tr \<Longrightarrow> recorded X P tr"
| recorded_check: "recorded X P tr \<Longrightarrow> check_env_ok E \<Longrightarrow> keys_sorted (pr_work progress)
    \<Longrightarrow> recorded X P (snd (observe X E progress tr))"
| recorded_metrics: "recorded X P tr \<Longrightarrow> check_env_ok E \<Longrightarrow> keys_sorted (pr_work progress) \<Longrightarrow> json_wf metrics
    \<Longrightarrow> recorded X P (snd (record_metrics X E progress metrics tr))"
| recorded_finish: "recorded X P tr \<Longrightarrow> check_env_ok E \<Longrightarrow> keys_sorted (pr_work progress)
    \<Longrightarrow> recorded X P (snd (finish X E total_ns progress tr))"

lemma recorder_ok_new:
  assumes "with_clock P = Inr tr"
  shows "recorder_ok X tr \<and> bt_profile tr = P"
proof -
  from assms have v: "profile_valid P" and tr: "tr = \<lparr>bt_profile = P, bt_points = [], bt_snapshots = [],
      bt_trace_bytes = 0, bt_snapshot_bytes = 0, bt_reached = [], bt_stopped = None, bt_finished = False,
      bt_total = 0, bt_adopted = None\<rparr>"
    by (auto simp: with_clock_def profile_valid_def)
  from v have "0 < pp_max_trace_points (sb_policy P)" "0 < pp_max_observations (sb_policy P)"
    by (auto simp: profile_valid_def validate_buffered_def validate_policy_def split: if_splits)
  with v tr show ?thesis
    by (simp add: recorder_ok_def trace_ok_def captures_ok_def claims_ok_def bytes_ok_def finish_ok_def
        data_len_def points_len_def)
qed

end
