(* ===== verification/Buffer_Steps.thy ===== *)
theory Buffer_Steps
  imports Buffer_Invariant
begin

text \<open>Every call of a collector keeps its invariant.\<close>

section \<open>What a recorded check is\<close>

lemma buffer_bytes_Ok [simp]: "buffer_bytes X v = Inr s \<longleftrightarrow> json_bytes X v = Inr s"
  by (simp add: buffer_bytes_def)

lemma byte_limited_Ok:
  assumes "byte_limited X tr captured (p, e, r) = Inr (p', e', r')"
    and "json_bytes X (trace_point_json p) = Inr e" "tp_terminal p = (r \<noteq> None)"
  shows "json_bytes X (trace_point_json p') = Inr e'" "p' = p\<lparr>tp_terminal := (r' \<noteq> None)\<rparr>"
    "r' = r \<or> r = None \<and> r' = Some ByteLimit"
    "r' = None \<Longrightarrow> \<exists>size_bytes. estimated_bytes X tr (length e' + 1) captured = Inr size_bytes
      \<and> size_bytes \<le> pp_max_buffer_bytes (sb_policy (bt_profile tr)) - pp_terminal_reserve_bytes (sb_policy (bt_profile tr))"
  using assms by (auto simp: byte_limited_def split: if_splits)

lemma encode_check_Ok:
  assumes "encode_check X E tr point crossed (capture, reason) = Inr c"
  shows "json_bytes X (trace_point_json (rc_point c)) = Inr (rc_encoded c)"
    and "rc_point c = point\<lparr>tp_terminal := (rc_reason c \<noteq> None)\<rparr>"
    and "rc_crossed c = crossed"
    and "rc_reason c = reason \<or> reason = None \<and> rc_reason c = Some ByteLimit"
    and "capture \<or> rc_reason c \<noteq> None \<Longrightarrow> rc_captured c \<noteq> None"
    and "rc_captured c \<noteq> None \<Longrightarrow> capture \<or> rc_reason c \<noteq> None"
    and "rc_reason c = None \<Longrightarrow> \<exists>size_bytes. estimated_bytes X tr (length (rc_encoded c) + 1) (rc_captured c) = Inr size_bytes
      \<and> size_bytes \<le> pp_max_buffer_bytes (sb_policy (bt_profile tr)) - pp_terminal_reserve_bytes (sb_policy (bt_profile tr))"
proof -
  let ?p = "point\<lparr>tp_terminal := (reason \<noteq> None)\<rparr>"
  from assms obtain e1 p2 e2 r2 captured p3 e3 r3 size_bytes where
    1: "json_bytes X (trace_point_json ?p) = Inr e1"
    and 2: "byte_limited X tr None (?p, e1, reason) = Inr (p2, e2, r2)"
    and cap: "(if capture \<or> r2 \<noteq> None then res_bind (capture_snapshot X E) (\<lambda>d. Inr (Some d)) else Inr None) = Inr captured"
    and 3: "byte_limited X tr captured (p2, e2, r2) = Inr (p3, e3, r3)"
    and 4: "estimated_bytes X tr (length e3 + 1) captured = Inr size_bytes"
    and c: "c = \<lparr>rc_point = p3, rc_encoded = e3, rc_captured = captured, rc_crossed = crossed, rc_reason = r3\<rparr>"
    by (auto simp: encode_check_def split: if_splits)
  note b2 = byte_limited_Ok [OF 2 1]
  have "tp_terminal p2 = (r2 \<noteq> None)" using b2(2) by simp
  note b3 = byte_limited_Ok [OF 3 b2(1) this]
  have limit: "r3 \<noteq> None" if "r2 \<noteq> None" using b3(3) that by auto
  have none: "captured = None" if "r2 = None" "\<not> capture" using cap that by simp
  show "json_bytes X (trace_point_json (rc_point c)) = Inr (rc_encoded c)" using b3(1) c by simp
  show "rc_point c = point\<lparr>tp_terminal := (rc_reason c \<noteq> None)\<rparr>" using b2(2) b3(2) c by simp
  show "rc_crossed c = crossed" using c by simp
  show "rc_reason c = reason \<or> reason = None \<and> rc_reason c = Some ByteLimit" using b2(3) b3(3) c by auto
  show "rc_reason c = None \<Longrightarrow> \<exists>size_bytes. estimated_bytes X tr (length (rc_encoded c) + 1) (rc_captured c) = Inr size_bytes
      \<and> size_bytes \<le> pp_max_buffer_bytes (sb_policy (bt_profile tr)) - pp_terminal_reserve_bytes (sb_policy (bt_profile tr))"
    using b3(4) c by simp
  show "rc_captured c \<noteq> None" if "capture \<or> rc_reason c \<noteq> None"
  proof (cases "capture \<or> r2 \<noteq> None")
    case True
    with cap c show ?thesis by (auto split: if_splits)
  next
    case False
    then have "captured = None" "r2 = None" using none by auto
    with 2 3 b2 have "r3 = None" by (auto simp: byte_limited_def split: if_splits)
    with that False c show ?thesis by simp
  qed
  show "capture \<or> rc_reason c \<noteq> None" if "rc_captured c \<noteq> None"
    using none limit that c by auto
qed

definition check_recorded :: "externals \<Rightarrow> buffered_trace \<Rightarrow> recorded_check \<Rightarrow> bool" where
  "check_recorded X tr c \<longleftrightarrow>
     (let P = bt_profile tr; policy = sb_policy P; p = rc_point c
      in bt_stopped tr = None \<and> \<not> bt_finished tr \<and> point_ok P (last_point tr) p
         \<and> tp_terminal p = (rc_reason c \<noteq> None)
         \<and> rc_crossed c = filter (\<lambda>t. \<not> list_ex (f64_eq t) (bt_reached tr) \<and> point_reaches policy p t) (thresholds policy)
         \<and> json_bytes X (trace_point_json p) = Inr (rc_encoded c)
         \<and> (rc_captured c \<noteq> None \<longleftrightarrow> pp_metric policy = None \<or> rc_crossed c \<noteq> [] \<or> rc_reason c \<noteq> None)
         \<and> (rc_captured c \<noteq> None \<and> rc_reason c = None \<longrightarrow> length (bt_snapshots tr) + 1 < pp_max_observations policy)
         \<and> (rc_reason c = None \<longrightarrow> length (bt_points tr) + 1 < pp_max_trace_points policy
             \<and> (\<exists>size_bytes. estimated_bytes X tr (length (rc_encoded c) + 1) (rc_captured c) = Inr size_bytes
               \<and> size_bytes \<le> pp_max_buffer_bytes policy - pp_terminal_reserve_bytes policy))
         \<and> (case rc_reason c of None \<Rightarrow> True
            | Some r \<Rightarrow> reason_ok policy (bt_points tr @ [p]) (length (bt_snapshots tr) + 1) r))"

lemma target_value_Ok:
  assumes "target_value policy (tp_metrics p) = Inr target" "normalize_value (tp_metrics p) = Inr w"
  shows "point_metric policy p = target"
    and "case pp_metric policy of None \<Rightarrow> target = None | Some m \<Rightarrow> finite_metric (tp_metrics p) m \<noteq> None \<and> target \<noteq> None"
  using assms finite_metric_eq(1) [OF assms(2)]
  by (auto simp: target_value_def point_metric_def split: option.splits)

text \<open>What the code decides before it accounts for bytes.\<close>

lemma stop_reason_facts:
  assumes "reason = stop_reason_of policy target terminal elapsed active n" "point_metric policy p = target"
    and "tp_time_ns p = elapsed" "active_time_ns policy = Inr active" "n < pp_max_trace_points policy"
  shows "case reason of
      None \<Rightarrow> \<not> terminal \<and> \<not> point_should_stop policy active p \<and> n + 1 < pp_max_trace_points policy
    | Some r \<Rightarrow> \<forall>points observations. length points = n \<longrightarrow> reason_ok policy (points @ [p]) observations r"
proof -
  have tgt: "(case (target, pp_threshold policy) of (Some v, Some t) \<Rightarrow> reaches policy v t | _ \<Rightarrow> False)
      = (case pp_threshold policy of None \<Rightarrow> False | Some t \<Rightarrow> point_reaches policy p t)"
    using assms(2) by (auto simp: point_reaches_def split: option.splits)
  define hit where "hit = (case pp_threshold policy of None \<Rightarrow> False | Some t \<Rightarrow> point_reaches policy p t)"
  have "reason = (if hit then Some TargetReached else if terminal then Some ImplementationStopped
      else if elapsed \<ge> active then Some ActiveTimeLimitStop
      else if n + 1 \<ge> pp_max_trace_points policy then Some TraceLimit else None)"
    unfolding assms(1) stop_reason_of_def tgt hit_def ..
  with assms(3,4,5) show ?thesis
    by (cases "pp_threshold policy") (auto simp: point_should_stop_def reason_ok_def hit_def)
qed

lemma capture_facts:
  assumes "capture_decision tr crossed reason = (capture, reason')"
    and "length (bt_snapshots tr) < pp_max_observations (sb_policy (bt_profile tr))"
  shows "capture \<longleftrightarrow> pp_metric (sb_policy (bt_profile tr)) = None \<or> crossed \<noteq> [] \<or> reason \<noteq> None"
    and "reason \<noteq> None \<Longrightarrow> reason' = reason"
    and "reason = None \<Longrightarrow> case reason' of
        None \<Rightarrow> capture \<longrightarrow> length (bt_snapshots tr) + 1 < pp_max_observations (sb_policy (bt_profile tr))
      | Some r \<Rightarrow> capture \<and> (\<forall>points. reason_ok (sb_policy (bt_profile tr)) points (length (bt_snapshots tr) + 1) r)"
  using assms by (auto simp: capture_decision_def Let_def reason_ok_def split: if_splits)

lemma measure_check_recorded:
  assumes ok: "recorder_ok X tr" and env: "check_env_ok E" and work: "keys_sorted (pr_work progress)"
    and admit: "admit_check progress tr = Inr ()" and active: "active_time_ns (sb_policy (bt_profile tr)) = Inr active"
    and due: "terminal \<or> ce_first E \<ge> active \<or> expected_check tr = Some (pr_check_index progress)"
    and run: "measure_check X E progress terminal active tr = Inr c"
  shows "check_recorded X tr c"
proof -
  let ?P = "bt_profile tr" let ?policy = "sb_policy ?P" let ?n = "length (bt_points tr)"
  from run obtain metrics w target where metrics: "ce_metrics E = Some metrics" "is_object metrics"
      "normalize_value metrics = Inr w"
    and clock: "\<not> (ce_second E > MAX_SAFE_INTEGER \<or> (case last_point tr of None \<Rightarrow> False | Some p \<Rightarrow> ce_second E < tp_time_ns p))"
    and target: "target_value ?policy metrics = Inr target"
    and enc': "encode_check X E tr \<lparr>tp_check_index = pr_check_index progress, tp_work = pr_work progress, tp_metrics = metrics,
             tp_time_ns = ce_second E, tp_terminal = False\<rparr> (crossed_thresholds tr target)
        (capture_decision tr (crossed_thresholds tr target)
          (stop_reason_of ?policy target terminal (ce_second E) active ?n)) = Inr c"
    by (auto simp: measure_check_def Let_def simp del: normalize_value.simps is_object_iff split: if_splits)
  obtain capture reason' where dec: "capture_decision tr (crossed_thresholds tr target)
       (stop_reason_of ?policy target terminal (ce_second E) active ?n) = (capture, reason')" by fastforce
  note enc = enc' [unfolded dec]
  define reason where "reason = stop_reason_of ?policy target terminal (ce_second E) active ?n"
  note e = encode_check_Ok [OF enc]
  let ?p = "rc_point c"
  have p: "tp_check_index ?p = pr_check_index progress" "tp_work ?p = pr_work progress" "tp_metrics ?p = metrics"
    "tp_time_ns ?p = ce_second E" "tp_terminal ?p = (rc_reason c \<noteq> None)"
    using e(2) by simp_all
  have stopped: "bt_stopped tr = None" "\<not> bt_finished tr" using admit by (auto simp: admit_check_def split: if_splits)
  have bounds: "?n < pp_max_trace_points ?policy" "length (bt_snapshots tr) < pp_max_observations ?policy"
    using ok stopped by (auto simp: recorder_ok_def trace_ok_def captures_ok_def Let_def)
  note t = target_value_Ok [of ?policy ?p target w, unfolded p(3), OF target metrics(3)]
  note sr = stop_reason_facts [OF reason_def t(1) p(4) active bounds(1)]
  note cf = capture_facts [OF dec [folded reason_def] bounds(2)]
  have crossed: "rc_crossed c = filter (\<lambda>t. \<not> list_ex (f64_eq t) (bt_reached tr) \<and> point_reaches ?policy ?p t) (thresholds ?policy)"
    using e(3) t(1) by (simp add: crossed_thresholds_def point_reaches_def)
  have reason_none: "reason = None \<and> reason' = None" if "rc_reason c = None"
    using e(4) that cf(2) by (cases reason) auto
  have cap_iff: "rc_captured c \<noteq> None \<longleftrightarrow> pp_metric ?policy = None \<or> rc_crossed c \<noteq> [] \<or> rc_reason c \<noteq> None"
    using e(3,4,5,6) cf(1,2) reason_none by auto
  have expected: "point_expected ?P (last_point tr) ?p"
  proof -
    have le: "case expected_check tr of None \<Rightarrow> True | Some n \<Rightarrow> pr_check_index progress \<le> n"
      using admit by (auto simp: admit_check_def split: if_splits option.splits)
    have "expected_check tr = Some (pr_check_index progress)" if "rc_reason c = None"
    proof -
      have "\<not> terminal" "\<not> point_should_stop ?policy active ?p" using sr reason_none [OF that] by auto
      then have "\<not> ce_first E \<ge> active" using env p(4) by (auto simp: point_should_stop_def check_env_ok_def)
      with due \<open>\<not> terminal\<close> show ?thesis by simp
    qed
    with le show ?thesis
      by (auto simp: point_expected_def expected_check_def p split: option.splits)
  qed
  have "point_ok ?P (last_point tr) ?p"
    unfolding point_ok_def
  proof (intro conjI)
    show "tp_check_index ?p \<le> MAX_SAFE_INTEGER" "list_all (\<lambda>(_, v). v \<le> MAX_SAFE_INTEGER) (tp_work ?p)"
      using admit by (auto simp: p admit_check_def list_all_iff list_ex_iff split: if_splits)
    show "metrics_ok ?policy (tp_metrics ?p)"
      using metrics env t(2) by (auto simp: p metrics_ok_def check_env_ok_def split: option.splits)
    show "keys_sorted (tp_work ?p)" using work by (simp add: p)
    show "point_expected ?P (last_point tr) ?p" by (rule expected)
    show "case last_point tr of None \<Rightarrow> True | Some b \<Rightarrow> \<not> point_regresses b ?p"
      using admit clock by (auto simp: p admit_check_def point_regresses_def split: if_splits option.splits)
    show "tp_terminal ?p \<or> (\<forall>active. active_time_ns ?policy = Inr active \<longrightarrow> \<not> point_should_stop ?policy active ?p)"
      using sr reason_none active by (auto simp: p)
  qed
  moreover have "rc_reason c = None \<longrightarrow> ?n + 1 < pp_max_trace_points ?policy" using sr reason_none by auto
  moreover have "rc_captured c \<noteq> None \<and> rc_reason c = None \<longrightarrow> length (bt_snapshots tr) + 1 < pp_max_observations ?policy"
    using cf(3) reason_none e(6) by auto
  moreover have "case rc_reason c of None \<Rightarrow> True
      | Some r \<Rightarrow> reason_ok ?policy (bt_points tr @ [?p]) (length (bt_snapshots tr) + 1) r"
    using e(4) sr cf(2,3) by (cases reason; cases reason') (auto simp: reason_ok_def)
  ultimately show ?thesis
    unfolding check_recorded_def Let_def using stopped crossed cap_iff e(1,7) p(5) by blast
qed

section \<open>Committing a check\<close>

lemma points_len_snoc: "points_len X (ps @ [p]) = points_len X ps + point_len X p + 1"
  by (simp add: points_len_def)

lemma data_len_snoc: "data_len (snaps @ [s]) = data_len snaps + length (snd s)"
  by (simp add: data_len_def)

lemma snapshots_upto_all: "list_all (\<lambda>s. bs_trace_index (fst s) \<le> i) snaps \<Longrightarrow> snapshots_upto i snaps = snaps"
  by (simp add: snapshots_upto_def list_all_iff)

lemma snapshots_upto_later: "bs_trace_index (fst s) > i \<Longrightarrow> snapshots_upto i (snaps @ [s]) = snapshots_upto i snaps"
  by (simp add: snapshots_upto_def)

lemma reserve_kept_cong:
  "take (i + 1) points = take (i + 1) points' \<Longrightarrow> snapshots_upto i snaps = snapshots_upto i snaps'
   \<Longrightarrow> reserve_kept X P points snaps i = reserve_kept X P points' snaps' i"
  by (simp add: reserve_kept_def)

text \<open>The snapshot a committed check adds.\<close>

definition added_snapshots :: "buffered_trace \<Rightarrow> recorded_check \<Rightarrow> snapshots" where
  "added_snapshots tr c = (case rc_captured c of None \<Rightarrow> []
     | Some data \<Rightarrow> [(\<lparr>bs_ordinal = length (bt_snapshots tr), bs_trace_index = length (bt_points tr),
         bs_thresholds = rc_crossed c, bs_manifest = snapshot_path (length (bt_snapshots tr))\<rparr>, data)])"

lemma commit_check_eq:
  assumes "length (bt_snapshots tr) < pp_max_observations (sb_policy (bt_profile tr))"
  shows "commit_check c tr = (Inr (case rc_reason c of None \<Rightarrow> ContinueRecording | Some r \<Rightarrow> StopRecording r),
    tr\<lparr>bt_trace_bytes := bt_trace_bytes tr + length (rc_encoded c) + 1, bt_points := bt_points tr @ [rc_point c],
      bt_snapshot_bytes := bt_snapshot_bytes tr + data_len (added_snapshots tr c),
      bt_snapshots := bt_snapshots tr @ added_snapshots tr c,
      bt_reached := bt_reached tr @ rc_crossed c, bt_stopped := rc_reason c\<rparr>)"
  using assms
  by (cases "rc_captured c") (simp_all add: commit_check_def Let_def added_snapshots_def add_snapshot_def data_len_def)

lemma zero_sha_hex: "list_all is_lower_hex zero_sha"
  unfolding zero_sha_def by code_simp

lemma estimated_stopped:
  assumes "rfc8785 X" "estimated_bytes X tr extra captured = Inr size_bytes" "profile_valid (bt_profile tr)"
    and "rc_captured c = captured" "rc_crossed c = filter Q (thresholds (sb_policy (bt_profile tr)))"
  shows "\<exists>out. json_bytes X (buffered_manifest_json
        (stopped_manifest (bt_profile tr) (bt_trace_bytes tr + extra) (bt_snapshots tr @ added_snapshots tr c))) = Inr out
    \<and> bt_trace_bytes tr + extra + (bt_snapshot_bytes tr + data_len (added_snapshots tr c)) + length out \<le> size_bytes"
proof -
  from assms(2) obtain out where out: "json_bytes X (buffered_manifest_json (estimated_manifest tr extra captured)) = Inr out"
    and size: "size_bytes = bt_trace_bytes tr + extra + bt_snapshot_bytes tr
       + (case captured of None \<Rightarrow> 0 | Some data \<Rightarrow> length data) + length out"
    by (auto simp: estimated_bytes_def)
  let ?m = "stopped_manifest (bt_profile tr) (bt_trace_bytes tr + extra) (bt_snapshots tr @ added_snapshots tr c)"
  have same: "list_all2 (snap_fits X) xs xs" for xs by (simp add: snap_fits_refl list.rel_refl_strong)
  have zeros: "list_all2 file_fits fs fs" if "\<forall>f \<in> set fs. bf_sha256 f = zero_sha" for fs
    using that by (auto simp: file_fits_def zero_sha_hex intro!: list.rel_refl_strong)
  have "no_longer X (buffered_manifest_json ?m) (buffered_manifest_json (estimated_manifest tr extra captured))"
  proof (cases captured)
    case None
    with assms(4) have "?m = estimated_manifest tr extra captured"
      by (simp add: stopped_manifest_def estimated_manifest_def manifest_of_def Let_def added_snapshots_def)
    moreover have "list_all2 file_fits (bm_files ?m) (bm_files ?m)"
      by (rule zeros) (auto simp: stopped_manifest_def)
    ultimately show ?thesis using manifest_no_longer [OF assms(1) same] by simp
  next
    case (Some data)
    let ?all = "\<lparr>bs_ordinal = length (bt_snapshots tr), bs_trace_index = length (bt_points tr),
      bs_thresholds = thresholds (sb_policy (bt_profile tr)), bs_manifest = snapshot_path (length (bt_snapshots tr))\<rparr>"
    have "snap_fits X (?all\<lparr>bs_thresholds := rc_crossed c\<rparr>) ?all"
      using snap_fits_filter [OF assms(1), of Q ?all] assms(5) by simp
    with same [of "map fst (bt_snapshots tr)"]
    have snaps: "list_all2 (snap_fits X) (bm_snapshots ?m) (bm_snapshots (estimated_manifest tr extra captured))"
      using Some assms(4)
      by (simp add: stopped_manifest_def estimated_manifest_def manifest_of_def Let_def added_snapshots_def list_all2_appendI)
    have files: "bm_files ?m = bm_files (estimated_manifest tr extra captured)"
      using Some assms(4)
      by (simp add: stopped_manifest_def estimated_manifest_def manifest_of_def Let_def added_snapshots_def)
    have zero: "\<forall>f \<in> set (bm_files ?m). bf_sha256 f = zero_sha" by (auto simp: stopped_manifest_def)
    have "estimated_manifest tr extra captured = ?m\<lparr>bm_snapshots := bm_snapshots (estimated_manifest tr extra captured),
        bm_files := bm_files (estimated_manifest tr extra captured)\<rparr>"
      using Some by (simp add: stopped_manifest_def estimated_manifest_def manifest_of_def Let_def)
    with manifest_no_longer [OF assms(1) snaps] zeros [OF zero] files show ?thesis by simp
  qed
  from no_longer_bytes [OF assms(1) this out] obtain out' where "json_bytes X (buffered_manifest_json ?m) = Inr out'"
    "length out' \<le> length out" by blast
  moreover have "data_len (added_snapshots tr c) = (case captured of None \<Rightarrow> 0 | Some data \<Rightarrow> length data)"
    using assms(4) by (cases captured) (simp_all add: added_snapshots_def data_len_def)
  ultimately show ?thesis using size by auto
qed

lemma recorder_okD:
  assumes "recorder_ok X tr"
  shows "profile_valid (bt_profile tr)" "trace_ok tr" "captures_ok tr" "claims_ok tr" "bytes_ok X tr" "finish_ok tr"
  using assms by (simp_all add: recorder_ok_def)

lemma check_recordedD:
  assumes "check_recorded X tr c"
  shows "bt_stopped tr = None" "\<not> bt_finished tr" "point_ok (bt_profile tr) (last_point tr) (rc_point c)"
    "tp_terminal (rc_point c) = (rc_reason c \<noteq> None)"
    "rc_crossed c = filter (\<lambda>t. \<not> list_ex (f64_eq t) (bt_reached tr) \<and> point_reaches (sb_policy (bt_profile tr)) (rc_point c) t)
      (thresholds (sb_policy (bt_profile tr)))"
    "json_bytes X (trace_point_json (rc_point c)) = Inr (rc_encoded c)"
    "rc_captured c \<noteq> None \<longleftrightarrow> pp_metric (sb_policy (bt_profile tr)) = None \<or> rc_crossed c \<noteq> [] \<or> rc_reason c \<noteq> None"
    "rc_captured c \<noteq> None \<Longrightarrow> rc_reason c = None \<Longrightarrow> length (bt_snapshots tr) + 1 < pp_max_observations (sb_policy (bt_profile tr))"
    "rc_reason c = None \<Longrightarrow> length (bt_points tr) + 1 < pp_max_trace_points (sb_policy (bt_profile tr))"
    "rc_reason c = None \<Longrightarrow> \<exists>size_bytes. estimated_bytes X tr (length (rc_encoded c) + 1) (rc_captured c) = Inr size_bytes
      \<and> size_bytes \<le> pp_max_buffer_bytes (sb_policy (bt_profile tr)) - pp_terminal_reserve_bytes (sb_policy (bt_profile tr))"
    "rc_reason c = Some r \<Longrightarrow> reason_ok (sb_policy (bt_profile tr)) (bt_points tr @ [rc_point c]) (length (bt_snapshots tr) + 1) r"
  using assms by (auto simp: check_recorded_def Let_def)

text \<open>The collector after a committed check.\<close>

definition committed :: "recorded_check \<Rightarrow> buffered_trace \<Rightarrow> buffered_trace" where
  "committed c tr = snd (commit_check c tr)"

lemma commit_room:
  assumes "recorder_ok X tr" "check_recorded X tr c"
  shows "length (bt_snapshots tr) < pp_max_observations (sb_policy (bt_profile tr))"
  using recorder_okD(3) [OF assms(1)] check_recordedD(1) [OF assms(2)] by (simp add: captures_ok_def Let_def)

lemma committed_simps:
  assumes "recorder_ok X tr" "check_recorded X tr c"
  shows "bt_profile (committed c tr) = bt_profile tr" "bt_points (committed c tr) = bt_points tr @ [rc_point c]"
    "bt_snapshots (committed c tr) = bt_snapshots tr @ added_snapshots tr c"
    "bt_reached (committed c tr) = bt_reached tr @ rc_crossed c"
    "bt_stopped (committed c tr) = rc_reason c" "bt_adopted (committed c tr) = bt_adopted tr"
    "bt_finished (committed c tr) = bt_finished tr"
    "bt_trace_bytes (committed c tr) = bt_trace_bytes tr + length (rc_encoded c) + 1"
    "bt_snapshot_bytes (committed c tr) = bt_snapshot_bytes tr + data_len (added_snapshots tr c)"
  by (simp_all add: committed_def commit_check_eq [OF commit_room [OF assms]])

lemma regular_points:
  assumes "trace_ok tr" "bt_stopped tr = None"
  shows "list_all (\<lambda>p. \<not> tp_terminal p) (bt_points tr)"
proof (cases "bt_points tr" rule: rev_cases)
  case (snoc ps p)
  with assms show ?thesis by (simp add: trace_ok_def)
qed simp

lemma commit_trace_ok:
  assumes "recorder_ok X tr" "check_recorded X tr c"
  shows "trace_ok (committed c tr)"
  using recorder_okD(2) [OF assms(1)] check_recordedD(1,3,4,9) [OF assms(2)] regular_points [of tr]
  by (auto simp: trace_ok_def committed_simps [OF assms] chain_snoc last_point_def split: if_splits)

lemma added_none:
  assumes "check_recorded X tr c" "rc_captured c = None"
  shows "added_snapshots tr c = []" "rc_crossed c = []" "rc_reason c = None" "pp_metric (sb_policy (bt_profile tr)) \<noteq> None"
  using check_recordedD(7) [OF assms(1)] assms(2) by (auto simp: added_snapshots_def)

lemma commit_captures_ok:
  assumes "recorder_ok X tr" "check_recorded X tr c"
  shows "captures_ok (committed c tr)"
proof (cases "rc_captured c")
  case None
  with added_none [OF assms(2)] check_recordedD(1) [OF assms(2)] recorder_okD(3) [OF assms(1)] show ?thesis
    by (auto simp: captures_ok_def Let_def committed_simps [OF assms] list_all_iff)
next
  case (Some data)
  have ordinals: "\<forall>i < length (bt_snapshots tr). bs_ordinal (fst (bt_snapshots tr ! i)) = i
      \<and> bs_manifest (fst (bt_snapshots tr ! i)) = snapshot_path i"
    using recorder_okD(3) [OF assms(1)] by (simp add: captures_ok_def Let_def)
  with Some recorder_okD(3) [OF assms(1)] commit_room [OF assms] check_recordedD(1,8) [OF assms(2)] show ?thesis
    by (auto simp: captures_ok_def Let_def committed_simps [OF assms] added_snapshots_def list_all_iff sorted_wrt_append
        nth_append less_Suc_eq)
qed

lemma f64_eq_sym: "f64_eq a b = f64_eq b a"
  by (auto simp: f64_eq_def)

lemma pairwise_unique:
  assumes "sorted_wrt (\<lambda>a b. \<not> f64_eq a b) ts" "a \<in> set ts" "b \<in> set ts" "f64_eq a b"
  shows "a = b"
  using assms by (induction ts) (auto simp: f64_eq_sym)

lemma claimed_threshold:
  assumes "claims_ok tr" "t \<in> set (bt_reached tr)"
  shows "t \<in> set (thresholds (sb_policy (bt_profile tr)))"
  using assms by (auto simp: claims_ok_def Let_def list_all_iff)

lemma first_crossing_append:
  "first_crossing policy points i t \<Longrightarrow> first_crossing policy (points @ more_points) i t"
  by (simp add: first_crossing_def nth_append)

lemma commit_claims_ok:
  assumes "recorder_ok X tr" "check_recorded X tr c"
  shows "claims_ok (committed c tr)"
proof -
  let ?policy = "sb_policy (bt_profile tr)" let ?p = "rc_point c"
  note claims = recorder_okD(4) [OF assms(1)]
  have valid: "list_all f64_is_finite (thresholds ?policy)" "sorted_wrt (\<lambda>a b. \<not> f64_eq a b) (thresholds ?policy)"
    using valid_thresholds recorder_okD(1) [OF assms(1)] by (simp_all add: profile_valid_def)
  note crossed = check_recordedD(5) [OF assms(2)]
  have refl: "f64_eq t t" if "t \<in> set (thresholds ?policy)" for t
    using valid(1) that by (simp add: list_all_iff f64_eq_finite)
  have complete: "t \<in> set (bt_reached tr)"
    if "t \<in> set (thresholds ?policy)" "q \<in> set (bt_points tr)" "point_reaches ?policy q t" for t q
    using claims that by (auto simp: claims_ok_def Let_def)
  have fresh: "\<not> list_ex (\<lambda>q. point_reaches ?policy q t) (bt_points tr)" if "t \<in> set (rc_crossed c)" for t
    using that complete refl crossed by (auto simp: list_ex_iff)
  have reached: "bt_reached (committed c tr) = concat (map (bs_thresholds \<circ> fst) (bt_snapshots (committed c tr)))"
    using claims added_none [OF assms(2)]
    by (cases "rc_captured c") (simp_all add: claims_ok_def Let_def committed_simps [OF assms] added_snapshots_def comp_def)
  have old: "list_all (\<lambda>s. list_all (\<lambda>t. t \<in> set (thresholds ?policy)
      \<and> first_crossing ?policy (bt_points tr @ [?p]) (bs_trace_index (fst s)) t) (bs_thresholds (fst s))) (bt_snapshots tr)"
    using claims by (auto simp: claims_ok_def Let_def list_all_iff first_crossing_append)
  have added: "list_all (\<lambda>s. list_all (\<lambda>t. t \<in> set (thresholds ?policy)
      \<and> first_crossing ?policy (bt_points tr @ [?p]) (bs_trace_index (fst s)) t) (bs_thresholds (fst s))) (added_snapshots tr c)"
    using crossed fresh by (auto simp: added_snapshots_def list_all_iff first_crossing_def split: option.splits)
  have distinct: "sorted_wrt (\<lambda>a b. \<not> f64_eq a b) (bt_reached tr @ rc_crossed c)"
  proof -
    have "sorted_wrt (\<lambda>a b. \<not> f64_eq a b) (bt_reached tr)" using claims unfolding claims_ok_def Let_def by blast
    moreover have "\<not> f64_eq a b" if "a \<in> set (bt_reached tr)" "b \<in> set (rc_crossed c)" for a b
      using that crossed f64_eq_sym [of a b] by (auto simp: list_ex_iff)
    ultimately show ?thesis using valid(2) crossed by (simp add: sorted_wrt_append sorted_wrt_filter)
  qed
  have "t \<in> set (bt_reached tr @ rc_crossed c)"
    if t: "t \<in> set (thresholds ?policy)" and q: "q \<in> set (bt_points tr @ [?p])" "point_reaches ?policy q t" for t q
  proof (cases "q \<in> set (bt_points tr)")
    case True
    with complete t q show ?thesis by simp
  next
    case False
    with q have p: "point_reaches ?policy ?p t" by auto
    show ?thesis
    proof (cases "list_ex (f64_eq t) (bt_reached tr)")
      case True
      then obtain r where "r \<in> set (bt_reached tr)" "f64_eq t r" by (auto simp: list_ex_iff)
      with claimed_threshold [OF claims] pairwise_unique [OF valid(2) t] show ?thesis by auto
    next
      case False
      with p t crossed show ?thesis by simp
    qed
  qed
  with reached old added distinct show ?thesis
    unfolding claims_ok_def Let_def committed_simps [OF assms] map_map
    by (intro conjI ballI impI) (simp_all add: comp_def list.pred_map)
qed

lemma snapshots_below:
  "captures_ok tr \<Longrightarrow> s \<in> set (bt_snapshots tr) \<Longrightarrow> bs_trace_index (fst s) < length (bt_points tr)"
  by (auto simp: captures_ok_def Let_def list_all_iff)

lemma commit_bytes_ok:
  assumes "rfc8785 X" "recorder_ok X tr" "check_recorded X tr c"
  shows "bytes_ok X (committed c tr)"
proof -
  let ?P = "bt_profile tr" let ?n = "length (bt_points tr)"
  note simps = committed_simps [OF assms(2,3)]
  note bytes = recorder_okD(5) [OF assms(2)] and below = snapshots_below [OF recorder_okD(3) [OF assms(2)]]
  have len: "point_len X (rc_point c) = length (rc_encoded c)"
    using check_recordedD(6) [OF assms(3)] by (simp add: point_len_def)
  have trace: "bt_trace_bytes tr = points_len X (bt_points tr)"
    using bytes check_recordedD(1) [OF assms(3)] by (simp add: bytes_ok_def)
  have old: "reserve_kept X ?P (bt_points tr @ [rc_point c]) (bt_snapshots tr @ added_snapshots tr c) i"
    if "i < ?n" for i
  proof -
    have "\<not> tp_terminal (bt_points tr ! i)"
      using regular_points [OF recorder_okD(2) [OF assms(2)] check_recordedD(1) [OF assms(3)]] that
      by (simp add: list_all_length)
    with bytes that have "reserve_kept X ?P (bt_points tr) (bt_snapshots tr) i" by (simp add: bytes_ok_def)
    moreover have "snapshots_upto i (bt_snapshots tr @ added_snapshots tr c) = snapshots_upto i (bt_snapshots tr)"
      using that by (simp add: snapshots_upto_def added_snapshots_def split: option.splits)
    ultimately show ?thesis
      using that reserve_kept_cong [of i "bt_points tr @ [rc_point c]" "bt_points tr"
        "bt_snapshots tr @ added_snapshots tr c" "bt_snapshots tr" X ?P] by simp
  qed
  have new_kept: "reserve_kept X ?P (bt_points tr @ [rc_point c]) (bt_snapshots tr @ added_snapshots tr c) ?n"
    if "rc_reason c = None"
  proof -
    from check_recordedD(10) [OF assms(3) that] obtain size_bytes where est:
      "estimated_bytes X tr (length (rc_encoded c) + 1) (rc_captured c) = Inr size_bytes"
      "size_bytes \<le> pp_max_buffer_bytes (sb_policy ?P) - pp_terminal_reserve_bytes (sb_policy ?P)" by blast
    have "snapshots_upto ?n (bt_snapshots tr @ added_snapshots tr c) = bt_snapshots tr @ added_snapshots tr c"
      using below by (auto simp: snapshots_upto_def added_snapshots_def less_imp_le intro!: filter_True split: option.splits)
    with estimated_stopped [OF assms(1) est(1) recorder_okD(1) [OF assms(2)] refl check_recordedD(5) [OF assms(3)]]
      est(2) bytes trace len show ?thesis
      by (auto simp: reserve_kept_def bytes_ok_def points_len_snoc data_len_def algebra_simps)
  qed
  show ?thesis
    using old new_kept bytes trace len check_recordedD(4) [OF assms(3)]
    by (auto simp: bytes_ok_def simps points_len_snoc data_len_def nth_append less_Suc_eq)
qed

text \<open>The capture that makes the observation count of a stop reason exact.\<close>

lemma commit_recorder_ok:
  assumes "rfc8785 X" "recorder_ok X tr" "check_recorded X tr c"
  shows "recorder_ok X (committed c tr)"
proof -
  note simps = committed_simps [OF assms(2,3)]
  have "finish_ok (committed c tr)"
    using recorder_okD(6) [OF assms(2)] check_recordedD(1,2) [OF assms(3)] by (simp add: finish_ok_def simps)
  moreover have "reason_ok (sb_policy (bt_profile tr)) (bt_points tr @ [rc_point c])
      (length (bt_snapshots tr @ added_snapshots tr c)) r" if "rc_reason c = Some r" for r
    using check_recordedD(7) [OF assms(3)] check_recordedD(11) [OF assms(3) that] that
    by (auto simp: added_snapshots_def split: option.splits)
  ultimately show ?thesis
    using recorder_okD(1) [OF assms(2)] commit_trace_ok [OF assms(2,3)] commit_captures_ok [OF assms(2,3)]
      commit_claims_ok [OF assms(2,3)] commit_bytes_ok [OF assms]
    by (auto simp: recorder_ok_def simps split: option.splits)
qed

lemma evaluate_check_recorded:
  assumes "recorder_ok X tr" "check_env_ok E" "keys_sorted (pr_work progress)"
    and "evaluate_check X E progress terminal tr = Inr (Some c)"
  shows "check_recorded X tr c"
proof -
  from assms(4) obtain active where "admit_check progress tr = Inr ()" "active_time_ns (sb_policy (bt_profile tr)) = Inr active"
    "terminal \<or> ce_first E \<ge> active \<or> expected_check tr = Some (pr_check_index progress)"
    "measure_check X E progress terminal active tr = Inr c"
    by (auto simp: evaluate_check_def split: if_splits)
  from measure_check_recorded [OF assms(1-3) this] show ?thesis .
qed

text \<open>A check never fails once it has changed the collector.\<close>

lemma check_cases:
  assumes "rfc8785 X" "recorder_ok X tr" "check_env_ok E" "keys_sorted (pr_work progress)"
  obtains (failed) e where "check X E progress terminal tr = (Inl e, tr)"
    | (skipped) "check X E progress terminal tr = (Inr ContinueRecording, tr)" "\<not> terminal"
    | (recorded) c where "check X E progress terminal tr
        = (Inr (case rc_reason c of None \<Rightarrow> ContinueRecording | Some r \<Rightarrow> StopRecording r), committed c tr)"
        "check_recorded X tr c" "evaluate_check X E progress terminal tr = Inr (Some c)"
proof (cases "evaluate_check X E progress terminal tr")
  case (Inl e)
  with failed show thesis by (simp add: check_def)
next
  case (Inr r)
  show thesis
  proof (cases r)
    case None
    with Inr have "\<not> terminal" by (auto simp: evaluate_check_def split: if_splits)
    with Inr None skipped show thesis by (simp add: check_def)
  next
    case (Some c)
    with Inr have c: "check_recorded X tr c" using evaluate_check_recorded assms(2-4) by blast
    with Inr Some recorded [OF _ c] commit_check_eq [OF commit_room [OF assms(2) c], of c] show thesis
      by (simp add: check_def committed_def)
  qed
qed

lemma check_keeps:
  assumes "rfc8785 X" "recorder_ok X tr" "check_env_ok E" "keys_sorted (pr_work progress)"
  shows "recorder_ok X (snd (check X E progress terminal tr))
    \<and> bt_profile (snd (check X E progress terminal tr)) = bt_profile tr"
  by (cases rule: check_cases [OF assms, of terminal])
    (use assms(1,2) commit_recorder_ok committed_simps(1) in auto)

end
