(* ===== verification/Buffer_Finish.thy ===== *)
theory Buffer_Finish
  imports Buffer_Steps
begin

text \<open>Finishing keeps the invariant, so every reachable collector satisfies it.\<close>

definition settled :: "buffered_trace \<Rightarrow> buffered_trace" where
  "settled tr = tr\<lparr>bt_points := butlast (bt_points tr) @ [(last (bt_points tr))\<lparr>tp_terminal := True\<rparr>]\<rparr>"

definition closed_at :: "u64 \<Rightarrow> buffered_trace \<Rightarrow> buffered_trace" where
  "closed_at total_ns tr =
     tr\<lparr>bt_stopped := Some (case bt_stopped tr of None \<Rightarrow> ImplementationStopped | Some r \<Rightarrow> r), bt_total := total_ns\<rparr>"

lemma closed_at_simps [simp]:
  "bt_profile (closed_at t tr) = bt_profile tr" "bt_points (closed_at t tr) = bt_points tr"
  "bt_snapshots (closed_at t tr) = bt_snapshots tr" "bt_reached (closed_at t tr) = bt_reached tr"
  "bt_trace_bytes (closed_at t tr) = bt_trace_bytes tr" "bt_snapshot_bytes (closed_at t tr) = bt_snapshot_bytes tr"
  "bt_finished (closed_at t tr) = bt_finished tr" "bt_adopted (closed_at t tr) = bt_adopted tr"
  "bt_total (closed_at t tr) = t"
  "bt_stopped (closed_at t tr) = Some (case bt_stopped tr of None \<Rightarrow> ImplementationStopped | Some r \<Rightarrow> r)"
  by (simp_all add: closed_at_def)

lemma settled_simps [simp]:
  "bt_profile (settled tr) = bt_profile tr"
  "bt_snapshots (settled tr) = bt_snapshots tr" "bt_reached (settled tr) = bt_reached tr"
  "bt_trace_bytes (settled tr) = bt_trace_bytes tr" "bt_snapshot_bytes (settled tr) = bt_snapshot_bytes tr"
  "bt_finished (settled tr) = bt_finished tr" "bt_adopted (settled tr) = bt_adopted tr"
  "bt_stopped (settled tr) = bt_stopped tr"
  by (simp_all add: settled_def)

lemma add_snapshot_simps [simp]:
  "bt_profile (add_snapshot i ts d tr) = bt_profile tr" "bt_points (add_snapshot i ts d tr) = bt_points tr"
  "bt_reached (add_snapshot i ts d tr) = bt_reached tr"
  "bt_trace_bytes (add_snapshot i ts d tr) = bt_trace_bytes tr"
  "bt_finished (add_snapshot i ts d tr) = bt_finished tr" "bt_adopted (add_snapshot i ts d tr) = bt_adopted tr"
  "bt_stopped (add_snapshot i ts d tr) = bt_stopped tr"
  by (simp_all add: add_snapshot_def Let_def)

lemma closed_stopped:
  assumes "recorder_ok X tr" "bt_stopped tr \<noteq> None" "\<not> bt_finished tr"
  shows "recorder_ok X (closed_at t tr)"
  using assms
  by (auto simp: recorder_ok_def trace_ok_def captures_ok_def claims_ok_def bytes_ok_def finish_ok_def Let_def)

lemma settled_stopped: "trace_ok tr \<Longrightarrow> bt_points tr \<noteq> [] \<Longrightarrow> bt_stopped tr \<noteq> None \<Longrightarrow> settled tr = tr"
proof -
  assume t: "trace_ok tr" "bt_points tr \<noteq> []" "bt_stopped tr \<noteq> None"
  then have "(last (bt_points tr))\<lparr>tp_terminal := True\<rparr> = last (bt_points tr)"
    by (cases "last (bt_points tr)") (simp add: trace_ok_def)
  with t(2) show "settled tr = tr" by (cases tr) (simp add: settled_def)
qed

lemma first_crossing_metrics:
  assumes "map tp_metrics ps = map tp_metrics qs"
  shows "first_crossing policy ps i t = first_crossing policy qs i t"
proof -
  have len: "length ps = length qs" using assms by (metis length_map)
  have same: "point_reaches policy (ps ! j) t = point_reaches policy (qs ! j) t" if "j < length qs" for j
    using that len arg_cong [OF assms, of "\<lambda>xs. xs ! j"] by (simp add: point_reaches_def point_metric_def)
  then show ?thesis
    by (auto simp: first_crossing_def list_ex_length len)
qed

text \<open>The last point of a collector that has not stopped becomes the terminal one.\<close>

lemma close_regular:
  assumes ok: "recorder_ok X tr" and running: "bt_stopped tr = None" "\<not> bt_finished tr"
    and points: "bt_points tr = ps @ [p]"
    and tr': "tr' = tr\<lparr>bt_snapshots := bt_snapshots tr @ extra, bt_snapshot_bytes := bt_snapshot_bytes tr + data_len extra\<rparr>"
    and extra: "extra = [] \<and> bt_snapshots tr \<noteq> [] \<and> bs_trace_index (fst (last (bt_snapshots tr))) = length ps
      \<or> pp_metric (sb_policy (bt_profile tr)) \<noteq> None
        \<and> list_all (\<lambda>s. bs_trace_index (fst s) < length ps) (bt_snapshots tr)
        \<and> (\<exists>d. extra = [(\<lparr>bs_ordinal = length (bt_snapshots tr), bs_trace_index = length ps, bs_thresholds = [],
            bs_manifest = snapshot_path (length (bt_snapshots tr))\<rparr>, d)])"
  shows "recorder_ok X (closed_at t (settled tr'))"
proof -
  let ?P = "bt_profile tr" let ?q = "p\<lparr>tp_terminal := True\<rparr>"
  have eq: "bt_points (settled tr') = ps @ [?q]" "bt_snapshots tr' = bt_snapshots tr @ extra"
    "bt_profile tr' = ?P" "bt_reached tr' = bt_reached tr" "bt_stopped tr' = None"
    "bt_finished tr' = False" "bt_adopted tr' = bt_adopted tr"
    "bt_snapshot_bytes tr' = bt_snapshot_bytes tr + data_len extra"
    using running points by (simp_all add: settled_def tr')
  note parts = recorder_okD [OF ok]
  have reg: "list_all (\<lambda>p. \<not> tp_terminal p) ps" "\<not> tp_terminal p"
    using regular_points [OF parts(2) running(1)] points by auto
  have metrics: "map tp_metrics (ps @ [?q]) = map tp_metrics (ps @ [p])" by simp
  have "point_ok ?P before ?q" if "point_ok ?P before p" for before
    using that reg(2)
    by (auto simp: point_ok_def point_expected_def point_regresses_def split: option.splits)
  then have trace: "trace_ok (closed_at t (settled tr'))"
    using parts(2) points reg(1) by (auto simp: trace_ok_def eq chain_snoc)
  have captures: "captures_ok (closed_at t (settled tr'))"
    using extra
  proof
    assume "extra = [] \<and> bt_snapshots tr \<noteq> [] \<and> bs_trace_index (fst (last (bt_snapshots tr))) = length ps"
    then show ?thesis using parts(3) points by (auto simp: captures_ok_def Let_def eq last_map)
  next
    assume "pp_metric (sb_policy ?P) \<noteq> None \<and> list_all (\<lambda>s. bs_trace_index (fst s) < length ps) (bt_snapshots tr)
        \<and> (\<exists>d. extra = [(\<lparr>bs_ordinal = length (bt_snapshots tr), bs_trace_index = length ps, bs_thresholds = [],
            bs_manifest = snapshot_path (length (bt_snapshots tr))\<rparr>, d)])"
    then show ?thesis using parts(3) points running(1)
      by (auto simp: captures_ok_def Let_def eq sorted_wrt_append list_all_iff nth_append less_Suc_eq)
  qed
  have claims: "claims_ok (closed_at t (settled tr'))"
    using parts(4) extra points first_crossing_metrics [OF metrics]
    by (auto simp: claims_ok_def Let_def eq list_all_iff point_reaches_def point_metric_def)
  have bytes: "bytes_ok X (closed_at t (settled tr'))"
  proof -
    have "reserve_kept X ?P (ps @ [?q]) (bt_snapshots tr @ extra) i" if "i < length ps" for i
    proof -
      have "snapshots_upto i (bt_snapshots tr @ extra) = snapshots_upto i (bt_snapshots tr)"
        using that extra by (auto simp: snapshots_upto_def)
      with that have "reserve_kept X ?P (ps @ [?q]) (bt_snapshots tr @ extra) i = reserve_kept X ?P (ps @ [p]) (bt_snapshots tr) i"
        by (intro reserve_kept_cong) simp_all
      moreover have "\<not> tp_terminal ((ps @ [p]) ! i)" using that reg(1) by (simp add: list_all_length nth_append)
      ultimately show ?thesis using parts(5) points that by (auto simp: bytes_ok_def)
    qed
    with parts(5) show ?thesis by (auto simp: bytes_ok_def eq data_len_def nth_append less_Suc_eq)
  qed
  show ?thesis
    using parts(1,6) trace captures claims bytes
    by (auto simp: recorder_ok_def finish_ok_def eq reason_ok_def)
qed

lemma conclude_finish_cases:
  assumes "bt_points tr \<noteq> []"
  shows "snd (conclude_finish total_ns tr) = (if total_ns > MAX_SAFE_INTEGER \<or> total_ns < tp_time_ns (last (bt_points tr))
    then closed_at total_ns tr else (closed_at total_ns tr)\<lparr>bt_finished := True\<rparr>)"
  using assms by (simp add: conclude_finish_def closed_at_def last_point_def Let_def)

lemma finished_ok:
  assumes "recorder_ok X (closed_at t tr)" "t \<le> MAX_SAFE_INTEGER" "tp_time_ns (last (bt_points tr)) \<le> t"
  shows "recorder_ok X ((closed_at t tr)\<lparr>bt_finished := True\<rparr>)"
  using assms
  by (auto simp: recorder_ok_def trace_ok_def captures_ok_def claims_ok_def bytes_ok_def finish_ok_def Let_def)

lemma conclude_ok:
  assumes "recorder_ok X (closed_at total_ns tr)" "bt_points tr \<noteq> []"
  shows "recorder_ok X (snd (conclude_finish total_ns tr)) \<and> bt_profile (snd (conclude_finish total_ns tr)) = bt_profile tr"
  using assms finished_ok by (auto simp: conclude_finish_cases)

lemma settle_cases:
  assumes "recorder_ok X tr" "\<not> bt_finished tr" "last_point tr = Some p" "finish_last X E progress p tr = (Inr (), tr')"
  shows "recorder_ok X (closed_at t tr') \<and> bt_points tr' \<noteq> [] \<and> bt_profile tr' = bt_profile tr"
proof -
  note parts = recorder_okD [OF assms(1)]
  from assms(3) obtain ps where points: "bt_points tr = ps @ [p]"
    by (cases "bt_points tr" rule: rev_cases) (auto simp: last_point_def)
  show ?thesis
  proof (cases "bt_snapshots tr = [] \<or> bs_trace_index (fst (last (bt_snapshots tr))) \<noteq> length ps")
    case False
    with assms(4) points have tr': "tr' = settled tr"
      by (auto simp: finish_last_def settled_def Let_def split: if_splits)
    show ?thesis
    proof (cases "bt_stopped tr")
      case None
      have "recorder_ok X (closed_at t (settled tr))"
        using close_regular [OF assms(1) None assms(2) points, of tr "[]" t] False by (simp add: data_len_def)
      with tr' points show ?thesis by (simp add: settled_def)
    next
      case (Some r)
      then show ?thesis
        using closed_stopped [OF assms(1) _ assms(2)] settled_stopped [OF parts(2)] tr' points by simp
    qed
  next
    case True
    then have running: "bt_stopped tr = None"
      using parts(3) points by (auto simp: captures_ok_def Let_def last_map)
    from True assms(4) points obtain d where d: "tr' = settled (add_snapshot (length ps) [] d tr)"
      by (auto simp: finish_last_def settled_def Let_def split: if_splits sum.splits)
    have below: "list_all (\<lambda>s. bs_trace_index (fst s) < length ps) (bt_snapshots tr)"
    proof (cases "bt_snapshots tr" rule: rev_cases)
      case (snoc ss s)
      with parts(3) points True show ?thesis
        by (fastforce simp: captures_ok_def Let_def sorted_wrt_append list_all_iff)
    qed simp
    have "pp_metric (sb_policy (bt_profile tr)) \<noteq> None"
    proof
      assume "pp_metric (sb_policy (bt_profile tr)) = None"
      with parts(3) points have "map bs_trace_index (map fst (bt_snapshots tr)) = [0..<length ps] @ [length ps]"
        by (simp add: captures_ok_def Let_def)
      then have "last (map bs_trace_index (map fst (bt_snapshots tr))) = length ps \<and> bt_snapshots tr \<noteq> []" by auto
      with True show False by (auto simp: last_map)
    qed
    with below have "recorder_ok X (closed_at t (settled (add_snapshot (length ps) [] d tr)))"
      by (intro close_regular [OF assms(1) running assms(2) points, where extra = "[(\<lparr>bs_ordinal = length (bt_snapshots tr),
          bs_trace_index = length ps, bs_thresholds = [], bs_manifest = snapshot_path (length (bt_snapshots tr))\<rparr>, d)]"])
        (auto simp: add_snapshot_def Let_def data_len_def)
    with d show ?thesis by (simp add: settled_def)
  qed
qed

lemma finish_last_error: "finish_last X E progress p tr = (Inl e, tr') \<Longrightarrow> tr' = tr"
  by (auto simp: finish_last_def Let_def split: if_splits sum.splits)

lemma terminal_check_points:
  assumes "rfc8785 X" "recorder_ok X tr" "check_env_ok E" "keys_sorted (pr_work progress)"
    and "check X E progress True tr = (Inr d, tr')"
  shows "bt_stopped tr' \<noteq> None \<and> bt_points tr' \<noteq> [] \<and> \<not> bt_finished tr'"
proof -
  from check_cases [OF assms(1-4), of True] assms(5) obtain c where recorded: "tr' = committed c tr"
    "check_recorded X tr c" "evaluate_check X E progress True tr = Inr (Some c)" by (metis Pair_inject sum.distinct(1))
  have "rc_reason c \<noteq> None"
  proof
    assume none: "rc_reason c = None"
    from recorded(3) obtain active where "measure_check X E progress True active tr = Inr c"
      by (auto simp: evaluate_check_def split: if_splits)
    then obtain target crossed point where
      "encode_check X E tr point crossed (capture_decision tr crossed
         (stop_reason_of (sb_policy (bt_profile tr)) target True (ce_second E) active (length (bt_points tr)))) = Inr c"
      by (auto simp: measure_check_def Let_def split: if_splits)
    moreover define reason where
      "reason = stop_reason_of (sb_policy (bt_profile tr)) target True (ce_second E) active (length (bt_points tr))"
    moreover have "reason \<noteq> None" by (simp add: reason_def stop_reason_of_def)
    moreover from this have "snd (capture_decision tr crossed reason) = reason" by (simp add: capture_decision_def Let_def)
    ultimately obtain cap where "encode_check X E tr point crossed (cap, reason) = Inr c" "reason \<noteq> None"
      by (metis prod.collapse)
    from encode_check_Ok(4) [OF this(1)] this(2) none show False by auto
  qed
  with recorded(1,2) check_recordedD(2) [OF recorded(2)] committed_simps [OF assms(2) recorded(2)]
  show ?thesis by auto
qed

lemma finish_keeps:
  assumes "rfc8785 X" "recorder_ok X tr" "check_env_ok E" "keys_sorted (pr_work progress)"
  shows "recorder_ok X (snd (finish X E total_ns progress tr)) \<and> bt_profile (snd (finish X E total_ns progress tr)) = bt_profile tr"
proof (cases "bt_finished tr \<or> bt_adopted tr \<noteq> None")
  case True
  with assms(2) show ?thesis by (simp add: finish_def)
next
  case False
  have terminal: ?thesis
    if "finish X E total_ns progress tr = (case check X E progress True tr of
        (Inl e, tr) \<Rightarrow> (Inl e, tr) | (Inr _, tr) \<Rightarrow> conclude_finish total_ns tr)"
  proof (cases "check X E progress True tr")
    case (Pair r tr')
    note kept = check_keeps [OF assms, of True, unfolded Pair snd_conv]
    show ?thesis
    proof (cases r)
      case (Inr d)
      with terminal_check_points [OF assms] Pair
      have t: "bt_stopped tr' \<noteq> None" "bt_points tr' \<noteq> []" "\<not> bt_finished tr'" by auto
      from conclude_ok [OF closed_stopped [OF _ t(1,3)] t(2)] kept have "recorder_ok X (snd (conclude_finish total_ns tr'))
          \<and> bt_profile (snd (conclude_finish total_ns tr')) = bt_profile tr" by fastforce
      with that Pair Inr show ?thesis by simp
    qed (use that Pair kept in simp)
  qed
  show ?thesis
  proof (cases "last_point tr")
    case None
    with False terminal show ?thesis by (auto simp: finish_def split: prod.splits sum.splits)
  next
    case (Some p)
    show ?thesis
    proof (cases "tp_check_index p = pr_check_index progress")
      case True
      show ?thesis
      proof (cases "finish_last X E progress p tr")
        case (Pair r tr')
        then show ?thesis
        proof (cases r)
          case (Inl e)
          with False Some True Pair finish_last_error [of X E progress p tr e tr'] assms(2) show ?thesis
            by (simp add: finish_def)
        next
          case (Inr u)
          with False Pair settle_cases [OF assms(2) _ Some, of E progress tr' total_ns]
          have settled: "recorder_ok X (closed_at total_ns tr')" "bt_points tr' \<noteq> []" "bt_profile tr' = bt_profile tr" by auto
          from conclude_ok [OF settled(1,2)] settled(3) False Some True Pair Inr show ?thesis
            by (simp add: finish_def)
        qed
      qed
    next
      case neq: False
      with False Some terminal show ?thesis by (auto simp: finish_def split: prod.splits sum.splits)
    qed
  qed
qed

lemma check_env_metrics: "check_env_ok E \<Longrightarrow> json_wf v \<Longrightarrow> check_env_ok (E\<lparr>ce_metrics := Some v\<rparr>)"
  by (simp add: check_env_ok_def)

lemma recorded_ok:
  assumes "rfc8785 X" "recorded X P tr"
  shows "recorder_ok X tr \<and> bt_profile tr = P"
  using assms(2)
proof induction
  case (recorded_new tr)
  then show ?case by (rule recorder_ok_new)
qed (use check_keeps [OF assms(1)] finish_keeps [OF assms(1)] check_env_metrics in
  \<open>auto simp: observe_def record_metrics_def\<close>)

end
