(* ===== verification/Buffer_Files.thy ===== *)
theory Buffer_Files
  imports Buffer_Finish
begin

text \<open>The files of a written buffer as the executor finds them: paths, inventory, header and hashes.\<close>

section \<open>Paths\<close>

lemma dec_string_plain: "\<not> is_ascii_digit c \<Longrightarrow> c \<notin> set (dec_string n)"
  using dec_string_digits [of n] by (auto simp: list_all_iff)

lemma not_digit: "\<not> is_ascii_digit (CHR ''/'')" "\<not> is_ascii_digit (CHR 0x5C)" "\<not> is_ascii_digit (CHR 0x00)"
  "\<not> is_ascii_digit (CHR '':'')" "\<not> is_ascii_digit (CHR ''.'')"
  by code_simp+

lemma snapshot_split: "str_split (CHR ''/'') (snapshot_path i) = [''snapshots'', dec_string i, ''result.json'']"
proof -
  have path: "snapshot_path i = ''snapshots'' @ CHR ''/'' # (dec_string i @ CHR ''/'' # ''result.json'')"
    by (simp add: snapshot_path_def)
  have plain: "CHR ''/'' \<notin> set ''snapshots''" "CHR ''/'' \<notin> set ''result.json''" by simp_all
  show ?thesis
    unfolding path str_split_append [OF plain(1)] str_split_append [OF dec_string_plain [OF not_digit(1)]]
      str_split_plain [OF plain(2)] ..
qed

lemma dec_not_dots: "dec_string i \<noteq> ''.''" "dec_string i \<noteq> ''..''"
  using dec_string_plain [OF not_digit(5), of i] by auto

lemma snapshot_components: "path_components (snapshot_path i) = [''snapshots'', dec_string i, ''result.json'']"
  by (simp add: path_components_def snapshot_split dec_not_dots)

lemma snapshot_safe: "safe_path (snapshot_path i)"
  using dec_string_plain [of _ i] not_digit dec_not_dots
  by (simp add: safe_path_def snapshot_split) (simp add: snapshot_path_def)

lemma plain_paths: "safe_path ''trace.jsonl''" "safe_path ''buffer.json''"
  "path_components ''trace.jsonl'' = [''trace.jsonl'']"
  by code_simp+

lemma snapshot_inject [simp]: "snapshot_path i = snapshot_path j \<longleftrightarrow> i = j"
  by (simp add: snapshot_path_def)

lemma snapshot_not_plain [simp]: "snapshot_path i \<noteq> ''trace.jsonl''" "snapshot_path i \<noteq> ''buffer.json''"
  "''trace.jsonl'' \<noteq> snapshot_path i" "''buffer.json'' \<noteq> snapshot_path i"
  by (auto simp: snapshot_path_def)

lemma snapshot_parent: "parent_components (snapshot_path i) = Inr [''snapshots'', dec_string i]"
  by (simp add: parent_components_def snapshot_components)

lemma snapshot_below: "starts_with (snapshot_path i) [''snapshots'', dec_string j] \<longleftrightarrow> i = j"
  by (simp add: starts_with_def snapshot_components)

lemma trace_eq: "path_eq ''trace.jsonl'' ''trace.jsonl''" "\<not> path_eq (snapshot_path i) ''trace.jsonl''"
  by (simp_all add: path_eq_def plain_paths snapshot_components)

section \<open>Directories\<close>

text \<open>A directory that holds some files and nothing else.\<close>

definition holds_exactly :: "(string \<times> fs_entry) list \<Rightarrow> (string \<times> string) list \<Rightarrow> bool" where
  "holds_exactly tree files \<longleftrightarrow>
     (\<exists>actual. inventory_files [] tree [] = Inr actual \<and> distinct (map fst actual)
        \<and> set actual = set (map (\<lambda>(p, d). (p, length d)) files))
     \<and> (\<forall>(p, d) \<in> set files. read_buffer_file tree p = Inr d)"

lemma checked_total_sum: "acc + sum_list ns \<le> U64_MAX \<Longrightarrow> checked_total acc ns = Some (acc + sum_list ns)"
  by (induction ns arbitrary: acc) (auto simp: checked_add_def)

lemma declare_files_Ok:
  assumes "list_all (\<lambda>f. safe_path (bf_path f) \<and> map_of actual (bf_path f) = Some (bf_size f)
      \<and> (\<exists>d. read_buffer_file tree (bf_path f) = Inr d \<and> bf_sha256 f = hex (sha256 X d))) fs"
    and "distinct (map bf_path fs)" "set declared \<inter> bf_path ` set fs = {}"
  shows "declare_files X tree actual fs declared = Inr (declared @ map bf_path fs)"
  using assms
proof (induction fs arbitrary: declared)
  case (Cons f fs)
  then obtain d where "read_buffer_file tree (bf_path f) = Inr d" "bf_sha256 f = hex (sha256 X d)" by auto
  with Cons show ?case by (auto simp: buffer_file_of_def)
qed simp

section \<open>Written buffers\<close>

text \<open>What \<open>write_buffer\<close> wrote.\<close>

definition stored_files :: "buffered_trace \<Rightarrow> (string \<times> string) list" where
  "stored_files tr = map (\<lambda>(s, data). (bs_manifest s, data)) (bt_snapshots tr)"

lemma write_buffer_Ok:
  assumes "write_buffer X tr = Inr (path, files)" "finish_ok tr"
  obtains trace data reason lines where "path = ''buffer.json''"
    "files = (''trace.jsonl'', trace) # stored_files tr @ [(''buffer.json'', data)]" "bt_finished tr" "bt_stopped tr = Some reason"
    "list_all2 (\<lambda>p l. json_bytes X (trace_point_json p) = Inr l) (bt_points tr) lines"
    "trace = concat (map (\<lambda>l. l @ [CHR 0x0A]) lines)"
    "json_bytes X (buffered_manifest_json (manifest_of tr (bt_total tr) reason
       (map (\<lambda>(path, data). buffer_file_of X path data) ((''trace.jsonl'', trace) # stored_files tr)))) = Inr data"
    "length trace + bt_snapshot_bytes tr + length data \<le> pp_max_buffer_bytes (sb_policy (bt_profile tr))"
  using assms that
  by (auto simp: write_buffer_def trace_text_def Let_def finish_ok_def stored_files_def collect_results_Ok_iff
      split: if_splits)

lemma stored_paths:
  assumes "captures_ok tr"
  shows "map fst (stored_files tr) = map snapshot_path [0..<length (bt_snapshots tr)]"
  using assms by (auto simp: captures_ok_def Let_def stored_files_def case_prod_beta intro!: nth_equalityI)

lemma written_distinct:
  assumes "captures_ok tr"
  shows "distinct (map fst ((''trace.jsonl'', trace) # stored_files tr @ [(''buffer.json'', data)]))"
  using stored_paths [OF assms]
  by (auto simp: distinct_map inj_on_def)

lemma stored_len: "sum_list (map (length \<circ> snd) (stored_files tr)) = data_len (bt_snapshots tr)"
  by (simp add: stored_files_def data_len_def comp_def case_prod_beta)

lemma inventory_holds:
  assumes "holds_exactly tree files" "distinct (map fst files)"
    and "sum_list (map (length \<circ> snd) files) \<le> pp_max_buffer_bytes (sb_policy P)" "profile_valid P"
  obtains actual where "check_inventory P tree = Inr actual" "distinct (map fst actual)"
    "\<And>p. map_of actual p = map_option length (map_of files p)"
proof -
  from assms(1) obtain actual where actual: "inventory_files [] tree [] = Inr actual" "distinct (map fst actual)"
    "set actual = set (map (\<lambda>(p, d). (p, length d)) files)" by (auto simp: holds_exactly_def)
  let ?sizes = "map (\<lambda>(p, d). (p, length d)) files"
  have keys: "map fst ?sizes = map fst files" by (simp add: comp_def case_prod_beta)
  have "distinct actual" "distinct ?sizes" using actual(2) assms(2) keys by (metis distinct_map)+
  then have "mset actual = mset ?sizes" using actual(3) set_eq_iff_mset_eq_distinct by blast
  then have "mset (map snd actual) = mset (map (length \<circ> snd) files)"
    by (simp add: multiset.map_comp comp_def case_prod_beta)
  then have sum: "sum_list (map snd actual) = sum_list (map (length \<circ> snd) files)"
    using sum_mset_sum_list [of "map snd actual"] sum_mset_sum_list [of "map (length \<circ> snd) files"] by simp
  have "pp_max_buffer_bytes (sb_policy P) \<le> U64_MAX"
    using assms(4) MAX_SAFE_less_U64 by (auto simp: profile_valid_def validate_buffered_def split: if_splits)
  with sum assms(3) checked_total_sum [of 0 "map snd actual"]
  have "checked_total 0 (map snd actual) = Some (sum_list (map (length \<circ> snd) files))" by simp
  with actual(1) assms(3,4) have "check_inventory P tree = Inr actual"
    by (simp add: check_inventory_def profile_valid_def)
  moreover have "map_of actual = map_of ?sizes"
    using actual(2,3) keys assms(2) by (metis map_of_inject_set)
  then have "map_of actual p = map_option length (map_of files p)" for p
    by (simp add: map_of_map)
  ultimately show thesis using that actual(2) by blast
qed

end
