(* ===== verification/Buffer_Readback.thy ===== *)
theory Buffer_Readback
  imports Buffer_Files
begin

text \<open>The trace and the captures of a written buffer pass the executor's checks.\<close>

section \<open>The trace\<close>

lemma trace_lines_concat:
  assumes "list_all (\<lambda>l. l \<noteq> [] \<and> CHR 0x0A \<notin> set l) lines"
  shows "trace_lines (concat (map (\<lambda>l. l @ [CHR 0x0A]) lines)) = lines"
  using assms by (induction lines) (auto simp: trace_lines_def str_split_append)

lemma parse_points_Ok:
  assumes "list_all2 (\<lambda>p l. \<exists>w. canonical_from_slice (parse_json X) l = Inr w \<and> trace_point_from w = Inr (g p)) ps lines"
    and "length acc + length ps \<le> bound"
  shows "parse_points X bound lines acc = Inr (acc @ map g ps)"
  using assms by (induction ps lines arbitrary: acc rule: list_all2_induct) auto

definition step_ok :: "selected_buffered_profile \<Rightarrow> buffered_manifest \<Rightarrow> trace_point option \<Rightarrow> trace_point \<Rightarrow> bool" where
  "step_ok P m before p \<longleftrightarrow>
     \<not> point_invalid m (next_after (sb_check_schedule P) (map_option tp_check_index before)) p
     \<and> (case before of None \<Rightarrow> True | Some b \<Rightarrow> \<not> point_regresses b p)
     \<and> (case pp_metric (sb_policy P) of None \<Rightarrow> True | Some name \<Rightarrow> finite_metric (tp_metrics p) name \<noteq> None)
     \<and> (tp_terminal p \<or> (\<exists>active. active_time_ns (sb_policy P) = Inr active \<and> \<not> point_should_stop (sb_policy P) active p))"

lemma check_points_Ok:
  "chain (step_ok P m) before ps
   \<Longrightarrow> check_points P m before (next_after (sb_check_schedule P) (map_option tp_check_index before)) ps = Inr ()"
proof (induction ps arbitrary: before)
  case (Cons p ps)
  then have step: "step_ok P m before p" and rest: "chain (step_ok P m) (Some p) ps" by auto
  have "\<not> (case before of None \<Rightarrow> False | Some b \<Rightarrow> point_regresses b p)"
    "\<not> (case pp_metric (sb_policy P) of None \<Rightarrow> False | Some name \<Rightarrow> finite_metric (tp_metrics p) name = None)"
    using step by (auto simp: step_ok_def split: option.splits)
  with step Cons.IH [OF rest] show ?case by (auto simp: step_ok_def)
qed simp

lemma canon_point_simps [simp]:
  "tp_check_index (canon_point p) = tp_check_index p" "tp_work (canon_point p) = tp_work p"
  "tp_time_ns (canon_point p) = tp_time_ns p" "tp_terminal (canon_point p) = tp_terminal p"
  "tp_metrics (canon_point p) = canon_json (tp_metrics p)"
  by (simp_all add: canon_point_def)

lemma canon_json_norm: "metrics_ok policy v \<Longrightarrow> normalize_value v = Inr (canon_json v)"
  by (auto simp: metrics_ok_def canon_json_def)

lemma canon_point_reaches:
  assumes "metrics_ok policy (tp_metrics p)" "f64_is_finite t" "f64_is_finite t'" "f64_rat t = f64_rat t'"
  shows "point_reaches policy (canon_point p) t' = point_reaches policy p t"
proof (cases "pp_metric policy")
  case (Some name)
  let ?m = "\<lambda>v. Option.bind (value_get v name) value_as_f64"
  have "same_number (?m (tp_metrics p)) (?m (canon_json (tp_metrics p)))"
    by (rule metric_norm) (rule canon_json_norm [OF assms(1)])
  then have "rel_option (\<lambda>x y. reaches policy y t' = reaches policy x t) (?m (tp_metrics p)) (?m (canon_json (tp_metrics p)))"
    unfolding same_number_def using reaches_cong [where t = t and t' = t'] assms(2-4) by (auto elim!: option.rel_mono_strong)
  with Some show ?thesis
    by (auto simp: point_reaches_def point_metric_def elim!: option.rel_cases)
qed (simp add: point_reaches_def point_metric_def)

lemma canon_finite_metric:
  assumes "metrics_ok policy v"
  shows "finite_metric (canon_json v) name = None \<longleftrightarrow> finite_metric v name = None"
  using metric_norm [OF canon_json_norm [OF assms], of name] finite_metric_eq [OF canon_json_norm [OF assms], of name]
  by (auto simp: same_number_def elim!: option.rel_cases)

lemma canon_is_object:
  assumes "metrics_ok policy v"
  shows "is_object (canon_json v)"
proof -
  from assms obtain m where v: "v = JObject m" by (cases v) (auto simp: metrics_ok_def)
  have "is_object w" if "normalize_value (JObject m) = Inr w" for w using that by auto
  with canon_json_norm [OF assms] v show ?thesis by simp
qed

lemma point_step:
  assumes "point_ok P before p" "tp_time_ns p \<le> bm_total_ns m" "active_time_ns (sb_policy P) = Inr active"
    and "profile_valid P"
  shows "step_ok P m (map_option canon_point before) (canon_point p)"
proof -
  note metrics = assms(1) [unfolded point_ok_def, THEN conjunct2, THEN conjunct1]
  have idx: "map_option tp_check_index (map_option canon_point before) = map_option tp_check_index before"
    by (cases before) auto
  have stop: "point_should_stop (sb_policy P) active (canon_point p) = point_should_stop (sb_policy P) active p"
    using valid_target [of "sb_policy P"] assms(4) canon_point_reaches [OF metrics]
    by (auto simp: point_should_stop_def profile_valid_def split: option.splits)
  show ?thesis
    unfolding step_ok_def idx
  proof (intro conjI)
    show "\<not> point_invalid m (next_after (sb_check_schedule P) (map_option tp_check_index before)) (canon_point p)"
      using assms(1,2) canon_is_object [OF metrics]
      by (auto simp: point_ok_def point_invalid_def point_expected_def list_all_iff list_ex_iff split: option.splits if_splits)
    show "case map_option canon_point before of None \<Rightarrow> True | Some b \<Rightarrow> \<not> point_regresses b (canon_point p)"
      using assms(1) by (auto simp: point_ok_def point_regresses_def split: option.splits)
    show "case pp_metric (sb_policy P) of None \<Rightarrow> True | Some name \<Rightarrow> finite_metric (tp_metrics (canon_point p)) name \<noteq> None"
      using metrics canon_finite_metric [OF metrics] by (auto simp: metrics_ok_def split: option.splits)
    show "tp_terminal (canon_point p) \<or> (\<exists>active. active_time_ns (sb_policy P) = Inr active
        \<and> \<not> point_should_stop (sb_policy P) active (canon_point p))"
      using assms(1,3) stop by (auto simp: point_ok_def)
  qed
qed

lemma chain_times:
  assumes "chain (point_ok P) before ps" "p \<in> set ps"
  shows "tp_time_ns p \<le> tp_time_ns (last ps)"
  using assms
proof (induction ps arbitrary: before p)
  case (Cons q ps)
  show ?case
  proof (cases "ps = []")
    case False
    then obtain r rs where ps: "ps = r # rs" by (cases ps) auto
    have "tp_time_ns q \<le> tp_time_ns r" using Cons.prems(1) ps by (auto simp: point_ok_def point_regresses_def)
    moreover have later: "tp_time_ns x \<le> tp_time_ns (last ps)" if "x \<in> set ps" for x
      using Cons.IH [of "Some q" x] Cons.prems(1) that by simp
    then have "tp_time_ns r \<le> tp_time_ns (last ps)" using ps by simp
    ultimately show ?thesis using Cons.prems(2) later False by (auto intro: order_trans)
  qed (use Cons.prems in simp)
qed simp

lemma valid_active: "profile_valid P \<Longrightarrow> \<exists>active. active_time_ns (sb_policy P) = Inr active"
  by (auto simp: profile_valid_def validate_policy_def split: if_splits)

lemma trace_checks:
  assumes "profile_valid P" "trace_ok tr" "bt_profile tr = P" "bt_stopped tr \<noteq> None"
    and "tp_time_ns (last (bt_points tr)) \<le> bm_total_ns m"
  shows "check_trace P m (map canon_point (bt_points tr)) = Inr ()"
proof -
  have points: "bt_points tr \<noteq> []" "tp_terminal (last (bt_points tr))"
    "list_all (\<lambda>p. \<not> tp_terminal p) (butlast (bt_points tr))" "chain (point_ok P) None (bt_points tr)"
    using assms(2-4) by (auto simp: trace_ok_def)
  obtain active where active: "active_time_ns (sb_policy P) = Inr active" using valid_active assms(1) by blast
  have "chain (\<lambda>b p. point_ok P b p \<and> tp_time_ns p \<le> bm_total_ns m) None (bt_points tr)"
    using points(4) by (rule chain_weaken) (use chain_times [OF points(4)] assms(5) in \<open>auto intro: order_trans\<close>)
  from chain_map [OF this, of "step_ok P m" canon_point] point_step [OF _ _ active assms(1)]
  have "chain (step_ok P m) None (map canon_point (bt_points tr))" by simp
  from check_points_Ok [OF this] points show ?thesis
    by (auto simp: check_trace_def last_map list_ex_iff list_all_iff simp flip: map_butlast)
qed

section \<open>Captures\<close>

lemma canon_first_crossing:
  assumes "\<And>p. p \<in> set ps \<Longrightarrow> metrics_ok policy (tp_metrics p)" "f64_is_finite t" "first_crossing policy ps i t"
  shows "point_reaches policy (map canon_point ps ! i) (canon_f64 t)"
    and "\<not> list_ex (\<lambda>p. point_reaches policy p (canon_f64 t)) (take i (map canon_point ps))"
proof -
  have same: "point_reaches policy (canon_point p) (canon_f64 t) = point_reaches policy p t" if "p \<in> set ps" for p
    using canon_point_reaches [OF assms(1) [OF that] assms(2), of "canon_f64 t"] by simp
  show "point_reaches policy (map canon_point ps ! i) (canon_f64 t)"
    using assms(3) same by (auto simp: first_crossing_def)
  show "\<not> list_ex (\<lambda>p. point_reaches policy p (canon_f64 t)) (take i (map canon_point ps))"
    using assms(3) same by (auto simp: first_crossing_def list_ex_iff take_map dest: in_set_takeD)
qed

lemma canon_eq: "f64_is_finite t \<Longrightarrow> f64_eq (canon_f64 t) t"
  by (simp add: f64_eq_finite)

lemma canon_snapshot_simps [simp]:
  "bs_ordinal (canon_snapshot s) = bs_ordinal s" "bs_trace_index (canon_snapshot s) = bs_trace_index s"
  "bs_manifest (canon_snapshot s) = bs_manifest s" "bs_thresholds (canon_snapshot s) = map canon_f64 (bs_thresholds s)"
  by (simp_all add: canon_snapshot_def)

lemma check_claims_Ok:
  assumes metrics: "\<And>p. p \<in> set ps \<Longrightarrow> metrics_ok policy (tp_metrics p)"
    and finite: "list_all f64_is_finite (thresholds policy)"
    and claims: "list_all (\<lambda>t. t \<in> set (thresholds policy) \<and> first_crossing policy ps i t) ts"
    and distinct: "sorted_wrt (\<lambda>a b. \<not> f64_eq a b) (claimed @ ts)" "set claimed \<subseteq> set (thresholds policy)"
  shows "check_claims policy (map canon_point ps) i (map canon_f64 ts) (map canon_f64 claimed)
    = Inr (map canon_f64 (claimed @ ts))"
  using claims distinct
proof (induction ts arbitrary: claimed)
  case (Cons t ts)
  then have t: "t \<in> set (thresholds policy)" "first_crossing policy ps i t" "f64_is_finite t"
    using finite by (auto simp: list_all_iff)
  note cross = canon_first_crossing [OF metrics t(3,2)]
  have "\<not> list_ex (f64_eq (canon_f64 t)) (map canon_f64 claimed)"
    using Cons.prems(2,3) t(3) finite
    by (auto simp: list_ex_iff sorted_wrt_append list_all_iff) (metis canon_f64_simps f64_eq_finite subsetD)
  moreover have "list_ex (f64_eq (canon_f64 t)) (thresholds policy)" using t canon_eq by (auto simp: list_ex_iff)
  moreover have "check_claims policy (map canon_point ps) i (map canon_f64 ts) (map canon_f64 (claimed @ [t]))
      = Inr (map canon_f64 (claimed @ [t] @ ts))"
    using Cons.IH [of "claimed @ [t]"] Cons.prems t by simp
  ultimately show ?case using cross by simp
qed simp

lemma check_snapshots_Ok:
  assumes metrics: "\<And>p. p \<in> set ps \<Longrightarrow> metrics_ok policy (tp_metrics p)"
    and finite: "list_all f64_is_finite (thresholds policy)"
    and snaps: "\<forall>j < length ss. bs_ordinal (ss ! j) = i + j \<and> bs_trace_index (ss ! j) < length ps
        \<and> is_declared declared (bs_manifest (ss ! j))"
    and increasing: "sorted_wrt (<) (map bs_trace_index ss)"
      "\<forall>s \<in> set ss. \<forall>j \<in> set seen. j < bs_trace_index s" "before = None \<or> (\<exists>b. before = Some b \<and> bs_trace_index b \<in> set seen)"
    and claims: "list_all (\<lambda>s. list_all (\<lambda>t. t \<in> set (thresholds policy)
        \<and> first_crossing policy ps (bs_trace_index s) t) (bs_thresholds s)) ss"
    and distinct: "sorted_wrt (\<lambda>a b. \<not> f64_eq a b) (claimed @ concat (map bs_thresholds ss))" "set claimed \<subseteq> set (thresholds policy)"
  shows "check_snapshots policy (map canon_point ps) declared i seen before (map canon_f64 claimed) (map canon_snapshot ss)
    = Inr (map canon_f64 (claimed @ concat (map bs_thresholds ss)))"
  using snaps increasing claims distinct
proof (induction ss arbitrary: i seen before claimed)
  case (Cons s ss)
  have s: "bs_ordinal s = i" "bs_trace_index s < length ps" "is_declared declared (bs_manifest s)"
    using Cons.prems(1) by (auto dest: spec [of _ 0])
  have tail: "\<forall>j < length ss. bs_ordinal (ss ! j) = i + 1 + j \<and> bs_trace_index (ss ! j) < length ps
        \<and> is_declared declared (bs_manifest (ss ! j))"
    using Cons.prems(1) by (metis Suc_mono add.assoc add.commute length_Cons nth_Cons_Suc plus_1_eq_Suc)
  have "check_claims policy (map canon_point ps) (bs_trace_index s) (map canon_f64 (bs_thresholds s)) (map canon_f64 claimed)
      = Inr (map canon_f64 (claimed @ bs_thresholds s))"
    by (rule check_claims_Ok [OF metrics finite]) (use Cons.prems in \<open>auto simp: sorted_wrt_append\<close>)
  moreover have "check_snapshots policy (map canon_point ps) declared (i + 1) (bs_trace_index s # seen) (Some (canon_snapshot s))
      (map canon_f64 (claimed @ bs_thresholds s)) (map canon_snapshot ss)
      = Inr (map canon_f64 ((claimed @ bs_thresholds s) @ concat (map bs_thresholds ss)))"
  proof (rule Cons.IH)
    show "set (claimed @ bs_thresholds s) \<subseteq> set (thresholds policy)" using Cons.prems by (auto simp: list_all_iff)
  qed (use Cons.prems tail in auto)
  moreover have "bs_trace_index s \<notin> set seen" "\<not> (case before of None \<Rightarrow> False | Some b \<Rightarrow> bs_trace_index s \<le> bs_trace_index b)"
    using Cons.prems(3,4) by (auto split: option.splits)
  ultimately show ?case using s by (cases before) simp_all
qed simp

end
