(* ===== verification/Buffer_Roundtrip.thy ===== *)
theory Buffer_Roundtrip
  imports Buffer_Readback
begin

text \<open>
  A buffer the collector wrote passes every check of the executor.  The prefix manifests the executor
  rebuilds are compared with the estimates the collector made when it recorded each check.
\<close>

section \<open>The terminal reserve\<close>

definition lines_len :: "string list \<Rightarrow> nat" where
  "lines_len ls = sum_list (map (\<lambda>l. length l + 1) ls)"

lemma check_reserve_Ok:
  assumes "\<And>j. j < length ls \<Longrightarrow> \<exists>p doc. prefix_manifest m (i + j) (tb + lines_len (take (j + 1) ls)) = Inr p
      \<and> json_bytes X (buffered_manifest_json p) = Inr doc
      \<and> sum_list (map bf_size (bm_files p)) + length doc \<le> pp_max_buffer_bytes policy - pp_terminal_reserve_bytes policy"
  shows "check_reserve X policy m i tb ls = Inr ()"
  using assms
proof (induction ls arbitrary: i tb)
  case (Cons l ls)
  from Cons.prems [of 0] obtain p doc where first: "prefix_manifest m i (tb + length l + 1) = Inr p"
    "json_bytes X (buffered_manifest_json p) = Inr doc"
    "sum_list (map bf_size (bm_files p)) + length doc \<le> pp_max_buffer_bytes policy - pp_terminal_reserve_bytes policy"
    by (auto simp: lines_len_def)
  have "check_reserve X policy m (i + 1) (tb + length l + 1) ls = Inr ()"
  proof (rule Cons.IH)
    fix j assume "j < length ls"
    then show "\<exists>p doc. prefix_manifest m (i + 1 + j) (tb + length l + 1 + lines_len (take (j + 1) ls)) = Inr p
      \<and> json_bytes X (buffered_manifest_json p) = Inr doc
      \<and> sum_list (map bf_size (bm_files p)) + length doc \<le> pp_max_buffer_bytes policy - pp_terminal_reserve_bytes policy"
      using Cons.prems [of "Suc j"] by (simp add: lines_len_def add.assoc)
  qed
  with first show ?case by (simp add: Let_def)
qed simp

text \<open>The manifest of the written buffer.\<close>

definition written_files :: "externals \<Rightarrow> string \<Rightarrow> snapshots \<Rightarrow> buffer_file list" where
  "written_files X trace snaps = buffer_file_of X ''trace.jsonl'' trace
     # map (\<lambda>(s, d). buffer_file_of X (bs_manifest s) d) snaps"

definition written_manifest :: "externals \<Rightarrow> buffered_trace \<Rightarrow> stop_reason \<Rightarrow> string \<Rightarrow> buffered_manifest" where
  "written_manifest X tr reason trace =
     manifest_of tr (bt_total tr) reason (written_files X trace (bt_snapshots tr))"

definition prefix_of :: "externals \<Rightarrow> buffered_trace \<Rightarrow> string \<Rightarrow> nat \<Rightarrow> nat \<Rightarrow> buffered_manifest" where
  "prefix_of X tr trace i tb =
     (let snaps = snapshots_upto i (bt_snapshots tr)
      in (manifest_of tr MAX_SAFE_INTEGER ImplementationStopped
            ((buffer_file_of X ''trace.jsonl'' trace)\<lparr>bf_size := tb\<rparr>
             # map (\<lambda>(s, d). buffer_file_of X (bs_manifest s) d) snaps))
         \<lparr>bm_snapshots := map canon_snapshot (map fst snaps)\<rparr>)"

lemma numbered:
  assumes "captures_ok tr" "s \<in> set (map fst (bt_snapshots tr))"
  shows "bs_manifest s = snapshot_path (bs_ordinal s)"
proof -
  from assms(2) obtain i where "i < length (map fst (bt_snapshots tr))" "s = map fst (bt_snapshots tr) ! i"
    by (metis in_set_conv_nth)
  with assms(1) show ?thesis unfolding captures_ok_def Let_def by metis
qed

lemma same_ordinal:
  assumes "captures_ok tr" "s \<in> set (map fst (bt_snapshots tr))" "t \<in> set (map fst (bt_snapshots tr))"
    and "bs_ordinal s = bs_ordinal t"
  shows "s = t"
proof -
  from assms(2,3) obtain i j where "i < length (bt_snapshots tr)" "j < length (bt_snapshots tr)"
    "s = map fst (bt_snapshots tr) ! i" "t = map fst (bt_snapshots tr) ! j"
    by (metis in_set_conv_nth length_map)
  with assms(1,4) show ?thesis by (auto simp: captures_ok_def Let_def)
qed

lemma prefix_written:
  assumes "captures_ok tr"
  shows "prefix_manifest (canon_manifest (written_manifest X tr reason trace)) i tb = Inr (prefix_of X tr trace i tb)"
proof -
  let ?ss = "map fst (bt_snapshots tr)"
  let ?kept = "filter (\<lambda>s. bs_trace_index s \<le> i) ?ss"
  let ?parents = "map (\<lambda>s. [''snapshots'', dec_string (bs_ordinal s)]) ?kept"
  have snaps: "filter (\<lambda>s. bs_trace_index s \<le> i) (map canon_snapshot ?ss) = map canon_snapshot ?kept"
    by (simp add: filter_map comp_def)
  have parents: "collect_results (\<lambda>s. parent_components (bs_manifest s)) (map canon_snapshot ?kept) = Inr ?parents"
    using numbered [OF assms] by (auto simp: collect_results_Ok_iff list.rel_map snapshot_parent intro!: list.rel_refl_strong)
  have kept: "list_ex (starts_with (bs_manifest s)) ?parents \<longleftrightarrow> bs_trace_index s \<le> i" if "s \<in> set ?ss" for s
  proof -
    have "list_ex (starts_with (bs_manifest s)) ?parents \<longleftrightarrow> (\<exists>t \<in> set ?kept. bs_ordinal s = bs_ordinal t)"
      using numbered [OF assms that] by (auto simp: list_ex_iff snapshot_below)
    also have "\<dots> \<longleftrightarrow> bs_trace_index s \<le> i" using same_ordinal [OF assms] that by fastforce
    finally show ?thesis .
  qed
  have plain: "\<not> path_eq (bs_manifest s) ''trace.jsonl''" if "s \<in> set ?ss" for s
    using numbered [OF assms that] by (simp add: trace_eq)
  have files: "map (\<lambda>f. if path_eq (bf_path f) ''trace.jsonl'' then f\<lparr>bf_size := tb\<rparr> else f)
      (filter (\<lambda>f. path_eq (bf_path f) ''trace.jsonl'' \<or> list_ex (starts_with (bf_path f)) ?parents)
        (map (\<lambda>(s, d). buffer_file_of X (bs_manifest s) d) snaps))
    = map (\<lambda>(s, d). buffer_file_of X (bs_manifest s) d) (snapshots_upto i snaps)" if "set snaps \<subseteq> set (bt_snapshots tr)" for snaps
    using that
  proof (induction snaps)
    case (Cons e snaps)
    obtain s d where e: "e = (s, d)" by (cases e)
    with Cons.prems have "s \<in> set ?ss" by force
    with kept [of s] plain [of s] Cons e show ?case by (simp add: snapshots_upto_def buffer_file_of_def)
  qed (simp add: snapshots_upto_def)
  have upto: "?kept = map fst (snapshots_upto i (bt_snapshots tr))" by (simp add: snapshots_upto_def filter_map comp_def)
  have sel: "bm_snapshots (canon_manifest (written_manifest X tr reason trace)) = map canon_snapshot ?ss"
    "bm_trace (canon_manifest (written_manifest X tr reason trace)) = ''trace.jsonl''"
    "bm_files (canon_manifest (written_manifest X tr reason trace)) = written_files X trace (bt_snapshots tr)"
    by (simp_all add: canon_manifest_def written_manifest_def manifest_of_def)
  note kept_files = files [OF subset_refl, unfolded upto]
  show ?thesis
    unfolding prefix_manifest_def Let_def sel snaps parents res_bind.simps
    unfolding upto using kept_files
    by (simp add: canon_manifest_def written_manifest_def manifest_of_def written_files_def trace_eq
        buffer_file_of_def prefix_of_def Let_def)
qed

lemma prefix_no_longer:
  assumes "rfc8785 X" "sha256_width X"
    and "list_all (\<lambda>s. list_all f64_is_finite (bs_thresholds s)) (map fst (bt_snapshots tr))"
  shows "no_longer X (buffered_manifest_json (prefix_of X tr trace i tb))
    (buffered_manifest_json (stopped_manifest (bt_profile tr) tb (snapshots_upto i (bt_snapshots tr))))"
proof (rule manifest_no_longer [OF assms(1)])
  let ?snaps = "snapshots_upto i (bt_snapshots tr)"
  have hash: "file_fits \<lparr>bf_path = p, bf_sha256 = hex (sha256 X d), bf_size = n\<rparr> \<lparr>bf_path = p, bf_sha256 = zero_sha, bf_size = n\<rparr>" for p d n
    using assms(2) zero_sha_hex by (simp add: file_fits_def hex_lower sha256_width_def) (simp add: zero_sha_def)
  have "list_all (\<lambda>e. list_all f64_is_finite (bs_thresholds (fst e))) ?snaps"
    using assms(3) by (auto simp: snapshots_upto_def list_all_iff)
  then show "list_all2 (snap_fits X) (bm_snapshots (prefix_of X tr trace i tb))
      (bm_snapshots (stopped_manifest (bt_profile tr) tb ?snaps))"
    by (auto simp: prefix_of_def stopped_manifest_def Let_def list.rel_map list_all_iff intro!: list.rel_refl_strong snap_fits_canon)
  show "list_all2 file_fits (bm_files (prefix_of X tr trace i tb)) (bm_files (stopped_manifest (bt_profile tr) tb ?snaps))"
    using hash by (auto simp: prefix_of_def stopped_manifest_def manifest_of_def Let_def list.rel_map buffer_file_of_def
        case_prod_beta intro!: list.rel_refl_strong)
qed (simp add: prefix_of_def stopped_manifest_def manifest_of_def Let_def)

lemma prefix_sizes: "sum_list (map bf_size (bm_files (prefix_of X tr trace i tb))) = tb + data_len (snapshots_upto i (bt_snapshots tr))"
  by (simp add: prefix_of_def manifest_of_def Let_def data_len_def buffer_file_of_def comp_def case_prod_beta)

lemma lines_of_points:
  "list_all2 (\<lambda>p l. json_bytes X (trace_point_json p) = Inr l) ps ls \<Longrightarrow> lines_len ls = points_len X ps"
  by (induction ps ls rule: list_all2_induct) (auto simp: lines_len_def points_len_def point_len_def)

lemma reserve_checks:
  assumes "rfc8785 X" "sha256_width X" "captures_ok tr" "bytes_ok X tr"
    and finite: "list_all (\<lambda>s. list_all f64_is_finite (bs_thresholds s)) (map fst (bt_snapshots tr))"
    and lines: "list_all2 (\<lambda>p l. json_bytes X (trace_point_json p) = Inr l) (bt_points tr) lines"
    and "list_all (\<lambda>p. \<not> tp_terminal p) (butlast (bt_points tr))"
  shows "check_reserve X (sb_policy (bt_profile tr)) (canon_manifest (written_manifest X tr reason trace)) 0 0
    (take (length (bt_points tr) - 1) lines) = Inr ()"
proof (rule check_reserve_Ok)
  fix j assume j: "j < length (take (length (bt_points tr) - 1) lines)"
  let ?tb = "points_len X (take (j + 1) (bt_points tr))"
  from j have bound: "j < length (bt_points tr)" "j < length (butlast (bt_points tr))" by auto
  have "j + 1 \<le> length (bt_points tr) - 1" using j by simp
  then have "take (j + 1) (take (length (bt_points tr) - 1) lines) = take (j + 1) lines" by (simp only: take_take min_absorb1)
  moreover have "lines_len (take (j + 1) lines) = ?tb" by (rule lines_of_points) (rule list_all2_takeI [OF lines])
  ultimately have tb: "lines_len (take (j + 1) (take (length (bt_points tr) - 1) lines)) = ?tb" by simp
  have "\<not> tp_terminal (bt_points tr ! j)" using assms(7) bound(2) by (simp add: list_all_length nth_butlast)
  with assms(4) bound(1) have "reserve_kept X (bt_profile tr) (bt_points tr) (bt_snapshots tr) j" by (simp add: bytes_ok_def)
  then obtain doc where doc: "json_bytes X (buffered_manifest_json
      (stopped_manifest (bt_profile tr) ?tb (snapshots_upto j (bt_snapshots tr)))) = Inr doc"
    "?tb + data_len (snapshots_upto j (bt_snapshots tr)) + length doc
      \<le> pp_max_buffer_bytes (sb_policy (bt_profile tr)) - pp_terminal_reserve_bytes (sb_policy (bt_profile tr))"
    unfolding reserve_kept_def by blast
  from no_longer_bytes [OF assms(1) prefix_no_longer [OF assms(1,2) finite] doc(1)] obtain short
    where "json_bytes X (buffered_manifest_json (prefix_of X tr trace j ?tb)) = Inr short" "length short \<le> length doc" .
  with doc(2) prefix_written [OF assms(3), of X reason trace j ?tb]
  show "\<exists>p doc. prefix_manifest (canon_manifest (written_manifest X tr reason trace)) (0 + j)
        (0 + lines_len (take (j + 1) (take (length (bt_points tr) - 1) lines))) = Inr p
      \<and> json_bytes X (buffered_manifest_json p) = Inr doc
      \<and> sum_list (map bf_size (bm_files p)) + length doc
        \<le> pp_max_buffer_bytes (sb_policy (bt_profile tr)) - pp_terminal_reserve_bytes (sb_policy (bt_profile tr))"
    unfolding tb add_0 by (intro exI [of _ "prefix_of X tr trace j ?tb"] exI [of _ short]) (simp add: prefix_sizes)
qed

section \<open>Manifest and trace\<close>

lemma manifest_wf: "json_wf (buffered_manifest_json m)"
  unfolding buffered_manifest_json_def
  by (rule ser_object_wf) (auto simp: list_all_iff snapshot_json_def buffer_file_json_def intro!: ser_object_wf)

lemma claims_finite:
  assumes "profile_valid (bt_profile tr)" "claims_ok tr"
  shows "list_all (\<lambda>s. list_all f64_is_finite (bs_thresholds s)) (map fst (bt_snapshots tr))"
  using assms valid_thresholds(1) [of "sb_policy (bt_profile tr)"]
  by (auto simp: profile_valid_def claims_ok_def Let_def list_all_iff)

lemma manifest_reads:
  assumes "rfc8785 X" "json_bytes X (buffered_manifest_json m) = Inr data" "read_buffer_file tree path = Inr data"
    and "safe_path path" "bm_schema_version m \<le> U32_MAX" "\<not> header_invalid P (canon_manifest m)"
    and "list_all (\<lambda>s. list_all f64_is_finite (bs_thresholds s)) (bm_snapshots m)"
  shows "read_manifest X tree path P = Inr (canon_manifest m)"
proof -
  from json_bytes_Ok [OF assms(1) manifest_wf assms(2)] obtain w where
    "normalize_value (buffered_manifest_json m) = Inr w" "canonical_from_slice (parse_json X) data = Inr w" by blast
  with manifest_read [OF _ assms(5,7)] assms(3,4,6) show ?thesis by (simp add: read_manifest_def)
qed

lemma trace_reads:
  assumes "rfc8785 X" "trace_ok tr" "bt_points tr \<noteq> []" "captures_ok tr" "distinct (map fst actual)"
    and lines: "list_all2 (\<lambda>p l. json_bytes X (trace_point_json p) = Inr l) (bt_points tr) lines"
    and trace: "trace = concat (map (\<lambda>l. l @ [CHR 0x0A]) lines)"
    and files: "\<And>p. map_of actual p = map_option length (map_of ((''trace.jsonl'', trace) # stored_files tr) p)"
    and reads: "\<And>p d. (p, d) \<in> set ((''trace.jsonl'', trace) # stored_files tr) \<Longrightarrow> read_buffer_file tree p = Inr d"
  shows "read_trace X tree actual (bt_profile tr) (canon_manifest (written_manifest X tr reason trace))
    = Inr (''trace.jsonl'' # map fst (stored_files tr), lines, map canon_point (bt_points tr))"
proof -
  let ?files = "(''trace.jsonl'', trace) # stored_files tr"
  have dist: "distinct (map fst ?files)" using written_distinct [OF assms(4)] by simp
  have written: "written_files X trace (bt_snapshots tr) = map (\<lambda>(p, d). buffer_file_of X p d) ?files"
    by (simp add: written_files_def stored_files_def comp_def case_prod_beta)
  then have paths: "map bf_path (written_files X trace (bt_snapshots tr)) = map fst ?files"
    by (simp add: comp_def case_prod_beta buffer_file_of_def)
  have safe: "safe_path p" if "p \<in> set (map fst ?files)" for p
    using that plain_paths snapshot_safe stored_paths [OF assms(4)] by auto
  have "declare_files X tree actual (written_files X trace (bt_snapshots tr)) [] = Inr ([] @ map bf_path (written_files X trace (bt_snapshots tr)))"
  proof (rule declare_files_Ok)
    show "distinct (map bf_path (written_files X trace (bt_snapshots tr)))" using dist paths by simp
    have "safe_path p \<and> map_of actual p = Some (length d) \<and> read_buffer_file tree p = Inr d" if pd: "(p, d) \<in> set ?files" for p d
    proof -
      have "map_of ?files p = Some d" using dist pd by (rule map_of_is_SomeI)
      moreover have "safe_path p" by (rule safe) (use pd in force)
      ultimately show ?thesis using files reads [OF pd] by simp
    qed
    then have one: "safe_path (bf_path (buffer_file_of X p d)) \<and> map_of actual (bf_path (buffer_file_of X p d)) = Some (bf_size (buffer_file_of X p d))
      \<and> (\<exists>e. read_buffer_file tree (bf_path (buffer_file_of X p d)) = Inr e \<and> bf_sha256 (buffer_file_of X p d) = hex (sha256 X e))"
      if "(p, d) \<in> set ?files" for p d
      using that by (simp add: buffer_file_of_def)
    let ?Q = "\<lambda>f. safe_path (bf_path f) \<and> map_of actual (bf_path f) = Some (bf_size f)
      \<and> (\<exists>d. read_buffer_file tree (bf_path f) = Inr d \<and> bf_sha256 f = hex (sha256 X d))"
    show "list_all ?Q (written_files X trace (bt_snapshots tr))"
      unfolding written list.pred_map unfolding list_all_iff
    proof
      fix e assume e: "e \<in> set ?files"
      obtain p d where pd: "e = (p, d)" by (cases e)
      show "(?Q \<circ> (\<lambda>(p, d). buffer_file_of X p d)) e"
        using one [of p d] e unfolding pd comp_def split_conv by blast
    qed
  qed simp
  then have declared: "declare_files X tree actual (written_files X trace (bt_snapshots tr)) [] = Inr (map fst ?files)"
    by (simp add: paths)
  have "dom (map_of actual) = dom (map_of ?files)" using files by (simp add: dom_def)
  then have same: "set (map fst ?files) = set (map fst actual)" by (simp add: dom_map_of_conv_image_fst del: map_of.simps)
  have point_wf: "json_wf (trace_point_json p)" if "p \<in> set (bt_points tr)" for p
  proof -
    from assms(2) that obtain b where "point_ok (bt_profile tr) b p" by (auto simp: trace_ok_def dest: chain_mem)
    then show ?thesis by (intro trace_point_wf) (auto simp: point_ok_def metrics_ok_def)
  qed
  have each: "l \<noteq> [] \<and> CHR 0x0A \<notin> set l
      \<and> (\<exists>w. canonical_from_slice (parse_json X) l = Inr w \<and> trace_point_from w = Inr (canon_point p))"
    if "p \<in> set (bt_points tr)" "json_bytes X (trace_point_json p) = Inr l" for p l
    using json_bytes_Ok [OF assms(1) point_wf [OF that(1)] that(2)] trace_point_read by metis
  from lines have rel: "list_all2 (\<lambda>p l. l \<noteq> [] \<and> CHR 0x0A \<notin> set l
      \<and> (\<exists>w. canonical_from_slice (parse_json X) l = Inr w \<and> trace_point_from w = Inr (canon_point p))) (bt_points tr) lines"
    by (rule list.rel_mono_strong) (use each in blast)
  have "list_all (\<lambda>l. l \<noteq> [] \<and> CHR 0x0A \<notin> set l) lines"
    using rel by (auto simp: list_all2_conv_all_nth list_all_length)
  then have split: "trace_lines trace = lines" unfolding trace by (rule trace_lines_concat)
  have "length (bt_points tr) \<le> pp_max_trace_points (sb_policy (bt_profile tr))" using assms(2) by (simp add: trace_ok_def)
  then have points: "parse_points X (pp_max_trace_points (sb_policy (bt_profile tr))) lines [] = Inr (map canon_point (bt_points tr))"
    by (intro parse_points_Ok [where acc = "[]" and g = canon_point, simplified append_Nil])
      (use rel in \<open>auto elim!: list_all2_mono\<close>)
  have "lines \<noteq> []" using lines assms(3) by auto
  then obtain front l where "lines = front @ [l]" by (metis rev_exhaust)
  then have ends: "trace \<noteq> []" "last trace = CHR 0x0A" by (simp_all add: trace)
  have "read_buffer_file tree ''trace.jsonl'' = Inr trace" by (rule reads) simp
  with declared same split points ends show ?thesis
    by (simp add: read_trace_def canon_manifest_def written_manifest_def manifest_of_def is_declared_def trace_eq)
qed

section \<open>Captures and stop reason\<close>

lemma captures_check:
  assumes ok: "recorder_ok X tr" and stopped: "bt_stopped tr = Some reason"
    and declared: "set (map bs_manifest (map fst (bt_snapshots tr))) \<subseteq> set declared"
  shows "check_captures (bt_profile tr) (canon_manifest (written_manifest X tr reason trace)) declared
    (map canon_point (bt_points tr)) = Inr ()"
proof -
  let ?policy = "sb_policy (bt_profile tr)" and ?ss = "map fst (bt_snapshots tr)" and ?ps = "bt_points tr"
  from ok have parts: "profile_valid (bt_profile tr)" "trace_ok tr" "captures_ok tr" "claims_ok tr"
    and reason: "reason_ok ?policy ?ps (length (bt_snapshots tr)) reason"
    using stopped by (auto simp: recorder_ok_def)
  note valid = parts(1) [unfolded profile_valid_def, THEN conjunct1]
  have metrics: "metrics_ok ?policy (tp_metrics p)" if "p \<in> set ?ps" for p
    using parts(2) that by (auto simp: trace_ok_def point_ok_def dest!: chain_mem)
  have points: "?ps \<noteq> []" using parts(2) stopped by (auto simp: trace_ok_def)
  have same: "point_reaches ?policy (canon_point p) t = point_reaches ?policy p t" if "p \<in> set ?ps" "f64_is_finite t" for p t
    using canon_point_reaches [OF metrics [OF that(1)] that(2,2)] by simp
  have count: "length ?ss \<le> pp_max_observations ?policy" "?ss \<noteq> []" "bs_trace_index (last ?ss) = length ?ps - 1"
    "pp_metric ?policy = None \<Longrightarrow> length ?ss = length ?ps"
    using parts(3) stopped by (auto simp: captures_ok_def Let_def dest: arg_cong [where f = length])
  have saved: "check_snapshots ?policy (map canon_point ?ps) declared 0 [] None (map canon_f64 []) (map canon_snapshot ?ss)
      = Inr (map canon_f64 ([] @ concat (map bs_thresholds ?ss)))"
  proof (rule check_snapshots_Ok [OF metrics valid_thresholds(1) [OF valid]])
    show "\<forall>j<length ?ss. bs_ordinal (?ss ! j) = 0 + j \<and> bs_trace_index (?ss ! j) < length ?ps
        \<and> is_declared declared (bs_manifest (?ss ! j))"
    proof (intro allI impI)
      fix j assume j: "j < length ?ss"
      then have "?ss ! j \<in> set ?ss" by (rule nth_mem)
      moreover from this declared have "bs_manifest (?ss ! j) \<in> set declared" by force
      ultimately show "bs_ordinal (?ss ! j) = 0 + j \<and> bs_trace_index (?ss ! j) < length ?ps
        \<and> is_declared declared (bs_manifest (?ss ! j))"
        using parts(3) j unfolding captures_ok_def Let_def is_declared_def list_ex_iff list_all_iff path_eq_def
        by (metis add_0)
    qed
    show "sorted_wrt (<) (map bs_trace_index ?ss)" using parts(3) unfolding captures_ok_def Let_def by blast
    show "list_all (\<lambda>s. list_all (\<lambda>t. t \<in> set (thresholds ?policy) \<and> first_crossing ?policy ?ps (bs_trace_index s) t)
        (bs_thresholds s)) ?ss"
      using parts(4) unfolding claims_ok_def Let_def by blast
    show "sorted_wrt (\<lambda>a b. \<not> f64_eq a b) ([] @ concat (map bs_thresholds ?ss))"
      using parts(4) unfolding claims_ok_def Let_def by (metis append_Nil)
  qed simp_all
  have reached: "list_ex (f64_eq t) (map canon_f64 (bt_reached tr))"
    if "t \<in> set (thresholds ?policy)" "list_ex (\<lambda>p. point_reaches ?policy p t) (map canon_point ?ps)" for t
  proof -
    from that(1) valid_thresholds(1) [OF valid] have fin: "f64_is_finite t" by (simp add: list_all_iff)
    with that(2) same obtain p where "p \<in> set ?ps" "point_reaches ?policy p t" by (auto simp: list_ex_iff)
    with parts(4) that(1) have "t \<in> set (bt_reached tr)" by (auto simp: claims_ok_def Let_def)
    then show ?thesis using fin by (auto simp: list_ex_iff f64_eq_finite)
  qed
  have stop: "stop_substantiated ?policy (map canon_point ?ps) (canon_manifest (written_manifest X tr reason trace)) = Inr ()"
    using reason valid_target [OF valid] valid_active [OF parts(1)] same [OF last_in_set [OF points]] points
    by (auto simp: stop_substantiated_def canon_manifest_def written_manifest_def manifest_of_def reason_ok_def last_map
        split: stop_reason.splits option.splits)
  have claimed: "concat (map bs_thresholds ?ss) = bt_reached tr" using parts(4) by (simp add: claims_ok_def Let_def)
  have no_missing: "\<not> list_ex (\<lambda>t. list_ex (\<lambda>p. point_reaches ?policy p t) (map canon_point ?ps)
      \<and> \<not> list_ex (f64_eq t) (map canon_f64 (bt_reached tr))) (thresholds ?policy)"
    using reached unfolding list_ex_iff [of _ "thresholds ?policy"] by blast
  have snaps: "bm_snapshots (canon_manifest (written_manifest X tr reason trace)) = map canon_snapshot ?ss"
    by (simp add: canon_manifest_def written_manifest_def manifest_of_def)
  have last: "bs_trace_index (last (map canon_snapshot ?ss)) = length ?ps - 1" using count(2,3) by (simp add: last_map)
  have bounds: "(map canon_snapshot ?ss = [] \<or> length (map canon_snapshot ?ss) > pp_max_observations ?policy) = False"
    "(pp_metric ?policy = None \<and> length (map canon_snapshot ?ss) \<noteq> length (map canon_point ?ps)) = False"
    "(bs_trace_index (last (map canon_snapshot ?ss)) \<noteq> length (map canon_point ?ps) - 1) = False"
    using count(1,2,4) last by auto
  have saved': "check_snapshots ?policy (map canon_point ?ps) declared 0 [] None [] (map canon_snapshot ?ss)
      = Inr (map canon_f64 (bt_reached tr))"
    using saved claimed by simp
  show ?thesis
    unfolding check_captures_def Let_def snaps bounds saved' res_bind.simps if_False
    using no_missing stop by (simp only: if_False)
qed

section \<open>The whole buffer\<close>

lemma written_accepted:
  assumes "rfc8785 X" "sha256_width X" "recorded X P tr" "write_buffer X tr = Inr (path, files)" "holds_exactly tree files"
  shows "\<exists>trace reason. trace_text X (bt_points tr) = Inr trace \<and> bt_stopped tr = Some reason
    \<and> validate_buffer X (Some h) (Some h) tree path P
      = Inr (canon_manifest (written_manifest X tr reason trace), map canon_point (bt_points tr))"
proof -
  from recorded_ok [OF assms(1,3)] have ok: "recorder_ok X tr" and P: "P = bt_profile tr" by simp_all
  then have parts: "profile_valid (bt_profile tr)" "trace_ok tr" "captures_ok tr" "claims_ok tr" "bytes_ok X tr" "finish_ok tr"
    by (simp_all add: recorder_ok_def)
  from write_buffer_Ok [OF assms(4) parts(6)] obtain trace data reason lines where w: "path = ''buffer.json''"
    "files = (''trace.jsonl'', trace) # stored_files tr @ [(''buffer.json'', data)]" "bt_finished tr" "bt_stopped tr = Some reason"
    "list_all2 (\<lambda>p l. json_bytes X (trace_point_json p) = Inr l) (bt_points tr) lines"
    "trace = concat (map (\<lambda>l. l @ [CHR 0x0A]) lines)"
    "json_bytes X (buffered_manifest_json (manifest_of tr (bt_total tr) reason
       (map (\<lambda>(path, data). buffer_file_of X path data) ((''trace.jsonl'', trace) # stored_files tr)))) = Inr data"
    "length trace + bt_snapshot_bytes tr + length data \<le> pp_max_buffer_bytes (sb_policy (bt_profile tr))" .
  let ?m = "written_manifest X tr reason trace"
  have m: "?m = manifest_of tr (bt_total tr) reason
      (map (\<lambda>(path, data). buffer_file_of X path data) ((''trace.jsonl'', trace) # stored_files tr))"
    by (simp add: written_manifest_def written_files_def stored_files_def comp_def split_def)
  have nonempty: "bt_points tr \<noteq> []" using parts(2) w(4) by (auto simp: trace_ok_def)
  have written_text: "trace_text X (bt_points tr) = Inr trace"
    using w(5,6) by (auto simp: trace_text_def buffer_bytes_def collect_results_Ok_iff)
  have dist: "distinct (map fst files)" using written_distinct [OF parts(3)] w(2) by simp
  have sizes: "sum_list (map (length \<circ> snd) files) \<le> pp_max_buffer_bytes (sb_policy (bt_profile tr))"
    using w(2,8) stored_len [of tr] parts(5) by (simp add: bytes_ok_def)
  from inventory_holds [OF assms(5) dist sizes parts(1)] obtain actual where
    inv: "check_inventory (bt_profile tr) tree = Inr actual" "distinct (map fst actual)"
    and sized: "\<And>p. map_of actual p = map_option length (map_of files p)" by blast
  let ?actual = "filter (\<lambda>(p, _). p \<noteq> path) actual"
  have reads: "read_buffer_file tree p = Inr d" if "(p, d) \<in> set files" for p d
    using assms(5) that by (auto simp: holds_exactly_def)
  have finite: "list_all (\<lambda>s. list_all f64_is_finite (bs_thresholds s)) (map fst (bt_snapshots tr))"
    by (rule claims_finite [OF parts(1,4)])
  have manifest: "read_manifest X tree path P = Inr (canon_manifest ?m)"
  proof (rule manifest_reads [OF assms(1)])
    show "json_bytes X (buffered_manifest_json ?m) = Inr data" using w(7) m by simp
    show "read_buffer_file tree path = Inr data" by (rule reads) (simp add: w(1,2))
    show "safe_path path" using plain_paths w(1) by simp
    show "bm_schema_version ?m \<le> U32_MAX" by (simp add: m manifest_of_def U32_MAX_def)
    show "list_all (\<lambda>s. list_all f64_is_finite (bs_thresholds s)) (bm_snapshots ?m)" using finite by (simp add: m manifest_of_def)
    show "\<not> header_invalid P (canon_manifest ?m)"
      using parts(6) w(3) P by (simp add: header_invalid_def m manifest_of_def canon_manifest_def finish_ok_def)
  qed
  have removed: "map_of ?actual p = map_option length (map_of ((''trace.jsonl'', trace) # stored_files tr) p)" for p
  proof -
    have "map_of ?actual p = (if p = path then None else map_of actual p)" by (induction actual) auto
    moreover have "path \<notin> set (map fst ((''trace.jsonl'', trace) # stored_files tr))" using dist w(1,2) by auto
    then have "map_of ((''trace.jsonl'', trace) # stored_files tr) path = None" by (metis map_of_eq_None_iff set_map)
    ultimately show ?thesis using sized [of p] w(1,2) by (auto simp: map_add_def split: option.splits)
  qed
  have trace: "read_trace X tree ?actual P (canon_manifest ?m)
      = Inr (''trace.jsonl'' # map fst (stored_files tr), lines, map canon_point (bt_points tr))"
    unfolding P by (rule trace_reads [OF assms(1) parts(2) nonempty parts(3) _ w(5,6) removed])
      (use inv(2) reads w(2) in \<open>auto simp: distinct_map_filter\<close>)
  have points: "check_trace P (canon_manifest ?m) (map canon_point (bt_points tr)) = Inr ()"
    by (rule trace_checks) (use parts P w(3,4) in \<open>auto simp: finish_ok_def canon_manifest_def m manifest_of_def\<close>)
  have captures: "check_captures P (canon_manifest ?m) (''trace.jsonl'' # map fst (stored_files tr)) (map canon_point (bt_points tr)) = Inr ()"
    unfolding P by (rule captures_check [OF ok w(4)]) (auto simp: stored_files_def image_image split_def)
  have regular: "list_all (\<lambda>p. \<not> tp_terminal p) (butlast (bt_points tr))" using parts(2) by (simp add: trace_ok_def)
  have reserve: "check_reserve X (sb_policy P) (canon_manifest ?m) 0 0 (take (length (bt_points tr) - 1) lines) = Inr ()"
    unfolding P by (rule reserve_checks [OF assms(1,2) parts(3,5) finite w(5) regular])
  show ?thesis
    using inv(1) manifest trace points captures reserve P written_text w(4) by (auto simp: validate_buffer_def)
qed


end
