(* ===== verification/Buffer_Demo.thy ===== *)
theory Buffer_Demo
  imports Buffer_Roundtrip
begin

text \<open>
  A serializer and a parser that keep what \<open>rfc8785\<close> states, so that the properties of buffered profiles
  can be applied: compact text in which a character that is no hexadecimal digit is written by its code,
  and a recursive-descent parser over it.
\<close>

section \<open>Writing\<close>

definition quoted_char :: "char \<Rightarrow> string" where
  "quoted_char c = (if is_lower_hex c then [c] else CHR ''%'' # hex [c])"

definition quoted :: "string \<Rightarrow> string" where
  "quoted s = [CHR 0x22] @ concat (map quoted_char s) @ [CHR 0x22]"

definition int_text :: "int \<Rightarrow> string" where
  "int_text i = (if i < 0 then CHR ''-'' # dec_string (nat (- i)) else dec_string (nat i))"

definition float_text :: "f64 \<Rightarrow> string" where
  "float_text x = (case quotient_of (f64_rat x) of (n, d) \<Rightarrow> CHR ''r'' # int_text n @ CHR ''/'' # dec_string (nat d))"

definition number_text :: "number \<Rightarrow> string" where
  "number_text n = (case n of PosInt k \<Rightarrow> dec_string k | NegInt i \<Rightarrow> int_text i | Float x \<Rightarrow> float_text x)"

text \<open>Every element followed by a comma, the last one by the closing bracket.\<close>

fun bracketed :: "char \<Rightarrow> string list \<Rightarrow> string" where
  "bracketed b [] = [b]"
| "bracketed b [x] = x @ [b]"
| "bracketed b (x # xs) = x @ CHR '','' # bracketed b xs"

fun demo_text :: "json \<Rightarrow> string" where
  "demo_text JNull = ''n''"
| "demo_text (JBool b) = (if b then ''t'' else ''f'')"
| "demo_text (JNumber n) = number_text n"
| "demo_text (JString s) = quoted s"
| "demo_text (JArray vs) = CHR ''['' # bracketed (CHR '']'') (map demo_text vs)"
| "demo_text (JObject m) =
     CHR ''{'' # bracketed (CHR ''}'') (map (\<lambda>(k, v). quoted k @ CHR '':'' # demo_text v) m)"

section \<open>Parsing\<close>

fun read_quoted :: "string \<Rightarrow> (string \<times> string) option" where
  "read_quoted [] = None"
| "read_quoted (c # cs) =
     (if c = CHR 0x22 then Some ([], cs)
      else if c = CHR ''%'' then
        (case cs of
           h # l # rest \<Rightarrow>
             Option.bind (unhex [h, l]) (\<lambda>b. map_option (\<lambda>(s, r). (b @ s, r)) (read_quoted rest))
         | _ \<Rightarrow> None)
      else map_option (\<lambda>(s, r). (c # s, r)) (read_quoted cs))"

definition read_dec :: "string \<Rightarrow> (nat \<times> string) option" where
  "read_dec s = (let ds = takeWhile is_ascii_digit s in if ds = [] then None else Some (dec_value ds, drop (length ds) s))"

definition read_int :: "string \<Rightarrow> (int \<times> string) option" where
  "read_int s = (case s of
       [] \<Rightarrow> None
     | c # cs \<Rightarrow> if c = CHR ''-'' then map_option (\<lambda>(n, r). (- int n, r)) (read_dec cs)
         else map_option (\<lambda>(n, r). (int n, r)) (read_dec s))"

definition read_float :: "string \<Rightarrow> (visit \<times> string) option" where
  "read_float s = Option.bind (read_int s) (\<lambda>(n, r).
     case r of [] \<Rightarrow> None | c # cs \<Rightarrow> map_option (\<lambda>(d, r). (VisitF64 (F64 (Fract n (int d))), r)) (read_dec cs))"

text \<open>A fuel of the length of the text is enough: every call consumes a character.\<close>

fun read_value :: "nat \<Rightarrow> string \<Rightarrow> (visit \<times> string) option"
and read_items :: "nat \<Rightarrow> string \<Rightarrow> (visit list \<times> string) option"
and read_members :: "nat \<Rightarrow> string \<Rightarrow> ((string \<times> visit) list \<times> string) option" where
  "read_value 0 s = None"
| "read_value (Suc n) s =
     (case s of
        [] \<Rightarrow> None
      | c # cs \<Rightarrow>
          if c = CHR ''n'' then Some (VisitUnit, cs)
          else if c = CHR ''t'' then Some (VisitBool True, cs)
          else if c = CHR ''f'' then Some (VisitBool False, cs)
          else if c = CHR ''r'' then read_float cs
          else if c = CHR 0x22 then map_option (\<lambda>(s, r). (VisitStr s, r)) (read_quoted cs)
          else if c = CHR ''['' then
            (if take 1 cs = [CHR '']''] then Some (VisitSeq [] True, drop 1 cs)
             else map_option (\<lambda>(vs, r). (VisitSeq vs True, r)) (read_items n cs))
          else if c = CHR ''{'' then
            (if take 1 cs = [CHR ''}''] then Some (VisitMap [] True, drop 1 cs)
             else map_option (\<lambda>(es, r). (VisitMap es True, r)) (read_members n cs))
          else map_option (\<lambda>(i, r). (if i < 0 then VisitI64 i else VisitU64 (nat i), r)) (read_int s))"
| "read_items 0 s = None"
| "read_items (Suc n) s =
     Option.bind (read_value n s) (\<lambda>(v, r).
       case r of
         [] \<Rightarrow> None
       | c # cs \<Rightarrow>
           if c = CHR '']'' then Some ([v], cs)
           else map_option (\<lambda>(vs, r). (v # vs, r)) (read_items n cs))"
| "read_members 0 s = None"
| "read_members (Suc n) s =
     Option.bind (read_quoted (drop 1 s)) (\<lambda>(k, r).
     Option.bind (read_value n (drop 1 r)) (\<lambda>(v, r).
       case r of
         [] \<Rightarrow> None
       | c # cs \<Rightarrow>
           if c = CHR ''}'' then Some ([(k, v)], cs)
           else map_option (\<lambda>(es, r). ((k, v) # es, r)) (read_members n cs)))"

definition demo_parse :: json_parser where
  "demo_parse s = (case read_value (2 * length s) s of Some (v, []) \<Rightarrow> (v, True) | _ \<Rightarrow> (VisitFail, False))"

section \<open>What is written is parsed\<close>

fun visit_of :: "json \<Rightarrow> visit" where
  "visit_of JNull = VisitUnit"
| "visit_of (JBool b) = VisitBool b"
| "visit_of (JNumber n) = (case n of PosInt k \<Rightarrow> VisitU64 k | NegInt i \<Rightarrow> VisitI64 i | Float x \<Rightarrow> VisitF64 x)"
| "visit_of (JString s) = VisitStr s"
| "visit_of (JArray vs) = VisitSeq (map visit_of vs) True"
| "visit_of (JObject m) = VisitMap (map (\<lambda>(k, v). (k, visit_of v)) m) True"

lemma hex_chars: "is_lower_hex c \<Longrightarrow> c \<noteq> CHR 0x22 \<and> c \<noteq> CHR ''%'' \<and> c \<noteq> CHR 0x0A"
  using hex_nibble_Some [of c] by (auto simp: less_Suc_eq numeral_eq_Suc hex_digits_def)

lemma digit_hex: "is_ascii_digit c \<Longrightarrow> is_lower_hex c"
  by (simp add: is_lower_hex_def)

lemma read_quoted_quoted: "read_quoted (concat (map quoted_char s) @ CHR 0x22 # rest) = Some (s, rest)"
proof (induction s)
  case (Cons c s)
  show ?case
  proof (cases "is_lower_hex c")
    case True
    with Cons hex_chars [of c] show ?thesis by (simp add: quoted_char_def)
  next
    case False
    obtain h l where hl: "hex [c] = [h, l]" by simp
    have "unhex [h, l] = Some [c]" unfolding hl [symmetric] by (rule unhex_hex)
    with False Cons show ?thesis unfolding quoted_char_def by (simp add: hl del: hex.simps unhex.simps)
  qed
qed simp

text \<open>A text after which a number ends.\<close>

definition ends_number :: "string \<Rightarrow> bool" where
  "ends_number rest \<longleftrightarrow> (case rest of [] \<Rightarrow> True | c # _ \<Rightarrow> \<not> is_ascii_digit c)"

lemma ends_number_simps [simp]: "ends_number []" "ends_number (c # cs) \<longleftrightarrow> \<not> is_ascii_digit c"
  by (simp_all add: ends_number_def)

lemma read_dec_dec: "ends_number rest \<Longrightarrow> read_dec (dec_string n @ rest) = Some (n, rest)"
proof -
  assume "ends_number rest"
  then have "takeWhile is_ascii_digit rest = []" by (cases rest) auto
  then have "takeWhile is_ascii_digit (dec_string n @ rest) = dec_string n"
    using dec_string_digits [of n] by (simp add: takeWhile_append2 list_all_iff)
  then show ?thesis by (simp add: read_dec_def dec_value_dec_string)
qed

lemma dec_start: "\<exists>c cs. dec_string n = c # cs \<and> is_ascii_digit c"
  using dec_string_digits [of n] by (cases "dec_string n") auto

lemma digit_unquoted:
  assumes "is_ascii_digit c"
  shows "c \<noteq> CHR ''-''" "c \<noteq> CHR ''n''" "c \<noteq> CHR ''t''" "c \<noteq> CHR ''f''" "c \<noteq> CHR ''r''" "c \<noteq> CHR 0x22"
    "c \<noteq> CHR ''[''" "c \<noteq> CHR ''{''" "c \<noteq> CHR '']''" "c \<noteq> CHR 0x0A"
  using assms by (auto simp: is_ascii_digit_def byte_of_def)

lemma read_int_int: "ends_number rest \<Longrightarrow> read_int (int_text i @ rest) = Some (i, rest)"
proof -
  assume rest: "ends_number rest"
  obtain c cs where "dec_string (nat i) = c # cs" "is_ascii_digit c" using dec_start by blast
  then show ?thesis
    using read_dec_dec [OF rest, of "nat i"] read_dec_dec [OF rest, of "nat (- i)"] digit_unquoted(1) [of c]
    by (auto simp: read_int_def int_text_def)
qed

lemma int_start: "\<exists>c cs. int_text i = c # cs \<and> (is_ascii_digit c \<or> c = CHR ''-'')"
  using dec_start [of "nat i"] by (auto simp: int_text_def)

lemma read_float_float:
  assumes "ends_number rest" "x = F64 q"
  shows "read_float (tl (float_text x) @ rest) = Some (VisitF64 x, rest)"
proof -
  obtain n d where q: "quotient_of q = (n, d)" by (cases "quotient_of q")
  then have d: "0 < d" "Fract n d = q" using quotient_of_denom_pos quotient_of_div by (auto simp: Fract_of_int_quotient)
  have tail: "tl (float_text x) @ rest = int_text n @ CHR ''/'' # dec_string (nat d) @ rest"
    using q assms(2) by (simp add: float_text_def)
  have "ends_number (CHR ''/'' # dec_string (nat d) @ rest)" using not_digit(1) by simp
  from read_int_int [OF this] show ?thesis
    unfolding tail using read_dec_dec [OF assms(1)] d assms(2) by (simp add: read_float_def)
qed

definition reads_back :: "json \<Rightarrow> bool" where
  "reads_back v \<longleftrightarrow> (\<forall>n rest. 2 * length (demo_text v) \<le> n \<longrightarrow> ends_number rest
     \<longrightarrow> read_value n (demo_text v @ rest) = Some (visit_of v, rest))"

lemma number_start: "\<exists>c cs. number_text n = c # cs \<and> (is_ascii_digit c \<or> c = CHR ''-'' \<or> c = CHR ''r'')"
proof (cases n)
  case (PosInt k)
  with dec_start [of k] show ?thesis by (auto simp: number_text_def)
next
  case (NegInt i)
  with int_start [of i] show ?thesis by (auto simp: number_text_def)
qed (simp add: number_text_def float_text_def split: prod.split)

lemma text_start: "\<exists>c cs. demo_text v = c # cs \<and> c \<noteq> CHR '']''"
proof (cases v)
  case (JNumber n)
  obtain c cs where c: "number_text n = c # cs" "is_ascii_digit c \<or> c = CHR ''-'' \<or> c = CHR ''r''" using number_start by blast
  then have "c \<noteq> CHR '']''" using digit_unquoted(9) by auto
  with JNumber c(1) show ?thesis by simp
qed (auto simp: quoted_def)

lemma number_reads:
  assumes "canonical_number m" "number_wf m"
  shows "reads_back (JNumber m)"
  unfolding reads_back_def
proof (intro allI impI)
  fix n rest assume n: "2 * length (demo_text (JNumber m)) \<le> n" and rest: "ends_number rest"
  obtain c cs where "demo_text (JNumber m) = c # cs" using text_start by blast
  with n obtain k where k: "n = Suc k" by (cases n) auto
  have int: "read_value n (int_text i @ rest) = Some (if i < 0 then VisitI64 i else VisitU64 (nat i), rest)" for i
  proof -
    obtain c cs where c: "int_text i = c # cs" "is_ascii_digit c \<or> c = CHR ''-''" using int_start by blast
    have "c \<noteq> CHR ''n''" "c \<noteq> CHR ''t''" "c \<noteq> CHR ''f''" "c \<noteq> CHR ''r''" "c \<noteq> CHR 0x22" "c \<noteq> CHR ''[''" "c \<noteq> CHR ''{''"
      using c(2) digit_unquoted [of c] by auto
    with c(1) read_int_int [OF rest, of i] show ?thesis by (simp add: k)
  qed
  show "read_value n (demo_text (JNumber m) @ rest) = Some (visit_of (JNumber m), rest)"
  proof (cases m)
    case (PosInt j)
    with int [of "int j"] show ?thesis by (simp add: number_text_def int_text_def)
  next
    case (NegInt i)
    with int [of i] assms(2) show ?thesis by (simp add: number_text_def)
  next
    case (Float x)
    with assms(1) obtain q where x: "x = F64 q" by (cases x) (auto simp: canonical_number_def f64_is_integral_def)
    obtain t where t: "float_text x = CHR ''r'' # t" by (cases "quotient_of (f64_rat x)") (simp add: float_text_def)
    with read_float_float [OF rest x] have "read_float (t @ rest) = Some (VisitF64 x, rest)" by simp
    with Float t show ?thesis by (simp add: number_text_def k)
  qed
qed

lemma items_read:
  assumes "list_all reads_back vs" "vs \<noteq> []" "2 * length (bracketed (CHR '']'') (map demo_text vs)) \<le> n"
  shows "read_items n (bracketed (CHR '']'') (map demo_text vs) @ rest) = Some (map visit_of vs, rest)"
  using assms
proof (induction vs arbitrary: n)
  case (Cons v vs)
  have plain: "\<not> is_ascii_digit (CHR '']'')" "\<not> is_ascii_digit (CHR '','')" by code_simp+
  from Cons.prems(3) obtain k where k: "n = Suc k" by (cases n; cases vs) auto
  have len: "2 * length (demo_text v) \<le> k" using Cons.prems(3) k by (cases vs) auto
  with Cons.prems(1) plain have v: "read_value k (demo_text v @ CHR '']'' # r) = Some (visit_of v, CHR '']'' # r)"
    "read_value k (demo_text v @ CHR '','' # r) = Some (visit_of v, CHR '','' # r)" for r
    by (auto simp: reads_back_def)
  show ?case
  proof (cases vs)
    case Nil
    with v(1) [of rest] k show ?thesis by simp
  next
    case (Cons w ws)
    obtain c cs where "demo_text v = c # cs" using text_start by blast
    then have "2 * length (bracketed (CHR '']'') (map demo_text vs)) \<le> k" using Cons.prems(3) k Cons by simp
    with Cons.IH Cons.prems(1) Cons have "read_items k (bracketed (CHR '']'') (map demo_text vs) @ rest) = Some (map visit_of vs, rest)"
      by simp
    with v(2) Cons k show ?thesis by simp
  qed
qed simp

lemma members_read:
  assumes "list_all (\<lambda>kv. reads_back (snd kv)) m" "m \<noteq> []"
    and "2 * length (bracketed (CHR ''}'') (map (\<lambda>(k, v). quoted k @ CHR '':'' # demo_text v) m)) \<le> n"
  shows "read_members n (bracketed (CHR ''}'') (map (\<lambda>(k, v). quoted k @ CHR '':'' # demo_text v) m) @ rest)
    = Some (map (\<lambda>(k, v). (k, visit_of v)) m, rest)"
  using assms
proof (induction m arbitrary: n)
  case (Cons kv m)
  let ?t = "\<lambda>(k, v). quoted k @ CHR '':'' # demo_text v"
  obtain key v where kv: "kv = (key, v)" by (cases kv)
  have plain: "\<not> is_ascii_digit (CHR ''}'')" "\<not> is_ascii_digit (CHR '','')" by code_simp+
  from Cons.prems(3) obtain k where k: "n = Suc k" by (cases n; cases m) auto
  have len: "2 * length (demo_text v) \<le> k" using Cons.prems(3) k kv by (cases m) auto
  with Cons.prems(1) plain kv have v: "read_value k (demo_text v @ CHR ''}'' # r) = Some (visit_of v, CHR ''}'' # r)"
    "read_value k (demo_text v @ CHR '','' # r) = Some (visit_of v, CHR '','' # r)" for r
    by (auto simp: reads_back_def)
  have q: "read_quoted (drop 1 (quoted key @ r)) = Some (key, r)" for r
    using read_quoted_quoted [of key r] by (simp add: quoted_def)
  show ?case
  proof (cases m)
    case Nil
    with v(1) [of rest] q k kv show ?thesis by simp
  next
    case (Cons w ws)
    then have "2 * length (bracketed (CHR ''}'') (map ?t m)) \<le> k" using Cons.prems(3) k kv by simp
    with Cons.IH Cons.prems(1) Cons have "read_members k (bracketed (CHR ''}'') (map ?t m) @ rest)
        = Some (map (\<lambda>(k, v). (k, visit_of v)) m, rest)" by simp
    with v(2) q Cons k kv show ?thesis by simp
  qed
qed simp

lemma plain_reads: "reads_back JNull" "reads_back (JBool b)"
proof -
  have "read_value n (demo_text JNull @ rest) = Some (visit_of JNull, rest)" "read_value n (demo_text (JBool b) @ rest) = Some (visit_of (JBool b), rest)"
    if "2 \<le> n" for n rest
    using that by (cases n; simp)+
  then show "reads_back JNull" "reads_back (JBool b)" by (auto simp: reads_back_def)
qed

lemma all_read_back: "canonical_domain v \<Longrightarrow> json_wf v \<Longrightarrow> reads_back v"
proof (induction v rule: demo_text.induct)
  case (3 n)
  then show ?case by (simp add: number_reads)
next
  case (4 s)
  show ?case unfolding reads_back_def
  proof (intro allI impI)
    fix n rest assume "2 * length (demo_text (JString s)) \<le> n"
    then obtain k where "n = Suc k" by (cases n) (auto simp: quoted_def)
    then show "read_value n (demo_text (JString s) @ rest) = Some (visit_of (JString s), rest)"
      using read_quoted_quoted [of s rest] by (simp add: quoted_def)
  qed
next
  case (5 vs)
  then have each: "list_all reads_back vs" by (auto simp: list_all_iff)
  show ?case unfolding reads_back_def
  proof (intro allI impI)
    fix n rest assume n: "2 * length (demo_text (JArray vs)) \<le> n"
    then obtain k where k: "n = Suc k" by (cases n) auto
    show "read_value n (demo_text (JArray vs) @ rest) = Some (visit_of (JArray vs), rest)"
    proof (cases vs)
      case (Cons w ws)
      obtain c cs where "demo_text w = c # cs" "c \<noteq> CHR '']''" using text_start by blast
      then have "take 1 (bracketed (CHR '']'') (map demo_text vs) @ rest) \<noteq> [CHR '']'']" using Cons by (cases ws) auto
      moreover have "read_items k (bracketed (CHR '']'') (map demo_text vs) @ rest) = Some (map visit_of vs, rest)"
        by (rule items_read [OF each]) (use Cons n k in auto)
      ultimately show ?thesis by (simp add: k)
    qed (simp add: k)
  qed
next
  case (6 m)
  then have each: "list_all (\<lambda>kv. reads_back (snd kv)) m" by (fastforce simp: list_all_iff)
  let ?t = "\<lambda>(k, v). quoted k @ CHR '':'' # demo_text v"
  show ?case unfolding reads_back_def
  proof (intro allI impI)
    fix n rest assume n: "2 * length (demo_text (JObject m)) \<le> n"
    then obtain k where k: "n = Suc k" by (cases n) auto
    show "read_value n (demo_text (JObject m) @ rest) = Some (visit_of (JObject m), rest)"
    proof (cases m)
      case (Cons w ws)
      then have "take 1 (bracketed (CHR ''}'') (map ?t m) @ rest) \<noteq> [CHR ''}'']" by (cases w; cases ws) (auto simp: quoted_def)
      moreover have "read_members k (bracketed (CHR ''}'') (map ?t m) @ rest) = Some (map (\<lambda>(k, v). (k, visit_of v)) m, rest)"
        by (rule members_read [OF each]) (use Cons n k in auto)
      ultimately show ?thesis by (simp add: k)
    qed (simp add: k)
  qed
qed (simp_all add: plain_reads)

lemma demo_insert_last: "\<forall>k' \<in> fst ` set m. k' < k \<Longrightarrow> ord_insert k v m = m @ [(k, v)]"
  by (induction k v m rule: ord_insert.induct) auto

lemma map_entries:
  assumes "list_all (\<lambda>kv. restricted_value (visit_of (snd kv)) = Inr (snd kv)) es" "keys_sorted (m @ es)"
  shows "restricted_map m (map (\<lambda>(k, v). (k, visit_of v)) es) = Inr (m @ es)"
  using assms
proof (induction es arbitrary: m)
  case (Cons kv es)
  obtain k v where kv: "kv = (k, v)" by (cases kv)
  with Cons.prems(2) have below: "\<forall>k' \<in> fst ` set m. k' < k" by (auto simp: keys_sorted_def sorted_wrt_append)
  then have "map_of m k = None" by (auto simp: map_of_eq_None_iff)
  with Cons.prems Cons.IH [of "m @ [(k, v)]"] kv demo_insert_last [OF below] show ?case by simp
qed simp

lemma restricted_visit: "canonical_domain v \<Longrightarrow> json_wf v \<Longrightarrow> restricted_value (visit_of v) = Inr v"
proof (induction v rule: visit_of.induct)
  case (3 n)
  then show ?case
    by (cases n) (auto simp: canonical_number_def safe_int_def number_from_i64_def number_from_u64_def normalize_f64_def)
next
  case (5 vs)
  then have "restricted_seq (map visit_of vs) = Inr vs" by (induction vs) auto
  then show ?case by simp
next
  case (6 m)
  then have "list_all (\<lambda>kv. restricted_value (visit_of (snd kv)) = Inr (snd kv)) m" by (fastforce simp: list_all_iff)
  with map_entries [of m "[]"] 6 show ?case by simp
qed auto

lemma demo_parse_text:
  assumes "canonical_domain v" "json_wf v"
  shows "canonical_from_slice demo_parse (demo_text v) = Inr v"
proof -
  have "read_value (2 * length (demo_text v)) (demo_text v) = Some (visit_of v, [])"
    using all_read_back [OF assms] unfolding reads_back_def by (metis append_Nil2 ends_number_simps(1) order_refl)
  then show ?thesis using restricted_visit [OF assms] by (simp add: demo_parse_def canonical_from_slice_def)
qed

section \<open>Line breaks and lengths\<close>

lemma dec_no_newline: "CHR 0x0A \<notin> set (dec_string n)"
  using dec_string_digits [of n] digit_unquoted(10) by (auto simp: list_all_iff)

lemma quoted_no_newline: "CHR 0x0A \<notin> set (quoted s)"
proof -
  have "CHR 0x0A \<notin> set (quoted_char c)" for c
    using hex_lower [of "[c]"] hex_chars [of "CHR 0x0A"] by (auto simp: quoted_char_def list_all_iff)
  then show ?thesis by (auto simp: quoted_def)
qed

lemma bracketed_no_newline: "list_all (\<lambda>x. CHR 0x0A \<notin> set x) xs \<Longrightarrow> b \<noteq> CHR 0x0A \<Longrightarrow> CHR 0x0A \<notin> set (bracketed b xs)"
  by (induction b xs rule: bracketed.induct) auto

lemma demo_no_newline: "CHR 0x0A \<notin> set (demo_text v)"
proof (induction v rule: demo_text.induct)
  case (3 n)
  then show ?case
    using dec_no_newline by (cases n) (auto simp: number_text_def int_text_def float_text_def split: prod.splits)
next
  case (5 vs)
  then have "list_all (\<lambda>x. CHR 0x0A \<notin> set x) (map demo_text vs)" by (auto simp: list_all_iff)
  from bracketed_no_newline [OF this, of "CHR '']''"] show ?case by simp
next
  case (6 m)
  then have "list_all (\<lambda>x. CHR 0x0A \<notin> set x) (map (\<lambda>(k, v). quoted k @ CHR '':'' # demo_text v) m)"
    using quoted_no_newline by (fastforce simp: list_all_iff)
  from bracketed_no_newline [OF this, of "CHR ''}''"] show ?case by simp
qed (auto simp: quoted_no_newline)

lemma bracketed_length: "length (bracketed b xs) = (if xs = [] then 1 else sum_list (map (\<lambda>x. length x + 1) xs))"
  by (induction b xs rule: bracketed.induct) auto

definition demo_recorder_externals :: externals where
  "demo_recorder_externals = \<lparr>sha256 = (\<lambda>_. replicate 32 (CHR ''x'')), canonicalizer = (\<lambda>v. Some (demo_text v)),
     parse_json = demo_parse, json_text = demo_text, sqlite_object = (\<lambda>_. True)\<rparr>"

lemma quoted_hex: "list_all is_lower_hex s \<Longrightarrow> concat (map quoted_char s) = s"
  by (induction s) (auto simp: quoted_char_def)

lemma demo_rfc8785: "rfc8785 demo_recorder_externals"
proof -
  have len: "text_len demo_recorder_externals v = length (demo_text v)" for v
    by (simp add: text_len_def demo_recorder_externals_def)
  have "\<exists>s. canonicalizer demo_recorder_externals v = Some s \<and> s \<noteq> [] \<and> CHR 0x0A \<notin> set s
      \<and> canonical_from_slice (parse_json demo_recorder_externals) s = Inr v" if "canonical_domain v" "json_wf v" for v
    using demo_parse_text [OF that] demo_no_newline [of v] text_start [of v]
    by (auto simp: demo_recorder_externals_def)
  moreover have "text_len demo_recorder_externals (JArray vs)
      = (if vs = [] then 2 else 1 + sum_list (map (\<lambda>v. text_len demo_recorder_externals v + 1) vs))" for vs
    by (simp add: len bracketed_length comp_def)
  moreover have "text_len demo_recorder_externals (JObject m) = (if m = [] then 2
      else 1 + sum_list (map (\<lambda>(k, v). text_len demo_recorder_externals (JString k) + text_len demo_recorder_externals v + 2) m))" for m
    by (simp add: len bracketed_length comp_def split_def)
  moreover have "text_len demo_recorder_externals (JNumber (PosInt n)) = length (dec_string n)" for n
    by (simp add: len number_text_def)
  moreover have "text_len demo_recorder_externals (JString s) = length s + 2" if "list_all is_lower_hex s" for s
    using quoted_hex [OF that] by (simp add: len quoted_def)
  ultimately show ?thesis unfolding rfc8785_def by blast
qed

lemma demo_width: "sha256_width demo_recorder_externals"
  by (simp add: sha256_width_def demo_recorder_externals_def)

end
