(* ===== verification/Buffer_Example.thy ===== *)
theory Buffer_Example
  imports Buffer_Demo
begin

text \<open>
  A short recording under the serializer of \<open>Buffer_Demo\<close>: one regular check, a terminal check that reaches
  the target, and the directory that holds the written files.  It is where the properties of buffered
  profiles are applied.
\<close>

section \<open>How long a text can be\<close>

fun text_bound :: "json \<Rightarrow> nat" where
  "text_bound (JNumber n) = (case n of Float x \<Rightarrow> length (float_text x) | _ \<Rightarrow> 17)"
| "text_bound (JString s) = 3 * length s + 2"
| "text_bound (JArray vs) = 2 + sum_list (map (\<lambda>v. text_bound v + 1) vs)"
| "text_bound (JObject m) = 2 + sum_list (map (\<lambda>(k, v). 3 * length k + text_bound v + 4) m)"
| "text_bound _ = 1"

lemma dec_length: "n < 10 ^ Suc k \<Longrightarrow> length (dec_string n) \<le> Suc k"
proof (induction k arbitrary: n)
  case (Suc k)
  then have "n div 10 < 10 ^ Suc k" by auto
  from Suc.IH [OF this] show ?case by (subst dec_string.simps) simp
qed (subst dec_string.simps, simp)

lemma integer_length: "n \<le> MAX_SAFE_INTEGER \<Longrightarrow> length (dec_string n) \<le> 16"
  using dec_length [of n 15] by (simp add: MAX_SAFE_INTEGER_def)

lemma quoted_length: "length (quoted s) \<le> 3 * length s + 2"
proof -
  have "length (concat (map quoted_char s)) \<le> 3 * length s"
    by (induction s) (auto simp: quoted_char_def)
  then show ?thesis by (simp add: quoted_def)
qed

lemma sum_mono: "(\<And>x. x \<in> set xs \<Longrightarrow> f x \<le> g x) \<Longrightarrow> sum_list (map f xs) \<le> sum_list (map g xs)" for f g :: "'a \<Rightarrow> nat"
  by (induction xs) (auto intro: add_mono)

lemma number_length: "canonical_number n \<Longrightarrow> length (number_text n) \<le> text_bound (JNumber n)"
proof (cases n)
  case (NegInt i)
  assume "canonical_number n"
  with NegInt have "nat i \<le> MAX_SAFE_INTEGER" "nat (- i) \<le> MAX_SAFE_INTEGER" by (auto simp: canonical_number_def safe_int_def)
  with NegInt integer_length [of "nat i"] integer_length [of "nat (- i)"] show ?thesis by (auto simp: number_text_def int_text_def)
qed (auto simp: canonical_number_def number_text_def dest: integer_length)

lemma demo_length: "canonical_domain v \<Longrightarrow> length (demo_text v) \<le> text_bound v"
proof (induction v rule: demo_text.induct)
  case (3 n)
  then show ?case using number_length by simp
next
  case (4 s)
  show ?case using quoted_length by simp
next
  case (5 vs)
  have "sum_list (map (\<lambda>v. length (demo_text v) + 1) vs) \<le> sum_list (map (\<lambda>v. text_bound v + 1) vs)"
    by (rule sum_mono) (use 5 in \<open>auto simp: list_all_iff\<close>)
  then show ?case by (simp add: bracketed_length comp_def)
next
  case (6 m)
  have "length (case kv of (k, v) \<Rightarrow> quoted k @ CHR '':'' # demo_text v) + 1
      \<le> (case kv of (k, v) \<Rightarrow> 3 * length k + text_bound v + 4)" if "kv \<in> set m" for kv
    using 6 that quoted_length [of "fst kv"] by (cases kv) (fastforce simp: list_all_iff)
  then have "sum_list (map (\<lambda>kv. length (case kv of (k, v) \<Rightarrow> quoted k @ CHR '':'' # demo_text v) + 1) m)
      \<le> sum_list (map (\<lambda>kv. case kv of (k, v) \<Rightarrow> 3 * length k + text_bound v + 4) m)" by (rule sum_mono)
  then show ?case by (simp add: bracketed_length comp_def)
qed auto

lemma demo_writes:
  assumes "(case normalize_value v of Inl _ \<Rightarrow> False | Inr w \<Rightarrow> json_wf w \<and> text_bound w \<le> n)"
  obtains s w where "json_bytes demo_recorder_externals v = Inr s" "normalize_value v = Inr w"
    "canonical_from_slice (parse_json demo_recorder_externals) s = Inr w" "length s \<le> n"
proof -
  from assms obtain w where w: "normalize_value v = Inr w" "json_wf w" "text_bound w \<le> n" by (auto split: sum.splits)
  from normalize_value_sound [OF w(1)] have "canonical_domain w" by blast
  with w that [of "demo_text w" w] demo_length [of w] demo_parse_text [of w] show thesis
    by (simp add: json_bytes_def demo_recorder_externals_def)
qed

section \<open>The recording\<close>

definition demo_buffered_profile :: selected_buffered_profile where
  "demo_buffered_profile = \<lparr>sb_policy = \<lparr>pp_metric = Some ''loss'', pp_direction = Some AtMost, pp_threshold = Some (F64 1),
     pp_record_thresholds = [], pp_max_observations = 3, pp_max_checkpoint_bytes = 1000, pp_max_trace_points = 5,
     pp_max_buffer_bytes = 100000, pp_terminal_reserve_bytes = 1000, pp_max_active_time = dec_string 5 @ ''s''\<rparr>,
     sb_instrumented_scope = ''fit'',
     sb_scope = \<lparr>is_clock_origin = ''start'', is_included_work = ''steps'', is_excluded_preparation = ''none'', is_metric_agreement = []\<rparr>,
     sb_instrumentation = JNull, sb_check_schedule = Periodic 1 0\<rparr>"

definition demo_collector :: buffered_trace where
  "demo_collector = \<lparr>bt_profile = demo_buffered_profile, bt_points = [], bt_snapshots = [], bt_trace_bytes = 0,
     bt_snapshot_bytes = 0, bt_reached = [], bt_stopped = None, bt_finished = False, bt_total = 0, bt_adopted = None\<rparr>"

definition demo_env :: "u64 \<Rightarrow> nat \<Rightarrow> check_env" where
  "demo_env t loss = \<lparr>ce_first = t, ce_metrics = Some (JObject [(''loss'', JNumber (PosInt loss))]), ce_second = t + 1,
     ce_snapshot = Some (JObject [(''a'', JNumber (PosInt loss))])\<rparr>"

definition demo_progress :: "u64 \<Rightarrow> progress" where
  "demo_progress n = \<lparr>pr_check_index = n, pr_work = [(''steps'', n)]\<rparr>"

definition demo_point :: "u64 \<Rightarrow> nat \<Rightarrow> bool \<Rightarrow> trace_point" where
  "demo_point n loss terminal = \<lparr>tp_check_index = n, tp_work = [(''steps'', n)],
     tp_metrics = JObject [(''loss'', JNumber (PosInt loss))], tp_time_ns = 10 * n + 11, tp_terminal = terminal\<rparr>"

lemma demo_duration: "positive_nanoseconds (dec_string 5 @ ''s'') = Inr 5000000000"
proof -
  have "(''s'', 1000000000) \<in> set duration_units" by (simp add: duration_units_def)
  from decimal_duration [OF this, of 5] show ?thesis by (simp add: MAX_SAFE_INTEGER_def)
qed

lemmas demo_policy_simps = demo_buffered_profile_def MAX_SAFE_INTEGER_def active_time_ns_def demo_duration thresholds_def

lemma demo_starts: "with_clock demo_buffered_profile = Inr demo_collector"
  by (simp add: with_clock_def demo_collector_def validate_policy_def validate_buffered_def demo_policy_simps
    validate_target_def thresholds_ok_def windows2_def schedule_valid_def last_is_def f64_eq_finite)

lemmas demo_json_simps = trace_point_json_def work_json_def ser_u64_def normalize_number_def number_as_i64_def number_as_u64_def
  ser_object_def ord_extend_def manifest_of_def buffered_manifest_json_def buffer_file_json_def
  snapshot_json_def snapshot_document_def I64_MAX_def safe_int_def stop_reason_name_def MAX_SAFE_INTEGER_def zero_sha_def

lemma demo_line: "n \<le> 1 \<Longrightarrow> loss \<le> 3 \<Longrightarrow> (case normalize_value (trace_point_json (demo_point n loss terminal)) of Inl _ \<Rightarrow> False
    | Inr w \<Rightarrow> json_wf w \<and> text_bound w \<le> 1000)"
  by (simp add: demo_json_simps demo_point_def)

lemma demo_document: "(case normalize_value (snapshot_document (JObject [(''a'', JNumber (PosInt 0))])) of Inl _ \<Rightarrow> False
    | Inr w \<Rightarrow> json_wf w \<and> text_bound w \<le> 1000)"
  by (simp add: demo_json_simps)

lemma demo_estimate: "n \<le> 2000 \<Longrightarrow> (case normalize_value (buffered_manifest_json (estimated_manifest demo_collector n None)) of Inl _ \<Rightarrow> False
    | Inr w \<Rightarrow> json_wf w \<and> text_bound w \<le> 10000)"
  by (simp add: demo_json_simps estimated_manifest_def demo_collector_def demo_buffered_profile_def)

lemma demo_collector_simps [simp]: "bt_profile demo_collector = demo_buffered_profile" "bt_points demo_collector = []"
  "bt_snapshots demo_collector = []" "bt_trace_bytes demo_collector = 0" "bt_snapshot_bytes demo_collector = 0"
  "bt_reached demo_collector = []" "bt_stopped demo_collector = None" "bt_finished demo_collector = False"
  "bt_total demo_collector = 0" "bt_adopted demo_collector = None"
  by (simp_all add: demo_collector_def)

lemmas demo_check_simps = check_def evaluate_check_def admit_check_def demo_env_def demo_progress_def last_point_def
  expected_check_def next_after_def measure_check_def target_value_def finite_metric_def value_get_def opt_filter_def
  f64_of_u64_safe crossed_thresholds_def stop_reason_of_def capture_decision_def reaches_def encode_check_def byte_limited_def
  buffer_bytes_def estimated_bytes_def f64_le_finite Let_def commit_check_def normalize_number_def number_as_i64_def
  number_as_u64_def I64_MAX_def safe_int_def checked_div_def checked_mul_def checked_add_def U64_MAX_def work_regresses_def

lemma demo_observe:
  assumes "json_bytes X (trace_point_json (demo_point 0 3 False)) = Inr line" "length line \<le> 1000"
    and "json_bytes X (buffered_manifest_json (estimated_manifest demo_collector (length line + 1) None)) = Inr est"
    and "length est \<le> 10000"
  shows "observe X (demo_env 10 3) (demo_progress 0) demo_collector
    = (Inr ContinueRecording, demo_collector\<lparr>bt_trace_bytes := length line + 1, bt_points := [demo_point 0 3 False]\<rparr>)"
  using assms by (simp add: observe_def demo_check_simps demo_policy_simps demo_point_def)

definition demo_after :: "nat \<Rightarrow> buffered_trace" where
  "demo_after n = demo_collector\<lparr>bt_trace_bytes := n, bt_points := [demo_point 0 3 False]\<rparr>"

definition demo_finished :: "nat \<Rightarrow> string \<Rightarrow> buffered_trace" where
  "demo_finished n data = demo_collector\<lparr>bt_trace_bytes := n, bt_points := [demo_point 0 3 False, demo_point 1 0 True],
     bt_snapshots := [(\<lparr>bs_ordinal = 0, bs_trace_index = 1, bs_thresholds = [F64 1], bs_manifest = snapshot_path 0\<rparr>, data)],
     bt_snapshot_bytes := length data, bt_reached := [F64 1], bt_stopped := Some TargetReached, bt_finished := True,
     bt_total := 50\<rparr>"

lemma demo_finish:
  assumes "json_bytes X (trace_point_json (demo_point 1 0 True)) = Inr line" "length line \<le> 1000" "n \<le> 2000"
    and "json_bytes X (snapshot_document (JObject [(''a'', JNumber (PosInt 0))])) = Inr data" "length data \<le> 1000"
    and "canonical_from_slice (parse_json X) data = Inr w" "normalize_value (snapshot_document (JObject [(''a'', JNumber (PosInt 0))])) = Inr w"
    and "json_bytes X (buffered_manifest_json (estimated_manifest (demo_after n) (length line + 1) (Some data))) = Inr est"
    and "length est \<le> 10000"
  shows "finish X (demo_env 20 0) 50 (demo_progress 1) (demo_after n) = (Inr (), demo_finished (n + length line + 1) data)"
proof -
  obtain m d where w: "w = JObject m" "map_of m ''data'' = Some (JObject d)" using assms(7)
    by (auto simp: demo_json_simps)
  show ?thesis
    using assms unfolding w(1) by (simp add: w(2) finish_def demo_check_simps demo_policy_simps demo_point_def capture_snapshot_def add_snapshot_def conclude_finish_def demo_after_def demo_finished_def)
qed

lemma demo_final_estimate: "n \<le> 3000 \<Longrightarrow> k \<le> 2000 \<Longrightarrow> length data \<le> 1000 \<Longrightarrow>
    (case normalize_value (buffered_manifest_json (estimated_manifest (demo_after n) k (Some data))) of Inl _ \<Rightarrow> False
    | Inr w \<Rightarrow> json_wf w \<and> text_bound w \<le> 10000)"
  by (simp add: demo_json_simps estimated_manifest_def demo_after_def demo_policy_simps f64_json_def normalize_f64_def f64_is_integral_def f64_as_i64_def number_from_i64_def snapshot_path_def dec_string.simps)

lemma demo_manifest: "length trace \<le> 3000 \<Longrightarrow> length data \<le> 1000 \<Longrightarrow>
    (case normalize_value (buffered_manifest_json (manifest_of (demo_finished n data) 50 TargetReached
       [buffer_file_of demo_recorder_externals ''trace.jsonl'' trace, buffer_file_of demo_recorder_externals (snapshot_path 0) data])) of Inl _ \<Rightarrow> False
    | Inr w \<Rightarrow> json_wf w \<and> text_bound w \<le> 10000)"
  by (simp add: demo_json_simps demo_finished_def buffer_file_of_def demo_policy_simps f64_json_def normalize_f64_def f64_is_integral_def f64_as_i64_def number_from_i64_def snapshot_path_def dec_string.simps demo_recorder_externals_def)

lemma demo_write:
  assumes "json_bytes X (trace_point_json (demo_point 0 3 False)) = Inr l0" "json_bytes X (trace_point_json (demo_point 1 0 True)) = Inr l1"
    "length l0 \<le> 1000" "length l1 \<le> 1000" "length data \<le> 1000" "length m \<le> 10000"
    and "trace = l0 @ CHR 0x0A # l1 @ [CHR 0x0A]"
    and "json_bytes X (buffered_manifest_json (manifest_of (demo_finished n data) 50 TargetReached
       [buffer_file_of X ''trace.jsonl'' trace, buffer_file_of X (snapshot_path 0) data])) = Inr m"
  shows "write_buffer X (demo_finished n data) = Inr (''buffer.json'',
    [(''trace.jsonl'', trace), (''snapshots/0/result.json'', data), (''buffer.json'', m)])"
proof -
  have p: "snapshot_path 0 = ''snapshots/0/result.json''" by code_simp
  have t: "bt_points (demo_finished n data) = [demo_point 0 3 False, demo_point 1 0 True]" by (simp add: demo_finished_def)
  have "trace_text X (bt_points (demo_finished n data)) = Inr trace"
    using assms(1,2,7) unfolding t by (simp add: trace_text_def buffer_bytes_def)
  then show ?thesis using assms by (simp add: write_buffer_def p buffer_bytes_def demo_finished_def demo_policy_simps)
qed

definition demo_tree :: "string \<Rightarrow> string \<Rightarrow> string \<Rightarrow> (string \<times> fs_entry) list" where
  "demo_tree trace data manifest = [(''trace.jsonl'', FsFile trace),
     (''snapshots'', FsDir [(''0'', FsDir [(''result.json'', FsFile data)])]), (''buffer.json'', FsFile manifest)]"

lemma demo_holds: "holds_exactly (demo_tree t a d)
   [(''trace.jsonl'', t), (''snapshots/0/result.json'', a), (''buffer.json'', d)]"
  by (auto simp: demo_tree_def holds_exactly_def safe_path_def read_buffer_file_def)

lemma demo_recorded:
  obtains tr files tree where "recorded demo_recorder_externals demo_buffered_profile tr"
    "write_buffer demo_recorder_externals tr = Inr (''buffer.json'', files)" "holds_exactly tree files"
    "bt_stopped tr = Some TargetReached" "length (bt_points tr) = 2" "length (bt_snapshots tr) = 1"
proof -
  let ?X = demo_recorder_externals
  obtain l0 where l0: "json_bytes ?X (trace_point_json (demo_point 0 3 False)) = Inr l0" "length l0 \<le> 1000"
    by (rule demo_writes [OF demo_line [of 0 3 False]]) auto
  obtain e0 where e0: "json_bytes ?X (buffered_manifest_json (estimated_manifest demo_collector (length l0 + 1) None)) = Inr e0"
      "length e0 \<le> 10000"
    by (rule demo_writes [OF demo_estimate [of "length l0 + 1"]]) (use l0(2) in auto)
  obtain l1 where l1: "json_bytes ?X (trace_point_json (demo_point 1 0 True)) = Inr l1" "length l1 \<le> 1000"
    by (rule demo_writes [OF demo_line [of 1 0 True]]) auto
  obtain data w where data: "json_bytes ?X (snapshot_document (JObject [(''a'', JNumber (PosInt 0))])) = Inr data"
      "normalize_value (snapshot_document (JObject [(''a'', JNumber (PosInt 0))])) = Inr w"
      "canonical_from_slice (parse_json ?X) data = Inr w" "length data \<le> 1000"
    by (rule demo_writes [OF demo_document])
  obtain e1 where e1: "json_bytes ?X (buffered_manifest_json (estimated_manifest (demo_after (length l0 + 1)) (length l1 + 1) (Some data))) = Inr e1"
      "length e1 \<le> 10000"
    by (rule demo_writes [OF demo_final_estimate [of "length l0 + 1" "length l1 + 1" data]]) (use l0(2) l1(2) data(4) in auto)
  let ?tr = "demo_finished (length l0 + 1 + length l1 + 1) data"
  let ?trace = "l0 @ CHR 0x0A # l1 @ [CHR 0x0A]"
  obtain m where m: "json_bytes ?X (buffered_manifest_json (manifest_of ?tr 50 TargetReached
      [buffer_file_of ?X ''trace.jsonl'' ?trace, buffer_file_of ?X (snapshot_path 0) data])) = Inr m" "length m \<le> 10000"
    by (rule demo_writes [OF demo_manifest [of ?trace data "length l0 + 1 + length l1 + 1"]]) (use l0(2) l1(2) data(4) in auto)
  have env: "check_env_ok (demo_env t loss)" "keys_sorted (pr_work (demo_progress n))" for t loss n
    by (simp_all add: check_env_ok_def demo_env_def demo_progress_def)
  have "recorded ?X demo_buffered_profile demo_collector" by (rule recorded_new [OF demo_starts])
  from recorded_check [OF this env, of 10 3 0] have "recorded ?X demo_buffered_profile (demo_after (length l0 + 1))"
    using demo_observe [OF l0 e0] by (simp add: demo_after_def)
  from recorded_finish [OF this env, of 20 0 50 1]
  have "recorded ?X demo_buffered_profile ?tr"
    using demo_finish [OF l1 _ data(1,4,3,2) e1] l0(2) by simp
  moreover have "write_buffer ?X ?tr = Inr (''buffer.json'',
      [(''trace.jsonl'', ?trace), (''snapshots/0/result.json'', data), (''buffer.json'', m)])"
    by (rule demo_write [OF l0(1) l1(1) l0(2) l1(2) data(4) m(2) refl m(1)])
  moreover note demo_holds [of ?trace data m]
  ultimately show thesis by (rule that) (simp_all add: demo_finished_def)
qed

lemma demo_accepted:
  obtains tr :: buffered_trace and tree m where "validate_buffer demo_recorder_externals (Some ''h'') (Some ''h'') tree ''buffer.json'' demo_buffered_profile
    = Inr (m, map canon_point (bt_points tr))" "length (bt_points tr) = 2"
proof -
  obtain tr files tree where d: "recorded demo_recorder_externals demo_buffered_profile tr"
    "write_buffer demo_recorder_externals tr = Inr (''buffer.json'', files)" "holds_exactly tree files"
    "bt_stopped tr = Some TargetReached" "length (bt_points tr) = 2" by (rule demo_recorded)
  from written_accepted [OF demo_rfc8785 demo_width d(1-3), of "''h''"] obtain m where
    "validate_buffer demo_recorder_externals (Some ''h'') (Some ''h'') tree ''buffer.json'' demo_buffered_profile
      = Inr (m, map canon_point (bt_points tr))" by blast
  from that [OF this d(5)] show thesis .
qed


end
