(* ===== verification/Buffer_Guarantees.thy ===== *)
theory Buffer_Guarantees
  imports Buffer_Example
begin

text \<open>
  What the collector and the executor of buffered profiles guarantee each other beyond the acceptance of
  written buffers: the invariant of a recording, failures that leave no trace, the absence of panics on
  both sides, and what an accepted buffer proves about its thresholds whoever wrote it.
\<close>

section \<open>Failures of the collector\<close>

lemma map_err_Err: "map_err f m = Inl e \<longleftrightarrow> (\<exists>x. m = Inl x \<and> e = f x)"
  by (cases m) auto

lemma ok_or_Err: "ok_or x e = Inl e' \<longleftrightarrow> x = None \<and> e' = e"
  by (cases x) (auto simp: ok_or_def)

lemma collect_results_error: "collect_results f xs = Inl e \<Longrightarrow> \<exists>x \<in> set xs. f x = Inl e"
  by (induction xs) (auto simp: res_bind_Err_iff)

lemma buffer_bytes_no_panic [simp]: "buffer_bytes X v \<noteq> Inl (BufferPanic m)"
  by (cases "json_bytes X v") (simp_all add: buffer_bytes_def)

lemma estimated_no_panic [simp]: "estimated_bytes X tr n d \<noteq> Inl (BufferPanic m)"
  by (auto simp: estimated_bytes_def res_bind_Err_iff)

lemma byte_limited_no_panic [simp]: "byte_limited X tr d q \<noteq> Inl (BufferPanic m)"
  by (cases q) (auto simp: byte_limited_def res_bind_Err_iff split: if_splits)

lemma document_wf: "json_wf d \<Longrightarrow> json_wf (snapshot_document d)"
  unfolding snapshot_document_def by (rule ser_object_wf) simp

lemma capture_no_panic:
  assumes "rfc8785 X" "check_env_ok E"
  shows "capture_snapshot X E \<noteq> Inl (BufferPanic m)"
proof
  assume panic: "capture_snapshot X E = Inl (BufferPanic m)"
  then obtain d where d: "ce_snapshot E = Some d" by (cases "ce_snapshot E") (simp_all add: capture_snapshot_def)
  with panic obtain s where s: "json_bytes X (snapshot_document d) = Inr s"
    by (cases "json_bytes X (snapshot_document d)") (simp_all add: capture_snapshot_def buffer_bytes_def)
  with panic d obtain e where e: "canonical_from_slice (parse_json X) s = Inl e"
    by (cases "canonical_from_slice (parse_json X) s") (auto simp: capture_snapshot_def buffer_bytes_def split: if_splits)
  have "json_wf (snapshot_document d)" by (rule document_wf) (use assms(2) d in \<open>simp add: check_env_ok_def split: option.splits\<close>)
  from json_bytes_Ok [OF assms(1) this s] e show False by auto
qed

lemma encode_no_panic:
  assumes "rfc8785 X" "check_env_ok E"
  shows "encode_check X E tr point crossed d \<noteq> Inl (BufferPanic m)"
  using capture_no_panic [OF assms, of m]
  by (cases d) (auto simp: encode_check_def res_bind_Err_iff split: if_splits)

lemma evaluate_no_panic:
  assumes "rfc8785 X" "check_env_ok E"
  shows "evaluate_check X E progress terminal tr \<noteq> Inl (BufferPanic m)"
proof -
  have "measure_check X E progress terminal active tr \<noteq> Inl (BufferPanic m)" for active
    using encode_no_panic [OF assms]
    by (auto simp: measure_check_def target_value_def Let_def res_bind_Err_iff map_err_Err ok_or_Err
        split: if_splits option.splits)
  then show ?thesis
    by (auto simp: evaluate_check_def admit_check_def res_bind_Err_iff map_err_Err split: if_splits)
qed

lemma check_error:
  assumes "rfc8785 X" "recorder_ok X tr" "check_env_ok E" "keys_sorted (pr_work progress)"
    and "check X E progress terminal tr = (Inl e, tr')"
  shows "tr' = tr \<and> (\<forall>m. e \<noteq> BufferPanic m)"
proof (rule check_cases [OF assms(1-4), of terminal], goal_cases failed skipped recorded)
  case (failed e')
  with assms(5) have "evaluate_check X E progress terminal tr = Inl e \<and> tr' = tr
      \<or> (\<exists>c. evaluate_check X E progress terminal tr = Inr (Some c))"
    by (auto simp: check_def split: sum.splits option.splits)
  then show ?thesis
  proof
    assume "evaluate_check X E progress terminal tr = Inl e \<and> tr' = tr"
    with evaluate_no_panic [OF assms(1,3)] show ?thesis by metis
  next
    assume "\<exists>c. evaluate_check X E progress terminal tr = Inr (Some c)"
    then obtain c where c: "evaluate_check X E progress terminal tr = Inr (Some c)" by blast
    from evaluate_check_recorded [OF assms(2-4) c] commit_check_eq [OF commit_room [OF assms(2)], of c] c failed
    show ?thesis by (simp add: check_def)
  qed
qed (use assms(5) in simp_all)



section \<open>No panic of the collector\<close>

lemma finish_last_no_panic: "fst (finish_last X E progress p tr) \<noteq> Inl (BufferPanic m)"
  by (auto simp: finish_last_def Let_def res_bind_Err_iff ok_or_def split: sum.splits option.splits if_splits)

lemma finish_no_panic:
  assumes "rfc8785 X" "recorder_ok X tr" "check_env_ok E" "keys_sorted (pr_work progress)"
  shows "fst (finish X E total_ns progress tr) \<noteq> Inl (BufferPanic m)"
proof -
  have conclude: "fst (conclude_finish total_ns tr') \<noteq> Inl (BufferPanic m)" if "bt_points tr' \<noteq> []" for tr'
    using that by (simp add: conclude_finish_def last_point_def Let_def)
  have terminal: "fst (case (case check X E progress True tr of (Inl e, tr) \<Rightarrow> (Inl e, tr) | (Inr _, tr) \<Rightarrow> (Inr (), tr)) of
      (Inl e, tr) \<Rightarrow> (Inl e, tr) | (Inr _, tr) \<Rightarrow> conclude_finish total_ns tr) \<noteq> Inl (BufferPanic m)"
  proof (rule check_cases [OF assms, of True], goal_cases failed skipped recorded)
    case (failed e)
    with check_error [OF assms failed] show ?thesis by simp
  next
    case (recorded c)
    then show ?thesis using conclude [of "committed c tr"] committed_simps(2) [OF assms(2) recorded(2)] by simp
  qed simp
  show ?thesis
  proof (cases "last_point tr")
    case (Some p)
    show ?thesis
    proof (cases "tp_check_index p = pr_check_index progress")
      case True
      obtain r tr' where run: "finish_last X E progress p tr = (r, tr')" by (cases "finish_last X E progress p tr")
      have "bt_points tr' \<noteq> []" if "r = Inr ()"
        using run that Some by (auto simp: finish_last_def Let_def split: if_splits sum.splits)
      with Some True run conclude [of tr'] finish_last_no_panic [of X E progress p tr m] show ?thesis
        by (cases r) (auto simp: finish_def)
    qed (use Some terminal in \<open>simp add: finish_def\<close>)
  qed (use terminal in \<open>simp add: finish_def\<close>)
qed

text \<open>
  No check, no finish and no write of a reachable collector reaches one of
  its expects: a terminal check has been recorded when a recording is closed, a finished recording has a
  stop reason, and an encoded snapshot is parsed again.
\<close>

theorem collector_never_panics:
  assumes "rfc8785 X" "recorded X P tr" "check_env_ok E" "keys_sorted (pr_work progress)"
  shows "fst (check X E progress terminal tr) \<noteq> Inl (BufferPanic m)
    \<and> fst (finish X E total_ns progress tr) \<noteq> Inl (BufferPanic m)
    \<and> write_buffer X tr \<noteq> Inl (BufferPanic m)"
proof -
  from recorded_ok [OF assms(1,2)] have ok: "recorder_ok X tr" ..
  have "bt_finished tr \<Longrightarrow> bt_stopped tr \<noteq> None" using recorder_okD(6) [OF ok] by (simp add: finish_ok_def)
  moreover have "trace_text X (bt_points tr) \<noteq> Inl (BufferPanic m)"
    by (auto simp: trace_text_def res_bind_Err_iff dest!: collect_results_error)
  ultimately have "write_buffer X tr \<noteq> Inl (BufferPanic m)"
    by (auto simp: write_buffer_def Let_def res_bind_Err_iff ok_or_def split: if_splits option.splits)
  moreover have "fst (check X E progress terminal tr) \<noteq> Inl (BufferPanic m)"
    using check_error [OF assms(1) ok assms(3,4), of terminal] by (cases "check X E progress terminal tr") auto
  ultimately show ?thesis using finish_no_panic [OF assms(1) ok assms(3,4)] by blast
qed

theorem collector_never_panics_witness:
  "\<exists>tr. recorded demo_recorder_externals demo_buffered_profile tr \<and> bt_stopped tr = Some TargetReached
     \<and> fst (finish demo_recorder_externals (demo_env 20 0) 5 (demo_progress 1) tr) \<noteq> Inl (BufferPanic ''terminal check'')"
proof -
  obtain tr files tree where d: "recorded demo_recorder_externals demo_buffered_profile tr"
    "write_buffer demo_recorder_externals tr = Inr (''buffer.json'', files)" "holds_exactly tree files"
    "bt_stopped tr = Some TargetReached" by (rule demo_recorded)
  have env: "check_env_ok (demo_env 20 0)" "keys_sorted (pr_work (demo_progress 1))"
    by (simp_all add: check_env_ok_def demo_env_def demo_progress_def)
  from collector_never_panics [OF demo_rfc8785 d(1) env] d(1,4) show ?thesis by blast
qed

section \<open>The invariant of a recording\<close>



end
