(* ===== verification/Buffer_Acceptance.thy ===== *)
theory Buffer_Acceptance
  imports Buffer_Example
begin

text \<open>
  What the executor's validation of a buffer establishes for any directory, whoever wrote it: it returns
  a result or a reported rejection, and an accepted buffer claims its thresholds at their first crossings.
\<close>

section \<open>No panic of the validation\<close>

abbreviation panics :: "('a, buffer_rejection) result \<Rightarrow> bool" where
  "panics r \<equiv> \<exists>m. r = Inl (ValidationPanic m)"

lemma map_err_panic [simp]: "(\<And>e m. f e \<noteq> ValidationPanic m) \<Longrightarrow> \<not> panics (map_err f r)"
  by (cases r) auto

lemma inventory_no_panic: "\<not> panics (inventory_files dir es files)"
  by (induction dir es files rule: inventory_files.induct) (auto simp: res_bind_Err_iff split: fs_entry.splits)

lemma declare_no_panic: "\<not> panics (declare_files X tree actual fs declared)"
  by (induction fs arbitrary: declared)
    (auto simp: res_bind_Err_iff read_buffer_file_def split: option.splits fs_entry.splits)

lemma parse_no_panic: "\<not> panics (parse_points X bound lines points)"
proof (induction lines arbitrary: points)
  case (Cons line lines)
  have "map_err (\<lambda>_. NotCanonicalText) r \<noteq> Inl (ValidationPanic m)" "map_err (\<lambda>_. UnexpectedShape) q \<noteq> Inl (ValidationPanic m)"
    for m and r :: "(json, visitor_error) result" and q :: "(trace_point, serde_error) result"
    by (cases r; simp) (cases q; simp)
  with Cons show ?case by (auto simp: res_bind_Err_iff)
qed simp

lemma points_no_panic: "\<not> panics (check_points P m before expected ps)"
proof (induction ps arbitrary: before expected)
  case (Cons p ps)
  have "map_err RejectedActiveTime r \<noteq> Inl (ValidationPanic m)" for m and r :: "(u64, duration_error) result"
    by (cases r) simp_all
  with Cons show ?case by (auto simp: res_bind_Err_iff)
qed simp

lemma claims_no_panic: "\<not> panics (check_claims policy points i ts claimed)"
  by (induction ts arbitrary: claimed) auto

lemma snapshots_no_panic: "\<not> panics (check_snapshots policy points declared i seen before claimed ss)"
  using claims_no_panic by (induction ss arbitrary: i seen before claimed) (auto simp: res_bind_Err_iff)

lemma substantiated_no_panic: "\<not> panics (stop_substantiated policy points m)"
proof -
  have "map_err RejectedActiveTime r \<noteq> Inl (ValidationPanic m)" for m and r :: "(u64, duration_error) result"
    by (cases r) simp_all
  then show ?thesis by (auto simp: stop_substantiated_def res_bind_Err_iff split: stop_reason.splits)
qed

lemma captures_no_panic: "\<not> panics (check_captures P m declared points)"
  using snapshots_no_panic substantiated_no_panic by (auto simp: check_captures_def Let_def res_bind_Err_iff)

lemma declared_safe: "declare_files X tree actual fs declared = Inr ds \<Longrightarrow> list_all safe_path declared \<Longrightarrow> list_all safe_path ds"
  by (induction fs arbitrary: declared) (auto split: if_splits)

lemma safe_components: "safe_path path \<Longrightarrow> path_components path \<noteq> [] \<and> path_components path \<noteq> [''/'']"
proof -
  assume safe: "safe_path path"
  obtain c cs where split: "str_split (CHR ''/'') path = c # cs" by (cases "str_split (CHR ''/'') path") auto
  with safe have "c \<noteq> []" by (auto simp: safe_path_def)
  moreover have "c \<noteq> ''/''" using str_split_parts [of c "CHR ''/''" path] split by auto
  ultimately show ?thesis by (simp add: path_components_def split)
qed

lemma snapshots_declared:
  "check_snapshots policy points declared i seen before claimed ss = Inr c \<Longrightarrow> s \<in> set ss \<Longrightarrow> is_declared declared (bs_manifest s)"
  by (induction ss arbitrary: i seen before claimed) (auto split: if_splits)

lemma reserve_no_panic:
  assumes "list_all safe_path declared" "\<And>s. s \<in> set (bm_snapshots m) \<Longrightarrow> is_declared declared (bs_manifest s)"
  shows "\<not> panics (check_reserve X policy m i tb lines)"
proof (induction lines arbitrary: i tb)
  case (Cons line lines)
  have "parent_components (bs_manifest s) \<noteq> Inl e" if "s \<in> set (bm_snapshots m)" for s e
    using assms(2) [OF that] assms(1) safe_components
    by (fastforce simp: is_declared_def list_ex_iff list_all_iff path_eq_def parent_components_def)
  then have "\<exists>ps. collect_results (\<lambda>s. parent_components (bs_manifest s)) ss = Inr ps" if "set ss \<subseteq> set (bm_snapshots m)" for ss
    using that
  proof (induction ss)
    case (Cons s ss)
    then obtain p where "parent_components (bs_manifest s) = Inr p" by (cases "parent_components (bs_manifest s)") auto
    with Cons show ?case by auto
  qed simp
  from this [of "filter (\<lambda>s. bs_trace_index s \<le> i) (bm_snapshots m)"] have prefix: "prefix_manifest m i tb' \<noteq> Inl e" for tb' e
    by (auto simp: prefix_manifest_def Let_def res_bind_Err_iff)
  have "map_err RejectedText r \<noteq> Inl (ValidationPanic m)" for m and r :: "(string, canonical_failure) result"
    by (cases r) simp_all
  with Cons prefix show ?case by (auto simp: Let_def res_bind_Err_iff)
qed simp

text \<open>The stages an accepted or late-rejected buffer has passed.\<close>

lemma validate_stages:
  assumes "validate_buffer X h1 h2 tree path P = r"
  obtains (early) e where "r = Inl e" "\<forall>m. e \<noteq> ValidationPanic m"
    | (late) actual m declared lines points where
      "read_trace X tree actual P m = Inr (declared, lines, points)" "check_trace P m points = Inr ()"
      "check_captures P m declared points = Inr ()"
      "r = res_bind (check_reserve X (sb_policy P) m 0 0 (take (length points - 1) lines)) (\<lambda>_.
         res_bind (ok_or h2 TreeNotHashed) (\<lambda>again. if again \<noteq> the h1 then Inl BufferChanged else Inr (m, points)))"
proof -
  have policy: "map_err RejectedPolicy q \<noteq> Inl (ValidationPanic m)" for m and q :: "(unit, policy_error) result"
    by (cases q) simp_all
  have inventory: "\<not> panics (check_inventory P tree)"
    using inventory_no_panic policy by (auto simp: check_inventory_def res_bind_Err_iff ok_or_def split: option.splits)
  have "map_err (\<lambda>_. NotCanonicalText) q \<noteq> Inl (ValidationPanic m)" "map_err (\<lambda>_. UnexpectedShape) q' \<noteq> Inl (ValidationPanic m)"
    for m and q :: "(json, visitor_error) result" and q' :: "(buffered_manifest, serde_error) result"
    by (cases q; simp) (cases q'; simp)
  then have manifest: "\<not> panics (read_manifest X tree path P)"
    by (auto simp: read_manifest_def res_bind_Err_iff read_buffer_file_def split: option.splits fs_entry.splits)
  have trace: "\<not> panics (read_trace X tree actual P m)" for actual m
    using declare_no_panic parse_no_panic
    by (auto simp: read_trace_def res_bind_Err_iff read_buffer_file_def split: option.splits fs_entry.splits if_splits)
  have points: "\<not> panics (check_trace P m points)" for m points
    using points_no_panic by (auto simp: check_trace_def)
  show thesis
  proof (cases "check_inventory P tree")
    case (Inl e)
    with early [of e] inventory assms show thesis by (auto simp: validate_buffer_def)
  next
    case inv: (Inr actual)
    show thesis
    proof (cases "read_manifest X tree path P")
      case (Inl e)
      with early manifest assms inv show thesis by (cases h1) (auto simp: validate_buffer_def ok_or_def)
    next
      case man: (Inr m)
      let ?actual = "filter (\<lambda>(p, _). p \<noteq> path) actual"
      show thesis
      proof (cases "read_trace X tree ?actual P m")
        case (Inl e)
        with early trace [of ?actual m] assms inv man show thesis by (cases h1) (auto simp: validate_buffer_def ok_or_def)
      next
        case tr: (Inr a)
        obtain declared lines ps where a: "a = (declared, lines, ps)" by (cases a)
        show thesis
        proof (cases "check_trace P m ps")
          case (Inl e)
          with early points [of m ps] assms inv man tr a show thesis by (cases h1) (auto simp: validate_buffer_def ok_or_def)
        next
          case pt: (Inr u)
          show thesis
          proof (cases "check_captures P m declared ps")
            case (Inl e)
            with early captures_no_panic [of P m declared ps] assms inv man tr a pt show thesis
              by (cases h1) (auto simp: validate_buffer_def ok_or_def)
          next
            case cap: (Inr v)
            with early late [of ?actual m declared lines ps] assms inv man tr a pt show thesis
              by (cases h1) (auto simp: validate_buffer_def ok_or_def)
          qed
        qed
      qed
    qed
  qed
qed


section \<open>Accepted claims\<close>

lemma claims_accepted:
  "check_claims policy points i ts claimed = Inr c
   \<Longrightarrow> c = claimed @ ts \<and> (\<forall>t \<in> set ts. list_ex (f64_eq t) (thresholds policy)
        \<and> point_reaches policy (points ! i) t \<and> \<not> list_ex (\<lambda>p. point_reaches policy p t) (take i points))
      \<and> (sorted_wrt (\<lambda>a b. \<not> f64_eq b a) claimed \<longrightarrow> sorted_wrt (\<lambda>a b. \<not> f64_eq b a) c)"
proof (induction ts arbitrary: claimed)
  case (Cons t ts)
  then have t: "list_ex (f64_eq t) (thresholds policy)" "\<not> list_ex (f64_eq t) claimed" "point_reaches policy (points ! i) t"
    "\<not> list_ex (\<lambda>p. point_reaches policy p t) (take i points)" "check_claims policy points i ts (claimed @ [t]) = Inr c"
    by (auto split: if_splits)
  with Cons.IH [OF t(5)] show ?case by (auto simp: sorted_wrt_append list_ex_iff)
qed simp

lemma snapshots_accepted:
  "check_snapshots policy points declared i seen before claimed ss = Inr c
   \<Longrightarrow> c = claimed @ concat (map bs_thresholds ss)
      \<and> (\<forall>s \<in> set ss. \<forall>t \<in> set (bs_thresholds s). list_ex (f64_eq t) (thresholds policy)
          \<and> first_crossing policy points (bs_trace_index s) t)
      \<and> (sorted_wrt (\<lambda>a b. \<not> f64_eq b a) claimed \<longrightarrow> sorted_wrt (\<lambda>a b. \<not> f64_eq b a) c)"
proof (induction ss arbitrary: i seen before claimed)
  case (Cons s ss)
  then obtain c' where c': "check_claims policy points (bs_trace_index s) (bs_thresholds s) claimed = Inr c'"
    "check_snapshots policy points declared (i + 1) (bs_trace_index s # seen) (Some s) c' ss = Inr c"
    "bs_trace_index s < length points"
    by (auto split: if_splits)
  from claims_accepted [OF c'(1)] Cons.IH [OF c'(2)] c'(3) show ?case by (auto simp: first_crossing_def)
qed simp

text \<open>
  C5 (accepted_claims_exact): in a buffer the executor accepts, whatever wrote it, every threshold a
  snapshot claims is one of the policy's and its snapshot was taken at the first point that reaches it, no
  threshold is claimed twice, no threshold that some point reaches is left unclaimed, and the only terminal
  point is the last one.
\<close>

theorem accepted_claims_exact:
  assumes "validate_buffer X h1 h2 tree path P = Inr (m, points)"
  shows "(\<forall>s \<in> set (bm_snapshots m). \<forall>t \<in> set (bs_thresholds s). list_ex (f64_eq t) (thresholds (sb_policy P))
        \<and> first_crossing (sb_policy P) points (bs_trace_index s) t)
    \<and> sorted_wrt (\<lambda>a b. \<not> f64_eq b a) (concat (map bs_thresholds (bm_snapshots m)))
    \<and> (\<forall>t \<in> set (thresholds (sb_policy P)). list_ex (\<lambda>p. point_reaches (sb_policy P) p t) points
        \<longrightarrow> list_ex (f64_eq t) (concat (map bs_thresholds (bm_snapshots m))))
    \<and> points \<noteq> [] \<and> (\<forall>i < length points. tp_terminal (points ! i) \<longleftrightarrow> i = length points - 1)"
proof (rule validate_stages [of X h1 h2 tree path P, OF refl], goal_cases early late)
  case (late actual m' declared lines points')
  then have same: "m' = m" "points' = points" using late(4) [symmetric, unfolded assms] by (auto split: if_splits)
  from late(3) obtain c where c: "check_snapshots (sb_policy P) points declared 0 [] None [] (bm_snapshots m) = Inr c"
    "\<not> list_ex (\<lambda>t. list_ex (\<lambda>p. point_reaches (sb_policy P) p t) points \<and> \<not> list_ex (f64_eq t) c) (thresholds (sb_policy P))"
    unfolding same by (auto simp: check_captures_def Let_def split: if_splits)
  from late(2) have ends: "points \<noteq> []" "tp_terminal (last points)" "\<not> list_ex tp_terminal (butlast points)"
    unfolding same by (auto simp: check_trace_def split: if_splits)
  have "tp_terminal (points ! i) \<longleftrightarrow> i = length points - 1" if "i < length points" for i
  proof (cases "i = length points - 1")
    case False
    with that have "i < length (butlast points)" by simp
    with ends(3) have "\<not> tp_terminal (butlast points ! i)" by (simp add: list_ex_length)
    with False that show ?thesis by (simp add: nth_butlast)
  qed (use ends in \<open>simp add: last_conv_nth\<close>)
  with snapshots_accepted [OF c(1)] c(2) ends(1) show ?thesis by (auto simp: list_ex_iff)
qed (use assms in simp)

theorem accepted_claims_exact_witness:
  "\<exists>tree m points. validate_buffer demo_recorder_externals (Some ''h'') (Some ''h'') tree ''buffer.json'' demo_buffered_profile = Inr (m, points)
     \<and> points \<noteq> [] \<and> (\<forall>i < length points. tp_terminal (points ! i) \<longleftrightarrow> i = length points - 1)"
proof -
  obtain tr :: buffered_trace and tree m where d: "validate_buffer demo_recorder_externals (Some ''h'') (Some ''h'') tree ''buffer.json'' demo_buffered_profile
    = Inr (m, map canon_point (bt_points tr))" by (rule demo_accepted)
  from accepted_claims_exact [OF d] d show ?thesis by blast
qed

end
