(* ===== verification/Run_Batches.thy ===== *)
theory Run_Batches
  imports Seed_Scheduling Logical_Plan
begin

text \<open>
  The batches a run dispatches (\<open>rebuild_batches\<close> in \<open>runtime/run/selection.rs\<close>, and the fixed batches of
  \<open>runtime/run/resolution.rs\<close>).  Of a resolved run only what the two read and write is kept.  The loop over
  the batches of an experiment may not end, so it is a partial function: \<open>None\<close> is a loop that never returns.
\<close>

section \<open>Resolved runs\<close>

record resolved_measurement =
  rm_fresh :: "fresh_control option"
  rm_specification :: digest
  rm_scheduling :: scheduling_slot
  rm_provenance :: json

record resolved_candidate =
  rd_experiment :: string
  rd_policy :: execution_policy
  rd_measurements :: "resolved_measurement list"

record resolved_batch =
  rb_start :: nat
  rb_end :: nat
  rb_lane_count :: nat

record resolved_run =
  rr_candidates :: "resolved_candidate list"
  rr_schedule :: "(nat \<times> nat) list"
  rr_batches :: "resolved_batch list"

datatype batch_error = ProvenanceViolation canonical_violation | BatchPanic string

definition candidate_at :: "resolved_candidate list \<Rightarrow> nat \<Rightarrow> (resolved_candidate, batch_error) result" where
  "candidate_at cs c = (if c < length cs then Inr (cs ! c) else Inl (BatchPanic ''candidate index''))"

definition measurement_at :: "resolved_candidate list \<Rightarrow> nat \<times> nat \<Rightarrow> (resolved_measurement, batch_error) result" where
  "measurement_at cs s = (case s of (c, m) \<Rightarrow>
     res_bind (candidate_at cs c) (\<lambda>candidate.
     if m < length (rd_measurements candidate) then Inr (rd_measurements candidate ! m)
     else Inl (BatchPanic ''measurement index'')))"

section \<open>One batch\<close>

text \<open>How many of the following slots belong to the experiment.\<close>

fun group_length :: "resolved_candidate list \<Rightarrow> string \<Rightarrow> (nat \<times> nat) list \<Rightarrow> (nat, batch_error) result" where
  "group_length cs experiment [] = Inr 0"
| "group_length cs experiment (s # ss) =
     res_bind (candidate_at cs (fst s)) (\<lambda>candidate.
     if rd_experiment candidate = experiment then res_bind (group_length cs experiment ss) (\<lambda>n. Inr (n + 1))
     else Inr 0)"

definition repetition :: "resolved_measurement \<Rightarrow> digest \<times> u64" where
  "repetition slot = (rm_specification slot, cb_measurement_index (ss_comparison_block (rm_scheduling slot)))"

text \<open>How many slots a batch takes: at most one per lane, and no two fresh ones of one repetition.\<close>

fun batch_length ::
    "resolved_candidate list \<Rightarrow> nat \<Rightarrow> (digest \<times> u64) list \<Rightarrow> (nat \<times> nat) list \<Rightarrow> (nat, batch_error) result" where
  "batch_length cs lanes repetitions [] = Inr 0"
| "batch_length cs lanes repetitions (s # ss) =
     (if lanes = 0 then Inr 0
      else res_bind (measurement_at cs s) (\<lambda>slot.
        if rm_fresh slot \<noteq> None \<and> repetition slot \<in> set repetitions then Inr 0
        else res_bind (batch_length cs (lanes - 1)
            (if rm_fresh slot \<noteq> None then repetition slot # repetitions else repetitions) ss) (\<lambda>n. Inr (n + 1))))"

definition concurrency_json :: "u64 \<Rightarrow> nat \<Rightarrow> nat \<Rightarrow> nat \<Rightarrow> json" where
  "concurrency_json bound batch_index batch_size lane = json_object
     [(''max_concurrency'', u64_value bound), (''dispatch'', JString ''fixed_batches''),
      (''batch_index'', u64_value batch_index), (''batch_size'', u64_value batch_size), (''lane_index'', u64_value lane)]"

text \<open>\<open>value["concurrency"] = ..\<close> on a JSON value, and \<open>canonical\<close>.\<close>

definition set_concurrency :: "json \<Rightarrow> json \<Rightarrow> (json, batch_error) result" where
  "set_concurrency value context = (case value of
       JObject m \<Rightarrow> map_err ProvenanceViolation (normalize_value (JObject (ord_insert ''concurrency'' context m)))
     | JNull \<Rightarrow> map_err ProvenanceViolation (normalize_value (JObject [(''concurrency'', context)]))
     | _ \<Rightarrow> Inl (BatchPanic ''cannot access key''))"

definition put_provenance :: "resolved_candidate list \<Rightarrow> nat \<times> nat \<Rightarrow> json \<Rightarrow> resolved_candidate list" where
  "put_provenance cs s value = (case s of (c, m) \<Rightarrow>
     cs[c := (cs ! c)\<lparr>rd_measurements :=
       (rd_measurements (cs ! c))[m := (rd_measurements (cs ! c) ! m)\<lparr>rm_provenance := value\<rparr>]\<rparr>])"

fun write_lanes ::
    "u64 \<Rightarrow> nat \<Rightarrow> nat \<Rightarrow> nat \<Rightarrow> (nat \<times> nat) list \<Rightarrow> resolved_candidate list \<Rightarrow> (resolved_candidate list, batch_error) result" where
  "write_lanes bound index size_n lane [] cs = Inr cs"
| "write_lanes bound index size_n lane (s # ss) cs =
     res_bind (measurement_at cs s) (\<lambda>slot.
     res_bind (set_concurrency (rm_provenance slot) (concurrency_json bound index size_n lane)) (\<lambda>value.
     write_lanes bound index size_n (lane + 1) ss (put_provenance cs s value)))"

section \<open>The loops\<close>

definition slots_between :: "(nat \<times> nat) list \<Rightarrow> nat \<Rightarrow> nat \<Rightarrow> (nat \<times> nat) list" where
  "slots_between schedule i j = take (j - i) (drop i schedule)"

partial_function (option) group_batches ::
    "(nat \<times> nat) list \<Rightarrow> u64 \<Rightarrow> nat \<Rightarrow> nat \<Rightarrow> nat \<Rightarrow> nat \<Rightarrow> resolved_candidate list \<times> resolved_batch list
     \<Rightarrow> (resolved_candidate list \<times> resolved_batch list, batch_error) result option" where
  "group_batches schedule bound lanes stop batch_start index state =
     (if batch_start < stop
      then (case batch_length (fst state) lanes [] (slots_between schedule batch_start stop) of
          Inl e \<Rightarrow> Some (Inl e)
        | Inr n \<Rightarrow>
            (case write_lanes bound index n 0 (slots_between schedule batch_start (batch_start + n)) (fst state) of
               Inl e \<Rightarrow> Some (Inl e)
             | Inr cs \<Rightarrow> group_batches schedule bound lanes stop (batch_start + n) (index + 1)
                 (cs, snd state @ [\<lparr>rb_start = batch_start, rb_end = batch_start + n, rb_lane_count = lanes\<rparr>])))
      else Some (Inr state))"

partial_function (option) schedule_batches ::
    "(nat \<times> nat) list \<Rightarrow> nat \<Rightarrow> resolved_candidate list \<times> resolved_batch list
     \<Rightarrow> (resolved_candidate list \<times> resolved_batch list, batch_error) result option" where
  "schedule_batches schedule start state =
     (if start < length schedule
      then (case candidate_at (fst state) (fst (schedule ! start)) of
          Inl e \<Rightarrow> Some (Inl e)
        | Inr candidate \<Rightarrow>
            (case group_length (fst state) (rd_experiment candidate) (drop (start + 1) schedule) of
               Inl e \<Rightarrow> Some (Inl e)
             | Inr n \<Rightarrow>
                 Option.bind (group_batches schedule (epr_max_concurrency (rd_policy candidate))
                     (min (epr_max_concurrency (rd_policy candidate)) (n + 1)) (start + 1 + n) start 0 state) (\<lambda>r.
                   case r of
                     Inl e \<Rightarrow> Some (Inl e)
                   | Inr state \<Rightarrow> schedule_batches schedule (start + 1 + n) state)))
      else Some (Inr state))"

definition rebuild_batches :: "resolved_run \<Rightarrow> (nat \<times> nat) list \<Rightarrow> (resolved_run, batch_error) result option" where
  "rebuild_batches run schedule =
     map_option (\<lambda>r. res_bind r (\<lambda>(cs, batches).
         Inr (run\<lparr>rr_candidates := cs, rr_schedule := schedule, rr_batches := batches\<rparr>)))
       (schedule_batches schedule 0 (rr_candidates run, []))"

text \<open>
  The batches of an experiment as the resolution of a plan lays them out, \<open>(start..end).step_by(lane_count)\<close>;
  a step of zero panics.
\<close>

definition fixed_batches :: "nat \<Rightarrow> nat \<Rightarrow> nat \<Rightarrow> resolved_batch list" where
  "fixed_batches start n lanes =
     map (\<lambda>k. \<lparr>rb_start = start + k * lanes, rb_end = min (start + k * lanes + lanes) (start + n), rb_lane_count = lanes\<rparr>)
       [0..<(n + lanes - 1) div lanes]"

text \<open>The layout of the experiments of a plan, each with its concurrency bound and its ordered slots.\<close>

fun resolve_layout :: "nat \<Rightarrow> (u64 \<times> (nat \<times> nat) list) list \<Rightarrow> resolved_batch list" where
  "resolve_layout start [] = []"
| "resolve_layout start ((max_concurrency, ordered) # experiments) =
     (if ordered = [] then []
      else fixed_batches start (length ordered) (min max_concurrency (length ordered)))
     @ resolve_layout (start + length ordered) experiments"

end
