(* ===== verification/Batch_Laws.thy ===== *)
theory Batch_Laws
  imports Run_Batches
begin

text \<open>
  Rebuilding the batches of a run: when it returns, what the batches are, and that without fresh slots they
  are the batches the resolution laid out.
\<close>

section \<open>What writing provenances keeps\<close>

definition erased :: "resolved_candidate \<Rightarrow> resolved_candidate" where
  "erased c = c\<lparr>rd_measurements := map (\<lambda>m. m\<lparr>rm_provenance := JNull\<rparr>) (rd_measurements c)\<rparr>"

definition slot_known :: "resolved_candidate list \<Rightarrow> nat \<times> nat \<Rightarrow> bool" where
  "slot_known cs s \<longleftrightarrow> fst s < length cs \<and> snd s < length (rd_measurements (cs ! fst s))"

definition slot_of :: "resolved_candidate list \<Rightarrow> nat \<times> nat \<Rightarrow> resolved_measurement" where
  "slot_of cs s = rd_measurements (cs ! fst s) ! snd s"

definition provenance_ok :: "resolved_measurement \<Rightarrow> bool" where
  "provenance_ok m \<longleftrightarrow> is_object (rm_provenance m) \<and> canonical_domain (rm_provenance m)"

definition provenances_ok :: "resolved_candidate list \<Rightarrow> bool" where
  "provenances_ok cs \<longleftrightarrow> list_all (\<lambda>c. list_all provenance_ok (rd_measurements c)) cs"

lemma measurement_known: "slot_known cs s \<Longrightarrow> measurement_at cs s = Inr (slot_of cs s)"
  by (cases s) (simp add: measurement_at_def candidate_at_def slot_known_def slot_of_def)

lemma candidate_known: "slot_known cs s \<Longrightarrow> candidate_at cs (fst s) = Inr (cs ! fst s)"
  by (simp add: candidate_at_def slot_known_def)

lemma erased_fields:
  assumes "erased c = erased d"
  shows "rd_experiment c = rd_experiment d" "rd_policy c = rd_policy d"
    "length (rd_measurements c) = length (rd_measurements d)"
    "m < length (rd_measurements d) \<Longrightarrow> rm_fresh (rd_measurements c ! m) = rm_fresh (rd_measurements d ! m)
      \<and> repetition (rd_measurements c ! m) = repetition (rd_measurements d ! m)"
proof -
  show "rd_experiment c = rd_experiment d" "rd_policy c = rd_policy d"
    using assms by (cases c; cases d; simp add: erased_def)+
  have ms: "map (\<lambda>m. m\<lparr>rm_provenance := JNull\<rparr>) (rd_measurements c) = map (\<lambda>m. m\<lparr>rm_provenance := JNull\<rparr>) (rd_measurements d)"
    using assms by (cases c; cases d) (simp add: erased_def)
  then show len: "length (rd_measurements c) = length (rd_measurements d)" by (metis length_map)
  assume "m < length (rd_measurements d)"
  with ms len have "(rd_measurements c ! m)\<lparr>rm_provenance := JNull\<rparr> = (rd_measurements d ! m)\<lparr>rm_provenance := JNull\<rparr>"
    by (metis nth_map)
  then show "rm_fresh (rd_measurements c ! m) = rm_fresh (rd_measurements d ! m)
      \<and> repetition (rd_measurements c ! m) = repetition (rd_measurements d ! m)"
    by (cases "rd_measurements c ! m"; cases "rd_measurements d ! m") (simp add: repetition_def)
qed

lemma same_erased:
  assumes "map erased cs = map erased ds" "slot_known ds s"
  shows "slot_known cs s" "rd_experiment (cs ! fst s) = rd_experiment (ds ! fst s)"
    "rd_policy (cs ! fst s) = rd_policy (ds ! fst s)"
    "rm_fresh (slot_of cs s) = rm_fresh (slot_of ds s)" "repetition (slot_of cs s) = repetition (slot_of ds s)"
proof -
  have len: "length cs = length ds" using assms(1) by (metis length_map)
  with assms have "erased (cs ! fst s) = erased (ds ! fst s)" by (metis nth_map slot_known_def)
  from erased_fields [OF this] assms(2) len
  show "slot_known cs s" "rd_experiment (cs ! fst s) = rd_experiment (ds ! fst s)"
    "rd_policy (cs ! fst s) = rd_policy (ds ! fst s)"
    "rm_fresh (slot_of cs s) = rm_fresh (slot_of ds s)" "repetition (slot_of cs s) = repetition (slot_of ds s)"
    by (auto simp: slot_known_def slot_of_def)
qed

lemma put_provenance_keeps:
  assumes "slot_known cs s" "provenances_ok cs" "is_object value" "canonical_domain value"
  shows "map erased (put_provenance cs s value) = map erased cs" "provenances_ok (put_provenance cs s value)"
proof -
  obtain c m where s: "s = (c, m)" by (cases s)
  have known: "c < length cs" "m < length (rd_measurements (cs ! c))" using assms(1) by (simp_all add: s slot_known_def)
  let ?new = "(cs ! c)\<lparr>rd_measurements := (rd_measurements (cs ! c))[m := (rd_measurements (cs ! c) ! m)\<lparr>rm_provenance := value\<rparr>]\<rparr>"
  have "map (\<lambda>m. m\<lparr>rm_provenance := JNull\<rparr>) ((rd_measurements (cs ! c))[m := (rd_measurements (cs ! c) ! m)\<lparr>rm_provenance := value\<rparr>])
      = map (\<lambda>m. m\<lparr>rm_provenance := JNull\<rparr>) (rd_measurements (cs ! c))"
    using known(2) by (simp add: map_update list_update_same_conv)
  then have "erased ?new = erased (cs ! c)" by (simp add: erased_def)
  then show "map erased (put_provenance cs s value) = map erased cs"
    using known(1) by (simp add: s put_provenance_def map_update list_update_same_conv)
  have "list_all provenance_ok (rd_measurements (cs ! c))" using assms(2) known(1) by (simp add: provenances_ok_def list_all_length)
  then have "list_all provenance_ok (rd_measurements ?new)"
    using assms(3,4) by (auto simp: list_all_iff provenance_ok_def dest!: set_update_subset_insert [THEN subsetD])
  then show "provenances_ok (put_provenance cs s value)"
    using assms(2) by (auto simp: s put_provenance_def provenances_ok_def list_all_iff dest!: set_update_subset_insert [THEN subsetD])
qed

lemma set_concurrency_known:
  assumes "provenance_ok m" "bound \<le> MAX_SAFE_INTEGER" "index \<le> MAX_SAFE_INTEGER" "n \<le> MAX_SAFE_INTEGER" "lane \<le> MAX_SAFE_INTEGER"
  shows "\<exists>value. set_concurrency (rm_provenance m) (concurrency_json bound index n lane) = Inr value
    \<and> is_object value \<and> canonical_domain value"
proof -
  from assms(1) obtain ms where ms: "rm_provenance m = JObject ms" "list_all (\<lambda>kv. canonical_domain (snd kv)) ms"
    by (auto simp: provenance_ok_def)
  have "canonical_domain (concurrency_json bound index n lane)"
    using assms(2-5) by (simp add: concurrency_json_def json_object_def ord_extend_def u64_value_def canonical_number_def number_from_u64_def)
  with ms(2) have "canonical_domain (JObject (ord_insert ''concurrency'' (concurrency_json bound index n lane) ms))"
    by (induction "''concurrency''" "concurrency_json bound index n lane" ms rule: ord_insert.induct) auto
  from normalize_value_fixed [OF this] this ms(1) show ?thesis by (simp add: set_concurrency_def)
qed

lemma write_lanes_known:
  assumes "list_all (slot_known cs) ss" "provenances_ok cs" "bound \<le> MAX_SAFE_INTEGER" "index \<le> MAX_SAFE_INTEGER"
    "n \<le> MAX_SAFE_INTEGER" "lane + length ss \<le> MAX_SAFE_INTEGER"
  shows "\<exists>cs'. write_lanes bound index n lane ss cs = Inr cs' \<and> map erased cs' = map erased cs \<and> provenances_ok cs'"
  using assms
proof (induction ss arbitrary: cs lane)
  case (Cons s ss)
  then have s: "slot_known cs s" by simp
  have "provenance_ok (slot_of cs s)"
    using Cons.prems(2) s by (auto simp: provenances_ok_def list_all_length slot_known_def slot_of_def)
  from set_concurrency_known [OF this Cons.prems(3-5), of lane] Cons.prems(6) obtain v where
    v: "set_concurrency (rm_provenance (slot_of cs s)) (concurrency_json bound index n lane) = Inr v" "is_object v" "canonical_domain v"
    by auto
  note kept = put_provenance_keeps [OF s Cons.prems(2) v(2,3)]
  have "list_all (slot_known (put_provenance cs s v)) ss"
    using Cons.prems(1) same_erased(1) [OF kept(1)] by (auto simp: list_all_iff)
  with Cons.IH [of "put_provenance cs s v" "lane + 1"] kept Cons.prems v(1) s show ?case
    by (simp add: measurement_known)
qed simp

section \<open>One batch\<close>

definition is_fresh :: "resolved_candidate list \<Rightarrow> nat \<times> nat \<Rightarrow> bool" where
  "is_fresh cs s \<longleftrightarrow> rm_fresh (slot_of cs s) \<noteq> None"

definition fresh_repetitions :: "resolved_candidate list \<Rightarrow> (nat \<times> nat) list \<Rightarrow> (digest \<times> u64) list" where
  "fresh_repetitions cs ss = map (\<lambda>s. repetition (slot_of cs s)) (filter (is_fresh cs) ss)"

lemma fresh_repetitions_Cons [simp]:
  "fresh_repetitions cs [] = []"
  "fresh_repetitions cs (s # ss) = (if is_fresh cs s then [repetition (slot_of cs s)] else []) @ fresh_repetitions cs ss"
  by (simp_all add: fresh_repetitions_def)

lemma batch_length_known:
  assumes "list_all (slot_known cs) ss"
  obtains n where "batch_length cs lanes seen ss = Inr n" "n \<le> lanes" "n \<le> length ss"
    "distinct (fresh_repetitions cs (take n ss))" "set (fresh_repetitions cs (take n ss)) \<inter> set seen = {}"
    "seen = [] \<Longrightarrow> 0 < lanes \<Longrightarrow> ss \<noteq> [] \<Longrightarrow> 0 < n"
    "list_all (\<lambda>s. \<not> is_fresh cs s) ss \<Longrightarrow> n = min lanes (length ss)"
proof -
  have "\<exists>n. batch_length cs lanes seen ss = Inr n \<and> n \<le> lanes \<and> n \<le> length ss
    \<and> distinct (fresh_repetitions cs (take n ss)) \<and> set (fresh_repetitions cs (take n ss)) \<inter> set seen = {}
    \<and> (seen = [] \<longrightarrow> 0 < lanes \<longrightarrow> ss \<noteq> [] \<longrightarrow> 0 < n) \<and> (list_all (\<lambda>s. \<not> is_fresh cs s) ss \<longrightarrow> n = min lanes (length ss))"
    using assms
  proof (induction ss arbitrary: lanes seen)
    case (Cons s ss)
    then have s: "measurement_at cs s = Inr (slot_of cs s)" by (simp add: measurement_known)
    show ?case
    proof (cases "lanes = 0 \<or> is_fresh cs s \<and> repetition (slot_of cs s) \<in> set seen")
      case True
      then show ?thesis using s by (auto simp: is_fresh_def)
    next
      case False
      let ?seen = "if is_fresh cs s then repetition (slot_of cs s) # seen else seen"
      obtain n where n: "batch_length cs (lanes - 1) ?seen ss = Inr n" "n \<le> lanes - 1" "n \<le> length ss"
        "distinct (fresh_repetitions cs (take n ss))" "set (fresh_repetitions cs (take n ss)) \<inter> set ?seen = {}"
        "list_all (\<lambda>s. \<not> is_fresh cs s) ss \<longrightarrow> n = min (lanes - 1) (length ss)"
        using Cons.IH [of "lanes - 1" ?seen] Cons.prems by auto
      then have "batch_length cs lanes seen (s # ss) = Inr (n + 1)" using False s by (auto simp: is_fresh_def)
      with n False show ?thesis by (intro exI [of _ "n + 1"]) auto
    qed
  qed simp
  then show thesis using that by blast
qed

section \<open>The batches of an experiment\<close>

fun covers :: "nat \<Rightarrow> nat \<Rightarrow> resolved_batch list \<Rightarrow> bool" where
  "covers i j [] \<longleftrightarrow> i = j"
| "covers i j (b # bs) \<longleftrightarrow> rb_start b = i \<and> i < rb_end b \<and> covers (rb_end b) j bs"

lemma covers_append: "covers i j xs \<Longrightarrow> covers j k ys \<Longrightarrow> covers i k (xs @ ys)"
  by (induction xs arbitrary: i) auto

lemma covers_bounds: "covers i j bs \<Longrightarrow> b \<in> set bs \<Longrightarrow> i \<le> rb_start b \<and> rb_end b \<le> j"
proof (induction bs arbitrary: i)
  case (Cons c bs)
  have "i \<le> j \<and> rb_end c \<le> j" using Cons.prems(1)
  proof -
    have "covers i j bs \<Longrightarrow> i \<le> j" for i bs by (induction bs arbitrary: i) force+
    with Cons.prems(1) show ?thesis by force
  qed
  with Cons show ?case by fastforce
qed simp

lemma slots_between_length: "j \<le> length schedule \<Longrightarrow> length (slots_between schedule i j) = j - i"
  by (auto simp: slots_between_def)

lemma slots_between_set: "set (slots_between schedule i j) \<subseteq> set schedule"
  unfolding slots_between_def by (meson order_trans set_drop_subset set_take_subset)

lemma slots_between_take: "n \<le> j - i \<Longrightarrow> take n (slots_between schedule i j) = slots_between schedule i (i + n)"
  by (simp add: slots_between_def min_absorb1)

definition batch_fits :: "resolved_candidate list \<Rightarrow> (nat \<times> nat) list \<Rightarrow> nat \<Rightarrow> resolved_batch \<Rightarrow> bool" where
  "batch_fits cs schedule lanes b \<longleftrightarrow> rb_lane_count b = lanes \<and> rb_end b - rb_start b \<le> lanes
     \<and> distinct (fresh_repetitions cs (slots_between schedule (rb_start b) (rb_end b)))"

lemma same_fresh:
  assumes "map erased cs = map erased ds" "list_all (slot_known ds) ss"
  shows "fresh_repetitions cs ss = fresh_repetitions ds ss" "list_all (slot_known cs) ss"
    "list_all (\<lambda>s. \<not> is_fresh ds s) ss \<Longrightarrow> list_all (\<lambda>s. \<not> is_fresh cs s) ss"
  using assms(2) same_erased [OF assms(1)] by (induction ss) (auto simp: is_fresh_def)

lemma fixed_batches_step:
  assumes "0 < n" "0 < lanes"
  shows "fixed_batches start n lanes
    = \<lparr>rb_start = start, rb_end = start + min lanes n, rb_lane_count = lanes\<rparr>
      # fixed_batches (start + min lanes n) (n - min lanes n) lanes"
proof -
  have "n + lanes - 1 = (n - 1) + lanes" using assms by simp
  then have k: "(n + lanes - 1) div lanes = Suc ((n - 1) div lanes)" using assms by (simp only: div_add_self2)
  show ?thesis
  proof (cases "n \<le> lanes")
    case True
    then have "(n - 1) div lanes = 0" using assms by simp
    with True k assms show ?thesis by (simp add: fixed_batches_def)
  next
    case False
    then have "n - lanes + lanes - 1 = n - 1" by simp
    moreover have "[0..<Suc j] = 0 # map Suc [0..<j]" for j by (simp add: upt_conv_Cons map_Suc_upt)
    ultimately show ?thesis using False assms unfolding fixed_batches_def k by (simp add: comp_def add.assoc)
  qed
qed

lemma group_batches_known:
  assumes "0 < lanes" "batch_start \<le> stop" "stop \<le> length schedule" "length schedule \<le> MAX_SAFE_INTEGER"
    and "bound \<le> MAX_SAFE_INTEGER" "index \<le> batch_start"
    and "list_all (slot_known cs) schedule" "provenances_ok cs"
  shows "\<exists>cs' bs. group_batches schedule bound lanes stop batch_start index (cs, acc) = Some (Inr (cs', acc @ bs))
    \<and> map erased cs' = map erased cs \<and> provenances_ok cs' \<and> covers batch_start stop bs
    \<and> list_all (batch_fits cs schedule lanes) bs
    \<and> (list_all (\<lambda>s. \<not> is_fresh cs s) schedule \<longrightarrow> bs = fixed_batches batch_start (stop - batch_start) lanes)"
  using assms
proof (induction "stop - batch_start" arbitrary: batch_start index cs acc rule: less_induct)
  case less
  show ?case
  proof (cases "batch_start < stop")
    case False
    with less.prems show ?thesis by (simp add: group_batches.simps fixed_batches_def)
  next
    case True
    let ?ss = "slots_between schedule batch_start stop"
    have known: "list_all (slot_known cs) (slots_between schedule i j)" for i j
      using less.prems(7) slots_between_set by (fastforce simp: list_all_iff)
    have len: "length ?ss = stop - batch_start" using less.prems(3) by (rule slots_between_length)
    obtain n where n: "batch_length cs lanes [] ?ss = Inr n" "n \<le> lanes" "n \<le> length ?ss"
      "distinct (fresh_repetitions cs (take n ?ss))" "0 < n" "list_all (\<lambda>s. \<not> is_fresh cs s) ?ss \<Longrightarrow> n = min lanes (length ?ss)"
      using batch_length_known [OF known, of lanes "[]" batch_start stop] less.prems(1) True len by (metis length_0_conv zero_less_diff less_irrefl)
    let ?these = "slots_between schedule batch_start (batch_start + n)"
    have taken: "take n ?ss = ?these" using n(3) len by (intro slots_between_take) simp
    have fit: "batch_start + n \<le> stop" using n(3) len True by linarith
    have "length ?these = n" using fit less.prems(3) by (subst slots_between_length) auto
    moreover have small: "index \<le> MAX_SAFE_INTEGER" "n \<le> MAX_SAFE_INTEGER"
      using less.prems(3,4,6) fit True by linarith+
    ultimately obtain cs1 where cs1: "write_lanes bound index n 0 ?these cs = Inr cs1" "map erased cs1 = map erased cs" "provenances_ok cs1"
      using write_lanes_known [OF known less.prems(8,5) small, of 0 batch_start "batch_start + n"] by auto
    let ?b = "\<lparr>rb_start = batch_start, rb_end = batch_start + n, rb_lane_count = lanes\<rparr>"
    have known1: "list_all (slot_known cs1) schedule" using same_fresh(2) [OF cs1(2) less.prems(7)] .
    have step: "stop - (batch_start + n) < stop - batch_start" "index + 1 \<le> batch_start + n" using n(5) True less.prems(6) by simp_all
    obtain cs' bs where rest: "group_batches schedule bound lanes stop (batch_start + n) (index + 1) (cs1, acc @ [?b])
        = Some (Inr (cs', (acc @ [?b]) @ bs))" "map erased cs' = map erased cs1" "provenances_ok cs'"
      "covers (batch_start + n) stop bs" "list_all (batch_fits cs1 schedule lanes) bs"
      "list_all (\<lambda>s. \<not> is_fresh cs1 s) schedule \<longrightarrow> bs = fixed_batches (batch_start + n) (stop - (batch_start + n)) lanes"
      using less.hyps [OF step(1) less.prems(1) fit less.prems(3-5) step(2) known1 cs1(3), of "acc @ [?b]"] by blast
    have run: "group_batches schedule bound lanes stop batch_start index (cs, acc) = Some (Inr (cs', acc @ (?b # bs)))"
      using True n(1) cs1(1) rest(1) by (simp add: group_batches.simps [of schedule bound lanes stop batch_start])
    have fits: "list_all (batch_fits cs schedule lanes) bs"
    proof -
      have "fresh_repetitions cs1 (slots_between schedule i j) = fresh_repetitions cs (slots_between schedule i j)" for i j
        by (rule same_fresh(1) [OF cs1(2) known])
      with rest(5) show ?thesis by (simp add: batch_fits_def list_all_iff)
    qed
    have "batch_fits cs schedule lanes ?b" using n(2,4) taken by (simp add: batch_fits_def)
    moreover have "?b # bs = fixed_batches batch_start (stop - batch_start) lanes" if plain: "list_all (\<lambda>s. \<not> is_fresh cs s) schedule"
    proof -
      have "list_all (\<lambda>s. \<not> is_fresh cs s) ?ss" using plain slots_between_set by (fastforce simp: list_all_iff)
      with n(6) len have m: "n = min lanes (stop - batch_start)" by simp
      have "list_all (\<lambda>s. \<not> is_fresh cs1 s) schedule" using same_fresh(3) [OF cs1(2) less.prems(7) plain] .
      with rest(6) m fixed_batches_step [of "stop - batch_start" lanes batch_start] True less.prems(1) show ?thesis by simp
    qed
    ultimately show ?thesis
      using run rest(2-4) cs1(2) n(5) fits by (intro exI [of _ cs'] exI [of _ "?b # bs"]) auto
  qed
qed

lemma group_batches_stuck:
  assumes "batch_start < stop" "stop \<le> length schedule"
  shows "group_batches schedule bound 0 stop batch_start index state = None"
proof -
  have "\<not> (lanes = 0 \<and> i < stop \<and> stop \<le> length schedule)"
    if "group_batches schedule bound lanes stop i index state = Some r" for schedule bound lanes stop i index state r
    using that
  proof (rule group_batches.raw_induct
      [where P = "\<lambda>schedule bound lanes stop i index state r. \<not> (lanes = 0 \<and> i < stop \<and> stop \<le> length schedule)", rotated], goal_cases step)
    case (step f schedule bound lanes stop i index state r)
    show ?case
    proof
      assume a: "lanes = 0 \<and> i < stop \<and> stop \<le> length schedule"
      then have "slots_between schedule i stop \<noteq> []" using slots_between_length [of stop schedule i] by auto
      then have "batch_length (fst state) lanes [] (slots_between schedule i stop) = Inr 0"
        using a by (cases "slots_between schedule i stop") simp_all
      with step(2) a have "f schedule bound lanes stop i (index + 1)
          (fst state, snd state @ [\<lparr>rb_start = i, rb_end = i, rb_lane_count = lanes\<rparr>]) = Some r"
        by (simp add: slots_between_def)
      from step(1) [OF this] a show False by simp
    qed
  qed
  from this [of schedule bound 0 stop batch_start index state] show ?thesis
    using assms by (cases "group_batches schedule bound 0 stop batch_start index state") auto
qed

section \<open>The batches of a schedule\<close>

definition bound_of :: "resolved_candidate list \<Rightarrow> nat \<times> nat \<Rightarrow> u64" where
  "bound_of cs s = epr_max_concurrency (rd_policy (cs ! fst s))"

definition experiment_of :: "resolved_candidate list \<Rightarrow> nat \<times> nat \<Rightarrow> string" where
  "experiment_of cs s = rd_experiment (cs ! fst s)"

text \<open>
  What the rest of the executor establishes: the schedule names slots of the run, provenances are canonical
  objects, bounds are safe integers, and the candidates of one experiment share its execution policy.
\<close>

definition run_wf :: "resolved_candidate list \<Rightarrow> (nat \<times> nat) list \<Rightarrow> bool" where
  "run_wf cs schedule \<longleftrightarrow> list_all (slot_known cs) schedule \<and> provenances_ok cs \<and> length schedule \<le> MAX_SAFE_INTEGER
     \<and> list_all (\<lambda>s. bound_of cs s \<le> MAX_SAFE_INTEGER) schedule
     \<and> list_all (\<lambda>s. list_all (\<lambda>t. experiment_of cs s = experiment_of cs t \<longrightarrow> bound_of cs s = bound_of cs t) schedule) schedule"

lemma run_wfD:
  assumes "run_wf cs schedule"
  shows "list_all (slot_known cs) schedule" "provenances_ok cs" "length schedule \<le> MAX_SAFE_INTEGER"
    "s \<in> set schedule \<Longrightarrow> bound_of cs s \<le> MAX_SAFE_INTEGER"
    "s \<in> set schedule \<Longrightarrow> t \<in> set schedule \<Longrightarrow> experiment_of cs s = experiment_of cs t \<Longrightarrow> bound_of cs s = bound_of cs t"
  using assms unfolding run_wf_def list_all_iff by blast+

lemma run_wf_same:
  assumes "map erased cs' = map erased cs" "run_wf cs schedule" "provenances_ok cs'"
  shows "run_wf cs' schedule" "s \<in> set schedule \<Longrightarrow> bound_of cs' s = bound_of cs s"
    "s \<in> set schedule \<Longrightarrow> experiment_of cs' s = experiment_of cs s"
proof -
  have known: "slot_known cs s" if "s \<in> set schedule" for s using run_wfD(1) [OF assms(2)] that by (simp add: list_all_iff)
  show same: "s \<in> set schedule \<Longrightarrow> bound_of cs' s = bound_of cs s" "s \<in> set schedule \<Longrightarrow> experiment_of cs' s = experiment_of cs s" for s
    using same_erased(2,3) [OF assms(1) known] by (simp_all add: bound_of_def experiment_of_def)
  have "list_all (\<lambda>s. bound_of cs' s \<le> MAX_SAFE_INTEGER) schedule"
    using run_wfD(4) [OF assms(2)] same(1) unfolding list_all_iff by metis
  moreover have "list_all (\<lambda>s. list_all (\<lambda>t. experiment_of cs' s = experiment_of cs' t \<longrightarrow> bound_of cs' s = bound_of cs' t) schedule) schedule"
    using run_wfD(5) [OF assms(2)] same unfolding list_all_iff by metis
  moreover have "list_all (slot_known cs') schedule" using run_wfD(1) [OF assms(2)] by (rule same_fresh(2) [OF assms(1)])
  ultimately show "run_wf cs' schedule" using assms(3) run_wfD(3) [OF assms(2)] unfolding run_wf_def by blast
qed

lemma group_length_known:
  assumes "list_all (slot_known cs) ss"
  obtains n where "group_length cs x ss = Inr n" "n \<le> length ss" "\<forall>s \<in> set (take n ss). experiment_of cs s = x"
    "n < length ss \<Longrightarrow> experiment_of cs (ss ! n) \<noteq> x"
proof -
  have "\<exists>n. group_length cs x ss = Inr n \<and> n \<le> length ss \<and> (\<forall>s \<in> set (take n ss). experiment_of cs s = x)
    \<and> (n < length ss \<longrightarrow> experiment_of cs (ss ! n) \<noteq> x)"
    using assms
  proof (induction ss)
    case (Cons s ss)
    then obtain n where n: "group_length cs x ss = Inr n" "n \<le> length ss" "\<forall>s \<in> set (take n ss). experiment_of cs s = x"
      "n < length ss \<longrightarrow> experiment_of cs (ss ! n) \<noteq> x" by auto
    show ?case
    proof (cases "experiment_of cs s = x")
      case True
      with n Cons.prems show ?thesis by (intro exI [of _ "n + 1"]) (auto simp: candidate_known experiment_of_def)
    next
      case False
      with Cons.prems show ?thesis by (intro exI [of _ 0]) (auto simp: candidate_known experiment_of_def)
    qed
  qed simp
  then show thesis using that by blast
qed

text \<open>One round of the loop over the schedule.\<close>

lemma schedule_round:
  assumes "run_wf cs schedule" "start < length schedule"
  obtains n where "start + n < length schedule"
    "\<forall>s \<in> set (slots_between schedule start (start + 1 + n)). experiment_of cs s = experiment_of cs (schedule ! start)"
    "start + 1 + n < length schedule \<Longrightarrow> experiment_of cs (schedule ! (start + 1 + n)) \<noteq> experiment_of cs (schedule ! start)"
    "schedule_batches schedule start (cs, acc) = Option.bind (group_batches schedule (bound_of cs (schedule ! start))
        (min (bound_of cs (schedule ! start)) (n + 1)) (start + 1 + n) start 0 (cs, acc)) (\<lambda>r.
      case r of Inl e \<Rightarrow> Some (Inl e) | Inr state \<Rightarrow> schedule_batches schedule (start + 1 + n) state)"
proof -
  have known: "list_all (slot_known cs) schedule" by (rule run_wfD(1) [OF assms(1)])
  then have first: "candidate_at cs (fst (schedule ! start)) = Inr (cs ! fst (schedule ! start))"
    using assms(2) candidate_known by (simp add: list_all_length)
  have later: "list_all (slot_known cs) (drop (start + 1) schedule)" using known set_drop_subset by (fastforce simp: list_all_iff)
  obtain n where n: "group_length cs (experiment_of cs (schedule ! start)) (drop (start + 1) schedule) = Inr n"
    "n \<le> length (drop (start + 1) schedule)"
    "\<forall>s \<in> set (take n (drop (start + 1) schedule)). experiment_of cs s = experiment_of cs (schedule ! start)"
    "n < length (drop (start + 1) schedule) \<Longrightarrow> experiment_of cs (drop (start + 1) schedule ! n) \<noteq> experiment_of cs (schedule ! start)"
    using group_length_known [OF later, of "experiment_of cs (schedule ! start)"] by blast
  have slots: "slots_between schedule start (start + 1 + n) = schedule ! start # take n (drop (start + 1) schedule)"
    using assms(2) by (simp add: slots_between_def Cons_nth_drop_Suc [symmetric])
  show thesis
  proof (rule that [of n])
    show "start + n < length schedule" using n(2) assms(2) by auto
    show "\<forall>s \<in> set (slots_between schedule start (start + 1 + n)). experiment_of cs s = experiment_of cs (schedule ! start)"
      using n(3) unfolding slots by simp
    show "start + 1 + n < length schedule \<Longrightarrow> experiment_of cs (schedule ! (start + 1 + n)) \<noteq> experiment_of cs (schedule ! start)"
      using n(4) by simp
    show "schedule_batches schedule start (cs, acc) = Option.bind (group_batches schedule (bound_of cs (schedule ! start))
        (min (bound_of cs (schedule ! start)) (n + 1)) (start + 1 + n) start 0 (cs, acc)) (\<lambda>r.
      case r of Inl e \<Rightarrow> Some (Inl e) | Inr state \<Rightarrow> schedule_batches schedule (start + 1 + n) state)"
      by (simp only: schedule_batches.simps [of schedule start] assms(2) if_True fst_conv first sum.case
          n(1) [unfolded experiment_of_def] bound_of_def)
  qed
qed

definition batch_ok :: "resolved_candidate list \<Rightarrow> (nat \<times> nat) list \<Rightarrow> resolved_batch \<Rightarrow> bool" where
  "batch_ok cs schedule b \<longleftrightarrow>
     (let slots = slots_between schedule (rb_start b) (rb_end b)
      in length slots \<le> rb_lane_count b
         \<and> (\<forall>s \<in> set slots. \<forall>t \<in> set slots. experiment_of cs s = experiment_of cs t)
         \<and> (\<forall>s \<in> set slots. rb_lane_count b \<le> bound_of cs s)
         \<and> distinct (fresh_repetitions cs slots))"

lemma between_subset: "i \<le> a \<Longrightarrow> b \<le> j \<Longrightarrow> set (slots_between schedule a b) \<subseteq> set (slots_between schedule i j)"
proof -
  assume a: "i \<le> a" "b \<le> j"
  then have "slots_between schedule a b = drop (a - i) (take (b - i) (drop i schedule))"
    by (simp add: slots_between_def drop_take)
  then have "set (slots_between schedule a b) \<subseteq> set (take (b - i) (drop i schedule))" by (simp add: set_drop_subset)
  also have "\<dots> \<subseteq> set (slots_between schedule i j)"
    using a(2) by (simp add: slots_between_def set_take_subset_set_take diff_le_mono)
  finally show ?thesis .
qed

lemma schedule_batches_known:
  assumes "run_wf cs schedule" "start \<le> length schedule" "\<forall>s \<in> set (drop start schedule). 0 < bound_of cs s"
  shows "\<exists>cs' bs. schedule_batches schedule start (cs, acc) = Some (Inr (cs', acc @ bs)) \<and> map erased cs' = map erased cs
    \<and> covers start (length schedule) bs \<and> list_all (batch_ok cs schedule) bs"
  using assms
proof (induction "length schedule - start" arbitrary: start cs acc rule: less_induct)
  case less
  show ?case
  proof (cases "start < length schedule")
    case False
    with less.prems(2) show ?thesis by (simp add: schedule_batches.simps)
  next
    case True
    note wf = less.prems(1)
    let ?x = "experiment_of cs (schedule ! start)" and ?bound = "bound_of cs (schedule ! start)"
    obtain n where n: "start + n < length schedule"
      "\<forall>s \<in> set (slots_between schedule start (start + 1 + n)). experiment_of cs s = ?x"
      "schedule_batches schedule start (cs, acc) = Option.bind (group_batches schedule ?bound (min ?bound (n + 1)) (start + 1 + n) start 0 (cs, acc)) (\<lambda>r.
        case r of Inl e \<Rightarrow> Some (Inl e) | Inr state \<Rightarrow> schedule_batches schedule (start + 1 + n) state)"
      using schedule_round [OF wf True] by metis
    have leader: "schedule ! start \<in> set (drop start schedule)" using True by (metis Cons_nth_drop_Suc list.set_intros(1))
    then have positive: "0 < ?bound" using less.prems(3) by blast
    have safe: "?bound \<le> MAX_SAFE_INTEGER" using run_wfD(4) [OF wf] True by simp
    have parts: "list_all (slot_known cs) schedule" "provenances_ok cs" "length schedule \<le> MAX_SAFE_INTEGER" by (fact run_wfD [OF wf])+
    have lanes: "0 < min ?bound (n + 1)" using positive by simp
    have bounds: "start + 1 + n \<le> length schedule" and le_add_group: "start \<le> start + 1 + n" using n(1) by simp_all
    obtain cs1 bs1 where group: "group_batches schedule ?bound (min ?bound (n + 1)) (start + 1 + n) start 0 (cs, acc) = Some (Inr (cs1, acc @ bs1))"
      "map erased cs1 = map erased cs" "provenances_ok cs1" "covers start (start + 1 + n) bs1"
      "list_all (batch_fits cs schedule (min ?bound (n + 1))) bs1"
      using group_batches_known [OF lanes le_add_group bounds parts(3) safe le0 parts(1,2), of acc] by blast
    note same = run_wf_same [OF group(2) wf group(3)]
    have "\<forall>s \<in> set (drop (start + 1 + n) schedule). 0 < bound_of cs1 s"
      using less.prems(3) same(2) set_drop_subset_set_drop [OF le_add_group, of schedule] by (metis in_set_dropD subsetD)
    moreover have dec: "length schedule - (start + 1 + n) < length schedule - start" using True by simp
    ultimately obtain cs' bs where rest:
      "schedule_batches schedule (start + 1 + n) (cs1, acc @ bs1) = Some (Inr (cs', acc @ bs1 @ bs))" "map erased cs' = map erased cs1"
      "covers (start + 1 + n) (length schedule) bs" "list_all (batch_ok cs1 schedule) bs"
      using less.hyps [OF dec same(1) bounds, of "acc @ bs1"] by auto
    have "batch_ok cs schedule b" if b: "b \<in> set bs1" for b
    proof -
      have inside: "set (slots_between schedule (rb_start b) (rb_end b)) \<subseteq> set (slots_between schedule start (start + 1 + n))"
        using covers_bounds [OF group(4) b] by (intro between_subset) simp_all
      have lanes: "rb_lane_count b = min ?bound (n + 1)" "rb_end b - rb_start b \<le> rb_lane_count b"
        "distinct (fresh_repetitions cs (slots_between schedule (rb_start b) (rb_end b)))"
        using group(5) b by (auto simp: list_all_iff batch_fits_def)
      have "rb_end b \<le> length schedule" using covers_bounds [OF group(4) b] n(1) by simp
      then have "length (slots_between schedule (rb_start b) (rb_end b)) \<le> rb_lane_count b"
        using lanes(2) by (simp add: slots_between_length)
      moreover have "bound_of cs s = ?bound" if "s \<in> set (slots_between schedule (rb_start b) (rb_end b))" for s
        using that inside n(2) run_wfD(5) [OF wf] True slots_between_set [of schedule start "start + 1 + n"]
        by (metis nth_mem subsetD)
      moreover have "experiment_of cs s = ?x" if "s \<in> set (slots_between schedule (rb_start b) (rb_end b))" for s
        using that inside n(2) by blast
      ultimately show ?thesis using lanes(1,3) unfolding batch_ok_def Let_def by (metis min.cobounded1)
    qed
    moreover have "batch_ok cs schedule b" if "b \<in> set bs" for b
    proof -
      have "fresh_repetitions cs1 (slots_between schedule i j) = fresh_repetitions cs (slots_between schedule i j)" for i j
        using same_fresh(1) [OF group(2), of "slots_between schedule i j"] parts(1) slots_between_set [of schedule i j]
        by (auto simp: list_all_iff)
      moreover have "batch_ok cs1 schedule b" using rest(4) that by (simp add: list_all_iff)
      ultimately show ?thesis
        using same(2,3) slots_between_set [of schedule "rb_start b" "rb_end b"] unfolding batch_ok_def Let_def
        by (metis subsetD)
    qed
    ultimately have "list_all (batch_ok cs schedule) (bs1 @ bs)" by (auto simp: list_all_iff)
    moreover have "covers start (length schedule) (bs1 @ bs)" using group(4) rest(3) by (rule covers_append)
    moreover have "schedule_batches schedule start (cs, acc) = Some (Inr (cs', acc @ (bs1 @ bs)))" using n(3) group(1) rest(1) by simp
    ultimately show ?thesis using rest(2) group(2) by metis
  qed
qed

lemma schedule_batches_stuck:
  assumes "run_wf cs schedule" "start \<le> j" "j < length schedule" "bound_of cs (schedule ! j) = 0"
  shows "schedule_batches schedule start (cs, acc) = None"
  using assms
proof (induction "length schedule - start" arbitrary: start cs acc rule: less_induct)
  case less
  note wf = less.prems(1)
  have start: "start < length schedule" using less.prems(2,3) by simp
  let ?bound = "bound_of cs (schedule ! start)"
  obtain n where n: "start + n < length schedule"
    "\<forall>s \<in> set (slots_between schedule start (start + 1 + n)). experiment_of cs s = experiment_of cs (schedule ! start)"
    "schedule_batches schedule start (cs, acc) = Option.bind (group_batches schedule ?bound (min ?bound (n + 1)) (start + 1 + n) start 0 (cs, acc)) (\<lambda>r.
      case r of Inl e \<Rightarrow> Some (Inl e) | Inr state \<Rightarrow> schedule_batches schedule (start + 1 + n) state)"
    using schedule_round [OF wf start] by metis
  show ?case
  proof (cases "?bound = 0")
    case True
    with n(3) group_batches_stuck [of start "start + 1 + n" schedule ?bound 0 "(cs, acc)"] n(1) show ?thesis by simp
  next
    case False
    have safe: "?bound \<le> MAX_SAFE_INTEGER" using run_wfD(4) [OF wf] start by simp
    have parts: "list_all (slot_known cs) schedule" "provenances_ok cs" "length schedule \<le> MAX_SAFE_INTEGER" by (fact run_wfD [OF wf])+
    have lanes: "0 < min ?bound (n + 1)" using False by simp
    have bounds: "start + 1 + n \<le> length schedule" and le_add_group: "start \<le> start + 1 + n" using n(1) by simp_all
    obtain cs1 bs1 where group: "group_batches schedule ?bound (min ?bound (n + 1)) (start + 1 + n) start 0 (cs, acc) = Some (Inr (cs1, acc @ bs1))"
      "map erased cs1 = map erased cs" "provenances_ok cs1"
      using group_batches_known [OF lanes le_add_group bounds parts(3) safe le0 parts(1,2), of acc] by blast
    note same = run_wf_same [OF group(2) wf group(3)]
    have later: "start + 1 + n \<le> j"
    proof (rule ccontr)
      assume "\<not> start + 1 + n \<le> j"
      then have "j - start < length (slots_between schedule start (start + 1 + n))" "slots_between schedule start (start + 1 + n) ! (j - start) = schedule ! j"
        using n(1) less.prems(2) by (simp_all add: slots_between_length) (simp add: slots_between_def)
      then have "schedule ! j \<in> set (slots_between schedule start (start + 1 + n))" by (metis nth_mem)
      with n(2) have "experiment_of cs (schedule ! j) = experiment_of cs (schedule ! start)" by blast
      then have "bound_of cs (schedule ! j) = ?bound"
        using run_wfD(5) [OF wf] less.prems(3) start by (metis nth_mem)
      with False less.prems(4) show False by simp
    qed
    have "bound_of cs1 (schedule ! j) = 0" using same(2) less.prems(3,4) by simp
    moreover have dec: "length schedule - (start + 1 + n) < length schedule - start" using start by simp
    ultimately show ?thesis using less.hyps [OF dec same(1) later less.prems(3), of "acc @ bs1"] n(3) group(1) by simp
  qed
qed

section \<open>The resolved layout\<close>

text \<open>Experiments whose slots share a positive bound and an experiment no later slot belongs to.\<close>

fun experiments_ok :: "resolved_candidate list \<Rightarrow> (u64 \<times> (nat \<times> nat) list) list \<Rightarrow> bool" where
  "experiments_ok cs [] \<longleftrightarrow> True"
| "experiments_ok cs ((b, ordered) # es) \<longleftrightarrow>
     (\<forall>s \<in> set ordered. bound_of cs s = b \<and> 0 < b
        \<and> experiment_of cs s = experiment_of cs (hd ordered)
        \<and> (\<forall>t \<in> set (concat (map snd es)). experiment_of cs t \<noteq> experiment_of cs s))
     \<and> experiments_ok cs es"

lemma experiments_ok_same:
  assumes "\<And>s. s \<in> set (concat (map snd es)) \<Longrightarrow> bound_of cs' s = bound_of cs s \<and> experiment_of cs' s = experiment_of cs s"
    and "experiments_ok cs es"
  shows "experiments_ok cs' es"
  using assms
proof (induction es)
  case (Cons e es)
  obtain b ordered where e: "e = (b, ordered)" by (cases e)
  have each: "bound_of cs' s = b \<and> 0 < b \<and> experiment_of cs' s = experiment_of cs' (hd ordered)
      \<and> (\<forall>t \<in> set (concat (map snd es)). experiment_of cs' t \<noteq> experiment_of cs' s)" if s: "s \<in> set ordered" for s
  proof -
    have "hd ordered \<in> set ordered" using s by (cases ordered) auto
    then have "experiment_of cs' (hd ordered) = experiment_of cs (hd ordered)" "experiment_of cs' s = experiment_of cs s"
      "bound_of cs' s = bound_of cs s"
      using Cons.prems(1) s unfolding e by simp_all
    moreover have "experiment_of cs' t = experiment_of cs t" if "t \<in> set (concat (map snd es))" for t
      using Cons.prems(1) [of t] that unfolding e by simp
    ultimately show ?thesis using Cons.prems(2) s unfolding e experiments_ok.simps by metis
  qed
  have "experiments_ok cs' es" using Cons.IH Cons.prems unfolding e by simp
  with each show ?case unfolding e experiments_ok.simps by blast
qed simp

lemma schedule_layout:
  assumes "run_wf cs schedule" "schedule = before @ concat (map snd es)" "experiments_ok cs es"
    and "list_all (\<lambda>s. \<not> is_fresh cs s) schedule"
  shows "\<exists>cs'. schedule_batches schedule (length before) (cs, acc) = Some (Inr (cs', acc @ resolve_layout (length before) es))"
  using assms
proof (induction es arbitrary: before cs acc)
  case Nil
  then show ?case by (simp add: schedule_batches.simps)
next
  case (Cons e es)
  obtain b ordered where e: "e = (b, ordered)" by (cases e)
  show ?case
  proof (cases "ordered = []")
    case True
    with Cons e show ?thesis by simp
  next
    case False
    note wf = Cons.prems(1)
    let ?start = "length before" and ?later = "concat (map snd es)"
    have schedule: "schedule = before @ ordered @ ?later" using Cons.prems(2) e by simp
    then have start: "?start < length schedule" using False by simp
    have leader: "schedule ! ?start = hd ordered" using schedule False by (simp add: nth_append hd_conv_nth)
    have ok: "\<And>s. s \<in> set ordered \<Longrightarrow> bound_of cs s = b \<and> 0 < b \<and> experiment_of cs s = experiment_of cs (hd ordered)"
      "\<And>t. t \<in> set ?later \<Longrightarrow> experiment_of cs t \<noteq> experiment_of cs (hd ordered)"
      using Cons.prems(3) False hd_in_set [OF False] unfolding e experiments_ok.simps by metis+
    have bound: "bound_of cs (schedule ! ?start) = b" "0 < b" using ok(1) [of "hd ordered"] leader False by simp_all
    obtain n where n: "?start + n < length schedule"
      "\<forall>s \<in> set (slots_between schedule ?start (?start + 1 + n)). experiment_of cs s = experiment_of cs (schedule ! ?start)"
      "?start + 1 + n < length schedule \<Longrightarrow> experiment_of cs (schedule ! (?start + 1 + n)) \<noteq> experiment_of cs (schedule ! ?start)"
      "schedule_batches schedule ?start (cs, acc) = Option.bind (group_batches schedule b (min b (n + 1)) (?start + 1 + n) ?start 0 (cs, acc)) (\<lambda>r.
        case r of Inl e \<Rightarrow> Some (Inl e) | Inr state \<Rightarrow> schedule_batches schedule (?start + 1 + n) state)"
      using schedule_round [OF wf start, of acc] bound(1) by metis
    have slots: "slots_between schedule ?start (?start + 1 + n) = take (n + 1) (ordered @ ?later)"
      by (simp add: slots_between_def schedule)
    have size_n: "n + 1 = length ordered"
    proof (rule antisym)
      show "n + 1 \<le> length ordered"
      proof (rule ccontr)
        assume "\<not> n + 1 \<le> length ordered"
        then have "length ordered < length (take (n + 1) (ordered @ ?later))" using n(1) schedule by simp
        moreover from this have "0 < length ?later" by (simp only: length_take length_append)
        then have "?later ! 0 \<in> set ?later" by (rule nth_mem)
        then have "take (n + 1) (ordered @ ?later) ! length ordered \<in> set ?later"
          using \<open>\<not> n + 1 \<le> length ordered\<close> by (simp only: nth_take nth_append) simp
        ultimately show False using n(2) ok(2) leader unfolding slots by (metis nth_mem)
      qed
      show "length ordered \<le> n + 1"
      proof (rule ccontr)
        assume a: "\<not> length ordered \<le> n + 1"
        then have "schedule ! (?start + 1 + n) = ordered ! (n + 1)" "?start + 1 + n < length schedule"
          by (simp_all add: schedule nth_append)
        moreover have "ordered ! (n + 1) \<in> set ordered" using a by simp
        ultimately show False using n(3) ok(1) leader by metis
      qed
    qed
    have safe: "b \<le> MAX_SAFE_INTEGER" using run_wfD(4) [OF wf, of "schedule ! ?start"] start bound(1) by simp
    have bounds: "?start \<le> ?start + 1 + n" "?start + 1 + n \<le> length schedule" "0 < min b (n + 1)" using n(1) bound(2) by simp_all
    obtain cs1 bs1 where group: "group_batches schedule b (min b (n + 1)) (?start + 1 + n) ?start 0 (cs, acc) = Some (Inr (cs1, acc @ bs1))"
      "map erased cs1 = map erased cs" "provenances_ok cs1" "bs1 = fixed_batches ?start (?start + 1 + n - ?start) (min b (n + 1))"
      using group_batches_known [OF bounds(3,1,2) run_wfD(3) [OF wf] safe le0 run_wfD(1,2) [OF wf], of acc] Cons.prems(4) by blast
    note same = run_wf_same [OF group(2) wf group(3)]
    have next_es: "experiments_ok cs1 es"
      using Cons.prems(3) e schedule same(2,3) by (intro experiments_ok_same [of es cs1 cs]) auto
    have plain: "list_all (\<lambda>s. \<not> is_fresh cs1 s) schedule" by (rule same_fresh(3) [OF group(2) run_wfD(1) [OF wf] Cons.prems(4)])
    have "schedule = (before @ ordered) @ ?later" using schedule by simp
    from Cons.IH [OF same(1) this next_es plain, of "acc @ bs1"] obtain cs' where
      rest: "schedule_batches schedule (length (before @ ordered)) (cs1, acc @ bs1)
        = Some (Inr (cs', (acc @ bs1) @ resolve_layout (length (before @ ordered)) es))" by blast
    have stop: "?start + 1 + n = length (before @ ordered)" using size_n by simp
    have "schedule_batches schedule ?start (cs, acc) = Some (Inr (cs', (acc @ bs1) @ resolve_layout (length (before @ ordered)) es))"
      unfolding n(4) group(1) Option.bind.simps sum.case unfolding stop by (rule rest)
    moreover have "bs1 = fixed_batches ?start (length ordered) (min b (length ordered))" using group(4) size_n by simp
    ultimately show ?thesis using e False by simp
  qed
qed

section \<open>A run of two experiments\<close>

definition demo_policy :: "u64 \<Rightarrow> execution_policy" where
  "demo_policy bound = \<lparr>epr_name = ''local'', epr_cpus = None, epr_threads = None, epr_memory = None, epr_network = False,
     epr_worker_reuse = False, epr_warmup_runs = 0, epr_timeout = None, epr_timing_scope = ExecuteOnly,
     epr_primary_time = TimedWallTime, epr_run_order = Sequential, epr_max_concurrency = bound,
     epr_enforcement = BestEffortEnforcement\<rparr>"

definition demo_measurement :: "fresh_control option \<Rightarrow> u64 \<Rightarrow> resolved_measurement" where
  "demo_measurement fresh n = \<lparr>rm_fresh = fresh, rm_specification = [],
     rm_scheduling = \<lparr>ss_observation_round = 0, ss_logical_slot = [], ss_comparison_block =
       \<lparr>cb_dataset_instance = [], cb_problem_configuration = [], cb_implementation_repetition = 0, cb_measurement_index = n\<rparr>,
       ss_scheduling_priority = []\<rparr>, rm_provenance = JObject []\<rparr>"

definition demo_run :: "u64 \<Rightarrow> fresh_control option \<Rightarrow> resolved_run" where
  "demo_run bound fresh = \<lparr>rr_candidates =
      [\<lparr>rd_experiment = ''a'', rd_policy = demo_policy bound,
         rd_measurements = [demo_measurement fresh 0, demo_measurement fresh 0, demo_measurement fresh 1]\<rparr>,
       \<lparr>rd_experiment = ''b'', rd_policy = demo_policy 1, rd_measurements = [demo_measurement None 0]\<rparr>],
     rr_schedule = [], rr_batches = []\<rparr>"

definition demo_experiments :: "u64 \<Rightarrow> (u64 \<times> (nat \<times> nat) list) list" where
  "demo_experiments bound = [(bound, [(0, 0), (0, 1), (0, 2)]), (1, [(1, 0)])]"

lemma demo_run_wf: "bound \<le> 2 \<Longrightarrow> run_wf (rr_candidates (demo_run bound fresh)) [(0, 0), (0, 1), (0, 2), (1, 0)]"
  by (simp add: run_wf_def demo_run_def slot_known_def provenances_ok_def provenance_ok_def demo_measurement_def
      demo_policy_def bound_of_def experiment_of_def MAX_SAFE_INTEGER_def)

lemma demo_bounds: "bound_of (rr_candidates (demo_run bound fresh)) (0, i) = bound"
  "bound_of (rr_candidates (demo_run bound fresh)) (1, i) = 1"
  by (simp_all add: bound_of_def demo_run_def demo_policy_def)

section \<open>Properties\<close>

text \<open>
  C14 (batching_terminates): rebuilding the batches of a well-formed schedule returns exactly when no
  scheduled experiment has a concurrency bound of zero; with a bound of zero the loop over its batches
  appends empty batches for ever.
\<close>

theorem batching_terminates:
  assumes "run_wf (rr_candidates run) schedule"
  shows "rebuild_batches run schedule \<noteq> None \<longleftrightarrow> (\<forall>s \<in> set schedule. 0 < bound_of (rr_candidates run) s)"
proof
  assume returns: "rebuild_batches run schedule \<noteq> None"
  show "\<forall>s \<in> set schedule. 0 < bound_of (rr_candidates run) s"
  proof (rule ccontr)
    assume "\<not> (\<forall>s \<in> set schedule. 0 < bound_of (rr_candidates run) s)"
    then obtain j where "j < length schedule" "bound_of (rr_candidates run) (schedule ! j) = 0" by (auto simp: in_set_conv_nth)
    from schedule_batches_stuck [OF assms le0 this] returns show False by (simp add: rebuild_batches_def)
  qed
next
  assume "\<forall>s \<in> set schedule. 0 < bound_of (rr_candidates run) s"
  with schedule_batches_known [OF assms le0, of "[]"] show "rebuild_batches run schedule \<noteq> None"
    by (auto simp: rebuild_batches_def)
qed

theorem batching_terminates_witness:
  "rebuild_batches (demo_run 0 None) [(0, 0), (0, 1), (0, 2), (1, 0)] = None
    \<and> rebuild_batches (demo_run 2 None) [(0, 0), (0, 1), (0, 2), (1, 0)] \<noteq> None"
  using batching_terminates [OF demo_run_wf [of 0 None]] batching_terminates [OF demo_run_wf [of 2 None]]
  by (simp add: demo_bounds demo_bounds(2) [of _ _ 0, unfolded One_nat_def])

text \<open>
  C15 (batches_partition_schedule): the batches of a well-formed schedule with positive bounds cover it in
  order without gaps or overlaps, none is empty, each holds slots of one experiment, at most one per lane
  and no more lanes than its concurrency bound, and never two fresh slots of the same repetition; only the
  provenance of the slots changes.
\<close>

theorem batches_partition_schedule:
  assumes "run_wf (rr_candidates run) schedule" "\<forall>s \<in> set schedule. 0 < bound_of (rr_candidates run) s"
  shows "\<exists>run'. rebuild_batches run schedule = Some (Inr run') \<and> rr_schedule run' = schedule
    \<and> map erased (rr_candidates run') = map erased (rr_candidates run)
    \<and> covers 0 (length schedule) (rr_batches run')
    \<and> list_all (batch_ok (rr_candidates run) schedule) (rr_batches run')"
  using schedule_batches_known [OF assms(1) le0, of "[]"] assms(2) by (auto simp: rebuild_batches_def)

theorem batches_partition_schedule_witness:
  "\<exists>run'. rebuild_batches (demo_run 2 (Some \<lparr>fc_schedule_index = 0, fc_control = JNull\<rparr>)) [(0, 0), (0, 1), (0, 2), (1, 0)] = Some (Inr run')
    \<and> covers 0 4 (rr_batches run')
    \<and> list_all (batch_ok (rr_candidates (demo_run 2 (Some \<lparr>fc_schedule_index = 0, fc_control = JNull\<rparr>))) [(0, 0), (0, 1), (0, 2), (1, 0)]) (rr_batches run')"
proof -
  let ?run = "demo_run 2 (Some \<lparr>fc_schedule_index = 0, fc_control = JNull\<rparr>)"
  have "\<forall>s \<in> set [(0, 0), (0, 1), (0, 2), (1, 0)]. 0 < bound_of (rr_candidates ?run) s"
    by (simp add: demo_bounds demo_bounds(2) [of _ _ 0, unfolded One_nat_def])
  from batches_partition_schedule [OF demo_run_wf this] show ?thesis by (auto simp: numeral_eq_Suc)
qed

text \<open>
  C16 (rebuilt_as_resolved): rebuilding a whole schedule of experiments without fresh slots yields exactly
  the fixed batches the resolution of the plan lays out with its step arithmetic.
\<close>

theorem rebuilt_as_resolved:
  assumes "run_wf (rr_candidates run) (concat (map snd experiments))"
    and "experiments_ok (rr_candidates run) experiments"
    and "list_all (\<lambda>s. \<not> is_fresh (rr_candidates run) s) (concat (map snd experiments))"
  shows "\<exists>run'. rebuild_batches run (concat (map snd experiments)) = Some (Inr run')
    \<and> rr_batches run' = resolve_layout 0 experiments"
  using schedule_layout [OF assms(1) _ assms(2,3), of "[]" "[]"] by (auto simp: rebuild_batches_def)

theorem rebuilt_as_resolved_witness:
  "\<exists>run'. rebuild_batches (demo_run 2 None) (concat (map snd (demo_experiments 2))) = Some (Inr run')
    \<and> rr_batches run' = [\<lparr>rb_start = 0, rb_end = 2, rb_lane_count = 2\<rparr>, \<lparr>rb_start = 2, rb_end = 3, rb_lane_count = 2\<rparr>,
        \<lparr>rb_start = 3, rb_end = 4, rb_lane_count = 1\<rparr>]"
proof -
  have slots: "concat (map snd (demo_experiments 2)) = [(0, 0), (0, 1), (0, 2), (1, 0)]" by (simp add: demo_experiments_def)
  have wf: "run_wf (rr_candidates (demo_run 2 None)) (concat (map snd (demo_experiments 2)))"
    unfolding slots by (rule demo_run_wf) simp
  have ok: "experiments_ok (rr_candidates (demo_run 2 None)) (demo_experiments 2)"
    by (simp add: demo_experiments_def demo_run_def bound_of_def experiment_of_def demo_policy_def)
  have plain: "list_all (\<lambda>s. \<not> is_fresh (rr_candidates (demo_run 2 None)) s) (concat (map snd (demo_experiments 2)))"
    unfolding slots by (simp add: is_fresh_def slot_of_def demo_run_def demo_measurement_def)
  have layout: "resolve_layout 0 (demo_experiments 2) = [\<lparr>rb_start = 0, rb_end = 2, rb_lane_count = 2\<rparr>,
      \<lparr>rb_start = 2, rb_end = 3, rb_lane_count = 2\<rparr>, \<lparr>rb_start = 3, rb_end = 4, rb_lane_count = 1\<rparr>]"
    by code_simp
  show ?thesis using rebuilt_as_resolved [OF wf ok plain] unfolding layout .
qed

end
