(* ===== verification/Spec2Isabelle.thy ===== *)
theory Spec2Isabelle
  imports Run_Allowance Run_Effects Plan_Laws Worker_Reuse Buffer_Guarantees Buffer_Acceptance Batch_Laws
begin

text \<open>
  A verification development for \<open>metewand\<close>, a benchmark runner.  A manifest declares problems,
  datasets, implementations and experiments; planning expands it into specifications and slots; a run
  drives worker processes over a JSON-Lines protocol and records every attempt in a SQLite run store.
  The development models the parts that carry this logic and proves what makes them correct.

  Shared vocabulary.  \<open>Mw_Prelude\<close>: results with the question-mark operator, 64-bit ranges,
  ordered maps, decimal and byte helpers.  \<open>Json_Value\<close> and \<open>Canonical_Json\<close>
  (\<open>core/canonical.rs\<close>): binary64 values, JSON values, the restricted domain and its normalizer.
  \<open>Serde_Derive\<close>: what derived readers and writers mean.  \<open>Record_Identity\<close>
  (\<open>core/identity.rs\<close>): identity transcripts and the record \<open>externals\<close>, which holds the code
  outside the repository (SHA-256, the RFC 8785 serializer, the JSON parser and printer, a SQLite
  predicate) and is an argument of every definition that uses it.  What a theorem needs of it is a
  named predicate on that record.

  Planning.  \<open>Manifest_Model\<close> (\<open>core/manifest.rs\<close>, \<open>core/problem_contract.rs\<close>),
  \<open>Schema_Catalog\<close> (\<open>core/schema.rs\<close>), \<open>Parameters\<close> (\<open>core/parameters.rs\<close>),
  \<open>Compatibility\<close> (\<open>core/compatibility.rs\<close>), \<open>Profile_Policy\<close> and
  \<open>Control_Schedule\<close> (\<open>core/profile.rs\<close>, \<open>core/duration.rs\<close>),
  \<open>Configuration_Expansion\<close>, \<open>Logical_Plan\<close> (\<open>core/planning.rs\<close>),
  \<open>Seed_Scheduling\<close> (\<open>core/seed.rs\<close>, \<open>core/scheduling.rs\<close>) and
  \<open>Execution_Controls\<close> follow the source function by function.  \<open>Expansion_Laws\<close> and
  \<open>Plan_Laws\<close> prove that expansion is complete and free of duplicates, that planning never
  panics, and which coordinates the planned slots have.

  The run store.  \<open>Run_Records\<close> holds the registered records; \<open>Run_Tables\<close> is the schema
  \<open>v3.sql\<close>: a row record per table, and every constraint, index and trigger as a guard of the
  statements the store executes.  \<open>Run_Guards\<close>, \<open>Run_Attempts\<close>, \<open>Run_Fresh\<close>,
  \<open>Run_Coordination\<close>, \<open>Run_Publication\<close> and \<open>Run_Recovery\<close> are the transactions of the
  files of the same names under \<open>runtime/run_store\<close>; a failed transaction leaves the database as
  it was.  \<open>Run_Steps\<close> makes them one transition system, any caller with any guard at any time.
  \<open>Run_Evolution\<close>, \<open>Run_History\<close>, \<open>Run_Safety\<close>, \<open>Run_Budget\<close>,
  \<open>Run_Sequences\<close> and \<open>Run_Ledger\<close> instantiate the locale of relations and invariants that the
  statements preserve; \<open>Run_Ownership\<close>, \<open>Run_Allowance\<close>, \<open>Run_Progress\<close> and
  \<open>Run_Effects\<close> state the contracts of every reachable store.

  Workers.  \<open>Wire_Framing\<close> (\<open>protocol/framing.rs\<close>) refines a one-pass specification of the
  byte stream; \<open>Wire_Messages\<close>, \<open>Wire_Laws\<close>, \<open>Wire_Codecs\<close> and \<open>Wire_Session\<close>
  (\<open>protocol/messages.rs\<close>) hold every message type, its round trip, the handshake and the request
  tracker.  \<open>Redaction\<close> and \<open>Redaction_Text\<close> (\<open>runtime/redaction.rs\<close>) hide secrets.
  \<open>Worker_Session\<close> and \<open>Worker_Stream\<close> (\<open>runtime/worker_session.rs\<close> and its streaming
  module) take every reply, delay and failure of the process as an environment argument;
  \<open>Worker_Laws\<close> and \<open>Worker_Stream_Laws\<close> discharge the contract of a session operation for
  each of them and \<open>Worker_Contracts\<close> states what any sequence of calls keeps.
  \<open>Worker_Reuse\<close> (\<open>runtime/worker_reuse.rs\<close>) decides which session a slot runs on.

  Buffered profiles (\<open>runtime/buffered.rs\<close>).  A worker records a whole execution into a
  collector and hands a directory over; the executor validates it without trusting the worker.
  \<open>Buffer_Records\<close> holds the documents, \<open>Buffer_Recorder\<close> the collector's operations,
  \<open>Buffer_Validation\<close> the executor's \<open>validate_buffer\<close>.  \<open>Buffer_Text\<close> states what is
  relied on of the RFC 8785 serializer (\<open>rfc8785\<close>: a canonical value has a text without a line
  break that is parsed back as the value, and arrays, objects, natural numbers and hexadecimal strings
  are laid out without any other character) and of SHA-256 (\<open>sha256_width\<close>: 32 bytes).  \<open>Buffer_Sizes\<close>,
  \<open>Buffer_Invariant\<close>, \<open>Buffer_Steps\<close> and \<open>Buffer_Finish\<close> prove the collector's
  invariant over every sequence of its calls, \<open>Buffer_Files\<close> and \<open>Buffer_Readback\<close> follow
  its files into the validator, and \<open>Buffer_Roundtrip\<close> joins the two: what a collector writes the
  executor accepts.  \<open>Buffer_Guarantees\<close> states what a collector promises on its own,
  \<open>Buffer_Acceptance\<close> what an accepted directory promises whoever wrote it.
  \<open>Buffer_Demo\<close> and \<open>Buffer_Example\<close> give a serializer and a parser that meet \<open>rfc8785\<close>
  and a recording made with them.

  Dispatch.  \<open>Run_Batches\<close> (\<open>runtime/run/selection.rs\<close>, \<open>runtime/run/resolution.rs\<close>) holds
  the loops that cut a schedule into batches, \<open>Batch_Laws\<close> when they return and what the batches are.

  Bounds and fuel.  Schema references are followed at most 64 times, as the source does; the bound is
  part of the code.  The two loops over a schedule in \<open>Run_Batches\<close> are partial functions, since one
  of them does not end for a concurrency bound of zero; \<open>Batch_Laws\<close> proves exactly when they return.
  Every other loop is structural or has a measure.

  Not modelled: process supervision, sockets and operating-system calls; downloads, repositories and
  environment builders; file-tree assembly of archives and exports; terminal output and argument
  parsing; YAML and JSON-Schema reading, which third-party libraries do.  Where a modelled operation
  depends on one of them, its outcome is an argument.
\<close>

end
